(* ===== verification/Prelude.thy ===== *)
theory Prelude
  imports Main "HOL-Library.Word"
begin

text \<open>
  The shared base of the development: the widths of the C++ integer types
  (\<^verbatim>\<open>src/src/server/shared/Define.h\<close>), results of operations that may throw or
  abort, the collections of simplification rules the component theories fill, and the
  generic facts on bits, bytes and lists that several components use.
\<close>

section \<open>Machine integers\<close>

unbundle bit_operations_syntax

type_synonym u8 = "8 word"
type_synonym u16 = "16 word"
type_synonym u32 = "32 word"
type_synonym u64 = "64 word"

text \<open>
  \<open>size_t\<close> values are naturals; an addition of two of them wraps at \<open>2 ^ 64\<close> and is written
  \<open>size_add\<close>, so that a bounds check that can be defeated by the wrap-around is one in
  the model too.
\<close>

definition size_add :: "nat \<Rightarrow> nat \<Rightarrow> nat" where
  "size_add a b = (a + b) mod 2 ^ 64"

lemma size_add_exact [simp]: "a + b < 2 ^ 64 \<Longrightarrow> size_add a b = a + b"
  by (simp add: size_add_def)

lemma sint_in_range: "- (2 ^ 31) \<le> x \<Longrightarrow> x < 2 ^ 31 \<Longrightarrow> sint (word_of_int x :: u32) = x"
  by (simp add: signed_of_int signed_take_bit_int_eq_self)

lemma word_of_int_inj:
  "- (2 ^ 31) \<le> x \<Longrightarrow> x < 2 ^ 31 \<Longrightarrow> - (2 ^ 31) \<le> y \<Longrightarrow> y < 2 ^ 31 \<Longrightarrow>
     (word_of_int x :: u32) = word_of_int y \<Longrightarrow> x = y"
  by (metis sint_in_range)

section \<open>Factions of players\<close>

text \<open>\<^verbatim>\<open>enum Team\<close> (\<^verbatim>\<open>src/src/server/game/Miscellaneous/SharedDefines.h\<close>), as the channels and the battlegrounds use it.\<close>

definition ALLIANCE :: u32 where "ALLIANCE = 469"
definition HORDE :: u32 where "HORDE = 67"

section \<open>Results\<close>

text \<open>
  An operation that may throw returns \<open>'e + 'a\<close>; \<open>rbind\<close> sequences two of them, the
  second not running when the first has thrown.
\<close>

definition rbind :: "'e + 'a \<Rightarrow> ('a \<Rightarrow> 'e + 'b) \<Rightarrow> 'e + 'b" where
  "rbind r f = (case r of Inl e \<Rightarrow> Inl e | Inr x \<Rightarrow> f x)"

lemma rbind_Inl [simp]: "rbind (Inl e) f = Inl e"
  and rbind_Inr [simp]: "rbind (Inr x) f = f x"
  by (simp_all add: rbind_def)

lemma rbind_eq_Inr: "rbind r f = Inr y \<longleftrightarrow> (\<exists>x. r = Inr x \<and> f x = Inr y)"
  by (cases r) auto

lemma rbind_InrE: "rbind r f = Inr y \<Longrightarrow> (\<And>x. r = Inr x \<Longrightarrow> f x = Inr y \<Longrightarrow> thesis) \<Longrightarrow> thesis"
  by (cases r) auto

lemma rbind_assoc: "rbind (rbind r f) g = rbind r (\<lambda>x. rbind (f x) g)"
  by (cases r) auto

lemma rbind_cong [fundef_cong]:
  "r = r' \<Longrightarrow> (\<And>x. r' = Inr x \<Longrightarrow> f x = g x) \<Longrightarrow> rbind r f = rbind r' g"
  by (cases r') auto

section \<open>Bits of words, most significant first\<close>

text \<open>\<open>bits_be n v\<close> lists the low \<open>n\<close> bits of \<open>v\<close>, most significant first.\<close>

definition bits_be :: "nat \<Rightarrow> 'a::len word \<Rightarrow> bool list" where
  "bits_be n v = map (\<lambda>i. bit v (n - 1 - i)) [0..<n]"

text \<open>\<open>word_of_bits\<close> is its inverse: the bits are shifted in from the right.\<close>

definition shift_in :: "'a::len word \<Rightarrow> bool \<Rightarrow> 'a word" where
  "shift_in a b = push_bit 1 a OR of_bool b"

definition word_of_bits :: "bool list \<Rightarrow> 'a::len word" where
  "word_of_bits bs = foldl shift_in 0 bs"

lemma length_bits_be [simp]: "length (bits_be n v) = n"
  by (simp add: bits_be_def)

lemma nth_bits_be [simp]: "i < n \<Longrightarrow> bits_be n v ! i = bit v (n - 1 - i)"
  by (simp add: bits_be_def)

lemma bits_be_0 [simp]: "bits_be 0 v = []"
  by (simp add: bits_be_def)

lemma bits_be_split:
  "bits_be (m + n) v = bits_be m (drop_bit n v) @ bits_be n v"
proof (rule nth_equalityI)
  fix i assume i: "i < length (bits_be (m + n) v)"
  show "bits_be (m + n) v ! i = (bits_be m (drop_bit n v) @ bits_be n v) ! i"
  proof (cases "i < m")
    case True
    then have "m + n - 1 - i = n + (m - 1 - i)" by simp
    with True show ?thesis by (simp add: nth_append bit_drop_bit_eq)
  next
    case False
    then have "m + n - 1 - i = n - 1 - (i - m)" by simp
    with False i show ?thesis by (simp add: nth_append)
  qed
qed simp

lemma bit_shift_in:
  "bit (shift_in a b :: 'a::len word) i \<longleftrightarrow>
     i < LENGTH('a) \<and> (if i = 0 then b else bit a (i - 1))"
  unfolding shift_in_def bit_or_iff bit_push_bit_iff bit_of_bool_iff
  by (auto simp: Suc_le_eq dest: bit_imp_le_length)

lemma bit_foldl_shift_in:
  "bit (foldl shift_in a bs :: 'a::len word) i \<longleftrightarrow>
     i < LENGTH('a) \<and> (if i < length bs then bs ! (length bs - 1 - i) else bit a (i - length bs))"
proof (induction bs arbitrary: i rule: rev_induct)
  case Nil
  then show ?case by (auto dest: bit_imp_le_length)
next
  case (snoc b bs)
  show ?case
  proof (cases i)
    case 0
    then show ?thesis by (simp add: bit_shift_in nth_append)
  next
    case (Suc j)
    then show ?thesis
      by (simp add: bit_shift_in snoc.IH nth_append) auto
  qed
qed

lemma bit_word_of_bits:
  "bit (word_of_bits bs :: 'a::len word) i \<longleftrightarrow>
     i < LENGTH('a) \<and> i < length bs \<and> bs ! (length bs - 1 - i)"
  by (auto simp: word_of_bits_def bit_foldl_shift_in)

lemma word_of_bits_append:
  "(word_of_bits (xs @ ys) :: 'a::len word) = push_bit (length ys) (word_of_bits xs) OR word_of_bits ys"
proof (rule bit_word_eqI)
  fix i assume i: "i < LENGTH('a)"
  show "bit (word_of_bits (xs @ ys) :: 'a word) i =
      bit (push_bit (length ys) (word_of_bits xs) OR word_of_bits ys :: 'a word) i"
    using i by (cases "i < length ys")
      (auto simp: bit_or_iff bit_push_bit_iff bit_word_of_bits nth_append add_diff_eq
        dest: bit_imp_le_length)
qed

lemma word_of_bits_be: "word_of_bits (bits_be n v) = take_bit n v"
  by (rule bit_word_eqI) (auto simp: bit_word_of_bits bit_take_bit_iff)

lemma and_push_bit_1: "(x :: 'a::len word) AND push_bit n 1 \<noteq> 0 \<longleftrightarrow> bit x n"
proof
  assume "bit x n"
  then have "bit (x AND push_bit n 1) n"
    by (auto simp: bit_and_iff bit_push_bit_iff bit_1_iff dest: bit_imp_le_length simp del: push_bit_of_1)
  then show "x AND push_bit n 1 \<noteq> 0" by (metis bit_0_eq bot_fun_def bot_bool_def)
next
  assume "x AND push_bit n 1 \<noteq> 0"
  then obtain k where "bit (x AND push_bit n 1) k" by (auto simp: bit_eq_iff)
  then show "bit x n"
    by (auto simp: bit_and_iff bit_push_bit_iff bit_1_iff simp del: push_bit_of_1)
qed

section \<open>Bytes of words, least significant first\<close>

definition le_bytes :: "'a::len word \<Rightarrow> u8 list" where
  "le_bytes w = map (\<lambda>i. ucast (drop_bit (8 * i) w)) [0..<size w div 8]"

fun le_word :: "u8 list \<Rightarrow> 'a::len word" where
  "le_word [] = 0"
| "le_word (b # bs) = ucast b OR push_bit 8 (le_word bs)"

lemma length_le_bytes [simp]: "length (le_bytes (w :: 'a::len word)) = LENGTH('a) div 8"
  by (simp add: le_bytes_def word_size)

lemma nth_le_bytes:
  "i < LENGTH('a) div 8 \<Longrightarrow> le_bytes (w :: 'a::len word) ! i = ucast (drop_bit (8 * i) w)"
  by (simp add: le_bytes_def word_size)

lemma bit_le_word:
  "bit (le_word bs :: 'a::len word) i \<longleftrightarrow>
     i < LENGTH('a) \<and> i div 8 < length bs \<and> bit (bs ! (i div 8)) (i mod 8)"
proof (induction bs arbitrary: i)
  case Nil
  then show ?case by simp
next
  case (Cons b bs)
  show ?case
  proof (cases "i < 8")
    case True
    then show ?thesis by (auto simp: bit_simps)
  next
    case False
    then have d: "i div 8 = Suc ((i - 8) div 8)" and m: "i mod 8 = (i - 8) mod 8"
      by (simp_all add: le_div_geq le_mod_geq)
    have "bit (le_word (b # bs) :: 'a word) i \<longleftrightarrow>
        i < LENGTH('a) \<and> bit (le_word bs :: 'a word) (i - 8)"
      using False by (auto simp: bit_simps dest: bit_imp_le_length)
    also have "\<dots> \<longleftrightarrow> i < LENGTH('a) \<and> i div 8 < length (b # bs)
        \<and> bit ((b # bs) ! (i div 8)) (i mod 8)"
      using False by (auto simp: Cons.IH d m)
    finally show ?thesis .
  qed
qed

lemma le_word_le_bytes [simp]:
  assumes "8 dvd LENGTH('a)"
  shows "le_word (le_bytes w) = (w :: 'a::len word)"
proof (rule bit_word_eqI)
  fix n assume n: "n < LENGTH('a)"
  from n assms have d: "n div 8 < LENGTH('a) div 8" by (auto elim!: dvdE)
  have "8 * (n div 8) + n mod 8 = n" by simp
  with n d show "bit (le_word (le_bytes w) :: 'a word) n = bit w n"
    by (auto simp: bit_le_word nth_le_bytes bit_ucast_iff bit_drop_bit_eq)
qed

lemma le_bytes_le_word:
  assumes "8 * length bs = LENGTH('a)"
  shows "le_bytes (le_word bs :: 'a::len word) = bs"
proof (rule nth_equalityI)
  show "length (le_bytes (le_word bs :: 'a word)) = length bs"
    using assms by (simp flip: assms)
next
  fix i assume "i < length (le_bytes (le_word bs :: 'a word))"
  then have i: "i < LENGTH('a) div 8" by simp
  with assms have il: "i < length bs" by (simp flip: assms)
  show "le_bytes (le_word bs :: 'a word) ! i = bs ! i"
  proof (rule bit_word_eqI)
    fix n assume n: "n < LENGTH(8)"
    then have d: "(8 * i + n) div 8 = i" and m: "(8 * i + n) mod 8 = n" by simp_all
    from n il assms have "8 * i + n < LENGTH('a)" by simp
    with n i il d m show "bit (le_bytes (le_word bs :: 'a word) ! i) n = bit (bs ! i) n"
      by (simp add: nth_le_bytes bit_ucast_iff bit_drop_bit_eq bit_le_word)
  qed
qed

section \<open>Lists\<close>

lemma take_drop_middle:
  "xs = pre @ mid @ post \<Longrightarrow> length pre = m \<Longrightarrow> length mid = n \<Longrightarrow> take n (drop m xs) = mid"
  by simp

lemma drop_to_suffix: "length (drop n (xs @ ys)) = length ys \<Longrightarrow> drop n (xs @ ys) = ys"
  by (cases "n = length xs"; cases ys) auto

lemma list_update_last: "xs \<noteq> [] \<Longrightarrow> xs[length xs - 1 := y] = butlast xs @ [y]"
  by (cases xs rule: rev_cases) simp_all

end
