(* ===== verification/ByteBuffer.thy ===== *)
theory ByteBuffer
  imports Prelude
begin

text \<open>
  \<^verbatim>\<open>ByteBuffer\<close> (\<^verbatim>\<open>src/src/server/shared/Packets/ByteBuffer.h\<close>), the byte-level half: the
  storage vector with its two cursors, appending, reading and overwriting of integers,
  strings and raw bytes, the host byte order (\<^verbatim>\<open>ByteConverter.h\<close>), packed GUIDs and
  packed times. The bit-level half is in theory \<open>ByteBuffer_Bits\<close>, the container
  templates in theory \<open>ByteBuffer_Codecs\<close>.

  The lemmas say what each operation does on a buffer at its write end (\<open>emit\<close>) and at
  its read cursor (\<open>consume\<close>); every format proof of the development goes through them.
\<close>

section \<open>State\<close>

text \<open>
  \<open>ByteBufferException\<close> is the exception class of the source with its four members;
  \<open>AssertionFailed\<close> is a failed \<^verbatim>\<open>ASSERT\<close>, which ends the process; \<open>OutOfRange\<close> marks an
  access outside a vector or a shift by more than the operand's width, where C++ leaves
  the behaviour undefined.
\<close>

datatype bb_error =
    ByteBufferException bool nat nat nat
  | AssertionFailed
  | OutOfRange

record byte_buffer =
  storage :: "u8 list"
  rpos :: nat
  wpos :: nat
  bitpos :: nat

type_synonym 'a bb_result = "bb_error + 'a"

abbreviation bb_size :: "byte_buffer \<Rightarrow> nat" where
  "bb_size b \<equiv> length (storage b)"

definition bb_empty :: byte_buffer where
  "bb_empty = \<lparr>storage = [], rpos = 0, wpos = 0, bitpos = 8\<rparr>"

definition bb_new :: "nat \<Rightarrow> bool \<Rightarrow> byte_buffer" where
  "bb_new res init =
     \<lparr>storage = (if init then replicate res 0 else []), rpos = 0, wpos = 0, bitpos = 8\<rparr>"

definition bb_copy :: "byte_buffer \<Rightarrow> byte_buffer" where
  "bb_copy b = \<lparr>storage = storage b, rpos = rpos b, wpos = wpos b, bitpos = bitpos b\<rparr>"

definition bb_clear :: "byte_buffer \<Rightarrow> byte_buffer" where
  "bb_clear b = b\<lparr>storage := [], rpos := 0, wpos := 0, bitpos := 8\<rparr>"

definition ResetBits :: "byte_buffer \<Rightarrow> byte_buffer" where
  "ResetBits b = b\<lparr>bitpos := 8\<rparr>"

definition set_rpos :: "nat \<Rightarrow> byte_buffer \<Rightarrow> byte_buffer" where
  "set_rpos p b = b\<lparr>rpos := p\<rparr>"

definition set_wpos :: "nat \<Rightarrow> byte_buffer \<Rightarrow> byte_buffer" where
  "set_wpos p b = b\<lparr>wpos := p\<rparr>"

definition rfinish :: "byte_buffer \<Rightarrow> byte_buffer" where
  "rfinish b = b\<lparr>rpos := wpos b\<rparr>"

definition bb_index :: "nat \<Rightarrow> byte_buffer \<Rightarrow> u8 bb_result" where
  "bb_index pos b =
     (if bb_size b \<le> pos then Inl (ByteBufferException False pos 1 (bb_size b))
      else Inr (storage b ! pos))"

text \<open>\<^verbatim>\<open>std::vector::resize(n, 0)\<close>.\<close>

definition vec_resize :: "nat \<Rightarrow> u8 list \<Rightarrow> u8 list" where
  "vec_resize n xs = take n xs @ replicate (n - length xs) 0"

definition bb_resize :: "nat \<Rightarrow> byte_buffer \<Rightarrow> byte_buffer" where
  "bb_resize n b = b\<lparr>storage := vec_resize n (storage b), rpos := 0, wpos := n\<rparr>"

section \<open>Host byte order\<close>

datatype endianness = TRINITY_LITTLEENDIAN | TRINITY_BIGENDIAN

definition TRINITY_ENDIAN :: endianness where
  "TRINITY_ENDIAN = TRINITY_LITTLEENDIAN"

text \<open>The bytes of a value as they stand in the memory of the host.\<close>

definition host_bytes :: "endianness \<Rightarrow> 'a::len word \<Rightarrow> u8 list" where
  "host_bytes e w = (case e of TRINITY_LITTLEENDIAN \<Rightarrow> le_bytes w
                             | TRINITY_BIGENDIAN \<Rightarrow> rev (le_bytes w))"

definition host_word :: "endianness \<Rightarrow> u8 list \<Rightarrow> 'a::len word" where
  "host_word e bs = (case e of TRINITY_LITTLEENDIAN \<Rightarrow> le_word bs
                             | TRINITY_BIGENDIAN \<Rightarrow> le_word (rev bs))"

text \<open>
  \<^verbatim>\<open>ByteConverter::convert<T>\<close> swaps the first and the last byte and recurses on what
  lies between them.
\<close>

fun byte_convert :: "u8 list \<Rightarrow> u8 list" where
  "byte_convert [] = []"
| "byte_convert [b] = [b]"
| "byte_convert (b # c # bs) = last (c # bs) # byte_convert (butlast (c # bs)) @ [b]"

definition EndianConvert :: "endianness \<Rightarrow> u8 list \<Rightarrow> u8 list" where
  "EndianConvert e bs = (case e of TRINITY_LITTLEENDIAN \<Rightarrow> bs | TRINITY_BIGENDIAN \<Rightarrow> byte_convert bs)"

definition EndianConvertReverse :: "endianness \<Rightarrow> u8 list \<Rightarrow> u8 list" where
  "EndianConvertReverse e bs = (case e of TRINITY_LITTLEENDIAN \<Rightarrow> byte_convert bs | TRINITY_BIGENDIAN \<Rightarrow> bs)"

section \<open>Appending\<close>

definition memcpy_at :: "nat \<Rightarrow> u8 list \<Rightarrow> u8 list \<Rightarrow> u8 list bb_result" where
  "memcpy_at pos src dst =
     (if pos + length src \<le> length dst
      then Inr (take pos dst @ src @ drop (pos + length src) dst)
      else Inl OutOfRange)"

definition append_bytes :: "u8 list \<Rightarrow> byte_buffer \<Rightarrow> byte_buffer bb_result" where
  "append_bytes src b =
     (let b = ResetBits b; cnt = length src in
      if cnt = 0 then Inr b
      else if \<not> bb_size b < 10000000 then Inl AssertionFailed
      else
        let st = (if bb_size b < size_add (wpos b) cnt
                  then vec_resize (size_add (wpos b) cnt) (storage b) else storage b)
        in rbind (memcpy_at (wpos b) src st)
             (\<lambda>st'. Inr (b\<lparr>storage := st', wpos := wpos b + cnt\<rparr>)))"

definition append_host :: "endianness \<Rightarrow> 'a::len word \<Rightarrow> byte_buffer \<Rightarrow> byte_buffer bb_result" where
  "append_host e w b = append_bytes (EndianConvert e (host_bytes e w)) b"

definition append_word :: "'a::len word \<Rightarrow> byte_buffer \<Rightarrow> byte_buffer bb_result" where
  "append_word w b = append_host TRINITY_ENDIAN w b"

text \<open>\<^verbatim>\<open>append(std::string const&)\<close> appends the characters and the final NUL in one go,
  \<^verbatim>\<open>operator<<\<close> for strings in two calls, \<^verbatim>\<open>WriteString\<close> the characters only.\<close>

definition append_string0 :: "u8 list \<Rightarrow> byte_buffer \<Rightarrow> byte_buffer bb_result" where
  "append_string0 s b = append_bytes (s @ [0]) b"

definition put_string :: "u8 list \<Rightarrow> byte_buffer \<Rightarrow> byte_buffer bb_result" where
  "put_string s b = rbind (append_bytes s b) (append_word (0 :: u8))"

definition WriteString :: "u8 list \<Rightarrow> byte_buffer \<Rightarrow> byte_buffer bb_result" where
  "WriteString s b = (if length s \<noteq> 0 then append_bytes s b else Inr b)"

text \<open>\<^verbatim>\<open>operator<<\<close> of a C string: a null pointer appends the terminator only.\<close>

definition put_cstring :: "u8 list option \<Rightarrow> byte_buffer \<Rightarrow> byte_buffer bb_result" where
  "put_cstring s b =
     rbind (append_bytes (case s of None \<Rightarrow> [] | Some cs \<Rightarrow> takeWhile (\<lambda>c. c \<noteq> 0) cs) b)
       (append_word (0 :: u8))"

definition append_buffer :: "byte_buffer \<Rightarrow> byte_buffer \<Rightarrow> byte_buffer bb_result" where
  "append_buffer src b =
     (if wpos src \<le> bb_size src then append_bytes (take (wpos src) (storage src)) b
      else Inl OutOfRange)"

definition put_bytes_at :: "nat \<Rightarrow> u8 list \<Rightarrow> byte_buffer \<Rightarrow> byte_buffer bb_result" where
  "put_bytes_at pos src b =
     (if bb_size b < size_add pos (length src)
      then Inl (ByteBufferException True pos (length src) (bb_size b))
      else rbind (memcpy_at pos src (storage b)) (\<lambda>st. Inr (b\<lparr>storage := st\<rparr>)))"

definition put_word_at :: "nat \<Rightarrow> 'a::len word \<Rightarrow> byte_buffer \<Rightarrow> byte_buffer bb_result" where
  "put_word_at pos w b =
     put_bytes_at pos (EndianConvert TRINITY_ENDIAN (host_bytes TRINITY_ENDIAN w)) b"

section \<open>Reading\<close>

text \<open>
  Where an access has succeeded, the sum of cursor and length is at most the size of the
  storage, so the cursor advances without a wrap-around; the checks before it are the
  source's, on \<open>size_t\<close>.
\<close>

definition read_skip :: "nat \<Rightarrow> byte_buffer \<Rightarrow> byte_buffer bb_result" where
  "read_skip n b =
     (let b = ResetBits b in
      if bb_size b < size_add (rpos b) n
      then Inl (ByteBufferException False (rpos b) n (bb_size b))
      else Inr (b\<lparr>rpos := size_add (rpos b) n\<rparr>))"

definition read_word_at :: "nat \<Rightarrow> byte_buffer \<Rightarrow> 'a::len word bb_result" where
  "read_word_at pos b =
     (let n = LENGTH('a) div 8 in
      if bb_size b < size_add pos n then Inl (ByteBufferException False pos n (bb_size b))
      else if bb_size b < pos + n then Inl OutOfRange
      else Inr (host_word TRINITY_ENDIAN (EndianConvert TRINITY_ENDIAN (take n (drop pos (storage b))))))"

definition read_word :: "byte_buffer \<Rightarrow> ('a::len word \<times> byte_buffer) bb_result" where
  "read_word b =
     (let b = ResetBits b in
      rbind (read_word_at (rpos b) b)
        (\<lambda>w :: 'a word. Inr (w, b\<lparr>rpos := rpos b + LENGTH('a) div 8\<rparr>)))"

definition read_bytes :: "nat \<Rightarrow> byte_buffer \<Rightarrow> (u8 list \<times> byte_buffer) bb_result" where
  "read_bytes len b =
     (if bb_size b < size_add (rpos b) len
      then Inl (ByteBufferException False (rpos b) len (bb_size b))
      else let b = ResetBits b in
        if len = 0 then Inr ([], b)
        else if bb_size b < rpos b + len then Inl OutOfRange
        else Inr (take len (drop (rpos b) (storage b)), b\<lparr>rpos := rpos b + len\<rparr>))"

definition get_bool :: "byte_buffer \<Rightarrow> (bool \<times> byte_buffer) bb_result" where
  "get_bool b = rbind (read_word b) (\<lambda>(c :: u8, b'). Inr (c \<noteq> 0, b'))"

text \<open>
  \<^verbatim>\<open>operator>>\<close> for strings: characters up to a NUL, or up to the end of the storage.
  The loop runs while \<^verbatim>\<open>rpos() < size()\<close>, so the number of unread bytes decreases.
\<close>

lemma read_word_u8_Inr:
  assumes "read_word b = Inr (c :: u8, b')"
  shows "rpos b < bb_size b \<and> storage b' = storage b \<and> rpos b' = Suc (rpos b)"
  using assms
  by (auto simp: read_word_def read_word_at_def ResetBits_def Let_def rbind_eq_Inr split: if_splits)

function get_string_loop :: "u8 list \<Rightarrow> byte_buffer \<Rightarrow> (u8 list \<times> byte_buffer) bb_result" where
  "get_string_loop acc b =
     (if rpos b < bb_size b then
        (case read_word b of
           Inl e \<Rightarrow> Inl e
         | Inr (c, b') \<Rightarrow> if c = 0 then Inr (acc, b') else get_string_loop (acc @ [c]) b')
      else Inr (acc, b))"
  by pat_completeness auto
termination
  by (relation "measure (\<lambda>(acc, b). bb_size b - rpos b)") (auto dest: read_word_u8_Inr)

declare get_string_loop.simps [simp del]

definition get_string :: "byte_buffer \<Rightarrow> (u8 list \<times> byte_buffer) bb_result" where
  "get_string b = get_string_loop [] b"

text \<open>
  \<^verbatim>\<open>ReadString\<close> reads a counted string, but its result is built from a C string and so
  ends at the first NUL.
\<close>

definition ReadString :: "nat \<Rightarrow> byte_buffer \<Rightarrow> (u8 list \<times> byte_buffer) bb_result" where
  "ReadString len b =
     (if len = 0 then Inr ([], b)
      else rbind (read_bytes len b) (\<lambda>(bs, b'). Inr (takeWhile (\<lambda>c. c \<noteq> 0) bs, b')))"

definition read_skip_string :: "byte_buffer \<Rightarrow> byte_buffer bb_result" where
  "read_skip_string b = rbind (get_string b) (\<lambda>(temp, b'). Inr b')"

section \<open>Packed GUIDs\<close>

text \<open>
  \<^verbatim>\<open>appendPackGUID\<close> writes a mask byte with one bit per non-zero byte of the GUID and then
  those bytes; the loop runs until the shifted GUID is zero.
\<close>

lemma unat_drop_bit_8_less: "g \<noteq> 0 \<Longrightarrow> unat (drop_bit 8 g :: u64) < unat g"
  by (simp add: drop_bit_eq_div unat_div unat_gt_0 del: unat_drop_bit_eq)

function pack_guid_loop :: "nat \<Rightarrow> u64 \<Rightarrow> u8 \<Rightarrow> u8 list \<Rightarrow> u8 \<times> u8 list" where
  "pack_guid_loop i guid mark packed =
     (if guid = 0 then (mark, packed)
      else if guid AND 0xFF \<noteq> 0
        then pack_guid_loop (Suc i) (drop_bit 8 guid) (mark OR push_bit i 1)
               (packed @ [ucast (guid AND 0xFF)])
        else pack_guid_loop (Suc i) (drop_bit 8 guid) mark packed)"
  by pat_completeness auto
termination
  by (relation "measure (\<lambda>(i, guid, mark, packed). unat guid)") (auto simp: unat_drop_bit_8_less)

declare pack_guid_loop.simps [simp del]

definition appendPackGUID :: "u64 \<Rightarrow> byte_buffer \<Rightarrow> byte_buffer bb_result" where
  "appendPackGUID guid b =
     (case pack_guid_loop 0 guid 0 [] of (mark, packed) \<Rightarrow> append_bytes (mark # packed) b)"

fun read_guid_loop :: "u8 \<Rightarrow> nat list \<Rightarrow> u64 \<Rightarrow> byte_buffer \<Rightarrow> (u64 \<times> byte_buffer) bb_result" where
  "read_guid_loop mark [] guid b = Inr (guid, b)"
| "read_guid_loop mark (i # is) guid b =
     (if mark AND push_bit i 1 \<noteq> 0 then
        if bb_size b < size_add (rpos b) 1
        then Inl (ByteBufferException False (rpos b) 1 (bb_size b))
        else rbind (read_word b)
               (\<lambda>(x :: u8, b'). read_guid_loop mark is (guid OR push_bit (i * 8) (ucast x)) b')
      else read_guid_loop mark is guid b)"

definition readPackGUID :: "byte_buffer \<Rightarrow> (u64 \<times> byte_buffer) bb_result" where
  "readPackGUID b =
     (if bb_size b < size_add (rpos b) 1
      then Inl (ByteBufferException False (rpos b) 1 (bb_size b))
      else rbind (read_word (ResetBits b)) (\<lambda>(mark :: u8, b'). read_guid_loop mark [0..<8] 0 b'))"

section \<open>Packed times\<close>

text \<open>
  \<^verbatim>\<open>struct tm\<close> of the C library; \<open>localtime\<close> and \<open>mktime\<close> are functions of the C library and
  of the host's time zone, and so parameters.
\<close>

record tm =
  tm_sec :: int
  tm_min :: int
  tm_hour :: int
  tm_mday :: int
  tm_mon :: int
  tm_year :: int
  tm_wday :: int
  tm_yday :: int
  tm_isdst :: int

definition pack_tm :: "tm \<Rightarrow> u32" where
  "pack_tm lt =
     push_bit 24 (word_of_int (tm_year lt - 100)) OR push_bit 20 (word_of_int (tm_mon lt))
     OR push_bit 14 (word_of_int (tm_mday lt - 1)) OR push_bit 11 (word_of_int (tm_wday lt))
     OR push_bit 6 (word_of_int (tm_hour lt)) OR word_of_int (tm_min lt)"

definition AppendPackedTime :: "(int \<Rightarrow> tm) \<Rightarrow> int \<Rightarrow> byte_buffer \<Rightarrow> byte_buffer bb_result" where
  "AppendPackedTime localtime time b = append_word (pack_tm (localtime time)) b"

definition unpack_tm :: "tm \<Rightarrow> u32 \<Rightarrow> tm" where
  "unpack_tm lt packedDate = lt\<lparr>
     tm_sec := 0,
     tm_min := uint (packedDate AND 0x3F),
     tm_hour := uint (drop_bit 6 packedDate AND 0x1F),
     tm_wday := 0,
     tm_mday := uint (drop_bit 14 packedDate AND 0x3F) + 1,
     tm_mon := uint (drop_bit 20 packedDate AND 0xF),
     tm_year := uint (drop_bit 24 packedDate AND 0x1F) + 100\<rparr>"

definition ReadPackedTime :: "(int \<Rightarrow> tm) \<Rightarrow> (tm \<Rightarrow> int) \<Rightarrow> int \<Rightarrow> byte_buffer
    \<Rightarrow> (u32 \<times> byte_buffer) bb_result" where
  "ReadPackedTime localtime mktime currTime b =
     rbind (read_word b) (\<lambda>(packedDate, b').
       Inr (word_of_int (mktime (unpack_tm (localtime currTime) packedDate)), b'))"

section \<open>The wire format does not depend on the host\<close>

lemma byte_convert_rev: "byte_convert bs = rev bs"
proof (induction bs rule: byte_convert.induct)
  case (3 b c bs)
  have "rev (c # bs) = last (c # bs) # rev (butlast (c # bs))"
    by (metis append_butlast_last_id list.distinct(1) rev.simps(2) rev_rev_ident rev_append rev_swap)
  with 3 show ?case by simp
qed simp_all

lemma EndianConvert_host_bytes: "EndianConvert e (host_bytes e w) = le_bytes w"
  by (cases e) (simp_all add: EndianConvert_def host_bytes_def byte_convert_rev)

lemma host_word_EndianConvert: "host_word e (EndianConvert e bs) = le_word bs"
  by (cases e) (simp_all add: EndianConvert_def host_word_def byte_convert_rev)

section \<open>Writing at the end, reading at the cursor\<close>

text \<open>
  A buffer that is written front to back has its write cursor at the end of the storage
  (\<open>wr_ok n\<close>: and room for \<open>n\<close> more bytes before the assertion on the size). \<open>emit\<close> is what an append
  then does, \<open>consume n\<close> what a read of \<open>n\<close> bytes does, and \<open>unread\<close> what is left.
\<close>

definition wr_ok :: "nat \<Rightarrow> byte_buffer \<Rightarrow> bool" where
  "wr_ok n b \<longleftrightarrow> wpos b = bb_size b \<and> bb_size b + n \<le> 10000000"

definition emit :: "u8 list \<Rightarrow> byte_buffer \<Rightarrow> byte_buffer" where
  "emit bs b = b\<lparr>storage := storage b @ bs, wpos := wpos b + length bs, bitpos := 8\<rparr>"

definition rd_ok :: "byte_buffer \<Rightarrow> bool" where
  "rd_ok b \<longleftrightarrow> rpos b \<le> bb_size b \<and> bb_size b < 2 ^ 63"

definition unread :: "byte_buffer \<Rightarrow> u8 list" where
  "unread b = drop (rpos b) (storage b)"

definition consume :: "nat \<Rightarrow> byte_buffer \<Rightarrow> byte_buffer" where
  "consume n b = b\<lparr>rpos := rpos b + n, bitpos := 8\<rparr>"

lemma wr_ok_emit [simp]: "wr_ok n (emit bs b) \<longleftrightarrow> wr_ok (length bs + n) b"
  by (auto simp: wr_ok_def emit_def)

lemma wr_ok_mono: "wr_ok n b \<Longrightarrow> m \<le> n \<Longrightarrow> wr_ok m b"
  by (simp add: wr_ok_def)

lemma emit_emit [simp]: "emit bs (emit as b) = emit (as @ bs) b"
  by (simp add: emit_def)

lemma storage_emit [simp]: "storage (emit bs b) = storage b @ bs"
  and wpos_emit [simp]: "wpos (emit bs b) = wpos b + length bs"
  and rpos_emit [simp]: "rpos (emit bs b) = rpos b"
  and bitpos_emit [simp]: "bitpos (emit bs b) = 8"
  by (simp_all add: emit_def)

lemma consume_consume [simp]: "consume n (consume m b) = consume (m + n) b"
  by (simp add: consume_def)

lemma storage_consume [simp]: "storage (consume n b) = storage b"
  and rpos_consume [simp]: "rpos (consume n b) = rpos b + n"
  and wpos_consume [simp]: "wpos (consume n b) = wpos b"
  and bitpos_consume [simp]: "bitpos (consume n b) = 8"
  by (simp_all add: consume_def)

lemma unread_consume [simp]: "unread (consume n b) = drop n (unread b)"
  by (simp add: unread_def add.commute)

lemma rd_ok_consume: "rd_ok b \<Longrightarrow> n \<le> length (unread b) \<Longrightarrow> rd_ok (consume n b)"
  by (auto simp: rd_ok_def unread_def)

lemma rd_ok_consume_prefix [simp]:
  "rd_ok b \<Longrightarrow> unread b = xs @ ys \<Longrightarrow> n = length xs \<Longrightarrow> rd_ok (consume n b)"
  by (rule rd_ok_consume) auto

lemma append_bytes_emit:
  assumes "wr_ok (length bs) b"
  shows "append_bytes bs b = Inr (emit bs b)"
proof (cases "bs = []")
  case True
  then show ?thesis by (simp add: append_bytes_def emit_def ResetBits_def)
next
  case False
  then have "0 < length bs" by simp
  with assms have sz: "bb_size b < 10000000" and w: "wpos b = bb_size b"
    and sum: "size_add (bb_size b) (length bs) = bb_size b + length bs"
    unfolding wr_ok_def by (linarith, simp_all)
  show ?thesis
    using False sz w sum
    by (simp add: append_bytes_def ResetBits_def vec_resize_def memcpy_at_def emit_def Let_def)
qed

lemma append_host_emit:
  "wr_ok (LENGTH('a) div 8) b \<Longrightarrow>
     append_host e (w :: 'a::len word) b = Inr (emit (le_bytes w) b)"
  by (simp add: append_host_def EndianConvert_host_bytes append_bytes_emit)

lemma append_word_emit:
  "wr_ok (LENGTH('a) div 8) b \<Longrightarrow> append_word (w :: 'a::len word) b = Inr (emit (le_bytes w) b)"
  by (simp add: append_word_def append_host_emit)

lemma le_bytes_u8 [simp]: "le_bytes (w :: u8) = [w]"
  by (simp add: le_bytes_def word_size)

lemma put_string_emit:
  "wr_ok (length s + 1) b \<Longrightarrow> put_string s b = Inr (emit (s @ [0]) b)"
  by (simp add: put_string_def append_bytes_emit append_word_emit wr_ok_mono)

lemma rd_ok_size_add:
  "rd_ok b \<Longrightarrow> n \<le> length (unread b) \<Longrightarrow> size_add (rpos b) n = rpos b + n \<and> rpos b + n \<le> bb_size b"
  by (auto simp: rd_ok_def unread_def)

lemma read_word_consume:
  assumes "rd_ok b" and "8 dvd LENGTH('a)" and "unread b = le_bytes (w :: 'a::len word) @ rest"
  shows "read_word b = Inr (w, consume (LENGTH('a) div 8) b)"
proof -
  let ?n = "LENGTH('a) div 8"
  from assms(3) have n: "?n \<le> length (unread b)" and t: "take ?n (unread b) = le_bytes w" by simp_all
  from rd_ok_size_add [OF assms(1) n] t assms(2) show ?thesis
    by (simp add: read_word_def read_word_at_def ResetBits_def consume_def Let_def
        host_word_EndianConvert unread_def)
qed

lemma read_word_short:
  assumes "rd_ok b" and "length (unread b) < LENGTH('a) div 8" and "LENGTH('a) < 2 ^ 63"
  shows "(read_word b :: ('a::len word \<times> byte_buffer) bb_result) =
     Inl (ByteBufferException False (rpos b) (LENGTH('a) div 8) (bb_size b))"
proof -
  have "LENGTH('a) div 8 < 2 ^ 63" using assms(3) by linarith
  with assms(1) have "size_add (rpos b) (LENGTH('a) div 8) = rpos b + LENGTH('a) div 8"
    by (simp add: rd_ok_def)
  with assms show ?thesis
    by (auto simp: read_word_def read_word_at_def ResetBits_def Let_def unread_def rd_ok_def)
qed

lemma read_bytes_consume:
  assumes "rd_ok b" and "unread b = bs @ rest"
  shows "read_bytes (length bs) b = Inr (bs, consume (length bs) b)"
proof -
  from assms(2) have n: "length bs \<le> length (unread b)" and t: "take (length bs) (unread b) = bs"
    by simp_all
  from rd_ok_size_add [OF assms(1) n] t show ?thesis
    by (cases "bs = []") (simp_all add: read_bytes_def ResetBits_def consume_def Let_def unread_def)
qed

lemma get_string_loop_consume:
  assumes "rd_ok b" and "0 \<notin> set s" and "unread b = s @ 0 # rest"
  shows "get_string_loop acc b = Inr (acc @ s, consume (Suc (length s)) b)"
  using assms
proof (induction s arbitrary: acc b)
  case Nil
  then have r: "read_word b = Inr (0 :: u8, consume 1 b)"
    using read_word_consume [of b "0 :: u8"] by simp
  from Nil have "rpos b < bb_size b" by (auto simp: unread_def intro: ccontr)
  with r show ?case by (simp add: get_string_loop.simps [of acc b])
next
  case (Cons c s)
  then have r: "read_word b = Inr (c, consume 1 b)"
    using read_word_consume [of b c] by simp
  from Cons.prems have pos: "rpos b < bb_size b" by (auto simp: unread_def intro: ccontr)
  from Cons.prems have rd: "rd_ok (consume 1 b)" by (intro rd_ok_consume) simp_all
  from Cons.prems have un: "unread (consume 1 b) = s @ 0 # rest" by simp
  from Cons.prems have ns: "0 \<notin> set s" and nz: "c \<noteq> 0" by auto
  from Cons.IH [OF rd ns un, of "acc @ [c]"] pos r nz show ?case
    by (simp add: get_string_loop.simps [of acc b])
qed

lemma get_string_consume:
  "rd_ok b \<Longrightarrow> 0 \<notin> set s \<Longrightarrow> unread b = s @ 0 # rest \<Longrightarrow>
     get_string b = Inr (s, consume (Suc (length s)) b)"
  by (simp add: get_string_def get_string_loop_consume)

text \<open>Every operation keeps the cursors inside the storage.\<close>

definition bb_inv :: "byte_buffer \<Rightarrow> bool" where
  "bb_inv b \<longleftrightarrow> rpos b \<le> bb_size b \<and> wpos b \<le> bb_size b \<and> bitpos b \<le> 8"

end
