(* ===== verification/WorldPacket.thy ===== *)
theory WorldPacket
  imports ByteBuffer
begin

text \<open>
  \<^verbatim>\<open>WorldPacket\<close> (\<^verbatim>\<open>src/src/server/game/Server/WorldPacket.h\<close>): a byte buffer with an opcode.
  The class inherits from \<^verbatim>\<open>ByteBuffer\<close>; here the buffer is a field, and \<open>wp_put\<close> applies one of
  its operations. The capacities passed to the constructors and to \<^verbatim>\<open>Initialize\<close> only reserve
  memory and have no counterpart.
\<close>

record world_packet =
  m_opcode :: u32
  wp_buf :: byte_buffer

definition UNKNOWN_OPCODE :: u32 where "UNKNOWN_OPCODE = 0xFFFF"

definition wp_new :: world_packet where
  "wp_new = \<lparr>m_opcode = UNKNOWN_OPCODE, wp_buf = bb_empty\<rparr>"

definition wp_opcode :: "u32 \<Rightarrow> world_packet" where
  "wp_opcode op = \<lparr>m_opcode = op, wp_buf = bb_empty\<rparr>"

definition wp_copy :: "world_packet \<Rightarrow> world_packet" where
  "wp_copy p = \<lparr>m_opcode = m_opcode p, wp_buf = bb_copy (wp_buf p)\<rparr>"

definition wp_Initialize :: "u32 \<Rightarrow> world_packet \<Rightarrow> world_packet" where
  "wp_Initialize op p = p\<lparr>wp_buf := bb_clear (wp_buf p), m_opcode := op\<rparr>"

definition wp_clear :: "world_packet \<Rightarrow> world_packet" where
  "wp_clear p = p\<lparr>wp_buf := bb_clear (wp_buf p)\<rparr>"

definition SetOpcode :: "u32 \<Rightarrow> world_packet \<Rightarrow> world_packet" where
  "SetOpcode op p = p\<lparr>m_opcode := op\<rparr>"

definition wp_put :: "(byte_buffer \<Rightarrow> byte_buffer bb_result) \<Rightarrow> world_packet \<Rightarrow> world_packet bb_result" where
  "wp_put f p = rbind (f (wp_buf p)) (\<lambda>b. Inr (p\<lparr>wp_buf := b\<rparr>))"

section \<open>Packets written front to back\<close>

text \<open>
  \<open>wp_with op bs\<close> is a packet holding the bytes \<open>bs\<close> whose write cursor is at their end; the
  \<^verbatim>\<open>operator<<\<close> of the buffer extends it.
\<close>

definition wp_with :: "u32 \<Rightarrow> u8 list \<Rightarrow> world_packet" where
  "wp_with op bs = \<lparr>m_opcode = op, wp_buf = emit bs bb_empty\<rparr>"

lemma wp_with_simps [simp]:
  "m_opcode (wp_with op bs) = op" "storage (wp_buf (wp_with op bs)) = bs"
  by (simp_all add: wp_with_def bb_empty_def)

lemma wp_Initialize_with: "wp_Initialize op p = wp_with op []"
  by (simp add: wp_Initialize_def wp_with_def bb_clear_def emit_def bb_empty_def)

lemma wp_opcode_with: "wp_opcode op = wp_with op []"
  by (simp add: wp_opcode_def wp_with_def emit_def bb_empty_def)

lemma wr_ok_empty: "wr_ok n bb_empty \<longleftrightarrow> n \<le> 10000000"
  by (simp add: wr_ok_def bb_empty_def)

lemma wp_put_word:
  "length bs + LENGTH('a) div 8 \<le> 10000000 \<Longrightarrow>
     wp_put (append_word (w :: 'a::len word)) (wp_with op bs) = Inr (wp_with op (bs @ le_bytes w))"
  by (simp add: wp_put_def wp_with_def append_word_emit wr_ok_empty)

lemma wp_put_string:
  "length bs + length s + 1 \<le> 10000000 \<Longrightarrow>
     wp_put (put_string s) (wp_with op bs) = Inr (wp_with op (bs @ s @ [0]))"
  by (simp add: wp_put_def wp_with_def put_string_emit wr_ok_empty)

lemma wp_put_cstring:
  "length bs + length s + 1 \<le> 10000000 \<Longrightarrow>
     wp_put (put_cstring (Some s)) (wp_with op bs) =
       Inr (wp_with op (bs @ takeWhile (\<lambda>c. c \<noteq> 0) s @ [0]))"
proof -
  assume a: "length bs + length s + 1 \<le> 10000000"
  have "put_cstring (Some s) b = put_string (takeWhile (\<lambda>c. c \<noteq> 0) s) b" for b
    by (simp add: put_cstring_def put_string_def)
  moreover have "length (takeWhile (\<lambda>c. c \<noteq> 0) s) \<le> length s" by (rule length_takeWhile_le)
  ultimately show ?thesis using a wp_put_string [of bs "takeWhile (\<lambda>c. c \<noteq> 0) s" op]
    by (simp add: wp_put_def)
qed

lemmas wp_writes = wp_put_word wp_put_string wp_put_cstring

end
