(* ===== verification/Std_Map.thy ===== *)
theory Std_Map
  imports Prelude "HOL-Library.Multiset"
begin

text \<open>
  \<^verbatim>\<open>std::map\<close> and \<^verbatim>\<open>std::set\<close>, whose iteration order (by key) the program's behaviour depends
  on, as association lists with strictly increasing keys: \<open>sm_find\<close> is \<^verbatim>\<open>find\<close>, \<open>sm_set\<close> the
  assignment \<^verbatim>\<open>m[k] = v\<close>, \<open>sm_insert\<close> is \<^verbatim>\<open>insert\<close> (which keeps an existing entry) and \<open>sm_erase\<close>
  is \<^verbatim>\<open>erase\<close>. The locale \<open>ordered_map\<close> states the laws the components use and derives
  what they share, in particular how the number of entries with a property changes when
  one entry is assigned.
\<close>

section \<open>The interface\<close>

locale ordered_map =
  fixes find :: "'m \<Rightarrow> 'k \<Rightarrow> 'v option"
    and assign :: "'k \<Rightarrow> 'v \<Rightarrow> 'm \<Rightarrow> 'm"
    and erase :: "'k \<Rightarrow> 'm \<Rightarrow> 'm"
    and entries :: "'m \<Rightarrow> ('k \<times> 'v) list"
    and inv :: "'m \<Rightarrow> bool"
  assumes find_assign: "inv m \<Longrightarrow> find (assign k v m) k' = (if k' = k then Some v else find m k')"
    and find_erase: "inv m \<Longrightarrow> find (erase k m) k' = (if k' = k then None else find m k')"
    and entries_find: "inv m \<Longrightarrow> (k, v) \<in> List.set (entries m) \<longleftrightarrow> find m k = Some v"
    and entries_assign: "inv m \<Longrightarrow> mset (entries (assign k v m)) =
      add_mset (k, v) (mset (entries m) - (case find m k of None \<Rightarrow> {#} | Some w \<Rightarrow> {#(k, w)#}))"
    and entries_erase: "inv m \<Longrightarrow> mset (entries (erase k m)) =
      mset (entries m) - (case find m k of None \<Rightarrow> {#} | Some w \<Rightarrow> {#(k, w)#})"
    and inv_assign: "inv m \<Longrightarrow> inv (assign k v m)"
    and inv_erase: "inv m \<Longrightarrow> inv (erase k m)"
begin

definition count_if :: "('k \<Rightarrow> 'v \<Rightarrow> bool) \<Rightarrow> 'm \<Rightarrow> nat" where
  "count_if P m = size (filter_mset (\<lambda>(k, v). P k v) (mset (entries m)))"

lemma count_if_assign_new:
  "inv m \<Longrightarrow> find m k = None \<Longrightarrow> count_if P (assign k v m) = count_if P m + (if P k v then 1 else 0)"
  by (simp add: count_if_def entries_assign)

lemma count_if_assign_old:
  assumes "inv m" and "find m k = Some w"
  shows "count_if P (assign k v m) + (if P k w then 1 else 0) = count_if P m + (if P k v then 1 else 0)"
proof -
  have "(k, w) \<in># mset (entries m)" using assms entries_find by auto
  then obtain M where M: "mset (entries m) = add_mset (k, w) M" by (metis multi_member_split)
  then show ?thesis using assms by (simp add: count_if_def entries_assign)
qed

lemma count_if_pos: "inv m \<Longrightarrow> find m k = Some v \<Longrightarrow> P k v \<Longrightarrow> 0 < count_if P m"
  using entries_find [of m k v] by (auto simp: count_if_def nonempty_has_size [symmetric])

lemma not_find_erase: "inv m \<Longrightarrow> find (erase k m) k = None"
  by (simp add: find_erase)

lemma length_entries_assign_old:
  "inv m \<Longrightarrow> find m k = Some w \<Longrightarrow> length (entries (assign k v m)) = length (entries m)"
  using count_if_assign_old [of m k w "\<lambda>_ _. True" v]
  by (simp add: count_if_def case_prod_unfold flip: size_mset)

end

section \<open>Sorted association lists\<close>

type_synonym ('k, 'v) std_map = "('k \<times> 'v) list"

definition sm_inv :: "('k::linorder, 'v) std_map \<Rightarrow> bool" where
  "sm_inv m \<longleftrightarrow> sorted_wrt (<) (map fst m)"

abbreviation sm_find :: "('k, 'v) std_map \<Rightarrow> 'k \<Rightarrow> 'v option" where
  "sm_find m k \<equiv> map_of m k"

fun sm_set :: "'k::linorder \<Rightarrow> 'v \<Rightarrow> ('k, 'v) std_map \<Rightarrow> ('k, 'v) std_map" where
  "sm_set k v [] = [(k, v)]"
| "sm_set k v ((k', v') # m) =
     (if k < k' then (k, v) # (k', v') # m
      else if k = k' then (k, v) # m
      else (k', v') # sm_set k v m)"

definition sm_insert :: "'k::linorder \<Rightarrow> 'v \<Rightarrow> ('k, 'v) std_map \<Rightarrow> ('k, 'v) std_map" where
  "sm_insert k v m = (case sm_find m k of None \<Rightarrow> sm_set k v m | Some _ \<Rightarrow> m)"

fun sm_erase :: "'k \<Rightarrow> ('k, 'v) std_map \<Rightarrow> ('k, 'v) std_map" where
  "sm_erase k [] = []"
| "sm_erase k ((k', v') # m) = (if k = k' then sm_erase k m else (k', v') # sm_erase k m)"

text \<open>The value of \<^verbatim>\<open>m[k]\<close>, which first inserts a default where the key is absent.\<close>

definition sm_at :: "'v \<Rightarrow> 'k \<Rightarrow> ('k, 'v) std_map \<Rightarrow> 'v" where
  "sm_at d k m = (case sm_find m k of None \<Rightarrow> d | Some v \<Rightarrow> v)"

lemma sm_inv_Nil [simp]: "sm_inv []"
  by (simp add: sm_inv_def)

lemma sm_inv_Cons [simp]:
  "sm_inv ((k, v) # m) \<longleftrightarrow> (\<forall>k' \<in> fst ` set m. k < k') \<and> sm_inv m"
  by (auto simp: sm_inv_def)

lemma sm_find_None: "sm_find m k = None \<longleftrightarrow> k \<notin> fst ` set m"
  by (rule map_of_eq_None_iff)

lemma fst_sm_set: "fst ` set (sm_set k v m) = insert k (fst ` set m)"
  by (induction k v m rule: sm_set.induct) auto

lemma fst_sm_erase: "fst ` set (sm_erase k m) = fst ` set m - {k}"
  by (induction k m rule: sm_erase.induct) auto

lemma sm_inv_set [simp, intro]: "sm_inv m \<Longrightarrow> sm_inv (sm_set k v m)"
proof (induction k v m rule: sm_set.induct)
  case (2 k v k' v' m)
  then show ?case by (auto simp: fst_sm_set dest: less_trans)
qed simp

lemma sm_inv_erase [simp, intro]: "sm_inv m \<Longrightarrow> sm_inv (sm_erase k m)"
  by (induction k m rule: sm_erase.induct) (auto simp: fst_sm_erase)

lemma sm_find_set [simp]: "sm_inv m \<Longrightarrow> sm_find (sm_set k v m) k' = (if k' = k then Some v else sm_find m k')"
  by (induction k v m rule: sm_set.induct) auto

lemma sm_find_erase [simp]: "sm_find (sm_erase k m) k' = (if k' = k then None else sm_find m k')"
  by (induction k m rule: sm_erase.induct) auto

lemma sm_find_set_absent: "k' \<noteq> k \<Longrightarrow> sm_find (sm_set k v m) k' = sm_find m k'"
  by (induction k v m rule: sm_set.induct) auto

lemma sm_distinct: "sm_inv m \<Longrightarrow> distinct (map fst m)"
  by (induction m) force+

lemma sm_mset_set:
  "sm_inv m \<Longrightarrow> mset (sm_set k v m) =
     add_mset (k, v) (mset m - (case sm_find m k of None \<Rightarrow> {#} | Some w \<Rightarrow> {#(k, w)#}))"
proof (induction k v m rule: sm_set.induct)
  case (2 k v k' v' m)
  consider "k < k'" | "k = k'" | "k' < k" by fastforce
  then show ?case
  proof cases
    case 1
    with "2.prems" have "sm_find m k = None" by (auto simp: sm_find_None)
    with 1 show ?thesis by simp
  next
    case 3
    then have ne: "\<not> k < k'" "k \<noteq> k'" by auto
    with "2.IH" "2.prems" have IH: "mset (sm_set k v m) =
        add_mset (k, v) (mset m - (case sm_find m k of None \<Rightarrow> {#} | Some w \<Rightarrow> {#(k, w)#}))" by simp
    have "add_mset (k', v') (mset m - {#(k, w)#}) = add_mset (k', v') (mset m) - {#(k, w)#}" for w
      using ne by simp
    with ne IH show ?thesis by (cases "sm_find m k") simp_all
  qed simp
qed simp

lemma sm_mset_erase:
  "sm_inv m \<Longrightarrow> mset (sm_erase k m) = mset m - (case sm_find m k of None \<Rightarrow> {#} | Some w \<Rightarrow> {#(k, w)#})"
proof (induction k m rule: sm_erase.induct)
  case (2 k k' v' m)
  show ?case
  proof (cases "k = k'")
    case True
    with "2.prems" have "sm_find m k = None" by (auto simp: sm_find_None)
    with True 2 show ?thesis by simp
  next
    case False
    have "add_mset (k', v') (mset m - {#(k, w)#}) = add_mset (k', v') (mset m) - {#(k, w)#}" for w
      using False by simp
    with False 2 show ?thesis by (cases "sm_find m k") simp_all
  qed
qed simp

lemma sm_find_iff: "sm_inv m \<Longrightarrow> (k, v) \<in> set m \<longleftrightarrow> sm_find m k = Some v"
  by (meson map_of_SomeD map_of_is_SomeI sm_distinct)

interpretation sm: ordered_map sm_find sm_set sm_erase id sm_inv
  by unfold_locales (auto simp: sm_mset_set sm_mset_erase sm_find_iff)

lemma sm_erase_absent: "sm_find m k = None \<Longrightarrow> sm_erase k m = m"
  by (induction k m rule: sm_erase.induct) (auto split: if_splits)

lemma sm_set_snoc: "\<forall>k' \<in> fst ` set m. k' < k \<Longrightarrow> sm_set k v m = m @ [(k, v)]"
  by (induction k v m rule: sm_set.induct) auto

lemma sm_set_ne [simp]: "sm_set k v m \<noteq> []"
  by (cases m) (auto split: if_splits)

section \<open>Sets\<close>

type_synonym 'k std_set = "'k list"

fun ss_insert :: "'k::linorder \<Rightarrow> 'k std_set \<Rightarrow> 'k std_set" where
  "ss_insert k [] = [k]"
| "ss_insert k (x # s) = (if k < x then k # x # s else if k = x then x # s else x # ss_insert k s)"

definition ss_erase :: "'k \<Rightarrow> 'k std_set \<Rightarrow> 'k std_set" where
  "ss_erase k s = filter (\<lambda>x. x \<noteq> k) s"

lemma set_ss_insert [simp]: "set (ss_insert k s) = insert k (set s)"
  by (induction k s rule: ss_insert.induct) auto

lemma set_ss_erase [simp]: "set (ss_erase k s) = set s - {k}"
  by (auto simp: ss_erase_def)

lemma sorted_ss_insert: "sorted_wrt (<) s \<Longrightarrow> sorted_wrt (<) (ss_insert k s)"
  by (induction k s rule: ss_insert.induct) (auto dest: less_trans)

end
