(* ===== verification/Text_Util.thy ===== *)
theory Text_Util
  imports Prelude
begin

text \<open>
  Text: \<^verbatim>\<open>Tokenizer\<close> (\<^verbatim>\<open>src/src/server/shared/Utilities/Util.cpp\<close>), and what the sources use of
  the C and C++ libraries on text: decimal output of an unsigned integer, \<^verbatim>\<open>atol\<close>,
  \<^verbatim>\<open>c_str\<close>, \<^verbatim>\<open>strcmp\<close> and \<^verbatim>\<open>strcasecmp\<close>. Characters are bytes.
\<close>

section \<open>C strings\<close>

text \<open>What a C string function sees of a byte sequence: the part before the first NUL.\<close>

definition c_str :: "u8 list \<Rightarrow> u8 list" where
  "c_str s = takeWhile (\<lambda>c. c \<noteq> 0) s"

lemma c_str_id [simp]: "0 \<notin> set s \<Longrightarrow> c_str s = s"
  by (auto simp: c_str_def takeWhile_eq_all_conv)

lemma c_str_no_nul [simp]: "0 \<notin> set (c_str s)"
  by (auto simp: c_str_def dest: set_takeWhileD)

definition strcmp_ne :: "u8 list \<Rightarrow> u8 list \<Rightarrow> bool" where
  "strcmp_ne a b \<longleftrightarrow> c_str a \<noteq> c_str b"

definition tolower :: "u8 \<Rightarrow> u8" where
  "tolower c = (if 65 \<le> c \<and> c \<le> 90 then c + 32 else c)"

definition stricmp_ne :: "u8 list \<Rightarrow> u8 list \<Rightarrow> bool" where
  "stricmp_ne a b \<longleftrightarrow> map tolower (c_str a) \<noteq> map tolower (c_str b)"

section \<open>Tokenizer\<close>

text \<open>
  The scan of the copied string: \<open>cur\<close> holds the characters from \<^verbatim>\<open>posold\<close> to \<^verbatim>\<open>posnew\<close>. The end
  of the string, or a NUL inside it, closes the last token, which is dropped when it is
  empty. The separator is not NUL.
\<close>

fun tokenize_loop :: "u8 \<Rightarrow> u8 list \<Rightarrow> u8 list \<Rightarrow> u8 list list" where
  "tokenize_loop sep cur [] = (if cur \<noteq> [] then [cur] else [])"
| "tokenize_loop sep cur (c # cs) =
     (if c = sep then cur # tokenize_loop sep [] cs
      else if c = 0 then (if cur \<noteq> [] then [cur] else [])
      else tokenize_loop sep (cur @ [c]) cs)"

definition Tokenizer :: "u8 list \<Rightarrow> u8 \<Rightarrow> u8 list list" where
  "Tokenizer src sep = tokenize_loop sep [] src"

lemma tokenize_loop_token:
  "sep \<notin> set t \<Longrightarrow> 0 \<notin> set t \<Longrightarrow>
     tokenize_loop sep cur (t @ sep # rest) = (cur @ t) # tokenize_loop sep [] rest"
  by (induction t arbitrary: cur) auto

lemma Tokenizer_separated:
  assumes "\<And>t. t \<in> set ts \<Longrightarrow> sep \<notin> set t \<and> 0 \<notin> set t"
  shows "Tokenizer (concat (map (\<lambda>t. t @ [sep]) ts)) sep = ts"
  using assms unfolding Tokenizer_def by (induction ts) (simp_all add: tokenize_loop_token)

section \<open>Decimal numbers\<close>

fun dec_digits :: "nat \<Rightarrow> u8 list" where
  "dec_digits n = (if n < 10 then [of_nat (48 + n)] else dec_digits (n div 10) @ [of_nat (48 + n mod 10)])"

declare dec_digits.simps [simp del]

definition is_digit :: "u8 \<Rightarrow> bool" where
  "is_digit c \<longleftrightarrow> 48 \<le> c \<and> c \<le> 57"

definition dec_value :: "u8 list \<Rightarrow> nat" where
  "dec_value ds = foldl (\<lambda>v d. 10 * v + (unat d - 48)) 0 ds"

definition is_space :: "u8 \<Rightarrow> bool" where
  "is_space c \<longleftrightarrow> c = 32 \<or> 9 \<le> c \<and> c \<le> 13"

text \<open>\<^verbatim>\<open>atol\<close> with a 64-bit \<^verbatim>\<open>long\<close>: blanks, a sign, digits; out of range it gives the bound.\<close>

definition saturate_long :: "int \<Rightarrow> int" where
  "saturate_long v = max (- (2 ^ 63)) (min (2 ^ 63 - 1) v)"

definition atol :: "u8 list \<Rightarrow> int" where
  "atol s =
     (let s1 = dropWhile is_space s;
          neg = (s1 \<noteq> [] \<and> hd s1 = 45);
          s2 = (if s1 \<noteq> [] \<and> (hd s1 = 45 \<or> hd s1 = 43) then tl s1 else s1);
          v = int (dec_value (takeWhile is_digit s2))
      in saturate_long (if neg then - v else v))"

lemma digit_char:
  assumes "d < 10"
  shows "is_digit (of_nat (48 + d)) \<and> unat (of_nat (48 + d) :: u8) = 48 + d \<and>
     (of_nat (48 + d) :: u8) \<noteq> 0 \<and> (of_nat (48 + d) :: u8) \<noteq> 32"
proof -
  have u: "unat (of_nat (48 + d) :: u8) = 48 + d"
    unfolding unat_of_nat using assms by simp
  then have "is_digit (of_nat (48 + d))" using assms
    unfolding is_digit_def word_le_nat_alt by simp
  moreover from u have "unat (of_nat (48 + d) :: u8) \<noteq> unat (32 :: u8)" "unat (of_nat (48 + d) :: u8) \<noteq> unat (0 :: u8)"
    by simp_all
  ultimately show ?thesis using u by metis
qed

lemma dec_digits_chars: "c \<in> set (dec_digits n) \<Longrightarrow> is_digit c \<and> c \<noteq> 0 \<and> c \<noteq> 32"
proof (induction n rule: dec_digits.induct)
  case (1 n)
  then show ?case
    using digit_char [of n] digit_char [of "n mod 10"]
    by (subst (asm) (2) dec_digits.simps) (auto split: if_splits)
qed

lemma dec_digits_ne [simp]: "dec_digits n \<noteq> []"
  by (subst dec_digits.simps) simp

lemma dec_value_digits: "dec_value (dec_digits n) = n"
proof (induction n rule: dec_digits.induct)
  case (1 n)
  show ?case
  proof (cases "n < 10")
    case True
    then show ?thesis
      using digit_char [of n] by (subst dec_digits.simps) (simp add: dec_value_def)
  next
    case False
    then have "dec_value (dec_digits n) = 10 * dec_value (dec_digits (n div 10)) + n mod 10"
      using digit_char [of "n mod 10"] by (subst dec_digits.simps) (simp add: dec_value_def)
    with 1 False show ?thesis by simp
  qed
qed

lemma atol_dec_digits:
  assumes "n < 2 ^ 63"
  shows "atol (dec_digits n) = int n"
proof -
  obtain c cs where ds: "dec_digits n = c # cs" by (cases "dec_digits n") auto
  then have c: "is_digit c" using dec_digits_chars [of c n] by simp
  then have "\<not> is_space c" "c \<noteq> 45" "c \<noteq> 43"
    by (auto simp: is_digit_def is_space_def word_le_nat_alt)
  moreover have "takeWhile is_digit (dec_digits n) = dec_digits n"
    using dec_digits_chars by (simp add: takeWhile_eq_all_conv)
  then have "dec_value (takeWhile is_digit (c # cs)) = n" by (simp only: ds [symmetric] dec_value_digits)
  ultimately show ?thesis
    using assms by (simp add: atol_def ds saturate_long_def Let_def del: takeWhile.simps)
qed

end
