(* ===== verification/Object_Guid.thy ===== *)
theory Object_Guid
  imports Prelude
begin

text \<open>
  The layout of object GUIDs (\<^verbatim>\<open>src/src/server/game/Entities/Object/ObjectDefines.h\<close>), which channels, the
  dungeon finder and groups take apart: the kind of object in the upper bits, a counter in the lower
  ones. And the size of a party (\<^verbatim>\<open>src/src/server/game/Groups/Group.h\<close>), which the dungeon finder and
  groups share.
\<close>

section \<open>Kinds of objects\<close>

definition HIGHGUID_ITEM :: u32 where "HIGHGUID_ITEM = 0x400"
definition HIGHGUID_PLAYER :: u32 where "HIGHGUID_PLAYER = 0"
definition HIGHGUID_DYNAMICOBJECT :: u32 where "HIGHGUID_DYNAMICOBJECT = 0xF10"
definition HIGHGUID_CORPSE :: u32 where "HIGHGUID_CORPSE = 0xF101"
definition HIGHGUID_GROUP :: u32 where "HIGHGUID_GROUP = 0x1F5"
definition HIGHGUID_GUILD :: u32 where "HIGHGUID_GUILD = 0x1FF5"

lemmas highguid_defs = HIGHGUID_ITEM_def HIGHGUID_PLAYER_def HIGHGUID_DYNAMICOBJECT_def HIGHGUID_CORPSE_def
  HIGHGUID_GROUP_def HIGHGUID_GUILD_def

definition MAXGROUPSIZE :: nat where "MAXGROUPSIZE = 5"

section \<open>Making and reading a GUID\<close>

definition MAKE_NEW_GUID :: "u32 \<Rightarrow> u32 \<Rightarrow> u32 \<Rightarrow> u64" where
  "MAKE_NEW_GUID l e h =
     ucast l OR push_bit 32 (ucast e)
       OR push_bit (if h = HIGHGUID_GUILD \<or> h = HIGHGUID_CORPSE then 48 else 52) (ucast h)"

definition GUID_HIPART :: "u64 \<Rightarrow> u32" where
  "GUID_HIPART guid =
     (let t = ucast (drop_bit 48 guid AND 0xFFFF) :: u32 in
      if t = HIGHGUID_GUILD \<or> t = HIGHGUID_CORPSE then t else drop_bit 4 t AND 0xFFF)"

definition IS_GROUP :: "u64 \<Rightarrow> bool" where
  "IS_GROUP guid \<longleftrightarrow> GUID_HIPART guid = HIGHGUID_GROUP"

definition IsGuidHaveEnPart :: "u64 \<Rightarrow> bool" where
  "IsGuidHaveEnPart guid \<longleftrightarrow>
     GUID_HIPART guid \<notin> {HIGHGUID_ITEM, HIGHGUID_PLAYER, HIGHGUID_DYNAMICOBJECT, HIGHGUID_CORPSE, HIGHGUID_GROUP, HIGHGUID_GUILD}"

definition GUID_LOPART_2 :: "u64 \<Rightarrow> u32" where
  "GUID_LOPART_2 x = ucast (x AND 0x00000000FFFFFFFF)"

definition GUID_LOPART_3 :: "u64 \<Rightarrow> u32" where
  "GUID_LOPART_3 x = ucast (x AND 0x00000000FFFFFFFF)"

definition GUID_LOPART :: "u64 \<Rightarrow> u32" where
  "GUID_LOPART x = (if IsGuidHaveEnPart x then GUID_LOPART_3 x else GUID_LOPART_2 x)"

text \<open>Both cases of the macro take the same bits, so the counter is read back from every GUID.\<close>

lemma GUID_LOPART_low: "GUID_LOPART x = ucast x"
  by (rule bit_word_eqI)
    (auto simp: GUID_LOPART_def GUID_LOPART_2_def GUID_LOPART_3_def bit_simps
      mask_eq_exp_minus_1 [of 32, where 'a = "64 word", simplified, symmetric])

lemma GUID_LOPART_MAKE: "GUID_LOPART (MAKE_NEW_GUID l e h) = l"
  unfolding GUID_LOPART_low by (rule bit_word_eqI) (auto simp: MAKE_NEW_GUID_def bit_simps)

lemma IS_GROUP_MAKE: "IS_GROUP (MAKE_NEW_GUID l 0 HIGHGUID_GROUP)"
proof -
  have "drop_bit 48 (MAKE_NEW_GUID l 0 HIGHGUID_GROUP) AND 0xFFFF = 0x1F50"
  proof -
    have "drop_bit 48 (ucast l :: u64) = 0" by (rule bit_word_eqI) (auto simp: bit_simps dest: bit_imp_le_length)
    then show ?thesis by (simp add: MAKE_NEW_GUID_def highguid_defs drop_bit_or)
  qed
  then show ?thesis by (simp add: IS_GROUP_def GUID_HIPART_def highguid_defs)
qed

end
