(* ===== verification/Channel.thy ===== *)
theory Channel
  imports WorldPacket Std_Map Text_Util Object_Guid
begin

text \<open>
  \<^verbatim>\<open>Channel\<close> (\<^verbatim>\<open>src/src/server/game/Chat/Channels/Channel.h\<close> and \<^verbatim>\<open>.cpp\<close>): the members of a chat
  channel and their flags, the ban list, password, announcements and ownership, and every
  notification sent to the clients.

  Players, accounts, configuration and database are the environment \<open>chan_env\<close>: which
  players are online and what the channel asks of them. A packet sent, a player told that
  it joined or left, and a database statement are appended to \<open>chan_out\<close>. Writing a packet may
  hit the assertion of \<open>ByteBuffer\<close> on a packet of ten million bytes, so an operation returns
  a result.
\<close>

section \<open>Constants\<close>

definition CHAT_JOINED_NOTICE :: u8 where "CHAT_JOINED_NOTICE = 0x00"
definition CHAT_LEFT_NOTICE :: u8 where "CHAT_LEFT_NOTICE = 0x01"
definition CHAT_YOU_JOINED_NOTICE :: u8 where "CHAT_YOU_JOINED_NOTICE = 0x02"
definition CHAT_YOU_LEFT_NOTICE :: u8 where "CHAT_YOU_LEFT_NOTICE = 0x03"
definition CHAT_WRONG_PASSWORD_NOTICE :: u8 where "CHAT_WRONG_PASSWORD_NOTICE = 0x04"
definition CHAT_NOT_MEMBER_NOTICE :: u8 where "CHAT_NOT_MEMBER_NOTICE = 0x05"
definition CHAT_NOT_MODERATOR_NOTICE :: u8 where "CHAT_NOT_MODERATOR_NOTICE = 0x06"
definition CHAT_PASSWORD_CHANGED_NOTICE :: u8 where "CHAT_PASSWORD_CHANGED_NOTICE = 0x07"
definition CHAT_OWNER_CHANGED_NOTICE :: u8 where "CHAT_OWNER_CHANGED_NOTICE = 0x08"
definition CHAT_PLAYER_NOT_FOUND_NOTICE :: u8 where "CHAT_PLAYER_NOT_FOUND_NOTICE = 0x09"
definition CHAT_NOT_OWNER_NOTICE :: u8 where "CHAT_NOT_OWNER_NOTICE = 0x0A"
definition CHAT_CHANNEL_OWNER_NOTICE :: u8 where "CHAT_CHANNEL_OWNER_NOTICE = 0x0B"
definition CHAT_MODE_CHANGE_NOTICE :: u8 where "CHAT_MODE_CHANGE_NOTICE = 0x0C"
definition CHAT_ANNOUNCEMENTS_ON_NOTICE :: u8 where "CHAT_ANNOUNCEMENTS_ON_NOTICE = 0x0D"
definition CHAT_ANNOUNCEMENTS_OFF_NOTICE :: u8 where "CHAT_ANNOUNCEMENTS_OFF_NOTICE = 0x0E"
definition CHAT_MUTED_NOTICE :: u8 where "CHAT_MUTED_NOTICE = 0x11"
definition CHAT_PLAYER_KICKED_NOTICE :: u8 where "CHAT_PLAYER_KICKED_NOTICE = 0x12"
definition CHAT_BANNED_NOTICE :: u8 where "CHAT_BANNED_NOTICE = 0x13"
definition CHAT_PLAYER_BANNED_NOTICE :: u8 where "CHAT_PLAYER_BANNED_NOTICE = 0x14"
definition CHAT_PLAYER_UNBANNED_NOTICE :: u8 where "CHAT_PLAYER_UNBANNED_NOTICE = 0x15"
definition CHAT_PLAYER_NOT_BANNED_NOTICE :: u8 where "CHAT_PLAYER_NOT_BANNED_NOTICE = 0x16"
definition CHAT_PLAYER_ALREADY_MEMBER_NOTICE :: u8 where "CHAT_PLAYER_ALREADY_MEMBER_NOTICE = 0x17"
definition CHAT_INVITE_NOTICE :: u8 where "CHAT_INVITE_NOTICE = 0x18"
definition CHAT_INVITE_WRONG_FACTION_NOTICE :: u8 where "CHAT_INVITE_WRONG_FACTION_NOTICE = 0x19"
definition CHAT_WRONG_FACTION_NOTICE :: u8 where "CHAT_WRONG_FACTION_NOTICE = 0x1A"
definition CHAT_INVALID_NAME_NOTICE :: u8 where "CHAT_INVALID_NAME_NOTICE = 0x1B"
definition CHAT_NOT_MODERATED_NOTICE :: u8 where "CHAT_NOT_MODERATED_NOTICE = 0x1C"
definition CHAT_PLAYER_INVITED_NOTICE :: u8 where "CHAT_PLAYER_INVITED_NOTICE = 0x1D"
definition CHAT_PLAYER_INVITE_BANNED_NOTICE :: u8 where "CHAT_PLAYER_INVITE_BANNED_NOTICE = 0x1E"
definition CHAT_THROTTLED_NOTICE :: u8 where "CHAT_THROTTLED_NOTICE = 0x1F"
definition CHAT_NOT_IN_AREA_NOTICE :: u8 where "CHAT_NOT_IN_AREA_NOTICE = 0x20"
definition CHAT_NOT_IN_LFG_NOTICE :: u8 where "CHAT_NOT_IN_LFG_NOTICE = 0x21"
definition CHAT_VOICE_ON_NOTICE :: u8 where "CHAT_VOICE_ON_NOTICE = 0x22"
definition CHAT_VOICE_OFF_NOTICE :: u8 where "CHAT_VOICE_OFF_NOTICE = 0x23"

definition CHANNEL_FLAG_CUSTOM :: u8 where "CHANNEL_FLAG_CUSTOM = 0x01"
definition CHANNEL_FLAG_TRADE :: u8 where "CHANNEL_FLAG_TRADE = 0x04"
definition CHANNEL_FLAG_NOT_LFG :: u8 where "CHANNEL_FLAG_NOT_LFG = 0x08"
definition CHANNEL_FLAG_GENERAL :: u8 where "CHANNEL_FLAG_GENERAL = 0x10"
definition CHANNEL_FLAG_CITY :: u8 where "CHANNEL_FLAG_CITY = 0x20"
definition CHANNEL_FLAG_LFG :: u8 where "CHANNEL_FLAG_LFG = 0x40"

definition CHANNEL_DBC_FLAG_TRADE :: u32 where "CHANNEL_DBC_FLAG_TRADE = 0x00008"
definition CHANNEL_DBC_FLAG_CITY_ONLY2 :: u32 where "CHANNEL_DBC_FLAG_CITY_ONLY2 = 0x00020"
definition CHANNEL_DBC_FLAG_LFG :: u32 where "CHANNEL_DBC_FLAG_LFG = 0x40000"

definition MEMBER_FLAG_NONE :: u8 where "MEMBER_FLAG_NONE = 0x00"
definition MEMBER_FLAG_OWNER :: u8 where "MEMBER_FLAG_OWNER = 0x01"
definition MEMBER_FLAG_MODERATOR :: u8 where "MEMBER_FLAG_MODERATOR = 0x02"
definition MEMBER_FLAG_MUTED :: u8 where "MEMBER_FLAG_MUTED = 0x08"

definition SMSG_CHANNEL_NOTIFY :: u32 where "SMSG_CHANNEL_NOTIFY = 0x0825"
definition SMSG_CHANNEL_LIST :: u32 where "SMSG_CHANNEL_LIST = 0x2214"
definition SMSG_USERLIST_ADD :: u32 where "SMSG_USERLIST_ADD = 0x0F37"
definition SMSG_USERLIST_REMOVE :: u32 where "SMSG_USERLIST_REMOVE = 0x2006"
definition SMSG_USERLIST_UPDATE :: u32 where "SMSG_USERLIST_UPDATE = 0x0135"
definition SMSG_MESSAGECHAT :: u32 where "SMSG_MESSAGECHAT = 0x2026"
definition CHAT_MSG_CHANNEL :: u8 where "CHAT_MSG_CHANNEL = 0x11"
definition LANG_UNIVERSAL :: u32 where "LANG_UNIVERSAL = 0"

section \<open>Accounts\<close>

definition SEC_PLAYER :: u32 where "SEC_PLAYER = 0"
definition SEC_GAMEMASTER :: u32 where "SEC_GAMEMASTER = 6"
definition SEC_CONSOLE :: u32 where "SEC_CONSOLE = 9"

definition IsPlayerAccount :: "u32 \<Rightarrow> bool" where
  "IsPlayerAccount gmlevel \<longleftrightarrow> gmlevel = SEC_PLAYER"

definition IsGMAccount :: "u32 \<Rightarrow> bool" where
  "IsGMAccount gmlevel \<longleftrightarrow> SEC_GAMEMASTER \<le> gmlevel \<and> gmlevel \<le> SEC_CONSOLE"

section \<open>State\<close>

record PlayerInfo =
  pi_player :: u64
  pi_flags :: u8

definition HasFlag :: "u8 \<Rightarrow> PlayerInfo \<Rightarrow> bool" where
  "HasFlag flag i \<longleftrightarrow> pi_flags i AND flag \<noteq> 0"

definition SetFlag :: "u8 \<Rightarrow> PlayerInfo \<Rightarrow> PlayerInfo" where
  "SetFlag flag i = (if \<not> HasFlag flag i then i\<lparr>pi_flags := pi_flags i OR flag\<rparr> else i)"

definition IsOwner :: "PlayerInfo \<Rightarrow> bool" where
  "IsOwner i \<longleftrightarrow> pi_flags i AND MEMBER_FLAG_OWNER \<noteq> 0"

definition info_SetOwner :: "bool \<Rightarrow> PlayerInfo \<Rightarrow> PlayerInfo" where
  "info_SetOwner state i =
     (if state then i\<lparr>pi_flags := pi_flags i OR MEMBER_FLAG_OWNER\<rparr>
      else i\<lparr>pi_flags := pi_flags i AND NOT MEMBER_FLAG_OWNER\<rparr>)"

definition IsModerator :: "PlayerInfo \<Rightarrow> bool" where
  "IsModerator i \<longleftrightarrow> pi_flags i AND MEMBER_FLAG_MODERATOR \<noteq> 0"

definition info_SetModerator :: "bool \<Rightarrow> PlayerInfo \<Rightarrow> PlayerInfo" where
  "info_SetModerator state i =
     (if state then i\<lparr>pi_flags := pi_flags i OR MEMBER_FLAG_MODERATOR\<rparr>
      else i\<lparr>pi_flags := pi_flags i AND NOT MEMBER_FLAG_MODERATOR\<rparr>)"

definition IsMuted :: "PlayerInfo \<Rightarrow> bool" where
  "IsMuted i \<longleftrightarrow> pi_flags i AND MEMBER_FLAG_MUTED \<noteq> 0"

definition info_SetMuted :: "bool \<Rightarrow> PlayerInfo \<Rightarrow> PlayerInfo" where
  "info_SetMuted state i =
     (if state then i\<lparr>pi_flags := pi_flags i OR MEMBER_FLAG_MUTED\<rparr>
      else i\<lparr>pi_flags := pi_flags i AND NOT MEMBER_FLAG_MUTED\<rparr>)"

datatype chan_event =
    ChanSend u64 u32 "u8 list"
  | JoinedChannel u64
  | LeftChannel u64
  | InsertChannel "u8 list" u32
  | UpdateChannel bool bool "u8 list" "u8 list" "u8 list" u32
  | UpdateChannelUsage "u8 list" u32

record channel =
  players :: "(u64, PlayerInfo) std_map"
  banned :: "u64 std_set"
  m_announce :: bool
  m_special :: bool
  m_ownership :: bool
  m_name :: "u8 list"
  m_password :: "u8 list"
  m_flags :: u8
  m_channelId :: u32
  m_ownerGUID :: u64
  m_IsSaved :: bool
  m_Team :: u32
  chan_out :: "chan_event list"

record chan_player =
  cp_guid :: u64
  cp_name :: "u8 list"
  cp_security :: u32
  cp_team :: u32
  cp_in_group :: bool
  cp_has_ignore :: "u32 \<Rightarrow> bool"
  cp_chat_tag :: u8
  cp_gm_visible :: bool
  cp_visible_for :: "u64 \<Rightarrow> bool"

record chan_row =
  row_announce :: bool
  row_ownership :: bool
  row_password :: "u8 list"
  row_bannedList :: "u8 list option"

record chan_env =
  FindPlayer :: "u64 \<Rightarrow> chan_player option"
  FindPlayerByName :: "u8 list \<Rightarrow> chan_player option"
  character_name :: "u32 \<Rightarrow> u8 list option"
  ChatChannels :: "u32 \<Rightarrow> u32 option"
  channels_table :: "u8 list \<Rightarrow> u32 \<Rightarrow> chan_row option"
  cfg_preserve_custom :: bool
  cfg_restricted_lfg :: bool
  cfg_silent_gm_join :: bool
  cfg_two_side_channel :: bool
  cfg_gm_level_in_who :: u32
  cfg_preserve_duration :: u32

definition chan_emit :: "chan_event list \<Rightarrow> channel \<Rightarrow> channel" where
  "chan_emit es c = c\<lparr>chan_out := chan_out c @ es\<rparr>"

definition IsOn :: "u64 \<Rightarrow> channel \<Rightarrow> bool" where
  "IsOn who c \<longleftrightarrow> sm_find (players c) who \<noteq> None"

definition IsBanned :: "u64 \<Rightarrow> channel \<Rightarrow> bool" where
  "IsBanned guid c \<longleftrightarrow> guid \<in> set (banned c)"

definition IsConstant :: "channel \<Rightarrow> bool" where
  "IsConstant c \<longleftrightarrow> m_channelId c \<noteq> 0 \<or> m_special c"

definition GetNumPlayers :: "channel \<Rightarrow> u32" where
  "GetNumPlayers c = of_nat (length (players c))"

definition chan_HasFlag :: "u8 \<Rightarrow> channel \<Rightarrow> bool" where
  "chan_HasFlag flag c \<longleftrightarrow> m_flags c AND flag \<noteq> 0"

definition IsLFG :: "channel \<Rightarrow> bool" where
  "IsLFG c \<longleftrightarrow> m_flags c AND CHANNEL_FLAG_LFG \<noteq> 0"

definition SetPassword :: "u8 list \<Rightarrow> channel \<Rightarrow> channel" where
  "SetPassword npassword c = c\<lparr>m_password := npassword\<rparr>"

definition SetAnnounce :: "bool \<Rightarrow> channel \<Rightarrow> channel" where
  "SetAnnounce nannounce c = c\<lparr>m_announce := nannounce\<rparr>"

definition SetOwnership :: "bool \<Rightarrow> channel \<Rightarrow> channel" where
  "SetOwnership ownership c = c\<lparr>m_ownership := ownership\<rparr>"

definition GetPlayerFlags :: "u64 \<Rightarrow> channel \<Rightarrow> u8" where
  "GetPlayerFlags p c = (case sm_find (players c) p of None \<Rightarrow> 0 | Some i \<Rightarrow> pi_flags i)"

text \<open>
  \<^verbatim>\<open>players[p]\<close> inserts a zeroed entry where there is none: \<open>member\<close> is the value it
  refers to, \<open>member_touch\<close> the map after a mere access, \<open>member_upd\<close> the map after a call
  that changes the entry. After a successful \<^verbatim>\<open>IsOn(p)\<close> an access leaves the map alone, and reading is
  \<open>member\<close> only.
\<close>

definition no_info :: PlayerInfo where
  "no_info = \<lparr>pi_player = 0, pi_flags = 0\<rparr>"

definition member :: "u64 \<Rightarrow> channel \<Rightarrow> PlayerInfo" where
  "member p c = sm_at no_info p (players c)"

definition member_touch :: "u64 \<Rightarrow> channel \<Rightarrow> channel" where
  "member_touch p c = c\<lparr>players := sm_insert p no_info (players c)\<rparr>"

definition member_upd :: "u64 \<Rightarrow> (PlayerInfo \<Rightarrow> PlayerInfo) \<Rightarrow> channel \<Rightarrow> channel" where
  "member_upd p f c = c\<lparr>players := sm_set p (f (member p c)) (players c)\<rparr>"

section \<open>Sending\<close>

definition SendToAll :: "chan_env \<Rightarrow> world_packet \<Rightarrow> u64 \<Rightarrow> channel \<Rightarrow> channel" where
  "SendToAll env data p c =
     chan_emit (concat (map (\<lambda>(who, i).
       case FindPlayer env who of None \<Rightarrow> []
       | Some pl \<Rightarrow> if p = 0 \<or> \<not> cp_has_ignore pl (GUID_LOPART p)
           then [ChanSend who (m_opcode data) (storage (wp_buf data))] else []) (players c))) c"

definition SendToAllButOne :: "chan_env \<Rightarrow> world_packet \<Rightarrow> u64 \<Rightarrow> channel \<Rightarrow> channel" where
  "SendToAllButOne env data who c =
     (if players c = [] then c
      else chan_emit (concat (map (\<lambda>(m, i).
        if m \<noteq> who then (case FindPlayer env m of None \<Rightarrow> []
          | Some pl \<Rightarrow> [ChanSend m (m_opcode data) (storage (wp_buf data))]) else []) (players c))) c)"

definition SendToOne :: "chan_env \<Rightarrow> world_packet \<Rightarrow> u64 \<Rightarrow> channel \<Rightarrow> channel" where
  "SendToOne env data who c =
     (case FindPlayer env who of None \<Rightarrow> c
      | Some pl \<Rightarrow> chan_emit [ChanSend who (m_opcode data) (storage (wp_buf data))] c)"

section \<open>Packets\<close>

text \<open>
  The size passed to \<^verbatim>\<open>MakeNotifyPacket\<close> only reserves memory. A \<^verbatim>\<open>const char*\<close> name becomes a
  \<^verbatim>\<open>std::string\<close> up to its first NUL before it reaches these functions.
\<close>

definition MakeNotifyPacket :: "channel \<Rightarrow> u8 \<Rightarrow> world_packet \<Rightarrow> world_packet bb_result" where
  "MakeNotifyPacket c notify_type data =
     rbind (wp_put (append_word notify_type) (wp_Initialize SMSG_CHANNEL_NOTIFY data))
       (wp_put (put_string (m_name c)))"

definition MakeWrongPassword :: "channel \<Rightarrow> world_packet \<Rightarrow> world_packet bb_result" where
  "MakeWrongPassword c data = MakeNotifyPacket c CHAT_WRONG_PASSWORD_NOTICE data"

definition MakeNotMember :: "channel \<Rightarrow> world_packet \<Rightarrow> world_packet bb_result" where
  "MakeNotMember c data = MakeNotifyPacket c CHAT_NOT_MEMBER_NOTICE data"

definition MakeNotModerator :: "channel \<Rightarrow> world_packet \<Rightarrow> world_packet bb_result" where
  "MakeNotModerator c data = MakeNotifyPacket c CHAT_NOT_MODERATOR_NOTICE data"

definition MakeNotOwner :: "channel \<Rightarrow> world_packet \<Rightarrow> world_packet bb_result" where
  "MakeNotOwner c data = MakeNotifyPacket c CHAT_NOT_OWNER_NOTICE data"

definition MakeMuted :: "channel \<Rightarrow> world_packet \<Rightarrow> world_packet bb_result" where
  "MakeMuted c data = MakeNotifyPacket c CHAT_MUTED_NOTICE data"

definition MakeBanned :: "channel \<Rightarrow> world_packet \<Rightarrow> world_packet bb_result" where
  "MakeBanned c data = MakeNotifyPacket c CHAT_BANNED_NOTICE data"

definition MakeInviteWrongFaction :: "channel \<Rightarrow> world_packet \<Rightarrow> world_packet bb_result" where
  "MakeInviteWrongFaction c data = MakeNotifyPacket c CHAT_INVITE_WRONG_FACTION_NOTICE data"

definition MakeWrongFaction :: "channel \<Rightarrow> world_packet \<Rightarrow> world_packet bb_result" where
  "MakeWrongFaction c data = MakeNotifyPacket c CHAT_WRONG_FACTION_NOTICE data"

definition MakeInvalidName :: "channel \<Rightarrow> world_packet \<Rightarrow> world_packet bb_result" where
  "MakeInvalidName c data = MakeNotifyPacket c CHAT_INVALID_NAME_NOTICE data"

definition MakeNotModerated :: "channel \<Rightarrow> world_packet \<Rightarrow> world_packet bb_result" where
  "MakeNotModerated c data = MakeNotifyPacket c CHAT_NOT_MODERATED_NOTICE data"

definition MakeThrottled :: "channel \<Rightarrow> world_packet \<Rightarrow> world_packet bb_result" where
  "MakeThrottled c data = MakeNotifyPacket c CHAT_THROTTLED_NOTICE data"

definition MakeNotInArea :: "channel \<Rightarrow> world_packet \<Rightarrow> world_packet bb_result" where
  "MakeNotInArea c data = MakeNotifyPacket c CHAT_NOT_IN_AREA_NOTICE data"

definition MakeNotInLfg :: "channel \<Rightarrow> world_packet \<Rightarrow> world_packet bb_result" where
  "MakeNotInLfg c data = MakeNotifyPacket c CHAT_NOT_IN_LFG_NOTICE data"

definition MakeJoined :: "channel \<Rightarrow> u64 \<Rightarrow> world_packet \<Rightarrow> world_packet bb_result" where
  "MakeJoined c guid data =
     rbind (MakeNotifyPacket c CHAT_JOINED_NOTICE data) (wp_put (append_word guid))"

definition MakeLeft :: "channel \<Rightarrow> u64 \<Rightarrow> world_packet \<Rightarrow> world_packet bb_result" where
  "MakeLeft c guid data =
     rbind (MakeNotifyPacket c CHAT_LEFT_NOTICE data) (wp_put (append_word guid))"

definition MakePasswordChanged :: "channel \<Rightarrow> u64 \<Rightarrow> world_packet \<Rightarrow> world_packet bb_result" where
  "MakePasswordChanged c guid data =
     rbind (MakeNotifyPacket c CHAT_PASSWORD_CHANGED_NOTICE data) (wp_put (append_word guid))"

definition MakeOwnerChanged :: "channel \<Rightarrow> u64 \<Rightarrow> world_packet \<Rightarrow> world_packet bb_result" where
  "MakeOwnerChanged c guid data =
     rbind (MakeNotifyPacket c CHAT_OWNER_CHANGED_NOTICE data) (wp_put (append_word guid))"

definition MakeAnnouncementsOn :: "channel \<Rightarrow> u64 \<Rightarrow> world_packet \<Rightarrow> world_packet bb_result" where
  "MakeAnnouncementsOn c guid data =
     rbind (MakeNotifyPacket c CHAT_ANNOUNCEMENTS_ON_NOTICE data) (wp_put (append_word guid))"

definition MakeAnnouncementsOff :: "channel \<Rightarrow> u64 \<Rightarrow> world_packet \<Rightarrow> world_packet bb_result" where
  "MakeAnnouncementsOff c guid data =
     rbind (MakeNotifyPacket c CHAT_ANNOUNCEMENTS_OFF_NOTICE data) (wp_put (append_word guid))"

definition MakePlayerAlreadyMember :: "channel \<Rightarrow> u64 \<Rightarrow> world_packet \<Rightarrow> world_packet bb_result" where
  "MakePlayerAlreadyMember c guid data =
     rbind (MakeNotifyPacket c CHAT_PLAYER_ALREADY_MEMBER_NOTICE data) (wp_put (append_word guid))"

definition MakeInvite :: "channel \<Rightarrow> u64 \<Rightarrow> world_packet \<Rightarrow> world_packet bb_result" where
  "MakeInvite c guid data =
     rbind (MakeNotifyPacket c CHAT_INVITE_NOTICE data) (wp_put (append_word guid))"

definition MakeVoiceOn :: "channel \<Rightarrow> u64 \<Rightarrow> world_packet \<Rightarrow> world_packet bb_result" where
  "MakeVoiceOn c guid data =
     rbind (MakeNotifyPacket c CHAT_VOICE_ON_NOTICE data) (wp_put (append_word guid))"

definition MakeVoiceOff :: "channel \<Rightarrow> u64 \<Rightarrow> world_packet \<Rightarrow> world_packet bb_result" where
  "MakeVoiceOff c guid data =
     rbind (MakeNotifyPacket c CHAT_VOICE_OFF_NOTICE data) (wp_put (append_word guid))"

definition MakePlayerKicked :: "channel \<Rightarrow> u64 \<Rightarrow> u64 \<Rightarrow> world_packet \<Rightarrow> world_packet bb_result" where
  "MakePlayerKicked c bad good data =
     rbind (MakeNotifyPacket c CHAT_PLAYER_KICKED_NOTICE data) (\<lambda>data.
     rbind (wp_put (append_word bad) data) (wp_put (append_word good)))"

definition MakePlayerBanned :: "channel \<Rightarrow> u64 \<Rightarrow> u64 \<Rightarrow> world_packet \<Rightarrow> world_packet bb_result" where
  "MakePlayerBanned c bad good data =
     rbind (MakeNotifyPacket c CHAT_PLAYER_BANNED_NOTICE data) (\<lambda>data.
     rbind (wp_put (append_word bad) data) (wp_put (append_word good)))"

definition MakePlayerUnbanned :: "channel \<Rightarrow> u64 \<Rightarrow> u64 \<Rightarrow> world_packet \<Rightarrow> world_packet bb_result" where
  "MakePlayerUnbanned c bad good data =
     rbind (MakeNotifyPacket c CHAT_PLAYER_UNBANNED_NOTICE data) (\<lambda>data.
     rbind (wp_put (append_word bad) data) (wp_put (append_word good)))"

definition MakePlayerNotFound :: "channel \<Rightarrow> u8 list \<Rightarrow> world_packet \<Rightarrow> world_packet bb_result" where
  "MakePlayerNotFound c name data =
     rbind (MakeNotifyPacket c CHAT_PLAYER_NOT_FOUND_NOTICE data) (wp_put (put_string name))"

definition MakePlayerNotBanned :: "channel \<Rightarrow> u8 list \<Rightarrow> world_packet \<Rightarrow> world_packet bb_result" where
  "MakePlayerNotBanned c name data =
     rbind (MakeNotifyPacket c CHAT_PLAYER_NOT_BANNED_NOTICE data) (wp_put (put_string name))"

definition MakePlayerInvited :: "channel \<Rightarrow> u8 list \<Rightarrow> world_packet \<Rightarrow> world_packet bb_result" where
  "MakePlayerInvited c name data =
     rbind (MakeNotifyPacket c CHAT_PLAYER_INVITED_NOTICE data) (wp_put (put_string name))"

definition MakePlayerInviteBanned :: "channel \<Rightarrow> u8 list \<Rightarrow> world_packet \<Rightarrow> world_packet bb_result" where
  "MakePlayerInviteBanned c name data =
     rbind (MakeNotifyPacket c CHAT_PLAYER_INVITE_BANNED_NOTICE data) (wp_put (put_string name))"

definition MakeYouJoined :: "channel \<Rightarrow> world_packet \<Rightarrow> world_packet bb_result" where
  "MakeYouJoined c data =
     rbind (MakeNotifyPacket c CHAT_YOU_JOINED_NOTICE data) (\<lambda>data.
     rbind (wp_put (append_word (m_flags c)) data) (\<lambda>data.
     rbind (wp_put (append_word (m_channelId c)) data) (wp_put (append_word (0 :: u32)))))"

definition MakeYouLeft :: "channel \<Rightarrow> world_packet \<Rightarrow> world_packet bb_result" where
  "MakeYouLeft c data =
     rbind (MakeNotifyPacket c CHAT_YOU_LEFT_NOTICE data) (\<lambda>data.
     rbind (wp_put (append_word (m_channelId c)) data)
       (wp_put (append_word (of_bool (IsConstant c) :: u8))))"

definition GetPlayerNameByGUID :: "chan_env \<Rightarrow> u64 \<Rightarrow> u8 list option" where
  "GetPlayerNameByGUID env guid =
     (case FindPlayer env guid of Some pl \<Rightarrow> Some (cp_name pl)
      | None \<Rightarrow> character_name env (GUID_LOPART guid))"

text \<open>\<open>PLAYER_NOT_FOUND\<close> and \<open>Nobody\<close> are the texts \<^verbatim>\<open>"PLAYER_NOT_FOUND"\<close> and \<^verbatim>\<open>"Nobody"\<close>.\<close>

definition PLAYER_NOT_FOUND :: "u8 list" where
  "PLAYER_NOT_FOUND = [80, 76, 65, 89, 69, 82, 95, 78, 79, 84, 95, 70, 79, 85, 78, 68]"

definition Nobody :: "u8 list" where
  "Nobody = [78, 111, 98, 111, 100, 121]"

definition MakeChannelOwner :: "chan_env \<Rightarrow> channel \<Rightarrow> world_packet \<Rightarrow> world_packet bb_result" where
  "MakeChannelOwner env c data =
     (let name = (case GetPlayerNameByGUID env (m_ownerGUID c) of None \<Rightarrow> PLAYER_NOT_FOUND
                  | Some n \<Rightarrow> if n = [] then PLAYER_NOT_FOUND else n)
      in rbind (MakeNotifyPacket c CHAT_CHANNEL_OWNER_NOTICE data)
           (wp_put (put_string (if IsConstant c \<or> m_ownerGUID c = 0 then Nobody else name))))"

definition MakeModeChange :: "channel \<Rightarrow> u64 \<Rightarrow> u8 \<Rightarrow> world_packet \<Rightarrow> world_packet bb_result" where
  "MakeModeChange c guid oldflags data =
     rbind (MakeNotifyPacket c CHAT_MODE_CHANGE_NOTICE data) (\<lambda>data.
     rbind (wp_put (append_word guid) data) (\<lambda>data.
     rbind (wp_put (append_word oldflags) data) (wp_put (append_word (GetPlayerFlags guid c)))))"

text \<open>
  The pattern \<^verbatim>\<open>WorldPacket data; MakeX(&data); SendToOne(&data, p)\<close> and the one with
  \<^verbatim>\<open>SendToAll(&data)\<close>.
\<close>

definition tell :: "chan_env \<Rightarrow> u64 \<Rightarrow> (world_packet \<Rightarrow> world_packet bb_result) \<Rightarrow> channel
    \<Rightarrow> channel bb_result" where
  "tell env who mk c = rbind (mk wp_new) (\<lambda>data. Inr (SendToOne env data who c))"

definition tell_all :: "chan_env \<Rightarrow> (world_packet \<Rightarrow> world_packet bb_result) \<Rightarrow> channel
    \<Rightarrow> channel bb_result" where
  "tell_all env mk c = rbind (mk wp_new) (\<lambda>data. Inr (SendToAll env data 0 c))"

end
