(* ===== verification/Channel_Ops.thy ===== *)
theory Channel_Ops
  imports Channel
begin

text \<open>
  The operations of \<^verbatim>\<open>Channel\<close> (\<^verbatim>\<open>src/src/server/game/Chat/Channels/Channel.cpp\<close>), in the order of the
  file, except that \<open>SetOwner\<close> and the two private setters, which the others call, come first.
  The last section lists the public operations as the requests a client can make.
\<close>

section \<open>Creation and the database\<close>

text \<open>\<^verbatim>\<open>"all"\<close>, compared without regard to case.\<close>

definition all_name :: "u8 list" where "all_name = [97, 108, 108]"

definition load_banned :: "u8 list \<Rightarrow> u64 std_set \<Rightarrow> u64 std_set" where
  "load_banned txt bs =
     foldl (\<lambda>bs tok. let banned_guid = (word_of_int (atol tok) :: u64) in
        if banned_guid \<noteq> 0 then ss_insert banned_guid bs else bs) bs (Tokenizer txt 32)"

definition chan_new :: "chan_env \<Rightarrow> u8 list \<Rightarrow> u32 \<Rightarrow> u32 \<Rightarrow> channel" where
  "chan_new env name channel_id team =
     (let c = \<lparr>players = [], banned = [], m_announce = True, m_special = False, m_ownership = True,
               m_name = name, m_password = [], m_flags = 0, m_channelId = channel_id,
               m_ownerGUID = 0, m_IsSaved = False, m_Team = team, chan_out = []\<rparr>
      in case ChatChannels env channel_id of
        Some ch_flags \<Rightarrow>
          let fl = 0 OR CHANNEL_FLAG_GENERAL;
              fl = (if ch_flags AND CHANNEL_DBC_FLAG_TRADE \<noteq> 0 then fl OR CHANNEL_FLAG_TRADE else fl);
              fl = (if ch_flags AND CHANNEL_DBC_FLAG_CITY_ONLY2 \<noteq> 0 then fl OR CHANNEL_FLAG_CITY else fl);
              fl = (if ch_flags AND CHANNEL_DBC_FLAG_LFG \<noteq> 0 then fl OR CHANNEL_FLAG_LFG
                    else fl OR CHANNEL_FLAG_NOT_LFG)
          in c\<lparr>m_announce := False, m_ownership := False, m_flags := fl\<rparr>
      | None \<Rightarrow>
          if \<not> stricmp_ne name all_name then c\<lparr>m_announce := False, m_special := True\<rparr>
          else
            let c = c\<lparr>m_flags := 0 OR CHANNEL_FLAG_CUSTOM\<rparr> in
            if cfg_preserve_custom env then
              let c = (case channels_table env name team of
                    Some row \<Rightarrow>
                      c\<lparr>m_announce := row_announce row, m_ownership := row_ownership row,
                        m_password := row_password row,
                        banned := (case row_bannedList row of None \<Rightarrow> banned c
                                   | Some txt \<Rightarrow> load_banned txt (banned c))\<rparr>
                  | None \<Rightarrow> chan_emit [InsertChannel name team] c)
              in c\<lparr>m_IsSaved := True\<rparr>
            else c)"

definition banlist_text :: "u64 std_set \<Rightarrow> u8 list" where
  "banlist_text bs = concat (map (\<lambda>g. dec_digits (unat g) @ [32]) bs)"

definition UpdateChannelInDB :: "channel \<Rightarrow> channel" where
  "UpdateChannelInDB c =
     (if m_IsSaved c then
        chan_emit [UpdateChannel (m_announce c) (m_ownership c) (m_password c)
                     (banlist_text (banned c)) (m_name c) (m_Team c)] c
      else c)"

definition UpdateChannelUseageInDB :: "channel \<Rightarrow> channel" where
  "UpdateChannelUseageInDB c = chan_emit [UpdateChannelUsage (m_name c) (m_Team c)] c"

definition DAY :: u32 where "DAY = 86400"

text \<open>The age in seconds beyond which \<^verbatim>\<open>CleanOldChannelsInDB\<close> deletes channels, if it does.\<close>

definition CleanOldChannelsInDB :: "chan_env \<Rightarrow> u32 option" where
  "CleanOldChannelsInDB env =
     (if 0 < cfg_preserve_duration env then Some (cfg_preserve_duration env * DAY) else None)"

section \<open>Owner, moderators, muted members\<close>

definition SetOwner :: "chan_env \<Rightarrow> u64 \<Rightarrow> bool \<Rightarrow> channel \<Rightarrow> channel bb_result" where
  "SetOwner env guid exclaim c =
     (let c = (if m_ownerGUID c \<noteq> 0 \<and> IsOn (m_ownerGUID c) c
               then member_upd (m_ownerGUID c) (info_SetOwner False) c else c);
          c = c\<lparr>m_ownerGUID := guid\<rparr>
      in if guid \<noteq> 0 then
           let oldFlag = GetPlayerFlags guid c;
               c = member_upd guid (info_SetModerator True) c;
               c = member_upd guid (info_SetOwner True) c
           in rbind (MakeModeChange c guid oldFlag wp_new) (\<lambda>data.
              let c = SendToAll env data 0 c in
              rbind (if exclaim then rbind (MakeOwnerChanged c guid data) (\<lambda>data.
                       Inr (SendToAll env data 0 c)) else Inr c) (\<lambda>c.
              Inr (UpdateChannelInDB c)))
         else Inr c)"

definition SetModerator :: "chan_env \<Rightarrow> u64 \<Rightarrow> bool \<Rightarrow> channel \<Rightarrow> channel bb_result" where
  "SetModerator env p st c =
     (let c = member_touch p c in
      if IsModerator (member p c) \<noteq> st then
        let oldFlag = GetPlayerFlags p c;
            c = member_upd p (info_SetModerator st) c
        in tell_all env (MakeModeChange c p oldFlag) c
      else Inr c)"

definition SetMute :: "chan_env \<Rightarrow> u64 \<Rightarrow> bool \<Rightarrow> channel \<Rightarrow> channel bb_result" where
  "SetMute env p st c =
     (let c = member_touch p c in
      if IsMuted (member p c) \<noteq> st then
        let oldFlag = GetPlayerFlags p c;
            c = member_upd p (info_SetMuted st) c
        in tell_all env (MakeModeChange c p oldFlag) c
      else Inr c)"

section \<open>Joining and leaving\<close>

definition JoinNotify :: "chan_env \<Rightarrow> u64 \<Rightarrow> channel \<Rightarrow> channel bb_result" where
  "JoinNotify env guid c =
     (let data = wp_opcode (if IsConstant c then SMSG_USERLIST_ADD else SMSG_USERLIST_UPDATE) in
      rbind (wp_put (append_word guid) data) (\<lambda>data.
      rbind (wp_put (append_word (GetPlayerFlags guid c)) data) (\<lambda>data.
      rbind (wp_put (append_word (m_flags c)) data) (\<lambda>data.
      rbind (wp_put (append_word (GetNumPlayers c)) data) (\<lambda>data.
      rbind (wp_put (put_string (m_name c)) data) (\<lambda>data.
      Inr (if IsConstant c then SendToAllButOne env data guid c else SendToAll env data 0 c)))))))"

definition LeaveNotify :: "chan_env \<Rightarrow> u64 \<Rightarrow> channel \<Rightarrow> channel bb_result" where
  "LeaveNotify env guid c =
     (let data = wp_opcode SMSG_USERLIST_REMOVE in
      rbind (wp_put (append_word guid) data) (\<lambda>data.
      rbind (wp_put (append_word (m_flags c)) data) (\<lambda>data.
      rbind (wp_put (append_word (GetNumPlayers c)) data) (\<lambda>data.
      rbind (wp_put (put_string (m_name c)) data) (\<lambda>data.
      Inr (if IsConstant c then SendToAllButOne env data guid c else SendToAll env data 0 c))))))"

text \<open>\<open>silent_gm\<close>: the player is online, a game master, and such players come and go unannounced.\<close>

definition silent_gm :: "chan_env \<Rightarrow> chan_player option \<Rightarrow> bool" where
  "silent_gm env player =
     (case player of None \<Rightarrow> False
      | Some pl \<Rightarrow> IsGMAccount (cp_security pl) \<and> cfg_silent_gm_join env)"

definition join_announce :: "chan_env \<Rightarrow> u64 \<Rightarrow> channel \<Rightarrow> channel bb_result" where
  "join_announce env p c =
     (if m_announce c \<and> \<not> silent_gm env (FindPlayer env p) then tell_all env (MakeJoined c p) c else Inr c)"

definition join_enter :: "chan_env \<Rightarrow> u64 \<Rightarrow> channel \<Rightarrow> channel bb_result" where
  "join_enter env p c =
     (let c = c\<lparr>players := sm_set p \<lparr>pi_player = p, pi_flags = MEMBER_FLAG_NONE\<rparr> (players c)\<rparr> in
      rbind (tell env p (MakeYouJoined c) c) (\<lambda>c.
      rbind (JoinNotify env p c) (\<lambda>c.
      if \<not> IsConstant c then
        let c = (if players c \<noteq> [] then UpdateChannelUseageInDB c else c) in
        if m_ownerGUID c = 0 \<and> m_ownership c then
          rbind (SetOwner env p (1 < length (players c)) c) (\<lambda>c.
          Inr (member_upd p (info_SetModerator True) c))
        else Inr c
      else Inr c)))"

definition chan_Join :: "chan_env \<Rightarrow> u64 \<Rightarrow> u8 list \<Rightarrow> channel \<Rightarrow> channel bb_result" where
  "chan_Join env p pass c =
     (if IsOn p c then
        (if \<not> IsConstant c then tell env p (MakePlayerAlreadyMember c p) c else Inr c)
      else if IsBanned p c then tell env p (MakeBanned c) c
      else if 0 < length (m_password c) \<and> strcmp_ne pass (m_password c)
        then tell env p (MakeWrongPassword c) c
      else
        case FindPlayer env p of
          Some pl \<Rightarrow>
            if chan_HasFlag CHANNEL_FLAG_LFG c \<and> cfg_restricted_lfg env \<and>
               IsPlayerAccount (cp_security pl) \<and> cp_in_group pl
            then tell env p (MakeNotInLfg c) c
            else rbind (join_announce env p (chan_emit [JoinedChannel p] c)) (join_enter env p)
        | None \<Rightarrow> rbind (join_announce env p c) (join_enter env p))"

definition leave_owner :: "chan_env \<Rightarrow> bool \<Rightarrow> channel \<Rightarrow> channel bb_result" where
  "leave_owner env changeowner c =
     (if changeowner \<and> m_ownership c \<and> players c \<noteq> [] then
        let newowner = pi_player (snd (hd (players c)));
            c = member_upd newowner (info_SetModerator True) c
        in SetOwner env newowner True c
      else Inr c)"

definition leave_goodbye :: "chan_env \<Rightarrow> u64 \<Rightarrow> channel \<Rightarrow> channel bb_result" where
  "leave_goodbye env p c =
     rbind (tell env p (MakeYouLeft c) c) (\<lambda>c.
     Inr (if FindPlayer env p \<noteq> None then chan_emit [LeftChannel p] c else c))"

definition leave_announce :: "chan_env \<Rightarrow> u64 \<Rightarrow> channel \<Rightarrow> channel bb_result" where
  "leave_announce env p c =
     (if m_announce c \<and> \<not> silent_gm env (FindPlayer env p) then tell_all env (MakeLeft c p) c else Inr c)"

definition chan_Leave :: "chan_env \<Rightarrow> u64 \<Rightarrow> bool \<Rightarrow> channel \<Rightarrow> channel bb_result" where
  "chan_Leave env p send c =
     (if \<not> IsOn p c then (if send then tell env p (MakeNotMember c) c else Inr c)
      else
        rbind (if send then leave_goodbye env p c else Inr c) (\<lambda>c.
        let changeowner = IsOwner (member p c);
            c = c\<lparr>players := sm_erase p (players c)\<rparr>
        in rbind (leave_announce env p c) (\<lambda>c.
           rbind (LeaveNotify env p c) (\<lambda>c.
           if \<not> IsConstant c then leave_owner env changeowner (UpdateChannelUseageInDB c)
           else Inr c))))"

section \<open>Moderation\<close>

definition sec_of :: "chan_env \<Rightarrow> u64 \<Rightarrow> u32" where
  "sec_of env p = (case FindPlayer env p of None \<Rightarrow> SEC_PLAYER | Some pl \<Rightarrow> cp_security pl)"

definition kick_remove :: "chan_env \<Rightarrow> u64 \<Rightarrow> u64 \<Rightarrow> bool \<Rightarrow> channel \<Rightarrow> channel bb_result" where
  "kick_remove env good bad changeowner c =
     (let c = c\<lparr>players := sm_erase bad (players c)\<rparr>;
          c = chan_emit [LeftChannel bad] c
      in if changeowner \<and> m_ownership c \<and> players c \<noteq> [] then
           let newowner = good;
               c = member_upd newowner (info_SetModerator True) c
           in SetOwner env newowner True c
         else Inr c)"

definition KickOrBan :: "chan_env \<Rightarrow> u64 \<Rightarrow> u8 list \<Rightarrow> bool \<Rightarrow> channel \<Rightarrow> channel bb_result" where
  "KickOrBan env good badname ban c =
     (let sec = sec_of env good in
      if \<not> IsOn good c then tell env good (MakeNotMember c) c
      else if \<not> IsModerator (member good c) \<and> \<not> IsGMAccount sec then tell env good (MakeNotModerator c) c
      else
        case FindPlayerByName env badname of
          None \<Rightarrow> tell env good (MakePlayerNotFound c (c_str badname)) c
        | Some bad \<Rightarrow>
            if \<not> IsOn (cp_guid bad) c then tell env good (MakePlayerNotFound c (c_str badname)) c
            else if \<not> IsGMAccount sec \<and> cp_guid bad = m_ownerGUID c \<and> good \<noteq> m_ownerGUID c
              then tell env good (MakeNotOwner c) c
            else
              let changeowner = (m_ownerGUID c = cp_guid bad);
                  notify = (\<not> (IsGMAccount sec \<and> cfg_silent_gm_join env))
              in if ban \<and> \<not> IsBanned (cp_guid bad) c then
                   let c = c\<lparr>banned := ss_insert (cp_guid bad) (banned c)\<rparr>;
                       c = UpdateChannelInDB c
                   in rbind (if notify then tell_all env (MakePlayerBanned c (cp_guid bad) good) c else Inr c)
                        (kick_remove env good (cp_guid bad) changeowner)
                 else
                   rbind (if notify then tell_all env (MakePlayerKicked c (cp_guid bad) good) c else Inr c)
                     (kick_remove env good (cp_guid bad) changeowner))"

definition UnBan :: "chan_env \<Rightarrow> u64 \<Rightarrow> u8 list \<Rightarrow> channel \<Rightarrow> channel bb_result" where
  "UnBan env good badname c =
     (if \<not> IsOn good c then tell env good (MakeNotMember c) c
      else if \<not> IsModerator (member good c) \<and> \<not> IsGMAccount (sec_of env good)
        then tell env good (MakeNotModerator c) c
      else
        case FindPlayerByName env badname of
          None \<Rightarrow> tell env good (MakePlayerNotFound c (c_str badname)) c
        | Some bad \<Rightarrow>
            if \<not> IsBanned (cp_guid bad) c then tell env good (MakePlayerNotFound c (c_str badname)) c
            else
              let c = c\<lparr>banned := ss_erase (cp_guid bad) (banned c)\<rparr> in
              rbind (tell_all env (MakePlayerUnbanned c (cp_guid bad) good) c) (\<lambda>c.
              Inr (UpdateChannelInDB c)))"

definition chan_Password :: "chan_env \<Rightarrow> u64 \<Rightarrow> u8 list \<Rightarrow> channel \<Rightarrow> channel bb_result" where
  "chan_Password env p pass c =
     (if \<not> IsOn p c then tell env p (MakeNotMember c) c
      else if \<not> IsModerator (member p c) \<and> \<not> IsGMAccount (sec_of env p)
        then tell env p (MakeNotModerator c) c
      else
        let c = c\<lparr>m_password := c_str pass\<rparr> in
        rbind (tell_all env (MakePasswordChanged c p) c) (\<lambda>c.
        Inr (UpdateChannelInDB c)))"

definition SetMode :: "chan_env \<Rightarrow> u64 \<Rightarrow> u8 list \<Rightarrow> bool \<Rightarrow> bool \<Rightarrow> channel \<Rightarrow> channel bb_result" where
  "SetMode env p p2n md st c =
     (case FindPlayer env p of None \<Rightarrow> Inr c
      | Some player \<Rightarrow>
          if \<not> IsOn p c then tell env p (MakeNotMember c) c
          else if \<not> IsModerator (member p c) \<and> \<not> IsGMAccount (cp_security player)
            then tell env p (MakeNotModerator c) c
          else
            case FindPlayerByName env p2n of
              None \<Rightarrow> tell env p (MakePlayerNotFound c (c_str p2n)) c
            | Some newp \<Rightarrow>
                if p = m_ownerGUID c \<and> cp_guid newp = m_ownerGUID c \<and> md then Inr c
                else if \<not> IsOn (cp_guid newp) c then tell env p (MakePlayerNotFound c (c_str p2n)) c
                else if (\<not> IsGMAccount (cp_security player) \<or> \<not> IsGMAccount (cp_security newp)) \<and>
                        cp_team player \<noteq> cp_team newp \<and> \<not> cfg_two_side_channel env
                  then tell env p (MakePlayerNotFound c (c_str p2n)) c
                else if m_ownerGUID c = cp_guid newp \<and> m_ownerGUID c \<noteq> p
                  then tell env p (MakeNotOwner c) c
                else if md then SetModerator env (cp_guid newp) st c
                else SetMute env (cp_guid newp) st c)"

definition SetOwner_name :: "chan_env \<Rightarrow> u64 \<Rightarrow> u8 list \<Rightarrow> channel \<Rightarrow> channel bb_result" where
  "SetOwner_name env p newname c =
     (case FindPlayer env p of None \<Rightarrow> Inr c
      | Some player \<Rightarrow>
          if \<not> IsOn p c then tell env p (MakeNotMember c) c
          else if \<not> IsGMAccount (cp_security player) \<and> p \<noteq> m_ownerGUID c
            then tell env p (MakeNotOwner c) c
          else
            case FindPlayerByName env newname of
              None \<Rightarrow> tell env p (MakePlayerNotFound c (c_str newname)) c
            | Some newp \<Rightarrow>
                if \<not> IsOn (cp_guid newp) c then tell env p (MakePlayerNotFound c (c_str newname)) c
                else if cp_team newp \<noteq> cp_team player \<and> \<not> cfg_two_side_channel env
                  then tell env p (MakePlayerNotFound c (c_str newname)) c
                else SetOwner env (cp_guid newp) True
                       (member_upd (cp_guid newp) (info_SetModerator True) c))"

section \<open>Questions and speech\<close>

definition SendWhoOwner :: "chan_env \<Rightarrow> u64 \<Rightarrow> channel \<Rightarrow> channel bb_result" where
  "SendWhoOwner env p c =
     (if \<not> IsOn p c then tell env p (MakeNotMember c) c else tell env p (MakeChannelOwner env c) c)"

text \<open>The members \<^verbatim>\<open>List\<close> shows to \<open>player\<close>.\<close>

definition list_shows :: "chan_env \<Rightarrow> chan_player \<Rightarrow> u64 \<Rightarrow> bool" where
  "list_shows env player m =
     (case FindPlayer env m of None \<Rightarrow> False
      | Some pl \<Rightarrow>
          (\<not> IsPlayerAccount (cp_security player) \<or> cp_security pl \<le> cfg_gm_level_in_who env) \<and>
          cp_visible_for pl (cp_guid player))"

fun list_loop :: "chan_env \<Rightarrow> chan_player \<Rightarrow> (u64 \<times> PlayerInfo) list \<Rightarrow> u32 \<Rightarrow> world_packet
    \<Rightarrow> (u32 \<times> world_packet) bb_result" where
  "list_loop env player [] cnt data = Inr (cnt, data)"
| "list_loop env player ((m, i) # ms) cnt data =
     (if list_shows env player m then
        rbind (wp_put (append_word m) data) (\<lambda>data.
        rbind (wp_put (append_word (pi_flags i)) data) (\<lambda>data.
        list_loop env player ms (cnt + 1) data))
      else list_loop env player ms cnt data)"

definition chan_List :: "chan_env \<Rightarrow> chan_player \<Rightarrow> channel \<Rightarrow> channel bb_result" where
  "chan_List env player c =
     (let p = cp_guid player in
      if \<not> IsOn p c then tell env p (MakeNotMember c) c
      else
        rbind (wp_put (append_word (1 :: u8)) (wp_opcode SMSG_CHANNEL_LIST)) (\<lambda>data.
        rbind (wp_put (put_string (m_name c)) data) (\<lambda>data.
        rbind (wp_put (append_word (m_flags c)) data) (\<lambda>data.
        let pos = wpos (wp_buf data) in
        rbind (wp_put (append_word (0 :: u32)) data) (\<lambda>data.
        rbind (list_loop env player (players c) 0 data) (\<lambda>(cnt, data).
        rbind (wp_put (put_word_at pos cnt) data) (\<lambda>data.
        Inr (SendToOne env data p c))))))))"

definition chan_Announce :: "chan_env \<Rightarrow> u64 \<Rightarrow> channel \<Rightarrow> channel bb_result" where
  "chan_Announce env p c =
     (if \<not> IsOn p c then tell env p (MakeNotMember c) c
      else if \<not> IsModerator (member p c) \<and> \<not> IsGMAccount (sec_of env p)
        then tell env p (MakeNotModerator c) c
      else
        let c = c\<lparr>m_announce := \<not> m_announce c\<rparr> in
        rbind (tell_all env (if m_announce c then MakeAnnouncementsOn c p else MakeAnnouncementsOff c p) c) (\<lambda>c.
        Inr (UpdateChannelInDB c)))"

definition Say :: "chan_env \<Rightarrow> u64 \<Rightarrow> u8 list option \<Rightarrow> u32 \<Rightarrow> channel \<Rightarrow> channel bb_result" where
  "Say env p what lang c =
     (case what of None \<Rightarrow> Inr c
      | Some msg \<Rightarrow>
          let lang = (if cfg_two_side_channel env then LANG_UNIVERSAL else lang) in
          if \<not> IsOn p c then tell env p (MakeNotMember c) c
          else if IsMuted (member p c) then tell env p (MakeMuted c) c
          else
            let messageLength = (of_nat (length (c_str msg)) + 1 :: u32);
                data = wp_opcode SMSG_MESSAGECHAT
            in
            rbind (wp_put (append_word CHAT_MSG_CHANNEL) data) (\<lambda>data.
            rbind (wp_put (append_word lang) data) (\<lambda>data.
            rbind (wp_put (append_word p) data) (\<lambda>data.
            rbind (wp_put (append_word (0 :: u32)) data) (\<lambda>data.
            rbind (wp_put (put_string (m_name c)) data) (\<lambda>data.
            rbind (wp_put (append_word p) data) (\<lambda>data.
            rbind (wp_put (append_word messageLength) data) (\<lambda>data.
            rbind (wp_put (put_cstring (Some msg)) data) (\<lambda>data.
            rbind (wp_put (append_word (case FindPlayer env p of None \<Rightarrow> 0 | Some pl \<Rightarrow> cp_chat_tag pl)) data) (\<lambda>data.
            Inr (SendToAll env data (if \<not> IsModerator (member p c) then p else 0) c)))))))))))"

definition chan_Invite :: "chan_env \<Rightarrow> u64 \<Rightarrow> u8 list \<Rightarrow> channel \<Rightarrow> channel bb_result" where
  "chan_Invite env p newname c =
     (if \<not> IsOn p c then tell env p (MakeNotMember c) c
      else
        case FindPlayerByName env newname of
          None \<Rightarrow> tell env p (MakePlayerNotFound c (c_str newname)) c
        | Some newp \<Rightarrow>
            if \<not> cp_gm_visible newp then tell env p (MakePlayerNotFound c (c_str newname)) c
            else if IsBanned (cp_guid newp) c then tell env p (MakePlayerInviteBanned c (c_str newname)) c
            else
              case FindPlayer env p of None \<Rightarrow> Inr c
              | Some player \<Rightarrow>
                  if cp_team newp \<noteq> cp_team player \<and> \<not> cfg_two_side_channel env
                    then tell env p (MakeInviteWrongFaction c) c
                  else if IsOn (cp_guid newp) c
                    then tell env p (MakePlayerAlreadyMember c (cp_guid newp)) c
                  else
                    rbind (if \<not> cp_has_ignore newp (GUID_LOPART p)
                           then tell env (cp_guid newp) (MakeInvite c p) c else Inr c) (\<lambda>c.
                    tell env p (MakePlayerInvited c (cp_name newp)) c))"

definition chan_Voice :: "u64 \<Rightarrow> u64 \<Rightarrow> channel \<Rightarrow> channel" where
  "chan_Voice guid1 guid2 c = c"

definition chan_DeVoice :: "u64 \<Rightarrow> u64 \<Rightarrow> channel \<Rightarrow> channel" where
  "chan_DeVoice guid1 guid2 c = c"

section \<open>Requests\<close>

text \<open>
  The public operations that clients reach: \<^verbatim>\<open>Kick\<close> and \<^verbatim>\<open>Ban\<close>, the four that set or clear a mode,
  and the rest as they are.
\<close>

datatype chan_request =
    ReqJoin u64 "u8 list"
  | ReqLeave u64 bool
  | ReqKick u64 "u8 list"
  | ReqBan u64 "u8 list"
  | ReqUnBan u64 "u8 list"
  | ReqPassword u64 "u8 list"
  | ReqSetModerator u64 "u8 list"
  | ReqUnsetModerator u64 "u8 list"
  | ReqSetMute u64 "u8 list"
  | ReqUnsetMute u64 "u8 list"
  | ReqSetOwner u64 "u8 list"
  | ReqWhoOwner u64
  | ReqList chan_player
  | ReqAnnounce u64
  | ReqSay u64 "u8 list option" u32
  | ReqInvite u64 "u8 list"

fun chan_do :: "chan_env \<Rightarrow> chan_request \<Rightarrow> channel \<Rightarrow> channel bb_result" where
  "chan_do env (ReqJoin p pass) c = chan_Join env p pass c"
| "chan_do env (ReqLeave p send) c = chan_Leave env p send c"
| "chan_do env (ReqKick good bad) c = KickOrBan env good bad False c"
| "chan_do env (ReqBan good bad) c = KickOrBan env good bad True c"
| "chan_do env (ReqUnBan good bad) c = UnBan env good bad c"
| "chan_do env (ReqPassword p pass) c = chan_Password env p pass c"
| "chan_do env (ReqSetModerator p n) c = SetMode env p n True True c"
| "chan_do env (ReqUnsetModerator p n) c = SetMode env p n True False c"
| "chan_do env (ReqSetMute p n) c = SetMode env p n False True c"
| "chan_do env (ReqUnsetMute p n) c = SetMode env p n False False c"
| "chan_do env (ReqSetOwner p n) c = SetOwner_name env p n c"
| "chan_do env (ReqWhoOwner p) c = SendWhoOwner env p c"
| "chan_do env (ReqList player) c = chan_List env player c"
| "chan_do env (ReqAnnounce p) c = chan_Announce env p c"
| "chan_do env (ReqSay p what lang) c = Say env p what lang c"
| "chan_do env (ReqInvite p n) c = chan_Invite env p n c"

end
