(* ===== verification/ByteBuffer_Bits.thy ===== *)
theory ByteBuffer_Bits
  imports ByteBuffer
begin

text \<open>
  The bit-level half of \<^verbatim>\<open>ByteBuffer.h\<close>: single bits, bit fields written and read a byte at a
  time, and the byte masks and sequences of packed GUIDs. A buffer that is written from its
  end holds the list of bits \<open>written\<close>, a buffer that is read has the bits \<open>unread_bits\<close>
  left; the lemmas say that the byte-wise loops append to the one and take from the other
  exactly the bits of their argument, most significant first.
\<close>

section \<open>Operations\<close>

text \<open>
  The start of every writing loop: where the last byte is full, a zero byte is appended
  (which resets \<open>bitpos\<close>) and \<open>bitpos\<close> becomes 0.
\<close>

definition fresh_write :: "byte_buffer \<Rightarrow> byte_buffer bb_result" where
  "fresh_write b =
     (if bitpos b = 8 then rbind (append_word (0 :: u8) b) (\<lambda>b. Inr (b\<lparr>bitpos := 0\<rparr>)) else Inr b)"

text \<open>\<^verbatim>\<open>_storage[_wpos-1] |= x\<close>\<close>

definition storage_or :: "u8 \<Rightarrow> byte_buffer \<Rightarrow> byte_buffer bb_result" where
  "storage_or x b =
     (if 0 < wpos b \<and> wpos b \<le> bb_size b
      then Inr (b\<lparr>storage := (storage b)[wpos b - 1 := (storage b ! (wpos b - 1)) OR x]\<rparr>)
      else Inl OutOfRange)"

definition WriteBit :: "bool \<Rightarrow> byte_buffer \<Rightarrow> byte_buffer bb_result" where
  "WriteBit x b =
     rbind (fresh_write b) (\<lambda>b.
       let b = b\<lparr>bitpos := bitpos b + 1\<rparr> in
       if \<not> x then Inr b
       else if 8 < bitpos b then Inl OutOfRange
       else storage_or (push_bit (8 - bitpos b) 1) b)"

function WriteBits_loop :: "u32 \<Rightarrow> nat \<Rightarrow> byte_buffer \<Rightarrow> byte_buffer bb_result" where
  "WriteBits_loop value bits b =
     (if bits = 0 then Inr b
      else rbind (fresh_write b) (\<lambda>b.
        if 8 \<le> bitpos b then Inl OutOfRange
        else
          let writtenThisCycle = min (8 - bitpos b) bits;
              bits' = bits - writtenThisCycle;
              b = b\<lparr>bitpos := bitpos b + writtenThisCycle\<rparr>
          in if 32 \<le> bits' then Inl OutOfRange
             else rbind (storage_or (ucast (push_bit (8 - bitpos b)
                                              (drop_bit bits' value AND mask writtenThisCycle))) b)
                    (WriteBits_loop value bits')))"
  by pat_completeness auto
termination
  by (relation "measure (\<lambda>(value, bits, b). bits)") auto

declare WriteBits_loop.simps [simp del]

definition WriteBits :: "u32 \<Rightarrow> int \<Rightarrow> byte_buffer \<Rightarrow> byte_buffer bb_result" where
  "WriteBits value bits b = WriteBits_loop value (nat bits) b"

definition WriteUnaligned :: "nat \<Rightarrow> u32 \<Rightarrow> byte_buffer \<Rightarrow> byte_buffer bb_result" where
  "WriteUnaligned BITS value b =
     (if \<not> BITS \<le> 32 then Inl AssertionFailed else WriteBits_loop value BITS b)"

text \<open>\<^verbatim>\<open>WriteBitsAt\<close> patches bits at a position given by the caller and moves no cursor.\<close>

function WriteBitsAt_loop :: "u32 \<Rightarrow> nat \<Rightarrow> nat \<Rightarrow> nat \<Rightarrow> u8 list \<Rightarrow> u8 list bb_result" where
  "WriteBitsAt_loop value bits pos bp st =
     (if bits = 0 then Inr st
      else
        let pos = (if bp = 8 then Suc pos else pos);
            bp = (if bp = 8 then 0 else bp) in
        if 8 \<le> bp then Inl OutOfRange
        else
          let writtenThisCycle = min (8 - bp) bits;
              bits' = bits - writtenThisCycle;
              bp = bp + writtenThisCycle
          in if 32 \<le> bits' \<or> pos = 0 \<or> length st < pos then Inl OutOfRange
             else WriteBitsAt_loop value bits' pos bp
                    (st[pos - 1 := (st ! (pos - 1)) OR
                        ucast (push_bit (8 - bp) (drop_bit bits' value AND mask writtenThisCycle))]))"
  by pat_completeness auto
termination
  by (relation "measure (\<lambda>(value, bits, pos, bp, st). bits)") (auto split: if_splits)

declare WriteBitsAt_loop.simps [simp del]

definition WriteBitsAt :: "u32 \<Rightarrow> int \<Rightarrow> nat \<Rightarrow> nat \<Rightarrow> byte_buffer \<Rightarrow> byte_buffer bb_result" where
  "WriteBitsAt value bits pos bp b =
     rbind (WriteBitsAt_loop value (nat bits) pos bp (storage b)) (\<lambda>st. Inr (b\<lparr>storage := st\<rparr>))"

definition fresh_read :: "byte_buffer \<Rightarrow> byte_buffer bb_result" where
  "fresh_read b =
     (if bitpos b = 8 then rbind (read_skip 1 b) (\<lambda>b. Inr (b\<lparr>bitpos := 0\<rparr>)) else Inr b)"

text \<open>\<^verbatim>\<open>_storage[_rpos-1]\<close>\<close>

definition storage_last :: "byte_buffer \<Rightarrow> u8 bb_result" where
  "storage_last b =
     (if 0 < rpos b \<and> rpos b \<le> bb_size b then Inr (storage b ! (rpos b - 1)) else Inl OutOfRange)"

definition ReadBit :: "byte_buffer \<Rightarrow> (bool \<times> byte_buffer) bb_result" where
  "ReadBit b =
     rbind (fresh_read b) (\<lambda>b.
       let b = b\<lparr>bitpos := bitpos b + 1\<rparr> in
       if 8 < bitpos b then Inl OutOfRange
       else rbind (storage_last b) (\<lambda>x. Inr (drop_bit (8 - bitpos b) x AND 1 \<noteq> 0, b)))"

function ReadBits_loop :: "u32 \<Rightarrow> nat \<Rightarrow> byte_buffer \<Rightarrow> (u32 \<times> byte_buffer) bb_result" where
  "ReadBits_loop value bits b =
     (if bits = 0 then Inr (value, b)
      else rbind (fresh_read b) (\<lambda>b.
        if 8 \<le> bitpos b then Inl OutOfRange
        else
          let readThisCycle = min (8 - bitpos b) bits;
              bits' = bits - readThisCycle;
              b = b\<lparr>bitpos := bitpos b + readThisCycle\<rparr>
          in rbind (storage_last b) (\<lambda>x.
               ReadBits_loop
                 (value OR push_bit bits' (ucast (drop_bit (8 - bitpos b) x AND mask readThisCycle)))
                 bits' b)))"
  by pat_completeness auto
termination
  by (relation "measure (\<lambda>(value, bits, b). bits)") auto

declare ReadBits_loop.simps [simp del]

definition ReadBits :: "int \<Rightarrow> byte_buffer \<Rightarrow> (u32 \<times> byte_buffer) bb_result" where
  "ReadBits bits b =
     (if bits < 0 \<or> 32 < bits
      then Inl (ByteBufferException False (rpos b) (nat (bits mod 2 ^ 64)) 32)
      else ReadBits_loop 0 (nat bits) b)"

definition ReadUnaligned :: "nat \<Rightarrow> byte_buffer \<Rightarrow> (u32 \<times> byte_buffer) bb_result" where
  "ReadUnaligned BITS b =
     (if \<not> BITS \<le> 32 then Inl AssertionFailed else ReadBits_loop 0 BITS b)"

definition ReadByteMask :: "byte_buffer \<Rightarrow> (u8 \<times> byte_buffer) bb_result" where
  "ReadByteMask b = rbind (ReadBit b) (\<lambda>(x, b). Inr (if x then 1 else 0, b))"

definition ReadByteSeq :: "u8 \<Rightarrow> byte_buffer \<Rightarrow> (u8 \<times> byte_buffer) bb_result" where
  "ReadByteSeq x b =
     (let b = ResetBits b in
      if x \<noteq> 0 then
        if x \<noteq> 1 then Inl AssertionFailed
        else rbind (read_word b) (\<lambda>(y, b). Inr (x XOR y, b))
      else Inr (x, b))"

definition WriteByteMask :: "u8 \<Rightarrow> byte_buffer \<Rightarrow> byte_buffer bb_result" where
  "WriteByteMask x b = WriteBit (x \<noteq> 0) b"

definition WriteByteSeq :: "u8 \<Rightarrow> byte_buffer \<Rightarrow> byte_buffer bb_result" where
  "WriteByteSeq x b = (if x \<noteq> 0 then append_word (x XOR 1) b else Inr b)"

section \<open>The bits of a byte list\<close>

definition stream :: "u8 list \<Rightarrow> bool list" where
  "stream xs = concat (map (bits_be 8) xs)"

lemma stream_Nil [simp]: "stream [] = []"
  and stream_Cons [simp]: "stream (x # xs) = bits_be 8 x @ stream xs"
  and stream_append [simp]: "stream (xs @ ys) = stream xs @ stream ys"
  by (simp_all add: stream_def)

lemma length_stream [simp]: "length (stream xs) = 8 * length xs"
  by (induction xs) simp_all

lemma word_of_bits_byte: "word_of_bits (bits_be 8 x) = (x :: u8)"
  unfolding word_of_bits_be by (rule take_bit_word_eq_self) simp

lemma bits_be_8_inj: "bits_be 8 (x :: u8) = bits_be 8 y \<Longrightarrow> x = y"
  by (metis word_of_bits_byte)

lemma stream_inj: "stream xs = stream ys \<Longrightarrow> xs = ys"
proof (induction xs arbitrary: ys)
  case Nil
  then show ?case by (cases ys) (simp_all add: bits_be_def)
next
  case (Cons x xs)
  then have "length (stream (x # xs)) = length (stream ys)" by simp
  then obtain y ys' where ys: "ys = y # ys'" by (cases ys) simp_all
  with Cons.prems have "bits_be 8 x = bits_be 8 y \<and> stream xs = stream ys'" by simp
  with ys show ?case by (auto dest: bits_be_8_inj Cons.IH)
qed

section \<open>Writing bits\<close>

text \<open>
  \<open>wr_inv\<close>: the write cursor is at the end, and while a byte is being filled its bits below
  the ones already written are zero, so that or-ing new bits into it is writing them.
\<close>

definition wr_inv :: "byte_buffer \<Rightarrow> bool" where
  "wr_inv b \<longleftrightarrow> wpos b = bb_size b \<and> 1 \<le> bitpos b \<and> bitpos b \<le> 8
     \<and> (bitpos b < 8 \<longrightarrow> 0 < wpos b \<and> (\<forall>i < 8 - bitpos b. \<not> bit (last (storage b)) i))"

definition written :: "byte_buffer \<Rightarrow> bool list" where
  "written b = take (8 * bb_size b - (8 - bitpos b)) (stream (storage b))"

lemma length_written: "wr_inv b \<Longrightarrow> length (written b) = 8 * bb_size b - (8 - bitpos b)"
  by (simp add: written_def)

lemma written_snoc:
  assumes "storage b = xs @ [x]" and "bitpos b \<le> 8"
  shows "written b = stream xs @ take (bitpos b) (bits_be 8 x)"
proof -
  have "8 * bb_size b - (8 - bitpos b) = length (stream xs) + bitpos b"
    using assms by simp
  then show ?thesis by (simp add: written_def assms)
qed

lemma wr_inv_emit: "wr_ok n b \<Longrightarrow> wr_inv (emit bs b)"
  by (simp add: wr_inv_def wr_ok_def)

lemma written_emit:
  assumes "wr_inv b" and "bitpos b = 8"
  shows "written (emit bs b) = written b @ stream bs"
  using assms by (simp add: written_def wr_inv_def)

lemma wr_inv_empty: "wr_inv bb_empty" and written_empty: "written bb_empty = []"
  by (simp_all add: wr_inv_def written_def bb_empty_def)

text \<open>The bits written and the read cursor determine the buffer.\<close>

lemma wr_inv_determined:
  assumes "wr_inv b" and "wr_inv b'" and w: "written b = written b'" and "rpos b = rpos b'"
  shows "b = b'"
proof -
  let ?n = "8 * bb_size b - (8 - bitpos b)" and ?n' = "8 * bb_size b' - (8 - bitpos b')"
  have n: "?n = ?n'" using w length_written assms(1,2) by metis
  have R: "1 \<le> bitpos c \<and> bitpos c \<le> 8 \<and> (bitpos c < 8 \<longrightarrow> 0 < bb_size c)" if "wr_inv c" for c
    using that by (auto simp: wr_inv_def)
  have sz: "bb_size b = bb_size b'" and bp: "bitpos b = bitpos b'"
  proof -
    have total: "8 * bb_size c - (8 - bitpos c) + 8 = 8 * bb_size c + bitpos c" if "wr_inv c" for c
    proof (cases "bb_size c = 0")
      case False
      then have "8 \<le> 8 * bb_size c" by (cases "bb_size c") simp_all
      with R [OF that] show ?thesis by linarith
    qed (use R [OF that] in auto)
    have eq: "8 * bb_size b + bitpos b = 8 * bb_size b' + bitpos b'"
      using n total [OF assms(1)] total [OF assms(2)] by linarith
    then show "bb_size b = bb_size b'" using R [OF assms(1)] R [OF assms(2)] by linarith
    with eq show "bitpos b = bitpos b'" by simp
  qed
  have zero: "stream (storage c) ! i = False"
    if "wr_inv c" "8 * bb_size c - (8 - bitpos c) \<le> i" "i < 8 * bb_size c" for c i
  proof -
    from that have lt: "bitpos c < 8" and ne: "storage c \<noteq> []" by (auto simp: wr_inv_def)
    then obtain xs x where st: "storage c = xs @ [x]" by (metis rev_exhaust)
    from that st have ge: "8 * length xs \<le> i" "i - 8 * length xs < 8" "bitpos c \<le> i - 8 * length xs"
      by (auto simp: wr_inv_def)
    have "\<forall>k < 8 - bitpos c. \<not> bit x k" using that(1) lt st by (simp add: wr_inv_def)
    with ge lt have "\<not> bit x (7 - (i - 8 * length xs))" by auto
    with ge st show ?thesis by (simp add: nth_append)
  qed
  have "stream (storage b) = stream (storage b')"
  proof (rule nth_equalityI)
    show "length (stream (storage b)) = length (stream (storage b'))" by (simp add: sz)
  next
    fix i assume i: "i < length (stream (storage b))"
    show "stream (storage b) ! i = stream (storage b') ! i"
    proof (cases "i < ?n")
      case True
      then have "take ?n (stream (storage b)) ! i = stream (storage b) ! i"
        and "take ?n (stream (storage b')) ! i = stream (storage b') ! i" by simp_all
      with w n show ?thesis by (simp add: written_def)
    next
      case False
      with i n sz zero [OF assms(1), of i] zero [OF assms(2), of i] show ?thesis by simp
    qed
  qed
  then have st: "storage b = storage b'" by (rule stream_inj)
  have "wpos b = wpos b'" using assms(1,2) st by (simp add: wr_inv_def)
  with st bp assms(4) show ?thesis by (cases b, cases b') simp
qed

text \<open>One round of a writing loop, on the byte being filled.\<close>

lemma or_chunk_bits:
  fixes x :: u8 and w :: u32
  assumes low: "\<forall>i < 8 - p. \<not> bit x i" and pn: "p + n \<le> 8"
  defines "y \<equiv> x OR ucast (push_bit (8 - (p + n)) (w AND mask n))"
  shows "take (p + n) (bits_be 8 y) = take p (bits_be 8 x) @ bits_be n w"
    and "\<forall>i < 8 - (p + n). \<not> bit y i"
proof -
  have bit_y: "bit y k \<longleftrightarrow> k < 8 \<and>
      (bit x k \<or> 8 - (p + n) \<le> k \<and> k - (8 - (p + n)) < n \<and> bit w (k - (8 - (p + n))))" for k
    unfolding y_def bit_or_iff bit_ucast_iff bit_push_bit_iff bit_and_iff bit_mask_iff
    using pn by (auto dest: bit_imp_le_length)
  show "\<forall>i < 8 - (p + n). \<not> bit y i" using low by (auto simp: bit_y)
  show "take (p + n) (bits_be 8 y) = take p (bits_be 8 x) @ bits_be n w"
  proof (rule nth_equalityI)
    fix i assume "i < length (take (p + n) (bits_be 8 y))"
    then have i: "i < p + n" "i < 8" by simp_all
    have l: "7 - i < (8 :: nat)" by linarith
    show "take (p + n) (bits_be 8 y) ! i = (take p (bits_be 8 x) @ bits_be n w) ! i"
    proof (cases "i < p")
      case True
      then have "\<not> 7 - i - (8 - (p + n)) < n" using pn by simp
      with True i l show ?thesis by (simp add: nth_append bit_y)
    next
      case False
      then have "\<not> bit x (7 - i)" and "7 - i - (8 - (p + n)) = n - 1 - (i - p)"
        and "8 - (p + n) \<le> 7 - i" and "n - 1 - (i - p) < n"
        using low i pn by auto
      with False i pn l show ?thesis by (simp add: nth_append bit_y)
    qed
  qed (use pn in simp)
qed

text \<open>The state after \<open>fresh_write\<close>: a last byte with room, \<open>bitpos\<close> below 8.\<close>

definition wr_open :: "byte_buffer \<Rightarrow> bool" where
  "wr_open b \<longleftrightarrow> wpos b = bb_size b \<and> 0 < bb_size b \<and> bitpos b < 8
     \<and> (\<forall>i < 8 - bitpos b. \<not> bit (last (storage b)) i)"

lemma fresh_write_open:
  assumes "wr_inv b" and "length (written b) < 80000000"
  shows "\<exists>b'. fresh_write b = Inr b' \<and> wr_open b' \<and> written b' = written b \<and> rpos b' = rpos b"
proof (cases "bitpos b = 8")
  case True
  with assms have sz: "wr_ok 1 b" by (auto simp: length_written wr_ok_def wr_inv_def)
  then have f: "fresh_write b = Inr ((emit [0] b)\<lparr>bitpos := 0\<rparr>)"
    using True by (simp add: fresh_write_def append_word_emit)
  moreover have "written ((emit [0] b)\<lparr>bitpos := 0\<rparr>) = written b"
    using True by (simp add: written_def)
  ultimately show ?thesis using sz by (simp add: wr_open_def wr_ok_def)
next
  case False
  with assms(1) show ?thesis by (auto simp: fresh_write_def wr_open_def wr_inv_def)
qed

lemma storage_or_chunk:
  assumes "wr_open b" and "0 < n" and "bitpos b + n \<le> 8"
  shows "\<exists>b'. storage_or (ucast (push_bit (8 - (bitpos b + n)) (w AND mask n))) (b\<lparr>bitpos := bitpos b + n\<rparr>)
      = Inr b' \<and> wr_inv b' \<and> written b' = written b @ bits_be n (w :: u32) \<and> rpos b' = rpos b"
proof -
  let ?c = "ucast (push_bit (8 - (bitpos b + n)) (w AND mask n)) :: u8"
  from assms(1) obtain xs x where st: "storage b = xs @ [x]" and w: "wpos b = bb_size b"
    and low: "\<forall>i < 8 - bitpos b. \<not> bit x i"
    by (cases "storage b" rule: rev_cases) (auto simp: wr_open_def)
  let ?b' = "b\<lparr>bitpos := bitpos b + n, storage := xs @ [x OR ?c]\<rparr>"
  note ch = or_chunk_bits [OF low assms(3), of w]
  have "storage_or ?c (b\<lparr>bitpos := bitpos b + n\<rparr>) = Inr ?b'"
    using st w by (simp add: storage_or_def)
  moreover have "wr_inv ?b'"
    using ch(2) assms(2,3) w st by (simp add: wr_inv_def)
  moreover have "written ?b' = written b @ bits_be n w"
    using written_snoc [OF st] written_snoc [of ?b' xs "x OR ?c"] ch(1) assms(3) by simp
  ultimately show ?thesis by auto
qed

lemma WriteBits_loop_step:
  assumes "bits \<noteq> 0" and "fresh_write b = Inr b1" and "bitpos b1 < 8"
    and "n = min (8 - bitpos b1) bits" and "bits' = bits - n" and "bits' < 32"
    and "storage_or (ucast (push_bit (8 - (bitpos b1 + n)) (drop_bit bits' v AND mask n)))
        (b1\<lparr>bitpos := bitpos b1 + n\<rparr>) = Inr b2"
  shows "WriteBits_loop v bits b = WriteBits_loop v bits' b2"
  using assms by (subst WriteBits_loop.simps) (simp add: Let_def)

lemma WriteBits_loop_written:
  assumes "wr_inv b" and "length (written b) + bits \<le> 80000000" and "bits \<le> 32"
  shows "\<exists>b'. WriteBits_loop v bits b = Inr b' \<and> wr_inv b'
      \<and> written b' = written b @ bits_be bits v \<and> rpos b' = rpos b"
  using assms
proof (induction bits arbitrary: b rule: less_induct)
  case (less bits)
  show ?case
  proof (cases "bits = 0")
    case True
    with less.prems show ?thesis by (simp add: WriteBits_loop.simps)
  next
    case False
    with less.prems obtain b1 where f: "fresh_write b = Inr b1" and o: "wr_open b1"
      and w1: "written b1 = written b" "rpos b1 = rpos b"
      using fresh_write_open [of b] by auto
    define n where "n = min (8 - bitpos b1) bits"
    define bits' where "bits' = bits - n"
    have n: "0 < n" "bitpos b1 + n \<le> 8" "bits' < bits" "bits = n + bits'" "bitpos b1 < 8"
      using o False by (auto simp: n_def bits'_def wr_open_def)
    obtain b2 where so: "storage_or (ucast (push_bit (8 - (bitpos b1 + n)) (drop_bit bits' v AND mask n)))
        (b1\<lparr>bitpos := bitpos b1 + n\<rparr>) = Inr b2" and i2: "wr_inv b2"
      and w2: "written b2 = written b1 @ bits_be n (drop_bit bits' v)" "rpos b2 = rpos b1"
      using storage_or_chunk [OF o n(1,2)] by blast
    have "WriteBits_loop v bits b = WriteBits_loop v bits' b2"
      using n less.prems(3) by (intro WriteBits_loop_step [OF False f n(5) n_def bits'_def _ so]) simp
    moreover have "length (written b2) + bits' \<le> 80000000" "bits' \<le> 32"
      using w1 w2 n less.prems by simp_all
    with less.IH [OF n(3) i2] obtain b' where "WriteBits_loop v bits' b2 = Inr b'" "wr_inv b'"
      "written b' = written b2 @ bits_be bits' v" "rpos b' = rpos b2"
      by blast
    ultimately show ?thesis
      using w1 w2 n(4) bits_be_split [of n bits' v] by simp
  qed
qed

lemma WriteBit_written:
  assumes "wr_inv b" and "length (written b) < 80000000"
  shows "\<exists>b'. WriteBit x b = Inr b' \<and> wr_inv b' \<and> written b' = written b @ [x] \<and> rpos b' = rpos b"
proof -
  obtain b1 where f: "fresh_write b = Inr b1" and o: "wr_open b1"
    and w1: "written b1 = written b" "rpos b1 = rpos b"
    using fresh_write_open [OF assms] by auto
  let ?w = "of_bool x :: u32"
  have bp: "bitpos b1 + 1 \<le> 8" using o by (simp add: wr_open_def)
  have c: "ucast (push_bit (8 - (bitpos b1 + 1)) (?w AND mask 1)) = (if x then push_bit (8 - (bitpos b1 + 1)) 1 else 0 :: u8)"
  proof (rule bit_word_eqI)
    fix i assume "i < LENGTH(8)"
    then show "bit (ucast (push_bit (8 - (bitpos b1 + 1)) (?w AND mask 1)) :: u8) i
        = bit (if x then push_bit (8 - (bitpos b1 + 1)) 1 else 0 :: u8) i"
      by (cases x) (auto simp: bit_ucast_iff bit_push_bit_iff bit_and_iff bit_mask_iff bit_1_iff
          simp del: push_bit_of_1)
  qed
  have bb: "bits_be 1 ?w = [x]" by (simp add: bits_be_def bit_of_bool_iff)
  obtain b2 where so: "storage_or (ucast (push_bit (8 - (bitpos b1 + 1)) (?w AND mask 1)))
      (b1\<lparr>bitpos := bitpos b1 + 1\<rparr>) = Inr b2" and i2: "wr_inv b2"
    and w2: "written b2 = written b1 @ bits_be 1 ?w" "rpos b2 = rpos b1"
    using storage_or_chunk [OF o _ bp, of ?w] by auto
  note so = so [unfolded c]
  have "WriteBit x b = Inr b2"
  proof (cases x)
    case True
    with so bp f show ?thesis by (simp add: WriteBit_def del: push_bit_of_1)
  next
    case False
    with so have "storage_or 0 (b1\<lparr>bitpos := bitpos b1 + 1\<rparr>) = Inr b2" by simp
    then have "b2 = b1\<lparr>bitpos := bitpos b1 + 1\<rparr>"
      by (cases b1) (auto simp: storage_or_def split: if_splits)
    with False f show ?thesis by (simp add: WriteBit_def)
  qed
  with i2 w1 w2 bb show ?thesis by simp
qed

text \<open>The reference for the byte-wise loop: one \<^verbatim>\<open>WriteBit\<close> per bit.\<close>

fun write_bit_list :: "bool list \<Rightarrow> byte_buffer \<Rightarrow> byte_buffer bb_result" where
  "write_bit_list [] b = Inr b"
| "write_bit_list (x # xs) b = rbind (WriteBit x b) (write_bit_list xs)"

lemma write_bit_list_written:
  "wr_inv b \<Longrightarrow> length (written b) + length xs \<le> 80000000 \<Longrightarrow>
     \<exists>b'. write_bit_list xs b = Inr b' \<and> wr_inv b' \<and> written b' = written b @ xs \<and> rpos b' = rpos b"
proof (induction xs arbitrary: b)
  case Nil
  then show ?case by simp
next
  case (Cons x xs)
  then obtain b1 where "WriteBit x b = Inr b1" "wr_inv b1" "written b1 = written b @ [x]"
    "rpos b1 = rpos b"
    using WriteBit_written [of b x] by auto
  with Cons.IH [of b1] Cons.prems show ?case by auto
qed

section \<open>Reading bits\<close>

definition rd_inv :: "byte_buffer \<Rightarrow> bool" where
  "rd_inv b \<longleftrightarrow> rd_ok b \<and> bitpos b \<le> 8 \<and> (bitpos b < 8 \<longrightarrow> 0 < rpos b)"

definition unread_bits :: "byte_buffer \<Rightarrow> bool list" where
  "unread_bits b = drop (8 * rpos b - (8 - bitpos b)) (stream (storage b))"

lemma unread_bits_aligned: "bitpos b = 8 \<Longrightarrow> unread_bits b = stream (unread b)"
proof -
  have "drop (8 * k) (stream xs) = stream (drop k xs)" for k xs
  proof (induction xs arbitrary: k)
    case (Cons x xs)
    then show ?case by (cases k) simp_all
  qed simp
  then show "bitpos b = 8 \<Longrightarrow> unread_bits b = stream (unread b)"
    by (simp add: unread_bits_def unread_def)
qed

lemma unread_bits_open:
  assumes "rd_inv b" and "bitpos b < 8"
  shows "unread_bits b = drop (bitpos b) (bits_be 8 (storage b ! (rpos b - 1))) @ stream (unread b)"
proof -
  from assms obtain k where k: "rpos b = Suc k" and lt: "k < bb_size b"
    by (cases "rpos b") (auto simp: rd_inv_def rd_ok_def)
  then have st: "storage b = take k (storage b) @ storage b ! k # drop (Suc k) (storage b)"
    by (simp add: id_take_nth_drop)
  have "8 * rpos b - (8 - bitpos b) = length (stream (take k (storage b))) + bitpos b"
    using k lt assms(2) by simp
  then have "unread_bits b = drop (length (stream (take k (storage b))) + bitpos b)
      (stream (take k (storage b) @ storage b ! k # drop (Suc k) (storage b)))"
    unfolding unread_bits_def using st by metis
  then show ?thesis using k assms(2) by (simp add: unread_def)
qed

text \<open>The state after \<open>fresh_read\<close>: a byte with unread bits under the cursor.\<close>

lemma fresh_read_open:
  assumes "rd_inv b" and "unread_bits b \<noteq> []"
  shows "\<exists>b'. fresh_read b = Inr b' \<and> rd_inv b' \<and> bitpos b' < 8 \<and> unread_bits b' = unread_bits b
    \<and> storage b' = storage b \<and> wpos b' = wpos b"
proof (cases "bitpos b = 8")
  case True
  with assms obtain x xs where u: "unread b = x # xs"
    by (cases "unread b") (auto simp: unread_bits_aligned)
  have rd: "rd_ok b" using assms(1) by (simp add: rd_inv_def)
  from rd_ok_size_add [OF rd, of 1] u have "size_add (rpos b) 1 = rpos b + 1 \<and> rpos b + 1 \<le> bb_size b"
    by simp
  then have f: "fresh_read b = Inr ((consume 1 b)\<lparr>bitpos := 0\<rparr>)" and le: "rpos b + 1 \<le> bb_size b"
    using True by (simp_all add: fresh_read_def read_skip_def ResetBits_def consume_def Let_def)
  have "rd_inv ((consume 1 b)\<lparr>bitpos := 0\<rparr>)" using rd le by (simp add: rd_inv_def rd_ok_def)
  moreover have "unread_bits ((consume 1 b)\<lparr>bitpos := 0\<rparr>) = unread_bits b"
    using True by (simp add: unread_bits_def)
  ultimately show ?thesis using f by simp
next
  case False
  with assms show ?thesis by (auto simp: fresh_read_def rd_inv_def)
qed

lemma fresh_read_end:
  assumes "rd_inv b" and "unread_bits b = []"
  shows "fresh_read b = Inl (ByteBufferException False (rpos b) 1 (bb_size b))"
proof -
  have "bitpos b = 8" using assms unread_bits_open [of b] by (cases "bitpos b < 8") (auto simp: rd_inv_def)
  moreover from this have "unread b = []" using assms(2) unread_bits_aligned [of b]
    by (cases "unread b") (auto simp: bits_be_def)
  ultimately show ?thesis using assms(1)
    by (auto simp: fresh_read_def read_skip_def ResetBits_def Let_def unread_def rd_inv_def rd_ok_def)
qed

lemma storage_last_open:
  "rd_inv b \<Longrightarrow> bitpos b < 8 \<Longrightarrow> storage_last (b\<lparr>bitpos := k\<rparr>) = Inr (storage b ! (rpos b - 1))"
  by (simp add: storage_last_def rd_inv_def rd_ok_def)

lemma chunk_bits:
  fixes x :: u8
  assumes "p + n \<le> 8"
  shows "(ucast (drop_bit (8 - (p + n)) x AND mask n) :: u32) = word_of_bits (take n (drop p (bits_be 8 x)))"
proof (rule bit_word_eqI)
  fix i assume i: "i < LENGTH(32)"
  show "bit (ucast (drop_bit (8 - (p + n)) x AND mask n) :: u32) i =
      bit (word_of_bits (take n (drop p (bits_be 8 x))) :: u32) i"
  proof (cases "i < n")
    case True
    then have "p + (n - 1 - i) < 8" and "7 - (p + (n - 1 - i)) = 8 - (p + n) + i" using assms by simp_all
    with True i assms show ?thesis
      by (auto simp: bit_ucast_iff bit_and_iff bit_drop_bit_eq bit_mask_iff bit_word_of_bits
          dest: bit_imp_le_length)
  next
    case False
    with i assms show ?thesis
      by (simp add: bit_ucast_iff bit_and_iff bit_mask_iff bit_word_of_bits)
  qed
qed

lemma advance_bits:
  assumes "rd_inv b" and "bitpos b + n \<le> 8" and "0 < n"
  shows "rd_inv (b\<lparr>bitpos := bitpos b + n\<rparr>)"
    and "unread_bits (b\<lparr>bitpos := bitpos b + n\<rparr>) = drop n (unread_bits b)"
proof -
  show "rd_inv (b\<lparr>bitpos := bitpos b + n\<rparr>)" using assms by (auto simp: rd_inv_def rd_ok_def)
  have "0 < rpos b" using assms by (auto simp: rd_inv_def)
  then have "8 * rpos b - (8 - (bitpos b + n)) = n + (8 * rpos b - (8 - bitpos b))"
    using assms(2) by (cases "rpos b") auto
  then show "unread_bits (b\<lparr>bitpos := bitpos b + n\<rparr>) = drop n (unread_bits b)"
    by (simp add: unread_bits_def)
qed

lemma ReadBits_loop_step:
  assumes "bits \<noteq> 0" and "fresh_read b = Inr b1" and "bitpos b1 < 8"
    and "n = min (8 - bitpos b1) bits" and "bits' = bits - n"
    and "storage_last (b1\<lparr>bitpos := bitpos b1 + n\<rparr>) = Inr x"
  shows "ReadBits_loop v bits b = ReadBits_loop
    (v OR push_bit bits' (ucast (drop_bit (8 - (bitpos b1 + n)) x AND mask n))) bits'
    (b1\<lparr>bitpos := bitpos b1 + n\<rparr>)"
  using assms by (subst ReadBits_loop.simps) (simp add: Let_def)

lemma ReadBits_loop_unread:
  assumes "rd_inv b" and "bits \<le> length (unread_bits b)"
  shows "\<exists>b'. ReadBits_loop v bits b = Inr (v OR word_of_bits (take bits (unread_bits b)), b')
    \<and> rd_inv b' \<and> unread_bits b' = drop bits (unread_bits b) \<and> storage b' = storage b \<and> wpos b' = wpos b"
  using assms
proof (induction bits arbitrary: b v rule: less_induct)
  case (less bits)
  show ?case
  proof (cases "bits = 0")
    case True
    with less.prems show ?thesis by (simp add: ReadBits_loop.simps word_of_bits_def)
  next
    case False
    with less.prems have "unread_bits b \<noteq> []" by auto
    with less.prems obtain b1 where f: "fresh_read b = Inr b1" and i1: "rd_inv b1"
      and p1: "bitpos b1 < 8" and u1: "unread_bits b1 = unread_bits b"
      and s1: "storage b1 = storage b" "wpos b1 = wpos b"
      using fresh_read_open by blast
    define n where "n = min (8 - bitpos b1) bits"
    define bits' where "bits' = bits - n"
    have n: "0 < n" "bitpos b1 + n \<le> 8" "bits' < bits" "bits = n + bits'"
      using p1 False by (auto simp: n_def bits'_def)
    let ?b2 = "b1\<lparr>bitpos := bitpos b1 + n\<rparr>" and ?x = "storage b1 ! (rpos b1 - 1)"
    let ?U = "unread_bits b"
    note adv = advance_bits [OF i1 n(2,1)]
    have "take n (drop (bitpos b1) (bits_be 8 ?x)) = take n ?U"
      using unread_bits_open [OF i1 p1] n(2) by (simp add: u1)
    with chunk_bits [OF n(2), of ?x]
    have c: "(ucast (drop_bit (8 - (bitpos b1 + n)) ?x AND mask n) :: u32) = word_of_bits (take n ?U)"
      by simp
    let ?v = "v OR push_bit bits' (word_of_bits (take n ?U))"
    have "ReadBits_loop v bits b = ReadBits_loop ?v bits' ?b2"
      using ReadBits_loop_step [OF False f p1 n_def bits'_def storage_last_open [OF i1 p1]] c by simp
    moreover have "bits' \<le> length (unread_bits ?b2)" using adv(2) u1 n(4) less.prems(2) by simp
    with less.IH [OF n(3) adv(1), of ?v] obtain b' where
      "ReadBits_loop ?v bits' ?b2 = Inr (?v OR word_of_bits (take bits' (unread_bits ?b2)), b')"
      "rd_inv b'" "unread_bits b' = drop bits' (unread_bits ?b2)" "storage b' = storage ?b2" "wpos b' = wpos ?b2"
      by blast
    moreover have "take bits ?U = take n ?U @ take bits' (drop n ?U)" by (simp add: n(4) take_add)
    moreover have "length (take bits' (drop n ?U)) = bits'" using n(4) less.prems(2) by simp
    ultimately show ?thesis
      using adv(2) u1 s1 n(4) by (simp add: word_of_bits_append or.assoc add.commute)
  qed
qed

lemma ReadBits_loop_short:
  assumes "rd_inv b" and "length (unread_bits b) < bits"
  shows "\<exists>p. ReadBits_loop v bits b = Inl (ByteBufferException False p 1 (bb_size b))"
  using assms
proof (induction bits arbitrary: b v rule: less_induct)
  case (less bits)
  then have nz: "bits \<noteq> 0" by auto
  show ?case
  proof (cases "unread_bits b = []")
    case True
    with less.prems nz show ?thesis by (subst ReadBits_loop.simps) (simp add: fresh_read_end)
  next
    case False
    with less.prems obtain b1 where f: "fresh_read b = Inr b1" and i1: "rd_inv b1"
      and p1: "bitpos b1 < 8" and u1: "unread_bits b1 = unread_bits b" and s1: "storage b1 = storage b"
      using fresh_read_open by blast
    define n where "n = min (8 - bitpos b1) bits"
    define bits' where "bits' = bits - n"
    have n: "0 < n" "bitpos b1 + n \<le> 8" "bits' < bits" using p1 nz by (auto simp: n_def bits'_def)
    note adv = advance_bits [OF i1 n(2,1)]
    have "length (unread_bits (b1\<lparr>bitpos := bitpos b1 + n\<rparr>)) < bits'"
    proof -
      have "n \<le> length (unread_bits b)"
        using n(2) unread_bits_open [OF i1 p1] u1 by simp
      then show ?thesis using adv(2) u1 less.prems(2) by (simp add: bits'_def)
    qed
    from less.IH [OF n(3) adv(1) this] ReadBits_loop_step [OF nz f p1 n_def bits'_def
        storage_last_open [OF i1 p1]] s1
    show ?thesis by simp
  qed
qed

lemma ReadBit_unread:
  assumes "rd_inv b" and "unread_bits b = x # xs"
  shows "\<exists>b'. ReadBit b = Inr (x, b') \<and> rd_inv b' \<and> unread_bits b' = xs
    \<and> storage b' = storage b \<and> wpos b' = wpos b"
proof -
  from assms obtain b1 where f: "fresh_read b = Inr b1" and i1: "rd_inv b1"
    and p1: "bitpos b1 < 8" and u1: "unread_bits b1 = x # xs"
    and s1: "storage b1 = storage b" "wpos b1 = wpos b"
    using fresh_read_open [of b] by auto
  let ?x = "storage b1 ! (rpos b1 - 1)"
  have p: "bitpos b1 + 1 \<le> 8" using p1 by simp
  have "hd (drop (bitpos b1) (bits_be 8 ?x)) = x"
    using unread_bits_open [OF i1 p1] u1 p1
    by (cases "drop (bitpos b1) (bits_be 8 ?x)") auto
  then have bx: "bit ?x (7 - bitpos b1) = x" using p1 by (simp add: hd_drop_conv_nth)
  have t: "drop_bit k ?x AND 1 \<noteq> 0 \<longleftrightarrow> bit ?x k" for k
    by (simp add: and_one_eq odd_iff_mod_2_eq_one [symmetric] bit_iff_odd_drop_bit)
  have "ReadBit b = Inr (x, b1\<lparr>bitpos := bitpos b1 + 1\<rparr>)"
    using f p1 storage_last_open [OF i1 p1] t [of "7 - bitpos b1"] bx by (simp add: ReadBit_def)
  with advance_bits [OF i1 p] u1 s1 show ?thesis by simp
qed

lemma rd_inv_aligned: "rd_ok b \<Longrightarrow> bitpos b = 8 \<Longrightarrow> rd_inv b"
  by (simp add: rd_inv_def)

end
