(* ===== verification/ChannelMgr.thy ===== *)
theory ChannelMgr
  imports Channel_Ops ByteBuffer_Bits
begin

text \<open>
  \<^verbatim>\<open>ChannelMgr\<close> (\<^verbatim>\<open>src/src/server/game/Chat/Channels/ChannelMgr.cpp\<close>): the channels of each faction by
  folded name; and the handlers of \<^verbatim>\<open>src/src/server/game/Handlers/ChannelHandler.cpp\<close>, which
  parse a client's packet and pass the request to the channel it names.

  The managers own their channels, so a \<^verbatim>\<open>Channel*\<close> is the key of the channel in the map. Folding a
  name to lower case (\<^verbatim>\<open>Utf8toWStr\<close> and \<^verbatim>\<open>wstrToLower\<close>) and normalising a player's name
  rest on the C library's character tables and a UTF-8 library and are parameters.
\<close>

section \<open>The managers\<close>

type_synonym wstring = "u32 list"

record chan_mgr =
  mgr_team :: u32
  channels :: "wstring \<Rightarrow> channel option"

datatype chan_side = AllianceChannelMgr | HordeChannelMgr

datatype chan_command =
    ChannelPass | ChannelSetowner | ChannelOwner | ChannelModer | ChannelUnmoder | ChannelMute
  | ChannelUnmute | ChannelInvite | ChannelKick | ChannelBan | ChannelUnban | ChannelAnnounce

text \<open>
  \<open>timeLast\<close> holds the members \<^verbatim>\<open>timeLastChannel...Command\<close> of the session; \<open>cw_out\<close> what is sent
  other than through a channel.
\<close>

record chan_world =
  mgrs :: "chan_side \<Rightarrow> chan_mgr"
  timeLast :: "chan_command \<Rightarrow> int"
  cw_out :: "chan_event list"

record chan_srv =
  srv_env :: chan_env
  srv_now :: int
  fold_name :: "u8 list \<Rightarrow> wstring"
  normalize_name :: "u8 list \<Rightarrow> u8 list option"
  word_filter :: bool
  has_bad_word :: "u8 list \<Rightarrow> bool"
  zone_known :: bool
  can_join_in_zone :: "u32 \<Rightarrow> bool"


definition channelMgr :: "chan_env \<Rightarrow> u32 \<Rightarrow> chan_side option" where
  "channelMgr env team =
     (if cfg_two_side_channel env then Some AllianceChannelMgr
      else if team = ALLIANCE then Some AllianceChannelMgr
      else if team = HORDE then Some HordeChannelMgr
      else None)"

definition GetJoinChannel :: "chan_srv \<Rightarrow> u8 list \<Rightarrow> u32 \<Rightarrow> chan_mgr \<Rightarrow> wstring \<times> chan_mgr" where
  "GetJoinChannel srv name channel_id m =
     (let wname = fold_name srv name in
      if channels m wname = None then
        let nchan = chan_new (srv_env srv) name channel_id (mgr_team m)
        in (wname, m\<lparr>channels := (channels m)(wname := Some nchan)\<rparr>)
      else (wname, m))"

definition MakeNotOnPacket :: "u8 list \<Rightarrow> world_packet \<Rightarrow> world_packet bb_result" where
  "MakeNotOnPacket name data =
     rbind (wp_put (append_word (0x05 :: u8)) (wp_Initialize SMSG_CHANNEL_NOTIFY data))
       (wp_put (put_string name))"

text \<open>The result is the key of the channel, or \<open>None\<close> for the null pointer, and what \<open>p\<close> is sent.\<close>

definition GetChannel :: "chan_srv \<Rightarrow> u8 list \<Rightarrow> u64 \<Rightarrow> bool \<Rightarrow> chan_mgr \<Rightarrow> (wstring option \<times> chan_event list) bb_result" where
  "GetChannel srv name p pkt m =
     (let wname = fold_name srv name in
      if channels m wname = None then
        (if pkt then
           rbind (MakeNotOnPacket name wp_new) (\<lambda>data.
           Inr (None, [ChanSend p (m_opcode data) (storage (wp_buf data))]))
         else Inr (None, []))
      else Inr (Some wname, []))"

definition mgr_LeftChannel :: "chan_srv \<Rightarrow> u8 list \<Rightarrow> chan_mgr \<Rightarrow> chan_mgr" where
  "mgr_LeftChannel srv name m =
     (let wname = fold_name srv name in
      case channels m wname of
        None \<Rightarrow> m
      | Some channel \<Rightarrow>
          if GetNumPlayers channel = 0 \<and> \<not> IsConstant channel
          then m\<lparr>channels := (channels m)(wname := None)\<rparr> else m)"

section \<open>What the handlers share\<close>

text \<open>
  A handler ends normally or with an exception from the packet, after which the session goes
  on with the state reached so far. \<open>read_or_stop\<close> is a read from the packet in a handler;
  \<open>throttled\<close> the five seconds between two commands of a kind.
\<close>

type_synonym handled = "bb_error option \<times> chan_world"

definition read_or_stop :: "'a bb_result \<Rightarrow> chan_world \<Rightarrow> ('a \<Rightarrow> handled) \<Rightarrow> handled" where
  "read_or_stop r w k = (case r of Inl e \<Rightarrow> (Some e, w) | Inr x \<Rightarrow> k x)"

definition throttled :: "chan_srv \<Rightarrow> chan_command \<Rightarrow> chan_world \<Rightarrow> (chan_world \<Rightarrow> handled) \<Rightarrow> handled" where
  "throttled srv cmd w k =
     (if srv_now srv - timeLast w cmd < 5 then (None, w)
      else k (w\<lparr>timeLast := (timeLast w)(cmd := srv_now srv)\<rparr>))"

definition set_mgr :: "chan_side \<Rightarrow> chan_mgr \<Rightarrow> chan_world \<Rightarrow> chan_world" where
  "set_mgr side m w = w\<lparr>mgrs := (mgrs w)(side := m)\<rparr>"

definition update_channel :: "chan_side \<Rightarrow> wstring \<Rightarrow> (channel \<Rightarrow> channel bb_result) \<Rightarrow> chan_world \<Rightarrow> handled" where
  "update_channel side key f w =
     (case channels (mgrs w side) key of None \<Rightarrow> (None, w)
      | Some chn \<Rightarrow> read_or_stop (f chn) w (\<lambda>chn'.
          (None, set_mgr side ((mgrs w side)\<lparr>channels := (channels (mgrs w side))(key := Some chn')\<rparr>) w)))"

text \<open>
  \<^verbatim>\<open>if (cMgr = channelMgr(team)) if (chn = cMgr->GetChannel(name, _player)) chn->...\<close>
\<close>

definition with_channel :: "chan_srv \<Rightarrow> chan_player \<Rightarrow> u8 list \<Rightarrow> (channel \<Rightarrow> channel bb_result) \<Rightarrow> chan_world \<Rightarrow> handled" where
  "with_channel srv pl name f w =
     (case channelMgr (srv_env srv) (cp_team pl) of None \<Rightarrow> (None, w)
      | Some side \<Rightarrow>
          read_or_stop (GetChannel srv name (cp_guid pl) True (mgrs w side)) w (\<lambda>(found, es).
            let w = w\<lparr>cw_out := cw_out w @ es\<rparr> in
            case found of None \<Rightarrow> (None, w) | Some key \<Rightarrow> update_channel side key f w))"

definition read_string :: "u32 \<Rightarrow> byte_buffer \<Rightarrow> (u8 list \<times> byte_buffer) bb_result" where
  "read_string len b = read_bytes (unat len) b"

text \<open>Two lengths of \<open>n1\<close> and \<open>n2\<close> bits, then the second string and the first.\<close>

definition read_name_channel :: "int \<Rightarrow> int \<Rightarrow> byte_buffer \<Rightarrow> (u8 list \<times> u8 list) bb_result" where
  "read_name_channel n1 n2 b =
     rbind (ReadBits n1 b) (\<lambda>(channelLength, b).
     rbind (ReadBits n2 b) (\<lambda>(nameLength, b).
     rbind (read_string nameLength b) (\<lambda>(otp, b).
     rbind (read_string channelLength b) (\<lambda>(channelname, b).
     Inr (otp, channelname)))))"

section \<open>The handlers\<close>

definition HandleJoinChannel :: "chan_srv \<Rightarrow> chan_player \<Rightarrow> byte_buffer \<Rightarrow> chan_world \<Rightarrow> handled" where
  "HandleJoinChannel srv pl b w =
     read_or_stop
       (rbind (read_word b) (\<lambda>(channelId :: u32, b).
        rbind (ReadBits 2 b) (\<lambda>(skipped, b).
        rbind (ReadBits 8 b) (\<lambda>(channelLength, b).
        rbind (ReadBits 8 b) (\<lambda>(passLength, b).
        rbind (read_string channelLength b) (\<lambda>(channelName, b).
        rbind (read_string passLength b) (\<lambda>(pass, b).
        Inr (channelId, channelName, pass)))))))) w
       (\<lambda>(channelId, channelName, pass).
        if channelId \<noteq> 0 \<and> (ChatChannels (srv_env srv) channelId = None \<or> \<not> zone_known srv \<or>
             \<not> can_join_in_zone srv channelId) then (None, w)
        else if channelName = [] then (None, w)
        else
          case channelMgr (srv_env srv) (cp_team pl) of None \<Rightarrow> (None, w)
          | Some side \<Rightarrow>
              let m = (mgrs w side)\<lparr>mgr_team := cp_team pl\<rparr>;
                  (key, m) = GetJoinChannel srv channelName channelId m
              in update_channel side key (chan_Join (srv_env srv) (cp_guid pl) pass) (set_mgr side m w))"

definition HandleLeaveChannel :: "chan_srv \<Rightarrow> chan_player \<Rightarrow> byte_buffer \<Rightarrow> chan_world \<Rightarrow> handled" where
  "HandleLeaveChannel srv pl b w =
     read_or_stop
       (rbind (read_word b) (\<lambda>(unk :: u32, b).
        rbind (ReadBits 8 b) (\<lambda>(len, b). read_string len b))) w
       (\<lambda>(channelname, b).
        if channelname = [] then (None, w)
        else
          case channelMgr (srv_env srv) (cp_team pl) of None \<Rightarrow> (None, w)
          | Some side \<Rightarrow>
              (case with_channel srv pl channelname (chan_Leave (srv_env srv) (cp_guid pl) True) w of
                 (Some e, w) \<Rightarrow> (Some e, w)
               | (None, w) \<Rightarrow> (None, set_mgr side (mgr_LeftChannel srv channelname (mgrs w side)) w)))"

definition HandleChannelList :: "chan_srv \<Rightarrow> chan_player \<Rightarrow> byte_buffer \<Rightarrow> chan_world \<Rightarrow> handled" where
  "HandleChannelList srv pl b w =
     read_or_stop (rbind (ReadBits 8 b) (\<lambda>(len, b). read_string len b)) w
       (\<lambda>(channelname, b). with_channel srv pl channelname (chan_List (srv_env srv) pl) w)"

definition HandleChannelPassword :: "chan_srv \<Rightarrow> chan_player \<Rightarrow> byte_buffer \<Rightarrow> chan_world \<Rightarrow> handled" where
  "HandleChannelPassword srv pl b w =
     throttled srv ChannelPass w (\<lambda>w.
       read_or_stop
         (rbind (ReadBits 8 b) (\<lambda>(nameLength, b).
          rbind (ReadBits 7 b) (\<lambda>(passLength, b).
          rbind (read_string nameLength b) (\<lambda>(channelname, b).
          rbind (read_string passLength b) (\<lambda>(pass, b). Inr (channelname, pass)))))) w
         (\<lambda>(channelname, pass). with_channel srv pl channelname (chan_Password (srv_env srv) (cp_guid pl) pass) w))"

text \<open>The commands on a named player, once the packet is read.\<close>

definition on_player :: "chan_srv \<Rightarrow> chan_player \<Rightarrow> (u8 list \<Rightarrow> channel \<Rightarrow> channel bb_result)
    \<Rightarrow> u8 list \<times> u8 list \<Rightarrow> chan_world \<Rightarrow> handled" where
  "on_player srv pl f names w =
     (case normalize_name srv (fst names) of None \<Rightarrow> (None, w)
      | Some otp \<Rightarrow> with_channel srv pl (snd names) (f (c_str otp)) w)"

definition HandleChannelSetOwner :: "chan_srv \<Rightarrow> chan_player \<Rightarrow> byte_buffer \<Rightarrow> chan_world \<Rightarrow> handled" where
  "HandleChannelSetOwner srv pl b w =
     throttled srv ChannelSetowner w (\<lambda>w. read_or_stop (read_name_channel 8 7 b) w (\<lambda>names.
       on_player srv pl (SetOwner_name (srv_env srv) (cp_guid pl)) names w))"

definition HandleChannelOwner :: "chan_srv \<Rightarrow> chan_player \<Rightarrow> byte_buffer \<Rightarrow> chan_world \<Rightarrow> handled" where
  "HandleChannelOwner srv pl b w =
     throttled srv ChannelOwner w (\<lambda>w.
       read_or_stop (rbind (ReadBits 8 b) (\<lambda>(len, b). read_string len b)) w
         (\<lambda>(channelname, b). with_channel srv pl channelname (SendWhoOwner (srv_env srv) (cp_guid pl)) w))"

definition HandleChannelModerator :: "chan_srv \<Rightarrow> chan_player \<Rightarrow> byte_buffer \<Rightarrow> chan_world \<Rightarrow> handled" where
  "HandleChannelModerator srv pl b w =
     throttled srv ChannelModer w (\<lambda>w. read_or_stop (read_name_channel 8 7 b) w (\<lambda>names.
       on_player srv pl (\<lambda>n. SetMode (srv_env srv) (cp_guid pl) n True True) names w))"

definition HandleChannelUnmoderator :: "chan_srv \<Rightarrow> chan_player \<Rightarrow> byte_buffer \<Rightarrow> chan_world \<Rightarrow> handled" where
  "HandleChannelUnmoderator srv pl b w =
     throttled srv ChannelUnmoder w (\<lambda>w.
       read_or_stop
         (rbind (ReadBits 7 b) (\<lambda>(nameLength, b).
          rbind (ReadBits 8 b) (\<lambda>(channelLength, b).
          rbind (read_string channelLength b) (\<lambda>(channelname, b).
          rbind (read_string nameLength b) (\<lambda>(otp, b). Inr (otp, channelname)))))) w
         (\<lambda>names. on_player srv pl (\<lambda>n. SetMode (srv_env srv) (cp_guid pl) n True False) names w))"

definition HandleChannelMute :: "chan_srv \<Rightarrow> chan_player \<Rightarrow> byte_buffer \<Rightarrow> chan_world \<Rightarrow> handled" where
  "HandleChannelMute srv pl b w =
     throttled srv ChannelMute w (\<lambda>w. read_or_stop (read_name_channel 8 7 b) w (\<lambda>names.
       on_player srv pl (\<lambda>n. SetMode (srv_env srv) (cp_guid pl) n False True) names w))"

definition HandleChannelUnmute :: "chan_srv \<Rightarrow> chan_player \<Rightarrow> byte_buffer \<Rightarrow> chan_world \<Rightarrow> handled" where
  "HandleChannelUnmute srv pl b w =
     throttled srv ChannelUnmute w (\<lambda>w. read_or_stop (read_name_channel 8 7 b) w (\<lambda>names.
       on_player srv pl (\<lambda>n. SetMode (srv_env srv) (cp_guid pl) n False False) names w))"

definition HandleChannelInvite :: "chan_srv \<Rightarrow> chan_player \<Rightarrow> byte_buffer \<Rightarrow> chan_world \<Rightarrow> handled" where
  "HandleChannelInvite srv pl b w =
     throttled srv ChannelInvite w (\<lambda>w. read_or_stop (read_name_channel 7 8 b) w (\<lambda>(otp, channelname).
       case normalize_name srv otp of None \<Rightarrow> (None, w)
       | Some otp \<Rightarrow>
           if word_filter srv \<and> has_bad_word srv channelname then (None, w)
           else with_channel srv pl channelname (chan_Invite (srv_env srv) (cp_guid pl) (c_str otp)) w))"

definition HandleChannelKick :: "chan_srv \<Rightarrow> chan_player \<Rightarrow> byte_buffer \<Rightarrow> chan_world \<Rightarrow> handled" where
  "HandleChannelKick srv pl b w =
     throttled srv ChannelKick w (\<lambda>w. read_or_stop (read_name_channel 8 7 b) w (\<lambda>names.
       on_player srv pl (\<lambda>n. KickOrBan (srv_env srv) (cp_guid pl) n False) names w))"

definition HandleChannelBan :: "chan_srv \<Rightarrow> chan_player \<Rightarrow> byte_buffer \<Rightarrow> chan_world \<Rightarrow> handled" where
  "HandleChannelBan srv pl b w =
     throttled srv ChannelBan w (\<lambda>w. read_or_stop (read_name_channel 8 7 b) w (\<lambda>names.
       on_player srv pl (\<lambda>n. KickOrBan (srv_env srv) (cp_guid pl) n True) names w))"

definition HandleChannelUnban :: "chan_srv \<Rightarrow> chan_player \<Rightarrow> byte_buffer \<Rightarrow> chan_world \<Rightarrow> handled" where
  "HandleChannelUnban srv pl b w =
     throttled srv ChannelUnban w (\<lambda>w. read_or_stop (read_name_channel 7 8 b) w (\<lambda>names.
       on_player srv pl (UnBan (srv_env srv) (cp_guid pl)) names w))"

definition HandleChannelAnnouncements :: "chan_srv \<Rightarrow> chan_player \<Rightarrow> byte_buffer \<Rightarrow> chan_world \<Rightarrow> handled" where
  "HandleChannelAnnouncements srv pl b w =
     throttled srv ChannelAnnounce w (\<lambda>w.
       read_or_stop (rbind (ReadBits 8 b) (\<lambda>(len, b). read_string len b)) w
         (\<lambda>(channelname, b). with_channel srv pl channelname (chan_Announce (srv_env srv) (cp_guid pl)) w))"

definition HandleChannelDisplayListQuery :: "chan_srv \<Rightarrow> chan_player \<Rightarrow> byte_buffer \<Rightarrow> chan_world \<Rightarrow> handled" where
  "HandleChannelDisplayListQuery srv pl b w = HandleChannelList srv pl b w"

definition SMSG_CHANNEL_MEMBER_COUNT :: u32 where "SMSG_CHANNEL_MEMBER_COUNT = 0x6414"

text \<open>The answer is sent to the session itself, and is the only effect on the channel's record.\<close>

definition HandleGetChannelMemberCount :: "chan_srv \<Rightarrow> chan_player \<Rightarrow> byte_buffer \<Rightarrow> chan_world \<Rightarrow> handled" where
  "HandleGetChannelMemberCount srv pl b w =
     read_or_stop (get_string b) w (\<lambda>(channelname, b).
       with_channel srv pl channelname (\<lambda>chn.
         rbind (wp_put (put_string (m_name chn)) (wp_opcode SMSG_CHANNEL_MEMBER_COUNT)) (\<lambda>data.
         rbind (wp_put (append_word (m_flags chn)) data) (\<lambda>data.
         rbind (wp_put (append_word (GetNumPlayers chn)) data) (\<lambda>data.
         Inr (chan_emit [ChanSend (cp_guid pl) (m_opcode data) (storage (wp_buf data))] chn))))) w)"

definition HandleSetChannelWatch :: "byte_buffer \<Rightarrow> chan_world \<Rightarrow> handled" where
  "HandleSetChannelWatch b w = read_or_stop (get_string b) w (\<lambda>(channelname, b). (None, w))"

end
