(* ===== verification/Channel_Spec.thy ===== *)
theory Channel_Spec
  imports Channel_Ops
begin

text \<open>
  What a request does to a channel when packets, announcements and database statements are
  left out: \<open>spec_do\<close>, written with the conditions under which a request is granted
  (\<open>may_join\<close>, \<open>may_moderate\<close>, \<open>may_kick\<close>, \<open>may_set_mode\<close>, \<open>may_give\<close>). The operations of
  \<open>Channel_Ops\<close> refine it: each is its abstract step followed by output only.
\<close>

section \<open>The abstract steps\<close>

definition spec_SetOwner :: "u64 \<Rightarrow> channel \<Rightarrow> channel" where
  "spec_SetOwner guid c =
     (let c = (if m_ownerGUID c \<noteq> 0 \<and> IsOn (m_ownerGUID c) c
               then member_upd (m_ownerGUID c) (info_SetOwner False) c else c);
          c = c\<lparr>m_ownerGUID := guid\<rparr>
      in if guid = 0 then c
         else member_upd guid (info_SetOwner True) (member_upd guid (info_SetModerator True) c))"

definition spec_make_owner :: "u64 \<Rightarrow> channel \<Rightarrow> channel" where
  "spec_make_owner guid c = spec_SetOwner guid (member_upd guid (info_SetModerator True) c)"

definition may_join :: "chan_env \<Rightarrow> u64 \<Rightarrow> u8 list \<Rightarrow> channel \<Rightarrow> bool" where
  "may_join env p pass c \<longleftrightarrow>
     \<not> IsOn p c \<and> \<not> IsBanned p c \<and> (m_password c = [] \<or> c_str pass = c_str (m_password c)) \<and>
     (\<forall>pl \<in> set_option (FindPlayer env p). \<not> (chan_HasFlag CHANNEL_FLAG_LFG c \<and> cfg_restricted_lfg env \<and>
        IsPlayerAccount (cp_security pl) \<and> cp_in_group pl))"

definition spec_enter :: "u64 \<Rightarrow> channel \<Rightarrow> channel" where
  "spec_enter p c =
     (let c = c\<lparr>players := sm_set p \<lparr>pi_player = p, pi_flags = MEMBER_FLAG_NONE\<rparr> (players c)\<rparr> in
      if \<not> IsConstant c \<and> m_ownerGUID c = 0 \<and> m_ownership c
      then member_upd p (info_SetModerator True) (spec_SetOwner p c) else c)"

definition spec_leave :: "u64 \<Rightarrow> channel \<Rightarrow> channel" where
  "spec_leave p c =
     (let changeowner = IsOwner (member p c); c = c\<lparr>players := sm_erase p (players c)\<rparr> in
      if \<not> IsConstant c \<and> changeowner \<and> m_ownership c \<and> players c \<noteq> []
      then spec_make_owner (pi_player (snd (hd (players c)))) c else c)"

definition may_moderate :: "chan_env \<Rightarrow> u64 \<Rightarrow> channel \<Rightarrow> bool" where
  "may_moderate env p c \<longleftrightarrow> IsOn p c \<and> (IsModerator (member p c) \<or> IsGMAccount (sec_of env p))"

definition may_kick :: "chan_env \<Rightarrow> u64 \<Rightarrow> u64 \<Rightarrow> channel \<Rightarrow> bool" where
  "may_kick env good bad c \<longleftrightarrow> may_moderate env good c \<and> IsOn bad c \<and>
     (IsGMAccount (sec_of env good) \<or> bad \<noteq> m_ownerGUID c \<or> good = m_ownerGUID c)"

definition spec_kick :: "u64 \<Rightarrow> u64 \<Rightarrow> channel \<Rightarrow> channel" where
  "spec_kick good bad c =
     (let changeowner = (m_ownerGUID c = bad); c = c\<lparr>players := sm_erase bad (players c)\<rparr> in
      if changeowner \<and> m_ownership c \<and> players c \<noteq> [] then spec_make_owner good c else c)"

definition spec_ban :: "u64 \<Rightarrow> channel \<Rightarrow> channel" where
  "spec_ban bad c = (if IsBanned bad c then c else c\<lparr>banned := ss_insert bad (banned c)\<rparr>)"

definition may_set_mode :: "chan_env \<Rightarrow> u64 \<Rightarrow> chan_player \<Rightarrow> bool \<Rightarrow> channel \<Rightarrow> bool" where
  "may_set_mode env p newp md c \<longleftrightarrow>
     may_moderate env p c \<and> IsOn (cp_guid newp) c \<and>
     (cp_guid newp = m_ownerGUID c \<longrightarrow> p = m_ownerGUID c \<and> \<not> md) \<and>
     (\<exists>player \<in> set_option (FindPlayer env p).
        IsGMAccount (cp_security player) \<and> IsGMAccount (cp_security newp) \<or>
        cp_team player = cp_team newp \<or> cfg_two_side_channel env)"

definition spec_mode :: "u64 \<Rightarrow> bool \<Rightarrow> bool \<Rightarrow> channel \<Rightarrow> channel" where
  "spec_mode p md st c =
     (if md then (if IsModerator (member p c) \<noteq> st then member_upd p (info_SetModerator st) c else c)
      else (if IsMuted (member p c) \<noteq> st then member_upd p (info_SetMuted st) c else c))"

definition may_give :: "chan_env \<Rightarrow> u64 \<Rightarrow> chan_player \<Rightarrow> channel \<Rightarrow> bool" where
  "may_give env p newp c \<longleftrightarrow>
     IsOn p c \<and> IsOn (cp_guid newp) c \<and>
     (\<exists>player \<in> set_option (FindPlayer env p).
        (IsGMAccount (cp_security player) \<or> p = m_ownerGUID c) \<and>
        (cp_team newp = cp_team player \<or> cfg_two_side_channel env))"

definition with_target :: "chan_env \<Rightarrow> u8 list \<Rightarrow> (chan_player \<Rightarrow> bool) \<Rightarrow> (chan_player \<Rightarrow> channel \<Rightarrow> channel)
    \<Rightarrow> channel \<Rightarrow> channel" where
  "with_target env name ok f c =
     (case FindPlayerByName env name of None \<Rightarrow> c | Some t \<Rightarrow> if ok t then f t c else c)"

fun spec_do :: "chan_env \<Rightarrow> chan_request \<Rightarrow> channel \<Rightarrow> channel" where
  "spec_do env (ReqJoin p pass) c = (if may_join env p pass c then spec_enter p c else c)"
| "spec_do env (ReqLeave p send) c = (if IsOn p c then spec_leave p c else c)"
| "spec_do env (ReqKick good bad) c =
     with_target env bad (\<lambda>t. may_kick env good (cp_guid t) c) (\<lambda>t. spec_kick good (cp_guid t)) c"
| "spec_do env (ReqBan good bad) c =
     with_target env bad (\<lambda>t. may_kick env good (cp_guid t) c)
       (\<lambda>t c. spec_kick good (cp_guid t) (spec_ban (cp_guid t) c)) c"
| "spec_do env (ReqUnBan good bad) c =
     with_target env bad (\<lambda>t. may_moderate env good c)
       (\<lambda>t c. c\<lparr>banned := ss_erase (cp_guid t) (banned c)\<rparr>) c"
| "spec_do env (ReqPassword p pass) c =
     (if may_moderate env p c then c\<lparr>m_password := c_str pass\<rparr> else c)"
| "spec_do env (ReqSetModerator p n) c =
     with_target env n (\<lambda>t. may_set_mode env p t True c) (\<lambda>t. spec_mode (cp_guid t) True True) c"
| "spec_do env (ReqUnsetModerator p n) c =
     with_target env n (\<lambda>t. may_set_mode env p t True c) (\<lambda>t. spec_mode (cp_guid t) True False) c"
| "spec_do env (ReqSetMute p n) c =
     with_target env n (\<lambda>t. may_set_mode env p t False c) (\<lambda>t. spec_mode (cp_guid t) False True) c"
| "spec_do env (ReqUnsetMute p n) c =
     with_target env n (\<lambda>t. may_set_mode env p t False c) (\<lambda>t. spec_mode (cp_guid t) False False) c"
| "spec_do env (ReqSetOwner p n) c =
     with_target env n (\<lambda>t. may_give env p t c) (\<lambda>t. spec_make_owner (cp_guid t)) c"
| "spec_do env (ReqAnnounce p) c =
     (if may_moderate env p c then c\<lparr>m_announce := \<not> m_announce c\<rparr> else c)"
| "spec_do env (ReqWhoOwner p) c = c"
| "spec_do env (ReqList player) c = c"
| "spec_do env (ReqSay p what lang) c = c"
| "spec_do env (ReqInvite p n) c = c"

section \<open>Output leaves the state alone\<close>

lemma chan_emit_fields [simp]:
  "players (chan_emit es c) = players c" "banned (chan_emit es c) = banned c"
  "m_announce (chan_emit es c) = m_announce c" "m_special (chan_emit es c) = m_special c"
  "m_ownership (chan_emit es c) = m_ownership c" "m_name (chan_emit es c) = m_name c"
  "m_password (chan_emit es c) = m_password c" "m_flags (chan_emit es c) = m_flags c"
  "m_channelId (chan_emit es c) = m_channelId c" "m_ownerGUID (chan_emit es c) = m_ownerGUID c"
  "m_IsSaved (chan_emit es c) = m_IsSaved c" "m_Team (chan_emit es c) = m_Team c"
  "chan_out (chan_emit es c) = chan_out c @ es"
  by (simp_all add: chan_emit_def)

lemma chan_emit_updates [simp]:
  "(chan_emit es c)\<lparr>players := x\<rparr> = chan_emit es (c\<lparr>players := x\<rparr>)"
  "(chan_emit es c)\<lparr>banned := y\<rparr> = chan_emit es (c\<lparr>banned := y\<rparr>)"
  "(chan_emit es c)\<lparr>m_announce := b\<rparr> = chan_emit es (c\<lparr>m_announce := b\<rparr>)"
  "(chan_emit es c)\<lparr>m_password := s\<rparr> = chan_emit es (c\<lparr>m_password := s\<rparr>)"
  "(chan_emit es c)\<lparr>m_ownerGUID := g\<rparr> = chan_emit es (c\<lparr>m_ownerGUID := g\<rparr>)"
  by (simp_all add: chan_emit_def)

lemma chan_emit_emit [simp]: "chan_emit es (chan_emit ds c) = chan_emit (ds @ es) c"
  by (simp add: chan_emit_def)

lemma chan_emit_Nil [simp]: "chan_emit [] c = c"
  by (simp add: chan_emit_def)

lemma chan_emit_reads [simp]:
  "IsOn p (chan_emit es c) = IsOn p c" "IsBanned p (chan_emit es c) = IsBanned p c"
  "IsConstant (chan_emit es c) = IsConstant c" "member p (chan_emit es c) = member p c"
  "GetPlayerFlags p (chan_emit es c) = GetPlayerFlags p c"
  "member_upd p f (chan_emit es c) = chan_emit es (member_upd p f c)"
  "spec_SetOwner p (chan_emit es c) = chan_emit es (spec_SetOwner p c)"
  "spec_make_owner p (chan_emit es c) = chan_emit es (spec_make_owner p c)"
  by (simp_all add: IsOn_def IsBanned_def IsConstant_def member_def GetPlayerFlags_def member_upd_def
      spec_SetOwner_def spec_make_owner_def Let_def)

text \<open>\<open>emits c c'\<close>: \<open>c'\<close> is \<open>c\<close> with more output.\<close>

definition emits :: "channel \<Rightarrow> channel \<Rightarrow> bool" where
  "emits c c' \<longleftrightarrow> (\<exists>es. c' = chan_emit es c)"

lemma emits_refl [simp, intro]: "emits c c"
  unfolding emits_def by (metis chan_emit_Nil)

lemma emits_trans [trans]: "emits c d \<Longrightarrow> emits d e \<Longrightarrow> emits c e"
  unfolding emits_def by (metis chan_emit_emit)

lemma emits_emit [simp, intro]: "emits c (chan_emit es c)"
  by (auto simp: emits_def)

lemma emits_Send [simp, intro]: "emits c (SendToAll env data p c)" "emits c (SendToOne env data p c)"
  "emits c (SendToAllButOne env data p c)" "emits c (UpdateChannelInDB c)"
  "emits c (UpdateChannelUseageInDB c)"
  by (auto simp: SendToAll_def SendToOne_def SendToAllButOne_def UpdateChannelInDB_def
      UpdateChannelUseageInDB_def split: option.splits)

lemma emits_Send_after [simp, intro]:
  "emits c d \<Longrightarrow> emits c (SendToAll env data p d)" "emits c d \<Longrightarrow> emits c (SendToOne env data p d)"
  "emits c d \<Longrightarrow> emits c (SendToAllButOne env data p d)" "emits c d \<Longrightarrow> emits c (UpdateChannelInDB d)"
  "emits c d \<Longrightarrow> emits c (UpdateChannelUseageInDB d)" "emits c d \<Longrightarrow> emits c (chan_emit es d)"
  by (blast intro: emits_trans)+

lemma emits_tell: "tell env p mk c = Inr c' \<Longrightarrow> emits c c'" "tell_all env mk c = Inr c' \<Longrightarrow> emits c c'"
  by (auto simp: tell_def tell_all_def rbind_eq_Inr)

text \<open>Whatever only reads and updates the state may be moved before the output.\<close>

lemma emits_image: "emits c d \<Longrightarrow> (\<And>es. f (chan_emit es c) = chan_emit es (f c)) \<Longrightarrow> emits (f c) (f d)"
  by (auto simp: emits_def)

lemma emits_eqs:
  assumes "emits c d"
  shows "players d = players c" "banned d = banned c" "m_ownership d = m_ownership c"
    "m_ownerGUID d = m_ownerGUID c" "IsConstant d = IsConstant c" "member p d = member p c"
    "IsOn p d = IsOn p c" "m_announce d = m_announce c" "IsBanned p d = IsBanned p c"
  using assms by (auto simp: emits_def)

section \<open>Refinement of the operations\<close>

lemma SetOwner_emits:
  assumes "SetOwner env guid exclaim c = Inr c'"
  shows "emits (spec_SetOwner guid c) c'"
proof (cases "guid = 0")
  case True
  with assms show ?thesis by (simp add: SetOwner_def spec_SetOwner_def Let_def)
next
  case False
  with assms show ?thesis
    by (auto simp: SetOwner_def Let_def rbind_eq_Inr spec_SetOwner_def split: if_splits)
qed

lemma make_owner_emits:
  "SetOwner env g ex (member_upd g (info_SetModerator True) c) = Inr c' \<Longrightarrow> emits (spec_make_owner g c) c'"
  unfolding spec_make_owner_def by (rule SetOwner_emits)

lemma make_owner_emits_after:
  "SetOwner env g ex (chan_emit es (member_upd g (info_SetModerator True) c)) = Inr c' \<Longrightarrow>
     emits (spec_make_owner g c) c'"
  using SetOwner_emits [of env g ex "chan_emit es (member_upd g (info_SetModerator True) c)" c']
  by (auto simp: spec_make_owner_def emits_def)

lemma JoinNotify_emits: "JoinNotify env p c = Inr c' \<Longrightarrow> emits c c'"
  and LeaveNotify_emits: "LeaveNotify env p c = Inr c' \<Longrightarrow> emits c c'"
  by (auto simp: JoinNotify_def LeaveNotify_def Let_def rbind_eq_Inr split: if_splits)

lemma members_set_Nil [simp]: "\<not> players (c\<lparr>players := sm_set k v m\<rparr>) = []"
  by simp

lemma join_enter_emits:
  assumes "join_enter env p c = Inr c'"
  shows "emits (spec_enter p c) c'"
proof -
  let ?c = "c\<lparr>players := sm_set p \<lparr>pi_player = p, pi_flags = MEMBER_FLAG_NONE\<rparr> (players c)\<rparr>"
  from assms obtain d where d: "emits ?c d"
    and rest: "(if \<not> IsConstant d then
        let e = (if players d \<noteq> [] then UpdateChannelUseageInDB d else d) in
        if m_ownerGUID e = 0 \<and> m_ownership e then
          rbind (SetOwner env p (1 < length (players e)) e) (\<lambda>c.
          Inr (member_upd p (info_SetModerator True) c))
        else Inr e
      else Inr d) = Inr c'"
    by (auto simp: join_enter_def Let_def rbind_eq_Inr dest!: emits_tell JoinNotify_emits intro: emits_trans)
  let ?e = "if players d \<noteq> [] then UpdateChannelUseageInDB d else d"
  have e: "emits ?c ?e" using d by (auto intro: emits_trans)
  show ?thesis
  proof (cases "\<not> IsConstant ?c \<and> m_ownerGUID ?c = 0 \<and> m_ownership ?c")
    case True
    with rest d e obtain f where f: "SetOwner env p (1 < length (players ?e)) ?e = Inr f"
      and c': "c' = member_upd p (info_SetModerator True) f"
      by (auto simp: Let_def rbind_eq_Inr emits_eqs UpdateChannelUseageInDB_def split: if_splits)
    have "emits (spec_SetOwner p ?c) (spec_SetOwner p ?e)" using e by (rule emits_image) simp
    then have "emits (spec_SetOwner p ?c) f" using SetOwner_emits [OF f] by (rule emits_trans)
    then have "emits (member_upd p (info_SetModerator True) (spec_SetOwner p ?c)) c'"
      unfolding c' by (rule emits_image) simp
    with True show ?thesis by (simp add: spec_enter_def)
  next
    case False
    with rest d e have "emits ?c c'"
      by (auto simp: Let_def rbind_eq_Inr emits_eqs UpdateChannelUseageInDB_def split: if_splits)
    with False show ?thesis by (auto simp: spec_enter_def Let_def)
  qed
qed

lemma chan_Join_emits:
  assumes "chan_Join env p pass c = Inr c'"
  shows "emits (spec_do env (ReqJoin p pass) c) c'"
proof (cases "may_join env p pass c")
  case True
  have enter: "emits (spec_enter p c) c'" if d: "emits c d" and e: "join_enter env p d = Inr c'" for d
  proof -
    have "emits (spec_enter p c) (spec_enter p d)"
      using d by (rule emits_image) (simp add: spec_enter_def Let_def)
    then show ?thesis using join_enter_emits [OF e] by (rule emits_trans)
  qed
  have ann: "emits d e" if "join_announce env p d = Inr e" for d e
    using that by (auto simp: join_announce_def dest: emits_tell split: if_splits)
  from True assms obtain d e where "emits c d" "join_announce env p d = Inr e" "join_enter env p e = Inr c'"
    by (auto simp: chan_Join_def may_join_def strcmp_ne_def rbind_eq_Inr split: option.splits if_splits)
  with ann enter emits_trans have "emits (spec_enter p c) c'" by blast
  with True show ?thesis by simp
next
  case False
  with assms show ?thesis
    by (auto simp: chan_Join_def may_join_def strcmp_ne_def dest!: emits_tell split: option.splits if_splits)
qed

lemma leave_owner_emits:
  assumes "leave_owner env co d = Inr c'" and d: "emits c d"
  shows "emits (if co \<and> m_ownership c \<and> players c \<noteq> []
    then spec_make_owner (pi_player (snd (hd (players c)))) c else c) c'"
proof -
  have "emits (spec_make_owner g c) (spec_make_owner g d)" for g
    using d by (rule emits_image) simp
  then show ?thesis using assms
    by (auto simp: leave_owner_def Let_def emits_eqs dest!: make_owner_emits intro: emits_trans split: if_splits)
qed

lemma leave_goodbye_emits: "leave_goodbye env p c = Inr d \<Longrightarrow> emits c d"
  unfolding leave_goodbye_def by (auto elim!: rbind_InrE dest!: emits_tell)

lemma chan_Leave_emits:
  assumes "chan_Leave env p send c = Inr c'"
  shows "emits (spec_do env (ReqLeave p send) c) c'"
proof (cases "IsOn p c")
  case True
  let ?c = "c\<lparr>players := sm_erase p (players c)\<rparr>"
  from assms True have "rbind (if send then leave_goodbye env p c else Inr c) (\<lambda>c.
      let changeowner = IsOwner (member p c); c = c\<lparr>players := sm_erase p (players c)\<rparr>
      in rbind (leave_announce env p c) (\<lambda>c. rbind (LeaveNotify env p c) (\<lambda>c.
         if \<not> IsConstant c then leave_owner env changeowner (UpdateChannelUseageInDB c)
         else Inr c))) = Inr c'"
    by (simp only: chan_Leave_def simp_thms if_False)
  then obtain d where gb: "(if send then leave_goodbye env p c else Inr c) = Inr d"
    and "(let changeowner = IsOwner (member p d); c = d\<lparr>players := sm_erase p (players d)\<rparr>
        in rbind (leave_announce env p c) (\<lambda>c. rbind (LeaveNotify env p c) (\<lambda>c.
           if \<not> IsConstant c then leave_owner env changeowner (UpdateChannelUseageInDB c)
           else Inr c))) = Inr c'"
    by (rule rbind_InrE)
  then obtain e f g where e: "e = d\<lparr>players := sm_erase p (players d)\<rparr>"
    and ann: "leave_announce env p e = Inr f" and g: "LeaveNotify env p f = Inr g"
    and rest: "(if \<not> IsConstant g then leave_owner env (IsOwner (member p d)) (UpdateChannelUseageInDB g)
      else Inr g) = Inr c'"
    unfolding Let_def rbind_eq_Inr by blast
  from gb have d: "emits c d" by (auto dest: leave_goodbye_emits split: if_splits)
  from ann have f: "emits e f" by (auto simp: leave_announce_def dest: emits_tell split: if_splits)
  have "emits ?c e" unfolding e emits_eqs(1) [OF d] using d by (rule emits_image) simp
  from emits_trans [OF this emits_trans [OF f LeaveNotify_emits [OF g]]] have g: "emits ?c g" .
  show ?thesis
  proof (cases "IsConstant c")
    case cst: True
    then have "IsConstant ?c" by (simp add: IsConstant_def)
    with True cst g rest show ?thesis by (simp add: spec_leave_def emits_eqs [OF g])
  next
    case cst: False
    then have "\<not> IsConstant ?c" by (simp add: IsConstant_def)
    with cst g rest have "leave_owner env (IsOwner (member p d)) (UpdateChannelUseageInDB g) = Inr c'"
      by (simp add: emits_eqs [OF g])
    from leave_owner_emits [OF this, of ?c] g True cst show ?thesis
      by (auto simp: spec_leave_def Let_def emits_eqs [OF d] IsConstant_def)
  qed
next
  case False
  with assms show ?thesis by (auto simp: chan_Leave_def dest: emits_tell split: if_splits)
qed

lemma kick_remove_emits:
  assumes k: "kick_remove env good bad co d = Inr c'" and d: "emits c d" and co: "co = (m_ownerGUID c = bad)"
  shows "emits (spec_kick good bad c) c'"
proof -
  have "emits (spec_kick good bad c) (spec_kick good bad d)"
    using d by (rule emits_image) (simp add: spec_kick_def Let_def)
  moreover have "emits (spec_kick good bad d) c'"
    using k unfolding co emits_eqs(4) [OF d, symmetric]
    by (auto simp: kick_remove_def spec_kick_def Let_def dest!: make_owner_emits_after split: if_splits)
  ultimately show ?thesis by (rule emits_trans)
qed

lemma notify_emits:
  "(if b then tell_all env mk c else Inr c) = Inr d \<Longrightarrow> emits c d"
  by (auto dest: emits_tell split: if_splits)

lemma KickOrBan_emits:
  assumes k: "KickOrBan env good badname ban c = Inr c'"
  shows "emits (spec_do env (if ban then ReqBan good badname else ReqKick good badname) c) c'"
proof (cases "FindPlayerByName env badname")
  case None
  with k show ?thesis
    by (auto simp: KickOrBan_def Let_def with_target_def dest: emits_tell split: if_splits)
next
  case (Some bad)
  let ?b = "cp_guid bad" and ?notify = "\<not> (IsGMAccount (sec_of env good) \<and> cfg_silent_gm_join env)"
  have refused: "emits c c'" if "\<not> may_kick env good ?b c"
    using that k Some
    by (auto simp: KickOrBan_def Let_def may_kick_def may_moderate_def dest: emits_tell split: if_splits)
  have kicked: "emits (spec_kick good ?b (if ban then spec_ban ?b c else c)) c'" if m: "may_kick env good ?b c"
  proof (cases "ban \<and> \<not> IsBanned ?b c")
    case True
    let ?c = "spec_ban ?b c"
    from True m Some have "KickOrBan env good badname ban c =
        rbind (if ?notify then tell_all env (MakePlayerBanned (UpdateChannelInDB ?c) ?b good) (UpdateChannelInDB ?c)
          else Inr (UpdateChannelInDB ?c)) (kick_remove env good ?b (m_ownerGUID c = ?b))"
      by (auto simp: KickOrBan_def Let_def may_kick_def may_moderate_def spec_ban_def)
    with k obtain d where "(if ?notify then tell_all env (MakePlayerBanned (UpdateChannelInDB ?c) ?b good)
          (UpdateChannelInDB ?c) else Inr (UpdateChannelInDB ?c)) = Inr d"
      and rest: "kick_remove env good ?b (m_ownerGUID c = ?b) d = Inr c'"
      by (auto elim: rbind_InrE)
    then have "emits (UpdateChannelInDB ?c) d" by (blast dest: notify_emits)
    with emits_Send(4) have "emits ?c d" by (rule emits_trans)
    from kick_remove_emits [OF rest this] True show ?thesis by (simp add: spec_ban_def)
  next
    case False
    with m Some have "KickOrBan env good badname ban c =
        rbind (if ?notify then tell_all env (MakePlayerKicked c ?b good) c else Inr c)
          (kick_remove env good ?b (m_ownerGUID c = ?b))"
      by (auto simp: KickOrBan_def Let_def may_kick_def may_moderate_def)
    with k obtain d where "(if ?notify then tell_all env (MakePlayerKicked c ?b good) c else Inr c) = Inr d"
      and rest: "kick_remove env good ?b (m_ownerGUID c = ?b) d = Inr c'"
      by (auto elim: rbind_InrE)
    then have "emits c d" by (blast dest: notify_emits)
    from kick_remove_emits [OF rest this] False show ?thesis by (simp add: spec_ban_def)
  qed
  from refused kicked Some show ?thesis by (auto simp: with_target_def)
qed

lemma UnBan_emits:
  assumes "UnBan env good badname c = Inr c'"
  shows "emits (spec_do env (ReqUnBan good badname) c) c'"
proof -
  have absent: "\<not> IsBanned g c \<Longrightarrow> c\<lparr>banned := ss_erase g (banned c)\<rparr> = c" for g
    by (cases c) (auto simp: IsBanned_def ss_erase_def intro!: filter_True)
  show ?thesis using assms
    by (auto simp: UnBan_def Let_def may_moderate_def with_target_def absent elim!: rbind_InrE
        dest!: emits_tell split: if_splits option.splits)
qed

lemma chan_Password_emits:
  "chan_Password env p pass c = Inr c' \<Longrightarrow> emits (spec_do env (ReqPassword p pass) c) c'"
  by (auto simp: chan_Password_def Let_def may_moderate_def elim!: rbind_InrE dest!: emits_tell split: if_splits)

lemma chan_Announce_emits:
  "chan_Announce env p c = Inr c' \<Longrightarrow> emits (spec_do env (ReqAnnounce p) c) c'"
  by (auto simp: chan_Announce_def Let_def may_moderate_def elim!: rbind_InrE dest!: emits_tell split: if_splits)

lemma touch_on [simp]: "IsOn p c \<Longrightarrow> member_touch p c = c"
  by (cases c) (auto simp: member_touch_def IsOn_def sm_insert_def)

lemma SetModerator_emits: "SetModerator env p st c = Inr c' \<Longrightarrow> IsOn p c \<Longrightarrow> emits (spec_mode p True st c) c'"
  and SetMute_emits: "SetMute env p st c = Inr c' \<Longrightarrow> IsOn p c \<Longrightarrow> emits (spec_mode p False st c) c'"
  by (auto simp: SetModerator_def SetMute_def spec_mode_def Let_def dest: emits_tell split: if_splits)

lemma SetMode_emits:
  assumes "SetMode env p n md st c = Inr c'"
  shows "emits (with_target env n (\<lambda>t. may_set_mode env p t md c) (\<lambda>t. spec_mode (cp_guid t) md st) c) c'"
proof (cases "FindPlayerByName env n")
  case None
  with assms show ?thesis
    by (auto simp: SetMode_def with_target_def dest: emits_tell split: if_splits option.splits)
next
  case (Some t)
  have "\<not> may_set_mode env p t md c \<Longrightarrow> emits c c'"
    using assms Some
    by (auto simp: SetMode_def may_set_mode_def may_moderate_def sec_of_def dest: emits_tell
        split: if_splits option.splits)
  moreover have "may_set_mode env p t md c \<Longrightarrow> emits (spec_mode (cp_guid t) md st c) c'"
    using assms Some
    by (auto simp: SetMode_def may_set_mode_def may_moderate_def sec_of_def
        dest: SetModerator_emits SetMute_emits emits_tell split: if_splits option.splits)
  ultimately show ?thesis using Some by (simp add: with_target_def)
qed

lemma SetOwner_name_emits:
  assumes "SetOwner_name env p n c = Inr c'"
  shows "emits (spec_do env (ReqSetOwner p n) c) c'"
proof (cases "FindPlayerByName env n")
  case None
  with assms show ?thesis
    by (auto simp: SetOwner_name_def with_target_def dest: emits_tell split: if_splits option.splits)
next
  case (Some t)
  then show ?thesis using assms
    by (auto simp: SetOwner_name_def may_give_def with_target_def
        dest: make_owner_emits emits_tell split: if_splits option.splits)
qed

lemma questions_emit:
  "SendWhoOwner env p c = Inr c' \<Longrightarrow> emits c c'" "chan_List env player c = Inr c' \<Longrightarrow> emits c c'"
  "Say env p what lang c = Inr c' \<Longrightarrow> emits c c'"
  by (auto simp: SendWhoOwner_def chan_List_def Say_def Let_def elim!: rbind_InrE
      dest!: emits_tell split: if_splits option.splits)

lemma chan_Invite_emits:
  assumes "chan_Invite env p n c = Inr c'"
  shows "emits c c'"
proof -
  have after: "emits c c'" if "tell env g mk c = Inr d" "tell env p mk' d = Inr c'" for g mk mk' d
    using emits_trans [OF emits_tell(1) emits_tell(1)] that .
  from assms show ?thesis unfolding chan_Invite_def
    by (auto dest: emits_tell elim!: rbind_InrE split: if_splits option.splits intro: after)
qed

theorem chan_do_emits:
  "chan_do env r c = Inr c' \<Longrightarrow> emits (spec_do env r c) c'"
  using KickOrBan_emits [of env _ _ True c c'] KickOrBan_emits [of env _ _ False c c']
    SetMode_emits [of env _ _ _ _ c c']
  by (cases r)
    (simp_all add: chan_Join_emits [simplified] chan_Leave_emits [simplified] UnBan_emits [simplified]
      chan_Password_emits [simplified] chan_Announce_emits [simplified] SetOwner_name_emits [simplified]
      questions_emit chan_Invite_emits)

end
