(* ===== verification/Channel_Invariant.thy ===== *)
theory Channel_Invariant
  imports Channel_Spec
begin

text \<open>
  What holds of a channel through any sequence of ordinary requests: the facts on member
  flags and on the owner, and their preservation by the abstract steps.
\<close>

section \<open>Member flags\<close>

lemma flag_bits:
  "IsOwner i \<longleftrightarrow> bit (pi_flags i) 0" "IsModerator i \<longleftrightarrow> bit (pi_flags i) 1"
  "IsMuted i \<longleftrightarrow> bit (pi_flags i) 3"
  using and_push_bit_1 [of "pi_flags i" 0] and_push_bit_1 [of "pi_flags i" 1]
    and_push_bit_1 [of "pi_flags i" 3]
  by (simp_all add: IsOwner_def IsModerator_def IsMuted_def MEMBER_FLAG_OWNER_def
      MEMBER_FLAG_MODERATOR_def MEMBER_FLAG_MUTED_def push_bit_eq_mult)

lemma info_flags [simp]:
  "IsOwner (info_SetOwner b i) = b" "IsModerator (info_SetOwner b i) = IsModerator i"
  "IsMuted (info_SetOwner b i) = IsMuted i"
  "IsOwner (info_SetModerator b i) = IsOwner i" "IsModerator (info_SetModerator b i) = b"
  "IsMuted (info_SetModerator b i) = IsMuted i"
  "IsOwner (info_SetMuted b i) = IsOwner i" "IsModerator (info_SetMuted b i) = IsModerator i"
  "IsMuted (info_SetMuted b i) = b"
  unfolding flag_bits
  by (simp_all add: info_SetOwner_def info_SetModerator_def info_SetMuted_def MEMBER_FLAG_OWNER_def
      MEMBER_FLAG_MODERATOR_def MEMBER_FLAG_MUTED_def bit_or_iff bit_and_iff bit_not_iff)

lemma info_player [simp]:
  "pi_player (info_SetOwner b i) = pi_player i" "pi_player (info_SetModerator b i) = pi_player i"
  "pi_player (info_SetMuted b i) = pi_player i"
  by (simp_all add: info_SetOwner_def info_SetModerator_def info_SetMuted_def)

lemma no_flags [simp]: "\<not> IsOwner \<lparr>pi_player = p, pi_flags = MEMBER_FLAG_NONE\<rparr>"
  by (simp add: IsOwner_def MEMBER_FLAG_NONE_def)

section \<open>Members\<close>

lemma IsOn_member: "IsOn p c \<longleftrightarrow> sm_find (players c) p = Some (member p c)"
  by (auto simp: IsOn_def member_def sm_at_def split: option.splits)

lemma member_upd_find:
  "sm_inv (players c) \<Longrightarrow> sm_find (players (member_upd p f c)) k =
     (if k = p then Some (f (member p c)) else sm_find (players c) k)"
  by (simp add: member_upd_def)

lemma member_upd_fields [simp]:
  "banned (member_upd p f c) = banned c" "m_ownerGUID (member_upd p f c) = m_ownerGUID c"
  "m_ownership (member_upd p f c) = m_ownership c" "IsConstant (member_upd p f c) = IsConstant c"
  "m_name (member_upd p f c) = m_name c" "m_password (member_upd p f c) = m_password c"
  "m_announce (member_upd p f c) = m_announce c" "chan_out (member_upd p f c) = chan_out c"
  "players (member_upd p f c) \<noteq> []"
  by (simp_all add: member_upd_def IsConstant_def)

lemma member_upd_inv [simp]: "sm_inv (players c) \<Longrightarrow> sm_inv (players (member_upd p f c))"
  by (simp add: member_upd_def)

section \<open>The invariant\<close>

text \<open>
  \<open>base_inv\<close>: every entry is a real player's, who is not banned, and only the channel's owner,
  who is a moderator, has the owner flag. \<open>owner_inv\<close>: a custom channel that hands out
  ownership has an owner among its members whenever it has members.
\<close>

definition member_ok :: "channel \<Rightarrow> u64 \<Rightarrow> PlayerInfo \<Rightarrow> bool" where
  "member_ok c k i \<longleftrightarrow> pi_player i = k \<and> k \<noteq> 0 \<and> \<not> IsBanned k c \<and>
     (IsOwner i \<longrightarrow> k = m_ownerGUID c \<and> IsModerator i)"

definition base_inv :: "channel \<Rightarrow> bool" where
  "base_inv c \<longleftrightarrow> sm_inv (players c) \<and> sorted_wrt (<) (banned c) \<and>
     (\<forall>k i. sm_find (players c) k = Some i \<longrightarrow> member_ok c k i)"

definition has_owner :: "channel \<Rightarrow> bool" where
  "has_owner c \<longleftrightarrow> IsOn (m_ownerGUID c) c \<and> IsOwner (member (m_ownerGUID c) c)"

definition owner_inv :: "channel \<Rightarrow> bool" where
  "owner_inv c \<longleftrightarrow> (\<not> IsConstant c \<and> m_ownership c \<longrightarrow>
     (if players c = [] then m_ownerGUID c = 0 else has_owner c))"

definition chan_inv :: "channel \<Rightarrow> bool" where
  "chan_inv c \<longleftrightarrow> base_inv c \<and> owner_inv c"

lemmas inv_defs = base_inv_def owner_inv_def chan_inv_def

lemma base_invD:
  assumes "base_inv c"
  shows "sm_inv (players c)" "IsOn p c \<Longrightarrow> member_ok c p (member p c)"
  using assms by (auto simp: base_inv_def IsOn_member)

lemma base_inv_find: "base_inv c \<Longrightarrow> sm_find (players c) k = Some i \<Longrightarrow> member_ok c k i"
  by (simp add: base_inv_def)

lemma base_inv_member:
  assumes "base_inv c" and "IsOn p c" and "member_ok c p (f (member p c))"
  shows "base_inv (member_upd p f c)"
  using assms by (auto simp: base_inv_def member_upd_find member_ok_def IsBanned_def)

lemma member_member_upd: "sm_inv (players c) \<Longrightarrow> member k (member_upd p f c) = (if k = p then f (member p c) else member k c)"
  and IsOn_member_upd: "sm_inv (players c) \<Longrightarrow> IsOn k (member_upd p f c) \<longleftrightarrow> k = p \<or> IsOn k c"
  by (simp_all add: member_def sm_at_def member_upd_find IsOn_def)

lemma member_guid [simp]: "member k (c\<lparr>m_ownerGUID := g\<rparr>) = member k c" "IsOn k (c\<lparr>m_ownerGUID := g\<rparr>) = IsOn k c"
  "IsBanned k (c\<lparr>m_ownerGUID := g\<rparr>) = IsBanned k c" "IsConstant (c\<lparr>m_ownerGUID := g\<rparr>) = IsConstant c"
  by (simp_all add: member_def IsOn_def IsBanned_def IsConstant_def)

lemma base_inv_no_owner:
  assumes inv: "base_inv c" and no: "\<And>k i. sm_find (players c) k = Some i \<Longrightarrow> \<not> IsOwner i"
  shows "base_inv (c\<lparr>m_ownerGUID := g\<rparr>)"
proof -
  have "member_ok (c\<lparr>m_ownerGUID := g\<rparr>) k i" if "sm_find (players c) k = Some i" for k i
    using base_inv_find [OF inv that] no [OF that] by (simp add: member_ok_def)
  then show ?thesis using inv by (simp add: base_inv_def)
qed

definition drop_owner :: "channel \<Rightarrow> channel" where
  "drop_owner c = (if m_ownerGUID c \<noteq> 0 \<and> IsOn (m_ownerGUID c) c
     then member_upd (m_ownerGUID c) (info_SetOwner False) c else c)"

lemma drop_owner_inv:
  assumes inv: "base_inv c"
  shows "base_inv (drop_owner c)" and "sm_find (players (drop_owner c)) k = Some i \<Longrightarrow> \<not> IsOwner i"
    and "IsOn p (drop_owner c) = IsOn p c"
proof -
  have "base_inv (member_upd p (info_SetOwner False) c)" if "IsOn p c" for p
    using base_invD(2) [OF inv that] by (intro base_inv_member [OF inv that]) (simp add: member_ok_def)
  then show "base_inv (drop_owner c)" using inv by (simp add: drop_owner_def)
  show "IsOn p (drop_owner c) = IsOn p c"
    using base_invD(1) [OF inv] by (auto simp: drop_owner_def IsOn_member_upd)
  assume i: "sm_find (players (drop_owner c)) k = Some i"
  show "\<not> IsOwner i"
  proof (cases "m_ownerGUID c \<noteq> 0 \<and> IsOn (m_ownerGUID c) c")
    case True
    with i have "sm_find (players (member_upd (m_ownerGUID c) (info_SetOwner False) c)) k = Some i"
      by (simp add: drop_owner_def)
    then have "k \<noteq> m_ownerGUID c \<Longrightarrow> sm_find (players c) k = Some i"
      and "k = m_ownerGUID c \<Longrightarrow> i = info_SetOwner False (member k c)"
      using base_invD(1) [OF inv] by (simp_all add: member_upd_find)
    with base_inv_find [OF inv, of k i] show ?thesis
      unfolding member_ok_def by (metis info_flags(1))
  next
    case False
    with i have c: "sm_find (players c) k = Some i" by (simp add: drop_owner_def split: if_splits)
    from base_inv_find [OF inv this] False c show ?thesis by (auto simp: member_ok_def IsOn_def)
  qed
qed

lemma spec_SetOwner_base:
  assumes inv: "base_inv c" and on: "IsOn g c"
  shows "base_inv (spec_SetOwner g c)" and "has_owner (spec_SetOwner g c)"
proof -
  have g: "g \<noteq> 0" using base_invD(2) [OF inv on] by (simp add: member_ok_def)
  let ?c = "(drop_owner c)\<lparr>m_ownerGUID := g\<rparr>"
  have base: "base_inv ?c"
    using drop_owner_inv [OF inv] by (intro base_inv_no_owner)
  have on': "IsOn g ?c" using on drop_owner_inv(3) [OF inv] by simp
  let ?d = "member_upd g (info_SetModerator True) ?c"
  have "member_ok ?c g (info_SetModerator True (member g ?c))"
    using base_invD(2) [OF base on'] unfolding member_ok_def by simp
  then have d: "base_inv ?d" by (rule base_inv_member [OF base on'])
  have d': "IsOn g ?d" "IsModerator (member g ?d)"
    using base_invD(1) [OF base] by (simp_all add: IsOn_member_upd member_member_upd)
  have eq: "spec_SetOwner g c = member_upd g (info_SetOwner True) ?d"
    using g by (simp add: spec_SetOwner_def Let_def drop_owner_def)
  have "member_ok ?d g (info_SetOwner True (member g ?d))"
    using base_invD(2) [OF d d'(1)] d' by (simp add: member_ok_def)
  then show "base_inv (spec_SetOwner g c)" unfolding eq by (rule base_inv_member [OF d d'(1)])
  show "has_owner (spec_SetOwner g c)"
    unfolding eq has_owner_def using base_invD(1) [OF d]
    by (simp add: IsOn_member_upd member_member_upd)
qed

lemma spec_SetOwner_fields [simp]:
  "banned (spec_SetOwner g c) = banned c" "m_ownership (spec_SetOwner g c) = m_ownership c"
  "IsConstant (spec_SetOwner g c) = IsConstant c" "m_name (spec_SetOwner g c) = m_name c"
  "m_ownerGUID (spec_SetOwner g c) = g"
  "banned (spec_make_owner g c) = banned c" "m_ownership (spec_make_owner g c) = m_ownership c"
  "IsConstant (spec_make_owner g c) = IsConstant c" "m_name (spec_make_owner g c) = m_name c"
  "m_ownerGUID (spec_make_owner g c) = g"
  by (simp_all add: spec_SetOwner_def spec_make_owner_def Let_def)

lemma has_owner_inv: "has_owner c \<Longrightarrow> owner_inv c"
  by (auto simp: owner_inv_def has_owner_def IsOn_def)

lemma spec_make_owner_inv:
  assumes "base_inv c" and "IsOn g c"
  shows "chan_inv (spec_make_owner g c)"
proof -
  let ?d = "member_upd g (info_SetModerator True) c"
  have "base_inv ?d" using assms base_invD(2) [OF assms]
    by (intro base_inv_member) (auto simp: member_ok_def)
  moreover have "IsOn g ?d" using base_invD(1) [OF assms(1)] by (simp add: IsOn_member_upd)
  ultimately show ?thesis unfolding chan_inv_def spec_make_owner_def
    by (blast intro: spec_SetOwner_base has_owner_inv)
qed

lemma base_inv_erase:
  assumes "base_inv c"
  shows "base_inv (c\<lparr>players := sm_erase p (players c)\<rparr>)"
  using assms by (auto simp: base_inv_def member_ok_def IsBanned_def)

lemma mode_inv:
  assumes inv: "chan_inv c" and on: "IsOn p c" and ok: "md \<longrightarrow> p \<noteq> m_ownerGUID c"
  shows "chan_inv (spec_mode p md st c)"
proof -
  have upd: "chan_inv (member_upd p f c)"
    if "member_ok c p (f (member p c))" "IsOwner (f (member p c)) = IsOwner (member p c)" for f
    using inv that base_inv_member [OF _ on, of f] base_invD(1) [of c] on
    by (auto simp: chan_inv_def owner_inv_def has_owner_def IsOn_member_upd member_member_upd
        split: if_splits) (auto simp: IsOn_def)
  from inv base_invD(2) [OF _ on] have m: "member_ok c p (member p c)" by (simp add: chan_inv_def)
  with ok have "md \<Longrightarrow> chan_inv (member_upd p (info_SetModerator st) c)"
    by (intro upd) (auto simp: member_ok_def)
  moreover from m have "chan_inv (member_upd p (info_SetMuted st) c)"
    by (intro upd) (auto simp: member_ok_def)
  ultimately show ?thesis using inv by (simp add: spec_mode_def)
qed

section \<open>The steps keep it\<close>

lemma chan_emit_inv [simp]:
  "member_ok (chan_emit es c) k i = member_ok c k i" "has_owner (chan_emit es c) = has_owner c"
  "chan_inv (chan_emit es c) = chan_inv c"
  by (simp_all add: inv_defs has_owner_def member_ok_def)

lemma emits_chan_inv: "emits c d \<Longrightarrow> chan_inv d = chan_inv c"
  by (auto simp: emits_def)

lemma owner_inv_cong:
  "players d = players c \<Longrightarrow> m_ownerGUID d = m_ownerGUID c \<Longrightarrow> m_ownership d = m_ownership c \<Longrightarrow>
     IsConstant d = IsConstant c \<Longrightarrow> owner_inv d = owner_inv c"
  unfolding owner_inv_def has_owner_def IsOn_def member_def by simp

lemma owner_inv_trivial: "IsConstant c \<or> \<not> m_ownership c \<Longrightarrow> owner_inv c"
  by (auto simp: owner_inv_def)

lemma IsConstant_players [simp]: "IsConstant (c\<lparr>players := m\<rparr>) = IsConstant c"
  by (simp add: IsConstant_def)

lemma enter_inv:
  assumes inv: "chan_inv c" and off: "\<not> IsOn p c" and nb: "\<not> IsBanned p c" and p: "p \<noteq> 0"
  shows "chan_inv (spec_enter p c)"
proof -
  let ?c = "c\<lparr>players := sm_set p \<lparr>pi_player = p, pi_flags = MEMBER_FLAG_NONE\<rparr> (players c)\<rparr>"
  from inv have base: "base_inv c" by (simp add: chan_inv_def)
  have b: "base_inv ?c"
    using base nb p by (auto simp: base_inv_def member_ok_def IsBanned_def)
  have on: "IsOn k ?c \<longleftrightarrow> k = p \<or> IsOn k c" for k using base_invD(1) [OF base] by (simp add: IsOn_def)
  have mem: "member k ?c = (if k = p then \<lparr>pi_player = p, pi_flags = MEMBER_FLAG_NONE\<rparr> else member k c)" for k
    using base_invD(1) [OF base] by (simp add: member_def sm_at_def)
  have cst: "IsConstant ?c = IsConstant c" by (simp add: IsConstant_def)
  show ?thesis
  proof (cases "\<not> IsConstant c \<and> m_ownerGUID c = 0 \<and> m_ownership c")
    case True
    let ?d = "spec_SetOwner p ?c"
    have d: "base_inv ?d" "has_owner ?d" "m_ownerGUID ?d = p" "IsOn p ?d"
      using spec_SetOwner_base [OF b, of p] on by (simp_all add: has_owner_def)
    have "base_inv (member_upd p (info_SetModerator True) ?d)"
      using d base_invD(2) [OF d(1,4)] by (intro base_inv_member) (auto simp: member_ok_def)
    moreover have "has_owner (member_upd p (info_SetModerator True) ?d)"
      using d base_invD(1) [OF d(1)] by (simp add: has_owner_def IsOn_member_upd member_member_upd)
    ultimately show ?thesis
      using True cst by (simp add: spec_enter_def Let_def chan_inv_def has_owner_inv)
  next
    case False
    have "owner_inv ?c"
    proof (cases "\<not> IsConstant c \<and> m_ownership c")
      case True
      with inv False have "has_owner c" by (auto simp: inv_defs split: if_splits)
      with off have "has_owner ?c" by (auto simp: has_owner_def on mem)
      then show ?thesis by (rule has_owner_inv)
    next
      case False
      then show ?thesis by (intro owner_inv_trivial) auto
    qed
    moreover have "spec_enter p c = ?c" using False by (auto simp: spec_enter_def Let_def)
    ultimately show ?thesis using b by (simp add: chan_inv_def)
  qed
qed

lemma first_player:
  assumes "base_inv c" and "players c \<noteq> []"
  shows "IsOn (pi_player (snd (hd (players c)))) c"
proof -
  obtain k i m where m: "players c = (k, i) # m" using assms(2) by (metis neq_Nil_conv surj_pair)
  then have "sm_find (players c) k = Some i" by simp
  with base_inv_find [OF assms(1) this] m show ?thesis by (simp add: member_ok_def IsOn_def)
qed

lemma owner_inv_erase:
  assumes inv: "chan_inv c" and p: "p \<noteq> m_ownerGUID c" and on: "IsOn p c"
  shows "owner_inv (c\<lparr>players := sm_erase p (players c)\<rparr>)"
proof (cases "\<not> IsConstant c \<and> m_ownership c")
  case True
  from on have "players c \<noteq> []" by (auto simp: IsOn_def)
  with inv True have "has_owner c" by (auto simp: inv_defs)
  with p have "has_owner (c\<lparr>players := sm_erase p (players c)\<rparr>)"
    by (simp add: has_owner_def IsOn_def member_def sm_at_def)
  then show ?thesis by (rule has_owner_inv)
next
  case False
  then show ?thesis by (intro owner_inv_trivial) auto
qed

lemma leave_inv:
  assumes inv: "chan_inv c" and on: "IsOn p c" and left: "players (spec_leave p c) \<noteq> []"
  shows "chan_inv (spec_leave p c)"
proof -
  let ?c = "c\<lparr>players := sm_erase p (players c)\<rparr>"
  from inv have base: "base_inv c" by (simp add: chan_inv_def)
  have b: "base_inv ?c" using base by (rule base_inv_erase)
  show ?thesis
  proof (cases "\<not> IsConstant c \<and> IsOwner (member p c) \<and> m_ownership c \<and> players ?c \<noteq> []")
    case True
    with spec_make_owner_inv [OF b first_player [OF b]] show ?thesis
      by (simp add: spec_leave_def IsConstant_def Let_def)
  next
    case False
    then have eq: "spec_leave p c = ?c" by (auto simp: spec_leave_def Let_def IsConstant_def)
    have "owner_inv ?c"
    proof (cases "IsConstant c \<or> \<not> m_ownership c")
      case True
      then show ?thesis by (intro owner_inv_trivial) simp
    next
      case own: False
      from on have "players c \<noteq> []" by (auto simp: IsOn_def)
      with own inv have "has_owner c" by (auto simp: inv_defs)
      moreover from own False left eq have "\<not> IsOwner (member p c)" by simp
      ultimately have "p \<noteq> m_ownerGUID c" by (auto simp: has_owner_def)
      with inv on show ?thesis by (intro owner_inv_erase)
    qed
    with b eq show ?thesis by (simp add: chan_inv_def)
  qed
qed

text \<open>
  Kicking out a member, who may just have been banned: \<open>c\<close> need not satisfy the invariant for
  him.
\<close>

lemma kick_inv:
  assumes inv: "chan_inv c" and on: "IsOn bad c" "IsOn good c" and ne: "bad \<noteq> good"
    and d: "d = c \<or> d = spec_ban bad c"
  shows "chan_inv (spec_kick good bad d)"
proof -
  let ?d = "d\<lparr>players := sm_erase bad (players d)\<rparr>"
  from inv have base: "base_inv c" by (simp add: chan_inv_def)
  from d have pl: "players d = players c" "m_ownerGUID d = m_ownerGUID c" "m_ownership d = m_ownership c"
      "IsConstant d = IsConstant c"
    by (auto simp: spec_ban_def IsConstant_def split: if_splits)
  have b: "base_inv ?d"
    using d base_inv_erase [OF base, of bad]
    by (auto simp: spec_ban_def base_inv_def member_ok_def IsBanned_def sorted_ss_insert split: if_splits)
  have good: "IsOn good ?d" using on ne by (simp add: pl IsOn_def)
  then have nonempty: "players ?d \<noteq> []" unfolding IsOn_def by (metis map_of.simps(1))
  show ?thesis
  proof (cases "m_ownerGUID d = bad \<and> m_ownership d")
    case True
    with nonempty spec_make_owner_inv [OF b good] show ?thesis by (simp add: spec_kick_def Let_def)
  next
    case False
    have "owner_inv ?d"
    proof (cases "IsConstant c \<or> \<not> m_ownership c")
      case True
      with pl show ?thesis by (intro owner_inv_trivial) simp
    next
      case own: False
      with False have "bad \<noteq> m_ownerGUID c" by (auto simp: pl)
      from owner_inv_erase [OF inv this on(1)] show ?thesis
        by (rule owner_inv_cong [THEN iffD2, rotated -1]) (simp_all add: pl)
    qed
    with b False show ?thesis by (auto simp: spec_kick_def Let_def chan_inv_def)
  qed
qed

text \<open>
  Ordinary requests: a player who joins has a GUID, and nobody kicks or bans himself.
\<close>

definition not_self :: "chan_env \<Rightarrow> u64 \<Rightarrow> u8 list \<Rightarrow> bool" where
  "not_self env p name = (case FindPlayerByName env name of None \<Rightarrow> True | Some t \<Rightarrow> cp_guid t \<noteq> p)"

fun ordinary :: "chan_env \<Rightarrow> chan_request \<Rightarrow> bool" where
  "ordinary env (ReqJoin p pass) = (p \<noteq> 0)"
| "ordinary env (ReqKick p name) = not_self env p name"
| "ordinary env (ReqBan p name) = not_self env p name"
| "ordinary env r = True"

lemma with_target_inv:
  assumes "chan_inv c" and "\<And>t. FindPlayerByName env n = Some t \<Longrightarrow> ok t \<Longrightarrow> chan_inv (f t c)"
  shows "chan_inv (with_target env n ok f c)"
  using assms by (auto simp: with_target_def split: option.splits)

lemma chan_inv_updates:
  assumes "chan_inv c"
  shows "chan_inv (c\<lparr>m_password := s\<rparr>)" "chan_inv (c\<lparr>m_announce := b\<rparr>)"
    "chan_inv (c\<lparr>banned := ss_erase g (banned c)\<rparr>)"
  using assms
  by (auto simp: inv_defs member_ok_def IsBanned_def has_owner_def IsOn_def member_def IsConstant_def
      ss_erase_def sorted_wrt_filter split: if_splits)

theorem spec_do_inv:
  assumes inv: "chan_inv c" and "ordinary env r" and live: "players (spec_do env r c) \<noteq> [] \<or> players c = []"
  shows "chan_inv (spec_do env r c)"
proof -
  have base: "base_inv c" using inv by (simp add: chan_inv_def)
  have kick: "chan_inv (with_target env n (\<lambda>t. may_kick env p (cp_guid t) c) f c)"
    if "not_self env p n" "\<And>t. f t c = spec_kick p (cp_guid t) c \<or> f t c = spec_kick p (cp_guid t) (spec_ban (cp_guid t) c)"
    for p n f
  proof (rule with_target_inv [OF inv])
    fix t assume t: "FindPlayerByName env n = Some t" "may_kick env p (cp_guid t) c"
    then have "cp_guid t \<noteq> p" "IsOn (cp_guid t) c" "IsOn p c"
      using that(1) by (simp_all add: not_self_def may_kick_def may_moderate_def)
    with kick_inv [OF inv, of "cp_guid t" p] that(2) [of t] show "chan_inv (f t c)" by metis
  qed
  have mode: "chan_inv (with_target env n (\<lambda>t. may_set_mode env p t md c) (\<lambda>t. spec_mode (cp_guid t) md st) c)"
    for n p md st
    using inv by (intro with_target_inv mode_inv) (auto simp: may_set_mode_def)
  have give: "chan_inv (with_target env n (\<lambda>t. may_give env p t c) (\<lambda>t. spec_make_owner (cp_guid t)) c)" for n p
    using inv base by (intro with_target_inv spec_make_owner_inv) (auto simp: may_give_def)
  have unban: "chan_inv (with_target env n (\<lambda>t. may_moderate env p c)
      (\<lambda>t c. c\<lparr>banned := ss_erase (cp_guid t) (banned c)\<rparr>) c)" for n p
    using inv chan_inv_updates(3) [OF inv] by (intro with_target_inv)
  show ?thesis
  proof (cases r)
    case (ReqJoin p pass)
    with assms enter_inv [OF inv, of p] show ?thesis by (auto simp: may_join_def)
  next
    case (ReqLeave p send)
    with assms leave_inv [OF inv, of p] show ?thesis by (auto simp: IsOn_def)
  next
    case (ReqKick p n)
    with assms kick [of p n "\<lambda>t. spec_kick p (cp_guid t)"] show ?thesis by simp
  next
    case (ReqBan p n)
    with assms kick [of p n "\<lambda>t c. spec_kick p (cp_guid t) (spec_ban (cp_guid t) c)"] show ?thesis by simp
  qed (use inv mode give unban chan_inv_updates [OF inv] in simp_all)
qed

section \<open>Runs\<close>

text \<open>
  \<open>chan_run c rs d\<close>: the requests \<open>rs\<close>, each in the environment of its moment, lead from \<open>c\<close> to \<open>d\<close>.
  A custom channel that becomes empty is deleted by \<^verbatim>\<open>ChannelMgr::LeftChannel\<close>, so no step
  starts from a channel just emptied.
\<close>

inductive chan_run :: "channel \<Rightarrow> (chan_env \<times> chan_request) list \<Rightarrow> channel \<Rightarrow> bool" where
  run_start: "chan_run c [] c"
| run_step: "chan_run c rs d \<Longrightarrow> ordinary env r \<Longrightarrow> chan_do env r d = Inr e \<Longrightarrow>
    players e \<noteq> [] \<or> players d = [] \<Longrightarrow> chan_run c (rs @ [(env, r)]) e"

lemma chan_do_inv:
  assumes inv: "chan_inv c" and "ordinary env r" and d: "chan_do env r c = Inr d"
    and "players d \<noteq> [] \<or> players c = []"
  shows "chan_inv d"
proof -
  from chan_do_emits [OF d] have e: "emits (spec_do env r c) d" .
  with assms spec_do_inv show ?thesis unfolding emits_chan_inv [OF e] by (simp add: emits_eqs [OF e])
qed

lemma chan_run_inv: "chan_run c rs d \<Longrightarrow> chan_inv c \<Longrightarrow> chan_inv d"
  by (induction rule: chan_run.induct) (blast intro: chan_do_inv)+

lemma sorted_load_banned: "sorted_wrt (<) bs \<Longrightarrow> sorted_wrt (<) (load_banned txt bs)"
proof -
  have "sorted_wrt (<) (foldl (\<lambda>bs tok. let g = (word_of_int (atol tok) :: u64) in
      if g \<noteq> 0 then ss_insert g bs else bs) bs ts)" if "sorted_wrt (<) bs" for ts
    using that by (induction ts arbitrary: bs) (simp_all add: Let_def sorted_ss_insert)
  then show "sorted_wrt (<) bs \<Longrightarrow> ?thesis" unfolding load_banned_def by simp
qed

lemma chan_new_members: "players (chan_new env name channel_id team) = []" "m_ownerGUID (chan_new env name channel_id team) = 0"
  by (simp_all add: chan_new_def Let_def chan_emit_def split: option.split)

lemma chan_new_inv: "chan_inv (chan_new env name channel_id team)"
proof -
  have "sorted_wrt (<) (banned (chan_new env name channel_id team))"
    by (simp add: chan_new_def Let_def chan_emit_def sorted_load_banned split: option.split)
  with chan_new_members [of env name channel_id team] show ?thesis by (simp add: inv_defs)
qed

end
