(* ===== verification/Channel_Packets.thy ===== *)
theory Channel_Packets
  imports Channel_Spec
begin

text \<open>
  The packets of \<open>Channel\<close> in closed form, for names and texts short enough for the assertion in
  \<open>append_bytes\<close> (\<open>short\<close>), and the consequence that no request then runs into it.
\<close>

definition short :: "u8 list \<Rightarrow> bool" where
  "short s \<longleftrightarrow> length s \<le> 1000000"

definition notice :: "channel \<Rightarrow> u8 \<Rightarrow> u8 list \<Rightarrow> world_packet" where
  "notice c t body = wp_with SMSG_CHANNEL_NOTIFY (t # m_name c @ 0 # body)"

lemma notice_bytes [simp]:
  "m_opcode (notice c t body) = SMSG_CHANNEL_NOTIFY"
  "storage (wp_buf (notice c t body)) = t # m_name c @ 0 # body"
  by (simp_all add: notice_def)

lemma MakeNotifyPacket_notice: "short (m_name c) \<Longrightarrow> MakeNotifyPacket c t data = Inr (notice c t [])"
  by (simp add: MakeNotifyPacket_def wp_Initialize_with wp_writes notice_def short_def)

lemma notice_put_word:
  "short (m_name c) \<Longrightarrow> length body + LENGTH('a) div 8 \<le> 1000100 \<Longrightarrow>
     wp_put (append_word (w :: 'a::len word)) (notice c t body) = Inr (notice c t (body @ le_bytes w))"
  by (simp add: notice_def wp_writes short_def)

lemma notice_put_string:
  "short (m_name c) \<Longrightarrow> length body + length s \<le> 1000100 \<Longrightarrow>
     wp_put (put_string s) (notice c t body) = Inr (notice c t (body @ s @ [0]))"
  by (simp add: notice_def wp_writes short_def)

lemmas Make_defs =
  MakeWrongPassword_def MakeNotMember_def MakeNotModerator_def MakeNotOwner_def MakeMuted_def
  MakeBanned_def MakeInviteWrongFaction_def MakeWrongFaction_def MakeInvalidName_def
  MakeNotModerated_def MakeThrottled_def MakeNotInArea_def MakeNotInLfg_def MakeJoined_def
  MakeLeft_def MakePasswordChanged_def MakeOwnerChanged_def MakeAnnouncementsOn_def
  MakeAnnouncementsOff_def MakePlayerAlreadyMember_def MakeInvite_def MakeVoiceOn_def
  MakeVoiceOff_def MakePlayerKicked_def MakePlayerBanned_def MakePlayerUnbanned_def
  MakePlayerNotFound_def MakePlayerNotBanned_def MakePlayerInvited_def MakePlayerInviteBanned_def
  MakeYouJoined_def MakeYouLeft_def MakeChannelOwner_def MakeModeChange_def

lemmas Make_writes = Make_defs Let_def MakeNotifyPacket_notice notice_put_word notice_put_string

section \<open>Every packet fits\<close>

text \<open>The operations that only send do not change the channel's name or members.\<close>

lemma Send_fields [simp]:
  "m_name (SendToAll env d p c) = m_name c" "m_name (SendToOne env d p c) = m_name c"
  "m_name (SendToAllButOne env d p c) = m_name c" "m_name (UpdateChannelInDB c) = m_name c"
  "m_name (UpdateChannelUseageInDB c) = m_name c"
  using emits_Send(1,2,3) [of c env d p] emits_Send(4,5) [of c] by (auto simp: emits_def)

lemma member_upd_name [simp]: "m_name (member_upd p f c) = m_name c" "m_name (member_touch p c) = m_name c"
  by (simp_all add: member_upd_def member_touch_def)

text \<open>\<open>total f\<close>: the packet function succeeds on a fresh packet.\<close>

lemma tell_ok:
  "mk wp_new = Inr d \<Longrightarrow> tell env p mk c = Inr (SendToOne env d p c)"
  "mk wp_new = Inr d \<Longrightarrow> tell_all env mk c = Inr (SendToAll env d 0 c)"
  by (simp_all add: tell_def tell_all_def)

lemma Make_total:
  assumes "short (m_name c)"
  shows "\<exists>d. MakeNotMember c data = Inr d" "\<exists>d. MakeNotModerator c data = Inr d"
    "\<exists>d. MakeNotOwner c data = Inr d" "\<exists>d. MakeMuted c data = Inr d" "\<exists>d. MakeBanned c data = Inr d"
    "\<exists>d. MakeWrongPassword c data = Inr d" "\<exists>d. MakeInviteWrongFaction c data = Inr d"
    "\<exists>d. MakeNotInLfg c data = Inr d" "\<exists>d. MakeJoined c g data = Inr d" "\<exists>d. MakeLeft c g data = Inr d"
    "\<exists>d. MakePasswordChanged c g data = Inr d" "\<exists>d. MakeOwnerChanged c g data = Inr d"
    "\<exists>d. MakeAnnouncementsOn c g data = Inr d" "\<exists>d. MakeAnnouncementsOff c g data = Inr d"
    "\<exists>d. MakePlayerAlreadyMember c g data = Inr d" "\<exists>d. MakeInvite c g data = Inr d"
    "\<exists>d. MakePlayerKicked c g h data = Inr d" "\<exists>d. MakePlayerBanned c g h data = Inr d"
    "\<exists>d. MakePlayerUnbanned c g h data = Inr d" "\<exists>d. MakeYouJoined c data = Inr d"
    "\<exists>d. MakeYouLeft c data = Inr d" "\<exists>d. MakeModeChange c g fl data = Inr d"
  using assms by (simp_all add: Make_writes)

lemma Make_name_total:
  assumes "short (m_name c)" and "short s"
  shows "\<exists>d. MakePlayerNotFound c s data = Inr d" "\<exists>d. MakePlayerInvited c s data = Inr d"
    "\<exists>d. MakePlayerInviteBanned c s data = Inr d"
  using assms by (simp_all add: Make_writes short_def)

lemma rbind_ex:
  "\<exists>x. r = Inr x \<Longrightarrow> (\<And>x. r = Inr x \<Longrightarrow> \<exists>y. f x = Inr y) \<Longrightarrow> \<exists>y. rbind r f = Inr y"
  by (cases r) auto

lemma tell_ex:
  "\<exists>d. mk wp_new = Inr d \<Longrightarrow> \<exists>d. tell env p mk c = Inr d"
  "\<exists>d. mk wp_new = Inr d \<Longrightarrow> \<exists>d. tell_all env mk c = Inr d"
  by (auto simp: tell_def tell_all_def)

lemma emits_name: "emits c d \<Longrightarrow> m_name d = m_name c"
  by (auto simp: emits_def)

lemma tell_name: "tell env p mk c = Inr d \<Longrightarrow> m_name d = m_name c" "tell_all env mk c = Inr d \<Longrightarrow> m_name d = m_name c"
  by (auto dest: emits_tell emits_name)

lemma SetOwner_ex:
  assumes "short (m_name c)"
  shows "\<exists>d. SetOwner env g ex c = Inr d"
proof (cases "g = 0")
  case True
  then show ?thesis by (simp add: SetOwner_def Let_def)
next
  case False
  then show ?thesis using assms unfolding SetOwner_def Let_def
    by (auto intro!: rbind_ex Make_total)
qed

lemma Notify_ex:
  "short (m_name c) \<Longrightarrow> \<exists>d. JoinNotify env p c = Inr d" "short (m_name c) \<Longrightarrow> \<exists>d. LeaveNotify env p c = Inr d"
  by (simp_all add: JoinNotify_def LeaveNotify_def Let_def wp_opcode_with wp_writes short_def)

lemmas total_intros = rbind_ex tell_ex Make_total Make_name_total SetOwner_ex Notify_ex

lemma chan_Join_ex:
  assumes n: "short (m_name c)"
  shows "\<exists>d. chan_Join env p pass c = Inr d"
proof -
  have enter: "\<exists>d. join_enter env p c = Inr d" if "short (m_name c)" for c
    unfolding join_enter_def Let_def using that
    by (auto intro!: total_intros dest!: tell_name JoinNotify_emits emits_name)
  have ann: "\<exists>d. join_announce env p c = Inr d \<and> m_name d = m_name c" if sh: "short (m_name c)" for c
  proof -
    obtain d where d: "tell_all env (MakeJoined c p) c = Inr d"
      using tell_ex(2) [of "MakeJoined c p", OF Make_total(9) [OF sh]] by blast
    from d tell_name(2) [OF d] show ?thesis by (simp add: join_announce_def)
  qed
  have "\<exists>d. rbind (join_announce env p c') (join_enter env p) = Inr d" if "m_name c' = m_name c" for c'
    using ann [of c'] enter n that by fastforce
  with n show ?thesis unfolding chan_Join_def
    by (auto intro!: tell_ex Make_total split: option.split)
qed

lemma chan_Leave_ex:
  assumes n: "short (m_name c)"
  shows "\<exists>d. chan_Leave env p send c = Inr d"
proof -
  have own: "\<exists>d. leave_owner env b c = Inr d" if "short (m_name c)" for b c
    using that by (auto simp: leave_owner_def Let_def intro!: SetOwner_ex)
  have ann: "\<exists>d. leave_announce env p c = Inr d" if "short (m_name c)" for c
    using that by (auto simp: leave_announce_def intro!: total_intros)
  have bye: "\<exists>d. leave_goodbye env p c = Inr d" if "short (m_name c)" for c
    using that unfolding leave_goodbye_def by (auto intro!: total_intros)
  have names: "leave_announce env p c = Inr d \<Longrightarrow> m_name d = m_name c"
    "leave_goodbye env p c = Inr d \<Longrightarrow> m_name d = m_name c"
    "LeaveNotify env p c = Inr d \<Longrightarrow> m_name d = m_name c" for c d
    by (auto simp: leave_announce_def dest: tell_name leave_goodbye_emits LeaveNotify_emits emits_name
        split: if_splits)
  show ?thesis unfolding chan_Leave_def Let_def using n
    by (auto intro!: total_intros own ann bye dest!: names)
qed

lemma short_c_str: "short s \<Longrightarrow> short (c_str s)"
  using le_trans [OF length_takeWhile_le] unfolding short_def c_str_def by blast

lemma KickOrBan_ex:
  assumes n: "short (m_name c)" and s: "short badname"
  shows "\<exists>d. KickOrBan env good badname ban c = Inr d"
proof -
  have rem: "\<exists>e. kick_remove env good bad b d = Inr e" if "m_name d = m_name c" for good bad b d
    using that n by (auto simp: kick_remove_def Let_def intro!: SetOwner_ex)
  have "short (c_str badname)" using s by (rule short_c_str)
  with n show ?thesis unfolding KickOrBan_def Let_def
    by (auto intro!: total_intros rem dest!: tell_name split: option.split)
qed

lemma moderation_ex:
  assumes n: "short (m_name c)" and s: "short name"
  shows "\<exists>d. UnBan env p name c = Inr d" "\<exists>d. chan_Password env p pass c = Inr d"
    "\<exists>d. chan_Announce env p c = Inr d" "\<exists>d. SetMode env p name md st c = Inr d"
    "\<exists>d. SetOwner_name env p name c = Inr d"
proof -
  note s' = short_c_str [OF s]
  show "\<exists>d. UnBan env p name c = Inr d"
    unfolding UnBan_def Let_def using n s' by (auto intro!: total_intros split: option.split)
  show "\<exists>d. chan_Password env p pass c = Inr d"
    unfolding chan_Password_def Let_def using n by (auto intro!: total_intros)
  show "\<exists>d. chan_Announce env p c = Inr d"
    unfolding chan_Announce_def Let_def using n by (auto intro!: total_intros)
  have "\<exists>d. SetModerator env g st c = Inr d" "\<exists>d. SetMute env g st c = Inr d" for g
    unfolding SetModerator_def SetMute_def Let_def using n by (auto intro!: total_intros)
  then show "\<exists>d. SetMode env p name md st c = Inr d"
    unfolding SetMode_def using n s' by (auto intro!: total_intros split: option.split)
  show "\<exists>d. SetOwner_name env p name c = Inr d"
    unfolding SetOwner_name_def using n s' by (auto intro!: total_intros split: option.split)
qed

lemma list_loop_ex:
  assumes "length bs + 9 * length ms \<le> 10000000"
  shows "\<exists>cs. list_loop env player ms cnt (wp_with op bs) = Inr (cnt + of_nat (length (filter (\<lambda>(m, i). list_shows env player m) ms)),
    wp_with op (bs @ cs)) \<and> length cs \<le> 9 * length ms"
  using assms
proof (induction ms arbitrary: bs cnt)
  case Nil
  then show ?case by simp
next
  case (Cons e ms)
  obtain m i where e: "e = (m, i)" by (cases e)
  show ?case
  proof (cases "list_shows env player m")
    case True
    with Cons.IH [of "bs @ le_bytes m @ [pi_flags i]" "cnt + 1"] Cons.prems e show ?thesis
      by (fastforce simp: wp_writes)
  next
    case False
    with Cons.IH [of bs cnt] Cons.prems e show ?thesis by fastforce
  qed
qed

lemma wp_put_word_at:
  "pos + LENGTH('a) div 8 \<le> length bs \<Longrightarrow> length bs < 2 ^ 63 \<Longrightarrow>
     \<exists>d. wp_put (put_word_at pos (w :: 'a::len word)) (wp_with op bs) = Inr d"
  by (simp add: wp_put_def wp_with_def put_word_at_def put_bytes_at_def EndianConvert_host_bytes memcpy_at_def
      bb_empty_def emit_def)

lemma chan_List_ex:
  assumes n: "short (m_name c)" and m: "length (players c) \<le> 900000"
  shows "\<exists>d. chan_List env player c = Inr d"
proof (cases "IsOn (cp_guid player) c")
  case True
  let ?bs = "1 # m_name c @ [0, m_flags c] @ le_bytes (0 :: u32)"
  let ?data = "wp_with SMSG_CHANNEL_LIST ?bs"
  have len: "length ?bs = length (m_name c) + 7" by simp
  with n m obtain cs cnt where loop: "list_loop env player (players c) 0 ?data =
      Inr (cnt, wp_with SMSG_CHANNEL_LIST (?bs @ cs))" and cs: "length cs \<le> 9 * length (players c)"
    using list_loop_ex [of ?bs "players c" env player 0 SMSG_CHANNEL_LIST] by (auto simp: short_def)
  have "length (?bs @ cs) < 2 ^ 63" using cs len n m by (simp add: short_def)
  moreover have "length (m_name c) + 3 + 4 \<le> length (?bs @ cs)" by simp
  ultimately obtain d where "wp_put (put_word_at (Suc (Suc (Suc (length (m_name c))))) cnt)
      (wp_with SMSG_CHANNEL_LIST (?bs @ cs)) = Inr d"
    using wp_put_word_at [where 'a = 32 and pos = "Suc (Suc (Suc (length (m_name c))))" and bs = "?bs @ cs"] by auto
  moreover have "wpos (wp_buf (wp_with op bs)) = length bs" for op bs by (simp add: wp_with_def bb_empty_def)
  ultimately show ?thesis using True loop n
    by (simp add: chan_List_def Let_def wp_opcode_with wp_writes short_def)
next
  case False
  with n show ?thesis by (auto simp: chan_List_def intro!: total_intros)
qed

section \<open>Speech\<close>

definition say_bytes :: "chan_env \<Rightarrow> u64 \<Rightarrow> u8 list \<Rightarrow> u32 \<Rightarrow> channel \<Rightarrow> u8 list" where
  "say_bytes env p msg lang c =
     [CHAT_MSG_CHANNEL] @ le_bytes (if cfg_two_side_channel env then LANG_UNIVERSAL else lang) @
     le_bytes p @ le_bytes (0 :: u32) @ m_name c @ [0] @ le_bytes p @
     le_bytes (of_nat (length (c_str msg)) + 1 :: u32) @ c_str msg @
     [0, case FindPlayer env p of None \<Rightarrow> 0 | Some pl \<Rightarrow> cp_chat_tag pl]"

lemma Say_packet:
  assumes on: "IsOn p c" and mute: "\<not> IsMuted (member p c)" and n: "short (m_name c)" and s: "short msg"
  shows "Say env p (Some msg) lang c =
     Inr (SendToAll env (wp_with SMSG_MESSAGECHAT (say_bytes env p msg lang c))
            (if IsModerator (member p c) then 0 else p) c)"
proof -
  have "length (takeWhile (\<lambda>c. c \<noteq> 0) msg) \<le> length msg" by (rule length_takeWhile_le)
  with on mute n s show ?thesis
    by (simp add: Say_def Let_def wp_opcode_with wp_writes short_def say_bytes_def c_str_def)
qed

lemma Say_ex:
  assumes "short (m_name c)" and "\<And>msg. what = Some msg \<Longrightarrow> short msg"
  shows "\<exists>d. Say env p what lang c = Inr d"
proof (cases what)
  case (Some msg)
  with assms have "short msg" by simp
  show ?thesis
  proof (cases "IsOn p c \<and> \<not> IsMuted (member p c)")
    case True
    with Say_packet [of p c msg env lang] assms(1) \<open>short msg\<close> Some show ?thesis by simp
  next
    case False
    with Some assms show ?thesis by (auto simp: Say_def Let_def intro!: total_intros)
  qed
qed (simp add: Say_def)

text \<open>Every player name in the environment is short.\<close>

definition names_short :: "chan_env \<Rightarrow> bool" where
  "names_short env \<longleftrightarrow> (\<forall>g n. GetPlayerNameByGUID env g = Some n \<longrightarrow> short n) \<and>
     (\<forall>n t. FindPlayerByName env n = Some t \<longrightarrow> short (cp_name t))"

lemma SendWhoOwner_ex:
  assumes n: "short (m_name c)" and "names_short env"
  shows "\<exists>d. SendWhoOwner env p c = Inr d"
proof -
  have lit: "short PLAYER_NOT_FOUND" "short Nobody" by (simp_all add: short_def PLAYER_NOT_FOUND_def Nobody_def)
  have put: "\<exists>d. wp_put (put_string s) (notice c t []) = Inr d" if "short s" for s t
    using n that by (simp add: notice_put_string short_def)
  have "\<exists>d. MakeChannelOwner env c data = Inr d" for data
    using assms lit put
    by (auto simp: MakeChannelOwner_def MakeNotifyPacket_notice names_short_def split: option.splits)
  with n show ?thesis by (auto simp: SendWhoOwner_def intro!: total_intros)
qed

lemma chan_Invite_ex:
  assumes n: "short (m_name c)" and "short name" and e: "names_short env"
  shows "\<exists>d. chan_Invite env p name c = Inr d"
proof -
  note s = short_c_str [OF assms(2)]
  have t: "FindPlayerByName env m = Some t \<Longrightarrow> short (cp_name t)" for m t using e by (simp add: names_short_def)
  show ?thesis unfolding chan_Invite_def using n s
    by (auto intro!: total_intros dest!: tell_name t split: option.split)
qed

fun request_short :: "chan_request \<Rightarrow> bool" where
  "request_short (ReqKick p n) = short n"
| "request_short (ReqBan p n) = short n"
| "request_short (ReqUnBan p n) = short n"
| "request_short (ReqSetModerator p n) = short n"
| "request_short (ReqUnsetModerator p n) = short n"
| "request_short (ReqSetMute p n) = short n"
| "request_short (ReqUnsetMute p n) = short n"
| "request_short (ReqSetOwner p n) = short n"
| "request_short (ReqInvite p n) = short n"
| "request_short (ReqSay p what lang) = (case what of None \<Rightarrow> True | Some msg \<Rightarrow> short msg)"
| "request_short r = True"

lemma chan_do_ex:
  assumes "short (m_name c)" and "length (players c) \<le> 900000" and "names_short env" and "request_short r"
  shows "\<exists>d. chan_do env r c = Inr d"
  using assms moderation_ex(2,3) [OF assms(1), of "[]"]
  by (cases r)
    (auto intro!: chan_Join_ex chan_Leave_ex KickOrBan_ex moderation_ex(1,4,5) chan_List_ex Say_ex
      SendWhoOwner_ex chan_Invite_ex simp: short_def split: option.splits)

end
