(* ===== verification/Channel_Properties.thy ===== *)
theory Channel_Properties
  imports Channel_Invariant Channel_Packets
begin

text \<open>
  The properties of \<open>Channel\<close>: refinement of the abstract steps, the invariant of every run,
  refused moderation, bans, speech, the saved row, and an owner who kicks himself.
\<close>

section \<open>A small world\<close>

text \<open>Three players, the third a game master, for the witnesses.\<close>

definition demo_player :: "u64 \<Rightarrow> chan_player" where
  "demo_player g = \<lparr>cp_guid = g, cp_name = [64 + ucast g], cp_security = (if g = 3 then 6 else 0),
     cp_team = 469, cp_in_group = False, cp_has_ignore = (\<lambda>_. False), cp_chat_tag = 0,
     cp_gm_visible = True, cp_visible_for = (\<lambda>_. True)\<rparr>"

definition demo_env :: chan_env where
  "demo_env = \<lparr>FindPlayer = (\<lambda>g. if g \<in> {1, 2, 3} then Some (demo_player g) else None),
     FindPlayerByName = (\<lambda>n. if n = [65] then Some (demo_player 1) else if n = [66] then Some (demo_player 2)
       else if n = [67] then Some (demo_player 3) else None),
     character_name = (\<lambda>_. None), ChatChannels = (\<lambda>_. None), channels_table = (\<lambda>_ _. None),
     cfg_preserve_custom = False, cfg_restricted_lfg = False, cfg_silent_gm_join = False,
     cfg_two_side_channel = False, cfg_gm_level_in_who = 0, cfg_preserve_duration = 0\<rparr>"

definition demo_channel :: channel where
  "demo_channel = chan_new demo_env [120] 0 469"

definition demo_two :: channel where
  "demo_two = demo_channel\<lparr>players := [(1, \<lparr>pi_player = 1, pi_flags = 3\<rparr>), (2, \<lparr>pi_player = 2, pi_flags = 0\<rparr>)],
     m_ownerGUID := 1\<rparr>"

lemma demo_simps [simp]:
  "cp_guid (demo_player g) = g" "FindPlayerByName demo_env [65] = Some (demo_player 1)"
  "FindPlayerByName demo_env [66] = Some (demo_player 2)" "FindPlayer demo_env 1 = Some (demo_player 1)"
  "FindPlayer demo_env 2 = Some (demo_player 2)" "cp_security (demo_player 1) = 0"
  "cp_security (demo_player 2) = 0" "cp_has_ignore (demo_player g) n = False" "cp_in_group (demo_player g) = False"
  by (simp_all add: demo_player_def demo_env_def)

lemma demo_channel_eq: "demo_channel = \<lparr>players = [], banned = [], m_announce = True, m_special = False,
     m_ownership = True, m_name = [120], m_password = [], m_flags = 1, m_channelId = 0,
     m_ownerGUID = 0, m_IsSaved = False, m_Team = 469, chan_out = []\<rparr>"
  by (simp add: demo_channel_def chan_new_def demo_env_def stricmp_ne_def all_name_def c_str_def tolower_def
      CHANNEL_FLAG_CUSTOM_def)

lemma demo_names: "names_short demo_env"
  by (simp add: names_short_def GetPlayerNameByGUID_def demo_env_def demo_player_def short_def)

lemma demo_two_facts:
  "short (m_name demo_two)" "length (players demo_two) \<le> 900000" "IsOn 1 demo_two" "IsOn 2 demo_two"
  "IsModerator (member 1 demo_two)" "\<not> IsModerator (member 2 demo_two)" "\<not> IsMuted (member 1 demo_two)"
  "m_ownerGUID demo_two = 1" "banned demo_two = []" "m_ownership demo_two"
  by (simp_all add: demo_two_def demo_channel_eq short_def IsOn_def member_def sm_at_def IsModerator_def
      MEMBER_FLAG_MODERATOR_def IsMuted_def MEMBER_FLAG_MUTED_def)

lemma short_small [simp]: "short []" "short [a]" "short [a, b]"
  by (simp_all add: short_def)

lemma demo_two_inv: "chan_inv demo_two"
  by (simp add: inv_defs has_owner_def member_ok_def IsBanned_def demo_two_facts IsOwner_def IsModerator_def)
    (simp add: demo_two_def demo_channel_eq IsOn_def member_def sm_at_def MEMBER_FLAG_MODERATOR_def MEMBER_FLAG_OWNER_def)

text \<open>The first two players join a new channel.\<close>

lemma spec_do_emit: "spec_do env r (chan_emit es c) = chan_emit es (spec_do env r c)"
proof -
  have "spec_enter p (chan_emit es c) = chan_emit es (spec_enter p c)"
    "spec_leave p (chan_emit es c) = chan_emit es (spec_leave p c)"
    "spec_mode p md st (chan_emit es c) = chan_emit es (spec_mode p md st c)" for p md st
    by (simp_all add: spec_enter_def spec_leave_def spec_mode_def Let_def)
  moreover have "spec_kick g p (chan_emit es d) = chan_emit es (spec_kick g p d)"
    "spec_ban p (chan_emit es d) = chan_emit es (spec_ban p d)" for g p d
    by (simp_all add: spec_kick_def spec_ban_def Let_def)
  moreover have "may_join env p s (chan_emit es c) = may_join env p s c"
    "may_moderate env p (chan_emit es c) = may_moderate env p c"
    "may_kick env p g (chan_emit es c) = may_kick env p g c"
    "may_set_mode env p t md (chan_emit es c) = may_set_mode env p t md c"
    "may_give env p t (chan_emit es c) = may_give env p t c" for p s g t md
    by (simp_all add: may_join_def may_moderate_def may_kick_def may_set_mode_def may_give_def chan_HasFlag_def)
  ultimately show ?thesis
    by (cases r) (simp_all add: with_target_def split: option.split)
qed

lemma demo_joins:
  "spec_do demo_env (ReqJoin 1 []) demo_channel =
     demo_channel\<lparr>players := [(1, \<lparr>pi_player = 1, pi_flags = 3\<rparr>)], m_ownerGUID := 1\<rparr>"
  "spec_do demo_env (ReqJoin 2 []) (demo_channel\<lparr>players := [(1, \<lparr>pi_player = 1, pi_flags = 3\<rparr>)], m_ownerGUID := 1\<rparr>) =
     demo_two"
  by (simp_all add: may_join_def demo_channel_eq demo_two_def IsOn_def IsBanned_def chan_HasFlag_def CHANNEL_FLAG_LFG_def
      spec_enter_def IsConstant_def spec_SetOwner_def member_upd_def member_def sm_at_def info_SetOwner_def
      info_SetModerator_def MEMBER_FLAG_OWNER_def MEMBER_FLAG_MODERATOR_def MEMBER_FLAG_NONE_def)

lemma run_one:
  assumes "chan_run c0 rs (chan_emit es c)" and "short (m_name c)" and "length (players c) \<le> 900000"
    and "names_short env" and "request_short r" and "ordinary env r" and "players (spec_do env r c) \<noteq> []"
  shows "\<exists>es. chan_run c0 (rs @ [(env, r)]) (chan_emit es (spec_do env r c))"
proof -
  obtain d where d: "chan_do env r (chan_emit es c) = Inr d"
    using chan_do_ex [of "chan_emit es c" env r] assms by auto
  with chan_do_emits [OF d] obtain ds where "d = chan_emit ds (spec_do env r c)"
    by (auto simp: emits_def spec_do_emit)
  with run_step [OF assms(1,6) d] assms(7) show ?thesis by auto
qed

lemma demo_run:
  "\<exists>es. chan_run (chan_new demo_env [120] 0 469) [(demo_env, ReqJoin 1 []), (demo_env, ReqJoin 2 [])] (chan_emit es demo_two)"
proof -
  have "chan_run demo_channel [] (chan_emit [] demo_channel)" by (simp add: run_start)
  from run_one [OF this, of demo_env "ReqJoin 1 []"] obtain es where
    "chan_run demo_channel [(demo_env, ReqJoin 1 [])]
       (chan_emit es (demo_channel\<lparr>players := [(1, \<lparr>pi_player = 1, pi_flags = 3\<rparr>)], m_ownerGUID := 1\<rparr>))"
    unfolding demo_joins by (auto simp: demo_channel_eq short_def demo_names)
  from run_one [OF this, of demo_env "ReqJoin 2 []"] show ?thesis
    unfolding demo_joins by (simp add: demo_names short_def demo_two_def demo_channel_def [symmetric])
      (simp add: demo_channel_eq)
qed

section \<open>Properties\<close>

text \<open>C1: for names and texts of at most a million bytes and up to 900000 members no request
  trips the assertion on the packet size, and what a request does is its abstract step followed
  by output only.
\<close>

theorem channel_refines_spec:
  assumes "short (m_name c)" and "length (players c) \<le> 900000" and "names_short env" and "request_short r"
  shows "\<exists>es. chan_do env r c = Inr (chan_emit es (spec_do env r c))"
proof -
  from chan_do_ex [OF assms] obtain d where d: "chan_do env r c = Inr d" by blast
  with chan_do_emits [OF d] show ?thesis by (auto simp: emits_def)
qed

theorem channel_refines_spec_witness:
  "\<exists>es. chan_do demo_env (ReqBan 1 [66]) demo_two = Inr (chan_emit es (spec_do demo_env (ReqBan 1 [66]) demo_two))"
  by (rule channel_refines_spec [OF demo_two_facts(1,2) demo_names]) (simp add: short_def)

text \<open>C9: through any run of ordinary requests from a new channel in which no step empties the channel
  (\<open>chan_run\<close>: the manager deletes a custom channel then), every entry of the
  member list is a real player's and no member is banned, the owner flag marks at most the
  channel's owner, who is a moderator, and a custom channel that hands out ownership
  (\<^verbatim>\<open>m_ownership\<close>) has exactly one owner while it has members.
\<close>

theorem channel_invariant:
  assumes "chan_run (chan_new env name channel_id team) rs c"
  shows "(\<forall>p i. sm_find (players c) p = Some i \<longrightarrow> pi_player i = p \<and> p \<noteq> 0 \<and> \<not> IsBanned p c \<and>
      (IsOwner i \<longrightarrow> p = m_ownerGUID c \<and> IsModerator i)) \<and>
    (\<not> IsConstant c \<and> m_ownership c \<and> players c \<noteq> [] \<longrightarrow>
      (\<exists>!p. IsOn p c \<and> IsOwner (member p c)))"
proof -
  from chan_run_inv [OF assms chan_new_inv] have inv: "base_inv c" "owner_inv c" by (simp_all add: chan_inv_def)
  have one: "p = m_ownerGUID c" if "IsOn p c" "IsOwner (member p c)" for p
    using base_invD(2) [OF inv(1) that(1)] that(2) by (simp add: member_ok_def)
  have "\<exists>!p. IsOn p c \<and> IsOwner (member p c)" if "\<not> IsConstant c \<and> m_ownership c \<and> players c \<noteq> []"
    using inv(2) that one unfolding owner_inv_def has_owner_def by metis
  with inv(1) show ?thesis by (auto simp: base_inv_def member_ok_def)
qed

fun moderation_by :: "chan_request \<Rightarrow> u64 option" where
  "moderation_by (ReqKick p n) = Some p"
| "moderation_by (ReqBan p n) = Some p"
| "moderation_by (ReqUnBan p n) = Some p"
| "moderation_by (ReqPassword p s) = Some p"
| "moderation_by (ReqSetModerator p n) = Some p"
| "moderation_by (ReqUnsetModerator p n) = Some p"
| "moderation_by (ReqSetMute p n) = Some p"
| "moderation_by (ReqUnsetMute p n) = Some p"
| "moderation_by (ReqAnnounce p) = Some p"
| "moderation_by r = None"

lemma tell_notice:
  assumes "mk wp_new = Inr (notice c t body)" and "FindPlayer env p = Some pl"
  shows "tell env p mk c = Inr (chan_emit [ChanSend p SMSG_CHANNEL_NOTIFY (t # m_name c @ 0 # body)] c)"
  using assms by (simp add: tell_def SendToOne_def)

theorem channel_invariant_witness:
  "\<exists>c. players c = players demo_two \<and> (\<exists>!p. IsOn p c \<and> IsOwner (member p c))"
proof -
  obtain es where run: "chan_run (chan_new demo_env [120] 0 469)
      [(demo_env, ReqJoin 1 []), (demo_env, ReqJoin 2 [])] (chan_emit es demo_two)"
    using demo_run by blast
  from channel_invariant [OF run] have "\<exists>!p. IsOn p (chan_emit es demo_two) \<and> IsOwner (member p (chan_emit es demo_two))"
    by (simp add: demo_two_facts IsConstant_def) (simp add: demo_two_def demo_channel_eq)
  then show ?thesis by (intro exI [of _ "chan_emit es demo_two"]) simp
qed

text \<open>C18: a player who is not on the channel, or is neither a moderator of it nor a game master,
  changes nothing by a request of moderation: the answer is one packet to him that says so.
\<close>

theorem moderation_refused:
  assumes "moderation_by r = Some p" and "FindPlayer env p = Some pl" and "\<not> may_moderate env p c"
    and "short (m_name c)"
  shows "chan_do env r c = Inr (chan_emit [ChanSend p SMSG_CHANNEL_NOTIFY
     ((if IsOn p c then CHAT_NOT_MODERATOR_NOTICE else CHAT_NOT_MEMBER_NOTICE) # m_name c @ [0])] c)"
proof -
  have "tell env p (MakeNotMember c) c =
      Inr (chan_emit [ChanSend p SMSG_CHANNEL_NOTIFY (CHAT_NOT_MEMBER_NOTICE # m_name c @ [0])] c)"
    "tell env p (MakeNotModerator c) c =
      Inr (chan_emit [ChanSend p SMSG_CHANNEL_NOTIFY (CHAT_NOT_MODERATOR_NOTICE # m_name c @ [0])] c)"
    using assms by (auto intro!: tell_notice simp: Make_writes)
  with assms show ?thesis
    by (cases r) (auto simp: may_moderate_def sec_of_def KickOrBan_def UnBan_def chan_Password_def
        SetMode_def chan_Announce_def)
qed

theorem moderation_refused_witness:
  "chan_do demo_env (ReqKick 2 [65]) demo_two = Inr (chan_emit [ChanSend 2 SMSG_CHANNEL_NOTIFY
     ((if IsOn 2 demo_two then CHAT_NOT_MODERATOR_NOTICE else CHAT_NOT_MEMBER_NOTICE) # m_name demo_two @ [0])] demo_two)"
  by (rule moderation_refused [where pl = "demo_player 2"])
    (simp_all add: demo_two_facts may_moderate_def sec_of_def IsGMAccount_def SEC_GAMEMASTER_def)

fun unbans :: "u64 \<Rightarrow> chan_env \<times> chan_request \<Rightarrow> bool" where
  "unbans g (env, ReqUnBan p n) = (case FindPlayerByName env n of None \<Rightarrow> False | Some t \<Rightarrow> cp_guid t = g)"
| "unbans g (env, r) = False"

lemma kick_banned [simp]: "banned (spec_kick p g c) = banned c"
  by (simp add: spec_kick_def Let_def)

lemma spec_do_keeps_ban:
  assumes "IsBanned g c" and "\<not> unbans g (env, r)"
  shows "IsBanned g (spec_do env r c)"
proof -
  have "IsBanned g (spec_enter p c)" "IsBanned g (spec_leave p c)" "IsBanned g (spec_mode p md st c)" for p md st
    using assms(1) by (simp_all add: IsBanned_def spec_enter_def spec_leave_def spec_mode_def Let_def)
  moreover have "IsBanned g (spec_kick p h (spec_ban h c))" for p h
    using assms(1) by (simp add: IsBanned_def spec_ban_def)
  ultimately show ?thesis using assms
    by (cases r) (auto simp: with_target_def IsBanned_def split: option.split)
qed

lemma chan_run_ban:
  "chan_run d rs e \<Longrightarrow> IsBanned g d \<Longrightarrow> chan_inv d \<Longrightarrow> \<forall>x \<in> set rs. \<not> unbans g x \<Longrightarrow> IsBanned g e \<and> chan_inv e"
proof (induction rule: chan_run.induct)
  case (run_step c rs d env r e)
  then have ih: "IsBanned g d" "chan_inv d" and "\<not> unbans g (env, r)" by auto
  with spec_do_keeps_ban have "IsBanned g (spec_do env r d)" by blast
  then have "IsBanned g e" using emits_eqs(9) [OF chan_do_emits [OF run_step.hyps(3)]] by simp
  moreover have "chan_inv e" using chan_do_inv [OF ih(2) run_step.hyps(2-4)] .
  ultimately show ?case ..
qed simp

text \<open>C13: once a player has been banned by another player who has the right to do so, he is off the
  channel, and stays off through every run of ordinary requests (\<open>chan_run\<close>) that does not lift the
  ban, whatever he sends to join. It does not hold for a player who bans himself.
\<close>

theorem ban_stands:
  assumes run: "chan_run (chan_new env0 name channel_id team) rs c"
    and t: "FindPlayerByName env n = Some t" "may_kick env p (cp_guid t) c" "cp_guid t \<noteq> p"
    and ban: "chan_do env (ReqBan p n) c = Inr d"
    and later: "chan_run d rs' e" "\<forall>x \<in> set rs'. \<not> unbans (cp_guid t) x"
  shows "\<not> IsOn (cp_guid t) e \<and>
    (chan_do env' (ReqJoin (cp_guid t) pass) e = Inr f \<longrightarrow> \<not> IsOn (cp_guid t) f)"
proof -
  let ?g = "cp_guid t"
  from chan_run_inv [OF run chan_new_inv] have c: "chan_inv c" .
  from chan_do_emits [OF ban] have d: "emits (spec_kick p ?g (spec_ban ?g c)) d"
    using t by (simp add: with_target_def)
  have "IsBanned ?g (spec_ban ?g c)" by (simp add: spec_ban_def IsBanned_def)
  then have "IsBanned ?g d" using emits_eqs(9) [OF d] by (simp add: IsBanned_def)
  moreover have "chan_inv d"
    using kick_inv [OF c _ _ t(3)] t(2) emits_chan_inv [OF d] by (auto simp: may_kick_def may_moderate_def)
  ultimately have e: "IsBanned ?g e \<and> chan_inv e" using chan_run_ban [OF later(1)] later(2) by blast
  then have off: "\<not> IsOn ?g e"
    using base_invD(2) [of e ?g] by (auto simp: chan_inv_def member_ok_def)
  moreover have "\<not> IsOn ?g f" if "chan_do env' (ReqJoin ?g pass) e = Inr f"
    using chan_do_emits [OF that] e off by (simp add: may_join_def emits_eqs)
  ultimately show ?thesis by blast
qed

theorem ban_stands_witness:
  "\<exists>d. chan_do demo_env (ReqBan 1 [66]) demo_two = Inr d \<and> \<not> IsOn 2 d"
proof -
  obtain es where run: "chan_run (chan_new demo_env [120] 0 469)
      [(demo_env, ReqJoin 1 []), (demo_env, ReqJoin 2 [])] (chan_emit es demo_two)"
    using demo_run by blast
  have kick: "may_kick demo_env 1 2 (chan_emit es demo_two)"
    by (simp add: may_kick_def may_moderate_def demo_two_facts)
  obtain f where f: "chan_do demo_env (ReqBan 1 [66]) (chan_emit es demo_two) = Inr f"
    using chan_do_ex [of "chan_emit es demo_two" demo_env "ReqBan 1 [66]"]
    by (auto simp: demo_two_facts demo_names)
  have "\<not> IsOn 2 f"
    using ban_stands [OF run, of demo_env "[66]" "demo_player 2" 1 f "[]" f] kick f by (simp add: run_start)
  then have "\<not> IsOn 2 (spec_do demo_env (ReqBan 1 [66]) demo_two)"
    using emits_eqs(7) [OF chan_do_emits [OF f]] by (simp add: spec_do_emit)
  moreover obtain d where d: "chan_do demo_env (ReqBan 1 [66]) demo_two = Inr d"
    using chan_do_ex [of demo_two demo_env "ReqBan 1 [66]"] by (auto simp: demo_two_facts demo_names)
  ultimately show ?thesis using emits_eqs(7) [OF chan_do_emits [OF d]] by simp
qed

text \<open>C39: what an unmuted member says reaches, in the order of their GUIDs, exactly the members who
  are online and do not ignore him, or all who are online when he is a moderator, as one
  packet with his text, its length and his tag.
\<close>

theorem Say_delivers:
  assumes "IsOn p c" and "\<not> IsMuted (member p c)" and "short (m_name c)" and "short msg"
  shows "Say env p (Some msg) lang c = Inr (chan_emit
    (map (\<lambda>m. ChanSend m SMSG_MESSAGECHAT (say_bytes env p msg lang c))
      (filter (\<lambda>m. case FindPlayer env m of None \<Rightarrow> False
         | Some pl \<Rightarrow> IsModerator (member p c) \<or> p = 0 \<or> \<not> cp_has_ignore pl (GUID_LOPART p))
        (map fst (players c)))) c)"
proof -
  have sent: "concat (map (\<lambda>(who, i). case FindPlayer env who of None \<Rightarrow> []
         | Some pl \<Rightarrow> if q = 0 \<or> \<not> cp_has_ignore pl (GUID_LOPART q) then [ChanSend who op bs] else []) ms) =
       map (\<lambda>m. ChanSend m op bs) (filter (\<lambda>m. case FindPlayer env m of None \<Rightarrow> False
         | Some pl \<Rightarrow> q = 0 \<or> \<not> cp_has_ignore pl (GUID_LOPART q)) (map fst ms))"
    for q op bs and ms :: "(u64 \<times> PlayerInfo) list"
    by (induction ms) (auto split: option.split)
  show ?thesis
    unfolding Say_packet [OF assms] SendToAll_def
    by (simp add: sent wp_with_simps cong: option.case_cong)
qed

theorem Say_delivers_witness:
  "Say demo_env 1 (Some [104, 105]) 7 demo_two = Inr (chan_emit
    [ChanSend 1 SMSG_MESSAGECHAT (say_bytes demo_env 1 [104, 105] 7 demo_two),
     ChanSend 2 SMSG_MESSAGECHAT (say_bytes demo_env 1 [104, 105] 7 demo_two)] demo_two)"
proof -
  have fst: "map fst (players demo_two) = [1, 2]" by (simp add: demo_two_def)
  show ?thesis
    using Say_delivers [of 1 demo_two "[104, 105]" demo_env 7]
    by (simp add: demo_two_facts fst)
qed

text \<open>C38: a custom channel created anew from the row its last update wrote has the announcements,
  ownership, password and ban list it had then.
\<close>

lemma load_banlist:
  assumes "sorted_wrt (<) (bs :: u64 list)" and "\<forall>g \<in> set bs. 0 < g \<and> g < 2 ^ 63"
  shows "load_banned (banlist_text bs) [] = bs"
proof -
  have tok: "Tokenizer (banlist_text bs) 32 = map (\<lambda>g. dec_digits (unat g)) bs"
    unfolding banlist_text_def
    using Tokenizer_separated [of "map (\<lambda>g. dec_digits (unat g)) bs" 32] dec_digits_chars
    by (auto simp: comp_def)
  have val: "word_of_int (atol (dec_digits (unat g))) = g" if "g < 2 ^ 63" for g :: u64
  proof -
    from that have "unat g < 2 ^ 63" by (simp add: word_less_nat_alt)
    then show ?thesis by (simp add: atol_dec_digits)
  qed
  have snoc: "ss_insert g s = s @ [g]" if "\<forall>x \<in> set s. x < g" for g and s :: "u64 list"
    using that by (induction s) auto
  have "foldl (\<lambda>s tok. let g = (word_of_int (atol tok) :: u64) in if g \<noteq> 0 then ss_insert g s else s) s
      (map (\<lambda>g. dec_digits (unat g)) bs) = s @ bs"
    if "sorted_wrt (<) (s @ bs)" "\<forall>g \<in> set bs. 0 < g \<and> g < 2 ^ 63" for s
    using that
  proof (induction bs arbitrary: s)
    case (Cons g bs)
    then have "ss_insert g s = s @ [g]" by (intro snoc) (auto simp: sorted_wrt_append)
    moreover from Cons.prems have "g \<noteq> 0" by auto
    ultimately show ?case using Cons val [of g] by (simp add: Let_def)
  qed simp
  from this [of "[]"] assms show ?thesis by (simp add: load_banned_def tok)
qed

theorem saved_channel_restored:
  assumes "chan_run (chan_new env0 name 0 team) rs c" and "m_IsSaved c"
    and "\<forall>g \<in> set (banned c). 0 < g \<and> g < 2 ^ 63"
    and "UpdateChannelInDB c = chan_emit [UpdateChannel an ow pw bl n t] c"
    and "channels_table env n t = Some \<lparr>row_announce = an, row_ownership = ow, row_password = pw, row_bannedList = Some bl\<rparr>"
    and "cfg_preserve_custom env" and "ChatChannels env 0 = None" and "stricmp_ne n all_name"
  shows "let r = chan_new env n 0 t in m_announce r = m_announce c \<and> m_ownership r = m_ownership c \<and>
    m_password r = m_password c \<and> banned r = banned c \<and> m_name r = m_name c \<and> m_Team r = m_Team c \<and> m_IsSaved r"
proof -
  have "chan_inv c" using assms(1) chan_new_inv by (rule chan_run_inv)
  then have "load_banned (banlist_text (banned c)) [] = banned c"
    using assms(3) by (intro load_banlist) (simp_all add: inv_defs)
  moreover have "an = m_announce c" "ow = m_ownership c" "pw = m_password c" "bl = banlist_text (banned c)"
    "n = m_name c" "t = m_Team c"
    using assms(2) arg_cong [OF assms(4), of chan_out] by (simp_all add: UpdateChannelInDB_def)
  ultimately show ?thesis using assms(5-8) by (simp add: chan_new_def Let_def)
qed

definition saved_env :: chan_env where
  "saved_env = demo_env\<lparr>cfg_preserve_custom := True, channels_table := (\<lambda>_ _. Some
     \<lparr>row_announce = False, row_ownership = True, row_password = [112], row_bannedList = Some [53, 32, 55, 32]\<rparr>)\<rparr>"

theorem saved_channel_restored_witness:
  "\<exists>c :: channel. chan_run (chan_new saved_env [120] 0 469) [(demo_env, ReqWhoOwner 1)] c \<and>
     banned c = [5, 7] \<and> banned (chan_new saved_env [120] 0 469) = banned c"
proof -
  let ?c = "chan_new saved_env [120] 0 469"
  have banlist: "banlist_text [5, 7] = [53, 32, 55, 32]"
    by (simp add: banlist_text_def dec_digits.simps)
  have "load_banned [53, 32, 55, 32] [] = [5, 7]"
    using load_banlist [of "[5, 7]"] unfolding banlist by simp
  then have c: "banned ?c = [5, 7]" "m_IsSaved ?c" "m_password ?c = [112]" "m_announce ?c = False"
    "m_ownership ?c" "m_name ?c = [120]" "m_Team ?c = 469"
    by (simp_all add: chan_new_def saved_env_def demo_env_def stricmp_ne_def c_str_def all_name_def Let_def)
  have upd: "UpdateChannelInDB ?c = chan_emit [UpdateChannel False True [112] [53, 32, 55, 32] [120] 469] ?c"
    by (simp add: UpdateChannelInDB_def c banlist)
  have e: "cfg_preserve_custom saved_env" "ChatChannels saved_env 0 = None" "stricmp_ne [120] all_name"
    "channels_table saved_env n t = Some \<lparr>row_announce = False, row_ownership = True,
       row_password = [112], row_bannedList = Some [53, 32, 55, 32]\<rparr>" for n t
    by (simp_all add: saved_env_def demo_env_def stricmp_ne_def c_str_def all_name_def tolower_def)
  obtain d where d: "chan_do demo_env (ReqWhoOwner 1) ?c = Inr d"
    using chan_do_ex [of ?c demo_env "ReqWhoOwner 1"] by (auto simp: c chan_new_members demo_names)
  then obtain es where es: "d = chan_emit es ?c" using chan_do_emits [OF d] by (auto simp: emits_def)
  have run: "chan_run ?c [(demo_env, ReqWhoOwner 1)] d"
    using run_step [OF run_start _ d] by (simp add: chan_new_members)
  have upd: "UpdateChannelInDB d = chan_emit [UpdateChannel False True [112] [53, 32, 55, 32] [120] 469] d"
    by (simp add: UpdateChannelInDB_def es c banlist)
  have "m_IsSaved d" "\<forall>g \<in> set (banned d). 0 < g \<and> g < 2 ^ 63" by (simp_all add: es c)
  from saved_channel_restored [OF run this upd e(4,1,2,3)] have "banned ?c = banned d"
    unfolding Let_def by blast
  with c run show ?thesis by metis
qed

text \<open>When the owner of a channel with other members kicks himself, he stays on it as the owner,
  now with an entry for the player 0, because the code names the kicker as the successor and
  the map access puts him back.
\<close>

theorem owner_self_kick:
  assumes inv: "chan_inv c" and own: "m_ownership c" "p = m_ownerGUID c" "has_owner c"
    and t: "FindPlayerByName env n = Some t" "cp_guid t = p"
    and others: "sm_erase p (players c) \<noteq> []" and d: "chan_do env (ReqKick p n) c = Inr d"
  shows "IsOn p d \<and> m_ownerGUID d = p \<and> IsOwner (member p d) \<and> pi_player (member p d) = 0"
proof -
  from own have on: "IsOn p c" "IsOwner (member p c)" by (simp_all add: has_owner_def)
  have base: "base_inv c" using inv by (simp add: chan_inv_def)
  from base_invD(2) [OF base on(1)] on(2) have p: "p \<noteq> 0" "IsModerator (member p c)"
    unfolding member_ok_def by blast+
  let ?c = "c\<lparr>players := sm_erase p (players c)\<rparr>"
  let ?d = "spec_make_owner p ?c"
  have e: "emits ?d d"
    using chan_do_emits [OF d] t own on p others
    by (simp add: with_target_def may_kick_def may_moderate_def spec_kick_def Let_def)
  have sm: "sm_inv (players ?c)" using base by (simp add: base_inv_def)
  let ?e = "member_upd p (info_SetModerator True) ?c"
  have mem: "member p ?c = no_info" by (simp add: member_def sm_at_def)
  have "?d = member_upd p (info_SetOwner True) (member_upd p (info_SetModerator True)
      ((member_upd p (info_SetOwner False) ?e)\<lparr>m_ownerGUID := p\<rparr>))"
    using p own(2) sm by (simp add: spec_make_owner_def spec_SetOwner_def Let_def IsOn_member_upd)
  then have "IsOn p ?d \<and> m_ownerGUID ?d = p \<and> IsOwner (member p ?d) \<and> pi_player (member p ?d) = 0"
    using sm mem by (simp add: IsOn_member_upd member_member_upd no_info_def)
  then show ?thesis by (simp only: emits_eqs [OF e])
qed

theorem owner_self_kick_witness:
  "\<exists>d. chan_do demo_env (ReqKick 1 [65]) demo_two = Inr d \<and> IsOn 1 d \<and> pi_player (member 1 d) = 0"
proof -
  obtain d where d: "chan_do demo_env (ReqKick 1 [65]) demo_two = Inr d"
    using chan_do_ex [of demo_two demo_env "ReqKick 1 [65]"] by (auto simp: demo_two_facts demo_names)
  have "has_owner demo_two" "sm_erase 1 (players demo_two) \<noteq> []"
    by (simp_all add: has_owner_def demo_two_facts)
      (simp_all add: demo_two_def demo_channel_eq member_def sm_at_def IsOwner_def MEMBER_FLAG_OWNER_def)
  from owner_self_kick [OF demo_two_inv _ _ this(1) _ _ this(2) d] d show ?thesis
    by (simp add: demo_two_facts)
qed

end
