(* ===== verification/ByteBuffer_Packed.thy ===== *)
theory ByteBuffer_Packed
  imports ByteBuffer
begin

text \<open>
  The two packed formats of \<^verbatim>\<open>ByteBuffer.h\<close>: \<^verbatim>\<open>appendPackGUID\<close> / \<^verbatim>\<open>readPackGUID\<close> against a
  reference encoding (\<open>guid_enc\<close>: the mask of the non-zero bytes, then those bytes), and
  the packed calendar time against the ranges of its fields.
\<close>

section \<open>The reference encoding of a GUID\<close>

fun guid_mask :: "nat \<Rightarrow> u8 list \<Rightarrow> u8" where
  "guid_mask i [] = 0"
| "guid_mask i (b # bs) = (if b \<noteq> 0 then push_bit i 1 else 0) OR guid_mask (Suc i) bs"

abbreviation nonzero_bytes :: "u8 list \<Rightarrow> u8 list" where
  "nonzero_bytes bs \<equiv> filter (\<lambda>x. x \<noteq> 0) bs"

definition guid_enc :: "u64 \<Rightarrow> u8 list" where
  "guid_enc guid = guid_mask 0 (le_bytes guid) # nonzero_bytes (le_bytes guid)"

lemma bit_guid_mask:
  "bit (guid_mask i bs) k \<longleftrightarrow> k < 8 \<and> i \<le> k \<and> k < i + length bs \<and> bs ! (k - i) \<noteq> 0"
proof (induction i bs rule: guid_mask.induct)
  case (1 i)
  then show ?case by simp
next
  case (2 i b bs)
  have one: "bit (push_bit i (1 :: u8)) k \<longleftrightarrow> k < 8 \<and> k = i"
    by (auto simp: bit_push_bit_iff bit_1_iff simp del: push_bit_of_1)
  have "k - i = Suc (k - Suc i)" if "Suc i \<le> k" using that by simp
  then have nth: "Suc i \<le> k \<Longrightarrow> (b # bs) ! (k - i) = bs ! (k - Suc i)" by simp
  have head: "bit (if b \<noteq> 0 then push_bit i (1 :: u8) else 0) k \<longleftrightarrow> b \<noteq> 0 \<and> k < 8 \<and> k = i"
    using one by simp
  show ?case
    unfolding guid_mask.simps bit_or_iff head 2
    by (cases "k = i"; cases "i \<le> k") (auto simp: nth)
qed

lemma le_word_Cons_low: "(le_word (b # bs) :: u64) AND 0xFF = ucast b"
proof (rule bit_word_eqI)
  fix n assume "n < LENGTH(64)"
  have "bit (0xFF :: u64) n \<longleftrightarrow> n < 8"
  proof -
    have "(0xFF :: u64) = mask 8" by (simp add: mask_eq_exp_minus_1)
    then have "bit (0xFF :: u64) n \<longleftrightarrow> bit (mask 8 :: u64) n" by (rule arg_cong)
    then show ?thesis using \<open>n < LENGTH(64)\<close> by (simp only: bit_mask_iff) simp
  qed
  then show "bit ((le_word (b # bs) :: u64) AND 0xFF) n = bit (ucast b :: u64) n"
    using \<open>n < LENGTH(64)\<close>
    by (auto simp: bit_and_iff bit_or_iff bit_push_bit_iff bit_ucast_iff dest: bit_imp_le_length)
qed

lemma le_word_Cons_high:
  assumes "length bs \<le> 7"
  shows "drop_bit 8 (le_word (b # bs) :: u64) = le_word bs"
proof (rule bit_word_eqI)
  fix n assume n: "n < LENGTH(64)"
  have d: "(8 + n) div 8 = Suc (n div 8)" and m: "(8 + n) mod 8 = n mod 8" by simp_all
  show "bit (drop_bit 8 (le_word (b # bs) :: u64)) n = bit (le_word bs :: u64) n"
    using n assms
    by (simp only: bit_drop_bit_eq bit_le_word comp_apply d m) auto
qed

lemma ucast_u8_u64: "ucast (ucast (b :: u8) :: u64) = b"
  by (rule ucast_up_ucast_id) (simp add: is_up)

lemma ucast_u8_eq_0: "ucast (b :: u8) = (0 :: u64) \<longleftrightarrow> b = 0"
  using ucast_u8_u64 [of b] by auto

section \<open>Writing\<close>

lemma pack_guid_loop_le_word:
  "i + length bs \<le> 8 \<Longrightarrow>
     pack_guid_loop i (le_word bs) mark packed = (mark OR guid_mask i bs, packed @ nonzero_bytes bs)"
proof (induction bs arbitrary: i mark packed)
  case Nil
  then show ?case by (simp add: pack_guid_loop.simps)
next
  case (Cons b bs)
  then have hi: "drop_bit 8 (le_word (b # bs) :: u64) = le_word bs"
    by (intro le_word_Cons_high) simp
  note lo = le_word_Cons_low [of b bs]
  from Cons.prems have IH: "pack_guid_loop (Suc i) (le_word bs) m p
      = (m OR guid_mask (Suc i) bs, p @ nonzero_bytes bs)" for m p
    by (intro Cons.IH) simp
  show ?case
  proof (cases "(le_word (b # bs) :: u64) = 0")
    case True
    from True lo have b: "b = 0" by (metis and_zero_eq ucast_u8_eq_0 word_bw_comms(1))
    from True hi have "(le_word bs :: u64) = 0" by simp
    with IH [of mark packed] have
      "mark OR guid_mask (Suc i) bs = mark \<and> packed @ nonzero_bytes bs = packed"
      by (simp add: pack_guid_loop.simps [of "Suc i" 0])
    with True b show ?thesis by (simp add: pack_guid_loop.simps [of i 0] del: le_word.simps)
  next
    case False
    then have "pack_guid_loop i (le_word (b # bs)) mark packed =
        (if b \<noteq> 0 then (mark OR push_bit i 1 OR guid_mask (Suc i) bs, packed @ [b] @ nonzero_bytes bs)
         else (mark OR guid_mask (Suc i) bs, packed @ nonzero_bytes bs))"
      by (subst pack_guid_loop.simps)
        (simp only: lo hi IH ucast_u8_eq_0 ucast_u8_u64 if_False or.assoc append_assoc)
    then show ?thesis by (simp del: le_word.simps push_bit_of_1)
  qed
qed

lemma pack_guid: "pack_guid_loop 0 guid 0 [] =
    (guid_mask 0 (le_bytes guid), nonzero_bytes (le_bytes guid))"
  using pack_guid_loop_le_word [of 0 "le_bytes guid" 0 "[]"] by simp

lemma length_guid_enc: "length (guid_enc guid) \<le> 9"
proof -
  have "length (nonzero_bytes (le_bytes guid)) \<le> length (le_bytes guid)"
    by (rule length_filter_le)
  then show ?thesis by (simp add: guid_enc_def)
qed

lemma appendPackGUID_emit:
  "wr_ok (length (guid_enc guid)) b \<Longrightarrow> appendPackGUID guid b = Inr (emit (guid_enc guid) b)"
  by (simp add: appendPackGUID_def pack_guid guid_enc_def append_bytes_emit)

section \<open>Reading\<close>

lemma mask_test: "(mark :: u8) AND push_bit i 1 \<noteq> 0 \<longleftrightarrow> bit mark i"
  by (rule and_push_bit_1)

lemma le_word_Cons_shift:
  "push_bit (8 * i) (le_word (b # bs) :: u64) =
     push_bit (8 * i) (ucast b) OR push_bit (8 * Suc i) (le_word bs)"
  by (simp add: push_bit_or push_bit_push_bit add.commute)

lemma read_guid_loop_consume:
  assumes "rd_ok b" and "bitpos b = 8" and "unread b = nonzero_bytes bs @ rest"
    and "\<forall>j < length bs. bit mark (i + j) \<longleftrightarrow> bs ! j \<noteq> 0"
  shows "read_guid_loop mark [i..<i + length bs] guid b =
    Inr (guid OR push_bit (8 * i) (le_word bs), consume (length (nonzero_bytes bs)) b)"
  using assms
proof (induction bs arbitrary: b i guid)
  case Nil
  then show ?case by (simp add: consume_def)
next
  case (Cons x bs)
  have upt: "[i..<i + length (x # bs)] = i # [Suc i..<Suc i + length bs]"
    by (simp add: upt_rec)
  have tail: "\<forall>j < length bs. bit mark (Suc i + j) \<longleftrightarrow> bs ! j \<noteq> 0"
  proof (intro allI impI)
    fix j assume "j < length bs"
    with Cons.prems(4) show "bit mark (Suc i + j) \<longleftrightarrow> bs ! j \<noteq> 0"
      by (auto dest!: spec [of _ "Suc j"])
  qed
  from Cons.prems(4) have head: "bit mark i \<longleftrightarrow> x \<noteq> 0" by (auto dest!: spec [of _ 0])
  show ?case
  proof (cases "x = 0")
    case True
    have "read_guid_loop mark [Suc i..<Suc i + length bs] guid b =
        Inr (guid OR push_bit (8 * Suc i) (le_word bs), consume (length (nonzero_bytes bs)) b)"
      using Cons.prems True tail by (intro Cons.IH) simp_all
    moreover have "\<not> mark AND push_bit i 1 \<noteq> 0" using head True mask_test by simp
    ultimately show ?thesis
      unfolding upt le_word_Cons_shift using True by (simp del: le_word.simps push_bit_of_1)
  next
    case False
    with Cons.prems(3) have un: "unread b = x # nonzero_bytes bs @ rest" by simp
    with Cons.prems(1) have r: "read_word b = Inr (x, consume 1 b)"
      using read_word_consume [of b x] by simp
    have rd: "rd_ok (consume 1 b)" using Cons.prems(1) un by (intro rd_ok_consume) simp_all
    from rd_ok_size_add [OF Cons.prems(1), of 1] un
    have chk: "\<not> bb_size b < size_add (rpos b) 1" by simp
    have "read_guid_loop mark [Suc i..<Suc i + length bs] (guid OR push_bit (i * 8) (ucast x)) (consume 1 b) =
        Inr ((guid OR push_bit (i * 8) (ucast x)) OR push_bit (8 * Suc i) (le_word bs),
             consume (length (nonzero_bytes bs)) (consume 1 b))"
      using rd un tail by (intro Cons.IH) simp_all
    moreover have "mark AND push_bit i 1 \<noteq> 0" using head False mask_test by simp
    ultimately show ?thesis
      unfolding upt le_word_Cons_shift using False r chk
      by (simp add: or.assoc mult.commute del: le_word.simps push_bit_of_1)
  qed
qed

lemma readPackGUID_consume:
  assumes "rd_ok b" and "unread b = guid_enc guid @ rest"
  shows "readPackGUID b = Inr (guid, consume (length (guid_enc guid)) b)"
proof -
  let ?bs = "le_bytes guid" and ?b = "ResetBits b"
  have rd: "rd_ok ?b" and un: "unread ?b = guid_mask 0 ?bs # nonzero_bytes ?bs @ rest"
    and c1: "consume 1 ?b = consume 1 b"
    using assms by (simp_all add: ResetBits_def rd_ok_def unread_def guid_enc_def consume_def)
  have r: "read_word ?b = Inr (guid_mask 0 ?bs, consume 1 b)"
    using read_word_consume [OF rd, of "guid_mask 0 ?bs"] un c1 by simp
  have rd1: "rd_ok (consume 1 b)"
    using assms by (intro rd_ok_consume) (simp_all add: guid_enc_def)
  have un1: "unread (consume 1 b) = nonzero_bytes ?bs @ rest"
    using assms(2) by (simp add: guid_enc_def)
  have "read_guid_loop (guid_mask 0 ?bs) [0..<0 + length ?bs] 0 (consume 1 b) =
      Inr (0 OR push_bit (8 * 0) (le_word ?bs), consume (length (nonzero_bytes ?bs)) (consume 1 b))"
    using rd1 un1 by (intro read_guid_loop_consume) (simp_all add: bit_guid_mask)
  moreover from rd_ok_size_add [OF assms(1), of 1] assms(2)
  have "\<not> bb_size b < size_add (rpos b) 1" by (simp add: guid_enc_def)
  ultimately show ?thesis
    using r by (simp add: readPackGUID_def guid_enc_def)
qed

section \<open>Calendar times\<close>

text \<open>
  The ranges the C library documents for \<^verbatim>\<open>struct tm\<close>, with the years the five bits of the
  packed format hold.
\<close>

definition tm_packable :: "tm \<Rightarrow> bool" where
  "tm_packable t \<longleftrightarrow>
     0 \<le> tm_min t \<and> tm_min t < 60 \<and> 0 \<le> tm_hour t \<and> tm_hour t < 24
     \<and> 1 \<le> tm_mday t \<and> tm_mday t \<le> 31 \<and> 0 \<le> tm_mon t \<and> tm_mon t < 12
     \<and> 0 \<le> tm_wday t \<and> tm_wday t < 7 \<and> 100 \<le> tm_year t \<and> tm_year t < 132"

lemma bit_small_int: "0 \<le> x \<Longrightarrow> x < 2 ^ k \<Longrightarrow> bit (x :: int) i \<Longrightarrow> i < k"
  by (metis bit_take_bit_iff take_bit_int_eq_self)

lemma uint_field:
  assumes "0 \<le> x" and "x < 2 ^ k" and "k < 32"
    and "\<And>i. i < k \<Longrightarrow> bit (P :: u32) (n + i) = bit x i" and "m = mask k"
  shows "uint (drop_bit n P AND m) = x"
proof -
  have "drop_bit n P AND m = word_of_int x"
  proof (rule bit_word_eqI)
    fix i assume "i < LENGTH(32)"
    with assms show "bit (drop_bit n P AND m) i = bit (word_of_int x :: u32) i"
      by (auto simp: bit_and_iff bit_drop_bit_eq bit_mask_iff bit_word_of_int_iff
          dest: bit_small_int)
  qed
  moreover have "(2 :: int) ^ k \<le> 2 ^ 32" using assms(3) by (intro power_increasing) simp_all
  then have "x < 2 ^ 32" using assms(2) by linarith
  ultimately show ?thesis using assms(1) by (simp add: uint_word_of_int_eq take_bit_int_eq_self)
qed

lemma bit_field:
  "bit (push_bit n (word_of_int x) :: u32) j \<longleftrightarrow> j < 32 \<and> n \<le> j \<and> bit x (j - n)"
  "bit (word_of_int x :: u32) j \<longleftrightarrow> j < 32 \<and> bit x j"
  unfolding bit_push_bit_iff bit_word_of_int_iff by auto

lemma bit_pack_tm:
  "bit (pack_tm t) j \<longleftrightarrow> j < 32 \<and>
     (24 \<le> j \<and> bit (tm_year t - 100) (j - 24) \<or> 20 \<le> j \<and> bit (tm_mon t) (j - 20)
      \<or> 14 \<le> j \<and> bit (tm_mday t - 1) (j - 14) \<or> 11 \<le> j \<and> bit (tm_wday t) (j - 11)
      \<or> 6 \<le> j \<and> bit (tm_hour t) (j - 6) \<or> bit (tm_min t) j)"
  unfolding pack_tm_def bit_or_iff bit_field by blast

lemma unpack_pack_tm:
  assumes "tm_packable t"
  shows "unpack_tm base (pack_tm t) = base\<lparr>
    tm_sec := 0, tm_min := tm_min t, tm_hour := tm_hour t, tm_wday := 0,
    tm_mday := tm_mday t, tm_mon := tm_mon t, tm_year := tm_year t\<rparr>"
proof -
  note R = assms [unfolded tm_packable_def]
  have B: "bit (tm_min t) i \<Longrightarrow> i < 6" "bit (tm_hour t) i \<Longrightarrow> i < 5" "bit (tm_wday t) i \<Longrightarrow> i < 3"
    "bit (tm_mday t - 1) i \<Longrightarrow> i < 6" "bit (tm_mon t) i \<Longrightarrow> i < 4" "bit (tm_year t - 100) i \<Longrightarrow> i < 5"
    for i
    using R bit_small_int [of "tm_min t" 6 i] bit_small_int [of "tm_hour t" 5 i]
      bit_small_int [of "tm_wday t" 3 i] bit_small_int [of "tm_mday t - 1" 6 i]
      bit_small_int [of "tm_mon t" 4 i] bit_small_int [of "tm_year t - 100" 5 i] by simp_all
  have "bit (pack_tm t) (0 + i) = bit (tm_min t) i" if "i < 6" for i
    unfolding bit_pack_tm using that by (auto dest: B)
  then have "uint (drop_bit 0 (pack_tm t) AND 0x3F) = tm_min t"
    using R by (intro uint_field [where k = 6]) (simp_all add: mask_eq_exp_minus_1)
  moreover
  have "bit (pack_tm t) (6 + i) = bit (tm_hour t) i" if "i < 5" for i
    unfolding bit_pack_tm using that by (auto dest: B)
  then have "uint (drop_bit 6 (pack_tm t) AND 0x1F) = tm_hour t"
    using R by (intro uint_field [where k = 5]) (simp_all add: mask_eq_exp_minus_1)
  moreover
  have "bit (pack_tm t) (14 + i) = bit (tm_mday t - 1) i" if "i < 6" for i
    unfolding bit_pack_tm using that by (auto dest: B)
  then have "uint (drop_bit 14 (pack_tm t) AND 0x3F) = tm_mday t - 1"
    using R by (intro uint_field [where k = 6]) (simp_all add: mask_eq_exp_minus_1)
  moreover
  have "bit (pack_tm t) (20 + i) = bit (tm_mon t) i" if "i < 4" for i
    unfolding bit_pack_tm using that by (auto dest: B)
  then have "uint (drop_bit 20 (pack_tm t) AND 0xF) = tm_mon t"
    using R by (intro uint_field [where k = 4]) (simp_all add: mask_eq_exp_minus_1)
  moreover
  have "bit (pack_tm t) (24 + i) = bit (tm_year t - 100) i" if "i < 5" for i
    unfolding bit_pack_tm using that by (auto dest: B)
  then have "uint (drop_bit 24 (pack_tm t) AND 0x1F) = tm_year t - 100"
    using R by (intro uint_field [where k = 5]) (simp_all add: mask_eq_exp_minus_1)
  ultimately show ?thesis by (simp add: unpack_tm_def)
qed

end
