(* ===== verification/ByteBuffer_Codecs.thy ===== *)
theory ByteBuffer_Codecs
  imports ByteBuffer_Packed ByteBuffer_Bits Std_Map
begin

text \<open>
  The container templates at the end of \<^verbatim>\<open>ByteBuffer.h\<close> (\<^verbatim>\<open>std::vector\<close>, \<^verbatim>\<open>std::list\<close>,
  \<^verbatim>\<open>std::map\<close>), over any element type with \<^verbatim>\<open>operator<<\<close> and \<^verbatim>\<open>operator>>\<close>. What the templates
  need of the element type is the locale \<open>codec\<close>; the integer types, strings and packed
  GUIDs are its instances; vectors, lists and maps over them are codecs again.
\<close>

section \<open>Container templates\<close>

fun put_elems :: "('a \<Rightarrow> byte_buffer \<Rightarrow> byte_buffer bb_result) \<Rightarrow> 'a list \<Rightarrow> byte_buffer
    \<Rightarrow> byte_buffer bb_result" where
  "put_elems put [] b = Inr b"
| "put_elems put (x # xs) b = rbind (put x b) (put_elems put xs)"

definition put_vector :: "('a \<Rightarrow> byte_buffer \<Rightarrow> byte_buffer bb_result) \<Rightarrow> 'a list \<Rightarrow> byte_buffer
    \<Rightarrow> byte_buffer bb_result" where
  "put_vector put v b = rbind (append_word (of_nat (length v) :: u32) b) (put_elems put v)"

fun get_elems :: "(byte_buffer \<Rightarrow> ('a \<times> byte_buffer) bb_result) \<Rightarrow> nat \<Rightarrow> 'a list \<Rightarrow> byte_buffer
    \<Rightarrow> ('a list \<times> byte_buffer) bb_result" where
  "get_elems get 0 v b = Inr (v, b)"
| "get_elems get (Suc n) v b = rbind (get b) (\<lambda>(t, b). get_elems get n (v @ [t]) b)"

definition get_vector :: "(byte_buffer \<Rightarrow> ('a \<times> byte_buffer) bb_result) \<Rightarrow> byte_buffer
    \<Rightarrow> ('a list \<times> byte_buffer) bb_result" where
  "get_vector get b = rbind (read_word b) (\<lambda>(vsize :: u32, b). get_elems get (unat vsize) [] b)"

definition put_list :: "('a \<Rightarrow> byte_buffer \<Rightarrow> byte_buffer bb_result) \<Rightarrow> 'a list \<Rightarrow> byte_buffer
    \<Rightarrow> byte_buffer bb_result" where
  "put_list put v b = rbind (append_word (of_nat (length v) :: u32) b) (put_elems put v)"

definition get_list :: "(byte_buffer \<Rightarrow> ('a \<times> byte_buffer) bb_result) \<Rightarrow> byte_buffer
    \<Rightarrow> ('a list \<times> byte_buffer) bb_result" where
  "get_list get b = rbind (read_word b) (\<lambda>(vsize :: u32, b). get_elems get (unat vsize) [] b)"

definition put_pair :: "('a \<Rightarrow> byte_buffer \<Rightarrow> byte_buffer bb_result)
    \<Rightarrow> ('b \<Rightarrow> byte_buffer \<Rightarrow> byte_buffer bb_result) \<Rightarrow> 'a \<times> 'b \<Rightarrow> byte_buffer \<Rightarrow> byte_buffer bb_result" where
  "put_pair putk putv kv b = rbind (putk (fst kv) b) (putv (snd kv))"

definition put_map :: "('k \<Rightarrow> byte_buffer \<Rightarrow> byte_buffer bb_result)
    \<Rightarrow> ('v \<Rightarrow> byte_buffer \<Rightarrow> byte_buffer bb_result) \<Rightarrow> ('k, 'v) std_map \<Rightarrow> byte_buffer
    \<Rightarrow> byte_buffer bb_result" where
  "put_map putk putv m b =
     rbind (append_word (of_nat (length m) :: u32) b) (put_elems (put_pair putk putv) m)"

fun get_map_elems :: "(byte_buffer \<Rightarrow> ('k::linorder \<times> byte_buffer) bb_result)
    \<Rightarrow> (byte_buffer \<Rightarrow> ('v \<times> byte_buffer) bb_result) \<Rightarrow> nat \<Rightarrow> ('k, 'v) std_map \<Rightarrow> byte_buffer
    \<Rightarrow> (('k, 'v) std_map \<times> byte_buffer) bb_result" where
  "get_map_elems getk getv 0 m b = Inr (m, b)"
| "get_map_elems getk getv (Suc n) m b =
     rbind (getk b) (\<lambda>(k, b). rbind (getv b) (\<lambda>(v, b). get_map_elems getk getv n (sm_insert k v m) b))"

definition get_map :: "(byte_buffer \<Rightarrow> ('k::linorder \<times> byte_buffer) bb_result)
    \<Rightarrow> (byte_buffer \<Rightarrow> ('v \<times> byte_buffer) bb_result) \<Rightarrow> byte_buffer
    \<Rightarrow> (('k, 'v) std_map \<times> byte_buffer) bb_result" where
  "get_map getk getv b = rbind (read_word b) (\<lambda>(msize :: u32, b). get_map_elems getk getv (unat msize) [] b)"

section \<open>What the templates need of an element type\<close>

text \<open>
  \<open>enc x\<close> is the format of \<open>x\<close>: on a buffer with room, \<open>put\<close> emits it, and on a buffer
  whose unread bytes start with it, \<open>get\<close> consumes it and returns \<open>x\<close>. \<open>ok\<close> are the values
  the format can carry.
\<close>

locale codec =
  fixes put :: "'a \<Rightarrow> byte_buffer \<Rightarrow> byte_buffer bb_result"
    and get :: "byte_buffer \<Rightarrow> ('a \<times> byte_buffer) bb_result"
    and enc :: "'a \<Rightarrow> u8 list"
    and ok :: "'a \<Rightarrow> bool"
  assumes put_emit: "ok x \<Longrightarrow> wr_ok (length (enc x)) b \<Longrightarrow> put x b = Inr (emit (enc x) b)"
    and get_consume: "ok x \<Longrightarrow> rd_ok b \<Longrightarrow> unread b = enc x @ rest \<Longrightarrow>
      get b = Inr (x, consume (length (enc x)) b)"
begin

lemma put_elems_emit:
  "list_all ok xs \<Longrightarrow> wr_ok (length bs + length (concat (map enc xs))) b \<Longrightarrow>
     put_elems put xs (emit bs b) = Inr (emit (bs @ concat (map enc xs)) b)"
proof (induction xs arbitrary: bs)
  case Nil
  then show ?case by simp
next
  case (Cons x xs)
  then have "put x (emit bs b) = Inr (emit (bs @ enc x) b)"
    by (simp add: put_emit wr_ok_mono)
  moreover from Cons have "put_elems put xs (emit (bs @ enc x) b) =
      Inr (emit ((bs @ enc x) @ concat (map enc xs)) b)"
    by (intro Cons.IH) (simp_all add: add.assoc)
  ultimately show ?case by simp
qed

lemma get_elems_consume:
  "list_all ok xs \<Longrightarrow> rd_ok b \<Longrightarrow> bitpos b = 8 \<Longrightarrow> unread b = concat (map enc xs) @ rest \<Longrightarrow>
     get_elems get (length xs) acc b = Inr (acc @ xs, consume (length (concat (map enc xs))) b)"
proof (induction xs arbitrary: b acc)
  case Nil
  then show ?case by (simp add: consume_def)
next
  case (Cons x xs)
  then have g: "get b = Inr (x, consume (length (enc x)) b)"
    by (intro get_consume [of x b "concat (map enc xs) @ rest"]) simp_all
  from Cons.prems have "rd_ok (consume (length (enc x)) b)" by (intro rd_ok_consume) simp_all
  with Cons g show ?case by simp
qed

definition vector_enc :: "'a list \<Rightarrow> u8 list" where
  "vector_enc v = le_bytes (of_nat (length v) :: u32) @ concat (map enc v)"

definition vector_ok :: "'a list \<Rightarrow> bool" where
  "vector_ok v \<longleftrightarrow> list_all ok v \<and> length v < 2 ^ 32"

lemma vector_codec: "codec (put_vector put) (get_vector get) vector_enc vector_ok"
proof unfold_locales
  fix v b assume v: "vector_ok v" and w: "wr_ok (length (vector_enc v)) b"
  let ?n = "of_nat (length v) :: u32"
  have "append_word ?n b = Inr (emit (le_bytes ?n) b)"
    using w by (intro append_word_emit) (simp add: vector_enc_def wr_ok_mono)
  moreover have "put_elems put v (emit (le_bytes ?n) b) = Inr (emit (le_bytes ?n @ concat (map enc v)) b)"
    using v w by (intro put_elems_emit) (simp_all add: vector_ok_def vector_enc_def)
  ultimately show "put_vector put v b = Inr (emit (vector_enc v) b)"
    by (simp add: put_vector_def vector_enc_def)
next
  fix v b rest assume v: "vector_ok v" and r: "rd_ok b" and u: "unread b = vector_enc v @ rest"
  let ?n = "of_nat (length v) :: u32"
  have n: "unat ?n = length v" using v by (simp add: vector_ok_def unat_of_nat)
  have "read_word b = Inr (?n, consume 4 b)"
    using read_word_consume [OF r, of ?n "concat (map enc v) @ rest"] u by (simp add: vector_enc_def)
  moreover have "rd_ok (consume 4 b)" using r u by (intro rd_ok_consume) (simp_all add: vector_enc_def)
  ultimately show "get_vector get b = Inr (v, consume (length (vector_enc v)) b)"
    using v u n get_elems_consume [of v "consume 4 b" rest "[]"]
    by (simp add: get_vector_def vector_enc_def vector_ok_def)
qed

text \<open>Writing a value into a fresh packet and reading the received bytes back.\<close>

lemma packet_roundtrip:
  assumes "ok x" and "length (enc x) \<le> 10000000"
  shows "\<exists>b. put x bb_empty = Inr b \<and> get b = Inr (x, consume (bb_size b) b)"
proof -
  have "put x bb_empty = Inr (emit (enc x) bb_empty)"
    using assms by (intro put_emit) (simp_all add: wr_ok_def bb_empty_def)
  moreover have "get (emit (enc x) bb_empty) = Inr (x, consume (length (enc x)) (emit (enc x) bb_empty))"
    using assms by (intro get_consume [where rest = "[]"])
      (simp_all add: rd_ok_def unread_def bb_empty_def)
  ultimately show ?thesis by (simp add: bb_empty_def)
qed

end

section \<open>Instances\<close>

lemma word_codec:
  "8 dvd LENGTH('a) \<Longrightarrow> codec append_word read_word (le_bytes :: 'a::len word \<Rightarrow> u8 list) (\<lambda>_. True)"
  by unfold_locales (simp_all only: length_le_bytes append_word_emit read_word_consume)

interpretation u8c: codec append_word read_word "le_bytes :: u8 \<Rightarrow> u8 list" "\<lambda>_. True"
  by (rule word_codec) simp

interpretation u16c: codec append_word read_word "le_bytes :: u16 \<Rightarrow> u8 list" "\<lambda>_. True"
  by (rule word_codec) simp

interpretation u32c: codec append_word read_word "le_bytes :: u32 \<Rightarrow> u8 list" "\<lambda>_. True"
  by (rule word_codec) simp

interpretation u64c: codec append_word read_word "le_bytes :: u64 \<Rightarrow> u8 list" "\<lambda>_. True"
  by (rule word_codec) simp

interpretation strc: codec put_string get_string "\<lambda>s. s @ [0]" "\<lambda>s. 0 \<notin> set s"
  by unfold_locales (simp_all add: put_string_emit get_string_consume)

interpretation guidc: codec appendPackGUID readPackGUID guid_enc "\<lambda>_. True"
  by unfold_locales (simp_all add: appendPackGUID_emit readPackGUID_consume)

text \<open>A key and a value one after the other, as the map template writes them.\<close>

locale codec_pair =
  k: codec putk getk enck okk + v: codec putv getv encv okv
  for putk :: "'k::linorder \<Rightarrow> byte_buffer \<Rightarrow> byte_buffer bb_result" and getk enck okk
    and putv :: "'v \<Rightarrow> byte_buffer \<Rightarrow> byte_buffer bb_result" and getv encv okv
begin

definition pair_enc :: "'k \<times> 'v \<Rightarrow> u8 list" where
  "pair_enc p = enck (fst p) @ encv (snd p)"

definition map_enc :: "('k, 'v) std_map \<Rightarrow> u8 list" where
  "map_enc m = le_bytes (of_nat (length m) :: u32) @ concat (map pair_enc m)"

definition map_ok :: "('k, 'v) std_map \<Rightarrow> bool" where
  "map_ok m \<longleftrightarrow> sm_inv m \<and> list_all (\<lambda>p. okk (fst p) \<and> okv (snd p)) m \<and> length m < 2 ^ 32"

lemma put_pairs_emit:
  "list_all (\<lambda>p. okk (fst p) \<and> okv (snd p)) m \<Longrightarrow>
     wr_ok (length bs + length (concat (map pair_enc m))) b \<Longrightarrow>
     put_elems (put_pair putk putv) m (emit bs b) = Inr (emit (bs @ concat (map pair_enc m)) b)"
proof (induction m arbitrary: bs)
  case Nil
  then show ?case by simp
next
  case (Cons p m)
  then have "putk (fst p) (emit bs b) = Inr (emit (bs @ enck (fst p)) b)"
    by (simp add: k.put_emit pair_enc_def wr_ok_mono)
  moreover from Cons have "putv (snd p) (emit (bs @ enck (fst p)) b) = Inr (emit (bs @ pair_enc p) b)"
    by (simp add: v.put_emit pair_enc_def wr_ok_mono)
  moreover from Cons have "put_elems (put_pair putk putv) m (emit (bs @ pair_enc p) b) =
      Inr (emit ((bs @ pair_enc p) @ concat (map pair_enc m)) b)"
    by (intro Cons.IH) (simp_all add: add.assoc)
  ultimately show ?case by (simp add: put_pair_def [of putk putv p])
qed

lemma get_map_elems_consume:
  "sm_inv (acc @ m) \<Longrightarrow> list_all (\<lambda>p. okk (fst p) \<and> okv (snd p)) m \<Longrightarrow> rd_ok b \<Longrightarrow> bitpos b = 8 \<Longrightarrow>
     unread b = concat (map pair_enc m) @ rest \<Longrightarrow>
     get_map_elems getk getv (length m) acc b =
       Inr (acc @ m, consume (length (concat (map pair_enc m))) b)"
proof (induction m arbitrary: b acc)
  case Nil
  then show ?case by (simp add: consume_def)
next
  case (Cons p m)
  let ?b1 = "consume (length (enck (fst p))) b" and ?b2 = "consume (length (pair_enc p)) b"
  have gk: "getk b = Inr (fst p, ?b1)"
    using Cons.prems by (intro k.get_consume [of _ _ "encv (snd p) @ concat (map pair_enc m) @ rest"])
      (simp_all add: pair_enc_def [of p])
  have r1: "rd_ok ?b1" using Cons.prems by (intro rd_ok_consume) (simp_all add: pair_enc_def [of p])
  have gv: "getv ?b1 = Inr (snd p, ?b2)"
    using Cons.prems r1 v.get_consume [of "snd p" ?b1 "concat (map pair_enc m) @ rest"]
    by (simp add: pair_enc_def [of p])
  have r2: "rd_ok ?b2" using Cons.prems by (intro rd_ok_consume) simp_all
  have lt: "\<forall>k' \<in> fst ` set acc. k' < fst p"
    using Cons.prems(1) by (force simp: sm_inv_def sorted_wrt_append)
  then have "sm_find acc (fst p) = None" by (auto simp: sm_find_None)
  with lt have ins: "sm_insert (fst p) (snd p) acc = acc @ [p]"
    by (simp add: sm_insert_def sm_set_snoc)
  have "get_map_elems getk getv (length m) (acc @ [p]) ?b2 =
      Inr ((acc @ [p]) @ m, consume (length (concat (map pair_enc m))) ?b2)"
    using Cons.prems r2 by (intro Cons.IH) simp_all
  with gk gv ins show ?case by simp
qed

lemma map_codec: "codec (put_map putk putv) (get_map getk getv) map_enc map_ok"
proof unfold_locales
  fix m b assume m: "map_ok m" and w: "wr_ok (length (map_enc m)) b"
  let ?n = "of_nat (length m) :: u32"
  have "append_word ?n b = Inr (emit (le_bytes ?n) b)"
    using w by (intro append_word_emit) (simp add: map_enc_def wr_ok_mono)
  with m w put_pairs_emit [of m "le_bytes ?n" b]
  show "put_map putk putv m b = Inr (emit (map_enc m) b)"
    by (simp add: put_map_def map_enc_def map_ok_def)
next
  fix m b rest assume m: "map_ok m" and r: "rd_ok b" and u: "unread b = map_enc m @ rest"
  let ?n = "of_nat (length m) :: u32"
  have n: "unat ?n = length m" using m by (simp add: map_ok_def unat_of_nat)
  have "read_word b = Inr (?n, consume 4 b)"
    using read_word_consume [OF r, of ?n "concat (map pair_enc m) @ rest"] u by (simp add: map_enc_def)
  moreover have "rd_ok (consume 4 b)" using r u by (intro rd_ok_consume) (simp_all add: map_enc_def)
  ultimately show "get_map getk getv b = Inr (m, consume (length (map_enc m)) b)"
    using m u n get_map_elems_consume [of "[]" m "consume 4 b" rest]
    by (simp add: get_map_def map_enc_def map_ok_def)
qed

end

interpretation u32_str: codec_pair append_word read_word "le_bytes :: u32 \<Rightarrow> u8 list" "\<lambda>_. True"
    put_string get_string "\<lambda>s. s @ [0]" "\<lambda>s. 0 \<notin> set s"
  by unfold_locales

interpretation str_vec: codec "put_vector put_string" "get_vector get_string" strc.vector_enc strc.vector_ok
  by (rule strc.vector_codec)

interpretation u32_str_map: codec "put_map append_word put_string" "get_map read_word get_string"
    u32_str.map_enc u32_str.map_ok
  by (rule u32_str.map_codec)

end
