(* ===== verification/ByteBuffer_Properties.thy ===== *)
theory ByteBuffer_Properties
  imports ByteBuffer_Codecs
begin

text \<open>
  The properties of the packet buffer: what is written is read back (integers, strings,
  containers, packed GUIDs, packed times, bit fields, byte masks), the byte-wise bit
  loops agree with the bit-wise ones, the format does not depend on the host, and reading
  a received packet never leaves its storage.
\<close>

section \<open>Sequences of bit fields\<close>

text \<open>
  A packet handler writes a sequence of bit fields (width and value) and the receiver
  reads fields of the same widths. \<open>received\<close> is the packet on the other side: the same
  bytes, nothing read yet.
\<close>

fun write_fields :: "(nat \<times> u32) list \<Rightarrow> byte_buffer \<Rightarrow> byte_buffer bb_result" where
  "write_fields [] b = Inr b"
| "write_fields ((n, v) # fs) b = rbind (WriteBits v (int n) b) (write_fields fs)"

fun read_fields :: "nat list \<Rightarrow> byte_buffer \<Rightarrow> (u32 list \<times> byte_buffer) bb_result" where
  "read_fields [] b = Inr ([], b)"
| "read_fields (n # ns) b =
     rbind (ReadBits (int n) b) (\<lambda>(v, b). rbind (read_fields ns b) (\<lambda>(vs, b). Inr (v # vs, b)))"

definition received :: "byte_buffer \<Rightarrow> byte_buffer" where
  "received b = \<lparr>storage = storage b, rpos = 0, wpos = bb_size b, bitpos = 8\<rparr>"

abbreviation field_bits :: "(nat \<times> u32) list \<Rightarrow> bool list" where
  "field_bits fs \<equiv> concat (map (\<lambda>(n, v). bits_be n v) fs)"

lemma write_fields_written:
  "wr_inv b \<Longrightarrow> \<forall>(n, v) \<in> set fs. n \<le> 32 \<Longrightarrow> length (written b) + length (field_bits fs) \<le> 80000000 \<Longrightarrow>
     \<exists>b'. write_fields fs b = Inr b' \<and> wr_inv b' \<and> written b' = written b @ field_bits fs"
proof (induction fs arbitrary: b)
  case Nil
  then show ?case by simp
next
  case (Cons f fs)
  obtain n v where f: "f = (n, v)" by (cases f)
  with Cons.prems obtain b1 where "WriteBits v (int n) b = Inr b1" "wr_inv b1"
    "written b1 = written b @ bits_be n v"
    using WriteBits_loop_written [of b n v] by (auto simp: WriteBits_def)
  with Cons.IH [of b1] Cons.prems f show ?case by auto
qed

lemma read_fields_unread:
  "rd_inv b \<Longrightarrow> \<forall>(n, v) \<in> set fs. n \<le> 32 \<Longrightarrow> unread_bits b = field_bits fs @ rest \<Longrightarrow>
     \<exists>b'. read_fields (map fst fs) b = Inr (map (\<lambda>(n, v). take_bit n v) fs, b') \<and> storage b' = storage b"
proof (induction fs arbitrary: b)
  case Nil
  then show ?case by simp
next
  case (Cons f fs)
  obtain n v where f: "f = (n, v)" by (cases f)
  with Cons.prems obtain b1 where "ReadBits (int n) b = Inr (take_bit n v, b1)" "rd_inv b1"
    "unread_bits b1 = field_bits fs @ rest" "storage b1 = storage b"
    using ReadBits_loop_unread [of b n 0] by (auto simp: ReadBits_def word_of_bits_be)
  with Cons.IH [of b1] Cons.prems f show ?case by auto
qed

lemma rd_inv_received: "bb_size b \<le> 10000000 \<Longrightarrow> rd_inv (received b)"
  by (simp add: received_def rd_inv_def rd_ok_def)

lemma unread_bits_received: "unread_bits (received b) = stream (storage b)"
  by (simp add: unread_bits_aligned received_def unread_def)

lemma written_prefix: "\<exists>pad. stream (storage b) = written b @ pad"
  by (metis append_take_drop_id written_def)

lemma wr_inv_size:
  assumes "wr_inv b" and "length (written b) \<le> 80000000"
  shows "bb_size b \<le> 10000000"
proof (cases "bb_size b = 0")
  case False
  then have "8 \<le> 8 * bb_size b" by (cases "bb_size b") simp_all
  with assms length_written [OF assms(1)] show ?thesis by (auto simp: wr_inv_def)
qed simp

section \<open>Byte masks and sequences\<close>

text \<open>
  The eight bytes of a GUID are sent as eight mask bits and then the non-zero bytes. The
  bytes may go in any order; the model takes the list of them in the packet's order.
\<close>

fun write_masks :: "u8 list \<Rightarrow> byte_buffer \<Rightarrow> byte_buffer bb_result" where
  "write_masks [] b = Inr b"
| "write_masks (x # xs) b = rbind (WriteByteMask x b) (write_masks xs)"

fun write_seqs :: "u8 list \<Rightarrow> byte_buffer \<Rightarrow> byte_buffer bb_result" where
  "write_seqs [] b = Inr b"
| "write_seqs (x # xs) b = rbind (WriteByteSeq x b) (write_seqs xs)"

fun read_masks :: "nat \<Rightarrow> byte_buffer \<Rightarrow> (u8 list \<times> byte_buffer) bb_result" where
  "read_masks 0 b = Inr ([], b)"
| "read_masks (Suc n) b =
     rbind (ReadByteMask b) (\<lambda>(x, b). rbind (read_masks n b) (\<lambda>(xs, b). Inr (x # xs, b)))"

fun read_seqs :: "u8 list \<Rightarrow> byte_buffer \<Rightarrow> (u8 list \<times> byte_buffer) bb_result" where
  "read_seqs [] b = Inr ([], b)"
| "read_seqs (m # ms) b =
     rbind (ReadByteSeq m b) (\<lambda>(x, b). rbind (read_seqs ms b) (\<lambda>(xs, b). Inr (x # xs, b)))"

abbreviation mask_of :: "u8 \<Rightarrow> u8" where
  "mask_of x \<equiv> (if x \<noteq> 0 then 1 else 0)"

abbreviation seq_bytes :: "u8 list \<Rightarrow> u8 list" where
  "seq_bytes xs \<equiv> map (\<lambda>x. x XOR 1) (filter (\<lambda>x. x \<noteq> 0) xs)"

lemma write_masks_bits: "write_masks xs b = write_bit_list (map (\<lambda>x. x \<noteq> 0) xs) b"
proof (induction xs arbitrary: b)
  case (Cons x xs)
  then have "write_masks xs = write_bit_list (map (\<lambda>x. x \<noteq> 0) xs)" by (rule ext)
  then show ?case by (simp add: WriteByteMask_def)
qed simp

lemma write_seqs_emit:
  "wr_ok (length (seq_bytes xs)) b \<Longrightarrow>
     \<exists>b'. write_seqs xs b = Inr b' \<and> storage b' = storage b @ seq_bytes xs"
proof (induction xs arbitrary: b)
  case Nil
  then show ?case by simp
next
  case (Cons x xs)
  show ?case
  proof (cases "x = 0")
    case True
    with Cons show ?thesis by (simp add: WriteByteSeq_def)
  next
    case False
    with Cons.prems have a: "append_word (x XOR 1) b = Inr (emit [x XOR 1] b)"
      by (simp add: append_word_emit wr_ok_mono)
    from False Cons.prems have "wr_ok (length (seq_bytes xs)) (emit [x XOR 1] b)" by simp
    from Cons.IH [OF this] a False show ?thesis by (auto simp: WriteByteSeq_def)
  qed
qed

lemma ReadBit_bitpos: "ReadBit b = Inr (x, b') \<Longrightarrow> 1 \<le> bitpos b'"
  by (auto simp: ReadBit_def rbind_eq_Inr Let_def split: if_splits)

lemma read_masks_unread:
  "rd_inv b \<Longrightarrow> 1 \<le> bitpos b \<Longrightarrow> unread_bits b = map (\<lambda>x. x \<noteq> 0) xs @ rest \<Longrightarrow>
     \<exists>b'. read_masks (length xs) b = Inr (map mask_of xs, b') \<and> rd_inv b' \<and> unread_bits b' = rest
       \<and> storage b' = storage b \<and> 1 \<le> bitpos b'"
proof (induction xs arbitrary: b)
  case Nil
  then show ?case by simp
next
  case (Cons x xs)
  then obtain b1 where r: "ReadBit b = Inr (x \<noteq> 0, b1)" and "rd_inv b1"
    "unread_bits b1 = map (\<lambda>x. x \<noteq> 0) xs @ rest" "storage b1 = storage b"
    using ReadBit_unread [of b "x \<noteq> 0"] by auto
  with Cons.IH [of b1] ReadBit_bitpos [OF r] obtain b2 where
    "read_masks (length xs) b1 = Inr (map mask_of xs, b2)"
    "rd_inv b2" "unread_bits b2 = rest" "storage b2 = storage b" "1 \<le> bitpos b2" by auto
  with r show ?case by (auto simp: ReadByteMask_def)
qed

lemma xor_one_twice: "1 XOR (x XOR 1) = (x :: u8)"
  by (simp add: xor.commute [of x] flip: xor.assoc)

lemma read_seqs_unread:
  "rd_ok b \<Longrightarrow> unread b = seq_bytes xs @ rest \<Longrightarrow>
     \<exists>b'. read_seqs (map mask_of xs) b = Inr (xs, b')"
proof (induction xs arbitrary: b)
  case Nil
  then show ?case by simp
next
  case (Cons x xs)
  let ?b = "ResetBits b"
  have rd: "rd_ok ?b" and un: "unread ?b = seq_bytes (x # xs) @ rest"
    using Cons.prems by (simp_all add: ResetBits_def rd_ok_def unread_def)
  show ?case
  proof (cases "x = 0")
    case True
    with Cons.IH [OF rd] un show ?thesis by (auto simp: ReadByteSeq_def)
  next
    case False
    with un have r: "read_word ?b = Inr (x XOR 1, consume 1 ?b)"
      using read_word_consume [OF rd, of "x XOR 1"] by simp
    have rd1: "rd_ok (consume 1 ?b)" using rd un False by (intro rd_ok_consume) simp_all
    have un1: "unread (consume 1 ?b) = seq_bytes xs @ rest" using un False by simp
    from Cons.IH [OF rd1 un1] r False show ?thesis
      by (auto simp: ReadByteSeq_def xor_one_twice)
  qed
qed

section \<open>Reading in general\<close>

lemma read_word_u8:
  assumes "rd_ok b"
  shows "(read_word b :: (u8 \<times> byte_buffer) bb_result) =
    (case unread b of [] \<Rightarrow> Inl (ByteBufferException False (rpos b) 1 (bb_size b))
                    | x # _ \<Rightarrow> Inr (x, consume 1 b))"
  using assms read_word_short [of b, where 'a = 8] read_word_consume [of b "hd (unread b)" "tl (unread b)"]
  by (cases "unread b") simp_all

lemma get_string_loop_all:
  "rd_ok b \<Longrightarrow> \<exists>b'. get_string_loop acc b = Inr (acc @ takeWhile (\<lambda>c. c \<noteq> 0) (unread b), b')
     \<and> rd_ok b' \<and> unread b' = tl (dropWhile (\<lambda>c. c \<noteq> 0) (unread b)) \<and> storage b' = storage b"
proof (induction acc b rule: get_string_loop.induct)
  case (1 acc b)
  show ?case
  proof (cases "unread b")
    case Nil
    then have "\<not> rpos b < bb_size b" by (simp add: unread_def)
    with Nil 1 show ?thesis by (auto simp: get_string_loop.simps [of acc b])
  next
    case (Cons c cs)
    then have lt: "rpos b < bb_size b" by (auto simp: unread_def intro: ccontr)
    have r: "read_word b = Inr (c, consume 1 b)" using read_word_u8 [OF "1.prems"] Cons by simp
    have rd: "rd_ok (consume 1 b)" using "1.prems" Cons by (intro rd_ok_consume) simp_all
    show ?thesis
    proof (cases "c = 0")
      case True
      with lt r rd Cons show ?thesis by (auto simp: get_string_loop.simps [of acc b])
    next
      case False
      from "1.IH" [OF lt r refl False rd] lt r False Cons show ?thesis
        by (auto simp: get_string_loop.simps [of acc b])
    qed
  qed
qed

lemma read_guid_loop_safe:
  "rd_ok b \<Longrightarrow> read_guid_loop mark is guid b \<noteq> Inl OutOfRange"
proof (induction mark "is" guid b rule: read_guid_loop.induct)
  case (2 mark i "is" guid b)
  show ?case
  proof (cases "unread b")
    case Nil
    with 2 show ?thesis by (simp add: read_word_u8)
  next
    case (Cons x xs)
    then have "rd_ok (consume 1 b)" using "2.prems" by (intro rd_ok_consume) simp_all
    with 2 Cons show ?thesis by (simp add: read_word_u8)
  qed
qed simp

lemma ReadBits_loop_safe:
  "rd_inv b \<Longrightarrow> ReadBits_loop v bits b \<noteq> Inl OutOfRange"
  using ReadBits_loop_unread [of b bits v] ReadBits_loop_short [of b bits v]
  by (cases "bits \<le> length (unread_bits b)") auto

section \<open>Properties\<close>

text \<open>C11: a sequence of bit fields of at most 32 bits each, written into a fresh packet, is read
  back on the other side field by field: every field comes back as the low bits of the value
  that was written, whatever the alignment of the fields.\<close>

theorem bit_fields_roundtrip:
  assumes "\<forall>(n, v) \<in> set fs. n \<le> 32" and "length (field_bits fs) \<le> 80000000"
  shows "\<exists>b b'. write_fields fs bb_empty = Inr b
    \<and> read_fields (map fst fs) (received b) = Inr (map (\<lambda>(n, v). take_bit n v) fs, b')"
proof -
  obtain b where w: "write_fields fs bb_empty = Inr b" and i: "wr_inv b" and b: "written b = field_bits fs"
    using write_fields_written [OF wr_inv_empty assms(1)] assms(2) by (auto simp: written_empty)
  obtain pad where "unread_bits (received b) = field_bits fs @ pad"
    using written_prefix [of b] b by (auto simp: unread_bits_received)
  moreover have "rd_inv (received b)"
    using wr_inv_size [OF i] b assms(2) by (intro rd_inv_received) simp
  ultimately show ?thesis using read_fields_unread [OF _ assms(1)] w by blast
qed

theorem bit_fields_roundtrip_witness:
  "\<exists>b b'. write_fields [(3, 5), (32, 0x80000001), (7, 0xFFFF)] bb_empty = Inr b
    \<and> read_fields [3, 32, 7] (received b) = Inr ([5, 0x80000001, 0x7F], b')"
  using bit_fields_roundtrip [of "[(3, 5), (32, 0x80000001), (7, 0xFFFF)]"]
  by (simp add: take_bit_eq_mask mask_eq_exp_minus_1)

text \<open>C29: \<^verbatim>\<open>WriteBits\<close> is the loop of \<^verbatim>\<open>WriteBit\<close> over the bits of the field, most significant
  first: filling whole bytes at a time leaves exactly the same buffer.\<close>

theorem WriteBits_bitwise:
  assumes "wr_inv b" and "n \<le> 32" and "length (written b) + n \<le> 80000000"
  shows "WriteBits v (int n) b = write_bit_list (bits_be n v) b"
proof -
  obtain b1 where 1: "WriteBits v (int n) b = Inr b1" "wr_inv b1" "written b1 = written b @ bits_be n v"
    "rpos b1 = rpos b"
    using WriteBits_loop_written [OF assms(1)] assms(2,3) by (auto simp: WriteBits_def)
  obtain b2 where 2: "write_bit_list (bits_be n v) b = Inr b2" "wr_inv b2"
    "written b2 = written b @ bits_be n v" "rpos b2 = rpos b"
    using write_bit_list_written [OF assms(1), of "bits_be n v"] assms(3) by auto
  from 1 2 have "b1 = b2" by (intro wr_inv_determined) simp_all
  with 1 2 show ?thesis by simp
qed

theorem WriteBits_bitwise_witness:
  "WriteBits 0x5A5 (int 11) bb_empty = write_bit_list (bits_be 11 (0x5A5 :: u32)) bb_empty"
  by (rule WriteBits_bitwise) (simp_all add: wr_inv_empty written_empty)

text \<open>C30: \<^verbatim>\<open>ReadBits\<close> on any buffer that is being read: a width outside 0..32 and a packet with
  too few bits left raise \<^verbatim>\<open>ByteBufferException\<close>; otherwise the next bits are returned, most
  significant first, and exactly those are consumed. No access leaves the storage.\<close>

theorem ReadBits_spec:
  assumes "rd_inv b"
  shows "if 0 \<le> k \<and> k \<le> 32 \<and> nat k \<le> length (unread_bits b)
    then \<exists>b'. ReadBits k b = Inr (word_of_bits (take (nat k) (unread_bits b)), b') \<and> rd_inv b'
           \<and> unread_bits b' = drop (nat k) (unread_bits b) \<and> storage b' = storage b
    else \<exists>p n s. ReadBits k b = Inl (ByteBufferException False p n s)"
proof (cases "0 \<le> k \<and> k \<le> 32")
  case True
  then show ?thesis
    using ReadBits_loop_unread [OF assms, of "nat k" 0] ReadBits_loop_short [OF assms, of "nat k" 0]
    by (auto simp: ReadBits_def)
qed (auto simp: ReadBits_def)

theorem ReadBits_spec_witness:
  "\<exists>b'. ReadBits 4 (received (bb_new 1 True)) = Inr (0, b')"
proof -
  have "rd_inv (received (bb_new 1 True))" by (simp add: rd_inv_received bb_new_def)
  moreover have u: "unread_bits (received (bb_new 1 True)) = replicate 8 False"
    by (simp add: unread_bits_received bb_new_def bits_be_def upt_rec numeral_eq_Suc)
  ultimately show ?thesis using ReadBits_spec [of "received (bb_new 1 True)" 4]
    by (auto simp: word_of_bits_def shift_in_def numeral_eq_Suc)
qed

text \<open>C20: packed GUIDs: at most nine bytes are appended, they are the mask of the non-zero bytes
  followed by those bytes in order, and reading them gives the GUID back, whatever follows
  them in the packet.\<close>

theorem packed_guid_roundtrip:
  assumes "wr_ok 9 b" and "rd_ok c" and "unread c = guid_enc guid @ rest"
  shows "appendPackGUID guid b = Inr (emit (guid_enc guid) b) \<and> length (guid_enc guid) \<le> 9
    \<and> (\<exists>c'. readPackGUID c = Inr (guid, c') \<and> unread c' = rest)"
  using assms length_guid_enc [of guid] wr_ok_mono [OF assms(1)]
  by (simp add: appendPackGUID_emit readPackGUID_consume)

theorem packed_guid_roundtrip_witness:
  "length (guid_enc 0xF130000C) \<le> 9 \<and> (\<exists>c'. readPackGUID (emit (guid_enc 0xF130000C @ [7]) bb_empty)
     = Inr (0xF130000C, c') \<and> unread c' = [7])"
proof -
  have "length (guid_enc 0xF130000C) \<le> 9" by (rule length_guid_enc)
  then show ?thesis
    using packed_guid_roundtrip [of bb_empty "emit (guid_enc 0xF130000C @ [7]) bb_empty" "0xF130000C" "[7]"]
    by (simp add: wr_ok_def rd_ok_def unread_def bb_empty_def)
qed

text \<open>Packed times: for a calendar time in range (years 2000 to 2031, any time zone), reading
  what was written asks \<^verbatim>\<open>mktime\<close> for the same minute, with seconds and weekday dropped.\<close>

theorem packed_time_roundtrip:
  assumes "tm_packable (localtime t)" and "wr_ok 4 b"
  shows "AppendPackedTime localtime t b = Inr (emit (le_bytes (pack_tm (localtime t))) b)
    \<and> (rd_ok c \<longrightarrow> unread c = le_bytes (pack_tm (localtime t)) @ rest \<longrightarrow>
       ReadPackedTime localtime mktime now c = Inr (word_of_int (mktime ((localtime now)\<lparr>
         tm_sec := 0, tm_min := tm_min (localtime t), tm_hour := tm_hour (localtime t), tm_wday := 0,
         tm_mday := tm_mday (localtime t), tm_mon := tm_mon (localtime t),
         tm_year := tm_year (localtime t)\<rparr>)), consume 4 c))"
  using assms read_word_consume [of c "pack_tm (localtime t)" rest]
  by (simp add: AppendPackedTime_def append_word_emit ReadPackedTime_def unpack_pack_tm)

definition christmas_2010 :: tm where
  "christmas_2010 = \<lparr>tm_sec = 30, tm_min = 15, tm_hour = 20, tm_mday = 24, tm_mon = 11, tm_year = 110,
     tm_wday = 5, tm_yday = 357, tm_isdst = 0\<rparr>"

theorem packed_time_roundtrip_witness:
  "ReadPackedTime (\<lambda>_. christmas_2010) tm_min 0
     (emit (le_bytes (pack_tm christmas_2010)) bb_empty) = Inr (15, consume 4 (emit (le_bytes (pack_tm christmas_2010)) bb_empty))"
  using packed_time_roundtrip [of "\<lambda>_. christmas_2010" 0 bb_empty
      "emit (le_bytes (pack_tm christmas_2010)) bb_empty" "[]" tm_min 0]
  by (simp add: christmas_2010_def tm_packable_def wr_ok_def rd_ok_def unread_def bb_empty_def)

text \<open>A map from 32-bit keys to strings without NUL survives the packet: the container
  templates write the size and the pairs, and reading inserts them one by one into a map that
  ends up the same.\<close>

theorem string_map_roundtrip:
  assumes "sm_inv m" and "\<forall>s \<in> snd ` set m. 0 \<notin> set s" and "length m < 2 ^ 32"
    and "4 + (\<Sum>p\<leftarrow>m. 5 + length (snd p)) \<le> 10000000"
  shows "\<exists>b. put_map append_word put_string m bb_empty = Inr b
    \<and> get_map read_word get_string b = Inr (m :: (u32, u8 list) std_map, consume (bb_size b) b)"
proof (rule u32_str_map.packet_roundtrip)
  show "u32_str.map_ok m" using assms by (auto simp: u32_str.map_ok_def list_all_iff)
  have "length (concat (map u32_str.pair_enc m)) = (\<Sum>p\<leftarrow>m. 5 + length (snd p))"
    by (induction m) (simp_all add: u32_str.pair_enc_def)
  then show "length (u32_str.map_enc m) \<le> 10000000" using assms(4) by (simp add: u32_str.map_enc_def)
qed

theorem string_map_roundtrip_witness:
  "\<exists>b. put_map append_word put_string [(1 :: u32, [65, 66]), (7, [])] bb_empty = Inr b
    \<and> get_map read_word get_string b = Inr ([(1 :: u32, [65, 66]), (7, [])], consume (bb_size b) b)"
  by (rule string_map_roundtrip) (simp_all add: sm_inv_def)

lemma wr_inv_bytes:
  assumes "wr_inv b"
  shows "bb_size b = (length (written b) + 7) div 8"
  using assms length_written [OF assms] by (cases "bb_size b = 0") (auto simp: wr_inv_def)

lemma rd_inv_bytes:
  assumes "rd_inv b" and "1 \<le> bitpos b"
  shows "length (unread b) = length (unread_bits b) div 8"
proof (cases "bitpos b = 8")
  case False
  with assms have "bitpos b < 8" by (simp add: rd_inv_def)
  moreover from this have "length (unread_bits b) = (8 - bitpos b) + 8 * length (unread b)"
    using unread_bits_open [OF assms(1)] by simp
  moreover have "8 - bitpos b < 8" using assms(2) by simp
  ultimately show ?thesis by simp
qed (simp add: unread_bits_aligned)

text \<open>The byte masks and byte sequences of a packed GUID: the mask bits of all bytes and then
  the non-zero bytes (each with its low bit flipped), read back with the masks first, give all
  the bytes; the number of masks need not fill whole bytes.\<close>

theorem byte_sequence_roundtrip:
  assumes "length xs \<le> 1000000"
  shows "\<exists>b b1 b2. rbind (write_masks xs bb_empty) (write_seqs xs) = Inr b
    \<and> read_masks (length xs) (received b) = Inr (map mask_of xs, b1)
    \<and> read_seqs (map mask_of xs) b1 = Inr (xs, b2)"
proof -
  let ?ms = "map (\<lambda>x. x \<noteq> 0) xs"
  obtain a where w: "write_masks xs bb_empty = Inr a" and a: "wr_inv a" "written a = ?ms"
    using write_bit_list_written [OF wr_inv_empty, of ?ms] assms
    by (auto simp: write_masks_bits written_empty)
  have sz: "bb_size a = (length xs + 7) div 8" using wr_inv_bytes [OF a(1)] a(2) by simp
  have l: "length (seq_bytes xs) \<le> 1000000" "length (filter (\<lambda>x. x \<noteq> 0) xs) \<le> 1000000"
    using le_trans [OF length_filter_le assms] by simp_all
  have "wr_ok (length (seq_bytes xs)) a" using a(1) sz l(1) assms unfolding wr_ok_def wr_inv_def by linarith
  from write_seqs_emit [OF this] obtain b where b: "write_seqs xs a = Inr b"
    "storage b = storage a @ seq_bytes xs" by blast
  obtain pad where "stream (storage a) = ?ms @ pad" using written_prefix [of a] a(2) by metis
  with b(2) have u: "unread_bits (received b) = ?ms @ pad @ stream (seq_bytes xs)"
    by (simp add: unread_bits_received)
  have lb: "bb_size b = bb_size a + length (seq_bytes xs)" using b(2) by simp
  then have "rd_inv (received b)" using sz l(1) assms by (intro rd_inv_received) linarith
  from read_masks_unread [OF this _ u] obtain b1 where
    r: "read_masks (length xs) (received b) = Inr (map mask_of xs, b1)" and i1: "rd_inv b1"
    and u1: "unread_bits b1 = pad @ stream (seq_bytes xs)" and s1: "storage b1 = storage b"
    and p1: "1 \<le> bitpos b1"
    by (auto simp: received_def)
  have "length (stream (storage a)) = length xs + length pad"
    using \<open>stream (storage a) = ?ms @ pad\<close> by simp
  then have "length pad < 8" using sz by simp
  then have "length (unread b1) = length (seq_bytes xs)" using rd_inv_bytes [OF i1 p1] u1 by simp
  then have "unread b1 = seq_bytes xs @ []"
    using drop_to_suffix [of "rpos b1" "storage a" "seq_bytes xs"] s1 b(2) by (simp add: unread_def)
  with read_seqs_unread [of b1 xs "[]"] i1 w b(1) r show ?thesis by (auto simp: rd_inv_def)
qed

theorem byte_sequence_roundtrip_witness:
  "\<exists>b b1 b2. rbind (write_masks [0x0C, 0, 0x30, 0xF1, 0] bb_empty) (write_seqs [0x0C, 0, 0x30, 0xF1, 0]) = Inr b
    \<and> read_masks 5 (received b) = Inr ([1, 0, 1, 1, 0], b1)
    \<and> read_seqs [1, 0, 1, 1, 0] b1 = Inr ([0x0C, 0, 0x30, 0xF1, 0], b2)"
proof -
  let ?xs = "[0x0C, 0, 0x30, 0xF1, 0] :: u8 list"
  have l: "length ?xs = 5" and m: "map mask_of ?xs = [1, 0, 1, 1, 0]" by simp_all
  have "length ?xs \<le> 1000000" by simp
  from byte_sequence_roundtrip [OF this] show ?thesis unfolding l m .
qed

text \<open>Appending an integer writes its bytes least significant first on a host of either byte
  order.\<close>

theorem wire_format_host_independent:
  "append_host e (w :: 'a::len word) b = append_bytes (le_bytes w) b"
  by (simp add: append_host_def EndianConvert_host_bytes)

text \<open>C31: nine readers never leave the storage of a received packet, however its bytes were forged, as long as the
  read position lies within it (\<open>rd_inv\<close>): integers of 8, 16, 32 and 64 bits, byte strings with a
  count below 2 to the power 63, packed GUIDs, single bits, bit fields and masked bytes. A larger count can wrap the bounds test.\<close>

theorem reads_stay_inside:
  assumes "rd_inv b" and "len < 2 ^ 63"
  shows "(read_word b :: (u8 \<times> byte_buffer) bb_result) \<noteq> Inl OutOfRange
    \<and> (read_word b :: (u16 \<times> byte_buffer) bb_result) \<noteq> Inl OutOfRange
    \<and> (read_word b :: (u32 \<times> byte_buffer) bb_result) \<noteq> Inl OutOfRange
    \<and> (read_word b :: (u64 \<times> byte_buffer) bb_result) \<noteq> Inl OutOfRange
    \<and> read_bytes len b \<noteq> Inl OutOfRange
    \<and> readPackGUID b \<noteq> Inl OutOfRange
    \<and> ReadBit b \<noteq> Inl OutOfRange
    \<and> ReadBits k b \<noteq> Inl OutOfRange
    \<and> ReadByteSeq m b \<noteq> Inl OutOfRange"
proof (intro conjI)
  have rd: "rd_ok b" using assms(1) by (simp add: rd_inv_def)
  have rd': "rd_ok (ResetBits b)" using rd by (simp add: rd_ok_def ResetBits_def)
  have W: "(read_word c :: ('a::len word \<times> byte_buffer) bb_result) \<noteq> Inl OutOfRange"
    if "rd_ok c" "LENGTH('a) \<le> 64" for c
    using that by (auto simp: read_word_def read_word_at_def ResetBits_def Let_def rd_ok_def rbind_def
        split: sum.splits)
  show "(read_word b :: (u8 \<times> byte_buffer) bb_result) \<noteq> Inl OutOfRange"
    and "(read_word b :: (u16 \<times> byte_buffer) bb_result) \<noteq> Inl OutOfRange"
    and "(read_word b :: (u32 \<times> byte_buffer) bb_result) \<noteq> Inl OutOfRange"
    and "(read_word b :: (u64 \<times> byte_buffer) bb_result) \<noteq> Inl OutOfRange"
    using rd by (simp_all add: W)
  show "read_bytes len b \<noteq> Inl OutOfRange"
    using rd assms(2) by (auto simp: read_bytes_def Let_def ResetBits_def rd_ok_def)
  show "readPackGUID b \<noteq> Inl OutOfRange"
    using read_word_u8 [OF rd'] read_guid_loop_safe [OF rd_ok_consume [OF rd']]
    by (cases "unread (ResetBits b)") (auto simp: readPackGUID_def)
  show "ReadBit b \<noteq> Inl OutOfRange"
    using ReadBit_unread [OF assms(1)] fresh_read_end [OF assms(1)]
    by (cases "unread_bits b") (auto simp: ReadBit_def)
  show "ReadBits k b \<noteq> Inl OutOfRange"
    using ReadBits_loop_safe [OF assms(1)] by (simp add: ReadBits_def)
  have "(read_word (ResetBits b) :: (u8 \<times> byte_buffer) bb_result) \<noteq> Inl OutOfRange"
    using rd' by (simp add: W)
  then show "ReadByteSeq m b \<noteq> Inl OutOfRange"
    by (auto simp: ReadByteSeq_def Let_def rbind_def split: sum.splits)
qed

theorem reads_stay_inside_witness:
  "readPackGUID (received (bb_new 0 False)) \<noteq> Inl OutOfRange"
  using reads_stay_inside [of "received (bb_new 0 False)" 0] by (simp add: rd_inv_received bb_new_def)

text \<open>Reading a string always succeeds: it returns the bytes up to the first NUL, or up to the
  end of the packet where there is none, and stops right behind them.\<close>

theorem get_string_total:
  assumes "rd_ok b"
  shows "\<exists>b'. get_string b = Inr (takeWhile (\<lambda>c. c \<noteq> 0) (unread b), b')
    \<and> unread b' = tl (dropWhile (\<lambda>c. c \<noteq> 0) (unread b))"
  using get_string_loop_all [OF assms, of "[]"] by (auto simp: get_string_def)

theorem get_string_total_witness:
  "\<exists>b'. get_string (emit [72, 105] bb_empty) = Inr ([72, 105], b') \<and> unread b' = []"
  using get_string_total [of "emit [72, 105] bb_empty"] by (simp add: rd_ok_def unread_def bb_empty_def)

end
