(* ===== verification/Channel_Handlers.thy ===== *)
theory Channel_Handlers
  imports ChannelMgr Channel_Properties ByteBuffer_Properties
begin

text \<open>
  From the client's packet to the channel: the handlers of named-player commands undo the
  packing of the client, and then act on the channel exactly as the operation they stand for.
\<close>

section \<open>The packet of a command\<close>

text \<open>The client packs the two lengths into fifteen bits and appends the two texts.\<close>

definition pack_command :: "u8 list \<Rightarrow> u8 list \<Rightarrow> byte_buffer bb_result" where
  "pack_command otp channelname =
     rbind (write_fields [(8, of_nat (length channelname)), (7, of_nat (length otp))] bb_empty) (\<lambda>b.
     rbind (append_bytes otp b) (append_bytes channelname))"

lemma read_string_at:
  assumes "rpos b + length s \<le> bb_size b" and "bb_size b < 2 ^ 63" and "take (length s) (drop (rpos b) (storage b)) = s"
    and "unat len = length s"
  shows "read_string len b = Inr (s, b\<lparr>rpos := rpos b + length s, bitpos := 8\<rparr>)"
  using assms by (simp add: read_string_def read_bytes_def ResetBits_def Let_def)

lemma two_lengths:
  assumes u: "unread_bits (received p) = bits_be 8 (c :: u32) @ bits_be 7 (n :: u32) @ rest"
    and "bb_size p \<le> 10000000"
  shows "\<exists>b1 b2. ReadBits 8 (received p) = Inr (take_bit 8 c, b1) \<and> ReadBits 7 b1 = Inr (take_bit 7 n, b2)
    \<and> storage b2 = storage p \<and> rpos b2 = 2"
proof -
  have i: "rd_inv (received p)" using assms(2) by (rule rd_inv_received)
  from ReadBits_loop_unread [OF i, of 8 0] u obtain b1 where
    b1: "ReadBits 8 (received p) = Inr (take_bit 8 c, b1)" "rd_inv b1" "unread_bits b1 = bits_be 7 n @ rest"
      "storage b1 = storage p"
    by (auto simp: ReadBits_def word_of_bits_be received_def)
  from ReadBits_loop_unread [OF b1(2), of 7 0] b1(3) obtain b2 where
    b2: "ReadBits 7 b1 = Inr (take_bit 7 n, b2)" "rd_inv b2" "unread_bits b2 = rest" "storage b2 = storage b1"
    by (auto simp: ReadBits_def word_of_bits_be)
  have "length (unread_bits (received p)) = 8 * bb_size p" by (simp add: unread_bits_received)
  then have "8 * bb_size p = 15 + length rest" by (simp add: u)
  moreover have "length rest = 8 * bb_size p - (8 * rpos b2 - (8 - bitpos b2))"
    using b2(3,4) b1(4) by (simp add: unread_bits_def flip: b2(3))
  moreover have "bitpos b2 \<le> 8" "bitpos b2 < 8 \<Longrightarrow> 0 < rpos b2" "rpos b2 \<le> bb_size p"
    using b2(2,4) b1(4) by (auto simp: rd_inv_def rd_ok_def)
  ultimately have "rpos b2 = 2" by linarith
  with b1 b2 show ?thesis by auto
qed

lemma pack_command_bytes:
  assumes "length otp < 128" and "length ch < 256"
  shows "\<exists>h p. pack_command otp ch = Inr p \<and> storage p = h @ otp @ ch \<and> length h = 2 \<and>
    (\<exists>rest. stream (storage p) = bits_be 8 (of_nat (length ch) :: u32) @ bits_be 7 (of_nat (length otp) :: u32) @ rest)"
proof -
  let ?c = "of_nat (length ch) :: u32" and ?n = "of_nat (length otp) :: u32"
  obtain b where w: "write_fields [(8, ?c), (7, ?n)] bb_empty = Inr b"
    and i: "wr_inv b" and b: "written b = bits_be 8 ?c @ bits_be 7 ?n"
    using write_fields_written [OF wr_inv_empty, of "[(8, ?c), (7, ?n)]"]
    by (auto simp: written_empty)
  from b length_written [OF i] have "8 * bb_size b - (8 - bitpos b) = 15" by simp
  then have size: "bb_size b = 2" "wpos b = 2" using i by (auto simp: wr_inv_def)
  have w1: "append_bytes otp b = Inr (emit otp b)"
    by (rule append_bytes_emit) (use size assms in \<open>simp add: wr_ok_def\<close>)
  have w2: "append_bytes ch (emit otp b) = Inr (emit ch (emit otp b))"
    by (rule append_bytes_emit) (use size assms in \<open>simp add: wr_ok_def\<close>)
  obtain pad where pad: "stream (storage b) = written b @ pad" using written_prefix [of b] by blast
  have "pack_command otp ch = Inr (emit (otp @ ch) b)"
    unfolding pack_command_def w rbind_Inr w1 w2 by simp
  with size pad b show ?thesis by (intro exI [of _ "storage b"] exI [of _ "emit (otp @ ch) b"]) simp
qed

lemma read_packed_command:
  assumes "length otp < 128" and "length ch < 256" and "pack_command otp ch = Inr p"
  shows "read_name_channel 8 7 (received p) = Inr (otp, ch)"
proof -
  from pack_command_bytes [OF assms(1,2)] assms(3) obtain h rest where st: "storage p = h @ otp @ ch" "length h = 2"
    and u: "stream (storage p) = bits_be 8 (of_nat (length ch) :: u32) @ bits_be 7 (of_nat (length otp) :: u32) @ rest"
    by auto
  have small: "bb_size p \<le> 10000000" using st assms by simp
  from two_lengths [OF _ small, of "of_nat (length ch)" "of_nat (length otp)" rest] u obtain b1 b2 where
    r: "ReadBits 8 (received p) = Inr (take_bit 8 (of_nat (length ch)), b1)"
      "ReadBits 7 b1 = Inr (take_bit 7 (of_nat (length otp)), b2)" "storage b2 = storage p" "rpos b2 = 2"
    by (auto simp: unread_bits_received)
  have n: "unat (take_bit 8 (of_nat (length ch) :: u32)) = length ch" "unat (take_bit 7 (of_nat (length otp) :: u32)) = length otp"
    using assms by (simp_all add: take_bit_of_nat unat_of_nat take_bit_nat_eq_self)
  have o: "read_string (take_bit 7 (of_nat (length otp))) b2 = Inr (otp, b2\<lparr>rpos := 2 + length otp, bitpos := 8\<rparr>)"
    using read_string_at [of b2 otp] r st small n by simp
  have c: "read_string (take_bit 8 (of_nat (length ch))) (b2\<lparr>rpos := 2 + length otp, bitpos := 8\<rparr>) =
      Inr (ch, b2\<lparr>rpos := 2 + length otp + length ch, bitpos := 8\<rparr>)"
    using read_string_at [of "b2\<lparr>rpos := 2 + length otp, bitpos := 8\<rparr>" ch] r st small n by simp
  show ?thesis unfolding read_name_channel_def r(1) rbind_Inr prod.case r(2) o c ..
qed

section \<open>Properties\<close>

text \<open>C23: a kick or a ban packed by the client, with the throttle open, reaches the named channel of
  the client's side and does to it exactly what \<open>KickOrBan\<close> does for that player and the
  normalised name, and nothing else but close the throttle; within five seconds the next
  command of the kind is dropped whatever it says.
\<close>

theorem kick_ban_command:
  assumes "length otp < 128" and "length ch < 256" and "pack_command otp ch = Inr p"
    and "5 \<le> srv_now srv - timeLast w cmd" and "normalize_name srv otp = Some name"
    and "channelMgr (srv_env srv) (cp_team pl) = Some side"
    and "channels (mgrs w side) (fold_name srv ch) = Some c"
    and "KickOrBan (srv_env srv) (cp_guid pl) (c_str name) (cmd = ChannelBan) c = Inr d"
    and "cmd = ChannelKick \<and> h = HandleChannelKick \<or> cmd = ChannelBan \<and> h = HandleChannelBan"
  shows "\<exists>w'. h srv pl (received p) w = (None, w') \<and>
    channels (mgrs w' side) (fold_name srv ch) = Some d \<and>
    (\<forall>s k. s \<noteq> side \<or> k \<noteq> fold_name srv ch \<longrightarrow> channels (mgrs w' s) k = channels (mgrs w s) k) \<and>
    timeLast w' = (timeLast w)(cmd := srv_now srv) \<and> cw_out w' = cw_out w \<and>
    (\<forall>srv' b. srv_now srv' < srv_now srv + 5 \<longrightarrow> h srv' pl b w' = (None, w'))"
proof -
  let ?w1 = "w\<lparr>timeLast := (timeLast w)(cmd := srv_now srv)\<rparr>"
  let ?m = "mgrs w side"
  let ?w = "set_mgr side (?m\<lparr>channels := (channels ?m)(fold_name srv ch := Some d)\<rparr>) ?w1"
  note read = read_packed_command [OF assms(1-3)]
  have "h srv pl (received p) w = (None, ?w)"
    using assms(4-9)
    by (auto simp: HandleChannelKick_def HandleChannelBan_def throttled_def read_or_stop_def read
        on_player_def with_channel_def GetChannel_def update_channel_def Let_def)
  moreover have "h srv' pl b ?w = (None, ?w)" if "srv_now srv' < srv_now srv + 5" for srv' b
    using assms(9) that by (auto simp: HandleChannelKick_def HandleChannelBan_def throttled_def set_mgr_def)
  ultimately show ?thesis by (intro exI [of _ ?w]) (auto simp: set_mgr_def)
qed

definition demo_srv :: chan_srv where
  "demo_srv = \<lparr>srv_env = demo_env, srv_now = 100, fold_name = map ucast, normalize_name = Some,
     word_filter = False, has_bad_word = (\<lambda>_. False), zone_known = True, can_join_in_zone = (\<lambda>_. True)\<rparr>"

definition demo_world :: chan_world where
  "demo_world = \<lparr>mgrs = (\<lambda>_. \<lparr>mgr_team = 469, channels = [[120] \<mapsto> demo_two]\<rparr>), timeLast = (\<lambda>_. 0), cw_out = []\<rparr>"

theorem kick_ban_command_witness:
  "\<exists>p d w'. KickOrBan demo_env 1 [66] True demo_two = Inr d \<and> pack_command [66] [120] = Inr p \<and>
     HandleChannelBan demo_srv (demo_player 1) (received p) demo_world = (None, w') \<and>
     channels (mgrs w' AllianceChannelMgr) [120] = Some d"
proof -
  obtain p where p: "pack_command [66] [120] = Inr p" using pack_command_bytes [of "[66]" "[120]"] by auto
  obtain d where d: "chan_do demo_env (ReqBan 1 [66]) demo_two = Inr d"
    using chan_do_ex [of demo_two demo_env "ReqBan 1 [66]"] by (auto simp: demo_two_facts demo_names)
  have side: "channelMgr (srv_env demo_srv) (cp_team (demo_player 1)) = Some AllianceChannelMgr"
    by (simp add: demo_srv_def channelMgr_def demo_env_def demo_player_def ALLIANCE_def)
  have "\<exists>w'. HandleChannelBan demo_srv (demo_player 1) (received p) demo_world = (None, w') \<and>
     channels (mgrs w' AllianceChannelMgr) (fold_name demo_srv [120]) = Some d"
    using kick_ban_command [OF _ _ p, of demo_srv demo_world ChannelBan "[66]" "demo_player 1" AllianceChannelMgr
        demo_two d HandleChannelBan] side d
    by (auto simp: demo_srv_def demo_world_def)
  with p d show ?thesis by (auto simp: demo_srv_def)
qed

end
