(* ===== verification/UpdateMask.thy ===== *)
theory UpdateMask
  imports ByteBuffer
begin

text \<open>
  \<^verbatim>\<open>UpdateMask\<close> (\<^verbatim>\<open>src/src/server/game/Entities/Object/Updates/UpdateMask.h\<close>): one byte per
  update field, sent to the client as 32-bit blocks. The array is a pointer in the source,
  so the model distinguishes a null pointer, an allocated array and the indeterminate
  pointer a constructor starts from. Block indices are naturals: a block count is at most
  \<open>2 ^ 27\<close>, so \<^verbatim>\<open>32 * i + j\<close> does not wrap in 32 bits.
\<close>

section \<open>State and operations\<close>

datatype bits_ptr = NullPtr | Indeterminate | BitArray "u8 list"

record update_mask =
  fieldCount :: u32
  blockCount :: u32
  bits_of_mask :: bits_ptr

definition um_new :: update_mask where
  "um_new = \<lparr>fieldCount = 0, blockCount = 0, bits_of_mask = NullPtr\<rparr>"

text \<open>Reading and writing an element; outside the array C++ leaves the behaviour undefined.\<close>

fun bits_get :: "bits_ptr \<Rightarrow> nat \<Rightarrow> u8 bb_result" where
  "bits_get (BitArray xs) i = (if i < length xs then Inr (xs ! i) else Inl OutOfRange)"
| "bits_get _ i = Inl OutOfRange"

fun bits_set :: "bits_ptr \<Rightarrow> nat \<Rightarrow> u8 \<Rightarrow> bits_ptr bb_result" where
  "bits_set (BitArray xs) i x = (if i < length xs then Inr (BitArray (xs[i := x])) else Inl OutOfRange)"
| "bits_set _ i x = Inl OutOfRange"

definition SetBit :: "u32 \<Rightarrow> update_mask \<Rightarrow> update_mask bb_result" where
  "SetBit index m = rbind (bits_set (bits_of_mask m) (unat index) 1) (\<lambda>p. Inr (m\<lparr>bits_of_mask := p\<rparr>))"

definition UnsetBit :: "u32 \<Rightarrow> update_mask \<Rightarrow> update_mask bb_result" where
  "UnsetBit index m = rbind (bits_set (bits_of_mask m) (unat index) 0) (\<lambda>p. Inr (m\<lparr>bits_of_mask := p\<rparr>))"

definition GetBit :: "u32 \<Rightarrow> update_mask \<Rightarrow> bool bb_result" where
  "GetBit index m = rbind (bits_get (bits_of_mask m) (unat index)) (\<lambda>x. Inr (x \<noteq> 0))"

fun mask_part_loop :: "bits_ptr \<Rightarrow> nat \<Rightarrow> nat list \<Rightarrow> u32 \<Rightarrow> u32 bb_result" where
  "mask_part_loop p i [] maskPart = Inr maskPart"
| "mask_part_loop p i (j # js) maskPart =
     rbind (bits_get p (32 * i + j))
       (\<lambda>x. mask_part_loop p i js (if x \<noteq> 0 then maskPart OR push_bit j 1 else maskPart))"

fun append_blocks :: "bits_ptr \<Rightarrow> nat list \<Rightarrow> byte_buffer \<Rightarrow> byte_buffer bb_result" where
  "append_blocks p [] data = Inr data"
| "append_blocks p (i # is) data =
     rbind (mask_part_loop p i [0..<32] 0) (\<lambda>maskPart. rbind (append_word maskPart data) (append_blocks p is))"

definition AppendToPacket :: "update_mask \<Rightarrow> byte_buffer \<Rightarrow> byte_buffer bb_result" where
  "AppendToPacket m data = append_blocks (bits_of_mask m) [0..<unat (blockCount m)] data"

text \<open>\<^verbatim>\<open>delete[]\<close> of an indeterminate pointer is undefined.\<close>

definition SetCount :: "u32 \<Rightarrow> update_mask \<Rightarrow> update_mask bb_result" where
  "SetCount valuesCount m =
     (if bits_of_mask m = Indeterminate then Inl OutOfRange
      else let blocks = (valuesCount + 32 - 1) div 32 in
        Inr \<lparr>fieldCount = valuesCount, blockCount = blocks,
             bits_of_mask = BitArray (replicate (unat (blocks * 32)) 0)\<rparr>)"

definition Clear :: "update_mask \<Rightarrow> update_mask bb_result" where
  "Clear m = (case bits_of_mask m of
       NullPtr \<Rightarrow> Inr m
     | Indeterminate \<Rightarrow> Inl OutOfRange
     | BitArray xs \<Rightarrow>
         let n = unat (blockCount m * 32) in
         if n \<le> length xs then Inr (m\<lparr>bits_of_mask := BitArray (replicate n 0 @ drop n xs)\<rparr>)
         else Inl OutOfRange)"

text \<open>\<^verbatim>\<open>memcpy\<close> of \<open>n\<close> bytes between two arrays; with a null source only zero bytes may be copied.\<close>

definition bits_memcpy :: "bits_ptr \<Rightarrow> bits_ptr \<Rightarrow> nat \<Rightarrow> bits_ptr bb_result" where
  "bits_memcpy dst src n = (if n = 0 then Inr dst else
     (case (dst, src) of
        (BitArray d, BitArray s) \<Rightarrow>
          if n \<le> length d \<and> n \<le> length s then Inr (BitArray (take n s @ drop n d)) else Inl OutOfRange
      | _ \<Rightarrow> Inl OutOfRange))"

definition um_assign :: "update_mask \<Rightarrow> update_mask \<Rightarrow> update_mask bb_result" where
  "um_assign right m =
     rbind (SetCount (fieldCount right) m) (\<lambda>m.
       rbind (bits_memcpy (bits_of_mask m) (bits_of_mask right) (unat (blockCount m * 32)))
         (\<lambda>p. Inr (m\<lparr>bits_of_mask := p\<rparr>)))"

text \<open>The copy constructor has no initialiser list; it starts from indeterminate members.\<close>

definition um_copy :: "update_mask \<Rightarrow> update_mask bb_result" where
  "um_copy right =
     rbind (SetCount (fieldCount right) \<lparr>fieldCount = 0, blockCount = 0, bits_of_mask = Indeterminate\<rparr>) (\<lambda>m.
       rbind (bits_memcpy (bits_of_mask m) (bits_of_mask right) (unat (blockCount m * 32)))
         (\<lambda>p. Inr (m\<lparr>bits_of_mask := p\<rparr>)))"

fun combine_loop :: "(u8 \<Rightarrow> u8 \<Rightarrow> u8) \<Rightarrow> bits_ptr \<Rightarrow> nat list \<Rightarrow> bits_ptr \<Rightarrow> bits_ptr bb_result" where
  "combine_loop f r [] p = Inr p"
| "combine_loop f r (i # is) p =
     rbind (bits_get p i) (\<lambda>x. rbind (bits_get r i) (\<lambda>y.
       rbind (bits_set p i (f x y)) (combine_loop f r is)))"

definition um_and_assign :: "update_mask \<Rightarrow> update_mask \<Rightarrow> update_mask bb_result" where
  "um_and_assign right m =
     (if \<not> fieldCount right \<le> fieldCount m then Inl AssertionFailed
      else rbind (combine_loop (AND) (bits_of_mask right) [0..<unat (fieldCount m)] (bits_of_mask m))
             (\<lambda>p. Inr (m\<lparr>bits_of_mask := p\<rparr>)))"

definition um_or_assign :: "update_mask \<Rightarrow> update_mask \<Rightarrow> update_mask bb_result" where
  "um_or_assign right m =
     (if \<not> fieldCount right \<le> fieldCount m then Inl AssertionFailed
      else rbind (combine_loop (OR) (bits_of_mask right) [0..<unat (fieldCount m)] (bits_of_mask m))
             (\<lambda>p. Inr (m\<lparr>bits_of_mask := p\<rparr>)))"

definition um_or :: "update_mask \<Rightarrow> update_mask \<Rightarrow> update_mask bb_result" where
  "um_or m right = rbind (um_copy m) (um_or_assign right)"

section \<open>Well-formed masks\<close>

text \<open>
  The array has exactly the bytes of the blocks, the blocks are the fewest that hold the
  fields, and every byte is 0 or 1. A mask that was never sized has no array and no fields.
\<close>

definition um_blocks :: "u32 \<Rightarrow> nat" where
  "um_blocks n = (unat n + 31) div 32"

definition um_wf :: "update_mask \<Rightarrow> bool" where
  "um_wf m \<longleftrightarrow> (case bits_of_mask m of
       BitArray xs \<Rightarrow> unat (blockCount m) = um_blocks (fieldCount m) \<and> length xs = 32 * um_blocks (fieldCount m)
         \<and> set xs \<subseteq> {0, 1}
     | _ \<Rightarrow> False)"

lemma um_wfE:
  assumes "um_wf m"
  obtains xs where "bits_of_mask m = BitArray xs" "unat (blockCount m) = um_blocks (fieldCount m)"
    "length xs = 32 * um_blocks (fieldCount m)" "set xs \<subseteq> {0, 1}" "unat (fieldCount m) \<le> length xs"
proof -
  have "unat (fieldCount m) \<le> 32 * um_blocks (fieldCount m)" by (simp add: um_blocks_def)
  then show ?thesis using assms that by (auto simp: um_wf_def split: bits_ptr.splits)
qed

lemma SetCount_wf:
  assumes "n \<le> 0xFFFFFFE0" and "bits_of_mask m \<noteq> Indeterminate"
  shows "\<exists>m'. SetCount n m = Inr m' \<and> um_wf m' \<and> fieldCount m' = n
    \<and> bits_of_mask m' = BitArray (replicate (32 * um_blocks n) 0)"
proof -
  have le: "unat n \<le> 0xFFFFFFE0" using assms(1) by (simp add: word_le_nat_alt)
  have s: "unat (n + 31) = unat n + 31" using le by (subst unat_plus_simple [THEN iffD1]) (simp_all add: word_le_nat_alt unat_word_ariths)
  have b: "unat ((n + 31) div 32) = um_blocks n" by (simp add: unat_div s um_blocks_def)
  have "um_blocks n * 32 < 2 ^ 32" using le unfolding um_blocks_def by simp
  moreover have "unat (w * 32) = unat w * 32 mod 2 ^ 32" for w :: u32 by (simp add: unat_word_ariths)
  ultimately have "unat ((n + 31) div 32 * 32) = 32 * um_blocks n" using b by simp
  moreover have "set (replicate k 0) \<subseteq> {0, 1 :: u8}" for k by auto
  ultimately show ?thesis using b assms(2) by (simp add: SetCount_def Let_def um_wf_def add.commute)
qed

lemma um_wf_set:
  assumes "um_wf m" and "unat i < 32 * unat (blockCount m)" and "x \<in> {0, 1}"
  shows "\<exists>xs. bits_of_mask m = BitArray xs \<and> unat i < length xs
    \<and> bits_set (bits_of_mask m) (unat i) x = Inr (BitArray (xs[unat i := x]))
    \<and> um_wf (m\<lparr>bits_of_mask := BitArray (xs[unat i := x])\<rparr>)"
  using assms(1)
proof (rule um_wfE)
  fix xs assume xs: "bits_of_mask m = BitArray xs" "unat (blockCount m) = um_blocks (fieldCount m)"
    "length xs = 32 * um_blocks (fieldCount m)" "set xs \<subseteq> {0, 1}"
  moreover have "set (xs[unat i := x]) \<subseteq> {0, 1}"
    using set_update_subset_insert [of xs "unat i" x] xs(4) assms(3) by auto
  ultimately show ?thesis using assms(2) by (simp add: um_wf_def)
qed

lemma GetBit_wf:
  assumes "um_wf m" and "bits_of_mask m = BitArray xs" and "unat i < length xs"
  shows "GetBit i m = Inr (xs ! unat i = 1)"
proof -
  have "set xs \<subseteq> {0, 1}" using assms by (simp add: um_wf_def)
  then have "xs ! unat i \<in> {0, 1}" using assms(3) nth_mem by blast
  then show ?thesis using assms by (auto simp: GetBit_def)
qed

section \<open>Sending the mask\<close>

lemma mask_part_loop_bits:
  "\<forall>j \<in> set js. 32 * i + j < length xs \<Longrightarrow>
     \<exists>w. mask_part_loop (BitArray xs) i js acc = Inr w
       \<and> (\<forall>k < 32. bit w k \<longleftrightarrow> bit acc k \<or> k \<in> set js \<and> xs ! (32 * i + k) \<noteq> 0)"
proof (induction js arbitrary: acc)
  case Nil
  then show ?case by simp
next
  case (Cons j js)
  let ?acc = "if xs ! (32 * i + j) \<noteq> 0 then acc OR push_bit j 1 else acc"
  have b: "bit ?acc k \<longleftrightarrow> bit acc k \<or> k = j \<and> xs ! (32 * i + j) \<noteq> 0" if "k < 32" for k
    using that by (auto simp: bit_or_iff bit_push_bit_iff bit_1_iff simp del: push_bit_of_1)
  from Cons.IH [of ?acc] Cons.prems obtain w where
    w: "mask_part_loop (BitArray xs) i js ?acc = Inr w"
    "\<forall>k < 32. bit w k \<longleftrightarrow> bit ?acc k \<or> k \<in> set js \<and> xs ! (32 * i + k) \<noteq> 0" by auto
  have "mask_part_loop (BitArray xs) i (j # js) acc = Inr w" using w(1) Cons.prems by simp
  moreover have "\<forall>k < 32. bit w k \<longleftrightarrow> bit acc k \<or> k \<in> set (j # js) \<and> xs ! (32 * i + k) \<noteq> 0"
    using w(2) b by auto
  ultimately show ?case by blast
qed

lemma bit_le_bytes:
  "k < 32 \<Longrightarrow> bit (le_bytes (w :: u32) ! (k div 8)) (k mod 8) = bit w k"
  by (simp add: nth_le_bytes bit_ucast_iff bit_drop_bit_eq)

lemma append_blocks_emit:
  "\<forall>i \<in> set is. 32 * i + 32 \<le> length xs \<Longrightarrow> wr_ok (4 * length is) b \<Longrightarrow> bitpos b = 8 \<Longrightarrow>
     \<exists>bs. append_blocks (BitArray xs) is b = Inr (emit bs b) \<and> length bs = 4 * length is
       \<and> (\<forall>n < length is. \<forall>k < 32. bit (bs ! (4 * n + k div 8)) (k mod 8) \<longleftrightarrow> xs ! (32 * (is ! n) + k) \<noteq> 0)"
proof (induction "is" arbitrary: b)
  case Nil
  then show ?case by (intro exI [of _ "[]"]) (simp add: emit_def)
next
  case (Cons i "is")
  have "\<forall>j \<in> set [0..<32]. 32 * i + j < length xs" using Cons.prems by auto
  from mask_part_loop_bits [OF this, of 0] obtain w where
    w: "mask_part_loop (BitArray xs) i [0..<32] 0 = Inr w"
    "\<forall>k < 32. bit w k \<longleftrightarrow> xs ! (32 * i + k) \<noteq> 0" by auto
  have a: "append_word w b = Inr (emit (le_bytes w) b)"
    using Cons.prems by (intro append_word_emit) (simp add: wr_ok_mono)
  obtain bs where bs: "append_blocks (BitArray xs) is (emit (le_bytes w) b) = Inr (emit bs (emit (le_bytes w) b))"
    "length bs = 4 * length is"
    "\<forall>n < length is. \<forall>k < 32. bit (bs ! (4 * n + k div 8)) (k mod 8) \<longleftrightarrow> xs ! (32 * (is ! n) + k) \<noteq> 0"
    using Cons.IH [of "emit (le_bytes w) b"] Cons.prems by (auto simp: add.commute)
  let ?bs = "le_bytes w @ bs"
  have "append_blocks (BitArray xs) (i # is) b = Inr (emit ?bs b)" using w(1) a bs(1) by simp
  moreover have "length ?bs = 4 * length (i # is)" using bs(2) by simp
  moreover have "bit (?bs ! (4 * n + k div 8)) (k mod 8) \<longleftrightarrow> xs ! (32 * ((i # is) ! n) + k) \<noteq> 0"
    if "n < length (i # is)" "k < 32" for n k
  proof (cases n)
    case 0
    moreover have "k div 8 < 4" using that(2) by simp
    ultimately show ?thesis using w(2) that(2) by (simp add: nth_append bit_le_bytes)
  next
    case (Suc m)
    then show ?thesis using bs(3) that by (simp add: nth_append)
  qed
  ultimately show ?case by blast
qed

section \<open>Combining masks\<close>

lemma combine_loop_ok:
  "distinct is \<Longrightarrow> \<forall>i \<in> set is. i < length xs \<and> i < length ys \<Longrightarrow>
     \<exists>zs. combine_loop f (BitArray ys) is (BitArray xs) = Inr (BitArray zs) \<and> length zs = length xs
       \<and> (\<forall>k < length xs. zs ! k = (if k \<in> set is then f (xs ! k) (ys ! k) else xs ! k))"
proof (induction "is" arbitrary: xs)
  case Nil
  then show ?case by simp
next
  case (Cons i "is")
  let ?xs = "xs[i := f (xs ! i) (ys ! i)]"
  from Cons.IH [of ?xs] Cons.prems obtain zs where
    "combine_loop f (BitArray ys) is (BitArray ?xs) = Inr (BitArray zs)" "length zs = length ?xs"
    "\<forall>k < length ?xs. zs ! k = (if k \<in> set is then f (?xs ! k) (ys ! k) else ?xs ! k)" by auto
  with Cons.prems show ?case by (intro exI [of _ zs]) (auto simp: nth_list_update)
qed

lemma combine_loop_short:
  "\<forall>i \<in> set is. i < length xs \<Longrightarrow> \<exists>i \<in> set is. length ys \<le> i \<Longrightarrow>
     combine_loop f (BitArray ys) is (BitArray xs) = Inl OutOfRange"
proof (induction "is" arbitrary: xs)
  case (Cons i "is")
  then show ?case by (cases "i < length ys") (auto simp: Cons.IH)
qed simp

lemma combine_wf:
  assumes m: "um_wf m" and r: "um_wf r" and f: "\<And>x y. x \<in> {0, 1} \<Longrightarrow> y \<in> {0, 1} \<Longrightarrow> f x y \<in> {0, 1}"
  shows "if unat (fieldCount m) \<le> 32 * unat (blockCount r)
    then \<exists>zs. combine_loop f (bits_of_mask r) [0..<unat (fieldCount m)] (bits_of_mask m) = Inr (BitArray zs)
      \<and> um_wf (m\<lparr>bits_of_mask := BitArray zs\<rparr>)
      \<and> (\<forall>xs ys. bits_of_mask m = BitArray xs \<longrightarrow> bits_of_mask r = BitArray ys \<longrightarrow>
           (\<forall>k < unat (fieldCount m). zs ! k = f (xs ! k) (ys ! k)))
    else combine_loop f (bits_of_mask r) [0..<unat (fieldCount m)] (bits_of_mask m) = Inl OutOfRange"
proof -
  from m obtain xs where xs: "bits_of_mask m = BitArray xs" "unat (blockCount m) = um_blocks (fieldCount m)"
    "length xs = 32 * um_blocks (fieldCount m)" "set xs \<subseteq> {0, 1}" "unat (fieldCount m) \<le> length xs"
    by (rule um_wfE)
  from r obtain ys where ys: "bits_of_mask r = BitArray ys" "unat (blockCount r) = um_blocks (fieldCount r)"
    "length ys = 32 * um_blocks (fieldCount r)" "set ys \<subseteq> {0, 1}"
    by (rule um_wfE)
  show ?thesis
  proof (cases "unat (fieldCount m) \<le> length ys")
    case True
    with xs(5) have "\<forall>i \<in> set [0..<unat (fieldCount m)]. i < length xs \<and> i < length ys" by auto
    from combine_loop_ok [OF distinct_upt this, of f] obtain zs where
      zs: "combine_loop f (BitArray ys) [0..<unat (fieldCount m)] (BitArray xs) = Inr (BitArray zs)"
      "length zs = length xs"
      "\<forall>k < length xs. zs ! k = (if k \<in> set [0..<unat (fieldCount m)] then f (xs ! k) (ys ! k) else xs ! k)"
      by blast
    have "zs ! k \<in> {0, 1}" if "k < length zs" for k
    proof -
      have "xs ! k \<in> {0, 1}" using that zs(2) xs(4) nth_mem by (metis subsetD)
      moreover have "k < unat (fieldCount m) \<Longrightarrow> ys ! k \<in> {0, 1}"
        using True ys(4) nth_mem by (metis subsetD less_le_trans)
      ultimately show ?thesis using zs(2,3) that f by auto
    qed
    then have "set zs \<subseteq> {0, 1}" unfolding set_conv_nth by blast
    with zs xs ys True show ?thesis by (auto simp: um_wf_def)
  next
    case False
    with xs(5) have "\<forall>i \<in> set [0..<unat (fieldCount m)]. i < length xs"
      and "\<exists>i \<in> set [0..<unat (fieldCount m)]. length ys \<le> i" by auto
    from combine_loop_short [OF this] False xs ys show ?thesis by simp
  qed
qed

section \<open>Properties\<close>

text \<open>C22: the blocks sent to the client carry the mask: bit \<open>i\<close> of the bytes written (least
  significant bit first) is field \<open>i\<close> of the mask, for every field, and the padding of
  the last block is what the mask holds there.\<close>

theorem AppendToPacket_bits:
  assumes "um_wf m" and "wr_ok (4 * unat (blockCount m)) data" and "bitpos data = 8"
  shows "\<exists>bs. AppendToPacket m data = Inr (emit bs data) \<and> length bs = 4 * unat (blockCount m)
    \<and> (\<forall>i. unat i < 32 * unat (blockCount m) \<longrightarrow>
         GetBit i m = Inr (bit (bs ! (unat i div 8)) (unat i mod 8)))"
  using assms(1)
proof (rule um_wfE)
  fix xs assume xs: "bits_of_mask m = BitArray xs" "unat (blockCount m) = um_blocks (fieldCount m)"
    "length xs = 32 * um_blocks (fieldCount m)"
  let ?n = "unat (blockCount m)"
  have "\<forall>i \<in> set [0..<?n]. 32 * i + 32 \<le> length xs" using xs by auto
  from append_blocks_emit [OF this, of data] assms(2,3) obtain bs where
    bs: "append_blocks (BitArray xs) [0..<?n] data = Inr (emit bs data)" "length bs = 4 * ?n"
    "\<forall>n < ?n. \<forall>k < 32. bit (bs ! (4 * n + k div 8)) (k mod 8) \<longleftrightarrow> xs ! (32 * n + k) \<noteq> 0" by auto
  have "GetBit i m = Inr (bit (bs ! (unat i div 8)) (unat i mod 8))" if i: "unat i < 32 * ?n" for i
  proof -
    let ?q = "unat i div 32" and ?k = "unat i mod 32"
    have "?q < ?n" "?k < 32" using i by (simp_all add: less_mult_imp_div_less mult.commute)
    with bs(3) have "bit (bs ! (4 * ?q + ?k div 8)) (?k mod 8) \<longleftrightarrow> xs ! (32 * ?q + ?k) \<noteq> 0" by blast
    moreover have "unat i = ?k + 4 * ?q * 8" by simp
    then have "unat i div 8 = 4 * ?q + ?k div 8" "unat i mod 8 = ?k mod 8"
      by (metis div_mult_self1 add.commute zero_neq_numeral, metis mod_mult_self1)
    ultimately have "bit (bs ! (unat i div 8)) (unat i mod 8) \<longleftrightarrow> xs ! unat i \<noteq> 0" by simp
    then show ?thesis using i xs by (simp add: GetBit_def)
  qed
  with bs xs(1) show ?thesis by (auto simp: AppendToPacket_def)
qed

text \<open>A mask of 40 fields with field 33 set, and one of 3 fields.\<close>

definition mask40 :: update_mask where
  "mask40 = \<lparr>fieldCount = 40, blockCount = 2, bits_of_mask = BitArray ((replicate 64 0)[33 := 1])\<rparr>"

definition mask3 :: update_mask where
  "mask3 = \<lparr>fieldCount = 3, blockCount = 1, bits_of_mask = BitArray (replicate 32 0)\<rparr>"

lemma mask40_wf: "um_wf mask40" and mask3_wf: "um_wf mask3"
  using set_update_subset_insert [of "replicate 64 0" 33 "1 :: u8"]
  by (auto simp: um_wf_def mask40_def mask3_def um_blocks_def)

theorem AppendToPacket_bits_witness:
  "\<exists>bs. AppendToPacket mask40 bb_empty = Inr (emit bs bb_empty) \<and> length bs = 8 \<and> bit (bs ! 4) 1"
proof -
  have "wr_ok (4 * unat (blockCount mask40)) bb_empty" by (simp add: wr_ok_def bb_empty_def mask40_def)
  from AppendToPacket_bits [OF mask40_wf this] obtain bs where
    bs: "AppendToPacket mask40 bb_empty = Inr (emit bs bb_empty)" "length bs = 4 * unat (blockCount mask40)"
    "GetBit 33 mask40 = Inr (bit (bs ! (unat (33 :: u32) div 8)) (unat (33 :: u32) mod 8))"
    by (auto simp: bb_empty_def mask40_def)
  moreover have "GetBit 33 mask40 = Inr True" by (simp add: GetBit_def mask40_def)
  ultimately show ?thesis by (auto simp: mask40_def)
qed

text \<open>Combining two masks under the source's assertion: when the right mask has blocks for all
  fields of the left one, the result is the field-wise disjunction and the mask stays well
  formed; when it has fewer blocks, the assertion passes and the loop reads behind the
  right array.\<close>

theorem um_or_assign_bits:
  assumes "um_wf m" and "um_wf r" and "fieldCount r \<le> fieldCount m"
  shows "if unat (fieldCount m) \<le> 32 * unat (blockCount r)
    then \<exists>m'. um_or_assign r m = Inr m' \<and> um_wf m' \<and> fieldCount m' = fieldCount m
      \<and> (\<forall>i < fieldCount m. \<forall>x y. GetBit i m = Inr x \<longrightarrow> GetBit i r = Inr y \<longrightarrow> GetBit i m' = Inr (x \<or> y))
    else um_or_assign r m = Inl OutOfRange"
proof (cases "unat (fieldCount m) \<le> 32 * unat (blockCount r)")
  case True
  obtain xs where xs: "bits_of_mask m = BitArray xs" "unat (fieldCount m) \<le> length xs"
    using assms(1) by (rule um_wfE)
  obtain ys where ys: "bits_of_mask r = BitArray ys" "length ys = 32 * unat (blockCount r)"
    using assms(2) by (rule um_wfE) simp
  have c: "x \<in> {0, 1} \<Longrightarrow> y \<in> {0, 1} \<Longrightarrow> x OR y \<in> {0, 1 :: u8}" for x y by auto
  obtain zs where zs: "combine_loop (OR) (bits_of_mask r) [0..<unat (fieldCount m)] (bits_of_mask m) = Inr (BitArray zs)"
    "um_wf (m\<lparr>bits_of_mask := BitArray zs\<rparr>)" "\<forall>k < unat (fieldCount m). zs ! k = xs ! k OR ys ! k"
    using combine_wf [of m r "(OR)", OF assms(1,2) c] True xs(1) ys(1) by auto
  let ?m = "m\<lparr>bits_of_mask := BitArray zs\<rparr>"
  have "GetBit i ?m = Inr (x \<or> y)"
    if i: "i < fieldCount m" and x: "GetBit i m = Inr x" and y: "GetBit i r = Inr y" for i x y
  proof -
    have lt: "unat i < unat (fieldCount m)" using i by (simp add: word_less_nat_alt)
    obtain zs' where "bits_of_mask ?m = BitArray zs'" "unat (fieldCount ?m) \<le> length zs'"
      using zs(2) by (rule um_wfE)
    then have "unat i < length zs" using lt by simp
    moreover have "xs ! unat i \<noteq> 0 \<longleftrightarrow> x" and "ys ! unat i \<noteq> 0 \<longleftrightarrow> y"
      using x y xs ys lt True by (auto simp: GetBit_def)
    ultimately show ?thesis using zs(3) lt by (auto simp: GetBit_def or_eq_0_iff)
  qed
  then show ?thesis using zs True assms(3) by (simp add: um_or_assign_def)
next
  case False
  have c: "x \<in> {0, 1} \<Longrightarrow> y \<in> {0, 1} \<Longrightarrow> x OR y \<in> {0, 1 :: u8}" for x y by auto
  from combine_wf [of m r "(OR)", OF assms(1,2) c] False assms(3) show ?thesis by (simp add: um_or_assign_def)
qed

theorem um_or_assign_bits_witness:
  "um_or_assign mask3 mask40 = Inl OutOfRange"
  using um_or_assign_bits [OF mask40_wf mask3_wf] by (simp add: mask40_def mask3_def)

text \<open>The copy constructor frees the pointer it has not initialised.\<close>

lemma um_copy_undefined: "um_copy r = Inl OutOfRange"
  by (simp add: um_copy_def SetCount_def)

end
