(* ===== verification/EventProcessor.thy ===== *)
theory EventProcessor
  imports Prelude
begin

text \<open>
  \<^verbatim>\<open>EventProcessor\<close> (\<^verbatim>\<open>src/src/server/shared/Utilities/EventProcessor.h\<close> and \<^verbatim>\<open>.cpp\<close>): the
  multimap of pending events of a unit and its update loop. Events are objects on the heap
  that the processor deletes, so the model has a heap of live events, and using an event
  that was deleted is an error. The virtual methods \<^verbatim>\<open>Execute\<close>, \<^verbatim>\<open>Abort\<close> and \<^verbatim>\<open>IsDeletable\<close>
  are parameters; \<open>'w\<close> is what they may change outside the processor. \<^verbatim>\<open>Execute\<close> may also
  change the processor itself (add events); \<^verbatim>\<open>Abort\<close> may not, as no override of it does.
\<close>

section \<open>State\<close>

record basic_event =
  to_Abort :: bool
  m_addTime :: u64
  m_execTime :: u64

record 'w event_processor =
  m_time :: u64
  m_events :: "(u64 \<times> nat) list"
  m_aborting :: bool
  ep_heap :: "nat \<Rightarrow> basic_event option"
  ep_world :: 'w

datatype ep_error = UseAfterFree

type_synonym 'w execute = "nat \<Rightarrow> u64 \<Rightarrow> u32 \<Rightarrow> 'w event_processor \<Rightarrow> bool \<times> 'w event_processor"
type_synonym 'w abort = "nat \<Rightarrow> u64 \<Rightarrow> 'w \<Rightarrow> 'w"

text \<open>\<^verbatim>\<open>std::multimap::insert\<close>: behind the entries with an equal key.\<close>

fun mm_insert :: "'k::linorder \<Rightarrow> 'v \<Rightarrow> ('k \<times> 'v) list \<Rightarrow> ('k \<times> 'v) list" where
  "mm_insert k v [] = [(k, v)]"
| "mm_insert k v ((k', v') # m) = (if k < k' then (k, v) # (k', v') # m else (k', v') # mm_insert k v m)"

section \<open>Operations\<close>

definition ep_new :: "'w \<Rightarrow> 'w event_processor" where
  "ep_new w = \<lparr>m_time = 0, m_events = [], m_aborting = False, ep_heap = (\<lambda>_. None), ep_world = w\<rparr>"

definition ep_delete :: "nat \<Rightarrow> 'w event_processor \<Rightarrow> ep_error + 'w event_processor" where
  "ep_delete e s = (case ep_heap s e of None \<Rightarrow> Inl UseAfterFree
                                      | Some _ \<Rightarrow> Inr (s\<lparr>ep_heap := (ep_heap s)(e := None)\<rparr>))"

definition AddEvent :: "nat \<Rightarrow> u64 \<Rightarrow> bool \<Rightarrow> 'w event_processor \<Rightarrow> ep_error + 'w event_processor" where
  "AddEvent e e_time set_addtime s =
     (case ep_heap s e of None \<Rightarrow> Inl UseAfterFree
      | Some ev \<Rightarrow>
          let ev = (if set_addtime then ev\<lparr>m_addTime := m_time s\<rparr> else ev);
              ev = ev\<lparr>m_execTime := e_time\<rparr>
          in Inr (s\<lparr>ep_heap := (ep_heap s)(e \<mapsto> ev), m_events := mm_insert e_time e (m_events s)\<rparr>))"

definition CalculateTime :: "u64 \<Rightarrow> 'w event_processor \<Rightarrow> u64" where
  "CalculateTime t_offset s = m_time s + t_offset"

text \<open>
  The main loop may run forever (an event may re-add itself at the current time), so it has
  fuel; \<open>None\<close> is running out of it.
\<close>

fun ep_loop :: "'w execute \<Rightarrow> 'w abort \<Rightarrow> nat \<Rightarrow> u32 \<Rightarrow> 'w event_processor
    \<Rightarrow> (ep_error + 'w event_processor) option" where
  "ep_loop exec abrt 0 p_time s = None"
| "ep_loop exec abrt (Suc fuel) p_time s =
     (case m_events s of
        [] \<Rightarrow> Some (Inr s)
      | (t, e) # es \<Rightarrow>
          if \<not> t \<le> m_time s then Some (Inr s)
          else
            let s = s\<lparr>m_events := es\<rparr> in
            case ep_heap s e of
              None \<Rightarrow> Some (Inl UseAfterFree)
            | Some ev \<Rightarrow>
                if \<not> to_Abort ev then
                  (case exec e (m_time s) p_time s of (destroy, s') \<Rightarrow>
                     if destroy then
                       (case ep_delete e s' of
                          Inl err \<Rightarrow> Some (Inl err)
                        | Inr s'' \<Rightarrow> ep_loop exec abrt fuel p_time s'')
                     else ep_loop exec abrt fuel p_time s')
                else
                  (case ep_delete e (s\<lparr>ep_world := abrt e (m_time s) (ep_world s)\<rparr>) of
                     Inl err \<Rightarrow> Some (Inl err)
                   | Inr s' \<Rightarrow> ep_loop exec abrt fuel p_time s'))"

definition ep_Update :: "'w execute \<Rightarrow> 'w abort \<Rightarrow> nat \<Rightarrow> u32 \<Rightarrow> 'w event_processor
    \<Rightarrow> (ep_error + 'w event_processor) option" where
  "ep_Update exec abrt fuel p_time s = ep_loop exec abrt fuel p_time (s\<lparr>m_time := m_time s + ucast p_time\<rparr>)"

text \<open>
  The loop of \<^verbatim>\<open>KillAllEvents\<close> over the entries; the result is the entries that stay in the
  map. With \<open>force\<close> none is erased one by one and the map is cleared at the end.
\<close>

fun kill_loop :: "(nat \<Rightarrow> bool) \<Rightarrow> 'w abort \<Rightarrow> bool \<Rightarrow> (u64 \<times> nat) list \<Rightarrow> (u64 \<times> nat) list
    \<Rightarrow> 'w event_processor \<Rightarrow> ep_error + 'w event_processor" where
  "kill_loop deletable abrt force kept [] s = Inr (s\<lparr>m_events := (if force then [] else kept)\<rparr>)"
| "kill_loop deletable abrt force kept ((t, e) # es) s =
     (case ep_heap s e of
        None \<Rightarrow> Inl UseAfterFree
      | Some ev \<Rightarrow>
          let s = s\<lparr>ep_heap := (ep_heap s)(e \<mapsto> ev\<lparr>to_Abort := True\<rparr>),
                    ep_world := abrt e (m_time s) (ep_world s)\<rparr> in
          if force \<or> deletable e
          then rbind (ep_delete e s) (kill_loop deletable abrt force (if force then kept @ [(t, e)] else kept) es)
          else kill_loop deletable abrt force (kept @ [(t, e)]) es s)"

definition KillAllEvents :: "(nat \<Rightarrow> bool) \<Rightarrow> 'w abort \<Rightarrow> bool \<Rightarrow> 'w event_processor
    \<Rightarrow> ep_error + 'w event_processor" where
  "KillAllEvents deletable abrt force s =
     kill_loop deletable abrt force [] (m_events s) (s\<lparr>m_aborting := True\<rparr>)"

text \<open>The methods of the base class.\<close>

definition basic_Execute :: "'w execute" where
  "basic_Execute e e_time p_time s = (True, s)"

definition basic_Abort :: "'w abort" where
  "basic_Abort e e_time w = w"

definition basic_IsDeletable :: "nat \<Rightarrow> bool" where
  "basic_IsDeletable e = True"

text \<open>
  The end of \<^verbatim>\<open>SpellEvent::Execute\<close> (\<^verbatim>\<open>Spell.cpp\<close>): a spell that is not finished plans its event
  one millisecond later, in the same processor.
\<close>

definition SpellEvent_replan :: "'w execute" where
  "SpellEvent_replan e e_time p_time s =
     (case AddEvent e (e_time + 1) False s of Inl err \<Rightarrow> (False, s) | Inr s' \<Rightarrow> (False, s'))"

section \<open>The multimap\<close>

lemma set_mm_insert [simp]: "set (mm_insert k v m) = insert (k, v) (set m)"
  by (induction k v m rule: mm_insert.induct) auto

lemma sorted_mm_insert: "sorted (map fst m) \<Longrightarrow> sorted (map fst (mm_insert k v m))"
  by (induction k v m rule: mm_insert.induct) auto

lemma mm_insert_split:
  "sorted (map fst m) \<Longrightarrow> mm_insert k v m = takeWhile (\<lambda>x. fst x \<le> k) m @ (k, v) # dropWhile (\<lambda>x. fst x \<le> k) m"
  by (induction k v m rule: mm_insert.induct) (auto simp: not_less)

lemma distinct_mm_insert: "distinct (map snd m) \<Longrightarrow> v \<notin> snd ` set m \<Longrightarrow> distinct (map snd (mm_insert k v m))"
  by (induction k v m rule: mm_insert.induct) auto

abbreviation due :: "'w event_processor \<Rightarrow> (u64 \<times> nat) list" where
  "due s \<equiv> takeWhile (\<lambda>x. fst x \<le> m_time s) (m_events s)"

abbreviation later :: "'w event_processor \<Rightarrow> (u64 \<times> nat) list" where
  "later s \<equiv> dropWhile (\<lambda>x. fst x \<le> m_time s) (m_events s)"

lemma takeWhile_mm_insert:
  "T < k \<Longrightarrow> sorted (map fst m) \<Longrightarrow> takeWhile (\<lambda>x. fst x \<le> T) (mm_insert k v m) = takeWhile (\<lambda>x. fst x \<le> T) m"
  by (induction k v m rule: mm_insert.induct) auto

lemma takeWhile_sorted:
  "sorted (map fst m) \<Longrightarrow> takeWhile (\<lambda>x. fst x \<le> T) m = filter (\<lambda>x. fst x \<le> T) m"
proof (induction m)
  case (Cons x m)
  then have "\<not> fst x \<le> T \<Longrightarrow> filter (\<lambda>x. fst x \<le> T) m = []" by (force simp: filter_empty_conv)
  with Cons show ?case by auto
qed simp

section \<open>Well-formed processors\<close>

text \<open>The queue is sorted and its events are live and queued once each.\<close>

definition ep_wf :: "'w event_processor \<Rightarrow> bool" where
  "ep_wf s \<longleftrightarrow> sorted (map fst (m_events s)) \<and> distinct (map snd (m_events s))
     \<and> (\<forall>(t, e) \<in> set (m_events s). ep_heap s e \<noteq> None)"

lemma ep_wf_new: "ep_wf (ep_new w)"
  by (simp add: ep_wf_def ep_new_def)

lemma AddEvent_wf:
  assumes "ep_wf s" and "e \<notin> snd ` set (m_events s)" and "AddEvent e t b s = Inr s'"
  shows "ep_wf s'"
  using assms
  by (force simp: AddEvent_def Let_def ep_wf_def sorted_mm_insert distinct_mm_insert
      split: option.splits)

text \<open>What an update does with one event, taken out of the queue.\<close>

definition handle_event :: "'w execute \<Rightarrow> 'w abort \<Rightarrow> u32 \<Rightarrow> nat \<Rightarrow> 'w event_processor \<Rightarrow> 'w event_processor" where
  "handle_event exec abrt p e s0 =
     (let s = s0\<lparr>m_events := filter (\<lambda>x. snd x \<noteq> e) (m_events s0)\<rparr>;
          gone = (\<lambda>s. s\<lparr>ep_heap := (ep_heap s)(e := None)\<rparr>)
      in case ep_heap s e of
           None \<Rightarrow> s
         | Some ev \<Rightarrow>
             if to_Abort ev then gone (s\<lparr>ep_world := abrt e (m_time s) (ep_world s)\<rparr>)
             else case exec e (m_time s) p s of (destroy, s') \<Rightarrow> if destroy then gone s' else s')"

text \<open>
  What the loop needs of \<^verbatim>\<open>Execute\<close>: on an event that was taken out of the queue it leaves
  the processor well formed, the clock alone and the part of the queue that is already due
  as it was; an event that asks to be deleted is live and not queued again.
\<close>

locale event_execute =
  fixes exec :: "'w execute"
  assumes exec_wf: "ep_wf s \<Longrightarrow> e \<notin> snd ` set (m_events s) \<Longrightarrow> ep_heap s e \<noteq> None \<Longrightarrow>
      ep_wf (snd (exec e t p s))"
    and exec_time: "m_time (snd (exec e t p s)) = m_time s"
    and exec_due: "ep_wf s \<Longrightarrow> e \<notin> snd ` set (m_events s) \<Longrightarrow> ep_heap s e \<noteq> None \<Longrightarrow> t = m_time s \<Longrightarrow> t < t + 1 \<Longrightarrow>
      due (snd (exec e t p s)) = due s"
    and exec_destroy: "ep_wf s \<Longrightarrow> e \<notin> snd ` set (m_events s) \<Longrightarrow> ep_heap s e \<noteq> None \<Longrightarrow>
      fst (exec e t p s) \<Longrightarrow>
      ep_heap (snd (exec e t p s)) e \<noteq> None \<and> e \<notin> snd ` set (m_events (snd (exec e t p s)))"
begin

lemma ep_loop_total:
  "ep_wf s \<Longrightarrow> length (due s) < fuel \<Longrightarrow> m_time s < m_time s + 1 \<Longrightarrow>
     \<exists>s'. ep_loop exec abrt fuel p s = Some (Inr s') \<and> ep_wf s' \<and> due s' = [] \<and> m_time s' = m_time s"
proof (induction fuel arbitrary: s)
  case 0
  then show ?case by simp
next
  case (Suc fuel)
  show ?case
  proof (cases "m_events s")
    case Nil
    with Suc.prems show ?thesis by simp
  next
    case (Cons te es)
    obtain t e where te: "te = (t, e)" by (cases te)
    show ?thesis
    proof (cases "t \<le> m_time s")
      case False
      with Cons te Suc.prems show ?thesis by simp
    next
      case True
      let ?s = "s\<lparr>m_events := es\<rparr>"
      have wf: "ep_wf ?s" and nin: "e \<notin> snd ` set (m_events ?s)" and live: "ep_heap ?s e \<noteq> None"
        using Suc.prems(1) Cons te by (auto simp: ep_wf_def)
      have len: "length (due ?s) < fuel" using Suc.prems(2) Cons te True by simp
      have del: "ep_wf s1 \<and> due s1 = due s0 \<and> m_time s1 = m_time s0"
        if "ep_delete e s0 = Inr s1" "ep_wf s0" "e \<notin> snd ` set (m_events s0)" for s0 s1 :: "'w event_processor"
        using that by (force simp: ep_delete_def ep_wf_def split: option.splits)
      from live obtain ev where ev: "ep_heap ?s e = Some ev" by auto
      show ?thesis
      proof (cases "to_Abort ev")
        case True
        let ?s' = "?s\<lparr>ep_world := abrt e (m_time s) (ep_world s)\<rparr>"
        have wf': "ep_wf ?s'" "e \<notin> snd ` set (m_events ?s')" using wf nin by (simp_all add: ep_wf_def)
        from live obtain s1 where s1: "ep_delete e ?s' = Inr s1" by (auto simp: ep_delete_def)
        from del [OF s1 wf'] len Suc.prems(3) Suc.IH [of s1] obtain s' where
          "ep_loop exec abrt fuel p s1 = Some (Inr s')" "ep_wf s'" "due s' = []" "m_time s' = m_time s" by auto
        with s1 ev Cons te \<open>t \<le> m_time s\<close> True show ?thesis by auto
      next
        case False
        obtain d s2 where x: "exec e (m_time s) p ?s = (d, s2)" by (cases "exec e (m_time s) p ?s")
        have wf2: "ep_wf s2" "m_time s2 = m_time s" "due s2 = due ?s"
          using exec_wf [OF wf nin live, of "m_time s" p] exec_time [of e "m_time s" p ?s]
            exec_due [OF wf nin live, of "m_time s" p] Suc.prems(3) x by simp_all
        show ?thesis
        proof (cases d)
          case True
          have d2: "ep_heap s2 e \<noteq> None" "e \<notin> snd ` set (m_events s2)"
            using exec_destroy [OF wf nin live, of "m_time s" p] x True by simp_all
          then obtain s3 where s3: "ep_delete e s2 = Inr s3" by (auto simp: ep_delete_def)
          from del [OF s3 wf2(1) d2(2)] wf2 len Suc.prems(3) Suc.IH [of s3] obtain s' where
            "ep_loop exec abrt fuel p s3 = Some (Inr s')" "ep_wf s'" "due s' = []" "m_time s' = m_time s" by auto
          with s3 x True ev Cons te \<open>t \<le> m_time s\<close> False show ?thesis by auto
        next
          case notd: False
          from wf2 len Suc.prems(3) Suc.IH [of s2] obtain s' where
            "ep_loop exec abrt fuel p s2 = Some (Inr s')" "ep_wf s'" "due s' = []" "m_time s' = m_time s" by auto
          with x notd ev Cons te \<open>t \<le> m_time s\<close> False show ?thesis by auto
        qed
      qed
    qed
  qed
qed

lemma handle_first:
  assumes "ep_wf s" and "m_events s = (t, e) # es" and "t \<le> m_time s" and "m_time s < m_time s + 1"
  shows "ep_loop exec abrt (Suc fuel) p s = ep_loop exec abrt fuel p (handle_event exec abrt p e s)"
    and "ep_wf (handle_event exec abrt p e s)" and "m_time (handle_event exec abrt p e s) = m_time s"
    and "due s = (t, e) # due (handle_event exec abrt p e s)"
proof -
  let ?s = "s\<lparr>m_events := es\<rparr>" and ?gone = "\<lambda>s :: 'w event_processor. s\<lparr>ep_heap := (ep_heap s)(e := None)\<rparr>"
  have wf: "ep_wf ?s" and nin: "e \<notin> snd ` set (m_events ?s)" and live: "ep_heap ?s e \<noteq> None"
    using assms(1,2) by (auto simp: ep_wf_def)
  have queue: "filter (\<lambda>x. snd x \<noteq> e) (m_events s) = es"
    using nin assms(2) by (auto simp: filter_id_conv)
  have gone: "ep_delete e v = Inr (?gone v)" "ep_wf (?gone v)" "due (?gone v) = due v"
    if "ep_wf v" "e \<notin> snd ` set (m_events v)" "ep_heap v e \<noteq> None" for v :: "'w event_processor"
    using that by (force simp: ep_delete_def ep_wf_def)+
  from live obtain ev where ev: "ep_heap s e = Some ev" by auto
  obtain d v where x: "exec e (m_time s) p ?s = (d, v)" by fastforce
  have v: "ep_wf v" "m_time v = m_time s" "due v = due ?s"
    using exec_wf [OF wf nin live, of "m_time s" p] exec_time [of e "m_time s" p ?s]
      exec_due [OF wf nin live, of "m_time s" p] assms(4) x by simp_all
  have d: "d \<Longrightarrow> ep_heap v e \<noteq> None \<and> e \<notin> snd ` set (m_events v)"
    using exec_destroy [OF wf nin live, of "m_time s" p] x by simp
  let ?a = "?s\<lparr>ep_world := abrt e (m_time s) (ep_world s)\<rparr>"
  have a: "ep_wf ?a" "e \<notin> snd ` set (m_events ?a)" "ep_heap ?a e \<noteq> None" using wf nin live by (simp_all add: ep_wf_def)
  have h: "handle_event exec abrt p e s = (if to_Abort ev then ?gone ?a else if d then ?gone v else v)"
    by (simp add: handle_event_def queue ev x)
  show "ep_loop exec abrt (Suc fuel) p s = ep_loop exec abrt fuel p (handle_event exec abrt p e s)"
    using assms(2,3) ev x h gone(1) [OF a] gone(1) [OF v(1)] d by auto
  show "ep_wf (handle_event exec abrt p e s)" using h gone(2) [OF a] gone(2) [OF v(1)] v(1) d by auto
  show "m_time (handle_event exec abrt p e s) = m_time s" using h v(2) by simp
  show "due s = (t, e) # due (handle_event exec abrt p e s)"
    using h gone(3) [OF a] gone(3) [OF v(1)] v(2,3) d assms(2,3) by auto
qed

lemma ep_loop_handles_due:
  "ep_wf s \<Longrightarrow> length (due s) < fuel \<Longrightarrow> m_time s < m_time s + 1 \<Longrightarrow>
     ep_loop exec abrt fuel p s = Some (Inr (foldl (\<lambda>s (t, e). handle_event exec abrt p e s) s (due s)))"
proof (induction fuel arbitrary: s)
  case (Suc fuel)
  show ?case
  proof (cases "m_events s")
    case (Cons te es)
    obtain t e where te: "te = (t, e)" by fastforce
    show ?thesis
    proof (cases "t \<le> m_time s")
      case True
      note h = handle_first [OF Suc.prems(1) Cons [unfolded te] True Suc.prems(3), where abrt = abrt and p = p]
      have "length (due (handle_event exec abrt p e s)) < fuel" using Suc.prems(2) h(4) by simp
      from Suc.IH [OF h(2) this] Suc.prems(3) show ?thesis unfolding h(1) h(4) by (simp add: h(3))
    qed (simp add: Cons te)
  qed simp
qed simp

end

interpretation basic: event_execute basic_Execute
  by unfold_locales (simp_all add: basic_Execute_def)

lemma due_AddEvent:
  assumes "ep_wf s" and "AddEvent e t b s = Inr s'" and "m_time s < t"
  shows "due s' = due s"
  using assms by (auto simp: AddEvent_def Let_def ep_wf_def takeWhile_mm_insert split: option.splits)

lemma AddEvent_time: "AddEvent e t b s = Inr s' \<Longrightarrow> m_time s' = m_time s"
  by (auto simp: AddEvent_def Let_def split: option.splits)

interpretation replan: event_execute SpellEvent_replan
  by unfold_locales
    (auto simp: SpellEvent_replan_def split: sum.splits dest: AddEvent_wf due_AddEvent AddEvent_time)

section \<open>Properties\<close>

text \<open>C12: an update with any events that keep the laws of \<open>event_execute\<close> ends: with one round
  of fuel more than there are due events it returns without using a deleted event, no event
  that is due is left, and the queue is sorted, without duplicates and all live.\<close>

theorem ep_Update_total:
  assumes "event_execute exec" and "ep_wf s"
    and "T = m_time s + ucast p" and "T < T + 1"
    and "length (takeWhile (\<lambda>x. fst x \<le> T) (m_events s)) < fuel"
  shows "\<exists>s'. ep_Update exec abrt fuel p s = Some (Inr s') \<and> ep_wf s' \<and> m_time s' = T
    \<and> (\<forall>(t, e) \<in> set (m_events s'). T < t)"
proof -
  let ?s = "s\<lparr>m_time := T\<rparr>"
  have "ep_wf ?s" using assms(2) by (simp add: ep_wf_def)
  moreover have "length (due ?s) < fuel" using assms(5) by simp
  ultimately obtain s' where s': "ep_loop exec abrt fuel p ?s = Some (Inr s')" "ep_wf s'" "due s' = []"
    "m_time s' = T"
    using event_execute.ep_loop_total [OF assms(1), of ?s fuel] assms(4) by auto
  have "T < t" if "(t, e) \<in> set (m_events s')" for t e
  proof (cases "m_events s'")
    case (Cons x xs)
    then have "T < fst x" using s'(3,4) by (simp split: if_splits)
    with Cons s'(2) that show ?thesis by (force simp: ep_wf_def)
  qed (use that in simp)
  with s' assms(3) show ?thesis by (auto simp: ep_Update_def)
qed

definition one_event :: "unit event_processor" where
  "one_event = \<lparr>m_time = 10, m_events = [(12, 7)], m_aborting = False,
     ep_heap = [7 \<mapsto> \<lparr>to_Abort = False, m_addTime = 0, m_execTime = 12\<rparr>], ep_world = ()\<rparr>"

theorem ep_Update_total_witness:
  "\<exists>s'. ep_Update SpellEvent_replan basic_Abort 2 5 one_event = Some (Inr s') \<and> ep_wf s' \<and> m_time s' = 15
    \<and> (\<forall>(t, e) \<in> set (m_events s'). 15 < t)"
  using ep_Update_total [OF replan.event_execute_axioms, of one_event 15 5 2 basic_Abort]
  by (simp add: one_event_def ep_wf_def)

text \<open>C26: the order and the effect of an update with any events that keep the laws of \<open>event_execute\<close>,
  whatever they return and even if they plan themselves again: each event that is due when the clock
  has been advanced is handled, once, by planned time and among equal times in the order of the queue, and
  no other is. To handle an event is to take it out of the queue and to call \<^verbatim>\<open>Execute\<close> and delete the
  event if that returns true, or, if the event is marked, to call \<^verbatim>\<open>Abort\<close> and delete it.\<close>

theorem ep_Update_runs_due:
  assumes "event_execute exec" and "ep_wf s" and "s1 = s\<lparr>m_time := m_time s + ucast p\<rparr>"
    and "m_time s1 < m_time s1 + 1" and "length (due s1) < fuel"
  shows "ep_Update exec abrt fuel p s = Some (Inr (foldl (\<lambda>s (t, e). handle_event exec abrt p e s) s1 (due s1)))
    \<and> sorted (map fst (due s1)) \<and> distinct (map snd (due s1)) \<and> set (due s1) = {x \<in> set (m_events s). fst x \<le> m_time s1}"
proof -
  have wf: "ep_wf s1" using assms(2,3) by (simp add: ep_wf_def)
  then have f: "due s1 = filter (\<lambda>x. fst x \<le> m_time s1) (m_events s)"
    using assms(3) by (simp add: takeWhile_sorted ep_wf_def)
  have "ep_Update exec abrt fuel p s = Some (Inr (foldl (\<lambda>s (t, e). handle_event exec abrt p e s) s1 (due s1)))"
    using event_execute.ep_loop_handles_due [OF assms(1) wf assms(5,4)] assms(3) by (simp add: ep_Update_def)
  moreover have "sorted (map fst (due s1)) \<and> distinct (map snd (due s1))"
    unfolding f using assms(2) by (simp add: ep_wf_def sorted_filter distinct_map_filter)
  moreover have "set (due s1) = {x \<in> set (m_events s). fst x \<le> m_time s1}" unfolding f by simp
  ultimately show ?thesis by blast
qed

definition two_events :: "nat list event_processor" where
  "two_events = \<lparr>m_time = 10, m_events = [(12, 7), (12, 8), (40, 9)], m_aborting = False,
     ep_heap = (\<lambda>_. Some \<lparr>to_Abort = False, m_addTime = 0, m_execTime = 12\<rparr>), ep_world = []\<rparr>"

theorem ep_Update_runs_due_witness:
  "\<exists>s'. ep_Update SpellEvent_replan basic_Abort 3 5 two_events = Some (Inr s') \<and> m_events s' = [(16, 7), (16, 8), (40, 9)]"
  using ep_Update_runs_due [OF replan.event_execute_axioms, of two_events _ 5 3 basic_Abort, OF _ refl]
  by (simp add: two_events_def ep_wf_def handle_event_def SpellEvent_replan_def AddEvent_def)

lemma kill_loop_result:
  "distinct (map snd es) \<Longrightarrow> \<forall>(t, e) \<in> set es. ep_heap s e \<noteq> None \<Longrightarrow>
     kill_loop deletable abrt force kept es s = Inr (s\<lparr>
       m_events := (if force then [] else kept @ filter (\<lambda>(t, e). \<not> deletable e) es),
       ep_heap := (\<lambda>e. if e \<in> snd ` set es
          then if force \<or> deletable e then None else map_option (\<lambda>ev. ev\<lparr>to_Abort := True\<rparr>) (ep_heap s e)
          else ep_heap s e),
       ep_world := foldl (\<lambda>w (t, e). abrt e (m_time s) w) (ep_world s) es\<rparr>)"
proof (induction es arbitrary: kept s)
  case Nil
  then show ?case by simp
next
  case (Cons te es)
  obtain t e where te: "te = (t, e)" by (cases te)
  obtain ev where ev: "ep_heap s e = Some ev" using Cons.prems te by auto
  have nin: "e \<notin> snd ` set es" using Cons.prems te by simp
  let ?s = "s\<lparr>ep_heap := (ep_heap s)(e := if force \<or> deletable e then None else Some (ev\<lparr>to_Abort := True\<rparr>)),
     ep_world := abrt e (m_time s) (ep_world s)\<rparr>"
  let ?kept = "if force \<or> \<not> deletable e then kept @ [(t, e)] else kept"
  have step: "kill_loop deletable abrt force kept (te # es) s = kill_loop deletable abrt force ?kept es ?s"
    using te ev by (cases s) (simp add: ep_delete_def Let_def)
  have live: "\<forall>(t, e) \<in> set es. ep_heap ?s e \<noteq> None" using Cons.prems nin by force
  have "(\<lambda>x. if x \<in> snd ` set es
          then if force \<or> deletable x then None else map_option (\<lambda>ev. ev\<lparr>to_Abort := True\<rparr>) (ep_heap ?s x)
          else ep_heap ?s x) =
      (\<lambda>x. if x \<in> snd ` set (te # es)
          then if force \<or> deletable x then None else map_option (\<lambda>ev. ev\<lparr>to_Abort := True\<rparr>) (ep_heap s x)
          else ep_heap s x)"
    using nin te ev by (auto simp: fun_eq_iff)
  with step Cons.IH [OF _ live, of ?kept] Cons.prems te show ?case by simp
qed

text \<open>\<^verbatim>\<open>KillAllEvents\<close> calls \<^verbatim>\<open>Abort\<close> once per queued event in queue order. With \<open>force\<close> it deletes
  all of them and empties the queue; without, it deletes the deletable ones and leaves the others
  queued in order and marked, so that the next update aborts them again.\<close>

theorem KillAllEvents_result:
  assumes "ep_wf s"
  shows "\<exists>s'. KillAllEvents deletable abrt force s = Inr s' \<and> ep_wf s'
    \<and> m_events s' = (if force then [] else filter (\<lambda>(t, e). \<not> deletable e) (m_events s))
    \<and> (\<forall>e. ep_heap s' e = (if e \<in> snd ` set (m_events s)
          then if force \<or> deletable e then None else map_option (\<lambda>ev. ev\<lparr>to_Abort := True\<rparr>) (ep_heap s e)
          else ep_heap s e))
    \<and> ep_world s' = foldl (\<lambda>w (t, e). abrt e (m_time s) w) (ep_world s) (m_events s)"
proof -
  have d: "distinct (map snd (m_events s))" "\<forall>(t, e) \<in> set (m_events s). ep_heap s e \<noteq> None"
    using assms by (auto simp: ep_wf_def)
  have "sorted (map fst (filter P (m_events s)))" for P using assms by (simp add: ep_wf_def sorted_filter)
  moreover have "distinct (map snd (filter P (m_events s)))" for P using d(1) by (rule distinct_map_filter)
  ultimately show ?thesis
    using kill_loop_result [of "m_events s" "s\<lparr>m_aborting := True\<rparr>" deletable abrt force "[]"] d
    by (force simp: KillAllEvents_def ep_wf_def)
qed

theorem KillAllEvents_result_witness:
  "\<exists>s'. KillAllEvents (\<lambda>e. e = 8) (\<lambda>e _ w. w @ [e]) False two_events = Inr s'
    \<and> m_events s' = [(12, 7), (40, 9)] \<and> ep_world s' = [7, 8, 9]"
  using KillAllEvents_result [of two_events "\<lambda>e. e = 8" "\<lambda>e _ w. w @ [e]" False]
  by (auto simp: two_events_def ep_wf_def)

text \<open>The law on \<open>due\<close> is needed: an event that re-adds itself at the current time keeps the update
  from ending, whatever the fuel.\<close>

definition replan_now :: "'w execute" where
  "replan_now e e_time p_time s =
     (case AddEvent e e_time False s of Inl err \<Rightarrow> (False, s) | Inr s' \<Rightarrow> (False, s'))"

lemma replan_now_diverges:
  "m_events s = [(t, e)] \<Longrightarrow> t \<le> m_time s \<Longrightarrow> ep_heap s e = Some ev \<Longrightarrow> \<not> to_Abort ev \<Longrightarrow>
     ep_loop replan_now abrt fuel p s = None"
proof (induction fuel arbitrary: s t ev)
  case (Suc fuel)
  let ?s = "s\<lparr>ep_heap := (ep_heap s)(e \<mapsto> ev\<lparr>m_execTime := m_time s\<rparr>), m_events := [(m_time s, e)]\<rparr>"
  have "ep_loop replan_now abrt (Suc fuel) p s = ep_loop replan_now abrt fuel p ?s"
    using Suc.prems by (simp add: replan_now_def AddEvent_def Let_def)
  also have "\<dots> = None" using Suc.prems by (intro Suc.IH [where ev = "ev\<lparr>m_execTime := m_time s\<rparr>" and t = "m_time s"]) simp_all
  finally show ?case .
qed simp

end
