(* ===== verification/Timers.thy ===== *)
theory Timers
  imports Prelude
begin

text \<open>
  The timers of \<^verbatim>\<open>src/src/server/shared/Utilities/Timer.h\<close>. \<^verbatim>\<open>uint32\<close> and \<^verbatim>\<open>int32\<close> values are
  32-bit words, read with \<open>uint\<close> and \<open>sint\<close>; \<^verbatim>\<open>time_t\<close> values, whose overflow is undefined in
  C++ and would take 292 billion years, are integers.
\<close>

section \<open>Millisecond differences\<close>

definition getMSTimeDiff :: "u32 \<Rightarrow> u32 \<Rightarrow> u32" where
  "getMSTimeDiff oldMSTime newMSTime =
     (if newMSTime < oldMSTime then (0xFFFFFFFF - oldMSTime) + newMSTime
      else newMSTime - oldMSTime)"

definition GetMSTimeDiffToNow :: "u32 \<Rightarrow> u32 \<Rightarrow> u32" where
  "GetMSTimeDiffToNow msTime oldMSTime = getMSTimeDiff oldMSTime msTime"

section \<open>IntervalTimer\<close>

record IntervalTimer =
  it_interval :: int
  it_current :: int

definition IntervalTimer_new :: IntervalTimer where
  "IntervalTimer_new = \<lparr>it_interval = 0, it_current = 0\<rparr>"

definition IntervalTimer_Update :: "int \<Rightarrow> IntervalTimer \<Rightarrow> IntervalTimer" where
  "IntervalTimer_Update diff t =
     (let t = t\<lparr>it_current := it_current t + diff\<rparr> in
      if it_current t < 0 then t\<lparr>it_current := 0\<rparr> else t)"

definition IntervalTimer_Passed :: "IntervalTimer \<Rightarrow> bool" where
  "IntervalTimer_Passed t \<longleftrightarrow> it_interval t \<le> it_current t"

definition IntervalTimer_Reset :: "IntervalTimer \<Rightarrow> IntervalTimer" where
  "IntervalTimer_Reset t =
     (if it_interval t \<le> it_current t then t\<lparr>it_current := it_current t - it_interval t\<rparr> else t)"

definition IntervalTimer_SetCurrent :: "int \<Rightarrow> IntervalTimer \<Rightarrow> IntervalTimer" where
  "IntervalTimer_SetCurrent c t = t\<lparr>it_current := c\<rparr>"

definition IntervalTimer_SetInterval :: "int \<Rightarrow> IntervalTimer \<Rightarrow> IntervalTimer" where
  "IntervalTimer_SetInterval i t = t\<lparr>it_interval := i\<rparr>"

section \<open>TimeTracker\<close>

record TimeTracker =
  tt_expiryTime :: int

definition TimeTracker_new :: "int \<Rightarrow> TimeTracker" where
  "TimeTracker_new expiry = \<lparr>tt_expiryTime = expiry\<rparr>"

definition TimeTracker_Update :: "int \<Rightarrow> TimeTracker \<Rightarrow> TimeTracker" where
  "TimeTracker_Update diff t = t\<lparr>tt_expiryTime := tt_expiryTime t - diff\<rparr>"

definition TimeTracker_Passed :: "TimeTracker \<Rightarrow> bool" where
  "TimeTracker_Passed t \<longleftrightarrow> tt_expiryTime t \<le> 0"

definition TimeTracker_Reset :: "int \<Rightarrow> TimeTracker \<Rightarrow> TimeTracker" where
  "TimeTracker_Reset interval t = t\<lparr>tt_expiryTime := interval\<rparr>"

record TimeTrackerSmall =
  ts_expiryTime :: u32

definition TimeTrackerSmall_new :: "u32 \<Rightarrow> TimeTrackerSmall" where
  "TimeTrackerSmall_new expiry = \<lparr>ts_expiryTime = expiry\<rparr>"

definition TimeTrackerSmall_Update :: "u32 \<Rightarrow> TimeTrackerSmall \<Rightarrow> TimeTrackerSmall" where
  "TimeTrackerSmall_Update diff t = t\<lparr>ts_expiryTime := ts_expiryTime t - diff\<rparr>"

definition TimeTrackerSmall_Passed :: "TimeTrackerSmall \<Rightarrow> bool" where
  "TimeTrackerSmall_Passed t \<longleftrightarrow> sint (ts_expiryTime t) \<le> 0"

definition TimeTrackerSmall_Reset :: "u32 \<Rightarrow> TimeTrackerSmall \<Rightarrow> TimeTrackerSmall" where
  "TimeTrackerSmall_Reset interval t = t\<lparr>ts_expiryTime := interval\<rparr>"

section \<open>PeriodicTimer\<close>

record PeriodicTimer =
  i_period :: u32
  i_expireTime :: u32

definition PeriodicTimer_new :: "u32 \<Rightarrow> u32 \<Rightarrow> PeriodicTimer" where
  "PeriodicTimer_new period start_time = \<lparr>i_period = period, i_expireTime = start_time\<rparr>"

definition PeriodicTimer_Update :: "u32 \<Rightarrow> PeriodicTimer \<Rightarrow> bool \<times> PeriodicTimer" where
  "PeriodicTimer_Update diff t =
     (let t = t\<lparr>i_expireTime := i_expireTime t - diff\<rparr> in
      if 0 < sint (i_expireTime t) then (False, t)
      else (True, t\<lparr>i_expireTime := i_expireTime t
              + (if sint diff < sint (i_period t) then i_period t else diff)\<rparr>))"

definition PeriodicTimer_SetPeriodic :: "u32 \<Rightarrow> u32 \<Rightarrow> PeriodicTimer \<Rightarrow> PeriodicTimer" where
  "PeriodicTimer_SetPeriodic period start_time t = t\<lparr>i_expireTime := start_time, i_period := period\<rparr>"

definition PeriodicTimer_TUpdate :: "u32 \<Rightarrow> PeriodicTimer \<Rightarrow> PeriodicTimer" where
  "PeriodicTimer_TUpdate diff t = t\<lparr>i_expireTime := i_expireTime t - diff\<rparr>"

definition PeriodicTimer_TPassed :: "PeriodicTimer \<Rightarrow> bool" where
  "PeriodicTimer_TPassed t \<longleftrightarrow> sint (i_expireTime t) \<le> 0"

definition PeriodicTimer_TReset :: "u32 \<Rightarrow> u32 \<Rightarrow> PeriodicTimer \<Rightarrow> PeriodicTimer" where
  "PeriodicTimer_TReset diff period t =
     t\<lparr>i_expireTime := i_expireTime t + (if sint diff < sint period then period else diff)\<rparr>"

text \<open>A sequence of updates, with the number of times the timer fired.\<close>

fun PeriodicTimer_run :: "u32 list \<Rightarrow> PeriodicTimer \<Rightarrow> nat \<times> PeriodicTimer" where
  "PeriodicTimer_run [] t = (0, t)"
| "PeriodicTimer_run (d # ds) t =
     (case PeriodicTimer_Update d t of (fired, t) \<Rightarrow>
        case PeriodicTimer_run ds t of (n, t) \<Rightarrow> (if fired then Suc n else n, t))"

section \<open>Lemmas\<close>

lemma word_diff_sint: "a - b = (word_of_int (sint a - uint b) :: u32)"
  and word_add_sint: "a + b = (word_of_int (sint a + sint b) :: u32)"
  by simp_all

lemma sint_eq_uint_small: "uint (d :: u32) < 2 ^ 31 \<Longrightarrow> sint d = uint d"
  using sint_in_range [of "uint d"] uint_ge_0 [of d] by simp

lemma PeriodicTimer_step:
  assumes "0 < e" and "e \<le> sint (i_period t)" and "sint (i_expireTime t) = e"
    and "uint d \<le> sint (i_period t)"
  shows "\<exists>t'. PeriodicTimer_Update d t = (e \<le> uint d, t') \<and> i_period t' = i_period t
    \<and> sint (i_expireTime t') = (if e \<le> uint d then e - uint d + sint (i_period t) else e - uint d)"
proof -
  have p: "sint (i_period t) < 2 ^ 31" using sint_lt [of "i_period t"] by simp
  then have d: "uint d < 2 ^ 31" using assms(4) by linarith
  have u: "0 \<le> uint d" by simp
  have s1: "sint (i_expireTime t - d) = e - uint d"
    unfolding word_diff_sint using assms u d p by (subst sint_in_range) linarith+
  have s2: "sint (i_expireTime t - d + (if sint d < sint (i_period t) then i_period t else d))
      = e - uint d + sint (i_period t)" if "e \<le> uint d"
  proof -
    have "sint (if sint d < sint (i_period t) then i_period t else d) = sint (i_period t)"
      using assms(4) sint_eq_uint_small [OF d] by simp
    then show ?thesis
      unfolding word_add_sint [of "i_expireTime t - d"] s1 using assms that u d p
      by (subst sint_in_range) (auto simp: )
  qed
  show ?thesis using s1 s2 by (auto simp: PeriodicTimer_Update_def Let_def)
qed

lemma PeriodicTimer_run_time:
  "0 < e \<Longrightarrow> e \<le> sint (i_period t) \<Longrightarrow> sint (i_expireTime t) = e \<Longrightarrow>
     \<forall>d \<in> set ds. uint d \<le> sint (i_period t) \<Longrightarrow>
     \<exists>n t'. PeriodicTimer_run ds t = (n, t') \<and> i_period t' = i_period t
       \<and> sint (i_expireTime t') = e - sum_list (map uint ds) + int n * sint (i_period t)
       \<and> 0 < sint (i_expireTime t') \<and> sint (i_expireTime t') \<le> sint (i_period t)"
proof (induction ds arbitrary: t e)
  case Nil
  then show ?case by simp
next
  case (Cons d ds)
  from Cons.prems obtain t1 where t1: "PeriodicTimer_Update d t = (e \<le> uint d, t1)"
    "i_period t1 = i_period t"
    "sint (i_expireTime t1) = (if e \<le> uint d then e - uint d + sint (i_period t) else e - uint d)"
    using PeriodicTimer_step [of e t d] by auto
  let ?e = "if e \<le> uint d then e - uint d + sint (i_period t) else e - uint d"
  have u: "0 \<le> uint d" by simp
  have "0 < ?e" using Cons.prems by auto
  moreover have "?e \<le> sint (i_period t)"
  proof (cases "e \<le> uint d")
    case False
    then have "?e = e - uint d" by simp
    with Cons.prems(2) u show ?thesis by linarith
  qed simp
  ultimately have "0 < ?e" "?e \<le> sint (i_period t1)" using t1(2) by simp_all
  from Cons.IH [OF this t1(3)] Cons.prems(4) t1(2) obtain n t' where
    r: "PeriodicTimer_run ds t1 = (n, t')" "i_period t' = i_period t"
      "sint (i_expireTime t') = ?e - sum_list (map uint ds) + int n * sint (i_period t)"
      "0 < sint (i_expireTime t')" "sint (i_expireTime t') \<le> sint (i_period t)"
    by auto
  with t1(1) show ?case by (auto simp: algebra_simps)
qed

section \<open>Properties\<close>

text \<open>The difference of two millisecond times is the time elapsed modulo \<open>2 ^ 32\<close>, except that it
  is one too small whenever the counter has wrapped in between.\<close>

theorem getMSTimeDiff_elapsed:
  "getMSTimeDiff old (old + elapsed) = (if old + elapsed < old then elapsed - 1 else elapsed)"
proof -
  have "(0xFFFFFFFF :: u32) = - 1" by simp
  then show ?thesis by (simp add: getMSTimeDiff_def)
qed

text \<open>C40: a periodic timer whose start time is positive and at most the period does not drift: however the elapsed
  time is cut into updates none of which is longer than the period, the timer fires once at its start time and once per period after it, and
  what is left is carried over exactly.\<close>

theorem PeriodicTimer_no_drift:
  assumes "0 < sint start" and "sint start \<le> sint period"
    and "\<forall>d \<in> set ds. uint d \<le> sint period" and "T = sum_list (map uint ds)"
  shows "\<exists>t'. PeriodicTimer_run ds (PeriodicTimer_new period start) =
      (nat ((T - sint start + sint period) div sint period), t')
    \<and> sint (i_expireTime t') = sint period - (T - sint start) mod sint period"
proof -
  let ?p = "sint period"
  obtain n t' where r: "PeriodicTimer_run ds (PeriodicTimer_new period start) = (n, t')"
    "sint (i_expireTime t') = sint start - T + int n * ?p"
    "0 < sint (i_expireTime t')" "sint (i_expireTime t') \<le> ?p"
    using PeriodicTimer_run_time [of "sint start" "PeriodicTimer_new period start" ds] assms
    by (auto simp: PeriodicTimer_new_def)
  define r' where "r' = ?p - sint (i_expireTime t')"
  have r': "0 \<le> r'" "r' < ?p" "T - sint start + ?p = int n * ?p + r'"
    using r by (auto simp: r'_def)
  then have n: "(T - sint start + ?p) div ?p = int n" and m: "(T - sint start + ?p) mod ?p = r'"
    by (simp_all add: div_pos_pos_trivial)
  have "(T - sint start) mod ?p = r'" using m by simp
  with n r(1) show ?thesis by (simp add: r'_def)
qed

theorem PeriodicTimer_no_drift_witness:
  "\<exists>t'. PeriodicTimer_run [30, 60, 100, 25] (PeriodicTimer_new 100 40) = (2, t') \<and> sint (i_expireTime t') = 25"
  using PeriodicTimer_no_drift [of 40 100 "[30, 60, 100, 25]" 215] by simp

end
