(* ===== verification/LockedQueue.thy ===== *)
theory LockedQueue
  imports Prelude
begin

text \<open>
  \<^verbatim>\<open>ACE_Based::LockedQueue\<close> (\<^verbatim>\<open>src/src/server/shared/Threading/LockedQueue.h\<close>), the queue of
  received packets between the network threads and the world thread. An operation is the list of
  its accesses to the lock, the storage and the flag, and threads are interleaved between any
  two of them, so that nothing but the lock keeps two operations apart. The mutex is not
  recursive: who finds it held waits, even its holder, and acquiring does not fail; releasing a mutex one does not hold is
  undefined, like reading or popping the front of an empty deque.
\<close>

section \<open>State and accesses\<close>

record 'a locked_queue =
  lq_lock :: "nat option"
  lq_queue :: "'a list"
  lq_canceled :: bool

definition lq_new :: "'a locked_queue" where
  "lq_new = \<lparr>lq_lock = None, lq_queue = [], lq_canceled = False\<rparr>"

datatype lq_error = Blocked | Undefined

type_synonym 'a lq_result = "lq_error + 'a"

text \<open>
  \<open>ReturnIfEmpty\<close> and \<open>ReturnUnless\<close> are the early returns of \<^verbatim>\<open>next\<close>, at which the destructor of
  the guard releases the lock; \<open>Front\<close> copies the front into the result.
\<close>

datatype 'a lq_instr = Acquire | Release | PushBack 'a | ReturnIfEmpty | Front | ReturnUnless "'a \<Rightarrow> bool"
  | PopFront | SetCanceled | ReadCanceled | ReadEmpty

datatype 'a lq_op = Add 'a | Next | NextChecked "'a \<Rightarrow> bool" | Peek bool | Cancel | Cancelled | Lock | Unlock
  | Pop_front | Empty

definition lq_add :: "'a \<Rightarrow> 'a lq_instr list" where
  "lq_add item = [Acquire, PushBack item, Release]"

definition lq_next :: "'a lq_instr list" where
  "lq_next = [Acquire, ReturnIfEmpty, Front, PopFront, Release]"

definition lq_next_checked :: "('a \<Rightarrow> bool) \<Rightarrow> 'a lq_instr list" where
  "lq_next_checked check = [Acquire, ReturnIfEmpty, Front, ReturnUnless check, PopFront, Release]"

definition lq_peek :: "bool \<Rightarrow> 'a lq_instr list" where
  "lq_peek autoUnlock = [Acquire, Front] @ (if autoUnlock then [Release] else [])"

definition lq_cancel :: "'a lq_instr list" where
  "lq_cancel = [Acquire, SetCanceled, Release]"

definition lq_cancelled :: "'a lq_instr list" where
  "lq_cancelled = [Acquire, ReadCanceled, Release]"

definition lq_pop_front :: "'a lq_instr list" where
  "lq_pop_front = [Acquire, PopFront, Release]"

definition lq_empty :: "'a lq_instr list" where
  "lq_empty = [Acquire, ReadEmpty, Release]"

fun lq_code :: "'a lq_op \<Rightarrow> 'a lq_instr list" where
  "lq_code (Add x) = lq_add x"
| "lq_code Next = lq_next"
| "lq_code (NextChecked check) = lq_next_checked check"
| "lq_code (Peek autoUnlock) = lq_peek autoUnlock"
| "lq_code Cancel = lq_cancel"
| "lq_code Cancelled = lq_cancelled"
| "lq_code Lock = [Acquire]"
| "lq_code Unlock = [Release]"
| "lq_code Pop_front = lq_pop_front"
| "lq_code Empty = lq_empty"

lemmas lq_code_defs = lq_add_def lq_next_def lq_next_checked_def lq_peek_def lq_cancel_def lq_cancelled_def
  lq_pop_front_def lq_empty_def

text \<open>What a thread is doing: the operation, what is left of it, and the item copied so far.\<close>

record 'a lq_thread =
  th_op :: "'a lq_op"
  th_code :: "'a lq_instr list"
  th_result :: "'a option"

section \<open>One access\<close>

text \<open>Thread \<open>t\<close> performs the access \<open>a\<close> and has the accesses \<open>as\<close> left.\<close>

fun lq_access :: "nat \<Rightarrow> 'a lq_instr \<Rightarrow> 'a lq_instr list \<Rightarrow> 'a option \<Rightarrow> 'a locked_queue
    \<Rightarrow> ('a lq_instr list \<times> 'a option \<times> 'a locked_queue) lq_result" where
  "lq_access t Acquire as r q =
     (if lq_lock q \<noteq> None then Inl Blocked else Inr (as, r, q\<lparr>lq_lock := Some t\<rparr>))"
| "lq_access t Release as r q =
     (if lq_lock q \<noteq> Some t then Inl Undefined else Inr (as, r, q\<lparr>lq_lock := None\<rparr>))"
| "lq_access t (PushBack x) as r q = Inr (as, r, q\<lparr>lq_queue := lq_queue q @ [x]\<rparr>)"
| "lq_access t ReturnIfEmpty as r q = Inr (if lq_queue q = [] then [Release] else as, r, q)"
| "lq_access t Front as r q = (case lq_queue q of [] \<Rightarrow> Inl Undefined | x # xs \<Rightarrow> Inr (as, Some x, q))"
| "lq_access t (ReturnUnless check) as r q =
     Inr (if (case r of Some x \<Rightarrow> check x | None \<Rightarrow> False) then as else [Release], r, q)"
| "lq_access t PopFront as r q =
     (case lq_queue q of [] \<Rightarrow> Inl Undefined | x # xs \<Rightarrow> Inr (as, r, q\<lparr>lq_queue := xs\<rparr>))"
| "lq_access t SetCanceled as r q = Inr (as, r, q\<lparr>lq_canceled := True\<rparr>)"
| "lq_access t ReadCanceled as r q = Inr (as, r, q)"
| "lq_access t ReadEmpty as r q = Inr (as, r, q)"

section \<open>Threads\<close>

text \<open>
  The threads with the queue, and the history: the items added, and the items gone. An item goes
  with \<^verbatim>\<open>pop_front\<close>; what is recorded is the item the thread has copied and will return, which is the
  one popped only if nobody came in between, or the popped one itself where none was copied.
\<close>

record 'a lq_system =
  lq_shared :: "'a locked_queue"
  lq_threads :: "nat \<Rightarrow> 'a lq_thread"
  lq_added :: "'a list"
  lq_gone :: "'a list"

definition lq_start :: "'a lq_system" where
  "lq_start = \<lparr>lq_shared = lq_new, lq_threads = (\<lambda>_. \<lparr>th_op = Empty, th_code = [], th_result = None\<rparr>),
     lq_added = [], lq_gone = []\<rparr>"

fun now_added :: "'a lq_instr \<Rightarrow> 'a list" where
  "now_added (PushBack x) = [x]"
| "now_added _ = []"

fun now_gone :: "'a lq_instr \<Rightarrow> 'a option \<Rightarrow> 'a list \<Rightarrow> 'a list" where
  "now_gone PopFront r xs = [case r of Some x \<Rightarrow> x | None \<Rightarrow> hd xs]"
| "now_gone _ r xs = []"

inductive lq_step :: "'a lq_system \<Rightarrow> 'a lq_system \<Rightarrow> bool" where
  call: "th_code (lq_threads m t) = [] \<Longrightarrow>
    lq_step m (m\<lparr>lq_threads := (lq_threads m)(t := \<lparr>th_op = op, th_code = lq_code op, th_result = None\<rparr>)\<rparr>)"
| access: "lq_threads m t = \<lparr>th_op = op, th_code = a # as, th_result = r\<rparr> \<Longrightarrow>
    lq_access t a as r (lq_shared m) = Inr (as', r', q) \<Longrightarrow>
    lq_step m (m\<lparr>lq_shared := q,
      lq_threads := (lq_threads m)(t := \<lparr>th_op = op, th_code = as', th_result = r'\<rparr>),
      lq_added := lq_added m @ now_added a,
      lq_gone := lq_gone m @ now_gone a r (lq_queue (lq_shared m))\<rparr>)"

inductive lq_reachable :: "'a lq_system \<Rightarrow> bool" where
  start: "lq_reachable lq_start"
| step: "lq_reachable m \<Longrightarrow> lq_step m m' \<Longrightarrow> lq_reachable m'"

section \<open>The invariant\<close>

text \<open>
  What the rest of an operation needs when its thread holds the lock, so that nobody else changes
  the queue: an item copied before a pop is the front. Operations other than those whose caller
  must look for himself (\<^verbatim>\<open>peek\<close>, \<^verbatim>\<open>pop_front\<close>) also find no empty queue where they need a front.
\<close>

definition self_contained :: "'a lq_op \<Rightarrow> bool" where
  "self_contained op = (case op of Unlock \<Rightarrow> False | Pop_front \<Rightarrow> False | Peek _ \<Rightarrow> False | _ \<Rightarrow> True)"

fun fits :: "bool \<Rightarrow> 'a lq_instr list \<Rightarrow> 'a list \<Rightarrow> 'a option \<Rightarrow> bool" where
  "fits s [] q r = True"
| "fits s (Acquire # as) q r = (\<forall>q. fits s as q r)"
| "fits s (Release # as) q r = (as = [])"
| "fits s (PushBack x # as) q r = fits s as (q @ [x]) r"
| "fits s (ReturnIfEmpty # as) q r = (q \<noteq> [] \<longrightarrow> fits s as q r)"
| "fits s (Front # as) q r = ((s \<longrightarrow> q \<noteq> []) \<and> (q \<noteq> [] \<longrightarrow> fits s as q (Some (hd q))))"
| "fits s (ReturnUnless check # as) q r = (\<forall>x. r = Some x \<longrightarrow> check x \<longrightarrow> fits s as q r)"
| "fits s (PopFront # as) q r =
     ((s \<longrightarrow> q \<noteq> []) \<and> (q \<noteq> [] \<longrightarrow> (\<forall>x. r = Some x \<longrightarrow> x = hd q) \<and> fits s as (tl q) r))"
| "fits s (a # as) q r = fits s as q r"

lemma lq_code_fits: "fits (self_contained op) (lq_code op) q None"
  by (cases op) (simp_all add: lq_code_defs self_contained_def)

text \<open>Outside the lock a thread has nothing left, is about to acquire it, or releases what it does not hold.\<close>

definition outside :: "'a lq_thread \<Rightarrow> bool" where
  "outside th \<longleftrightarrow> th_code th = [] \<or> (\<exists>as. th_code th = Acquire # as) \<or> (th_op th = Unlock \<and> th_code th = [Release])"

lemma lq_code_outside: "outside \<lparr>th_op = op, th_code = lq_code op, th_result = r\<rparr>"
  by (cases op) (simp_all add: lq_code_defs outside_def)

definition lq_ok :: "'a lq_system \<Rightarrow> bool" where
  "lq_ok m \<longleftrightarrow>
     lq_added m = lq_gone m @ lq_queue (lq_shared m) \<and>
     (\<forall>t. (lq_lock (lq_shared m) \<noteq> Some t \<longrightarrow> outside (lq_threads m t)) \<and>
       fits (self_contained (th_op (lq_threads m t))) (th_code (lq_threads m t)) (lq_queue (lq_shared m)) (th_result (lq_threads m t)))"

text \<open>Where a thread stands outside the lock, what it needs does not depend on the queue.\<close>

lemma outside_fits: "outside th \<Longrightarrow> fits s (th_code th) q r \<Longrightarrow> fits s (th_code th) q' r"
  by (auto simp: outside_def)

text \<open>An access by a thread that is inside, or that enters.\<close>

lemma access_fits:
  assumes "lq_access t a as r q = Inr (as', r', q')" and "fits s (a # as) (lq_queue q) r"
  shows "fits s as' (lq_queue q') r'"
  using assms by (cases a) (auto split: if_splits list.splits option.splits)

lemma access_history:
  assumes run: "lq_access t a as r q = Inr (as', r', q')" and fit: "fits s (a # as) (lq_queue q) r"
  shows "lq_queue q @ now_added a = now_gone a r (lq_queue q) @ lq_queue q'"
proof (cases "a = PopFront")
  case True
  with run obtain x xs where "lq_queue q = x # xs" "q' = q\<lparr>lq_queue := xs\<rparr>" by (auto split: list.splits)
  with True fit show ?thesis by (simp split: option.split)
next
  case False
  with run show ?thesis by (cases a) (auto split: if_splits list.splits)
qed

lemma access_lock:
  assumes "lq_access t a as r q = Inr (as', r', q')"
  shows "lq_lock q' = (if a = Acquire then Some t else if a = Release then None else lq_lock q)"
    and "a = Acquire \<Longrightarrow> lq_lock q = None \<and> lq_queue q' = lq_queue q"
    and "a = Release \<Longrightarrow> lq_lock q = Some t \<and> as' = as"
  using assms by (cases a; auto split: if_splits list.splits option.splits)+

lemma access_keeps:
  assumes run: "lq_access t a as r q = Inr (as', r', q')" and fit: "fits s (a # as) (lq_queue q) r"
    and inside: "lq_lock q \<noteq> Some t \<Longrightarrow> a = Acquire \<or> a = Release"
  shows "fits s as' (lq_queue q') r'"
    and "lq_queue q @ now_added a = now_gone a r (lq_queue q) @ lq_queue q'"
    and "lq_lock q' \<noteq> Some t \<Longrightarrow> as' = []"
  using access_fits [OF run fit] access_history [OF run fit] access_lock [OF run] inside fit
  by (auto split: if_splits)

lemma lq_step_ok:
  assumes "lq_step m m'" and "lq_ok m"
  shows "lq_ok m'"
  using assms
proof cases
  case (call t op)
  with assms(2) show ?thesis
    using lq_code_outside [of op None] lq_code_fits [of op] by (auto simp: lq_ok_def)
next
  case (access t op a as r as' r' q)
  let ?q = "lq_shared m"
  from assms(2) have hist: "lq_added m = lq_gone m @ lq_queue ?q"
    and out: "\<And>u. lq_lock ?q \<noteq> Some u \<Longrightarrow> outside (lq_threads m u)"
    and fit: "\<And>u. fits (self_contained (th_op (lq_threads m u))) (th_code (lq_threads m u)) (lq_queue ?q) (th_result (lq_threads m u))"
    by (auto simp: lq_ok_def)
  have "a = Acquire \<or> a = Release" if "lq_lock ?q \<noteq> Some t"
    using out [OF that] access(2) by (auto simp: outside_def)
  note k = access_keeps [OF access(3) _ this, of "self_contained op"]
  have f: "fits (self_contained op) (a # as) (lq_queue ?q) r" using fit [of t] access(2) by simp
  have others: "outside (lq_threads m u) \<and>
      fits (self_contained (th_op (lq_threads m u))) (th_code (lq_threads m u)) (lq_queue q) (th_result (lq_threads m u))"
    if "u \<noteq> t" for u
  proof (cases "lq_lock ?q = Some u")
    case True
    then have "a = Acquire \<or> a = Release" using \<open>lq_lock ?q \<noteq> Some t \<Longrightarrow> a = Acquire \<or> a = Release\<close> that by auto
    with True access(3) that show ?thesis by auto
  next
    case False
    with out fit outside_fits [OF out [OF False]] show ?thesis by blast
  qed
  show ?thesis unfolding lq_ok_def
  proof (intro conjI allI impI)
    show "lq_added m' = lq_gone m' @ lq_queue (lq_shared m')" using access(1) hist k(2) [OF f] by simp
  next
    fix u assume "lq_lock (lq_shared m') \<noteq> Some u"
    then show "outside (lq_threads m' u)" using access(1) others [of u] k(3) [OF f] by (auto simp: outside_def)
  next
    fix u
    show "fits (self_contained (th_op (lq_threads m' u))) (th_code (lq_threads m' u)) (lq_queue (lq_shared m'))
        (th_result (lq_threads m' u))"
      using access(1) others [of u] k(1) [OF f] by auto
  qed
qed

lemma lq_reachable_ok: "lq_reachable m \<Longrightarrow> lq_ok m"
proof (induction rule: lq_reachable.induct)
  case start
  show ?case by (simp add: lq_ok_def lq_start_def lq_new_def outside_def)
next
  case step
  then show ?case using lq_step_ok by blast
qed

section \<open>Properties\<close>

text \<open>C21: However threads are interleaved between the single accesses of their operations, the items
  that have gone are the items added, in the same order, none lost and none duplicated, and the queue
  holds the rest: the item that \<^verbatim>\<open>next\<close> has copied is always the one it removes. And no operation but
  \<^verbatim>\<open>peek\<close>, \<^verbatim>\<open>pop_front\<close> and \<^verbatim>\<open>unlock\<close>, whose callers have to look for themselves, reads or pops an empty
  queue or releases a lock it does not hold.\<close>

theorem lq_run_from_new:
  assumes "lq_reachable m"
  shows "lq_added m = lq_gone m @ lq_queue (lq_shared m) \<and>
    (\<forall>t a as. th_code (lq_threads m t) = a # as \<longrightarrow> self_contained (th_op (lq_threads m t)) \<longrightarrow>
      lq_access t a as (th_result (lq_threads m t)) (lq_shared m) \<noteq> Inl Undefined)"
proof (intro conjI allI impI)
  from lq_reachable_ok [OF assms] have hist: "lq_added m = lq_gone m @ lq_queue (lq_shared m)"
    and ok: "\<And>t. lq_lock (lq_shared m) \<noteq> Some t \<Longrightarrow> outside (lq_threads m t)"
    "\<And>t. fits (self_contained (th_op (lq_threads m t))) (th_code (lq_threads m t)) (lq_queue (lq_shared m)) (th_result (lq_threads m t))"
    by (auto simp: lq_ok_def)
  show "lq_added m = lq_gone m @ lq_queue (lq_shared m)" by (rule hist)
  fix t a "as" assume a: "th_code (lq_threads m t) = a # as" and s: "self_contained (th_op (lq_threads m t))"
  from s have "th_op (lq_threads m t) \<noteq> Unlock" by (auto simp: self_contained_def)
  then show "lq_access t a as (th_result (lq_threads m t)) (lq_shared m) \<noteq> Inl Undefined"
    using ok(1) [of t] ok(2) [of t] a s
    by (cases a) (auto simp: outside_def split: list.splits if_splits)
qed

text \<open>An execution: each entry is a thread and the operation it calls, or its next access.\<close>

definition lq_turn :: "nat \<times> 'a lq_op option \<Rightarrow> 'a lq_system \<Rightarrow> 'a lq_system" where
  "lq_turn turn m =
     (case turn of (t, c) \<Rightarrow> case lq_threads m t of th \<Rightarrow>
        case (c, th_code th) of
          (Some op, []) \<Rightarrow> m\<lparr>lq_threads := (lq_threads m)(t := \<lparr>th_op = op, th_code = lq_code op, th_result = None\<rparr>)\<rparr>
        | (None, a # as) \<Rightarrow>
            (case lq_access t a as (th_result th) (lq_shared m) of
               Inl err \<Rightarrow> m
             | Inr (as', r', q) \<Rightarrow> m\<lparr>lq_shared := q,
                 lq_threads := (lq_threads m)(t := \<lparr>th_op = th_op th, th_code = as', th_result = r'\<rparr>),
                 lq_added := lq_added m @ now_added a,
                 lq_gone := lq_gone m @ now_gone a (th_result th) (lq_queue (lq_shared m))\<rparr>)
        | _ \<Rightarrow> m)"

lemma lq_turn_reachable:
  assumes "lq_reachable m" shows "lq_reachable (lq_turn turn m)"
proof -
  obtain t c where t: "turn = (t, c)" by fastforce
  obtain op as0 r where th: "lq_threads m t = \<lparr>th_op = op, th_code = as0, th_result = r\<rparr>" by (cases "lq_threads m t")
  have "lq_turn turn m = m \<or> lq_step m (lq_turn turn m)"
    using lq_step.call [of m t] lq_step.access [of m t op _ _ r] th
    by (cases c; cases as0) (auto simp: lq_turn_def t split: sum.split)
  with assms show ?thesis by (auto intro: lq_reachable.step)
qed

lemma lq_turns_reachable: "lq_reachable (fold lq_turn turns lq_start)"
  by (induction turns rule: rev_induct) (simp_all add: lq_reachable.start lq_turn_reachable)

text \<open>Thread 1 adds 3 and 4; thread 2 copies 3; thread 3 comes in between and waits for the lock.\<close>

definition lq_example :: "nat lq_system" where
  "lq_example = fold lq_turn
     ([(1, Some (Add 3))] @ replicate 3 (1, None) @ [(1, Some (Add 4))] @ replicate 3 (1, None)
      @ [(2, Some Next), (2, None), (2, None), (2, None), (3, Some Next), (3, None), (2, None), (2, None), (3, None)]) lq_start"

lemma lq_example_state:
  "lq_added lq_example = [3, 4]" "lq_gone lq_example = [3]" "th_code (lq_threads lq_example 3) = [ReturnIfEmpty, Front, PopFront, Release]"
  by (simp_all add: lq_example_def lq_turn_def lq_start_def lq_new_def lq_code_defs numeral_eq_Suc)

theorem lq_run_from_new_witness: "[3, 4] = [3] @ lq_queue (lq_shared lq_example)"
proof -
  have "lq_reachable lq_example" unfolding lq_example_def by (rule lq_turns_reachable)
  from lq_run_from_new [OF this] show ?thesis by (simp add: lq_example_state)
qed

end
