(* ===== verification/Reputation.thy ===== *)
theory Reputation
  imports ByteBuffer Std_Map
begin

text \<open>
  \<^verbatim>\<open>ReputationMgr\<close> (\<^verbatim>\<open>src/src/server/game/Reputation/ReputationMgr.cpp\<close> and \<^verbatim>\<open>.h\<close>): a player's
  standing with each faction, the rank and visibility counters, war and inactive flags,
  spillover to related factions, and the packets and database rows made of them.

  \<^verbatim>\<open>int32\<close> values are integers, wrapped by \<open>i32\<close> where the code adds; flags and counters are
  words of their width. A pointer to a faction's state is the key of its entry in the map.
  Floating point arithmetic and the configured rates are parameters (\<open>float_ops\<close>), as are
  the data files. What the player object is told is recorded in \<open>rep_out\<close>.
\<close>

section \<open>Data\<close>

definition i32 :: "int \<Rightarrow> int" where
  "i32 x = signed_take_bit 31 x"

lemma i32_id [simp]: "- 2147483648 \<le> x \<Longrightarrow> x < 2147483648 \<Longrightarrow> i32 x = x"
  unfolding i32_def by (rule signed_take_bit_int_eq_self) simp_all

datatype ReputationRank =
    REP_HATED | REP_HOSTILE | REP_UNFRIENDLY | REP_NEUTRAL | REP_FRIENDLY | REP_HONORED
  | REP_REVERED | REP_EXALTED

fun rank_num :: "ReputationRank \<Rightarrow> nat" where
  "rank_num REP_HATED = 0"
| "rank_num REP_HOSTILE = 1"
| "rank_num REP_UNFRIENDLY = 2"
| "rank_num REP_NEUTRAL = 3"
| "rank_num REP_FRIENDLY = 4"
| "rank_num REP_HONORED = 5"
| "rank_num REP_REVERED = 6"
| "rank_num REP_EXALTED = 7"

text \<open>Ranks compare as the values of the C++ enumeration.\<close>

instantiation ReputationRank :: linorder
begin

definition less_eq_ReputationRank :: "ReputationRank \<Rightarrow> ReputationRank \<Rightarrow> bool" where
  "less_eq_ReputationRank r s \<longleftrightarrow> rank_num r \<le> rank_num s"

definition less_ReputationRank :: "ReputationRank \<Rightarrow> ReputationRank \<Rightarrow> bool" where
  "less_ReputationRank r s \<longleftrightarrow> rank_num r < rank_num s"

instance
proof
  fix r s t :: ReputationRank
  show "r \<le> s \<Longrightarrow> s \<le> r \<Longrightarrow> r = s"
    by (cases r; cases s) (simp_all add: less_eq_ReputationRank_def)
qed (auto simp: less_eq_ReputationRank_def less_ReputationRank_def)

end

definition FACTION_FLAG_VISIBLE :: u8 where "FACTION_FLAG_VISIBLE = 0x01"
definition FACTION_FLAG_AT_WAR :: u8 where "FACTION_FLAG_AT_WAR = 0x02"
definition FACTION_FLAG_HIDDEN :: u8 where "FACTION_FLAG_HIDDEN = 0x04"
definition FACTION_FLAG_INVISIBLE_FORCED :: u8 where "FACTION_FLAG_INVISIBLE_FORCED = 0x08"
definition FACTION_FLAG_PEACE_FORCED :: u8 where "FACTION_FLAG_PEACE_FORCED = 0x10"
definition FACTION_FLAG_INACTIVE :: u8 where "FACTION_FLAG_INACTIVE = 0x20"
definition FACTION_FLAG_SPECIAL :: u8 where "FACTION_FLAG_SPECIAL = 0x80"

definition has_flag :: "u8 \<Rightarrow> u8 \<Rightarrow> bool" where
  "has_flag x f \<longleftrightarrow> x AND f \<noteq> 0"

record 'f FactionEntry =
  fe_ID :: u32
  reputationListID :: int
  BaseRepRaceMask :: "nat \<Rightarrow> u32"
  BaseRepClassMask :: "nat \<Rightarrow> u32"
  BaseRepValue :: "nat \<Rightarrow> int"
  ReputationFlags :: "nat \<Rightarrow> u32"
  fe_team :: u32
  spilloverRateIn :: 'f
  spilloverRateOut :: 'f
  spilloverMaxRankIn :: u32

record 'f RepSpilloverTemplate =
  rst_faction :: "nat \<Rightarrow> u32"
  faction_rate :: "nat \<Rightarrow> 'f"
  faction_rank :: "nat \<Rightarrow> u32"

record FactionState =
  fs_ID :: u32
  ReputationListID :: u32
  Standing :: int
  Flags :: u8
  needSend :: bool
  needSave :: bool

text \<open>
  The float operations of the code: \<open>f_of_int\<close> is \<^verbatim>\<open>float(i)\<close>, \<open>f_trunc\<close> is \<^verbatim>\<open>int32(x)\<close>,
  \<open>f_round\<close> is \<^verbatim>\<open>int32(floor(x + 0.5f))\<close>.
\<close>

record 'f float_ops =
  f_of_int :: "int \<Rightarrow> 'f"
  f_mul :: "'f \<Rightarrow> 'f \<Rightarrow> 'f"
  f_trunc :: "'f \<Rightarrow> int"
  f_round :: "'f \<Rightarrow> int"
  f_zero :: 'f

record 'f rep_env =
  fl :: "'f float_ops"
  faction_store :: "u32 \<Rightarrow> 'f FactionEntry option"
  num_rows :: nat
  spillover_template :: "u32 \<Rightarrow> 'f RepSpilloverTemplate option"
  team_list :: "u32 \<Rightarrow> u32 list option"
  race_mask :: u32
  class_mask :: u32
  player_level :: u32
  player_loading :: bool
  is_premium :: bool
  rate_gain :: 'f
  rate_gain_premium :: 'f

datatype criteria_type =
    KNOWN_FACTIONS | GAIN_REPUTATION | GAIN_EXALTED_REPUTATION | GAIN_REVERED_REPUTATION
  | GAIN_HONORED_REPUTATION | REACH_LEVEL

datatype rep_event =
    SentPacket nat "u8 list"
  | ReputationChanged u32
  | PlayerCriteria criteria_type u32
  | GuildCriteria criteria_type u32
  | SqlDelete u32
  | SqlInsert u32 int u8

record rep_mgr =
  factions :: "(u32, FactionState) std_map"
  forcedReactions :: "(u32, ReputationRank) std_map"
  visibleFactionCount :: u8
  honoredFactionCount :: u8
  reveredFactionCount :: u8
  exaltedFactionCount :: u8
  sendFactionIncreased :: bool
  rep_out :: "rep_event list"

datatype rep_error = NullDeref | PacketError bb_error

type_synonym 'a rep_result = "rep_error + 'a"

definition pk :: "'a bb_result \<Rightarrow> 'a rep_result" where
  "pk r = (case r of Inl e \<Rightarrow> Inl (PacketError e) | Inr x \<Rightarrow> Inr x)"

lemma pk_simps [simp]: "pk (Inl e) = Inl (PacketError e)" "pk (Inr x) = Inr x"
  by (simp_all add: pk_def)

definition rep_new :: rep_mgr where
  "rep_new = \<lparr>factions = [], forcedReactions = [], visibleFactionCount = 0, honoredFactionCount = 0,
     reveredFactionCount = 0, exaltedFactionCount = 0, sendFactionIncreased = False, rep_out = []\<rparr>"

section \<open>Ranks and base values\<close>

definition Reputation_Cap :: int where "Reputation_Cap = 42999"
definition Reputation_Bottom :: int where "Reputation_Bottom = -42000"

text \<open>The ranks from the highest down, each with its \<^verbatim>\<open>PointsInRank\<close>.\<close>

definition PointsInRank :: "(ReputationRank \<times> int) list" where
  "PointsInRank = [(REP_EXALTED, 1000), (REP_REVERED, 21000), (REP_HONORED, 12000), (REP_FRIENDLY, 6000),
     (REP_NEUTRAL, 3000), (REP_UNFRIENDLY, 3000), (REP_HOSTILE, 3000), (REP_HATED, 36000)]"

fun rank_loop :: "int \<Rightarrow> (ReputationRank \<times> int) list \<Rightarrow> int \<Rightarrow> ReputationRank" where
  "rank_loop limit [] standing = REP_HATED"
| "rank_loop limit ((r, p) # rs) standing =
     (let limit = limit - p in if limit \<le> standing then r else rank_loop limit rs standing)"

definition ReputationToRank :: "int \<Rightarrow> ReputationRank" where
  "ReputationToRank standing = rank_loop (Reputation_Cap + 1) PointsInRank standing"

text \<open>The first of the four slots of a faction that fits the player's race and class.\<close>

definition base_slot :: "'f rep_env \<Rightarrow> 'f FactionEntry \<Rightarrow> nat option" where
  "base_slot env fe =
     List.find (\<lambda>i. (BaseRepRaceMask fe i AND race_mask env \<noteq> 0
                \<or> BaseRepRaceMask fe i = 0 \<and> BaseRepClassMask fe i \<noteq> 0)
              \<and> (BaseRepClassMask fe i AND class_mask env \<noteq> 0 \<or> BaseRepClassMask fe i = 0)) [0, 1, 2, 3]"

definition GetBaseReputation :: "'f rep_env \<Rightarrow> 'f FactionEntry option \<Rightarrow> int" where
  "GetBaseReputation env fe = (case fe of None \<Rightarrow> 0 | Some fe \<Rightarrow>
     (case base_slot env fe of Some i \<Rightarrow> BaseRepValue fe i | None \<Rightarrow> 0))"

definition GetDefaultStateFlags :: "'f rep_env \<Rightarrow> 'f FactionEntry option \<Rightarrow> u32" where
  "GetDefaultStateFlags env fe = (case fe of None \<Rightarrow> 0 | Some fe \<Rightarrow>
     (case base_slot env fe of Some i \<Rightarrow> ReputationFlags fe i | None \<Rightarrow> 0))"

definition list_key :: "'f FactionEntry \<Rightarrow> u32" where
  "list_key fe = word_of_int (reputationListID fe)"

definition CanHaveReputation :: "'f FactionEntry \<Rightarrow> bool" where
  "CanHaveReputation fe \<longleftrightarrow> 0 \<le> reputationListID fe"

definition GetState_id :: "u32 \<Rightarrow> rep_mgr \<Rightarrow> FactionState option" where
  "GetState_id listID m = sm_find (factions m) listID"

definition GetState :: "'f FactionEntry \<Rightarrow> rep_mgr \<Rightarrow> FactionState option" where
  "GetState fe m = (if CanHaveReputation fe then GetState_id (list_key fe) m else None)"

definition IsAtWar :: "'f FactionEntry option \<Rightarrow> rep_mgr \<Rightarrow> bool" where
  "IsAtWar fe m = (case fe of None \<Rightarrow> False | Some fe \<Rightarrow>
     (case GetState fe m of Some st \<Rightarrow> has_flag (Flags st) FACTION_FLAG_AT_WAR | None \<Rightarrow> False))"

definition IsAtWar_id :: "'f rep_env \<Rightarrow> u32 \<Rightarrow> rep_mgr \<Rightarrow> bool" where
  "IsAtWar_id env faction_id m =
     (case faction_store env faction_id of None \<Rightarrow> False | Some fe \<Rightarrow> IsAtWar (Some fe) m)"

definition GetReputation :: "'f rep_env \<Rightarrow> 'f FactionEntry option \<Rightarrow> rep_mgr \<Rightarrow> int" where
  "GetReputation env fe m = (case fe of None \<Rightarrow> 0 | Some fe \<Rightarrow>
     (case GetState fe m of Some st \<Rightarrow> i32 (GetBaseReputation env (Some fe) + Standing st) | None \<Rightarrow> 0))"

definition GetReputation_id :: "'f rep_env \<Rightarrow> u32 \<Rightarrow> rep_mgr \<Rightarrow> int" where
  "GetReputation_id env faction_id m =
     (case faction_store env faction_id of None \<Rightarrow> 0 | Some fe \<Rightarrow> GetReputation env (Some fe) m)"

definition GetRank :: "'f rep_env \<Rightarrow> 'f FactionEntry option \<Rightarrow> rep_mgr \<Rightarrow> ReputationRank" where
  "GetRank env fe m = ReputationToRank (GetReputation env fe m)"

definition GetBaseRank :: "'f rep_env \<Rightarrow> 'f FactionEntry option \<Rightarrow> ReputationRank" where
  "GetBaseRank env fe = ReputationToRank (GetBaseReputation env fe)"

text \<open>\<^verbatim>\<open>Player::GetReputationRank\<close>\<close>

definition GetReputationRank :: "'f rep_env \<Rightarrow> u32 \<Rightarrow> rep_mgr \<Rightarrow> ReputationRank" where
  "GetReputationRank env faction m = GetRank env (faction_store env faction) m"

definition GetForcedRankIfAny :: "u32 \<Rightarrow> rep_mgr \<Rightarrow> ReputationRank option" where
  "GetForcedRankIfAny faction m = sm_find (forcedReactions m) faction"

definition ApplyForceReaction :: "u32 \<Rightarrow> ReputationRank \<Rightarrow> bool \<Rightarrow> rep_mgr \<Rightarrow> rep_mgr" where
  "ApplyForceReaction faction_id rank apply_it m =
     (if apply_it then m\<lparr>forcedReactions := sm_set faction_id rank (forcedReactions m)\<rparr>
      else m\<lparr>forcedReactions := sm_erase faction_id (forcedReactions m)\<rparr>)"

section \<open>Packets\<close>

definition SMSG_SET_FORCED_REACTIONS :: nat where "SMSG_SET_FORCED_REACTIONS = 0x4615"
definition SMSG_SET_FACTION_STANDING :: nat where "SMSG_SET_FACTION_STANDING = 0x0126"
definition SMSG_INITIALIZE_FACTIONS :: nat where "SMSG_INITIALIZE_FACTIONS = 0x4634"
definition SMSG_SET_FACTION_VISIBLE :: nat where "SMSG_SET_FACTION_VISIBLE = 0x2525"

definition rep_emit :: "rep_event list \<Rightarrow> rep_mgr \<Rightarrow> rep_mgr" where
  "rep_emit es m = m\<lparr>rep_out := rep_out m @ es\<rparr>"

definition send_to_player :: "nat \<Rightarrow> byte_buffer \<Rightarrow> rep_mgr \<Rightarrow> rep_mgr" where
  "send_to_player opcode data m = rep_emit [SentPacket opcode (storage data)] m"

definition put_i32 :: "int \<Rightarrow> byte_buffer \<Rightarrow> byte_buffer bb_result" where
  "put_i32 x = append_word (word_of_int x :: u32)"

fun forced_loop :: "(u32 \<times> ReputationRank) list \<Rightarrow> byte_buffer \<Rightarrow> byte_buffer bb_result" where
  "forced_loop [] data = Inr data"
| "forced_loop ((k, r) # rs) data =
     rbind (append_word k data) (\<lambda>d. rbind (append_word (of_nat (rank_num r) :: u32) d) (forced_loop rs))"

definition SendForceReactions :: "rep_mgr \<Rightarrow> rep_mgr rep_result" where
  "SendForceReactions m =
     rbind (pk (rbind (append_word (of_nat (length (forcedReactions m)) :: u32) bb_empty)
                  (forced_loop (forcedReactions m))))
       (\<lambda>data. Inr (send_to_player SMSG_SET_FORCED_REACTIONS data m))"

text \<open>
  \<open>SendState\<close>: the faction asked for, and every other faction that has changed since it was
  last sent. The loop returns the entries with \<^verbatim>\<open>needSend\<close> cleared.
\<close>

fun send_state_loop :: "u32 \<Rightarrow> (u32 \<times> FactionState) list \<Rightarrow> u32 \<Rightarrow> byte_buffer
    \<Rightarrow> ((u32 \<times> FactionState) list \<times> u32 \<times> byte_buffer) bb_result" where
  "send_state_loop rid [] cnt data = Inr ([], cnt, data)"
| "send_state_loop rid ((k, st) # es) cnt data =
     (if needSend st then
        rbind (if ReputationListID st \<noteq> rid then
                 rbind (append_word (ReputationListID st) data) (\<lambda>d.
                   rbind (put_i32 (Standing st) d) (\<lambda>d. Inr (cnt + 1, d)))
               else Inr (cnt, data))
          (\<lambda>(cnt, data). rbind (send_state_loop rid es cnt data)
             (\<lambda>(es', cnt, data). Inr ((k, st\<lparr>needSend := False\<rparr>) # es', cnt, data)))
      else rbind (send_state_loop rid es cnt data)
             (\<lambda>(es', cnt, data). Inr ((k, st) # es', cnt, data)))"

definition SendState :: "u32 \<Rightarrow> rep_mgr \<Rightarrow> rep_mgr rep_result" where
  "SendState key m =
     (case sm_find (factions m) key of
        None \<Rightarrow> Inl NullDeref
      | Some faction \<Rightarrow>
          pk (rbind (append_word (0 :: u32) bb_empty) (\<lambda>data.
              rbind (append_word (of_bool (sendFactionIncreased m) :: u8) data) (\<lambda>data.
              let p_count = wpos data in
              rbind (append_word (1 :: u32) data) (\<lambda>data.
              rbind (append_word (ReputationListID faction) data) (\<lambda>data.
              rbind (put_i32 (Standing faction) data) (\<lambda>data.
              rbind (send_state_loop (ReputationListID faction) (factions m) 1 data) (\<lambda>(es, count, data).
              rbind (put_word_at p_count count data) (\<lambda>data.
              Inr (send_to_player SMSG_SET_FACTION_STANDING data
                     (m\<lparr>sendFactionIncreased := False, factions := es\<rparr>)))))))))))"

text \<open>
  \<^verbatim>\<open>SendInitialReputations\<close>: a loop \<^verbatim>\<open>for (; a != k; ++a)\<close> on 32-bit integers runs \<open>k - a\<close>
  times, modulo \<open>2 ^ 32\<close>.
\<close>

fun fill_absent :: "nat \<Rightarrow> byte_buffer \<Rightarrow> byte_buffer bb_result" where
  "fill_absent 0 data = Inr data"
| "fill_absent (Suc n) data =
     rbind (append_word (0 :: u8) data) (\<lambda>d. rbind (append_word (0 :: u32) d) (fill_absent n))"

fun initial_loop :: "u32 \<Rightarrow> (u32 \<times> FactionState) list \<Rightarrow> byte_buffer \<Rightarrow> (u32 \<times> byte_buffer) bb_result" where
  "initial_loop a [] data = Inr (a, data)"
| "initial_loop a ((k, st) # es) data =
     rbind (fill_absent (unat (k - a)) data) (\<lambda>d.
       rbind (append_word (Flags st) d) (\<lambda>d.
         rbind (put_i32 (Standing st) d) (initial_loop (k + 1) es)))"

definition SendInitialReputations :: "rep_mgr \<Rightarrow> rep_mgr rep_result" where
  "SendInitialReputations m =
     rbind (pk (rbind (append_word (256 :: u32) bb_empty) (\<lambda>data.
                rbind (initial_loop 0 (factions m) data) (\<lambda>(a, data). fill_absent (unat (256 - a)) data))))
       (\<lambda>data. Inr (send_to_player SMSG_INITIALIZE_FACTIONS data
          (m\<lparr>factions := map (\<lambda>(k, st). (k, st\<lparr>needSend := False\<rparr>)) (factions m)\<rparr>)))"

fun send_states_loop :: "u32 list \<Rightarrow> rep_mgr \<Rightarrow> rep_mgr rep_result" where
  "send_states_loop [] m = Inr m"
| "send_states_loop (k # ks) m = rbind (SendState k m) (send_states_loop ks)"

definition SendStates :: "rep_mgr \<Rightarrow> rep_mgr rep_result" where
  "SendStates m = send_states_loop (map fst (factions m)) m"

definition SendVisible :: "'f rep_env \<Rightarrow> FactionState \<Rightarrow> rep_mgr \<Rightarrow> rep_mgr rep_result" where
  "SendVisible env faction m =
     (if player_loading env then Inr m
      else rbind (pk (append_word (ReputationListID faction) bb_empty))
             (\<lambda>data. Inr (send_to_player SMSG_SET_FACTION_VISIBLE data m)))"

section \<open>Changing a faction's state\<close>

definition set_fs :: "u32 \<Rightarrow> FactionState \<Rightarrow> rep_mgr \<Rightarrow> rep_mgr" where
  "set_fs k st m = m\<lparr>factions := sm_set k st (factions m)\<rparr>"

definition SetVisible_state :: "'f rep_env \<Rightarrow> u32 \<Rightarrow> rep_mgr \<Rightarrow> rep_mgr rep_result" where
  "SetVisible_state env k m =
     (case sm_find (factions m) k of
        None \<Rightarrow> Inl NullDeref
      | Some f \<Rightarrow>
          if has_flag (Flags f) (FACTION_FLAG_INVISIBLE_FORCED OR FACTION_FLAG_HIDDEN)
             \<and> \<not> has_flag (Flags f) FACTION_FLAG_SPECIAL then Inr m
          else if has_flag (Flags f) FACTION_FLAG_VISIBLE then Inr m
          else
            let f = f\<lparr>Flags := Flags f OR FACTION_FLAG_VISIBLE, needSend := True, needSave := True\<rparr>;
                m = set_fs k f m;
                m = m\<lparr>visibleFactionCount := visibleFactionCount m + 1\<rparr>
            in SendVisible env f m)"

definition SetVisible :: "'f rep_env \<Rightarrow> 'f FactionEntry \<Rightarrow> rep_mgr \<Rightarrow> rep_mgr rep_result" where
  "SetVisible env fe m =
     (if reputationListID fe < 0 then Inr m
      else case sm_find (factions m) (list_key fe) of
             None \<Rightarrow> Inr m
           | Some _ \<Rightarrow> SetVisible_state env (list_key fe) m)"

text \<open>The overload for a faction template; its argument is the template's faction.\<close>

definition SetVisible_template :: "'f rep_env \<Rightarrow> u32 \<Rightarrow> rep_mgr \<Rightarrow> rep_mgr rep_result" where
  "SetVisible_template env faction m =
     (if faction = 0 then Inr m
      else case faction_store env faction of
             None \<Rightarrow> Inr m
           | Some fe \<Rightarrow>
               if \<not> (BaseRepRaceMask fe 1 AND race_mask env \<noteq> 0 \<and> BaseRepValue fe 1 = Reputation_Bottom)
               then SetVisible env fe m else Inr m)"

definition SetAtWar_state :: "u32 \<Rightarrow> bool \<Rightarrow> rep_mgr \<Rightarrow> rep_mgr rep_result" where
  "SetAtWar_state k atWar m =
     (case sm_find (factions m) k of
        None \<Rightarrow> Inl NullDeref
      | Some f \<Rightarrow>
          if atWar \<and> has_flag (Flags f) FACTION_FLAG_PEACE_FORCED then Inr m
          else if has_flag (Flags f) FACTION_FLAG_AT_WAR = atWar then Inr m
          else Inr (set_fs k (f\<lparr>Flags := (if atWar then Flags f OR FACTION_FLAG_AT_WAR
                                          else Flags f AND NOT FACTION_FLAG_AT_WAR),
                               needSend := True, needSave := True\<rparr>) m))"

definition SetAtWar :: "u32 \<Rightarrow> bool \<Rightarrow> rep_mgr \<Rightarrow> rep_mgr rep_result" where
  "SetAtWar repListID on m =
     (case sm_find (factions m) repListID of
        None \<Rightarrow> Inr m
      | Some f \<Rightarrow>
          if has_flag (Flags f) (FACTION_FLAG_INVISIBLE_FORCED OR FACTION_FLAG_HIDDEN) then Inr m
          else SetAtWar_state repListID on m)"

definition SetInactive_state :: "u32 \<Rightarrow> bool \<Rightarrow> rep_mgr \<Rightarrow> rep_mgr rep_result" where
  "SetInactive_state k inactive m =
     (case sm_find (factions m) k of
        None \<Rightarrow> Inl NullDeref
      | Some f \<Rightarrow>
          if inactive \<and> (has_flag (Flags f) (FACTION_FLAG_INVISIBLE_FORCED OR FACTION_FLAG_HIDDEN)
                         \<or> \<not> has_flag (Flags f) FACTION_FLAG_VISIBLE) then Inr m
          else if has_flag (Flags f) FACTION_FLAG_INACTIVE = inactive then Inr m
          else Inr (set_fs k (f\<lparr>Flags := (if inactive then Flags f OR FACTION_FLAG_INACTIVE
                                          else Flags f AND NOT FACTION_FLAG_INACTIVE),
                               needSend := True, needSave := True\<rparr>) m))"

definition SetInactive :: "u32 \<Rightarrow> bool \<Rightarrow> rep_mgr \<Rightarrow> rep_mgr rep_result" where
  "SetInactive repListID on m =
     (case sm_find (factions m) repListID of
        None \<Rightarrow> Inr m
      | Some _ \<Rightarrow> SetInactive_state repListID on m)"

definition UpdateRankCounters :: "ReputationRank \<Rightarrow> ReputationRank \<Rightarrow> rep_mgr \<Rightarrow> rep_mgr" where
  "UpdateRankCounters old_rank new_rank m =
     (let m = m\<lparr>exaltedFactionCount := exaltedFactionCount m - of_bool (REP_EXALTED \<le> old_rank)\<rparr>;
          m = m\<lparr>reveredFactionCount := reveredFactionCount m - of_bool (REP_REVERED \<le> old_rank)\<rparr>;
          m = m\<lparr>honoredFactionCount := honoredFactionCount m - of_bool (REP_HONORED \<le> old_rank)\<rparr>;
          m = m\<lparr>exaltedFactionCount := exaltedFactionCount m + of_bool (REP_EXALTED \<le> new_rank)\<rparr>;
          m = m\<lparr>reveredFactionCount := reveredFactionCount m + of_bool (REP_REVERED \<le> new_rank)\<rparr>
      in m\<lparr>honoredFactionCount := honoredFactionCount m + of_bool (REP_HONORED \<le> new_rank)\<rparr>)"

definition reputation_events :: "'f rep_env \<Rightarrow> 'f FactionEntry \<Rightarrow> rep_event list" where
  "reputation_events env fe =
     [ReputationChanged (fe_ID fe),
      PlayerCriteria KNOWN_FACTIONS (fe_ID fe),
      PlayerCriteria GAIN_REPUTATION (fe_ID fe),
      PlayerCriteria GAIN_EXALTED_REPUTATION (fe_ID fe),
      PlayerCriteria GAIN_REVERED_REPUTATION (fe_ID fe),
      PlayerCriteria GAIN_HONORED_REPUTATION (fe_ID fe),
      GuildCriteria GAIN_REPUTATION (fe_ID fe),
      GuildCriteria GAIN_EXALTED_REPUTATION (fe_ID fe)]
     @ (if fe_ID fe = 1168 then [GuildCriteria REACH_LEVEL (player_level env)] else [])"

definition incremented :: "'f rep_env \<Rightarrow> int \<Rightarrow> int \<Rightarrow> int" where
  "incremented env current standing =
     (let s = f_round (fl env) (f_mul (fl env) (f_of_int (fl env) standing) (rate_gain env));
          s = (if is_premium env
               then f_round (fl env) (f_mul (fl env) (f_of_int (fl env) s) (rate_gain_premium env)) else s)
      in i32 (s + current))"

definition clamp_standing :: "int \<Rightarrow> int" where
  "clamp_standing standing =
     (if Reputation_Cap < standing then Reputation_Cap
      else if standing < Reputation_Bottom then Reputation_Bottom else standing)"

definition SetOneFactionReputation :: "'f rep_env \<Rightarrow> 'f FactionEntry option \<Rightarrow> int \<Rightarrow> bool \<Rightarrow> rep_mgr
    \<Rightarrow> (bool \<times> rep_mgr) rep_result" where
  "SetOneFactionReputation env fe standing incremental m =
     (case fe of
        None \<Rightarrow> Inl NullDeref
      | Some fe \<Rightarrow>
          (case sm_find (factions m) (list_key fe) of
             None \<Rightarrow> Inr (False, m)
           | Some st \<Rightarrow>
               let BaseRep = GetBaseReputation env (Some fe);
                   standing = clamp_standing
                     (if incremental then incremented env (i32 (Standing st + BaseRep)) standing else standing);
                   old_rank = ReputationToRank (i32 (Standing st + BaseRep));
                   new_rank = ReputationToRank standing;
                   st = st\<lparr>Standing := i32 (standing - BaseRep), needSend := True, needSave := True\<rparr>
               in rbind (SetVisible_state env (list_key fe) (set_fs (list_key fe) st m)) (\<lambda>m.
                  rbind (if new_rank \<le> REP_HOSTILE then SetAtWar_state (list_key fe) True m else Inr m) (\<lambda>m.
                    let m = (if old_rank < new_rank then m\<lparr>sendFactionIncreased := True\<rparr> else m);
                        m = UpdateRankCounters old_rank new_rank m
                    in Inr (True, rep_emit (reputation_events env fe) m)))))"

section \<open>Spillover\<close>

fun template_loop :: "'f rep_env \<Rightarrow> 'f RepSpilloverTemplate \<Rightarrow> nat list \<Rightarrow> int \<Rightarrow> bool \<Rightarrow> rep_mgr
    \<Rightarrow> rep_mgr rep_result" where
  "template_loop env t [] standing incremental m = Inr m"
| "template_loop env t (i # is) standing incremental m =
     rbind (if rst_faction t i \<noteq> 0 \<and> rank_num (GetReputationRank env (rst_faction t i) m) \<le> unat (faction_rank t i)
            then rbind (SetOneFactionReputation env (faction_store env (rst_faction t i))
                          (f_trunc (fl env) (f_mul (fl env) (f_of_int (fl env) standing) (faction_rate t i)))
                          incremental m) (\<lambda>(_, m). Inr m)
            else Inr m)
       (template_loop env t is standing incremental)"

fun sister_loop :: "'f rep_env \<Rightarrow> 'f FactionEntry \<Rightarrow> u32 list \<Rightarrow> 'f \<Rightarrow> bool \<Rightarrow> bool \<Rightarrow> rep_mgr
    \<Rightarrow> (bool \<times> rep_mgr) rep_result" where
  "sister_loop env fe [] out incremental res m = Inr (res, m)"
| "sister_loop env fe (x # xs) out incremental res m =
     (case faction_store env x of
        None \<Rightarrow> sister_loop env fe xs out incremental res m
      | Some calc \<Rightarrow>
          if fe_ID calc = fe_ID fe
             \<or> unat (spilloverMaxRankIn calc) < rank_num (GetRank env (Some calc) m)
          then sister_loop env fe xs out incremental res m
          else
            let spilloverRep = f_trunc (fl env) (f_mul (fl env) out (spilloverRateIn calc)) in
            if spilloverRep \<noteq> 0 \<or> \<not> incremental
            then rbind (SetOneFactionReputation env (Some calc) spilloverRep incremental m)
                   (\<lambda>(res, m). sister_loop env fe xs out incremental res m)
            else sister_loop env fe xs out incremental res m)"

definition dbc_spillover :: "'f rep_env \<Rightarrow> 'f FactionEntry \<Rightarrow> int \<Rightarrow> bool \<Rightarrow> rep_mgr
    \<Rightarrow> (bool \<times> rep_mgr) rep_result" where
  "dbc_spillover env fe standing incremental m =
     (let out = f_of_int (fl env) standing;
          flist = team_list env (fe_ID fe)
      in rbind
           (if flist = None \<and> fe_team fe \<noteq> 0 \<and> spilloverRateOut fe \<noteq> f_zero (fl env) then
              let out = f_mul (fl env) out (spilloverRateOut fe) in
              (case faction_store env (fe_team fe) of
                 None \<Rightarrow> Inr (out, flist, m)
               | Some parent \<Rightarrow>
                   (case sm_find (factions m) (list_key parent) of
                      Some pst \<Rightarrow>
                        if has_flag (Flags pst) FACTION_FLAG_SPECIAL
                        then rbind (SetOneFactionReputation env (Some parent) (f_trunc (fl env) out) incremental m)
                               (\<lambda>(_, m). Inr (out, flist, m))
                        else Inr (out, team_list env (fe_team fe), m)
                    | None \<Rightarrow> Inr (out, team_list env (fe_team fe), m)))
            else Inr (out, flist, m))
           (\<lambda>(out, flist, m).
              case flist of
                None \<Rightarrow> Inr (False, m)
              | Some xs \<Rightarrow> sister_loop env fe xs out incremental False m))"

definition SetReputation :: "'f rep_env \<Rightarrow> 'f FactionEntry \<Rightarrow> int \<Rightarrow> bool \<Rightarrow> rep_mgr
    \<Rightarrow> (bool \<times> rep_mgr) rep_result" where
  "SetReputation env fe standing incremental m =
     rbind (case spillover_template env (fe_ID fe) of
              Some t \<Rightarrow> rbind (template_loop env t [0, 1, 2, 3, 4] standing incremental m) (\<lambda>m. Inr (False, m))
            | None \<Rightarrow> dbc_spillover env fe standing incremental m)
       (\<lambda>(res, m).
          case sm_find (factions m) (list_key fe) of
            None \<Rightarrow> Inr (res, m)
          | Some _ \<Rightarrow>
              rbind (SetOneFactionReputation env (Some fe) standing incremental m)
                (\<lambda>(res, m). rbind (SendState (list_key fe) m) (\<lambda>m. Inr (res, m))))"

definition SetReputation_abs :: "'f rep_env \<Rightarrow> 'f FactionEntry \<Rightarrow> int \<Rightarrow> rep_mgr \<Rightarrow> (bool \<times> rep_mgr) rep_result" where
  "SetReputation_abs env fe standing m = SetReputation env fe standing False m"

definition ModifyReputation :: "'f rep_env \<Rightarrow> 'f FactionEntry \<Rightarrow> int \<Rightarrow> rep_mgr \<Rightarrow> (bool \<times> rep_mgr) rep_result" where
  "ModifyReputation env fe standing m = SetReputation env fe standing True m"

section \<open>Loading and saving\<close>

definition init_faction :: "'f rep_env \<Rightarrow> 'f FactionEntry \<Rightarrow> rep_mgr \<Rightarrow> rep_mgr" where
  "init_faction env fe m =
     (let newFaction = \<lparr>fs_ID = fe_ID fe, ReputationListID = list_key fe, Standing = 0,
            Flags = ucast (GetDefaultStateFlags env (Some fe)), needSend = True, needSave = True\<rparr>;
          m = (if has_flag (Flags newFaction) FACTION_FLAG_VISIBLE
               then m\<lparr>visibleFactionCount := visibleFactionCount m + 1\<rparr> else m);
          m = UpdateRankCounters REP_HOSTILE (GetBaseRank env (Some fe)) m
      in set_fs (ReputationListID newFaction) newFaction m)"

fun init_loop :: "'f rep_env \<Rightarrow> nat list \<Rightarrow> rep_mgr \<Rightarrow> rep_mgr" where
  "init_loop env [] m = m"
| "init_loop env (i # is) m =
     init_loop env is
       (case faction_store env (of_nat i) of
          Some fe \<Rightarrow> if 0 \<le> reputationListID fe then init_faction env fe m else m
        | None \<Rightarrow> m)"

definition Initialize :: "'f rep_env \<Rightarrow> rep_mgr \<Rightarrow> rep_mgr" where
  "Initialize env m =
     init_loop env [1..<num_rows env]
       (m\<lparr>factions := [], visibleFactionCount := 0, honoredFactionCount := 0, reveredFactionCount := 0,
          exaltedFactionCount := 0, sendFactionIncreased := False\<rparr>)"

definition fs_default :: FactionState where
  "fs_default = \<lparr>fs_ID = 0, ReputationListID = 0, Standing = 0, Flags = 0, needSend = False, needSave = False\<rparr>"

text \<open>One row of \<^verbatim>\<open>character_reputation\<close>: faction, standing, flags.\<close>

type_synonym rep_row = "u16 \<times> int \<times> u16"

definition db_flag :: "u16 \<Rightarrow> u8 \<Rightarrow> bool" where
  "db_flag x f \<longleftrightarrow> x AND ucast f \<noteq> 0"

definition load_row :: "'f rep_env \<Rightarrow> rep_row \<Rightarrow> rep_mgr \<Rightarrow> rep_mgr rep_result" where
  "load_row env row m =
     (case row of (faction, standing, dbFactionFlags) \<Rightarrow>
       case faction_store env (ucast faction) of
         None \<Rightarrow> Inr m
       | Some fe \<Rightarrow>
           if \<not> 0 \<le> reputationListID fe then Inr m
           else
             let k = list_key fe;
                 m = set_fs k ((sm_at fs_default k (factions m))\<lparr>Standing := standing\<rparr>) m;
                 BaseRep = GetBaseReputation env (Some fe);
                 m = UpdateRankCounters (ReputationToRank BaseRep) (ReputationToRank (i32 (BaseRep + standing))) m
             in rbind (if db_flag dbFactionFlags FACTION_FLAG_VISIBLE then SetVisible_state env k m else Inr m) (\<lambda>m.
                rbind (if db_flag dbFactionFlags FACTION_FLAG_INACTIVE then SetInactive_state k True m else Inr m) (\<lambda>m.
                rbind (if db_flag dbFactionFlags FACTION_FLAG_AT_WAR then SetAtWar_state k True m
                       else if has_flag (Flags (sm_at fs_default k (factions m))) FACTION_FLAG_VISIBLE
                         then SetAtWar_state k False m else Inr m) (\<lambda>m.
                rbind (if GetRank env (Some fe) m \<le> REP_HOSTILE then SetAtWar_state k True m else Inr m) (\<lambda>m.
                let st = sm_at fs_default k (factions m) in
                Inr (if ucast (Flags st) = dbFactionFlags
                     then set_fs k (st\<lparr>needSend := False, needSave := False\<rparr>) m else m))))))"

fun load_rows :: "'f rep_env \<Rightarrow> rep_row list \<Rightarrow> rep_mgr \<Rightarrow> rep_mgr rep_result" where
  "load_rows env [] m = Inr m"
| "load_rows env (r # rs) m = rbind (load_row env r m) (load_rows env rs)"

definition LoadFromDB :: "'f rep_env \<Rightarrow> rep_row list option \<Rightarrow> rep_mgr \<Rightarrow> rep_mgr rep_result" where
  "LoadFromDB env result m =
     (let m = Initialize env m in case result of None \<Rightarrow> Inr m | Some rows \<Rightarrow> load_rows env rows m)"

fun save_loop :: "(u32 \<times> FactionState) list \<Rightarrow> (u32 \<times> FactionState) list \<times> rep_event list" where
  "save_loop [] = ([], [])"
| "save_loop ((k, st) # es) =
     (case save_loop es of (es', ev) \<Rightarrow>
        if needSave st
        then ((k, st\<lparr>needSave := False\<rparr>) # es', SqlDelete (fs_ID st) # SqlInsert (fs_ID st) (Standing st) (Flags st) # ev)
        else ((k, st) # es', ev))"

definition SaveToDB :: "rep_mgr \<Rightarrow> rep_mgr" where
  "SaveToDB m = (case save_loop (factions m) of (es, ev) \<Rightarrow> rep_emit ev (m\<lparr>factions := es\<rparr>))"

end
