(* ===== verification/Reputation_Invariant.thy ===== *)
theory Reputation_Invariant
  imports Reputation
begin

text \<open>
  The invariant of \<^verbatim>\<open>ReputationMgr\<close> and its preservation by every operation: the states agree
  with the data files, standings stay in their range, the protected flags stay as the data
  file has them, and the four counters count what they are named after (modulo 256, the
  width of their bit fields).
\<close>

section \<open>Flags\<close>

lemmas faction_flag_defs = FACTION_FLAG_VISIBLE_def FACTION_FLAG_AT_WAR_def FACTION_FLAG_HIDDEN_def
  FACTION_FLAG_INVISIBLE_FORCED_def FACTION_FLAG_PEACE_FORCED_def FACTION_FLAG_INACTIVE_def
  FACTION_FLAG_SPECIAL_def

lemma faction_flag_bits:
  "FACTION_FLAG_VISIBLE = push_bit 0 1" "FACTION_FLAG_AT_WAR = push_bit 1 1"
  "FACTION_FLAG_HIDDEN = push_bit 2 1" "FACTION_FLAG_INVISIBLE_FORCED = push_bit 3 1"
  "FACTION_FLAG_PEACE_FORCED = push_bit 4 1" "FACTION_FLAG_INACTIVE = push_bit 5 1"
  "FACTION_FLAG_SPECIAL = push_bit 7 1"
  by (simp_all add: faction_flag_defs)

lemma has_flag_bit: "has_flag x (push_bit n 1) \<longleftrightarrow> bit x n"
  by (simp only: has_flag_def and_push_bit_1)

lemma has_flag_or: "has_flag x (f OR g) \<longleftrightarrow> has_flag x f \<or> has_flag x g"
  by (auto simp: has_flag_def bit.conj_disj_distrib or_eq_0_iff)

lemma has_flag_simps [simp]:
  "has_flag x FACTION_FLAG_VISIBLE \<longleftrightarrow> bit x 0" "has_flag x FACTION_FLAG_AT_WAR \<longleftrightarrow> bit x 1"
  "has_flag x FACTION_FLAG_HIDDEN \<longleftrightarrow> bit x 2" "has_flag x FACTION_FLAG_INVISIBLE_FORCED \<longleftrightarrow> bit x 3"
  "has_flag x FACTION_FLAG_PEACE_FORCED \<longleftrightarrow> bit x 4" "has_flag x FACTION_FLAG_INACTIVE \<longleftrightarrow> bit x 5"
  "has_flag x FACTION_FLAG_SPECIAL \<longleftrightarrow> bit x 7"
  "has_flag x (f OR g) \<longleftrightarrow> has_flag x f \<or> has_flag x g"
  unfolding faction_flag_bits has_flag_bit by (rule refl has_flag_or)+

lemma bit_flag_simps [simp]:
  "bit (x OR FACTION_FLAG_VISIBLE) n \<longleftrightarrow> bit x n \<or> n = 0"
  "bit (x OR FACTION_FLAG_AT_WAR) n \<longleftrightarrow> bit x n \<or> n = 1"
  "bit (x OR FACTION_FLAG_INACTIVE) n \<longleftrightarrow> bit x n \<or> n = 5"
  "bit (x AND NOT FACTION_FLAG_AT_WAR) n \<longleftrightarrow> bit x n \<and> n \<noteq> 1"
  "bit (x AND NOT FACTION_FLAG_INACTIVE) n \<longleftrightarrow> bit x n \<and> n \<noteq> 5"
  unfolding faction_flag_bits bit_or_iff bit_and_iff bit_not_iff bit_push_bit_iff bit_1_iff
  by (auto dest: bit_imp_le_length)

text \<open>The flags a state may have when the data file gives it \<open>D\<close>.\<close>

definition flags_ok :: "u8 \<Rightarrow> u8 \<Rightarrow> bool" where
  "flags_ok D F \<longleftrightarrow>
     (\<forall>n. n \<noteq> 0 \<longrightarrow> n \<noteq> 1 \<longrightarrow> n \<noteq> 5 \<longrightarrow> bit F n = bit D n)
     \<and> ((bit D 2 \<or> bit D 3) \<and> \<not> bit D 7 \<longrightarrow> bit F 0 = bit D 0)
     \<and> (bit D 0 \<longrightarrow> bit F 0)
     \<and> (bit D 4 \<and> bit F 1 \<longrightarrow> bit D 1)"

lemma flags_ok_refl: "flags_ok D D"
  by (simp add: flags_ok_def)

lemma flags_ok_visible:
  "flags_ok D F \<Longrightarrow> \<not> ((bit F 2 \<or> bit F 3) \<and> \<not> bit F 7) \<Longrightarrow> flags_ok D (F OR FACTION_FLAG_VISIBLE)"
  by (auto simp: flags_ok_def)

lemma flags_ok_war: "flags_ok D F \<Longrightarrow> \<not> bit F 4 \<Longrightarrow> flags_ok D (F OR FACTION_FLAG_AT_WAR)"
  by (auto simp: flags_ok_def)

lemma flags_ok_rest:
  "flags_ok D F \<Longrightarrow> flags_ok D (F AND NOT FACTION_FLAG_AT_WAR)"
  "flags_ok D F \<Longrightarrow> flags_ok D (F OR FACTION_FLAG_INACTIVE)"
  "flags_ok D F \<Longrightarrow> flags_ok D (F AND NOT FACTION_FLAG_INACTIVE)"
  by (auto simp: flags_ok_def)

section \<open>Counting states\<close>

definition count8 :: "(u32 \<Rightarrow> FactionState \<Rightarrow> bool) \<Rightarrow> (u32, FactionState) std_map \<Rightarrow> u8" where
  "count8 P es = of_nat (sm.count_if P es)"

lemma count8_Nil [simp]: "count8 P [] = 0"
  by (simp add: count8_def sm.count_if_def)

lemma count8_set_new:
  "sm_inv es \<Longrightarrow> sm_find es k = None \<Longrightarrow> count8 P (sm_set k v es) = count8 P es + of_bool (P k v)"
  by (simp add: count8_def sm.count_if_assign_new)

lemma count8_set_old:
  assumes "sm_inv es" and "sm_find es k = Some w"
  shows "count8 P (sm_set k v es) = count8 P es - of_bool (P k w) + of_bool (P k v)"
proof -
  have "(of_nat (sm.count_if P (sm_set k v es) + (if P k w then 1 else 0)) :: u8)
      = of_nat (sm.count_if P es + (if P k v then 1 else 0))"
    using sm.count_if_assign_old [OF assms] by simp
  then have "count8 P (sm_set k v es) + of_bool (P k w) = count8 P es + of_bool (P k v)"
    by (simp add: count8_def of_bool_def split: if_splits)
  then show ?thesis by (simp add: algebra_simps eq_diff_eq)
qed

lemma count8_map:
  "(\<And>k st. P k (f st) = P k st) \<Longrightarrow> count8 P (map (\<lambda>(k, st). (k, f st)) es) = count8 P es"
proof -
  assume P: "\<And>k st. P k (f st) = P k st"
  have "sm.count_if P (map (\<lambda>(k, st). (k, f st)) es) = sm.count_if P es"
    unfolding sm.count_if_def by (induction es) (auto simp: P)
  then show ?thesis by (simp add: count8_def)
qed

section \<open>The invariant\<close>

text \<open>What the data files promise: entries are found under their id, entries with reputation have
  distinct indices below 256, base standings are in range, and spillover templates name
  existing factions.\<close>

definition env_wf :: "'f rep_env \<Rightarrow> bool" where
  "env_wf env \<longleftrightarrow>
     (\<forall>i fe. faction_store env i = Some fe \<longrightarrow> fe_ID fe = i \<and> reputationListID fe < 256
        \<and> - (2 ^ 31) \<le> reputationListID fe
        \<and> Reputation_Bottom \<le> GetBaseReputation env (Some fe) \<and> GetBaseReputation env (Some fe) \<le> Reputation_Cap)
     \<and> (\<forall>i j fe fe'. faction_store env i = Some fe \<longrightarrow> faction_store env j = Some fe' \<longrightarrow>
          0 \<le> reputationListID fe \<longrightarrow> reputationListID fe = reputationListID fe' \<longrightarrow> i = j)
     \<and> (\<forall>i. faction_store env i \<noteq> None \<longrightarrow> 0 < i \<and> unat i < num_rows env)
     \<and> num_rows env \<le> 2 ^ 32
     \<and> (\<forall>i t. spillover_template env i = Some t \<longrightarrow>
          (\<forall>j. rst_faction t j = 0 \<or> faction_store env (rst_faction t j) \<noteq> None))"

definition base_of :: "'f rep_env \<Rightarrow> FactionState \<Rightarrow> int" where
  "base_of env st = GetBaseReputation env (faction_store env (fs_ID st))"

definition state_rank :: "'f rep_env \<Rightarrow> FactionState \<Rightarrow> ReputationRank" where
  "state_rank env st = ReputationToRank (i32 (Standing st + base_of env st))"

definition fs_ok :: "'f rep_env \<Rightarrow> u32 \<Rightarrow> FactionState \<Rightarrow> bool" where
  "fs_ok env k st \<longleftrightarrow> ReputationListID st = k
     \<and> (\<exists>fe. faction_store env (fs_ID st) = Some fe \<and> 0 \<le> reputationListID fe \<and> list_key fe = k
          \<and> flags_ok (ucast (GetDefaultStateFlags env (Some fe))) (Flags st))
     \<and> Reputation_Bottom \<le> Standing st + base_of env st \<and> Standing st + base_of env st \<le> Reputation_Cap"

definition rank_counts :: "'f rep_env \<Rightarrow> rep_mgr \<Rightarrow> u8 \<times> u8 \<times> u8" where
  "rank_counts env m =
     (count8 (\<lambda>k st. REP_EXALTED \<le> state_rank env st) (factions m),
      count8 (\<lambda>k st. REP_REVERED \<le> state_rank env st) (factions m),
      count8 (\<lambda>k st. REP_HONORED \<le> state_rank env st) (factions m))"

definition rank_fields :: "rep_mgr \<Rightarrow> u8 \<times> u8 \<times> u8" where
  "rank_fields m = (exaltedFactionCount m, reveredFactionCount m, honoredFactionCount m)"

definition rep_core :: "'f rep_env \<Rightarrow> rep_mgr \<Rightarrow> bool" where
  "rep_core env m \<longleftrightarrow> sm_inv (factions m) \<and> (\<forall>(k, st) \<in> set (factions m). fs_ok env k st)
     \<and> visibleFactionCount m = count8 (\<lambda>k st. bit (Flags st) 0) (factions m)"

definition rep_inv :: "'f rep_env \<Rightarrow> rep_mgr \<Rightarrow> bool" where
  "rep_inv env m \<longleftrightarrow> rep_core env m \<and> rank_fields m = rank_counts env m"

lemma rep_coreD:
  "rep_core env m \<Longrightarrow> sm_find (factions m) k = Some st \<Longrightarrow> fs_ok env k st"
  by (auto simp: rep_core_def dest!: map_of_SomeD)

lemma rep_core_sm_inv [dest]: "rep_core env m \<Longrightarrow> sm_inv (factions m)"
  by (simp add: rep_core_def)

lemma rep_core_set:
  assumes "rep_core env m" and "sm_find (factions m) k = Some st" and "fs_ok env k st'"
  shows "rep_core env ((set_fs k st' m)\<lparr>visibleFactionCount :=
    visibleFactionCount m - of_bool (bit (Flags st) 0) + of_bool (bit (Flags st') 0)\<rparr>)"
proof -
  have "fs_ok env k' x" if "(k', x) \<in> set (sm_set k st' (factions m))" for k' x
    using that assms by (auto simp: rep_core_def sm_find_iff split: if_splits)
  then show ?thesis using assms by (auto simp: rep_core_def set_fs_def count8_set_old)
qed

text \<open>\<open>same_standing\<close>: ids and standings of all states are as before, and so are the rank counters.\<close>

definition same_standing :: "'f rep_env \<Rightarrow> rep_mgr \<Rightarrow> rep_mgr \<Rightarrow> bool" where
  "same_standing env m m' \<longleftrightarrow>
     (\<forall>k. map_option (\<lambda>st. (fs_ID st, Standing st)) (sm_find (factions m') k)
        = map_option (\<lambda>st. (fs_ID st, Standing st)) (sm_find (factions m) k))
     \<and> rank_fields m' = rank_fields m \<and> rank_counts env m' = rank_counts env m"

lemma same_standing_refl [simp, intro]: "same_standing env m m"
  by (simp add: same_standing_def)

lemma same_standing_trans [trans]:
  "same_standing env m m' \<Longrightarrow> same_standing env m' m'' \<Longrightarrow> same_standing env m m''"
  by (simp add: same_standing_def)

lemma same_standing_find:
  "same_standing env m m' \<Longrightarrow> sm_find (factions m) k = Some st \<Longrightarrow>
     \<exists>st'. sm_find (factions m') k = Some st' \<and> fs_ID st' = fs_ID st \<and> Standing st' = Standing st"
  by (auto simp: same_standing_def dest!: spec [of _ k] split: option.splits)

lemma same_standing_inv: "same_standing env m m' \<Longrightarrow> rep_inv env m \<Longrightarrow> rep_core env m' \<Longrightarrow> rep_inv env m'"
  by (simp add: same_standing_def rep_inv_def)

lemma same_standing_set:
  assumes "sm_inv (factions m)" and "sm_find (factions m) k = Some st"
    and "fs_ID st' = fs_ID st" and "Standing st' = Standing st"
    and "factions m' = sm_set k st' (factions m)" and "rank_fields m' = rank_fields m"
  shows "same_standing env m m'"
proof -
  have "state_rank env st' = state_rank env st" using assms by (simp add: state_rank_def base_of_def)
  then show ?thesis using assms by (simp add: same_standing_def rank_counts_def count8_set_old)
qed

section \<open>Changing flags\<close>

lemma fs_ok_flags:
  assumes "fs_ok env k st" and "\<And>D. flags_ok D (Flags st) \<Longrightarrow> flags_ok D F"
  shows "fs_ok env k (st\<lparr>Flags := F, needSend := a, needSave := b\<rparr>)"
  using assms by (auto simp: fs_ok_def base_of_def)

lemma change_flags:
  assumes "rep_core env m" and "sm_find (factions m) k = Some st"
    and "\<And>D. flags_ok D (Flags st) \<Longrightarrow> flags_ok D F" and "bit F 0 = bit (Flags st) 0"
  shows "rep_core env (set_fs k (st\<lparr>Flags := F, needSend := a, needSave := b\<rparr>) m)
    \<and> same_standing env m (set_fs k (st\<lparr>Flags := F, needSend := a, needSave := b\<rparr>) m)"
proof
  let ?st = "st\<lparr>Flags := F, needSend := a, needSave := b\<rparr>"
  have "fs_ok env k ?st" using assms rep_coreD [OF assms(1,2)] by (intro fs_ok_flags)
  from rep_core_set [OF assms(1,2) this] assms(4)
  show "rep_core env (set_fs k ?st m)" by (simp add: set_fs_def)
  show "same_standing env m (set_fs k ?st m)"
    using assms by (intro same_standing_set [of _ k st ?st]) (auto simp: set_fs_def rank_fields_def)
qed

lemma SetAtWar_state_core:
  assumes "rep_core env m" and "sm_find (factions m) k = Some st"
  shows "\<exists>m'. SetAtWar_state k w m = Inr m' \<and> rep_core env m' \<and> same_standing env m m'"
proof -
  have F: "flags_ok D (Flags st) \<Longrightarrow> \<not> (w \<and> bit (Flags st) 4) \<Longrightarrow> flags_ok D
      (if w then Flags st OR FACTION_FLAG_AT_WAR else Flags st AND NOT FACTION_FLAG_AT_WAR)" for D
    by (simp add: flags_ok_war flags_ok_rest)
  show ?thesis
    using assms change_flags [OF assms F]
    by (cases "w \<and> bit (Flags st) 4 \<or> bit (Flags st) 1 = w") (auto simp: SetAtWar_state_def)
qed

lemma SetInactive_state_core:
  assumes "rep_core env m" and "sm_find (factions m) k = Some st"
  shows "\<exists>m'. SetInactive_state k w m = Inr m' \<and> rep_core env m' \<and> same_standing env m m'"
proof -
  have F: "flags_ok D (Flags st) \<Longrightarrow> flags_ok D
      (if w then Flags st OR FACTION_FLAG_INACTIVE else Flags st AND NOT FACTION_FLAG_INACTIVE)" for D
    by (simp add: flags_ok_rest)
  show ?thesis
    using assms(2) change_flags [OF assms F, of True True]
    by (auto simp: SetInactive_state_def assms(1))
qed

lemma rep_emit_core [simp]:
  "rep_core env (rep_emit es m) = rep_core env m" "rank_fields (rep_emit es m) = rank_fields m"
  "rank_counts env (rep_emit es m) = rank_counts env m" "factions (rep_emit es m) = factions m"
  "same_standing env m' (rep_emit es m) = same_standing env m' m"
  by (simp_all add: rep_emit_def rep_core_def rank_fields_def rank_counts_def same_standing_def)

lemma SendVisible_total:
  "\<exists>es. SendVisible env f m = Inr (rep_emit es m)"
proof (cases "player_loading env")
  case True
  then show ?thesis by (intro exI [of _ "[]"]) (simp add: SendVisible_def rep_emit_def)
next
  case False
  then show ?thesis
    by (auto simp: SendVisible_def send_to_player_def append_word_emit wr_ok_def bb_empty_def)
qed

lemma SetVisible_state_core:
  assumes "rep_core env m" and st: "sm_find (factions m) k = Some st"
  shows "\<exists>m'. SetVisible_state env k m = Inr m' \<and> rep_core env m' \<and> same_standing env m m'"
proof (cases "(bit (Flags st) 2 \<or> bit (Flags st) 3) \<and> \<not> bit (Flags st) 7 \<or> bit (Flags st) 0")
  case True
  with assms show ?thesis by (auto simp: SetVisible_state_def)
next
  case False
  let ?st = "st\<lparr>Flags := Flags st OR FACTION_FLAG_VISIBLE, needSend := True, needSave := True\<rparr>"
  let ?m = "(set_fs k ?st m)\<lparr>visibleFactionCount := visibleFactionCount m + 1\<rparr>"
  have ok: "fs_ok env k ?st"
    using rep_coreD [OF assms] False by (intro fs_ok_flags flags_ok_visible) auto
  from rep_core_set [OF assms ok] False have "rep_core env ?m" by simp
  moreover have "same_standing env m ?m"
    using assms by (intro same_standing_set [of _ k st ?st]) (auto simp: set_fs_def rank_fields_def)
  moreover obtain es where "SendVisible env ?st ?m = Inr (rep_emit es ?m)"
    using SendVisible_total by blast
  ultimately show ?thesis using st False
    by (intro exI [of _ "rep_emit es ?m"]) (auto simp: SetVisible_state_def Let_def set_fs_def)
qed

section \<open>Ranks\<close>

lemma i32_range: "Reputation_Bottom - Reputation_Cap \<le> x \<Longrightarrow> x \<le> Reputation_Cap - Reputation_Bottom \<Longrightarrow> i32 x = x"
  by (simp add: Reputation_Bottom_def Reputation_Cap_def)

lemma clamp_range: "Reputation_Bottom \<le> clamp_standing x" "clamp_standing x \<le> Reputation_Cap"
  by (simp_all add: clamp_standing_def Reputation_Bottom_def Reputation_Cap_def)

lemma UpdateRankCounters_fields:
  "rank_fields (UpdateRankCounters old_rank new_rank m) =
     (exaltedFactionCount m - of_bool (REP_EXALTED \<le> old_rank) + of_bool (REP_EXALTED \<le> new_rank),
      reveredFactionCount m - of_bool (REP_REVERED \<le> old_rank) + of_bool (REP_REVERED \<le> new_rank),
      honoredFactionCount m - of_bool (REP_HONORED \<le> old_rank) + of_bool (REP_HONORED \<le> new_rank))"
  by (simp add: UpdateRankCounters_def Let_def rank_fields_def)

lemma UpdateRankCounters_rest [simp]:
  "factions (UpdateRankCounters old_rank new_rank m) = factions m"
  "visibleFactionCount (UpdateRankCounters old_rank new_rank m) = visibleFactionCount m"
  "rank_counts env (UpdateRankCounters old_rank new_rank m) = rank_counts env m"
  "rep_core env (UpdateRankCounters old_rank new_rank m) = rep_core env m"
  by (simp_all add: UpdateRankCounters_def Let_def rank_counts_def rep_core_def)

text \<open>The entry behind a key is unique.\<close>

lemma list_key_entry:
  assumes "env_wf env" and "faction_store env i = Some fe" and "faction_store env j = Some fe'"
    and "list_key fe = list_key fe'" and "0 \<le> reputationListID fe"
  shows "i = j"
proof -
  have "reputationListID fe = reputationListID fe'"
    using assms unfolding env_wf_def list_key_def
    by (intro word_of_int_inj [of "reputationListID fe" "reputationListID fe'"]) (force+)
  with assms show ?thesis unfolding env_wf_def by metis
qed

lemma state_entry:
  assumes "env_wf env" and "fs_ok env k st" and "faction_store env i = Some fe" and "list_key fe = k"
  shows "fs_ID st = i" "base_of env st = GetBaseReputation env (Some fe)" "0 \<le> reputationListID fe"
proof -
  from assms(2) obtain fe' where fe': "faction_store env (fs_ID st) = Some fe'" "0 \<le> reputationListID fe'"
    "list_key fe' = k" by (auto simp: fs_ok_def)
  with list_key_entry [OF assms(1) fe'(1) assms(3)] assms(4) show 1: "fs_ID st = i" by simp
  with fe' assms(3) show "base_of env st = GetBaseReputation env (Some fe)" "0 \<le> reputationListID fe"
    by (simp_all add: base_of_def)
qed

section \<open>Setting one standing\<close>

lemma set_standing:
  fixes a b :: bool
  assumes "rep_core env m" and st: "sm_find (factions m) k = Some st"
    and "Reputation_Bottom \<le> s + base_of env st" "s + base_of env st \<le> Reputation_Cap"
  defines "st' \<equiv> st\<lparr>Standing := s, needSend := a, needSave := b\<rparr>"
  shows "rep_core env (set_fs k st' m)"
    and "rank_counts env (set_fs k st' m) = (case rank_counts env m of (x, y, z) \<Rightarrow>
      (x - of_bool (REP_EXALTED \<le> state_rank env st) + of_bool (REP_EXALTED \<le> state_rank env st'),
       y - of_bool (REP_REVERED \<le> state_rank env st) + of_bool (REP_REVERED \<le> state_rank env st'),
       z - of_bool (REP_HONORED \<le> state_rank env st) + of_bool (REP_HONORED \<le> state_rank env st')))"
proof -
  have "fs_ok env k st'" using rep_coreD [OF assms(1,2)] assms(3,4) by (auto simp: st'_def fs_ok_def base_of_def)
  from rep_core_set [OF assms(1,2) this] show "rep_core env (set_fs k st' m)"
    by (simp add: set_fs_def st'_def)
  show "rank_counts env (set_fs k st' m) = (case rank_counts env m of (x, y, z) \<Rightarrow>
      (x - of_bool (REP_EXALTED \<le> state_rank env st) + of_bool (REP_EXALTED \<le> state_rank env st'),
       y - of_bool (REP_REVERED \<le> state_rank env st) + of_bool (REP_REVERED \<le> state_rank env st'),
       z - of_bool (REP_HONORED \<le> state_rank env st) + of_bool (REP_HONORED \<le> state_rank env st')))"
    using assms(1) st by (auto simp: rank_counts_def set_fs_def count8_set_old)
qed

text \<open>\<open>others_same k\<close>: ids and standings of all other factions are as before, none appears or goes.\<close>

definition others_same :: "u32 \<Rightarrow> rep_mgr \<Rightarrow> rep_mgr \<Rightarrow> bool" where
  "others_same k m m' \<longleftrightarrow>
     (\<forall>k'. k' \<noteq> k \<longrightarrow> map_option (\<lambda>st. (fs_ID st, Standing st)) (sm_find (factions m') k')
        = map_option (\<lambda>st. (fs_ID st, Standing st)) (sm_find (factions m) k'))
     \<and> (sm_find (factions m') k = None \<longleftrightarrow> sm_find (factions m) k = None)"

lemma SetOneFactionReputation_inv:
  assumes env: "env_wf env" and inv: "rep_inv env m" and fe: "faction_store env i = Some fe"
    and st: "sm_find (factions m) (list_key fe) = Some st"
  shows "\<exists>m' st'. SetOneFactionReputation env (Some fe) standing incremental m = Inr (True, m')
    \<and> rep_inv env m' \<and> others_same (list_key fe) m m' \<and> sm_find (factions m') (list_key fe) = Some st'
    \<and> Standing st' + GetBaseReputation env (Some fe) = clamp_standing
        (if incremental then incremented env (Standing st + GetBaseReputation env (Some fe)) standing else standing)"
proof -
  let ?k = "list_key fe" and ?B = "GetBaseReputation env (Some fe)"
  let ?s = "clamp_standing (if incremental then incremented env (Standing st + ?B) standing else standing)"
  have core: "rep_core env m" and rk: "rank_fields m = rank_counts env m" using inv by (simp_all add: rep_inv_def)
  have ok: "fs_ok env ?k st" using rep_coreD [OF core st] .
  note ent = state_entry [OF env ok fe refl]
  have B: "Reputation_Bottom \<le> ?B" "?B \<le> Reputation_Cap" using env fe by (auto simp: env_wf_def)
  have r0: "Reputation_Bottom \<le> Standing st + ?B" "Standing st + ?B \<le> Reputation_Cap"
    using ok ent(2) by (simp_all add: fs_ok_def)
  have w: "i32 (Standing st + ?B) = Standing st + ?B" "i32 (?s - ?B) = ?s - ?B" "i32 ?s = ?s"
    using r0 B clamp_range [of "if incremental then incremented env (Standing st + ?B) standing else standing"]
    by (intro i32_range; simp add: Reputation_Bottom_def Reputation_Cap_def)+
  let ?st = "st\<lparr>Standing := ?s - ?B, needSend := True, needSave := True\<rparr>"
  let ?m1 = "set_fs ?k ?st m"
  have rng: "Reputation_Bottom \<le> ?s - ?B + base_of env st" "?s - ?B + base_of env st \<le> Reputation_Cap"
    using clamp_range by (simp_all add: ent(2))
  note S = set_standing [OF core st rng, of True True]
  have ranks: "state_rank env st = ReputationToRank (Standing st + ?B)" "state_rank env ?st = ReputationToRank ?s"
    using w ent by (simp_all add: state_rank_def base_of_def)
  have f1: "sm_find (factions ?m1) ?k = Some ?st" using core by (simp add: set_fs_def rep_core_def)
  obtain m2 where m2: "SetVisible_state env ?k ?m1 = Inr m2" "rep_core env m2" "same_standing env ?m1 m2"
    using SetVisible_state_core [OF S(1) f1] by blast
  obtain st2 where f2: "sm_find (factions m2) ?k = Some st2"
    using same_standing_find [OF m2(3) f1] by blast
  obtain m3 where m3: "(if ReputationToRank ?s \<le> REP_HOSTILE then SetAtWar_state ?k True m2 else Inr m2) = Inr m3"
    "rep_core env m3" "same_standing env m2 m3"
    using SetAtWar_state_core [OF m2(2) f2, of True] m2(2) by (cases "ReputationToRank ?s \<le> REP_HOSTILE") auto
  have ss: "same_standing env ?m1 m3" using m2(3) m3(3) by (rule same_standing_trans)
  let ?m4 = "if ReputationToRank (Standing st + ?B) < ReputationToRank ?s then m3\<lparr>sendFactionIncreased := True\<rparr> else m3"
  let ?m5 = "rep_emit (reputation_events env fe) (UpdateRankCounters (ReputationToRank (Standing st + ?B)) (ReputationToRank ?s) ?m4)"
  have "SetOneFactionReputation env (Some fe) standing incremental m = Inr (True, ?m5)"
    by (simp only: SetOneFactionReputation_def Let_def option.case st w(1,2) m2(1) rbind_Inr m3(1))
  moreover have "rep_inv env ?m5"
  proof -
    have c4: "rep_core env ?m4" and k4: "rank_counts env ?m4 = rank_counts env m3" and f4: "rank_fields ?m4 = rank_fields m3"
      using m3(2) by (simp_all add: rep_core_def rank_counts_def rank_fields_def)
    have "rank_fields m3 = rank_fields m" using ss by (simp add: same_standing_def set_fs_def rank_fields_def)
    moreover have "rank_counts env m3 = rank_counts env ?m1" using ss by (simp add: same_standing_def)
    moreover obtain x y z where xyz: "rank_counts env m = (x, y, z)" by (cases "rank_counts env m")
    ultimately have f: "rank_fields ?m4 = (x, y, z)" and k: "rank_counts env ?m4 = rank_counts env ?m1"
      using f4 k4 rk by simp_all
    from f have "exaltedFactionCount ?m4 = x" "reveredFactionCount ?m4 = y" "honoredFactionCount ?m4 = z"
      by (simp_all only: rank_fields_def prod.inject)
    then have "rank_fields (UpdateRankCounters (ReputationToRank (Standing st + ?B)) (ReputationToRank ?s) ?m4)
        = rank_counts env ?m4"
      unfolding UpdateRankCounters_fields k S(2) xyz ranks by simp
    with c4 show ?thesis by (simp only: rep_inv_def rep_emit_core UpdateRankCounters_rest simp_thms)
  qed
  moreover have "factions ?m5 = factions m3" by simp
  moreover obtain st3 where st3: "sm_find (factions m3) ?k = Some st3" "Standing st3 = ?s - ?B"
    using same_standing_find [OF ss f1] by auto
  moreover have "others_same ?k m ?m5"
    using ss st3(1) st core by (auto simp: others_same_def same_standing_def set_fs_def rep_core_def)
  ultimately show ?thesis by auto
qed

text \<open>The same with the absent case; what every caller needs.\<close>

definition same_dom :: "rep_mgr \<Rightarrow> rep_mgr \<Rightarrow> bool" where
  "same_dom m m' \<longleftrightarrow> (\<forall>k. sm_find (factions m') k = None \<longleftrightarrow> sm_find (factions m) k = None)"

lemma same_dom_refl [simp]: "same_dom m m" and same_dom_trans: "same_dom m m' \<Longrightarrow> same_dom m' m'' \<Longrightarrow> same_dom m m''"
  by (simp_all add: same_dom_def)

lemma map_option_same_None: "map_option f x = map_option f y \<Longrightarrow> x = None \<longleftrightarrow> y = None"
  by (cases x; cases y) simp_all

lemma others_same_dom:
  assumes "others_same k m m'"
  shows "same_dom m m'"
  unfolding same_dom_def
proof
  fix k'
  show "(sm_find (factions m') k' = None) = (sm_find (factions m) k' = None)"
    using assms by (cases "k' = k") (auto simp: others_same_def dest!: spec [of _ k'] dest: map_option_same_None)
qed

lemma same_standing_dom: "same_standing env m m' \<Longrightarrow> same_dom m m'"
  unfolding same_standing_def same_dom_def by (blast dest: map_option_same_None)

lemma SetOne_total:
  assumes "env_wf env" and "rep_inv env m" and "faction_store env i = Some fe"
  shows "\<exists>r m'. SetOneFactionReputation env (Some fe) standing incremental m = Inr (r, m')
    \<and> rep_inv env m' \<and> same_dom m m'"
proof (cases "sm_find (factions m) (list_key fe)")
  case None
  with assms(2) show ?thesis by (auto simp: SetOneFactionReputation_def)
next
  case (Some st)
  from SetOneFactionReputation_inv [OF assms Some] show ?thesis by (blast dest: others_same_dom)
qed

end
