(* ===== verification/Reputation_Properties.thy ===== *)
theory Reputation_Properties
  imports Reputation_Invariant
begin

text \<open>
  The properties of \<^verbatim>\<open>ReputationMgr\<close>: the ranks, the invariant along any sequence of
  operations, the result of setting a reputation with its spillover, the layout of the
  packets, and loading what was saved.
\<close>

section \<open>Packets\<close>

lemma emit_Nil: "bitpos b = 8 \<Longrightarrow> emit [] b = b"
  by (simp add: emit_def)

abbreviation state_row :: "FactionState \<Rightarrow> u8 list" where
  "state_row st \<equiv> le_bytes (ReputationListID st) @ le_bytes (word_of_int (Standing st) :: u32)"

abbreviation changed_others :: "u32 \<Rightarrow> (u32 \<times> FactionState) list \<Rightarrow> FactionState list" where
  "changed_others rid es \<equiv> filter (\<lambda>st. needSend st \<and> ReputationListID st \<noteq> rid) (map snd es)"

abbreviation clear_send :: "(u32 \<times> FactionState) list \<Rightarrow> (u32 \<times> FactionState) list" where
  "clear_send es \<equiv> map (\<lambda>(k, st). (k, st\<lparr>needSend := False\<rparr>)) es"

lemma put_i32_emit: "wr_ok 4 b \<Longrightarrow> put_i32 x b = Inr (emit (le_bytes (word_of_int x :: u32)) b)"
  by (simp add: put_i32_def append_word_emit)

lemma needSend_False: "\<not> needSend st \<Longrightarrow> st\<lparr>needSend := False\<rparr> = st"
  by (cases st) simp

lemma send_state_loop_emit:
  "wr_ok (8 * length es) data \<Longrightarrow> bitpos data = 8 \<Longrightarrow>
     send_state_loop rid es cnt data = Inr (clear_send es, cnt + of_nat (length (changed_others rid es)),
       emit (concat (map state_row (changed_others rid es))) data)"
proof (induction es arbitrary: cnt data)
  case Nil
  then show ?case by (simp add: emit_Nil)
next
  case (Cons e es)
  obtain k st where e: "e = (k, st)" by (cases e)
  show ?case
  proof (cases "needSend st \<and> ReputationListID st \<noteq> rid")
    case True
    have "append_word (ReputationListID st) data = Inr (emit (le_bytes (ReputationListID st)) data)"
      using Cons.prems by (intro append_word_emit) (simp add: wr_ok_mono)
    moreover have "put_i32 (Standing st) (emit (le_bytes (ReputationListID st)) data)
        = Inr (emit (state_row st) data)"
      using Cons.prems by (subst put_i32_emit) (simp_all add: wr_ok_mono)
    moreover have "wr_ok (8 * length es) (emit (state_row st) data)"
      using Cons.prems(1) by (simp add: add.commute)
    from Cons.IH [OF this, of "cnt + 1"]
    have "send_state_loop rid es (cnt + 1) (emit (state_row st) data) =
        Inr (clear_send es, cnt + 1 + of_nat (length (changed_others rid es)),
          emit (state_row st @ concat (map state_row (changed_others rid es))) data)" by simp
    ultimately show ?thesis using True e by simp
  next
    case False
    have "wr_ok (8 * length es) data" using Cons.prems(1) by (simp add: wr_ok_mono)
    from Cons.IH [OF this Cons.prems(2), of cnt] False e needSend_False [of st] show ?thesis by auto
  qed
qed

lemma put_word_at_inside:
  "pos + LENGTH('a) div 8 \<le> bb_size b \<Longrightarrow> bb_size b < 2 ^ 63 \<Longrightarrow>
     put_word_at pos (w :: 'a::len word) b =
       Inr (b\<lparr>storage := take pos (storage b) @ le_bytes w @ drop (pos + LENGTH('a) div 8) (storage b)\<rparr>)"
  by (simp add: put_word_at_def put_bytes_at_def EndianConvert_host_bytes memcpy_at_def)

text \<open>The body of \<^verbatim>\<open>SMSG_SET_FACTION_STANDING\<close>.\<close>

definition standing_packet :: "bool \<Rightarrow> FactionState \<Rightarrow> FactionState list \<Rightarrow> u8 list" where
  "standing_packet increased f sts =
     le_bytes (0 :: u32) @ [of_bool increased] @ le_bytes (of_nat (1 + length sts) :: u32)
       @ state_row f @ concat (map state_row sts)"

lemma SendState_result:
  assumes "sm_find (factions m) k = Some f" and "length (factions m) \<le> 1000000"
  shows "SendState k m = Inr (rep_emit [SentPacket SMSG_SET_FACTION_STANDING
      (standing_packet (sendFactionIncreased m) f (changed_others (ReputationListID f) (factions m)))]
      (m\<lparr>sendFactionIncreased := False, factions := clear_send (factions m)\<rparr>))"
proof -
  let ?i = "of_bool (sendFactionIncreased m) :: u8"
  let ?sts = "changed_others (ReputationListID f) (factions m)"
  let ?pre = "le_bytes (0 :: u32) @ [?i]"
  let ?d3 = "emit (?pre @ le_bytes (1 :: u32)) bb_empty"
  let ?d5 = "emit (?pre @ le_bytes (1 :: u32) @ state_row f) bb_empty"
  let ?rows = "concat (map state_row ?sts)"
  have room: "wr_ok n bb_empty" if "n \<le> 10000000" for n using that by (simp add: wr_ok_def bb_empty_def)
  have steps: "append_word (0 :: u32) bb_empty = Inr (emit (le_bytes (0 :: u32)) bb_empty)"
    "append_word ?i (emit (le_bytes (0 :: u32)) bb_empty) = Inr (emit ?pre bb_empty)"
    "append_word (1 :: u32) (emit ?pre bb_empty) = Inr ?d3"
    "append_word (ReputationListID f) ?d3 = Inr (emit (?pre @ le_bytes (1 :: u32) @ le_bytes (ReputationListID f)) bb_empty)"
    "put_i32 (Standing f) (emit (?pre @ le_bytes (1 :: u32) @ le_bytes (ReputationListID f)) bb_empty) = Inr ?d5"
    by (simp_all add: append_word_emit put_i32_emit room)
  have wp: "wpos (emit ?pre bb_empty) = 5" by (simp add: bb_empty_def)
  have "wr_ok (8 * length (factions m)) ?d5" using assms(2) by (simp add: room)
  note loop = send_state_loop_emit [OF this bitpos_emit, of "ReputationListID f" 1]
  have "length ?sts \<le> length (factions m)" by (rule le_trans [OF length_filter_le]) simp
  moreover have "length (concat (map state_row sts)) = 8 * length sts" for sts by (induction sts) simp_all
  then have "length ?rows = 8 * length ?sts" .
  ultimately have small: "length ?rows \<le> 8000000" using assms(2) by linarith
  have put: "put_word_at 5 (1 + of_nat (length ?sts) :: u32) (emit ?rows ?d5) =
      Inr ((emit ?rows ?d5)\<lparr>storage := ?pre @ le_bytes (1 + of_nat (length ?sts) :: u32) @ state_row f @ ?rows\<rparr>)"
    using small by (subst put_word_at_inside) (simp_all add: bb_empty_def)
  show ?thesis
    by (simp only: SendState_def Let_def assms(1) option.case steps rbind_Inr wp loop prod.case put pk_simps)
      (simp add: send_to_player_def standing_packet_def)
qed

lemma rep_core_length:
  assumes "env_wf env" and "rep_core env m"
  shows "length (factions m) \<le> 256"
proof -
  have "unat k < 256" if "(k, st) \<in> set (factions m)" for k st
  proof -
    from assms(2) that have "fs_ok env k st" by (auto simp: rep_core_def)
    then obtain fe where fe: "faction_store env (fs_ID st) = Some fe" "0 \<le> reputationListID fe" "list_key fe = k"
      by (auto simp: fs_ok_def)
    moreover have "reputationListID fe < 256" using assms(1) fe(1) unfolding env_wf_def by blast
    moreover from this fe(2) have "uint (word_of_int (reputationListID fe) :: u32) = reputationListID fe"
      by (simp add: uint_word_of_int_eq take_bit_int_eq_self)
    ultimately show ?thesis by (simp add: list_key_def unat_eq_nat_uint)
  qed
  then have "unat ` fst ` set (factions m) \<subseteq> {..<256}" by auto
  from card_mono [OF _ this] have "card (unat ` fst ` set (factions m)) \<le> 256" by simp
  moreover have "card (unat ` fst ` set (factions m)) = card (fst ` set (factions m))"
    by (rule card_image, rule inj_on_inverseI [where g = of_nat]) simp
  moreover have "card (set (map fst (factions m))) = length (map fst (factions m))"
    using sm_distinct [of "factions m"] assms(2) unfolding rep_core_def by (intro distinct_card) simp
  ultimately show ?thesis by simp
qed

text \<open>Rewriting all entries without touching ids, standings and flags.\<close>

definition keeps_state :: "(FactionState \<Rightarrow> FactionState) \<Rightarrow> bool" where
  "keeps_state f \<longleftrightarrow> (\<forall>st. fs_ID (f st) = fs_ID st \<and> ReputationListID (f st) = ReputationListID st
     \<and> Standing (f st) = Standing st \<and> Flags (f st) = Flags st)"

lemma find_map_states: "sm_find (map (\<lambda>(k, st). (k, f st)) es) k = map_option f (sm_find es k)"
  by (induction es) auto

lemma map_states_inv:
  assumes "rep_inv env m" and f: "keeps_state f"
    and fs: "factions m' = map (\<lambda>(k, st). (k, f st)) (factions m)"
    and "rank_fields m' = rank_fields m" and "visibleFactionCount m' = visibleFactionCount m"
  shows "rep_inv env m'" "same_standing env m m'"
proof -
  note F = f [unfolded keeps_state_def, rule_format]
  have keys: "map fst (map (\<lambda>(k, st). (k, f st)) es) = map fst es" for es :: "(u32 \<times> FactionState) list"
    by (induction es) auto
  have "sm_inv (factions m')"
    using assms(1) unfolding sm_inv_def fs keys by (simp add: rep_inv_def rep_core_def sm_inv_def)
  moreover have "fs_ok env k (f st) = fs_ok env k st" for k st by (simp add: fs_ok_def base_of_def F)
  then have "\<forall>(k, st) \<in> set (factions m'). fs_ok env k st"
    using assms(1) by (auto simp: rep_inv_def rep_core_def fs)
  moreover have c: "count8 P (factions m') = count8 P (factions m)"
    if "\<And>k st. P k (f st) = P k st" for P
    unfolding fs using that by (rule count8_map)
  then have r: "rank_counts env m' = rank_counts env m"
    by (simp add: rank_counts_def state_rank_def base_of_def F)
  moreover have "count8 (\<lambda>k st. bit (Flags st) 0) (factions m') = count8 (\<lambda>k st. bit (Flags st) 0) (factions m)"
    by (rule c) (simp add: F)
  ultimately show "rep_inv env m'" using assms by (simp add: rep_inv_def rep_core_def)
  show "same_standing env m m'"
    using assms(4) r by (simp add: same_standing_def fs find_map_states option.map_comp comp_def F)
qed

lemma keeps_state_simps: "keeps_state (\<lambda>st. st\<lparr>needSend := x\<rparr>)" "keeps_state (\<lambda>st. st\<lparr>needSave := x\<rparr>)"
  by (simp_all add: keeps_state_def)

lemma SendState_inv:
  assumes "env_wf env" and "rep_inv env m" and "sm_find (factions m) k = Some f"
  shows "\<exists>m'. SendState k m = Inr m' \<and> rep_inv env m' \<and> same_standing env m m'"
proof -
  have "length (factions m) \<le> 1000000"
    using rep_core_length [OF assms(1)] assms(2) by (fastforce simp: rep_inv_def)
  note r = SendState_result [OF assms(3) this]
  let ?m = "m\<lparr>sendFactionIncreased := False, factions := clear_send (factions m)\<rparr>"
  have "rep_inv env ?m" "same_standing env m ?m"
    using assms(2) keeps_state_simps(1) [of False] by (rule map_states_inv; simp add: rank_fields_def)+
  with r show ?thesis by (simp add: rep_inv_def)
qed

section \<open>Spillover\<close>

lemma template_loop_inv:
  assumes env: "env_wf env" and t: "spillover_template env i = Some t"
  shows "rep_inv env m \<Longrightarrow> \<exists>m'. template_loop env t is standing inc m = Inr m' \<and> rep_inv env m' \<and> same_dom m m'"
proof (induction "is" arbitrary: m)
  case Nil
  then show ?case by simp
next
  case (Cons j js)
  let ?c = "rst_faction t j \<noteq> 0 \<and> rank_num (GetReputationRank env (rst_faction t j) m) \<le> unat (faction_rank t j)"
  show ?case
  proof (cases ?c)
    case True
    with env t have "faction_store env (rst_faction t j) \<noteq> None" unfolding env_wf_def by blast
    then obtain fe where fe: "faction_store env (rst_faction t j) = Some fe" by blast
    obtain r m1 where m1: "SetOneFactionReputation env (Some fe)
        (f_trunc (fl env) (f_mul (fl env) (f_of_int (fl env) standing) (faction_rate t j))) inc m = Inr (r, m1)"
      "rep_inv env m1" "same_dom m m1"
      using SetOne_total [OF env Cons.prems fe] by blast
    from Cons.IH [OF m1(2)] m1 True fe show ?thesis by (auto intro: same_dom_trans)
  next
    case False
    with Cons show ?thesis by auto
  qed
qed

lemma sister_loop_inv:
  assumes env: "env_wf env"
  shows "rep_inv env m \<Longrightarrow> \<exists>r m'. sister_loop env fe xs out inc res m = Inr (r, m') \<and> rep_inv env m' \<and> same_dom m m'"
proof (induction xs arbitrary: m res)
  case Nil
  then show ?case by simp
next
  case (Cons x xs)
  show ?case
  proof (cases "faction_store env x")
    case None
    with Cons show ?thesis by simp
  next
    case (Some calc)
    obtain r m1 where m1: "SetOneFactionReputation env (Some calc)
        (f_trunc (fl env) (f_mul (fl env) out (spilloverRateIn calc))) inc m = Inr (r, m1)"
      "rep_inv env m1" "same_dom m m1"
      using SetOne_total [OF env Cons.prems Some] by blast
    from Cons.IH [OF m1(2), of r] Cons.IH [OF Cons.prems, of res] m1 Some show ?thesis
      by (auto simp: Let_def intro: same_dom_trans)
  qed
qed

lemma dbc_spillover_inv:
  assumes env: "env_wf env" and m: "rep_inv env m"
  shows "\<exists>r m'. dbc_spillover env fe standing inc m = Inr (r, m') \<and> rep_inv env m' \<and> same_dom m m'"
proof -
  define tail where "tail = (\<lambda>(out, flist, m).
      case flist of None \<Rightarrow> Inr (False, m) | Some xs \<Rightarrow> sister_loop env fe xs out inc False m)"
  have tail: "\<exists>r m'. tail (out, flist, m1) = Inr (r, m') \<and> rep_inv env m' \<and> same_dom m m'"
    if "rep_inv env m1" "same_dom m m1" for out flist m1
    using that sister_loop_inv [OF env that(1), of fe _ out inc False]
    by (cases flist) (force simp: tail_def intro: same_dom_trans)+
  let ?cond = "team_list env (fe_ID fe) = None \<and> fe_team fe \<noteq> 0 \<and> spilloverRateOut fe \<noteq> f_zero (fl env)"
  let ?out = "f_mul (fl env) (f_of_int (fl env) standing) (spilloverRateOut fe)"
  let ?head = "if ?cond then
      (case faction_store env (fe_team fe) of
         None \<Rightarrow> Inr (?out, team_list env (fe_ID fe), m)
       | Some parent \<Rightarrow>
           (case sm_find (factions m) (list_key parent) of
              Some pst \<Rightarrow>
                if has_flag (Flags pst) FACTION_FLAG_SPECIAL
                then rbind (SetOneFactionReputation env (Some parent) (f_trunc (fl env) ?out) inc m)
                       (\<lambda>(_, m). Inr (?out, team_list env (fe_ID fe), m))
                else Inr (?out, team_list env (fe_team fe), m)
            | None \<Rightarrow> Inr (?out, team_list env (fe_team fe), m)))
    else Inr (f_of_int (fl env) standing, team_list env (fe_ID fe), m)"
  have "\<exists>out flist m1. ?head = Inr (out, flist, m1) \<and> rep_inv env m1 \<and> same_dom m m1"
  proof (cases "?cond \<and> faction_store env (fe_team fe) \<noteq> None")
    case False
    with m show ?thesis by (cases ?cond) auto
  next
    case True
    then obtain parent where p: "faction_store env (fe_team fe) = Some parent" by blast
    obtain r m1 where "SetOneFactionReputation env (Some parent) (f_trunc (fl env) ?out) inc m = Inr (r, m1)"
      "rep_inv env m1" "same_dom m m1"
      using SetOne_total [OF env m p] by blast
    with True p m show ?thesis by (cases "sm_find (factions m) (list_key parent)") auto
  qed
  then obtain out flist m1 where head: "?head = Inr (out, flist, m1)" "rep_inv env m1" "same_dom m m1" by blast
  have "dbc_spillover env fe standing inc m = rbind ?head tail"
    by (simp only: dbc_spillover_def Let_def tail_def)
  with tail [OF head(2,3)] head(1) show ?thesis by simp
qed

lemma SetReputation_inv:
  assumes env: "env_wf env" and m: "rep_inv env m" and fe: "faction_store env i = Some fe"
  shows "\<exists>r m'. SetReputation env fe standing inc m = Inr (r, m') \<and> rep_inv env m' \<and> same_dom m m'
    \<and> (\<not> inc \<longrightarrow> sm_find (factions m) (list_key fe) \<noteq> None \<longrightarrow>
         r \<and> GetReputation env (Some fe) m' = clamp_standing standing)"
proof -
  let ?spill = "case spillover_template env (fe_ID fe) of
      Some t \<Rightarrow> rbind (template_loop env t [0, 1, 2, 3, 4] standing inc m) (\<lambda>m. Inr (False, m))
    | None \<Rightarrow> dbc_spillover env fe standing inc m"
  have "\<exists>r m1. ?spill = Inr (r, m1) \<and> rep_inv env m1 \<and> same_dom m m1"
  proof (cases "spillover_template env (fe_ID fe)")
    case None
    then show ?thesis using dbc_spillover_inv [OF env m] by simp
  next
    case (Some t)
    from template_loop_inv [OF env this m, of "[0, 1, 2, 3, 4]" standing inc] obtain m1 where
      "template_loop env t [0, 1, 2, 3, 4] standing inc m = Inr m1" "rep_inv env m1" "same_dom m m1" by blast
    with Some show ?thesis by (auto simp del: template_loop.simps)
  qed
  then obtain r0 m1 where m1: "?spill = Inr (r0, m1)" "rep_inv env m1" "same_dom m m1" by blast
  show ?thesis
  proof (cases "sm_find (factions m1) (list_key fe)")
    case None
    with m1(3) have "sm_find (factions m) (list_key fe) = None" by (simp add: same_dom_def)
    with m1 None show ?thesis by (simp add: SetReputation_def)
  next
    case (Some st)
    from SetOneFactionReputation_inv [OF env m1(2) fe Some, of standing inc] obtain m2 st2 where
      m2: "SetOneFactionReputation env (Some fe) standing inc m1 = Inr (True, m2)" "rep_inv env m2"
        "others_same (list_key fe) m1 m2" "sm_find (factions m2) (list_key fe) = Some st2"
        "\<not> inc \<Longrightarrow> Standing st2 + GetBaseReputation env (Some fe) = clamp_standing standing"
      by auto
    obtain m3 where m3: "SendState (list_key fe) m2 = Inr m3" "rep_inv env m3" "same_standing env m2 m3"
      using SendState_inv [OF env m2(2,4)] by blast
    from same_standing_find [OF m3(3) m2(4)] obtain st3 where
      st3: "sm_find (factions m3) (list_key fe) = Some st3" "Standing st3 = Standing st2" by blast
    have ok: "fs_ok env (list_key fe) st2" using m2(2,4) rep_coreD by (fastforce simp: rep_inv_def)
    have nn: "0 \<le> reputationListID fe" using state_entry(3) [OF env ok fe refl] .
    have "i32 (clamp_standing standing) = clamp_standing standing"
      using clamp_range [of standing] by (intro i32_range) (simp_all add: Reputation_Bottom_def Reputation_Cap_def)
    then have "GetReputation env (Some fe) m3 = clamp_standing standing" if "\<not> inc"
      using st3 m2(5) [OF that] nn
      by (simp add: GetReputation_def GetState_def GetState_id_def CanHaveReputation_def add.commute)
    moreover have "SetReputation env fe standing inc m = Inr (True, m3)"
      using m1(1) Some m2(1) m3(1) by (simp add: SetReputation_def)
    moreover have "same_dom m m3"
      using m1(3) others_same_dom [OF m2(3)] same_standing_dom [OF m3(3)] by (blast intro: same_dom_trans)
    ultimately show ?thesis using m3(2) by (intro exI [of _ True] exI [of _ m3]) simp
  qed
qed

section \<open>Initialisation\<close>

lemma UpdateRankCounters_inv:
  assumes "rep_core env m" and "rank_counts env m = (x, y, z)"
    and "rank_fields mo = (x', y', z')" and "rank_fields m = rank_fields mo"
    and "x = x' - of_bool (REP_EXALTED \<le> old_rank) + of_bool (REP_EXALTED \<le> new_rank)"
    and "y = y' - of_bool (REP_REVERED \<le> old_rank) + of_bool (REP_REVERED \<le> new_rank)"
    and "z = z' - of_bool (REP_HONORED \<le> old_rank) + of_bool (REP_HONORED \<le> new_rank)"
  shows "rep_inv env (UpdateRankCounters old_rank new_rank m)"
proof -
  have "exaltedFactionCount m = x'" "reveredFactionCount m = y'" "honoredFactionCount m = z'"
    using assms(3,4) by (simp_all add: rank_fields_def)
  then show ?thesis using assms by (simp add: rep_inv_def UpdateRankCounters_fields)
qed

lemma init_faction_inv:
  assumes env: "env_wf env" and m: "rep_inv env m" and fe: "faction_store env i = Some fe"
    and nn: "0 \<le> reputationListID fe" and new: "sm_find (factions m) (list_key fe) = None"
  shows "rep_inv env (init_faction env fe m)"
    and "\<exists>st. factions (init_faction env fe m) = sm_set (list_key fe) st (factions m) \<and> fs_ID st = i \<and> Standing st = 0"
proof -
  let ?k = "list_key fe" and ?B = "GetBaseReputation env (Some fe)"
  let ?st = "\<lparr>fs_ID = fe_ID fe, ReputationListID = ?k, Standing = 0,
    Flags = ucast (GetDefaultStateFlags env (Some fe)), needSend = True, needSave = True\<rparr>"
  have id: "fe_ID fe = i" and B: "Reputation_Bottom \<le> ?B" "?B \<le> Reputation_Cap"
    using env fe unfolding env_wf_def by blast+
  have core: "rep_core env m" and rk: "rank_fields m = rank_counts env m" using m by (simp_all add: rep_inv_def)
  have ok: "fs_ok env ?k ?st" using fe id nn B by (simp add: fs_ok_def base_of_def flags_ok_refl)
  have rank: "state_rank env ?st = GetBaseRank env (Some fe)"
    using fe id B i32_range [of ?B]
    by (simp add: state_rank_def base_of_def GetBaseRank_def Reputation_Bottom_def Reputation_Cap_def)
  let ?m1 = "(set_fs ?k ?st m)\<lparr>visibleFactionCount := visibleFactionCount m + of_bool (bit (Flags ?st) 0)\<rparr>"
  have "fs_ok env k' x" if "(k', x) \<in> set (sm_set ?k ?st (factions m))" for k' x
    using that core ok new by (auto simp: rep_core_def sm_find_iff split: if_splits)
  then have c1: "rep_core env ?m1" using core new by (auto simp: rep_core_def set_fs_def count8_set_new)
  obtain x y z where xyz: "rank_fields m = (x, y, z)" by (cases "rank_fields m")
  have low: "\<not> REP_HONORED \<le> REP_HOSTILE" "\<not> REP_REVERED \<le> REP_HOSTILE" "\<not> REP_EXALTED \<le> REP_HOSTILE"
    by (simp_all add: less_eq_ReputationRank_def)
  have r1: "rank_counts env ?m1 = (x + of_bool (REP_EXALTED \<le> GetBaseRank env (Some fe)),
      y + of_bool (REP_REVERED \<le> GetBaseRank env (Some fe)), z + of_bool (REP_HONORED \<le> GetBaseRank env (Some fe)))"
    using core new rk xyz rank by (simp add: rank_counts_def set_fs_def count8_set_new rep_core_def)
  have inv: "rep_inv env (UpdateRankCounters REP_HOSTILE (GetBaseRank env (Some fe)) ?m1)"
    using low by (intro UpdateRankCounters_inv [OF c1 r1 xyz]) (simp_all add: rank_fields_def set_fs_def)
  have eq: "init_faction env fe m = UpdateRankCounters REP_HOSTILE (GetBaseRank env (Some fe)) ?m1"
    by (simp add: init_faction_def Let_def set_fs_def UpdateRankCounters_def)
  show "rep_inv env (init_faction env fe m)" using inv by (simp only: eq)
  show "\<exists>st. factions (init_faction env fe m) = sm_set ?k st (factions m) \<and> fs_ID st = i \<and> Standing st = 0"
    using id by (intro exI [of _ ?st]) (simp add: eq set_fs_def)
qed

text \<open>The states built so far belong to the rows \<open>P\<close>, and those rows have theirs.\<close>

definition init_part :: "'f rep_env \<Rightarrow> nat set \<Rightarrow> rep_mgr \<Rightarrow> bool" where
  "init_part env P m \<longleftrightarrow> rep_inv env m
     \<and> (\<forall>k st. sm_find (factions m) k = Some st \<longrightarrow> unat (fs_ID st) \<in> P \<and> Standing st = 0)
     \<and> (\<forall>i \<in> P. \<forall>fe. faction_store env (of_nat i) = Some fe \<longrightarrow> 0 \<le> reputationListID fe \<longrightarrow>
          sm_find (factions m) (list_key fe) \<noteq> None)"

lemma init_loop_part:
  assumes env: "env_wf env"
  shows "init_part env P m \<Longrightarrow> distinct is \<Longrightarrow> set is \<inter> P = {} \<Longrightarrow> \<forall>i \<in> set is. i < 2 ^ 32 \<Longrightarrow>
     init_part env (P \<union> set is) (init_loop env is m)"
proof (induction "is" arbitrary: P m)
  case Nil
  then show ?case by simp
next
  case (Cons i "is")
  let ?m = "case faction_store env (of_nat i) of
      Some fe \<Rightarrow> if 0 \<le> reputationListID fe then init_faction env fe m else m | None \<Rightarrow> m"
  have "init_part env (insert i P) ?m"
  proof (cases "\<exists>fe. faction_store env (of_nat i) = Some fe \<and> 0 \<le> reputationListID fe")
    case False
    with Cons.prems(1) show ?thesis by (auto simp: init_part_def split: option.splits)
  next
    case True
    then obtain fe where fe: "faction_store env (of_nat i) = Some fe" "0 \<le> reputationListID fe" by blast
    have ui: "unat (of_nat i :: u32) = i" using Cons.prems(4) by (simp add: unat_of_nat)
    have inv: "rep_inv env m" using Cons.prems(1) by (simp add: init_part_def)
    have new: "sm_find (factions m) (list_key fe) = None"
    proof (rule ccontr)
      assume "sm_find (factions m) (list_key fe) \<noteq> None"
      then obtain st where st: "sm_find (factions m) (list_key fe) = Some st" by blast
      then have "fs_ok env (list_key fe) st" using inv rep_coreD by (auto simp: rep_inv_def)
      from state_entry(1) [OF env this fe(1) refl] have "unat (fs_ID st) = i" using ui by simp
      moreover have "unat (fs_ID st) \<in> P" using st Cons.prems(1) by (auto simp: init_part_def)
      ultimately show False using Cons.prems(3) by auto
    qed
    obtain st where st: "factions (init_faction env fe m) = sm_set (list_key fe) st (factions m)"
      "fs_ID st = of_nat i" "Standing st = 0"
      using init_faction_inv(2) [OF env inv fe new] by blast
    have "sm_inv (factions m)" using inv by (simp add: rep_inv_def rep_core_def)
    then have find: "sm_find (factions (init_faction env fe m)) k
        = (if k = list_key fe then Some st else sm_find (factions m) k)" for k
      using st(1) by simp
    have "init_part env (insert i P) (init_faction env fe m)"
      using Cons.prems(1) init_faction_inv(1) [OF env inv fe new] st(2,3) ui fe(1)
      unfolding init_part_def find by auto
    with fe show ?thesis by simp
  qed
  from Cons.IH [OF this] Cons.prems show ?case by simp
qed

lemma Initialize_part:
  assumes "env_wf env"
  shows "init_part env {1..<num_rows env} (Initialize env m)"
proof -
  let ?m = "m\<lparr>factions := [], visibleFactionCount := 0, honoredFactionCount := 0, reveredFactionCount := 0,
    exaltedFactionCount := 0, sendFactionIncreased := False\<rparr>"
  have "init_part env {} ?m"
    by (simp add: init_part_def rep_inv_def rep_core_def rank_fields_def rank_counts_def)
  from init_loop_part [OF assms this, of "[1..<num_rows env]"] assms
  show ?thesis by (auto simp: Initialize_def env_wf_def)
qed

lemma Initialize_has:
  assumes "env_wf env" and "faction_store env i = Some fe" and "0 \<le> reputationListID fe"
  shows "\<exists>st. sm_find (factions (Initialize env m)) (list_key fe) = Some st \<and> Standing st = 0"
proof -
  have "unat i \<in> {1..<num_rows env}" using assms(1,2) unfolding env_wf_def
    by (auto simp: unat_gt_0 Suc_le_eq word_neq_0_conv)
  moreover have "faction_store env (of_nat (unat i)) = Some fe" using assms(2) by simp
  ultimately have "sm_find (factions (Initialize env m)) (list_key fe) \<noteq> None"
    using Initialize_part [OF assms(1), of m] assms(3) unfolding init_part_def by blast
  then show ?thesis using Initialize_part [OF assms(1), of m] by (auto simp: init_part_def)
qed

section \<open>Loading\<close>

text \<open>Rows of the database: one per faction, standings in range.\<close>

definition rows_ok :: "'f rep_env \<Rightarrow> rep_row list \<Rightarrow> bool" where
  "rows_ok env rows \<longleftrightarrow> distinct (map fst rows) \<and>
     (\<forall>(f, s, d) \<in> set rows. \<forall>fe. faction_store env (ucast f) = Some fe \<longrightarrow>
        Reputation_Bottom \<le> GetBaseReputation env (Some fe) + s
        \<and> GetBaseReputation env (Some fe) + s \<le> Reputation_Cap)"

lemma cond_core:
  assumes "rep_core env m" and "sm_find (factions m) k = Some st"
    and "\<exists>m'. r = Inr m' \<and> rep_core env m' \<and> same_standing env m m'"
  shows "\<exists>m' st'. (if c then r else Inr m) = Inr m' \<and> rep_core env m' \<and> same_standing env m m'
    \<and> sm_find (factions m') k = Some st'"
proof (cases c)
  case True
  from assms(3) obtain m' where "r = Inr m'" "rep_core env m'" "same_standing env m m'" by blast
  with True same_standing_find [OF _ assms(2)] show ?thesis by fastforce
qed (use assms in simp)

lemma load_row_inv:
  assumes env: "env_wf env" and m: "rep_inv env m" and fe: "faction_store env (ucast f) = Some fe"
    and st: "sm_find (factions m) (list_key fe) = Some st" "Standing st = 0"
    and rng: "Reputation_Bottom \<le> GetBaseReputation env (Some fe) + s"
      "GetBaseReputation env (Some fe) + s \<le> Reputation_Cap"
    and nn: "0 \<le> reputationListID fe"
  shows "\<exists>m' st'. load_row env (f, s, d) m = Inr m' \<and> rep_inv env m' \<and> others_same (list_key fe) m m'
    \<and> sm_find (factions m') (list_key fe) = Some st' \<and> Standing st' = s"
proof -
  let ?k = "list_key fe" and ?B = "GetBaseReputation env (Some fe)"
  let ?st = "st\<lparr>Standing := s\<rparr>"
  have core: "rep_core env m" and rk: "rank_fields m = rank_counts env m" using m by (simp_all add: rep_inv_def)
  note ent = state_entry [OF env rep_coreD [OF core st(1)] fe refl]
  have B: "Reputation_Bottom \<le> ?B" "?B \<le> Reputation_Cap" using env fe unfolding env_wf_def by blast+
  have st': "?st = st\<lparr>Standing := s, needSend := needSend st, needSave := needSave st\<rparr>" by simp
  have "Reputation_Bottom \<le> s + base_of env st" "s + base_of env st \<le> Reputation_Cap"
    using rng ent(2) by simp_all
  note S = set_standing [OF core st(1) this, where a = "needSend st" and b = "needSave st", folded st']
  have ranks: "state_rank env st = ReputationToRank ?B" "state_rank env ?st = ReputationToRank (i32 (?B + s))"
    using ent(2) st(2) B i32_range [of ?B]
    by (simp_all add: state_rank_def base_of_def add.commute Reputation_Bottom_def Reputation_Cap_def)
  let ?m1 = "UpdateRankCounters (ReputationToRank ?B) (ReputationToRank (i32 (?B + s))) (set_fs ?k ?st m)"
  obtain x y z where xyz: "rank_fields m = (x, y, z)" by (cases "rank_fields m")
  have rc: "rank_counts env m = (x, y, z)" using rk xyz by simp
  have m1: "rep_inv env ?m1"
  proof (rule UpdateRankCounters_inv [where mo = m])
    show "rep_core env (set_fs ?k ?st m)" by (rule S(1))
    show "rank_fields m = (x, y, z)" by (rule xyz)
    show "rank_fields (set_fs ?k ?st m) = rank_fields m" by (simp add: rank_fields_def set_fs_def)
    show "rank_counts env (set_fs ?k ?st m) =
      (x - of_bool (REP_EXALTED \<le> ReputationToRank ?B) + of_bool (REP_EXALTED \<le> ReputationToRank (i32 (?B + s))),
       y - of_bool (REP_REVERED \<le> ReputationToRank ?B) + of_bool (REP_REVERED \<le> ReputationToRank (i32 (?B + s))),
       z - of_bool (REP_HONORED \<le> ReputationToRank ?B) + of_bool (REP_HONORED \<le> ReputationToRank (i32 (?B + s))))"
      by (simp only: S(2) rc prod.case ranks)
  qed simp_all
  then have c1: "rep_core env ?m1" by (simp add: rep_inv_def)
  have f1: "sm_find (factions ?m1) ?k = Some ?st" using core by (simp add: set_fs_def rep_core_def)
  obtain m2 st2 where m2: "(if db_flag d FACTION_FLAG_VISIBLE then SetVisible_state env ?k ?m1 else Inr ?m1) = Inr m2"
    "rep_core env m2" "same_standing env ?m1 m2" "sm_find (factions m2) ?k = Some st2"
    using cond_core [OF c1 f1 SetVisible_state_core [OF c1 f1]] by blast
  obtain m3 st3 where m3: "(if db_flag d FACTION_FLAG_INACTIVE then SetInactive_state ?k True m2 else Inr m2) = Inr m3"
    "rep_core env m3" "same_standing env m2 m3" "sm_find (factions m3) ?k = Some st3"
    using cond_core [OF m2(2,4) SetInactive_state_core [OF m2(2,4)]] by blast
  let ?vis = "has_flag (Flags (sm_at fs_default ?k (factions m3))) FACTION_FLAG_VISIBLE"
  obtain m4 st4 where m4: "(if db_flag d FACTION_FLAG_AT_WAR then SetAtWar_state ?k True m3
      else if ?vis then SetAtWar_state ?k False m3 else Inr m3) = Inr m4"
    "rep_core env m4" "same_standing env m3 m4" "sm_find (factions m4) ?k = Some st4"
    using cond_core [OF m3(2,4) SetAtWar_state_core [OF m3(2,4), of True], of "db_flag d FACTION_FLAG_AT_WAR"]
      cond_core [OF m3(2,4) SetAtWar_state_core [OF m3(2,4), of False], of ?vis]
    by (cases "db_flag d FACTION_FLAG_AT_WAR") auto
  obtain m5 st5 where m5: "(if GetRank env (Some fe) m4 \<le> REP_HOSTILE then SetAtWar_state ?k True m4 else Inr m4) = Inr m5"
    "rep_core env m5" "same_standing env m4 m5" "sm_find (factions m5) ?k = Some st5"
    using cond_core [OF m4(2,4) SetAtWar_state_core [OF m4(2,4)]] by blast
  let ?m6 = "if ucast (Flags st5) = d then set_fs ?k (st5\<lparr>needSend := False, needSave := False\<rparr>) m5 else m5"
  have st5: "st5\<lparr>Flags := Flags st5, needSend := False, needSave := False\<rparr> = st5\<lparr>needSend := False, needSave := False\<rparr>"
    by simp
  have m6: "rep_core env ?m6" "same_standing env m5 ?m6"
    using change_flags [OF m5(2,4), of "Flags st5" False False] m5(2) by (simp_all add: st5)
  have at: "sm_at fs_default ?k (factions m5) = st5" using m5(4) by (simp add: sm_at_def)
  have "load_row env (f, s, d) m = Inr ?m6"
  proof -
    have "sm_at fs_default ?k (factions m) = st" using st(1) by (simp add: sm_at_def)
    then show ?thesis
      by (simp only: load_row_def prod.case fe option.case nn simp_thms if_False Let_def m2(1) m3(1) m4(1) m5(1)
          rbind_Inr at not_not if_True)
  qed
  moreover have ss: "same_standing env ?m1 ?m6"
    using m2(3) m3(3) m4(3) m5(3) m6(2) by (blast intro: same_standing_trans)
  then have "rep_inv env ?m6" using m1 m6(1) by (rule same_standing_inv)
  moreover obtain st6 where "sm_find (factions ?m6) ?k = Some st6" "Standing st6 = s"
    using same_standing_find [OF ss f1] by auto
  moreover have "others_same ?k m ?m6"
    using ss core st(1) \<open>sm_find (factions ?m6) ?k = Some st6\<close>
    by (auto simp: others_same_def same_standing_def set_fs_def rep_core_def)
  ultimately show ?thesis by blast
qed

text \<open>The standing of a key, and the standing a list of rows saves for it.\<close>

definition standing_at :: "rep_mgr \<Rightarrow> u32 \<Rightarrow> int option" where
  "standing_at m k = map_option Standing (sm_find (factions m) k)"

definition row_key :: "'f rep_env \<Rightarrow> u16 \<Rightarrow> u32 option" where
  "row_key env f = (case faction_store env (ucast f) of
     Some fe \<Rightarrow> if 0 \<le> reputationListID fe then Some (list_key fe) else None | None \<Rightarrow> None)"

definition saved_standing :: "'f rep_env \<Rightarrow> rep_row list \<Rightarrow> u32 \<Rightarrow> int option" where
  "saved_standing env rows k =
     map_option (\<lambda>(f, s, d). s) (List.find (\<lambda>(f, s, d). row_key env f = Some k) rows)"

lemma others_same_standing: "others_same k m m' \<Longrightarrow> k' \<noteq> k \<Longrightarrow> standing_at m' k' = standing_at m k'"
  by (cases "sm_find (factions m) k'"; cases "sm_find (factions m') k'")
    (auto simp: others_same_def standing_at_def dest!: spec [of _ k'])

lemma row_key_inj:
  assumes "env_wf env" and "row_key env f = Some k" and "row_key env g = Some k"
  shows "f = g"
proof -
  obtain fe fe' where e: "faction_store env (ucast f) = Some fe" "0 \<le> reputationListID fe" "list_key fe = k"
    "faction_store env (ucast g) = Some fe'" "list_key fe' = k"
    using assms(2,3) by (auto simp: row_key_def split: option.splits if_splits)
  have "(ucast f :: u32) = ucast g"
    by (rule list_key_entry [OF assms(1) e(1,4) _ e(2)]) (simp add: e(3,5))
  moreover have "ucast (ucast h :: u32) = h" for h :: u16
    by (rule ucast_up_ucast_id) (simp add: is_up)
  ultimately show ?thesis by metis
qed

lemma load_rows_inv:
  assumes env: "env_wf env"
  shows "rep_inv env m \<Longrightarrow> rows_ok env rows \<Longrightarrow>
     \<forall>(f, s, d) \<in> set rows. \<forall>k. row_key env f = Some k \<longrightarrow> standing_at m k = Some 0 \<Longrightarrow>
     \<exists>m'. load_rows env rows m = Inr m' \<and> rep_inv env m'
       \<and> (\<forall>k. standing_at m' k = (case saved_standing env rows k of Some s \<Rightarrow> Some s | None \<Rightarrow> standing_at m k))"
proof (induction rows arbitrary: m)
  case Nil
  then show ?case by (simp add: saved_standing_def)
next
  case (Cons r rs)
  obtain f s d where r: "r = (f, s, d)" by (cases r)
  have rs: "rows_ok env rs" using Cons.prems(2) by (auto simp: rows_ok_def)
  show ?case
  proof (cases "row_key env f")
    case None
    then have "load_row env r m = Inr m"
      by (auto simp: r load_row_def row_key_def split: option.splits if_splits)
    with Cons.IH [OF Cons.prems(1) rs] Cons.prems(3) None show ?thesis
      by (auto simp: r saved_standing_def)
  next
    case (Some k)
    then obtain fe where fe: "faction_store env (ucast f) = Some fe" "0 \<le> reputationListID fe" "list_key fe = k"
      by (auto simp: row_key_def split: option.splits if_splits)
    from Cons.prems(3) r Some have "standing_at m k = Some 0" by auto
    then obtain st where st: "sm_find (factions m) (list_key fe) = Some st" "Standing st = 0"
      using fe(3) by (auto simp: standing_at_def)
    have rng: "Reputation_Bottom \<le> GetBaseReputation env (Some fe) + s"
      "GetBaseReputation env (Some fe) + s \<le> Reputation_Cap"
      using Cons.prems(2) r fe(1) by (auto simp: rows_ok_def)
    obtain m1 where m1: "load_row env r m = Inr m1" "rep_inv env m1" "others_same k m m1" "standing_at m1 k = Some s"
      using load_row_inv [OF env Cons.prems(1) fe(1) st rng fe(2), of d] fe(3)
      by (auto simp: r standing_at_def)
    have other: "row_key env g \<noteq> Some k" if "(g, x, y) \<in> set rs" for g x y
    proof
      assume "row_key env g = Some k"
      then have "g = f" using row_key_inj [OF env _ Some] by blast
      with that Cons.prems(2) r show False by (force simp: rows_ok_def)
    qed
    then have none: "saved_standing env rs k = None"
      by (auto simp: saved_standing_def find_None_iff)
    have "\<forall>(g, x, y) \<in> set rs. \<forall>k'. row_key env g = Some k' \<longrightarrow> standing_at m1 k' = Some 0"
    proof (clarify)
      fix g x y k' assume g: "(g, x, y) \<in> set rs" "row_key env g = Some k'"
      with other have "k' \<noteq> k" by auto
      with others_same_standing [OF m1(3)] g Cons.prems(3) show "standing_at m1 k' = Some 0" by force
    qed
    from Cons.IH [OF m1(2) rs this] obtain m' where m': "load_rows env rs m1 = Inr m'" "rep_inv env m'"
      "\<forall>k. standing_at m' k = (case saved_standing env rs k of Some s \<Rightarrow> Some s | None \<Rightarrow> standing_at m1 k)"
      by blast
    have "standing_at m' k' = (case saved_standing env (r # rs) k' of Some s \<Rightarrow> Some s | None \<Rightarrow> standing_at m k')" for k'
      using m'(3) none m1(4) Some others_same_standing [OF m1(3), of k']
      by (cases "k' = k") (auto simp: r saved_standing_def split: option.splits)
    with m1(1) m'(1,2) show ?thesis by auto
  qed
qed

lemma LoadFromDB_inv:
  assumes env: "env_wf env" and rows: "rows_ok env rows"
  shows "\<exists>m'. LoadFromDB env (Some rows) m = Inr m' \<and> rep_inv env m'
    \<and> (\<forall>i fe. faction_store env i = Some fe \<longrightarrow> 0 \<le> reputationListID fe \<longrightarrow>
         standing_at m' (list_key fe) =
           Some (case saved_standing env rows (list_key fe) of Some s \<Rightarrow> s | None \<Rightarrow> 0))"
proof -
  have has: "standing_at (Initialize env m) (list_key fe) = Some 0"
    if "faction_store env i = Some fe" "0 \<le> reputationListID fe" for i fe
    using Initialize_has [OF env that, of m] by (auto simp: standing_at_def)
  then have "\<forall>(f, s, d) \<in> set rows. \<forall>k. row_key env f = Some k \<longrightarrow> standing_at (Initialize env m) k = Some 0"
    by (auto simp: row_key_def split: option.splits if_splits)
  moreover have "rep_inv env (Initialize env m)" using Initialize_part [OF env, of m] by (simp add: init_part_def)
  ultimately obtain m' where m': "load_rows env rows (Initialize env m) = Inr m'" "rep_inv env m'"
    "\<forall>k. standing_at m' k = (case saved_standing env rows k of Some s \<Rightarrow> Some s
       | None \<Rightarrow> standing_at (Initialize env m) k)"
    using load_rows_inv [OF env _ rows] by blast
  with has show ?thesis by (auto simp: LoadFromDB_def Let_def split: option.splits)
qed

section \<open>The initial packet\<close>

text \<open>What the client finds in slot \<open>i\<close>: flags and standing, zero where there is no faction.\<close>

definition slot :: "(u32, FactionState) std_map \<Rightarrow> nat \<Rightarrow> u8 list" where
  "slot es i = (case sm_find es (of_nat i) of
     Some st \<Rightarrow> Flags st # le_bytes (word_of_int (Standing st) :: u32)
   | None \<Rightarrow> 0 # le_bytes (0 :: u32))"

lemma length_slot [simp]: "length (slot es i) = 5"
  by (simp add: slot_def split: option.splits)

lemma fill_absent_emit:
  "wr_ok (5 * n) data \<Longrightarrow> bitpos data = 8 \<Longrightarrow>
     fill_absent n data = Inr (emit (concat (replicate n (0 # le_bytes (0 :: u32)))) data)"
proof (induction n arbitrary: data)
  case 0
  then show ?case by (simp add: emit_Nil)
next
  case (Suc n)
  let ?z = "0 # le_bytes (0 :: u32)"
  have "append_word (0 :: u8) data = Inr (emit [0] data)"
    and "append_word (0 :: u32) (emit [0] data) = Inr (emit ?z data)"
    using Suc.prems by (simp_all add: append_word_emit wr_ok_mono)
  moreover have "wr_ok (5 * n) (emit ?z data)" using Suc.prems(1) by simp
  from Suc.IH [OF this] have "fill_absent n (emit ?z data) = Inr (emit (?z @ concat (replicate n ?z)) data)" by simp
  ultimately show ?case by simp
qed

lemma slot_absent:
  assumes "\<forall>i \<in> {a..<b}. sm_find es (of_nat i) = None"
  shows "concat (map (slot es) [a..<b]) = concat (replicate (b - a) (0 # le_bytes (0 :: u32)))"
proof -
  have "map (slot es) [a..<b] = map (\<lambda>_. 0 # le_bytes (0 :: u32)) [a..<b]"
    using assms by (intro map_cong) (simp_all add: slot_def)
  then show ?thesis by (simp add: map_replicate_const)
qed

lemma unat_diff_of_nat: "a \<le> unat k \<Longrightarrow> unat (k - of_nat a) = unat (k :: u32) - a"
  by (metis le_unat_uoi unat_sub word_le_nat_alt)

lemma initial_loop_emit:
  "sm_inv es \<Longrightarrow> \<forall>(k, st) \<in> set es. a \<le> unat k \<and> unat k < 256 \<Longrightarrow> a \<le> 256 \<Longrightarrow>
     wr_ok (5 * (256 - a)) data \<Longrightarrow> bitpos data = 8 \<Longrightarrow>
     rbind (initial_loop (of_nat a) es data) (\<lambda>(a, data). fill_absent (unat (256 - a)) data) =
       Inr (emit (concat (map (slot es) [a..<256])) data)"
proof (induction es arbitrary: a data)
  case Nil
  have "unat (256 - of_nat a :: u32) = 256 - a" using unat_diff_of_nat [of a 256] Nil.prems(3) by simp
  then show ?case using Nil.prems fill_absent_emit [of "256 - a" data] slot_absent [of a 256 "[]"] by simp
next
  case (Cons e es)
  obtain k st where e: "e = (k, st)" by (cases e)
  have k: "a \<le> unat k" "unat k < 256" using Cons.prems(2) e by auto
  let ?fill = "concat (replicate (unat k - a) (0 # le_bytes (0 :: u32)))"
  let ?row = "Flags st # le_bytes (word_of_int (Standing st) :: u32)"
  have len: "length ?fill = 5 * (unat k - a)" by (simp add: length_concat sum_list_replicate)
  have "wr_ok (5 * (unat k - a)) data" using Cons.prems(4) k by (simp add: wr_ok_mono)
  then have f: "fill_absent (unat (k - of_nat a)) data = Inr (emit ?fill data)"
    using fill_absent_emit Cons.prems(5) unat_diff_of_nat [OF k(1)] by simp
  have ok: "wr_ok (5 + 5 * (256 - Suc (unat k))) (emit ?fill data)"
    unfolding wr_ok_emit len using k by (intro wr_ok_mono [OF Cons.prems(4)]) arith
  have "append_word (Flags st) (emit ?fill data) = Inr (emit (?fill @ [Flags st]) data)"
  proof -
    have "wr_ok (LENGTH(8) div 8) (emit ?fill data)" by (rule wr_ok_mono [OF ok]) simp
    from append_word_emit [OF this, of "Flags st"] show ?thesis by simp
  qed
  moreover have "put_i32 (Standing st) (emit (?fill @ [Flags st]) data) = Inr (emit (?fill @ ?row) data)"
  proof -
    have "wr_ok 4 (emit [Flags st] (emit ?fill data))"
      by (subst wr_ok_emit, rule wr_ok_mono [OF ok]) simp
    from put_i32_emit [OF this, of "Standing st"] show ?thesis by simp
  qed
  ultimately have step: "initial_loop (of_nat a) (e # es) data = initial_loop (k + 1) es (emit (?fill @ ?row) data)"
    using f by (simp add: e)
  have k1: "k + 1 = of_nat (Suc (unat k))" by simp
  have gt: "unat k < unat k'" if "(k', st') \<in> set es" for k' st'
    using Cons.prems(1) e that by (force simp: word_less_nat_alt)
  have "rbind (initial_loop (of_nat (Suc (unat k))) es (emit (?fill @ ?row) data))
      (\<lambda>(a, data). fill_absent (unat (256 - a)) data) =
      Inr (emit (concat (map (slot es) [Suc (unat k)..<256])) (emit (?fill @ ?row) data))"
  proof (rule Cons.IH)
    show "sm_inv es" using Cons.prems(1) e by simp
    show "\<forall>(k', st) \<in> set es. Suc (unat k) \<le> unat k' \<and> unat k' < 256" using gt Cons.prems(2) by fastforce
    show "wr_ok (5 * (256 - Suc (unat k))) (emit (?fill @ ?row) data)"
    proof -
      have "wr_ok (5 * (256 - Suc (unat k))) (emit ?row (emit ?fill data))"
        by (subst wr_ok_emit, rule wr_ok_mono [OF ok]) simp
      then show ?thesis by (simp only: emit_emit)
    qed
  qed (use k in simp_all)
  moreover have "concat (map (slot (e # es)) [a..<256]) =
      ?fill @ ?row @ concat (map (slot es) [Suc (unat k)..<256])"
  proof -
    have split: "[a..<256] = [a..<unat k] @ unat k # [Suc (unat k)..<256]"
      using k by (metis le_add_diff_inverse less_imp_le_nat upt_add_eq_append upt_conv_Cons)
    have "sm_find (e # es) (of_nat i) = None" if "i \<in> {a..<unat k}" for i
    proof -
      have i: "unat (of_nat i :: u32) = i" using that k by (simp add: unat_of_nat)
      have "of_nat i \<noteq> k" using i that by auto
      moreover have "of_nat i \<notin> fst ` set es" using i that gt by force
      ultimately show ?thesis by (simp add: e sm_find_None)
    qed
    then have 1: "concat (map (slot (e # es)) [a..<unat k]) = ?fill" by (intro slot_absent) simp
    have 2: "slot (e # es) (unat k) = ?row" by (simp add: slot_def e)
    have "slot (e # es) i = slot es i" if "i \<in> set [Suc (unat k)..<256]" for i
    proof -
      have "unat (of_nat i :: u32) = i" using that by (simp add: unat_of_nat)
      then have "of_nat i \<noteq> k" using that by auto
      then show ?thesis by (simp add: slot_def e)
    qed
    then have 3: "map (slot (e # es)) [Suc (unat k)..<256] = map (slot es) [Suc (unat k)..<256]"
      by (rule map_cong [OF refl])
    show ?thesis unfolding split map_append concat_append 1 list.map concat.simps 2 3 ..
  qed
  ultimately show ?case unfolding step k1 by simp
qed

lemma SendInitialReputations_result:
  assumes "sm_inv (factions m)" and "\<forall>(k, st) \<in> set (factions m). unat k < 256"
  shows "SendInitialReputations m = Inr (rep_emit [SentPacket SMSG_INITIALIZE_FACTIONS
      (le_bytes (256 :: u32) @ concat (map (slot (factions m)) [0..<256]))]
      (m\<lparr>factions := clear_send (factions m)\<rparr>))"
proof -
  let ?d = "emit (le_bytes (256 :: u32)) bb_empty"
  have "append_word (256 :: u32) bb_empty = Inr ?d"
    by (simp add: append_word_emit wr_ok_def bb_empty_def)
  moreover have "wr_ok (5 * (256 - 0)) ?d" by (simp add: wr_ok_def bb_empty_def)
  with assms have "rbind (initial_loop (of_nat 0) (factions m) ?d) (\<lambda>(a, data). fill_absent (unat (256 - a)) data) =
      Inr (emit (concat (map (slot (factions m)) [0..<256])) ?d)"
    by (intro initial_loop_emit) auto
  ultimately show ?thesis
    by (simp only: SendInitialReputations_def rbind_Inr pk_simps of_nat_0)
      (simp add: send_to_player_def bb_empty_def)
qed

lemma rep_core_keys:
  assumes "env_wf env" and "rep_core env m"
  shows "\<forall>(k, st) \<in> set (factions m). unat k < 256"
proof (clarify)
  fix k st assume "(k, st) \<in> set (factions m)"
  with assms(2) have "fs_ok env k st" by (auto simp: rep_core_def)
  then obtain fe where fe: "faction_store env (fs_ID st) = Some fe" "0 \<le> reputationListID fe" "list_key fe = k"
    by (auto simp: fs_ok_def)
  moreover have "reputationListID fe < 256" using assms(1) fe(1) unfolding env_wf_def by blast
  moreover from this fe(2) have "uint (word_of_int (reputationListID fe) :: u32) = reputationListID fe"
    by (simp add: uint_word_of_int_eq take_bit_int_eq_self)
  ultimately show "unat k < 256" by (simp add: list_key_def unat_eq_nat_uint)
qed

section \<open>Everything a session can do\<close>

text \<open>
  The managers that can be reached from loading by the public operations, in any order and
  with any arguments.
\<close>

inductive rep_reachable :: "'f rep_env \<Rightarrow> rep_mgr \<Rightarrow> bool" for env :: "'f rep_env" where
  load: "rows_ok env rows \<Longrightarrow> LoadFromDB env (Some rows) m0 = Inr m \<Longrightarrow> rep_reachable env m"
| load_nothing: "LoadFromDB env None m0 = Inr m \<Longrightarrow> rep_reachable env m"
| set_reputation: "rep_reachable env m \<Longrightarrow> faction_store env i = Some fe \<Longrightarrow>
    SetReputation env fe standing incremental m = Inr (r, m') \<Longrightarrow> rep_reachable env m'"
| set_one: "rep_reachable env m \<Longrightarrow> faction_store env i = Some fe \<Longrightarrow>
    SetOneFactionReputation env (Some fe) standing incremental m = Inr (r, m') \<Longrightarrow> rep_reachable env m'"
| visible: "rep_reachable env m \<Longrightarrow> SetVisible env fe m = Inr m' \<Longrightarrow> rep_reachable env m'"
| visible_template: "rep_reachable env m \<Longrightarrow> SetVisible_template env faction m = Inr m' \<Longrightarrow> rep_reachable env m'"
| at_war: "rep_reachable env m \<Longrightarrow> SetAtWar k on m = Inr m' \<Longrightarrow> rep_reachable env m'"
| inactive: "rep_reachable env m \<Longrightarrow> SetInactive k on m = Inr m' \<Longrightarrow> rep_reachable env m'"
| force_reaction: "rep_reachable env m \<Longrightarrow> rep_reachable env (ApplyForceReaction faction rank on m)"
| send_forced: "rep_reachable env m \<Longrightarrow> SendForceReactions m = Inr m' \<Longrightarrow> rep_reachable env m'"
| send_initial: "rep_reachable env m \<Longrightarrow> SendInitialReputations m = Inr m' \<Longrightarrow> rep_reachable env m'"
| send_states: "rep_reachable env m \<Longrightarrow> SendStates m = Inr m' \<Longrightarrow> rep_reachable env m'"
| save: "rep_reachable env m \<Longrightarrow> rep_reachable env (SaveToDB m)"

lemma SetVisible_inv:
  assumes "rep_inv env m" and "SetVisible env fe m = Inr m'"
  shows "rep_inv env m'"
proof (cases "reputationListID fe < 0 \<or> sm_find (factions m) (list_key fe) = None")
  case True
  with assms show ?thesis by (auto simp: SetVisible_def split: if_splits)
next
  case False
  then obtain st where st: "sm_find (factions m) (list_key fe) = Some st" by auto
  from SetVisible_state_core [OF _ st] assms(1) obtain m1 where
    m1: "SetVisible_state env (list_key fe) m = Inr m1" "rep_core env m1" "same_standing env m m1"
    unfolding rep_inv_def by blast
  with assms(2) st False have "m' = m1" by (simp add: SetVisible_def)
  with m1 same_standing_inv [OF m1(3) assms(1)] show ?thesis by simp
qed

lemma SetAtWar_inv:
  assumes "rep_inv env m" and "SetAtWar k on m = Inr m'"
  shows "rep_inv env m'"
proof -
  have core: "rep_core env m" using assms(1) by (simp add: rep_inv_def)
  show ?thesis
  proof (cases "sm_find (factions m) k")
    case (Some st)
    obtain m1 where m1: "SetAtWar_state k on m = Inr m1" "rep_core env m1" "same_standing env m m1"
      using SetAtWar_state_core [OF core Some] by blast
    with same_standing_inv [OF m1(3) assms(1)] assms Some show ?thesis by (auto simp: SetAtWar_def split: if_splits)
  qed (use assms in \<open>simp add: SetAtWar_def\<close>)
qed

lemma SetInactive_inv:
  assumes "rep_inv env m" and "SetInactive k on m = Inr m'"
  shows "rep_inv env m'"
proof -
  have core: "rep_core env m" using assms(1) by (simp add: rep_inv_def)
  show ?thesis
  proof (cases "sm_find (factions m) k")
    case (Some st)
    obtain m1 where m1: "SetInactive_state k on m = Inr m1" "rep_core env m1" "same_standing env m m1"
      using SetInactive_state_core [OF core Some] by blast
    with same_standing_inv [OF m1(3) assms(1)] assms Some show ?thesis by (auto simp: SetInactive_def)
  qed (use assms in \<open>simp add: SetInactive_def\<close>)
qed

lemma send_states_loop_inv:
  "env_wf env \<Longrightarrow> rep_inv env m \<Longrightarrow> send_states_loop ks m = Inr m' \<Longrightarrow> rep_inv env m'"
proof (induction ks arbitrary: m)
  case (Cons k ks)
  then obtain m1 where m1: "SendState k m = Inr m1" "send_states_loop ks m1 = Inr m'"
    by (auto simp: rbind_eq_Inr)
  then obtain f where "sm_find (factions m) k = Some f" by (auto simp: SendState_def split: option.splits)
  from SendState_inv [OF Cons.prems(1,2) this] m1(1) have "rep_inv env m1" by auto
  with Cons m1(2) show ?case by blast
qed simp

lemma fst_save_loop: "fst (save_loop es) = map (\<lambda>(k, st). (k, st\<lparr>needSave := False\<rparr>)) es"
proof (induction es)
  case (Cons e es)
  have "\<not> needSave st \<Longrightarrow> st\<lparr>needSave := False\<rparr> = st" for st :: FactionState by (cases st) simp
  with Cons show ?case by (cases e) (auto split: prod.splits)
qed simp

lemma SaveToDB_inv: "rep_inv env m \<Longrightarrow> rep_inv env (SaveToDB m)"
proof -
  assume m: "rep_inv env m"
  have "factions (SaveToDB m) = map (\<lambda>(k, st). (k, st\<lparr>needSave := False\<rparr>)) (factions m)"
    using fst_save_loop [of "factions m"] by (simp add: SaveToDB_def case_prod_unfold)
  from map_states_inv(1) [OF m keeps_state_simps(2) this] show ?thesis
    by (simp add: SaveToDB_def rep_emit_def rank_fields_def case_prod_unfold)
qed

lemma rep_reachable_inv:
  assumes env: "env_wf env"
  shows "rep_reachable env m \<Longrightarrow> rep_inv env m"
proof (induction rule: rep_reachable.induct)
  case (load rows m0 m)
  with LoadFromDB_inv [OF env load(1), of m0] show ?case by auto
next
  case (load_nothing m0 m)
  with Initialize_part [OF env, of m0] show ?case by (simp add: LoadFromDB_def init_part_def)
next
  case (set_reputation m i fe standing incremental r m')
  with SetReputation_inv [OF env, of m i fe standing incremental] show ?case by auto
next
  case (set_one m i fe standing incremental r m')
  with SetOne_total [OF env, of m i fe standing incremental] show ?case by auto
next
  case (visible m fe m')
  then show ?case by (blast intro: SetVisible_inv)
next
  case (visible_template m faction m')
  then show ?case by (auto simp: SetVisible_template_def intro: SetVisible_inv split: option.splits if_splits)
next
  case (at_war m k on m')
  then show ?case by (blast intro: SetAtWar_inv)
next
  case (inactive m k on m')
  then show ?case by (blast intro: SetInactive_inv)
next
  case (force_reaction m faction rank on)
  then show ?case by (simp add: rep_inv_def rep_core_def rank_fields_def rank_counts_def ApplyForceReaction_def)
next
  case (send_forced m m')
  then show ?case by (auto simp: SendForceReactions_def rbind_eq_Inr send_to_player_def rep_inv_def)
next
  case (send_initial m m')
  have core: "rep_core env m" using send_initial.IH by (simp add: rep_inv_def)
  from SendInitialReputations_result [OF _ rep_core_keys [OF env core]] core send_initial.hyps(2)
  have m': "m' = rep_emit [SentPacket SMSG_INITIALIZE_FACTIONS
      (le_bytes (256 :: u32) @ concat (map (slot (factions m)) [0..<256]))] (m\<lparr>factions := clear_send (factions m)\<rparr>)"
    by auto
  show ?case
    by (rule map_states_inv(1) [OF send_initial.IH keeps_state_simps(1) [of False]])
      (simp_all add: m' rep_emit_def rank_fields_def)
next
  case (send_states m m')
  then show ?case using send_states_loop_inv [OF env] by (auto simp: SendStates_def)
next
  case (save m)
  show ?case using save.IH by (rule SaveToDB_inv)
qed

section \<open>Properties\<close>

text \<open>The rank of a standing is given by the thresholds of the client, on the whole range of
  \<^verbatim>\<open>int32\<close>: the descending loop over \<^verbatim>\<open>PointsInRank\<close> computes them.\<close>

theorem ReputationToRank_thresholds:
  "ReputationToRank s =
     (if s < -6000 then REP_HATED else if s < -3000 then REP_HOSTILE else if s < 0 then REP_UNFRIENDLY
      else if s < 3000 then REP_NEUTRAL else if s < 9000 then REP_FRIENDLY
      else if s < 21000 then REP_HONORED else if s < 42000 then REP_REVERED else REP_EXALTED)"
  by (simp add: ReputationToRank_def PointsInRank_def Reputation_Cap_def)

text \<open>An example of the data files: three factions, the last two in one team, with whole rates.\<close>

definition faction_example :: "u32 \<Rightarrow> int \<Rightarrow> int \<Rightarrow> u32 \<Rightarrow> int FactionEntry" where
  "faction_example i list base flags = \<lparr>fe_ID = i, reputationListID = list,
     BaseRepRaceMask = (\<lambda>j. if j = 0 then 1 else 0), BaseRepClassMask = (\<lambda>_. 0),
     BaseRepValue = (\<lambda>_. base), ReputationFlags = (\<lambda>_. flags), fe_team = (if i = 21 then 0 else 169),
     spilloverRateIn = 1, spilloverRateOut = 1, spilloverMaxRankIn = 6\<rparr>"

definition env_example :: "int rep_env" where
  "env_example = \<lparr>fl = \<lparr>f_of_int = (\<lambda>x. x), f_mul = (*), f_trunc = (\<lambda>x. x), f_round = (\<lambda>x. x), f_zero = 0\<rparr>,
     faction_store = (\<lambda>i. if i = 21 then Some (faction_example 21 1 500 0x11)
                         else if i = 47 then Some (faction_example 47 19 3100 0x01)
                         else if i = 54 then Some (faction_example 54 18 (-42000) 0x02) else None),
     num_rows = 100, spillover_template = (\<lambda>_. None),
     team_list = (\<lambda>i. if i = 169 then Some [47, 54] else None), race_mask = 1, class_mask = 1,
     player_level = 80, player_loading = False, is_premium = False, rate_gain = 1, rate_gain_premium = 1\<rparr>"

lemma env_example_base:
  "GetBaseReputation env_example (Some (faction_example i l b f)) = b"
  by (simp add: GetBaseReputation_def base_slot_def env_example_def faction_example_def)

lemma env_example_wf: "env_wf env_example"
  unfolding env_wf_def
proof (intro conjI)
  show "\<forall>i fe. faction_store env_example i = Some fe \<longrightarrow> fe_ID fe = i \<and> reputationListID fe < 256
      \<and> - (2 ^ 31) \<le> reputationListID fe
      \<and> Reputation_Bottom \<le> GetBaseReputation env_example (Some fe)
      \<and> GetBaseReputation env_example (Some fe) \<le> Reputation_Cap"
  proof (intro allI impI)
    fix i fe assume "faction_store env_example i = Some fe"
    then consider "i = 21" "fe = faction_example 21 1 500 0x11" | "i = 47" "fe = faction_example 47 19 3100 0x01"
      | "i = 54" "fe = faction_example 54 18 (-42000) 0x02"
      by (auto simp: env_example_def split: if_splits)
    then show "fe_ID fe = i \<and> reputationListID fe < 256 \<and> - (2 ^ 31) \<le> reputationListID fe
        \<and> Reputation_Bottom \<le> GetBaseReputation env_example (Some fe)
        \<and> GetBaseReputation env_example (Some fe) \<le> Reputation_Cap"
      by cases (simp_all add: env_example_base, simp_all add: faction_example_def Reputation_Bottom_def Reputation_Cap_def)
  qed
  show "\<forall>i j fe fe'. faction_store env_example i = Some fe \<longrightarrow> faction_store env_example j = Some fe' \<longrightarrow>
      0 \<le> reputationListID fe \<longrightarrow> reputationListID fe = reputationListID fe' \<longrightarrow> i = j"
    by (auto simp: env_example_def faction_example_def split: if_splits)
  show "\<forall>i. faction_store env_example i \<noteq> None \<longrightarrow> 0 < i \<and> unat i < num_rows env_example"
    by (auto simp: env_example_def split: if_splits)
qed (simp_all add: env_example_def)

text \<open>C3: along every session, whatever is loaded, set, toggled, sent and saved in whatever order:
  the counters of exalted, revered, honored and visible factions are the numbers of those
  factions (modulo 256), every reputation is between the bottom and the cap, a hidden or
  invisible faction without the special flag is not shown unless the data file shows it, and a
  faction with forced peace is not at war unless the data file says so.\<close>

theorem reputation_session_invariant:
  assumes "env_wf env" and "rep_reachable env m"
  shows "exaltedFactionCount m = of_nat (length (filter (\<lambda>(k, st). REP_EXALTED \<le> state_rank env st) (factions m)))
    \<and> reveredFactionCount m = of_nat (length (filter (\<lambda>(k, st). REP_REVERED \<le> state_rank env st) (factions m)))
    \<and> honoredFactionCount m = of_nat (length (filter (\<lambda>(k, st). REP_HONORED \<le> state_rank env st) (factions m)))
    \<and> visibleFactionCount m =
        of_nat (length (filter (\<lambda>(k, st). has_flag (Flags st) FACTION_FLAG_VISIBLE) (factions m)))
    \<and> (\<forall>(k, st) \<in> set (factions m).
        Reputation_Bottom \<le> Standing st + base_of env st \<and> Standing st + base_of env st \<le> Reputation_Cap
        \<and> flags_ok (ucast (GetDefaultStateFlags env (faction_store env (fs_ID st)))) (Flags st))"
proof -
  have c: "count8 P es = of_nat (length (filter (\<lambda>(k, st). P k st) es))" for P es
    unfolding count8_def sm.count_if_def by (metis id_apply mset_filter size_mset)
  from rep_reachable_inv [OF assms] have inv: "rep_core env m" "rank_fields m = rank_counts env m"
    by (simp_all add: rep_inv_def)
  have "\<forall>(k, st) \<in> set (factions m). fs_ok env k st" using inv(1) by (simp add: rep_core_def)
  then have "\<forall>(k, st) \<in> set (factions m).
        Reputation_Bottom \<le> Standing st + base_of env st \<and> Standing st + base_of env st \<le> Reputation_Cap
        \<and> flags_ok (ucast (GetDefaultStateFlags env (faction_store env (fs_ID st)))) (Flags st)"
    by (fastforce simp: fs_ok_def)
  moreover have "visibleFactionCount m = count8 (\<lambda>k st. bit (Flags st) 0) (factions m)"
    using inv(1) by (simp add: rep_core_def)
  ultimately show ?thesis using inv(2) by (simp add: rank_fields_def rank_counts_def c)
qed

lemma env_example_reachable: "\<exists>m. rep_reachable env_example m"
proof -
  have ok: "rows_ok env_example []" by (simp add: rows_ok_def)
  then obtain m where "LoadFromDB env_example (Some []) rep_new = Inr m"
    using LoadFromDB_inv [OF env_example_wf, of "[]" rep_new] by blast
  from rep_reachable.load [OF ok this] show ?thesis ..
qed

theorem reputation_session_invariant_witness:
  "\<exists>m. rep_reachable env_example m \<and> visibleFactionCount m =
     of_nat (length (filter (\<lambda>(k, st). has_flag (Flags st) FACTION_FLAG_VISIBLE) (factions m)))"
proof -
  obtain m where m: "rep_reachable env_example m" using env_example_reachable ..
  from reputation_session_invariant [OF env_example_wf m] m show ?thesis by (intro exI [of _ m]) simp
qed

text \<open>C24: setting a faction's reputation outright, with any spillover the data files ask for, always
  succeeds and leaves the faction at the value asked for, clamped to the range; it reports
  success, and the invariant still holds.\<close>

theorem SetReputation_sets:
  assumes "env_wf env" and "rep_reachable env m" and "faction_store env i = Some fe"
    and "GetState fe m \<noteq> None"
  shows "\<exists>m'. SetReputation env fe standing False m = Inr (True, m') \<and> rep_reachable env m'
    \<and> GetReputation env (Some fe) m' = max Reputation_Bottom (min Reputation_Cap standing)"
proof -
  have "sm_find (factions m) (list_key fe) \<noteq> None"
    using assms(4) by (auto simp: GetState_def GetState_id_def split: if_splits)
  with SetReputation_inv [OF assms(1) rep_reachable_inv [OF assms(1,2)] assms(3), of standing False]
  obtain m' where m': "SetReputation env fe standing False m = Inr (True, m')"
    "GetReputation env (Some fe) m' = clamp_standing standing" by auto
  moreover have "rep_reachable env m'" using assms(2,3) m'(1) by (rule rep_reachable.set_reputation)
  ultimately show ?thesis
    by (auto simp: clamp_standing_def Reputation_Bottom_def Reputation_Cap_def)
qed

theorem SetReputation_sets_witness:
  "\<exists>m m'. SetReputation env_example (faction_example 47 19 3100 0x01) 50000 False m = Inr (True, m')
    \<and> GetReputation env_example (Some (faction_example 47 19 3100 0x01)) m' = 42999"
proof -
  let ?fe = "faction_example 47 19 3100 0x01"
  have fe: "faction_store env_example 47 = Some ?fe" "0 \<le> reputationListID ?fe"
    by (simp_all add: env_example_def faction_example_def)
  obtain m where m: "LoadFromDB env_example (Some []) rep_new = Inr m" "standing_at m (list_key ?fe) = Some 0"
    using LoadFromDB_inv [OF env_example_wf, of "[]" rep_new] fe
    by (fastforce simp: rows_ok_def saved_standing_def)
  have "rep_reachable env_example m" by (rule rep_reachable.load [OF _ m(1)]) (simp add: rows_ok_def)
  moreover have "GetState ?fe m \<noteq> None"
    using m(2) fe(2) by (auto simp: GetState_def GetState_id_def CanHaveReputation_def standing_at_def)
  ultimately show ?thesis
    using SetReputation_sets [OF env_example_wf _ fe(1), of m 50000]
    by (auto simp: Reputation_Bottom_def Reputation_Cap_def)
qed

text \<open>C25: after a load every standing is the one its row has saved, or zero where there is no row,
  and the manager is one of those the session invariant is about.\<close>

theorem LoadFromDB_restores:
  assumes "env_wf env" and "rows_ok env rows"
  shows "\<exists>m'. LoadFromDB env (Some rows) m = Inr m' \<and> rep_reachable env m'
    \<and> (\<forall>i fe. faction_store env i = Some fe \<longrightarrow> 0 \<le> reputationListID fe \<longrightarrow>
         standing_at m' (list_key fe) =
           Some (case saved_standing env rows (list_key fe) of Some s \<Rightarrow> s | None \<Rightarrow> 0))"
proof -
  obtain m' where m': "LoadFromDB env (Some rows) m = Inr m'"
    "\<forall>i fe. faction_store env i = Some fe \<longrightarrow> 0 \<le> reputationListID fe \<longrightarrow>
       standing_at m' (list_key fe) = Some (case saved_standing env rows (list_key fe) of Some s \<Rightarrow> s | None \<Rightarrow> 0)"
    using LoadFromDB_inv [OF assms, of m] by blast
  with rep_reachable.load [OF assms(2) m'(1)] show ?thesis by blast
qed

theorem LoadFromDB_restores_witness:
  "\<exists>m'. LoadFromDB env_example (Some [(47, 1500, 0x03), (21, -700, 0x11)]) rep_new = Inr m'
    \<and> standing_at m' 19 = Some 1500 \<and> standing_at m' 1 = Some (-700)"
proof -
  let ?rows = "[(47, 1500, 0x03), (21, -700, 0x11)] :: rep_row list"
  have "rows_ok env_example ?rows"
    by (auto simp: rows_ok_def) (auto simp: env_example_def [of] split: if_splits
        simp: env_example_base [unfolded env_example_def] Reputation_Bottom_def Reputation_Cap_def)
  from LoadFromDB_restores [OF env_example_wf this, of rep_new] obtain m' where
    m': "LoadFromDB env_example (Some ?rows) rep_new = Inr m'"
    "\<forall>i fe. faction_store env_example i = Some fe \<longrightarrow> 0 \<le> reputationListID fe \<longrightarrow>
       standing_at m' (list_key fe) =
         Some (case saved_standing env_example ?rows (list_key fe) of Some s \<Rightarrow> s | None \<Rightarrow> 0)" by blast
  have s: "faction_store env_example 47 = Some (faction_example 47 19 3100 0x01)"
    "faction_store env_example 21 = Some (faction_example 21 1 500 0x11)"
    by (simp_all add: env_example_def)
  have k: "list_key (faction_example 47 19 3100 0x01) = 19" "list_key (faction_example 21 1 500 0x11) = 1"
    "0 \<le> reputationListID (faction_example 47 19 3100 0x01)" "0 \<le> reputationListID (faction_example 21 1 500 0x11)"
    by (simp_all add: faction_example_def list_key_def)
  have "row_key env_example 47 = Some 19" "row_key env_example 21 = Some 1"
    using s k by (simp_all add: row_key_def)
  then have "saved_standing env_example ?rows 19 = Some 1500" "saved_standing env_example ?rows 1 = Some (-700)"
    by (simp_all add: saved_standing_def)
  with m'(1) m'(2) [rule_format, OF s(1) k(3)] m'(2) [rule_format, OF s(2) k(4)] k(1,2) show ?thesis by auto
qed

text \<open>The initial list sent to the client has its fixed 1284 bytes: the count 256 and then, for every
  index below 256, one flag byte and the 32-bit standing of the faction with that index, zeros where
  the player has none.\<close>

theorem SendInitialReputations_layout:
  assumes "env_wf env" and "rep_reachable env m"
  shows "\<exists>m' body. SendInitialReputations m = Inr m'
    \<and> rep_out m' = rep_out m @ [SentPacket SMSG_INITIALIZE_FACTIONS body]
    \<and> length body = 4 + 256 * 5 \<and> take 4 body = le_bytes (256 :: u32)
    \<and> (\<forall>i < 256. take 5 (drop (4 + 5 * i) body) = (case sm_find (factions m) (of_nat i) of
          Some st \<Rightarrow> Flags st # le_bytes (word_of_int (Standing st) :: u32) | None \<Rightarrow> [0, 0, 0, 0, 0]))"
proof -
  have core: "rep_core env m" using rep_reachable_inv [OF assms] by (simp add: rep_inv_def)
  let ?slots = "map (slot (factions m)) [0..<256]"
  have sm: "sm_inv (factions m)" using core by auto
  note r = SendInitialReputations_result [OF sm rep_core_keys [OF assms(1) core]]
  have len: "length (concat (map (slot es) is)) = 5 * length is" for es "is"
    by (induction "is") simp_all
  have nth: "take 5 (drop (5 * i) (concat (map (slot es) is))) = slot es (is ! i)" if "i < length is" for es "is" i
    using that
  proof (induction "is" arbitrary: i)
    case (Cons j js)
    then show ?case by (cases i) simp_all
  qed simp
  have z: "0 # le_bytes (0 :: u32) = [0, 0, 0, 0, 0]" by (simp add: le_bytes_def word_size upt_rec)
  have "take 5 (drop (4 + 5 * i) (le_bytes (256 :: u32) @ concat ?slots)) = slot (factions m) i" if "i < 256" for i
    using nth [of i "[0..<256]" "factions m"] that by simp
  moreover have "slot (factions m) i = (case sm_find (factions m) (of_nat i) of
      Some st \<Rightarrow> Flags st # le_bytes (word_of_int (Standing st) :: u32) | None \<Rightarrow> [0, 0, 0, 0, 0])" for i
    using z by (simp add: slot_def split: option.split)
  ultimately show ?thesis
    using r len [of "factions m" "[0..<256]"] by (auto simp: rep_emit_def)
qed

theorem SendInitialReputations_layout_witness:
  "\<exists>m m' body. rep_reachable env_example m \<and> SendInitialReputations m = Inr m'
     \<and> rep_out m' = rep_out m @ [SentPacket SMSG_INITIALIZE_FACTIONS body] \<and> length body = 1284"
proof -
  obtain m where m: "rep_reachable env_example m" using env_example_reachable ..
  from SendInitialReputations_layout [OF env_example_wf m] m show ?thesis by fastforce
qed

end
