(* ===== verification/LFG_Roles.thy ===== *)
theory LFG_Roles
  imports Std_Map
begin

text \<open>
  The role search of the dungeon finder: \<^verbatim>\<open>LFGMgr::CheckGroupRoles\<close>
  (\<^verbatim>\<open>src/src/server/game/DungeonFinding/LFGMgr.cpp\<close>), which decides whether the players of a
  would-be group can each be given one of the roles they offered, and the constants of
  \<^verbatim>\<open>LFG.h\<close>. The search calls itself on a map with one role less; \<open>role_bits\<close> bounds the depth.
\<close>

section \<open>Roles\<close>

type_synonym roles_map = "(u64, u8) std_map"

definition PLAYER_ROLE_NONE :: u8 where "PLAYER_ROLE_NONE = 0"
definition PLAYER_ROLE_LEADER :: u8 where "PLAYER_ROLE_LEADER = 1"
definition PLAYER_ROLE_TANK :: u8 where "PLAYER_ROLE_TANK = 2"
definition PLAYER_ROLE_HEALER :: u8 where "PLAYER_ROLE_HEALER = 4"
definition PLAYER_ROLE_DAMAGE :: u8 where "PLAYER_ROLE_DAMAGE = 8"

definition LFG_TANKS_NEEDED :: u8 where "LFG_TANKS_NEEDED = 1"
definition LFG_HEALERS_NEEDED :: u8 where "LFG_HEALERS_NEEDED = 1"
definition LFG_DPS_NEEDED :: u8 where "LFG_DPS_NEEDED = 3"

lemmas role_defs = PLAYER_ROLE_NONE_def PLAYER_ROLE_LEADER_def PLAYER_ROLE_TANK_def
  PLAYER_ROLE_HEALER_def PLAYER_ROLE_DAMAGE_def
lemmas needed_defs = LFG_TANKS_NEEDED_def LFG_HEALERS_NEEDED_def LFG_DPS_NEEDED_def

section \<open>The search\<close>

text \<open>
  One of the three blocks of the loop body, for the role \<open>role\<close> of the \<open>i\<close>-th player: \<open>Return\<close> is
  a return of the function, \<open>Next\<close> going on with the map and the counter; \<open>None\<close> is a recursive
  call that ran out of fuel.
\<close>

datatype role_step = Return bool roles_map | Next roles_map u8

definition role_at :: "nat \<Rightarrow> u8 \<Rightarrow> roles_map \<Rightarrow> roles_map" where
  "role_at i r groles = groles[i := (fst (groles ! i), r)]"

definition try_role ::
  "(roles_map \<Rightarrow> (bool \<times> roles_map) option) \<Rightarrow> nat \<Rightarrow> u8 \<Rightarrow> u8 \<Rightarrow> roles_map \<Rightarrow> u8 \<Rightarrow> role_step option" where
  "try_role check i role needed groles counter =
     (let second = snd (groles ! i) in
      if second AND role = 0 then Some (Next groles counter)
      else if second \<noteq> role then
        (case check (role_at i (second - role) groles) of
           None \<Rightarrow> None
         | Some (True, groles) \<Rightarrow> Some (Return True groles)
         | Some (False, groles) \<Rightarrow> Some (Next (role_at i (snd (groles ! i) + role) groles) counter))
      else if counter = needed then Some (Return False groles)
      else Some (Next groles (counter + 1)))"

fun roles_loop ::
  "(roles_map \<Rightarrow> (bool \<times> roles_map) option) \<Rightarrow> nat list \<Rightarrow> roles_map \<Rightarrow> u8 \<Rightarrow> u8 \<Rightarrow> u8 \<Rightarrow>
     (bool \<times> roles_map) option" where
  "roles_loop check [] groles damage healer tank =
     Some (unat tank + unat healer + unat damage = length groles mod 256, groles)"
| "roles_loop check (i # is) groles damage healer tank =
     (if snd (groles ! i) = PLAYER_ROLE_NONE then Some (False, groles)
      else case try_role check i PLAYER_ROLE_DAMAGE LFG_DPS_NEEDED groles damage of
        None \<Rightarrow> None
      | Some (Return b groles) \<Rightarrow> Some (b, groles)
      | Some (Next groles damage) \<Rightarrow>
      (case try_role check i PLAYER_ROLE_HEALER LFG_HEALERS_NEEDED groles healer of
        None \<Rightarrow> None
      | Some (Return b groles) \<Rightarrow> Some (b, groles)
      | Some (Next groles healer) \<Rightarrow>
      (case try_role check i PLAYER_ROLE_TANK LFG_TANKS_NEEDED groles tank of
        None \<Rightarrow> None
      | Some (Return b groles) \<Rightarrow> Some (b, groles)
      | Some (Next groles tank) \<Rightarrow> roles_loop check is groles damage healer tank)))"

fun check_roles :: "nat \<Rightarrow> roles_map \<Rightarrow> (bool \<times> roles_map) option" where
  "check_roles 0 groles = None"
| "check_roles (Suc fuel) groles =
     (if groles = [] then Some (False, groles)
      else roles_loop (check_roles fuel) [0..<length groles] groles 0 0 0)"

definition remove_leader_flags :: "roles_map \<Rightarrow> roles_map" where
  "remove_leader_flags groles = map (\<lambda>(guid, r). (guid, r AND NOT PLAYER_ROLE_LEADER)) groles"

definition CheckGroupRoles :: "roles_map \<Rightarrow> (bool \<times> roles_map) option" where
  "CheckGroupRoles groles = check_roles (Suc (3 * length groles)) (remove_leader_flags groles)"

section \<open>What it decides\<close>

text \<open>
  \<open>assignment rs as\<close>: every player gets one role out of those he offers; \<open>as\<close> is a group when
  no role is given more often than the group needs it.
\<close>

definition playable :: "u8 set" where
  "playable = {PLAYER_ROLE_TANK, PLAYER_ROLE_HEALER, PLAYER_ROLE_DAMAGE}"

definition assignment :: "u8 list \<Rightarrow> u8 list \<Rightarrow> bool" where
  "assignment rs as \<longleftrightarrow> list_all2 (\<lambda>r a. a \<in> playable \<and> r AND a \<noteq> 0) rs as"

definition is_group :: "u8 list \<Rightarrow> bool" where
  "is_group as \<longleftrightarrow> set as \<subseteq> playable
     \<and> count_list as PLAYER_ROLE_DAMAGE \<le> unat LFG_DPS_NEEDED
     \<and> count_list as PLAYER_ROLE_HEALER \<le> unat LFG_HEALERS_NEEDED
     \<and> count_list as PLAYER_ROLE_TANK \<le> unat LFG_TANKS_NEEDED"

definition can_group :: "u8 list \<Rightarrow> bool" where
  "can_group rs \<longleftrightarrow> (\<exists>as. assignment rs as \<and> is_group as)"

text \<open>The role values there are, once the leader flag is cleared.\<close>

definition role_ok :: "u8 \<Rightarrow> bool" where
  "role_ok r \<longleftrightarrow> r \<in> {0, 2, 4, 6, 8, 10, 12, 14}"

section \<open>One role less\<close>

lemma playable_cases:
  assumes "x \<in> playable"
  obtains "x = 2" | "x = 4" | "x = 8"
  using assms by (auto simp: playable_def role_defs)

lemma role_cases:
  assumes "role_ok r"
  obtains "r = 0" | "r = 2" | "r = 4" | "r = 6" | "r = 8" | "r = 10" | "r = 12" | "r = 14"
  using assms by (auto simp: role_ok_def)

lemma playable_nums: "2 \<in> playable" "4 \<in> playable" "8 \<in> playable"
  "0 \<notin> playable" "6 \<notin> playable" "10 \<notin> playable" "12 \<notin> playable" "14 \<notin> playable"
  by (simp_all add: playable_def role_defs)

lemma role_ok_nums: "role_ok 0" "role_ok 2" "role_ok 4" "role_ok 6" "role_ok 8" "role_ok 10" "role_ok 12"
  by (simp_all add: role_ok_def)

lemma role_less:
  assumes "role_ok r" and "x \<in> playable" and "r AND x \<noteq> 0" and "r \<noteq> x"
  shows "role_ok (r - x)" and "r - x + x = r" and "r - x \<noteq> 0"
proof -
  have "role_ok (r - x) \<and> r - x + x = r \<and> r - x \<noteq> 0"
    using assms by (elim role_cases playable_cases; simp add: role_ok_nums)
  then show "role_ok (r - x)" and "r - x + x = r" and "r - x \<noteq> 0" by auto
qed

lemma role_less_and:
  assumes "role_ok r" and "x \<in> playable" and "r AND x \<noteq> 0" and "y \<in> playable"
  shows "(r - x) AND y \<noteq> 0 \<longleftrightarrow> r AND y \<noteq> 0 \<and> y \<noteq> x"
  using assms by (elim role_cases playable_cases; simp)

lemma role_single: "x \<in> playable \<Longrightarrow> y \<in> playable \<Longrightarrow> x AND y \<noteq> 0 \<longleftrightarrow> y = x"
  by (elim playable_cases; simp)

lemma role_two:
  assumes "role_ok r" and "r \<noteq> 0" and "r \<notin> playable" and "x \<in> playable"
  shows "\<exists>y\<in>playable. y \<noteq> x \<and> r AND y \<noteq> 0"
proof -
  have "(2 \<noteq> x \<and> r AND 2 \<noteq> 0) \<or> (4 \<noteq> x \<and> r AND 4 \<noteq> 0) \<or> (8 \<noteq> x \<and> r AND 8 \<noteq> 0)"
    using assms by (elim role_cases playable_cases; simp add: playable_nums)
  then show ?thesis using playable_nums(1-3) by blast
qed

lemma assignment_update:
  assumes "assignment rs as" and "i < length rs" and "r' AND (as ! i) \<noteq> 0"
  shows "assignment (rs[i := r']) as"
proof -
  from assms have "list_all2 (\<lambda>r a. a \<in> playable \<and> r AND a \<noteq> 0) (rs[i := r']) (as[i := as ! i])"
    unfolding assignment_def by (intro list_all2_update_cong) (auto dest: list_all2_nthD)
  then show ?thesis by (simp add: assignment_def)
qed

lemma assignment_nth:
  "assignment rs as \<Longrightarrow> i < length rs \<Longrightarrow> as ! i \<in> playable \<and> rs ! i AND (as ! i) \<noteq> 0"
  by (auto simp: assignment_def dest: list_all2_nthD)

lemma assignment_less:
  assumes "assignment (rs[i := rs ! i - x]) as" and "i < length rs"
    and "role_ok (rs ! i)" and "x \<in> playable" and "rs ! i AND x \<noteq> 0" and "rs ! i \<noteq> x"
  shows "assignment rs as"
proof -
  from assms assignment_nth [OF assms(1), of i] have "rs ! i AND (as ! i) \<noteq> 0"
    using role_less_and [of "rs ! i" x "as ! i"] by auto
  from assignment_update [OF assms(1) _ this] assms(2) show ?thesis by simp
qed

text \<open>
  A player with several roles: when the search fails without each one of them in turn, there
  is no group at all.
\<close>

definition role_passed :: "u8 list \<Rightarrow> nat \<Rightarrow> u8 \<Rightarrow> bool" where
  "role_passed rs i x \<longleftrightarrow>
     (rs ! i AND x \<noteq> 0 \<longrightarrow> rs ! i \<noteq> x \<longrightarrow> \<not> can_group (rs[i := rs ! i - x]))"

lemma all_passed:
  assumes "i < length rs" and "role_ok (rs ! i)" and "rs ! i \<noteq> 0" and "rs ! i \<notin> playable"
    and "\<forall>x\<in>playable. role_passed rs i x"
  shows "\<not> can_group rs"
proof
  assume "can_group rs"
  then obtain as where as: "assignment rs as" and g: "is_group as" by (auto simp: can_group_def)
  note a = assignment_nth [OF as assms(1)]
  from assms a obtain y where y: "y \<in> playable" "y \<noteq> as ! i" "rs ! i AND y \<noteq> 0"
    by (metis role_two)
  with assms(4) have ne: "rs ! i \<noteq> y" by auto
  with a y assms have "(rs ! i - y) AND (as ! i) \<noteq> 0" using role_less_and [of "rs ! i" y "as ! i"] by auto
  with as assms have "assignment (rs[i := rs ! i - y]) as" by (intro assignment_update) auto
  with g have "can_group (rs[i := rs ! i - y])" by (auto simp: can_group_def)
  with y ne assms(5) show False by (auto simp: role_passed_def)
qed

section \<open>Counting\<close>

lemma assignment_counts:
  assumes "assignment rs as" and "\<forall>r\<in>set rs. role_ok r" and "x \<in> playable"
  shows "count_list (take k rs) x \<le> count_list as x"
  using assms unfolding assignment_def
proof (induction arbitrary: k rule: list_all2_induct)
  case (Cons r rs a as)
  show ?case
  proof (cases k)
    case (Suc j)
    from Cons have "r = x \<Longrightarrow> a = x" using role_single [of x a] by auto
    moreover have "count_list (take j rs) x \<le> count_list as x" using Cons by simp
    ultimately show ?thesis using Suc by simp
  qed simp
qed simp

lemma count_too_many:
  assumes "\<forall>r\<in>set rs. role_ok r" and "x \<in> playable" and "n < count_list (take k rs) x"
    and "\<And>as. is_group as \<Longrightarrow> count_list as x \<le> n"
  shows "\<not> can_group rs"
  using assms assignment_counts [of rs _ x k] unfolding can_group_def by (meson leD order_trans)

lemma count_sum:
  "count_list rs PLAYER_ROLE_TANK + count_list rs PLAYER_ROLE_HEALER + count_list rs PLAYER_ROLE_DAMAGE \<le> length rs"
  "count_list rs PLAYER_ROLE_TANK + count_list rs PLAYER_ROLE_HEALER + count_list rs PLAYER_ROLE_DAMAGE = length rs
     \<longleftrightarrow> set rs \<subseteq> playable"
proof -
  let ?s = "\<lambda>rs. count_list rs PLAYER_ROLE_TANK + count_list rs PLAYER_ROLE_HEALER + count_list rs PLAYER_ROLE_DAMAGE"
  have le: "?s rs \<le> length rs" for rs by (induction rs) (auto simp: role_defs)
  then show "?s rs \<le> length rs" .
  show "?s rs = length rs \<longleftrightarrow> set rs \<subseteq> playable"
  proof (induction rs)
    case (Cons r rs)
    then show ?case using le [of rs] by (cases "r \<in> playable") (auto simp: playable_def role_defs)
  qed simp
qed

lemma self_assignment: "set rs \<subseteq> playable \<Longrightarrow> assignment rs rs"
  by (auto simp: assignment_def list_all2_same playable_def role_defs)

lemma count_list_take_Suc:
  "i < length xs \<Longrightarrow> count_list (take (Suc i) xs) x = count_list (take i xs) x + (if xs ! i = x then 1 else 0)"
  by (simp add: take_Suc_conv_app_nth)

section \<open>The search is right\<close>

text \<open>
  What a call promises for the map \<open>g\<close>: it returns, with true exactly when the players can form
  a group, and then the map holds such an assignment; otherwise the map is as it was.
\<close>

definition roles_result :: "roles_map \<Rightarrow> bool \<times> roles_map \<Rightarrow> bool" where
  "roles_result g r \<longleftrightarrow> (case r of (b, g') \<Rightarrow> b = can_group (map snd g) \<and>
     (if b then map fst g' = map fst g \<and> assignment (map snd g) (map snd g') \<and> is_group (map snd g')
      else g' = g))"

definition check_ok :: "(roles_map \<Rightarrow> (bool \<times> roles_map) option) \<Rightarrow> roles_map \<Rightarrow> bool" where
  "check_ok check g \<longleftrightarrow> (\<exists>r. check g = Some r \<and> roles_result g r)"

text \<open>The calls the loop makes for the map \<open>g\<close>: one role of one player less.\<close>

definition one_less :: "roles_map \<Rightarrow> roles_map set" where
  "one_less g = {role_at i (snd (g ! i) - x) g | i x. i < length g \<and> x \<in> playable
     \<and> snd (g ! i) AND x \<noteq> 0 \<and> snd (g ! i) \<noteq> x}"

lemma map_role_at:
  "map snd (role_at i r g) = (map snd g)[i := r]"
  "i < length g \<Longrightarrow> map fst (role_at i r g) = map fst g"
  "length (role_at i r g) = length g"
  by (simp_all add: role_at_def map_update list_update_same_conv)

lemma role_at_back: "i < length g \<Longrightarrow> role_at i (snd (g ! i)) (role_at i r g) = g"
  by (simp add: role_at_def list_update_same_conv)

lemma nth_role_at: "i < length g \<Longrightarrow> snd (role_at i r g ! i) = r"
  by (simp add: role_at_def)

lemma try_role_cases:
  assumes ok: "\<forall>r\<in>set (map snd g). role_ok r" and i: "i < length g" and x: "x \<in> playable"
    and check: "\<forall>h\<in>one_less g. check_ok check h"
  obtains (found) g' where "try_role check i x n g c = Some (Return True g')" "roles_result g (True, g')"
  | (full) "try_role check i x n g c = Some (Return False g)" "snd (g ! i) = x" "c = n"
  | (pass) "try_role check i x n g c = Some (Next g (if snd (g ! i) = x then c + 1 else c))"
      "snd (g ! i) = x \<Longrightarrow> c \<noteq> n" "role_passed (map snd g) i x"
proof -
  let ?r = "snd (g ! i)"
  have r: "role_ok ?r" using ok i by auto
  consider (absent) "?r AND x = 0" | (single) "?r = x" | (multi) "?r AND x \<noteq> 0" "?r \<noteq> x" by blast
  then show thesis
  proof cases
    case absent
    then have "?r \<noteq> x" using role_single [OF x x] by auto
    with absent i show thesis by (intro pass) (auto simp: try_role_def role_passed_def)
  next
    case single
    then have "?r AND x \<noteq> 0" using role_single [OF x x] by auto
    with single i full pass show thesis
      by (cases "c = n") (auto simp: try_role_def role_passed_def)
  next
    case multi
    let ?h = "role_at i (?r - x) g"
    from multi i x have "?h \<in> one_less g" unfolding one_less_def by blast
    with check obtain b g' where c: "check ?h = Some (b, g')" and res: "roles_result ?h (b, g')"
      by (auto simp: check_ok_def)
    show thesis
    proof (cases b)
      case True
      with res have "assignment ((map snd g)[i := ?r - x]) (map snd g')" and grp: "is_group (map snd g')"
        and keys: "map fst g' = map fst g" using i by (auto simp: roles_result_def map_role_at)
      with assignment_less [of "map snd g" i x "map snd g'"] i x r multi
      have "assignment (map snd g) (map snd g')" by simp
      with keys grp have "roles_result g (True, g')" by (auto simp: roles_result_def can_group_def)
      with True c multi show thesis by (intro found) (auto simp: try_role_def)
    next
      case False
      with res have g': "g' = ?h" and no: "\<not> can_group ((map snd g)[i := ?r - x])"
        by (auto simp: roles_result_def map_role_at)
      from role_less(2) [OF r x multi] have "role_at i (snd (?h ! i) + x) ?h = g"
        using i by (simp add: nth_role_at role_at_back)
      with False c g' multi i no show thesis by (intro pass) (auto simp: try_role_def role_passed_def)
    qed
  qed
qed

lemma is_group_counts:
  "is_group as \<Longrightarrow> count_list as PLAYER_ROLE_DAMAGE \<le> unat LFG_DPS_NEEDED"
  "is_group as \<Longrightarrow> count_list as PLAYER_ROLE_HEALER \<le> unat LFG_HEALERS_NEEDED"
  "is_group as \<Longrightarrow> count_list as PLAYER_ROLE_TANK \<le> unat LFG_TANKS_NEEDED"
  by (simp_all add: is_group_def)

text \<open>A counter of the loop, after the players before the \<open>i\<close>-th.\<close>

definition counted :: "u8 list \<Rightarrow> nat \<Rightarrow> u8 \<Rightarrow> u8 \<Rightarrow> u8 \<Rightarrow> bool" where
  "counted rs i x n c \<longleftrightarrow> unat c = count_list (take i rs) x \<and> c \<le> n"

lemma counted_Suc:
  assumes "counted rs i x n c" and "i < length rs" and "rs ! i = x \<Longrightarrow> c \<noteq> n"
  shows "counted rs (Suc i) x n (if rs ! i = x then c + 1 else c)"
proof (cases "rs ! i = x")
  case True
  with assms have "c < n" by (auto simp: counted_def)
  then have "unat (c + 1) = Suc (unat c)" proof -
    have "unat n < 256" using unsigned_less [of n] by simp
    with \<open>c < n\<close> show ?thesis by (simp add: word_less_nat_alt unat_word_ariths)
  qed
  with \<open>c < n\<close> True assms(1,2) show ?thesis by (auto simp: counted_def count_list_take_Suc word_le_nat_alt word_less_nat_alt)
qed (use assms in \<open>auto simp: counted_def count_list_take_Suc\<close>)

lemma counted_full:
  assumes "counted rs i x n n" and "i < length rs" and "rs ! i = x"
    and "\<forall>r\<in>set rs. role_ok r" and "x \<in> playable" and "\<And>as. is_group as \<Longrightarrow> count_list as x \<le> unat n"
  shows "\<not> can_group rs"
  using assms by (intro count_too_many [of rs x "unat n" "Suc i"]) (auto simp: counted_def count_list_take_Suc)

lemma playable_const: "PLAYER_ROLE_DAMAGE \<in> playable" "PLAYER_ROLE_HEALER \<in> playable" "PLAYER_ROLE_TANK \<in> playable"
  by (simp_all add: playable_def)

lemma roles_loop_ok:
  assumes ok: "\<forall>r\<in>set (map snd g). role_ok r" and len: "length g < 256"
    and check: "\<forall>h\<in>one_less g. check_ok check h"
    and "i \<le> length g"
    and "counted (map snd g) i PLAYER_ROLE_DAMAGE LFG_DPS_NEEDED d"
    and "counted (map snd g) i PLAYER_ROLE_HEALER LFG_HEALERS_NEEDED h"
    and "counted (map snd g) i PLAYER_ROLE_TANK LFG_TANKS_NEEDED t"
    and "set (take i (map snd g)) \<subseteq> playable \<or> \<not> can_group (map snd g)"
  shows "\<exists>r. roles_loop check [i..<length g] g d h t = Some r \<and> roles_result g r"
  using assms(4-)
proof (induction "length g - i" arbitrary: i d h t)
  case 0
  let ?rs = "map snd g"
  from 0 have i: "i = length g" by simp
  with 0 have sum: "unat t + unat h + unat d = length g \<longleftrightarrow> set ?rs \<subseteq> playable"
    using count_sum(2) [of ?rs] by (simp add: counted_def)
  have "roles_result g (unat t + unat h + unat d = length g mod 256, g)"
  proof (cases "set ?rs \<subseteq> playable")
    case True
    with i 0 have "is_group ?rs" by (simp add: is_group_def counted_def word_le_nat_alt)
    with True self_assignment [OF True] sum len show ?thesis
      by (auto simp: roles_result_def can_group_def)
  next
    case False
    with 0 i have "\<not> can_group ?rs" by auto
    with False sum len show ?thesis by (auto simp: roles_result_def)
  qed
  with i show ?case by simp
next
  case (Suc k)
  let ?rs = "map snd g"
  from Suc.hyps have i: "i < length g" by simp
  then have upt: "[i..<length g] = i # [Suc i..<length g]" by (simp add: upt_conv_Cons)
  have r: "role_ok (?rs ! i)" using ok i by auto
  have nth: "?rs ! i = snd (g ! i)" using i by simp
  show ?case
  proof (cases "snd (g ! i) = PLAYER_ROLE_NONE")
    case True
    then have "\<not> can_group ?rs"
      using i assignment_nth [of ?rs _ i] by (auto simp: can_group_def role_defs)
    with True show ?thesis by (simp add: upt roles_result_def)
  next
    case False
    have fulls: "\<not> can_group ?rs" if "snd (g ! i) = x" "counted ?rs i x n n" "x \<in> playable"
      "\<And>as. is_group as \<Longrightarrow> count_list as x \<le> unat n" for x n
      using counted_full [of ?rs i x n] that ok i by simp
    show ?thesis
    proof (cases rule: try_role_cases [OF ok i playable_const(1) check, where n = LFG_DPS_NEEDED and c = d, case_names found full pass])
      case (found g')
      with False show ?thesis by (simp add: upt)
    next
      case full
      with fulls Suc.prems(2) playable_const is_group_counts False show ?thesis
        by (simp add: upt roles_result_def)
    next
      case D: pass
      show ?thesis
      proof (cases rule: try_role_cases [OF ok i playable_const(2) check, where n = LFG_HEALERS_NEEDED and c = h, case_names found full pass])
        case (found g')
        with False D show ?thesis by (simp add: upt)
      next
        case full
        with fulls Suc.prems(3) playable_const is_group_counts False D(1) show ?thesis
          by (simp add: upt roles_result_def)
      next
        case H: pass
        show ?thesis
        proof (cases rule: try_role_cases [OF ok i playable_const(3) check, where n = LFG_TANKS_NEEDED and c = t, case_names found full pass])
          case (found g')
          with False D H show ?thesis by (simp add: upt)
        next
          case full
          with fulls Suc.prems(4) playable_const is_group_counts False D(1) H(1) show ?thesis
            by (simp add: upt roles_result_def)
        next
          case T: pass
          have passed: "\<forall>x\<in>playable. role_passed ?rs i x"
            using D(3) H(3) T(3) by (auto simp: playable_def)
          have "set (take (Suc i) ?rs) \<subseteq> playable \<or> \<not> can_group ?rs"
            using all_passed [of i ?rs] passed False r i Suc.prems(5)
            by (auto simp: take_Suc_conv_app_nth role_defs)
          moreover have "k = length g - Suc i" and "Suc i \<le> length g" using Suc.hyps(2) i by auto
          ultimately obtain r where "roles_loop check [Suc i..<length g] g
              (if ?rs ! i = PLAYER_ROLE_DAMAGE then d + 1 else d)
              (if ?rs ! i = PLAYER_ROLE_HEALER then h + 1 else h)
              (if ?rs ! i = PLAYER_ROLE_TANK then t + 1 else t) = Some r" and "roles_result g r"
            using Suc.hyps(1) [OF _ _ counted_Suc [OF Suc.prems(2)] counted_Suc [OF Suc.prems(3)]
                counted_Suc [OF Suc.prems(4)]] D(2) H(2) T(2) i unfolding nth length_map by blast
          with D(1) H(1) T(1) False i show ?thesis by (simp add: upt)
        qed
      qed
    qed
  qed
qed

section \<open>Fuel\<close>

text \<open>How often the search can take a role away.\<close>

fun role_bits :: "u8 list \<Rightarrow> nat" where
  "role_bits [] = 0"
| "role_bits (r # rs) = of_bool (r AND PLAYER_ROLE_DAMAGE \<noteq> 0) + of_bool (r AND PLAYER_ROLE_HEALER \<noteq> 0)
     + of_bool (r AND PLAYER_ROLE_TANK \<noteq> 0) + role_bits rs"

lemma role_bits_bound: "role_bits rs \<le> 3 * length rs"
  by (induction rs) auto

lemma role_bits_less:
  "i < length rs \<Longrightarrow> role_ok (rs ! i) \<Longrightarrow> x \<in> playable \<Longrightarrow> rs ! i AND x \<noteq> 0 \<Longrightarrow>
     Suc (role_bits (rs[i := rs ! i - x])) = role_bits rs"
proof (induction rs arbitrary: i)
  case (Cons r rs)
  show ?case
  proof (cases i)
    case 0
    with Cons.prems show ?thesis by (elim role_cases playable_cases; simp add: role_defs)
  next
    case (Suc j)
    with Cons show ?thesis by simp
  qed
qed simp

lemma check_roles_ok:
  "\<forall>r\<in>set (map snd g). role_ok r \<Longrightarrow> length g < 256 \<Longrightarrow> g \<noteq> [] \<Longrightarrow> role_bits (map snd g) < fuel \<Longrightarrow>
     check_ok (check_roles fuel) g"
proof (induction fuel arbitrary: g)
  case (Suc fuel)
  have "check_ok (check_roles fuel) h" if "h \<in> one_less g" for h
  proof -
    from that obtain i x where h: "h = role_at i (snd (g ! i) - x) g" and i: "i < length g"
      and x: "x \<in> playable" "snd (g ! i) AND x \<noteq> 0" "snd (g ! i) \<noteq> x" by (auto simp: one_less_def)
    from Suc.prems(1) i have r: "role_ok (snd (g ! i))" by auto
    show ?thesis
    proof (rule Suc.IH)
      show "\<forall>r\<in>set (map snd h). role_ok r"
        using Suc.prems(1) role_less(1) [OF r x] set_update_subset_insert [of "map snd g" i]
        by (auto simp: h map_role_at simp del: set_map)
      show "role_bits (map snd h) < fuel"
        using role_bits_less [of i "map snd g" x] Suc.prems(4) i x r by (simp add: h map_role_at)
    qed (use Suc.prems i in \<open>auto simp: h map_role_at role_at_def\<close>)
  qed
  moreover have "counted (map snd g) 0 x n 0" for x n by (simp add: counted_def)
  ultimately have "\<exists>r. roles_loop (check_roles fuel) [0..<length g] g 0 0 0 = Some r \<and> roles_result g r"
    using Suc.prems(1,2) by (intro roles_loop_ok) auto
  with Suc.prems(3) show ?case by (simp add: check_ok_def)
qed simp

lemma map_remove_leader_flags:
  "map fst (remove_leader_flags g) = map fst g"
  "map snd (remove_leader_flags g) = map (\<lambda>r. r AND NOT PLAYER_ROLE_LEADER) (map snd g)"
  "length (remove_leader_flags g) = length g"
  "remove_leader_flags g = [] \<longleftrightarrow> g = []"
  by (auto simp: remove_leader_flags_def)

text \<open>Roles a player may send: leader, tank, healer and damage in any combination.\<close>

definition roles_valid :: "roles_map \<Rightarrow> bool" where
  "roles_valid g \<longleftrightarrow> (\<forall>p\<in>set g. snd p < 16)"

lemma role_ok_valid: "r < (16 :: u8) \<Longrightarrow> role_ok (r AND NOT PLAYER_ROLE_LEADER)"
proof -
  assume "r < (16 :: u8)"
  then have "unat r < 16" by (simp add: word_less_nat_alt)
  moreover have "n \<in> {0, 1, 2, 3, 4, 5, 6, 7, 8, 9, 10, 11, 12, 13, 14, 15}" if "n < 16" for n :: nat
    unfolding insert_iff empty_iff using that by presburger
  ultimately have "unat r \<in> {0, 1, 2, 3, 4, 5, 6, 7, 8, 9, 10, 11, 12, 13, 14, 15}" by blast
  then have "of_nat (unat r) \<in> (of_nat ` {0, 1, 2, 3, 4, 5, 6, 7, 8, 9, 10, 11, 12, 13, 14, 15} :: u8 set)" by blast
  then have "r \<in> {0, 1, 2, 3, 4, 5, 6, 7, 8, 9, 10, 11, 12, 13, 14, 15}" by simp
  then show ?thesis by (auto simp: role_ok_def role_defs)
qed

lemma CheckGroupRoles_ok:
  assumes "roles_valid g" and "length g < 256" and "g \<noteq> []"
  shows "\<exists>r. CheckGroupRoles g = Some r \<and> roles_result (remove_leader_flags g) r"
proof -
  have "check_ok (check_roles (Suc (3 * length g))) (remove_leader_flags g)"
  proof (rule check_roles_ok)
    show "\<forall>r\<in>set (map snd (remove_leader_flags g)). role_ok r"
      using assms(1) role_ok_valid by (auto simp: map_remove_leader_flags roles_valid_def)
    show "role_bits (map snd (remove_leader_flags g)) < Suc (3 * length g)"
      using role_bits_bound [of "map snd (remove_leader_flags g)"] by (simp add: map_remove_leader_flags)
  qed (use assms in \<open>auto simp: map_remove_leader_flags\<close>)
  then show ?thesis by (simp add: check_ok_def CheckGroupRoles_def)
qed

lemma CheckGroupRoles_Nil [simp]: "CheckGroupRoles [] = Some (False, [])"
  by (simp add: CheckGroupRoles_def remove_leader_flags_def)

end
