(* ===== verification/LFG_Queue.thy ===== *)
theory LFG_Queue
  imports LFG_Roles Text_Util Object_Guid "HOL-Library.List_Lexorder"
begin

text \<open>
  \<^verbatim>\<open>LFGQueue\<close> (\<^verbatim>\<open>src/src/server/game/DungeonFinding/LFGQueue.h\<close> and \<^verbatim>\<open>.cpp\<close>): the queue of the dungeon
  finder. Players and groups wait in \<^verbatim>\<open>QueueDataStore\<close>; \<^verbatim>\<open>FindGroups\<close> tries every new one with those
  already waiting, remembers in \<^verbatim>\<open>CompatibleMapStore\<close> which combinations fit (under a key made of
  their decimal GUIDs) and makes a proposal when five players with the right roles and a
  common dungeon are found. What the manager knows about players and groups is the
  environment; its proposals and the status messages it sends are part of the state. Random
  numbers are the draws of \<open>urand\<close>, counted in the state.
\<close>

section \<open>Data\<close>

datatype LfgState = LFG_STATE_NONE | LFG_STATE_ROLECHECK | LFG_STATE_QUEUED | LFG_STATE_PROPOSAL
  | LFG_STATE_BOOT | LFG_STATE_DUNGEON | LFG_STATE_FINISHED_DUNGEON | LFG_STATE_RAIDBROWSER

datatype LfgAnswer = LFG_ANSWER_PENDING | LFG_ANSWER_DENY | LFG_ANSWER_AGREE

datatype LfgProposalState = LFG_PROPOSAL_INITIATING | LFG_PROPOSAL_FAILED | LFG_PROPOSAL_SUCCESS

datatype LfgCompatibility = LFG_COMPATIBILITY_PENDING | LFG_INCOMPATIBLES_WRONG_GROUP_SIZE
  | LFG_INCOMPATIBLES_TOO_MUCH_PLAYERS | LFG_INCOMPATIBLES_MULTIPLE_LFG_GROUPS
  | LFG_INCOMPATIBLES_HAS_IGNORES | LFG_INCOMPATIBLES_NO_ROLES | LFG_INCOMPATIBLES_NO_DUNGEONS
  | LFG_COMPATIBLES_WITH_LESS_PLAYERS | LFG_COMPATIBLES_BAD_STATES | LFG_COMPATIBLES_MATCH

text \<open>The order of the enumeration: everything below \<open>LFG_COMPATIBLES_WITH_LESS_PLAYERS\<close> does not fit.\<close>

fun compat_num :: "LfgCompatibility \<Rightarrow> nat" where
  "compat_num LFG_COMPATIBILITY_PENDING = 0"
| "compat_num LFG_INCOMPATIBLES_WRONG_GROUP_SIZE = 1"
| "compat_num LFG_INCOMPATIBLES_TOO_MUCH_PLAYERS = 2"
| "compat_num LFG_INCOMPATIBLES_MULTIPLE_LFG_GROUPS = 3"
| "compat_num LFG_INCOMPATIBLES_HAS_IGNORES = 4"
| "compat_num LFG_INCOMPATIBLES_NO_ROLES = 5"
| "compat_num LFG_INCOMPATIBLES_NO_DUNGEONS = 6"
| "compat_num LFG_COMPATIBLES_WITH_LESS_PLAYERS = 7"
| "compat_num LFG_COMPATIBLES_BAD_STATES = 8"
| "compat_num LFG_COMPATIBLES_MATCH = 9"

instantiation LfgCompatibility :: linorder
begin

definition less_eq_LfgCompatibility :: "LfgCompatibility \<Rightarrow> LfgCompatibility \<Rightarrow> bool" where
  "less_eq_LfgCompatibility a b \<longleftrightarrow> compat_num a \<le> compat_num b"

definition less_LfgCompatibility :: "LfgCompatibility \<Rightarrow> LfgCompatibility \<Rightarrow> bool" where
  "less_LfgCompatibility a b \<longleftrightarrow> compat_num a < compat_num b"

instance
proof
  fix a b :: LfgCompatibility
  show "a \<le> b \<Longrightarrow> b \<le> a \<Longrightarrow> a = b"
    by (cases a; cases b) (simp_all add: less_eq_LfgCompatibility_def)
qed (auto simp: less_eq_LfgCompatibility_def less_LfgCompatibility_def)

end

record LfgCompatibilityData =
  compatibility :: LfgCompatibility
  cd_roles :: roles_map

record LfgQueueData =
  joinTime :: int
  tanks :: u8
  healers :: u8
  dps :: u8
  dungeons :: "u32 std_set"
  roles :: roles_map
  bestCompatible :: "u8 list"

record LfgWaitTime =
  wt_time :: u32
  wt_number :: u32

record LfgProposalPlayer =
  pp_role :: u8
  pp_accept :: LfgAnswer
  pp_group :: u64

record LfgProposal =
  pr_id :: u32
  pr_dungeonId :: u32
  pr_state :: LfgProposalState
  pr_group :: u64
  pr_leader :: u64
  pr_cancelTime :: int
  pr_encounters :: u32
  pr_isNew :: bool
  pr_queues :: "u64 list"
  pr_showorder :: "u64 list"
  pr_players :: "(u64, LfgProposalPlayer) std_map"

record LfgQueueStatusData =
  qs_dungeonId :: u32
  qs_joinTime :: u32
  qs_waitTime :: u32
  qs_waitTimeAvg :: u32
  qs_waitTimeTank :: u32
  qs_waitTimeHealer :: u32
  qs_waitTimeDps :: u32
  qs_queuedTime :: u32
  qs_tanks :: u8
  qs_healers :: u8
  qs_dps :: u8

record lfg_queue =
  QueueDataStore :: "(u64, LfgQueueData) std_map"
  CompatibleMapStore :: "(u8 list, LfgCompatibilityData) std_map"
  waitTimesAvgStore :: "(u32, LfgWaitTime) std_map"
  waitTimesTankStore :: "(u32, LfgWaitTime) std_map"
  waitTimesHealerStore :: "(u32, LfgWaitTime) std_map"
  waitTimesDpsStore :: "(u32, LfgWaitTime) std_map"
  currentQueueStore :: "u64 list"
  newToQueueStore :: "u64 list"
  lfgProposalId :: u32
  ProposalsStore :: "(u32, LfgProposal) std_map"
  random_draws :: nat
  status_out :: "(u64 \<times> LfgQueueStatusData) list"

text \<open>
  \<open>mgr_state\<close> is the state the manager keeps for a player or group, \<open>mgr_dungeon\<close> and
  \<open>mgr_lfg_group\<close> what it keeps for groups. \<open>urand n a b\<close> is the \<open>n\<close>-th draw_random of a number from
  \<open>a\<close> to \<open>b\<close>.
\<close>

record lfg_env =
  mgr_state :: "u64 \<Rightarrow> LfgState"
  mgr_dungeon :: "u64 \<Rightarrow> u32"
  mgr_lfg_group :: "u64 \<Rightarrow> bool"
  player_online :: "u64 \<Rightarrow> bool"
  social_ignore :: "u64 \<Rightarrow> u32 \<Rightarrow> bool"
  lfg_now :: int
  urand :: "nat \<Rightarrow> u32 \<Rightarrow> u32 \<Rightarrow> u32"

text \<open>
  \<open>BadIterator\<close> is a dereference of an end iterator; \<open>OutOfFuel\<close> ends a recursion that has used
  up its fuel (the properties show that this never happens).
\<close>

datatype lfg_error = BadIterator | OutOfFuel | DivisionByZero

type_synonym 'a lfg_result = "lfg_error + 'a"

definition LFG_TIME_PROPOSAL :: int where "LFG_TIME_PROPOSAL = 45"

text \<open>What the queue asks the manager.\<close>

definition HasIgnore :: "lfg_env \<Rightarrow> u64 \<Rightarrow> u64 \<Rightarrow> bool" where
  "HasIgnore env guid1 guid2 \<longleftrightarrow> player_online env guid1 \<and> player_online env guid2 \<and>
     (social_ignore env guid1 (ucast guid2) \<or> social_ignore env guid2 (ucast guid1))"

definition IsLfgGroup :: "lfg_env \<Rightarrow> u64 \<Rightarrow> bool" where
  "IsLfgGroup env guid \<longleftrightarrow> guid \<noteq> 0 \<and> IS_GROUP guid \<and> mgr_lfg_group env guid"

definition AllQueued :: "lfg_env \<Rightarrow> u64 list \<Rightarrow> bool" where
  "AllQueued env check \<longleftrightarrow> check \<noteq> [] \<and> list_all (\<lambda>guid. mgr_state env guid = LFG_STATE_QUEUED) check"

definition AddProposal :: "LfgProposal \<Rightarrow> lfg_queue \<Rightarrow> lfg_queue" where
  "AddProposal proposal q =
     (let i = lfgProposalId q + 1 in
      q\<lparr>lfgProposalId := i, ProposalsStore := sm_set i (proposal\<lparr>pr_id := i\<rparr>) (ProposalsStore q)\<rparr>)"

section \<open>Keys\<close>

text \<open>GUIDs are written in decimal and separated by \<^verbatim>\<open>'|'\<close> (124), in increasing order and without duplicates.\<close>

definition guid_text :: "u64 \<Rightarrow> u8 list" where
  "guid_text guid = dec_digits (unat guid)"

fun join_guids :: "u64 list \<Rightarrow> u8 list" where
  "join_guids [] = []"
| "join_guids [g] = guid_text g"
| "join_guids (g # gs) = guid_text g @ 124 # join_guids gs"

definition ConcatenateGuids :: "u64 list \<Rightarrow> u8 list" where
  "ConcatenateGuids check = join_guids (foldl (\<lambda>s g. ss_insert g s) [] check)"

text \<open>\<^verbatim>\<open>std::string::npos != text.find(part)\<close>\<close>

fun text_has :: "u8 list \<Rightarrow> u8 list \<Rightarrow> bool" where
  "text_has part [] = (part = [])"
| "text_has part (c # cs) = (take (length part) (c # cs) = part \<or> text_has part cs)"

section \<open>Queues and cache\<close>

definition AddToNewQueue :: "u64 \<Rightarrow> lfg_queue \<Rightarrow> lfg_queue" where
  "AddToNewQueue guid q = q\<lparr>newToQueueStore := newToQueueStore q @ [guid]\<rparr>"

definition RemoveFromNewQueue :: "u64 \<Rightarrow> lfg_queue \<Rightarrow> lfg_queue" where
  "RemoveFromNewQueue guid q = q\<lparr>newToQueueStore := removeAll guid (newToQueueStore q)\<rparr>"

definition AddToCurrentQueue :: "u64 \<Rightarrow> lfg_queue \<Rightarrow> lfg_queue" where
  "AddToCurrentQueue guid q = q\<lparr>currentQueueStore := currentQueueStore q @ [guid]\<rparr>"

definition RemoveFromCurrentQueue :: "u64 \<Rightarrow> lfg_queue \<Rightarrow> lfg_queue" where
  "RemoveFromCurrentQueue guid q = q\<lparr>currentQueueStore := removeAll guid (currentQueueStore q)\<rparr>"

definition AddToQueue :: "u64 \<Rightarrow> lfg_queue \<Rightarrow> lfg_queue" where
  "AddToQueue guid q = (case sm_find (QueueDataStore q) guid of None \<Rightarrow> q | Some _ \<Rightarrow> AddToNewQueue guid q)"

definition new_queue_data :: "int \<Rightarrow> u32 std_set \<Rightarrow> roles_map \<Rightarrow> LfgQueueData" where
  "new_queue_data t ds rs = \<lparr>joinTime = t, tanks = LFG_TANKS_NEEDED, healers = LFG_HEALERS_NEEDED,
     dps = LFG_DPS_NEEDED, dungeons = ds, roles = rs, bestCompatible = []\<rparr>"

definition AddQueueData :: "u64 \<Rightarrow> int \<Rightarrow> u32 std_set \<Rightarrow> roles_map \<Rightarrow> lfg_queue \<Rightarrow> lfg_queue" where
  "AddQueueData guid t ds rolesMap q =
     AddToQueue guid (q\<lparr>QueueDataStore := sm_set guid (new_queue_data t ds rolesMap) (QueueDataStore q)\<rparr>)"

definition RemoveQueueData :: "u64 \<Rightarrow> lfg_queue \<Rightarrow> lfg_queue" where
  "RemoveQueueData guid q = q\<lparr>QueueDataStore := sm_erase guid (QueueDataStore q)\<rparr>"

text \<open>\<^verbatim>\<open>QueueDataStore[guid]\<close> inserts a default entry where there is none.\<close>

definition queue_data_at :: "lfg_env \<Rightarrow> u64 \<Rightarrow> lfg_queue \<Rightarrow> LfgQueueData \<times> lfg_queue" where
  "queue_data_at env guid q =
     (case sm_find (QueueDataStore q) guid of
        Some d \<Rightarrow> (d, q)
      | None \<Rightarrow> (let d = new_queue_data (lfg_now env) [] [] in
          (d, q\<lparr>QueueDataStore := sm_set guid d (QueueDataStore q)\<rparr>)))"

definition GetJoinTime :: "lfg_env \<Rightarrow> u64 \<Rightarrow> lfg_queue \<Rightarrow> int \<times> lfg_queue" where
  "GetJoinTime env guid q = (case queue_data_at env guid q of (d, q) \<Rightarrow> (joinTime d, q))"

definition RemoveFromCompatibles :: "u64 \<Rightarrow> lfg_queue \<Rightarrow> lfg_queue" where
  "RemoveFromCompatibles guid q =
     q\<lparr>CompatibleMapStore := filter (\<lambda>(key, _). \<not> text_has (guid_text guid) key) (CompatibleMapStore q)\<rparr>"

definition SetCompatibles :: "u8 list \<Rightarrow> LfgCompatibility \<Rightarrow> lfg_queue \<Rightarrow> lfg_queue" where
  "SetCompatibles key compatibles q =
     (let data = sm_at \<lparr>compatibility = LFG_COMPATIBILITY_PENDING, cd_roles = []\<rparr> key (CompatibleMapStore q) in
      q\<lparr>CompatibleMapStore := sm_set key (data\<lparr>compatibility := compatibles\<rparr>) (CompatibleMapStore q)\<rparr>)"

definition SetCompatibilityData :: "u8 list \<Rightarrow> LfgCompatibilityData \<Rightarrow> lfg_queue \<Rightarrow> lfg_queue" where
  "SetCompatibilityData key data q = q\<lparr>CompatibleMapStore := sm_set key data (CompatibleMapStore q)\<rparr>"

definition GetCompatibles :: "u8 list \<Rightarrow> lfg_queue \<Rightarrow> LfgCompatibility" where
  "GetCompatibles key q =
     (case sm_find (CompatibleMapStore q) key of Some data \<Rightarrow> compatibility data | None \<Rightarrow> LFG_COMPATIBILITY_PENDING)"

definition GetCompatibilityData :: "u8 list \<Rightarrow> lfg_queue \<Rightarrow> LfgCompatibilityData option" where
  "GetCompatibilityData key q = sm_find (CompatibleMapStore q) key"

section \<open>The best combination of a queued entry\<close>

definition key_size :: "u8 list \<Rightarrow> u8" where
  "key_size key = of_nat (count_list key 124 + 1)"

fun count_roles :: "u8 list \<Rightarrow> LfgQueueData \<Rightarrow> LfgQueueData" where
  "count_roles [] d = d"
| "count_roles (role # rs) d = count_roles rs
     (if role AND PLAYER_ROLE_TANK \<noteq> 0 then d\<lparr>tanks := tanks d - 1\<rparr>
      else if role AND PLAYER_ROLE_HEALER \<noteq> 0 then d\<lparr>healers := healers d - 1\<rparr>
      else d\<lparr>dps := dps d - 1\<rparr>)"

text \<open>\<open>best_of_entry\<close> is \<^verbatim>\<open>UpdateBestCompatibleInQueue\<close> on the entry its iterator points to.\<close>

definition best_of_entry :: "u8 list \<Rightarrow> roles_map \<Rightarrow> LfgQueueData \<Rightarrow> LfgQueueData" where
  "best_of_entry key rs d =
     (let storedSize = (if bestCompatible d = [] then 0 else key_size (bestCompatible d));
          sz = key_size key
      in if sz \<le> storedSize then d
         else count_roles (map snd rs) (d\<lparr>bestCompatible := key, tanks := LFG_TANKS_NEEDED,
           healers := LFG_HEALERS_NEEDED, dps := LFG_DPS_NEEDED\<rparr>))"

definition UpdateBestCompatibleInQueue :: "u64 \<Rightarrow> u8 list \<Rightarrow> roles_map \<Rightarrow> lfg_queue \<Rightarrow> lfg_queue lfg_result" where
  "UpdateBestCompatibleInQueue guid key rs q =
     (case sm_find (QueueDataStore q) guid of
        None \<Rightarrow> Inl BadIterator
      | Some d \<Rightarrow> Inr (q\<lparr>QueueDataStore := sm_set guid (best_of_entry key rs d) (QueueDataStore q)\<rparr>))"

definition FindBestCompatibleInQueue ::
  "(u8 list, LfgCompatibilityData) std_map \<Rightarrow> u64 \<Rightarrow> LfgQueueData \<Rightarrow> LfgQueueData" where
  "FindBestCompatibleInQueue cache guid d =
     foldl (\<lambda>d (key, data).
        if compatibility data = LFG_COMPATIBLES_WITH_LESS_PLAYERS \<and> text_has (guid_text guid) key
        then best_of_entry key (cd_roles data) d else d) d cache"

text \<open>The loop of \<^verbatim>\<open>RemoveFromQueue\<close> over the entries, without the erasure at its end.\<close>

definition forget_best ::
  "(u8 list, LfgCompatibilityData) std_map \<Rightarrow> u64 \<Rightarrow> (u64, LfgQueueData) std_map \<Rightarrow> (u64, LfgQueueData) std_map" where
  "forget_best cache guid ds =
     map (\<lambda>(k, d). (k,
        if k \<noteq> guid \<and> text_has (guid_text guid) (bestCompatible d)
        then FindBestCompatibleInQueue cache k (d\<lparr>bestCompatible := []\<rparr>) else d)) ds"

definition RemoveFromQueue :: "u64 \<Rightarrow> lfg_queue \<Rightarrow> lfg_queue" where
  "RemoveFromQueue guid q =
     (let q = RemoveFromCompatibles guid (RemoveFromCurrentQueue guid (RemoveFromNewQueue guid q)) in
      q\<lparr>QueueDataStore := sm_erase guid (forget_best (CompatibleMapStore q) guid (QueueDataStore q))\<rparr>)"

section \<open>Waiting times\<close>

text \<open>
  The product and the quotient are computed in \<^verbatim>\<open>uint32\<close>, because the counter is one. A time is
  kept as the 32 bits of its \<^verbatim>\<open>int32\<close>; the default entry is -1 after 0 groups.
\<close>

definition wait_time_new :: LfgWaitTime where
  "wait_time_new = \<lparr>wt_time = - 1, wt_number = 0\<rparr>"

definition UpdateWaitTime ::
  "u32 \<Rightarrow> u32 \<Rightarrow> (u32, LfgWaitTime) std_map \<Rightarrow> (u32, LfgWaitTime) std_map lfg_result" where
  "UpdateWaitTime waitTime dungeonId store =
     (let wt = sm_at wait_time_new dungeonId store;
          old_number = wt_number wt;
          number = old_number + 1
      in if number = 0 then Inl DivisionByZero
         else Inr (sm_set dungeonId \<lparr>wt_time = (wt_time wt * old_number + waitTime) div number,
                wt_number = number\<rparr> store))"

definition UpdateWaitTimeAvg :: "u32 \<Rightarrow> u32 \<Rightarrow> lfg_queue \<Rightarrow> lfg_queue lfg_result" where
  "UpdateWaitTimeAvg waitTime dungeonId q = rbind (UpdateWaitTime waitTime dungeonId (waitTimesAvgStore q))
     (\<lambda>s. Inr (q\<lparr>waitTimesAvgStore := s\<rparr>))"

definition UpdateWaitTimeTank :: "u32 \<Rightarrow> u32 \<Rightarrow> lfg_queue \<Rightarrow> lfg_queue lfg_result" where
  "UpdateWaitTimeTank waitTime dungeonId q = rbind (UpdateWaitTime waitTime dungeonId (waitTimesTankStore q))
     (\<lambda>s. Inr (q\<lparr>waitTimesTankStore := s\<rparr>))"

definition UpdateWaitTimeHealer :: "u32 \<Rightarrow> u32 \<Rightarrow> lfg_queue \<Rightarrow> lfg_queue lfg_result" where
  "UpdateWaitTimeHealer waitTime dungeonId q = rbind (UpdateWaitTime waitTime dungeonId (waitTimesHealerStore q))
     (\<lambda>s. Inr (q\<lparr>waitTimesHealerStore := s\<rparr>))"

definition UpdateWaitTimeDps :: "u32 \<Rightarrow> u32 \<Rightarrow> lfg_queue \<Rightarrow> lfg_queue lfg_result" where
  "UpdateWaitTimeDps waitTime dungeonId q = rbind (UpdateWaitTime waitTime dungeonId (waitTimesDpsStore q))
     (\<lambda>s. Inr (q\<lparr>waitTimesDpsStore := s\<rparr>))"

text \<open>\<^verbatim>\<open>waitTimes...Store[dungeonId].time\<close>\<close>

definition wait_time_at :: "u32 \<Rightarrow> (u32, LfgWaitTime) std_map \<Rightarrow> u32 \<times> (u32, LfgWaitTime) std_map" where
  "wait_time_at dungeonId store =
     (wt_time (sm_at wait_time_new dungeonId store), sm_insert dungeonId wait_time_new store)"

definition queue_role :: "roles_map \<Rightarrow> u8" where
  "queue_role rs = foldl (\<lambda>role (_, r). role OR r) PLAYER_ROLE_NONE rs AND NOT PLAYER_ROLE_LEADER"

text \<open>The body of the loop of \<^verbatim>\<open>UpdateQueueTimers\<close> for one entry.\<close>

definition update_queue_timer :: "int \<Rightarrow> u64 \<Rightarrow> LfgQueueData \<Rightarrow> lfg_queue \<Rightarrow> lfg_queue" where
  "update_queue_timer currTime guid queueinfo q =
     (if dungeons queueinfo = [] then q
      else
        let dungeonId = hd (dungeons queueinfo);
            queuedTime = word_of_int (currTime - joinTime queueinfo) :: u32;
            (wtTank, s) = wait_time_at dungeonId (waitTimesTankStore q);
            q = q\<lparr>waitTimesTankStore := s\<rparr>;
            (wtHealer, s) = wait_time_at dungeonId (waitTimesHealerStore q);
            q = q\<lparr>waitTimesHealerStore := s\<rparr>;
            (wtDps, s) = wait_time_at dungeonId (waitTimesDpsStore q);
            q = q\<lparr>waitTimesDpsStore := s\<rparr>;
            (wtAvg, s) = wait_time_at dungeonId (waitTimesAvgStore q);
            q = q\<lparr>waitTimesAvgStore := s\<rparr>;
            role = queue_role (roles queueinfo);
            waitTime = (if role = PLAYER_ROLE_NONE then - 1 else if role = PLAYER_ROLE_TANK then wtTank
              else if role = PLAYER_ROLE_HEALER then wtHealer
              else if role = PLAYER_ROLE_DAMAGE then wtDps else wtAvg);
            d = (if bestCompatible queueinfo = []
              then FindBestCompatibleInQueue (CompatibleMapStore q) guid queueinfo else queueinfo);
            data = \<lparr>qs_dungeonId = dungeonId, qs_joinTime = word_of_int (joinTime d), qs_waitTime = waitTime,
              qs_waitTimeAvg = wtAvg, qs_waitTimeTank = wtTank, qs_waitTimeHealer = wtHealer,
              qs_waitTimeDps = wtDps, qs_queuedTime = queuedTime, qs_tanks = tanks d,
              qs_healers = healers d, qs_dps = dps d\<rparr>
        in q\<lparr>QueueDataStore := sm_set guid d (QueueDataStore q),
             status_out := status_out q @ map (\<lambda>(p, _). (p, data)) (roles d)\<rparr>)"

definition UpdateQueueTimers :: "int \<Rightarrow> lfg_queue \<Rightarrow> lfg_queue" where
  "UpdateQueueTimers currTime q =
     foldl (\<lambda>q (guid, d). update_queue_timer currTime guid d q) q (QueueDataStore q)"

end
