(* ===== verification/LFG_Match.thy ===== *)
theory LFG_Match
  imports LFG_Queue
begin

text \<open>
  The matching of \<^verbatim>\<open>LFGQueue.cpp\<close>: \<^verbatim>\<open>CheckCompatibility\<close>, which decides whether some queued entries
  fit together and makes the proposal when they are five players, and the search
  \<^verbatim>\<open>FindNewGroups\<close> / \<^verbatim>\<open>FindGroups\<close> that runs it over the combinations of a new entry with the waiting
  ones.
\<close>

section \<open>The checks\<close>

text \<open>The loop that counts players and groups; \<open>Inl guid\<close> is an entry without data.\<close>

record lfg_members =
  numPlayers :: u8
  numLfgGroups :: u8
  proposalGroups :: "(u64, u64) std_map"
  mb_group :: u64

definition no_members :: lfg_members where
  "no_members = \<lparr>numPlayers = 0, numLfgGroups = 0, proposalGroups = [], mb_group = 0\<rparr>"

definition add_member :: "lfg_env \<Rightarrow> u64 \<Rightarrow> LfgQueueData \<Rightarrow> lfg_members \<Rightarrow> lfg_members" where
  "add_member env guid d m =
     (let m = m\<lparr>proposalGroups := foldl (\<lambda>g (p, _). sm_set p (if IS_GROUP guid then guid else 0) g)
                  (proposalGroups m) (roles d),
                numPlayers := numPlayers m + of_nat (length (roles d))\<rparr>
      in if IsLfgGroup env guid
         then m\<lparr>mb_group := (if numLfgGroups m = 0 then guid else mb_group m), numLfgGroups := numLfgGroups m + 1\<rparr>
         else m)"

fun count_members :: "lfg_env \<Rightarrow> lfg_queue \<Rightarrow> u64 list \<Rightarrow> lfg_members \<Rightarrow> u64 + lfg_members" where
  "count_members env q [] m = Inr m"
| "count_members env q (guid # gs) m =
     (if numLfgGroups m < 2 \<and> unat (numPlayers m) \<le> MAXGROUPSIZE
      then (case sm_find (QueueDataStore q) guid of
              None \<Rightarrow> Inl guid
            | Some d \<Rightarrow> count_members env q gs (add_member env guid d m))
      else Inr m)"

text \<open>
  \<^verbatim>\<open>QueueDataStore[guid]\<close> of an entry the loop above has found.
\<close>

definition entry_at :: "lfg_queue \<Rightarrow> u64 \<Rightarrow> LfgQueueData" where
  "entry_at q guid = (case sm_find (QueueDataStore q) guid of Some d \<Rightarrow> d | None \<Rightarrow> new_queue_data 0 [] [])"

text \<open>The loop over the players taken so far, with its \<^verbatim>\<open>break\<close> where one ignores the other.\<close>

fun ignores_any :: "lfg_env \<Rightarrow> u64 \<Rightarrow> roles_map \<Rightarrow> bool" where
  "ignores_any env p [] = False"
| "ignores_any env p ((p', _) # rs) =
     (if p = p' then ignores_any env p rs else HasIgnore env p p' \<or> ignores_any env p rs)"

definition merge_roles :: "lfg_env \<Rightarrow> roles_map \<Rightarrow> roles_map \<Rightarrow> roles_map" where
  "merge_roles env rs proposalRoles =
     foldl (\<lambda>prs (p, r). if ignores_any env p prs then prs else sm_set p r prs) proposalRoles rs"

definition merge_all :: "lfg_env \<Rightarrow> lfg_queue \<Rightarrow> u64 list \<Rightarrow> roles_map" where
  "merge_all env q check = foldl (\<lambda>prs guid. merge_roles env (roles (entry_at q guid)) prs) [] check"

text \<open>\<^verbatim>\<open>std::set_intersection\<close>\<close>

definition common_dungeons :: "lfg_queue \<Rightarrow> u64 list \<Rightarrow> u32 std_set" where
  "common_dungeons q check =
     foldl (\<lambda>ds guid. filter (\<lambda>d. d \<in> set (dungeons (entry_at q guid))) ds)
       (dungeons (entry_at q (hd check))) (tl check)"

section \<open>The proposal\<close>

definition draw_random :: "lfg_env \<Rightarrow> u32 \<Rightarrow> u32 \<Rightarrow> lfg_queue \<Rightarrow> u32 \<times> lfg_queue" where
  "draw_random env a b q = (urand env (random_draws q) a b, q\<lparr>random_draws := random_draws q + 1\<rparr>)"

definition SelectRandomContainerElement :: "lfg_env \<Rightarrow> u32 std_set \<Rightarrow> lfg_queue \<Rightarrow> (u32 \<times> lfg_queue) lfg_result" where
  "SelectRandomContainerElement env container q =
     (case draw_random env 0 (of_nat (length container) - 1) q of (i, q) \<Rightarrow>
        if unat i < length container then Inr (container ! unat i, q) else Inl BadIterator)"

text \<open>
  The choice of the leader, as it goes over the players; the last argument tells whether one
  with the leader flag has been met. A coin is only thrown where the condition needs it.
\<close>

definition choose_leader :: "lfg_env \<Rightarrow> u64 \<Rightarrow> u8 \<Rightarrow> u64 \<times> bool \<Rightarrow> lfg_queue \<Rightarrow> (u64 \<times> bool) \<times> lfg_queue" where
  "choose_leader env p r ldr q =
     (case ldr of (cur, leader) \<Rightarrow>
      if r AND PLAYER_ROLE_LEADER \<noteq> 0 then
        (if \<not> leader \<or> cur = 0 then ((p, True), q)
         else (case draw_random env 0 1 q of (c, q) \<Rightarrow> ((if c \<noteq> 0 then p else cur, True), q)))
      else if \<not> leader then
        (if cur = 0 then ((p, leader), q)
         else (case draw_random env 0 1 q of (c, q) \<Rightarrow> ((if c \<noteq> 0 then p else cur, leader), q)))
      else ((cur, leader), q))"

fun proposal_players ::
  "lfg_env \<Rightarrow> lfg_members \<Rightarrow> roles_map \<Rightarrow> bool \<Rightarrow> LfgProposal \<Rightarrow> lfg_queue \<Rightarrow> (LfgProposal \<times> lfg_queue) lfg_result" where
  "proposal_players env m [] leader pr q = Inr (pr, q)"
| "proposal_players env m ((p, r) # rs) leader pr q =
     (case choose_leader env p r (pr_leader pr, leader) q of ((l, leader), q) \<Rightarrow>
      case sm_find (proposalGroups m) p of
        None \<Rightarrow> Inl BadIterator
      | Some grp \<Rightarrow>
          proposal_players env m rs leader
            (pr\<lparr>pr_leader := l,
               pr_players := sm_set p \<lparr>pp_role = r,
                 pp_accept = (if \<not> pr_isNew pr \<and> grp \<noteq> 0 \<and> grp = pr_group pr then LFG_ANSWER_AGREE
                   else pp_accept (sm_at \<lparr>pp_role = 0, pp_accept = LFG_ANSWER_PENDING, pp_group = 0\<rparr> p (pr_players pr))),
                 pp_group = grp\<rparr> (pr_players pr)\<rparr>) q)"

definition make_proposal ::
  "lfg_env \<Rightarrow> u64 list \<Rightarrow> lfg_members \<Rightarrow> u32 std_set \<Rightarrow> roles_map \<Rightarrow> lfg_queue \<Rightarrow> lfg_queue lfg_result" where
  "make_proposal env check m proposalDungeons proposalRoles q =
     rbind (SelectRandomContainerElement env proposalDungeons q) (\<lambda>(dungeon, q).
     rbind (proposal_players env m proposalRoles False
        \<lparr>pr_id = 0, pr_dungeonId = dungeon, pr_state = LFG_PROPOSAL_INITIATING, pr_group = mb_group m,
          pr_leader = 0, pr_cancelTime = lfg_now env + LFG_TIME_PROPOSAL, pr_encounters = 0,
          pr_isNew = (numLfgGroups m \<noteq> 1 \<or> mgr_dungeon env (hd check) = 0),
          pr_queues = check, pr_showorder = [], pr_players = []\<rparr> q) (\<lambda>(pr, q).
     let q = foldl (\<lambda>q guid. RemoveFromCurrentQueue guid (RemoveFromNewQueue guid q)) q (pr_queues pr) in
     Inr (AddProposal pr q)))"

section \<open>Compatibility\<close>

text \<open>The part of \<^verbatim>\<open>CheckCompatibility\<close> after the check of all but the first entry.\<close>

fun update_best_all :: "u64 list \<Rightarrow> u8 list \<Rightarrow> roles_map \<Rightarrow> lfg_queue \<Rightarrow> lfg_queue lfg_result" where
  "update_best_all [] key rs q = Inr q"
| "update_best_all (guid # gs) key rs q =
     rbind (UpdateBestCompatibleInQueue guid key rs q) (update_best_all gs key rs)"

definition check_group ::
  "lfg_env \<Rightarrow> u64 list \<Rightarrow> lfg_members \<Rightarrow> u32 std_set \<Rightarrow> roles_map \<Rightarrow> lfg_queue \<Rightarrow> (LfgCompatibility \<times> lfg_queue) lfg_result" where
  "check_group env check m proposalDungeons proposalRoles q =
     (let strGuids = ConcatenateGuids check in
      if unat (numPlayers m) \<noteq> MAXGROUPSIZE then
        rbind (update_best_all check strGuids proposalRoles q) (\<lambda>q.
        Inr (LFG_COMPATIBLES_WITH_LESS_PLAYERS,
          SetCompatibilityData strGuids \<lparr>compatibility = LFG_COMPATIBLES_WITH_LESS_PLAYERS, cd_roles = proposalRoles\<rparr> q))
      else if \<not> AllQueued env check then
        Inr (LFG_COMPATIBLES_BAD_STATES, SetCompatibles strGuids LFG_COMPATIBLES_BAD_STATES q)
      else
        rbind (make_proposal env check m proposalDungeons proposalRoles q) (\<lambda>q.
        Inr (LFG_COMPATIBLES_MATCH, SetCompatibles strGuids LFG_COMPATIBLES_MATCH q)))"

definition check_players :: "lfg_env \<Rightarrow> u64 list \<Rightarrow> lfg_queue \<Rightarrow> (LfgCompatibility \<times> lfg_queue) lfg_result" where
  "check_players env check q =
     (let strGuids = ConcatenateGuids check;
          answer = (\<lambda>c. Inr (c, SetCompatibles strGuids c q)) in
      case count_members env q check no_members of
        Inl guid \<Rightarrow> Inr (LFG_COMPATIBILITY_PENDING, RemoveFromQueue guid q)
      | Inr m \<Rightarrow>
        if length check = 1 \<and> unat (numPlayers m) \<noteq> MAXGROUPSIZE then
          (case CheckGroupRoles (roles (entry_at q (hd check))) of
             None \<Rightarrow> Inl OutOfFuel
           | Some (_, rs) \<Rightarrow>
               rbind (UpdateBestCompatibleInQueue (hd check) strGuids rs q) (\<lambda>q.
               Inr (LFG_COMPATIBLES_WITH_LESS_PLAYERS,
                 SetCompatibilityData strGuids \<lparr>compatibility = LFG_COMPATIBLES_WITH_LESS_PLAYERS, cd_roles = rs\<rparr> q)))
        else if 1 < numLfgGroups m then answer LFG_INCOMPATIBLES_MULTIPLE_LFG_GROUPS
        else if MAXGROUPSIZE < unat (numPlayers m) then answer LFG_INCOMPATIBLES_TOO_MUCH_PLAYERS
        else if 1 < length check then
          (let proposalRoles = merge_all env q check in
           if numPlayers m - of_nat (length proposalRoles) \<noteq> 0 then answer LFG_INCOMPATIBLES_HAS_IGNORES
           else case CheckGroupRoles proposalRoles of
             None \<Rightarrow> Inl OutOfFuel
           | Some (fits, proposalRoles) \<Rightarrow>
               if \<not> fits then answer LFG_INCOMPATIBLES_NO_ROLES
               else if common_dungeons q check = [] then answer LFG_INCOMPATIBLES_NO_DUNGEONS
               else check_group env check m (common_dungeons q check) proposalRoles q)
        else
          (case CheckGroupRoles (roles (entry_at q (hd check))) of
             None \<Rightarrow> Inl OutOfFuel
           | Some (_, proposalRoles) \<Rightarrow>
               check_group env check m (dungeons (entry_at q (hd check))) proposalRoles q))"

fun CheckCompatibility :: "lfg_env \<Rightarrow> u64 list \<Rightarrow> lfg_queue \<Rightarrow> (LfgCompatibility \<times> lfg_queue) lfg_result" where
  "CheckCompatibility env [] q = Inr (LFG_INCOMPATIBLES_WRONG_GROUP_SIZE, q)"
| "CheckCompatibility env (frontGuid # check) q =
     (if MAXGROUPSIZE < length (frontGuid # check) then Inr (LFG_INCOMPATIBLES_WRONG_GROUP_SIZE, q)
      else if 2 < length (frontGuid # check) then
        rbind (CheckCompatibility env check q) (\<lambda>(child_compatibles, q).
        if child_compatibles < LFG_COMPATIBLES_WITH_LESS_PLAYERS
        then Inr (child_compatibles, SetCompatibles (ConcatenateGuids (frontGuid # check)) child_compatibles q)
        else check_players env (frontGuid # check) q)
      else check_players env (frontGuid # check) q)"

section \<open>The search\<close>

text \<open>
  \<^verbatim>\<open>FindNewGroups\<close> works on the lists of its caller; they are results here. \<open>match_queued\<close> is its loop.
\<close>

type_synonym match_result = "(LfgCompatibility \<times> u64 list \<times> u64 list \<times> lfg_queue) lfg_result"

fun FindNewGroups :: "lfg_env \<Rightarrow> nat \<Rightarrow> u64 list \<Rightarrow> u64 list \<Rightarrow> lfg_queue \<Rightarrow> match_result"
  and match_queued :: "lfg_env \<Rightarrow> nat \<Rightarrow> LfgCompatibility \<Rightarrow> u64 list \<Rightarrow> u64 list \<Rightarrow> lfg_queue \<Rightarrow> match_result"
where
  "FindNewGroups env 0 check waiting q = Inl OutOfFuel"
| "FindNewGroups env (Suc fuel) check waiting q =
     (let strGuids = ConcatenateGuids check in
      rbind (if GetCompatibles strGuids q = LFG_COMPATIBILITY_PENDING then CheckCompatibility env check q
             else Inr (GetCompatibles strGuids q, q)) (\<lambda>(compatibles, q).
      if compatibles = LFG_COMPATIBLES_BAD_STATES \<and> AllQueued env check
      then Inr (LFG_COMPATIBLES_MATCH, check, waiting, SetCompatibles strGuids LFG_COMPATIBLES_MATCH q)
      else if compatibles \<noteq> LFG_COMPATIBLES_WITH_LESS_PLAYERS then Inr (compatibles, check, waiting, q)
      else match_queued env fuel compatibles check waiting q))"
| "match_queued env 0 compatibles check waiting q = Inl OutOfFuel"
| "match_queued env (Suc fuel) compatibles check waiting q =
     (case waiting of
        [] \<Rightarrow> Inr (compatibles, check, waiting, q)
      | guid # waiting \<Rightarrow>
          rbind (FindNewGroups env fuel (check @ [guid]) waiting q) (\<lambda>(subcompatibility, check, waiting, q).
          if subcompatibility = LFG_COMPATIBLES_MATCH then Inr (LFG_COMPATIBLES_MATCH, check, waiting, q)
          else match_queued env fuel compatibles (butlast check) waiting q))"

fun find_groups_loop :: "lfg_env \<Rightarrow> nat \<Rightarrow> u8 \<Rightarrow> lfg_queue \<Rightarrow> (u8 \<times> lfg_queue) lfg_result" where
  "find_groups_loop env 0 proposals q = Inl OutOfFuel"
| "find_groups_loop env (Suc fuel) proposals q =
     (case newToQueueStore q of
        [] \<Rightarrow> Inr (proposals, q)
      | frontguid # _ \<Rightarrow>
          (let q = RemoveFromNewQueue frontguid q in
           rbind (FindNewGroups env (2 * length (currentQueueStore q) + 2) [frontguid] (currentQueueStore q) q)
             (\<lambda>(compatibles, _, _, q).
           if compatibles = LFG_COMPATIBLES_MATCH then find_groups_loop env fuel (proposals + 1) q
           else find_groups_loop env fuel proposals (AddToCurrentQueue frontguid q))))"

definition FindGroups :: "lfg_env \<Rightarrow> lfg_queue \<Rightarrow> (u8 \<times> lfg_queue) lfg_result" where
  "FindGroups env q = find_groups_loop env (Suc (length (newToQueueStore q))) 0 q"

end
