(* ===== verification/LFG_Proposals.thy ===== *)
theory LFG_Proposals
  imports LFG_Match
begin

text \<open>
  Why the proposals of the dungeon finder are sound: \<open>good_proposal\<close> says what a proposal must
  be, \<open>progress\<close> that a step of the queue keeps what the entries offered and stores
  no other proposals, and the lemmas carry it from \<^verbatim>\<open>CheckCompatibility\<close> through the search.
\<close>

section \<open>What is promised\<close>

definition entry_ok :: "roles_map \<Rightarrow> u32 std_set \<Rightarrow> bool" where
  "entry_ok rs ds \<longleftrightarrow> roles_valid rs \<and> sm_inv rs \<and> length rs \<le> 40 \<and> length ds < 2 ^ 32
     \<and> (length rs = MAXGROUPSIZE \<longrightarrow> ds \<noteq> [] \<and> can_group (map snd (remove_leader_flags rs)))"

definition env_ok :: "lfg_env \<Rightarrow> bool" where
  "env_ok env \<longleftrightarrow> (\<forall>n a b. a \<le> b \<longrightarrow> a \<le> urand env n a b \<and> urand env n a b \<le> b)"

text \<open>What an entry offers: the roles of its players and its dungeons.\<close>

definition offer :: "lfg_queue \<Rightarrow> u64 \<Rightarrow> (roles_map \<times> u32 std_set) option" where
  "offer q guid = map_option (\<lambda>d. (roles d, dungeons d)) (sm_find (QueueDataStore q) guid)"

definition queue_ok :: "lfg_queue \<Rightarrow> bool" where
  "queue_ok q \<longleftrightarrow> sm_inv (QueueDataStore q) \<and> sm_inv (ProposalsStore q)
     \<and> (\<forall>guid rs ds. offer q guid = Some (rs, ds) \<longrightarrow> entry_ok rs ds)"

definition good_players :: "lfg_queue \<Rightarrow> u64 list \<Rightarrow> roles_map \<Rightarrow> bool" where
  "good_players q gs prs \<longleftrightarrow> length prs = MAXGROUPSIZE \<and> sm_inv prs \<and> is_group (map snd prs)
     \<and> (\<forall>guid\<in>set gs. \<exists>rs ds. offer q guid = Some (rs, ds) \<and> fst ` set rs \<subseteq> fst ` set prs)
     \<and> (\<forall>(p, a)\<in>set prs. \<exists>guid\<in>set gs. \<exists>rs ds r. offer q guid = Some (rs, ds) \<and> (p, r) \<in> set rs \<and> r AND a \<noteq> 0)"

definition no_ignores :: "lfg_env \<Rightarrow> u64 set \<Rightarrow> bool" where
  "no_ignores env P \<longleftrightarrow> (\<forall>p\<in>P. \<forall>p'\<in>P. p \<noteq> p' \<longrightarrow> \<not> HasIgnore env p p')"

definition good_proposal :: "lfg_env \<Rightarrow> lfg_queue \<Rightarrow> LfgProposal \<Rightarrow> bool" where
  "good_proposal env q pr \<longleftrightarrow>
     AllQueued env (pr_queues pr)
     \<and> good_players q (pr_queues pr) (map (\<lambda>(p, x). (p, pp_role x)) (pr_players pr))
     \<and> (\<forall>guid\<in>set (pr_queues pr). \<exists>rs ds. offer q guid = Some (rs, ds) \<and> pr_dungeonId pr \<in> set ds)
     \<and> (1 < length (pr_queues pr) \<longrightarrow> no_ignores env (fst ` set (pr_players pr)))
     \<and> pr_leader pr \<in> fst ` set (pr_players pr)"

definition progress :: "lfg_env \<Rightarrow> lfg_queue \<Rightarrow> lfg_queue \<Rightarrow> bool" where
  "progress env q q' \<longleftrightarrow> (queue_ok q \<longrightarrow> queue_ok q' \<and> offer q' = offer q
     \<and> length (newToQueueStore q') \<le> length (newToQueueStore q)
     \<and> (\<forall>i pr. sm_find (ProposalsStore q') i = Some pr \<longrightarrow>
           sm_find (ProposalsStore q) i = Some pr \<or> good_proposal env q pr))"

lemma good_proposal_offer: "offer q' = offer q \<Longrightarrow> good_proposal env q' pr = good_proposal env q pr"
  by (simp add: good_proposal_def good_players_def)

lemma progress_refl [simp, intro]: "progress env q q"
  by (simp add: progress_def)

lemma progress_trans [trans]: "progress env q q' \<Longrightarrow> progress env q' q'' \<Longrightarrow> progress env q q''"
  unfolding progress_def by (metis good_proposal_offer order_trans)

text \<open>A step that leaves the offers and the proposals alone.\<close>

lemma progress_offer:
  assumes "sm_inv (QueueDataStore q) \<Longrightarrow> sm_inv (QueueDataStore q') \<and> offer q' = offer q"
    and "ProposalsStore q' = ProposalsStore q"
    and "length (newToQueueStore q') \<le> length (newToQueueStore q)"
  shows "progress env q q'"
  using assms by (simp add: progress_def queue_ok_def)

lemma progress_same:
  assumes "QueueDataStore q' = QueueDataStore q" and "ProposalsStore q' = ProposalsStore q"
    and "length (newToQueueStore q') \<le> length (newToQueueStore q)"
  shows "progress env q q'"
proof -
  from assms(1) have "offer q' = offer q" by (simp add: offer_def fun_eq_iff)
  with assms show ?thesis by (intro progress_offer) simp_all
qed

lemma offer_SomeD: "offer q guid = Some (rs, ds) \<Longrightarrow> queue_ok q \<Longrightarrow> entry_ok rs ds"
  by (auto simp: queue_ok_def)

lemma progress_SetCompatibles [simp, intro]: "progress env q (SetCompatibles key c q)"
  by (rule progress_same) (simp_all add: SetCompatibles_def Let_def)

lemma progress_SetCompatibilityData [simp, intro]: "progress env q (SetCompatibilityData key c q)"
  by (rule progress_same) (simp_all add: SetCompatibilityData_def)

lemma progress_AddToCurrentQueue [simp, intro]: "progress env q (AddToCurrentQueue guid q)"
  by (rule progress_same) (simp_all add: AddToCurrentQueue_def)

lemma progress_RemoveFromNewQueue [simp, intro]: "progress env q (RemoveFromNewQueue guid q)"
  by (rule progress_same) (simp_all add: RemoveFromNewQueue_def removeAll_filter_not_eq)

section \<open>Updates of entries keep the offers\<close>

definition same_offer :: "LfgQueueData \<Rightarrow> LfgQueueData \<Rightarrow> bool" where
  "same_offer d d' \<longleftrightarrow> roles d' = roles d \<and> dungeons d' = dungeons d"

lemma same_offer_refl [simp]: "same_offer d d"
  by (simp add: same_offer_def)

lemma same_offer_trans: "same_offer d d' \<Longrightarrow> same_offer d' d'' \<Longrightarrow> same_offer d d''"
  by (simp add: same_offer_def)

lemma same_offer_count_roles: "same_offer d (count_roles rs d)"
  by (induction rs d rule: count_roles.induct) (auto simp: same_offer_def)

lemma same_offer_best: "same_offer d (best_of_entry key rs d)"
proof -
  have "same_offer d (count_roles (map snd rs) (d\<lparr>bestCompatible := key, tanks := LFG_TANKS_NEEDED,
      healers := LFG_HEALERS_NEEDED, dps := LFG_DPS_NEEDED\<rparr>))"
    by (rule same_offer_trans [OF _ same_offer_count_roles]) (simp add: same_offer_def)
  then show ?thesis by (simp add: best_of_entry_def Let_def)
qed

lemma same_offer_FindBest: "same_offer d (FindBestCompatibleInQueue cache guid d)"
  unfolding FindBestCompatibleInQueue_def
proof (induction cache arbitrary: d)
  case (Cons e cache)
  obtain key data where e: "e = (key, data)" by (cases e)
  have "same_offer d (if compatibility data = LFG_COMPATIBLES_WITH_LESS_PLAYERS \<and> text_has (guid_text guid) key
      then best_of_entry key (cd_roles data) d else d)"
    by (simp add: same_offer_best)
  from same_offer_trans [OF this Cons] show ?case by (simp add: e)
qed simp

lemma progress_update:
  assumes "sm_find (QueueDataStore q) guid = Some d" and "same_offer d d'"
  shows "progress env q (q\<lparr>QueueDataStore := sm_set guid d' (QueueDataStore q)\<rparr>)"
  using assms by (intro progress_offer) (auto simp: offer_def same_offer_def fun_eq_iff)

lemma progress_UpdateBest:
  assumes "queue_ok q" and "offer q guid \<noteq> None"
  shows "\<exists>q'. UpdateBestCompatibleInQueue guid key rs q = Inr q' \<and> progress env q q'"
  using assms progress_update [OF _ same_offer_best]
  by (auto simp: UpdateBestCompatibleInQueue_def offer_def)

lemma sm_find_map_snd: "sm_find (map (\<lambda>(k, v). (k, f k v)) m) k = map_option (f k) (sm_find m k)"
  by (induction m) auto

lemma sm_inv_map_snd: "sm_inv (map (\<lambda>(k, v). (k, f k v)) m) = sm_inv m"
  by (simp add: sm_inv_def comp_def case_prod_unfold)

lemma forget_best_offers:
  "sm_inv (forget_best cache guid ds) = sm_inv ds"
  "map_option (\<lambda>d. (roles d, dungeons d)) (sm_find (forget_best cache guid ds) k) =
     map_option (\<lambda>d. (roles d, dungeons d)) (sm_find ds k)"
proof -
  have "same_offer d (if k \<noteq> guid \<and> text_has (guid_text guid) (bestCompatible d)
      then FindBestCompatibleInQueue cache k (d\<lparr>bestCompatible := []\<rparr>) else d)" for k d
    using same_offer_trans [OF _ same_offer_FindBest, of d "d\<lparr>bestCompatible := []\<rparr>"]
    by (simp add: same_offer_def)
  then show "sm_inv (forget_best cache guid ds) = sm_inv ds"
    and "map_option (\<lambda>d. (roles d, dungeons d)) (sm_find (forget_best cache guid ds) k) =
      map_option (\<lambda>d. (roles d, dungeons d)) (sm_find ds k)"
    unfolding forget_best_def sm_find_map_snd sm_inv_map_snd
    by (auto simp: same_offer_def option.map_comp comp_def)
qed

lemma progress_RemoveFromQueue:
  assumes "offer q guid = None"
  shows "progress env q (RemoveFromQueue guid q)"
proof (rule progress_offer)
  assume inv: "sm_inv (QueueDataStore q)"
  show "sm_inv (QueueDataStore (RemoveFromQueue guid q)) \<and> offer (RemoveFromQueue guid q) = offer q"
    using inv assms forget_best_offers
    by (auto simp: RemoveFromQueue_def Let_def offer_def fun_eq_iff RemoveFromCompatibles_def
        RemoveFromCurrentQueue_def RemoveFromNewQueue_def)
qed (simp_all add: RemoveFromQueue_def Let_def RemoveFromCompatibles_def RemoveFromCurrentQueue_def
    RemoveFromNewQueue_def removeAll_filter_not_eq)

section \<open>Counting the members\<close>

text \<open>The roles an entry offers; \<open>[]\<close> where there is none.\<close>

definition offered :: "lfg_queue \<Rightarrow> u64 \<Rightarrow> roles_map" where
  "offered q guid = roles (entry_at q guid)"

lemma offer_queue_at: "offer q guid = Some (rs, ds) \<Longrightarrow> roles (entry_at q guid) = rs \<and> dungeons (entry_at q guid) = ds"
  by (auto simp: offer_def entry_at_def)

lemma offer_None: "sm_find (QueueDataStore q) guid = None \<longleftrightarrow> offer q guid = None"
  by (simp add: offer_def)

lemma offer_Some: "sm_find (QueueDataStore q) guid = Some d \<Longrightarrow> offer q guid = Some (roles d, dungeons d)"
  by (simp add: offer_def)

lemma fst_fold_sm_set: "fst ` set (foldl (\<lambda>g (p, _). sm_set p v g) g0 rs) = fst ` set g0 \<union> fst ` set rs"
proof (induction rs arbitrary: g0)
  case (Cons e rs)
  then show ?case by (cases e) (simp only: foldl.simps prod.case fst_sm_set list.set image_insert fst_conv, blast)
qed simp

lemma add_member_simps:
  "numPlayers (add_member env guid d m) = numPlayers m + of_nat (length (roles d))"
  "fst ` set (proposalGroups (add_member env guid d m)) = fst ` set (proposalGroups m) \<union> fst ` set (roles d)"
  by (simp_all add: add_member_def Let_def fst_fold_sm_set)

lemma count_members_ok:
  assumes "queue_ok q" and "count_members env q gs m = Inr m'"
    and "numLfgGroups m' \<le> 1" and "unat (numPlayers m') \<le> MAXGROUPSIZE"
  shows "(\<forall>guid\<in>set gs. offer q guid \<noteq> None)
    \<and> unat (numPlayers m') = unat (numPlayers m) + (\<Sum>guid\<leftarrow>gs. length (offered q guid))
    \<and> fst ` set (proposalGroups m') = fst ` set (proposalGroups m) \<union> (\<Union>guid\<in>set gs. fst ` set (offered q guid))"
  using assms(2)
proof (induction gs arbitrary: m)
  case (Cons guid gs)
  show ?case
  proof (cases "numLfgGroups m < 2 \<and> unat (numPlayers m) \<le> MAXGROUPSIZE")
    case False
    with Cons.prems assms(3,4) show ?thesis by (auto simp: word_le_nat_alt word_less_nat_alt)
  next
    case True
    with Cons.prems obtain d where d: "sm_find (QueueDataStore q) guid = Some d"
      and c: "count_members env q gs (add_member env guid d m) = Inr m'"
      by (auto split: option.splits)
    note off = offer_Some [OF d]
    with assms(1) have "length (roles d) \<le> 40" using offer_SomeD by (auto simp: entry_ok_def)
    with True have "unat (numPlayers (add_member env guid d m)) = unat (numPlayers m) + length (roles d)"
      by (simp add: add_member_simps unat_word_ariths MAXGROUPSIZE_def unat_of_nat)
    with Cons.IH [OF c] off offer_queue_at [OF off] show ?thesis
      by (auto simp: add_member_simps offered_def)
  qed
qed simp

lemma count_members_missing:
  assumes "count_members env q gs m = Inl guid"
  shows "offer q guid = None \<and> guid \<in> set gs"
  using assms by (induction gs arbitrary: m) (auto split: if_splits option.splits simp: offer_None [symmetric])

section \<open>Putting the players together\<close>

lemma HasIgnore_sym: "HasIgnore env a b = HasIgnore env b a"
  by (auto simp: HasIgnore_def)

lemma ignores_any_iff: "ignores_any env p prs \<longleftrightarrow> (\<exists>p'\<in>fst ` set prs. p' \<noteq> p \<and> HasIgnore env p p')"
  by (induction env p prs rule: ignores_any.induct) auto

lemma length_sm_set:
  "sm_inv m \<Longrightarrow> length (sm_set k v m) = length m + of_bool (k \<notin> fst ` set m)"
  by (induction k v m rule: sm_set.induct) (auto simp: not_less)

lemma set_sm_set_new: "k \<notin> fst ` set m \<Longrightarrow> set (sm_set k v m) = insert (k, v) (set m)"
  by (induction k v m rule: sm_set.induct) auto

lemma merge_roles_Cons:
  "merge_roles env ((p, r) # rs) prs = merge_roles env rs (if ignores_any env p prs then prs else sm_set p r prs)"
  by (simp add: merge_roles_def)

lemma merge_roles_append: "merge_roles env (xs @ ys) prs = merge_roles env ys (merge_roles env xs prs)"
  by (simp add: merge_roles_def)

lemma merge_roles_length:
  "sm_inv prs \<Longrightarrow> sm_inv (merge_roles env rs prs) \<and> length (merge_roles env rs prs) \<le> length prs + length rs"
proof (induction rs arbitrary: prs)
  case (Cons e rs)
  obtain p r where e: "e = (p, r)" by (cases e)
  let ?prs = "if ignores_any env p prs then prs else sm_set p r prs"
  have "sm_inv ?prs" and "length ?prs \<le> Suc (length prs)"
    using Cons.prems by (auto simp: length_sm_set)
  with Cons.IH [of ?prs] show ?case unfolding e merge_roles_Cons by fastforce
qed (simp add: merge_roles_def)

text \<open>When nothing is lost on the way, all players are there, all different, and none ignores another.\<close>

lemma merge_roles_full:
  assumes "sm_inv prs" and "length (merge_roles env rs prs) = length prs + length rs"
    and "no_ignores env (fst ` set prs)"
  shows "set (merge_roles env rs prs) = set prs \<union> set rs
    \<and> no_ignores env (fst ` set (merge_roles env rs prs))"
  using assms
proof (induction rs arbitrary: prs)
  case Nil
  then show ?case by (simp add: merge_roles_def)
next
  case (Cons e rs)
  obtain p r where e: "e = (p, r)" by (cases e)
  have new: "\<not> ignores_any env p prs \<and> p \<notin> fst ` set prs"
  proof (rule ccontr)
    assume a: "\<not> (\<not> ignores_any env p prs \<and> p \<notin> fst ` set prs)"
    let ?prs = "if ignores_any env p prs then prs else sm_set p r prs"
    from a Cons.prems(1) have "length ?prs = length prs" and "sm_inv ?prs" by (auto simp: length_sm_set)
    then have "length (merge_roles env rs ?prs) \<le> length prs + length rs"
      using merge_roles_length [of ?prs env rs] by simp
    with Cons.prems(2) show False unfolding e merge_roles_Cons by simp
  qed
  let ?prs = "sm_set p r prs"
  have set: "set ?prs = insert (p, r) (set prs)" using new by (intro set_sm_set_new) simp
  have "no_ignores env (fst ` set ?prs)"
  proof -
    have fs: "fst ` set ?prs = insert p (fst ` set prs)" by (rule fst_sm_set)
    have "\<not> HasIgnore env p p' \<and> \<not> HasIgnore env p' p" if "p' \<in> fst ` set prs" for p'
      using new that HasIgnore_sym [of env p p'] unfolding ignores_any_iff by metis
    with Cons.prems(3) show ?thesis unfolding no_ignores_def fs by blast
  qed
  then have "set (merge_roles env rs ?prs) = set ?prs \<union> set rs \<and> no_ignores env (fst ` set (merge_roles env rs ?prs))"
    using Cons.prems(1,2) new unfolding e merge_roles_Cons
    by (intro Cons.IH) (simp_all add: length_sm_set)
  moreover from set have "set prs \<union> set (e # rs) = set ?prs \<union> set rs" by (simp add: e)
  moreover have "merge_roles env (e # rs) prs = merge_roles env rs ?prs" using new by (simp add: e merge_roles_Cons)
  ultimately show ?case by metis
qed

lemma merge_all_concat:
  "merge_all env q check = merge_roles env (concat (map (offered q) check)) []"
proof -
  have "foldl (\<lambda>prs guid. merge_roles env (roles (entry_at q guid)) prs) prs check
      = merge_roles env (concat (map (offered q) check)) prs" for prs
  proof (induction check arbitrary: prs)
    case (Cons guid check)
    show ?case by (simp only: foldl.simps Cons.IH list.map concat.simps merge_roles_append offered_def)
  qed (simp add: merge_roles_def)
  then show ?thesis by (simp add: merge_all_def)
qed

lemma length_concat_offered: "length (concat (map (offered q) check)) = (\<Sum>guid\<leftarrow>check. length (offered q guid))"
  by (induction check) simp_all

lemma common_dungeons_iff:
  "check \<noteq> [] \<Longrightarrow> d \<in> set (common_dungeons q check) \<longleftrightarrow> (\<forall>guid\<in>set check. d \<in> set (dungeons (entry_at q guid)))"
proof -
  have "d \<in> set (foldl (\<lambda>ds guid. filter (\<lambda>d. d \<in> set (dungeons (entry_at q guid))) ds) ds gs) \<longleftrightarrow>
      d \<in> set ds \<and> (\<forall>guid\<in>set gs. d \<in> set (dungeons (entry_at q guid)))" for ds gs
    by (induction gs arbitrary: ds) auto
  then show "check \<noteq> [] \<Longrightarrow> ?thesis" by (cases check) (auto simp: common_dungeons_def)
qed

lemma length_common_dungeons: "length (common_dungeons q check) \<le> length (dungeons (entry_at q (hd check)))"
proof -
  have "length (foldl (\<lambda>ds guid. filter (\<lambda>d. d \<in> set (dungeons (entry_at q guid))) ds) ds gs) \<le> length ds" for ds gs
  proof (induction gs arbitrary: ds)
    case (Cons g gs)
    let ?P = "\<lambda>d. d \<in> set (dungeons (entry_at q g))"
    from Cons [of "filter ?P ds"] length_filter_le [of ?P ds] show ?case
      unfolding foldl.simps by (rule order_trans)
  qed simp
  then show ?thesis by (simp add: common_dungeons_def)
qed

section \<open>Making the proposal\<close>

lemma draws_same [simp]: "\<exists>n. q = q\<lparr>random_draws := n\<rparr>"
  by (rule exI [of _ "random_draws q"]) simp

lemma SelectRandom_ok:
  assumes "env_ok env" and "ds \<noteq> []" and "length ds < 2 ^ 32"
  shows "\<exists>d n. SelectRandomContainerElement env ds q = Inr (d, q\<lparr>random_draws := n\<rparr>) \<and> d \<in> set ds"
proof -
  let ?b = "of_nat (length ds) - 1 :: u32"
  let ?i = "urand env (random_draws q) 0 ?b"
  have "unat ?b = length ds - 1"
    using assms(2,3) by (simp add: unat_sub_if_size unat_of_nat Suc_le_eq unat_eq_0 word_size)
  moreover from assms(1) have "?i \<le> ?b" by (simp add: env_ok_def)
  ultimately have "unat ?i \<le> length ds - 1" by (simp add: word_le_nat_alt)
  with assms(2) have "unat ?i < length ds" by (cases ds) auto
  then show ?thesis by (auto simp: SelectRandomContainerElement_def draw_random_def)
qed

lemma choose_leader_ok:
  "\<exists>l leader' n. choose_leader env p r (cur, leader) q = ((l, leader'), q\<lparr>random_draws := n\<rparr>)
     \<and> (l = p \<or> l = cur) \<and> (cur = 0 \<and> \<not> leader \<longrightarrow> l = p)"
  by (auto simp: choose_leader_def draw_random_def)

text \<open>The proposal the loop over the players returns, given the one it starts with.\<close>

definition players_added :: "LfgProposal \<Rightarrow> roles_map \<Rightarrow> LfgProposal \<Rightarrow> bool" where
  "players_added pr rs pr' \<longleftrightarrow>
     map (\<lambda>(p, x). (p, pp_role x)) (pr_players pr') = map (\<lambda>(p, x). (p, pp_role x)) (pr_players pr) @ rs
     \<and> pr_queues pr' = pr_queues pr \<and> pr_dungeonId pr' = pr_dungeonId pr
     \<and> (pr_leader pr' = pr_leader pr \<or> pr_leader pr' \<in> fst ` set rs)"

lemma proposal_players_ok:
  assumes "sm_inv (pr_players pr @ map (\<lambda>(p, r). (p, x)) rs)" and "fst ` set rs \<subseteq> fst ` set (proposalGroups m)"
  shows "\<exists>pr' n. proposal_players env m rs leader pr q = Inr (pr', q\<lparr>random_draws := n\<rparr>) \<and> players_added pr rs pr'
    \<and> (pr_leader pr = 0 \<and> \<not> leader \<and> rs \<noteq> [] \<longrightarrow> pr_leader pr' \<in> fst ` set rs)"
  using assms
proof (induction rs arbitrary: leader pr q)
  case Nil
  show ?case by (simp add: players_added_def)
next
  case (Cons e rs)
  obtain p r where e: "e = (p, r)" by (cases e)
  from Cons.prems(2) e obtain grp where grp: "sm_find (proposalGroups m) p = Some grp"
    by (cases "sm_find (proposalGroups m) p") (auto simp: sm_find_None)
  obtain l leader' n where l: "choose_leader env p r (pr_leader pr, leader) q = ((l, leader'), q\<lparr>random_draws := n\<rparr>)"
    and lp: "l = p \<or> l = pr_leader pr" "pr_leader pr = 0 \<and> \<not> leader \<Longrightarrow> l = p" using choose_leader_ok by metis
  define y where "y = \<lparr>pp_role = r,
     pp_accept = (if \<not> pr_isNew pr \<and> grp \<noteq> 0 \<and> grp = pr_group pr then LFG_ANSWER_AGREE
       else pp_accept (sm_at \<lparr>pp_role = 0, pp_accept = LFG_ANSWER_PENDING, pp_group = 0\<rparr> p (pr_players pr))),
     pp_group = grp\<rparr>"
  let ?pr = "pr\<lparr>pr_leader := l, pr_players := sm_set p y (pr_players pr)\<rparr>"
  have less: "\<forall>k'\<in>fst ` set (pr_players pr). k' < p"
    using Cons.prems(1) by (auto simp: sm_inv_def e sorted_wrt_append)
  then have snoc: "sm_set p y (pr_players pr) = pr_players pr @ [(p, y)]" by (rule sm_set_snoc)
  have "sm_inv (pr_players ?pr @ map (\<lambda>(p, r). (p, x)) rs)"
    using Cons.prems(1) by (simp add: snoc sm_inv_def e comp_def case_prod_unfold)
  moreover have "fst ` set rs \<subseteq> fst ` set (proposalGroups m)" using Cons.prems(2) by simp
  ultimately obtain pr' n' where
    "proposal_players env m rs leader' ?pr (q\<lparr>random_draws := n\<rparr>) = Inr (pr', q\<lparr>random_draws := n, random_draws := n'\<rparr>)"
    and added: "players_added ?pr rs pr'" using Cons.IH by blast
  then have "proposal_players env m (e # rs) leader pr q = Inr (pr', q\<lparr>random_draws := n'\<rparr>)"
    using l grp by (simp add: e y_def)
  moreover have "pp_role y = r" by (simp add: y_def)
  then have "players_added pr (e # rs) pr'"
    using added lp(1) by (auto simp: players_added_def snoc e)
  moreover from added lp(2) have "pr_leader pr = 0 \<and> \<not> leader \<longrightarrow> pr_leader pr' \<in> fst ` set (e # rs)"
    by (auto simp: players_added_def e)
  ultimately show ?case by blast
qed

lemma removals_only:
  "foldl (\<lambda>q guid. RemoveFromCurrentQueue guid (RemoveFromNewQueue guid q)) q gs =
     q\<lparr>newToQueueStore := filter (\<lambda>g. g \<notin> set gs) (newToQueueStore q),
       currentQueueStore := filter (\<lambda>g. g \<notin> set gs) (currentQueueStore q)\<rparr>"
proof (induction gs arbitrary: q)
  case (Cons g gs)
  have "filter (\<lambda>x. x \<notin> set gs) (removeAll g xs) = filter (\<lambda>x. x \<notin> set (g # gs)) xs" for xs
    by (induction xs) auto
  with Cons show ?case by (simp add: RemoveFromCurrentQueue_def RemoveFromNewQueue_def)
qed simp

lemma make_proposal_ok:
  assumes env: "env_ok env" and q: "queue_ok q"
    and ds: "ds \<noteq> []" "length ds < 2 ^ 32" and rs: "sm_inv rs" "rs \<noteq> []"
    and groups: "fst ` set rs \<subseteq> fst ` set (proposalGroups m)"
    and good: "\<And>pr. pr_queues pr = check \<Longrightarrow> pr_dungeonId pr \<in> set ds \<Longrightarrow>
        map (\<lambda>(p, x). (p, pp_role x)) (pr_players pr) = rs \<Longrightarrow> pr_leader pr \<in> fst ` set rs \<Longrightarrow>
        good_proposal env q pr"
  shows "\<exists>q'. make_proposal env check m ds rs q = Inr q' \<and> progress env q q'"
proof -
  from SelectRandom_ok [OF env ds] obtain d n where
    sel: "SelectRandomContainerElement env ds q = Inr (d, q\<lparr>random_draws := n\<rparr>)" and d: "d \<in> set ds" by blast
  define pr where "pr = \<lparr>pr_id = 0, pr_dungeonId = d, pr_state = LFG_PROPOSAL_INITIATING, pr_group = mb_group m,
    pr_leader = 0, pr_cancelTime = lfg_now env + LFG_TIME_PROPOSAL, pr_encounters = 0,
    pr_isNew = (numLfgGroups m \<noteq> 1 \<or> mgr_dungeon env (hd check) = 0),
    pr_queues = check, pr_showorder = [], pr_players = []\<rparr>"
  have "sm_inv (pr_players pr @ map (\<lambda>(p, r). (p, undefined)) rs)"
    using rs(1) by (simp add: pr_def sm_inv_def comp_def case_prod_unfold)
  from proposal_players_ok [OF this groups, of env False "q\<lparr>random_draws := n\<rparr>"] obtain pr' n' where
    pl: "proposal_players env m rs False pr (q\<lparr>random_draws := n\<rparr>) = Inr (pr', q\<lparr>random_draws := n, random_draws := n'\<rparr>)"
    and added: "players_added pr rs pr'" and l: "pr_leader pr' \<in> fst ` set rs"
    using rs(2) by (auto simp: pr_def)
  define q' where "q' = AddProposal pr' (foldl (\<lambda>q guid. RemoveFromCurrentQueue guid (RemoveFromNewQueue guid q))
    (q\<lparr>random_draws := n'\<rparr>) (pr_queues pr'))"
  have "make_proposal env check m ds rs q = Inr q'"
    unfolding make_proposal_def sel rbind_Inr prod.case pr_def [symmetric] pl by (simp add: q'_def Let_def)
  moreover have "good_proposal env q (pr'\<lparr>pr_id := i\<rparr>)" for i
    using added l d by (intro good) (auto simp: players_added_def pr_def)
  then have "progress env q q'"
    using q by (auto simp: progress_def queue_ok_def q'_def AddProposal_def Let_def removals_only offer_def split: if_splits)
  ultimately show ?thesis by blast
qed

end
