(* ===== verification/LFG_Search.thy ===== *)
theory LFG_Search
  imports LFG_Proposals
begin

text \<open>
  \<^verbatim>\<open>CheckCompatibility\<close>, \<^verbatim>\<open>FindNewGroups\<close> and \<^verbatim>\<open>FindGroups\<close> always return, make only good
  proposals, and leave the offers of the queue as they are.
\<close>

section \<open>One combination\<close>

lemma CheckGroupRoles_ex:
  assumes "roles_valid g" and "length g < 256"
  shows "\<exists>r. CheckGroupRoles g = Some r"
  using CheckGroupRoles_ok [OF assms] by (cases "g = []") auto

lemma map_fst_set: "map fst g' = map fst g \<Longrightarrow> fst ` set g' = fst ` set g"
  by (metis list.set_map)

lemma assigned_from:
  assumes "roles_result (remove_leader_flags g) (True, g')" and "(p, a) \<in> set g'"
  shows "\<exists>r. (p, r) \<in> set g \<and> r AND a \<noteq> 0"
proof -
  let ?h = "remove_leader_flags g"
  from assms(1) have keys: "map fst g' = map fst g" and as: "assignment (map snd ?h) (map snd g')"
    by (auto simp: roles_result_def map_remove_leader_flags)
  then have len: "length g' = length g" by (metis length_map)
  from assms(2) obtain i where i: "i < length g'" "g' ! i = (p, a)" by (auto simp: in_set_conv_nth)
  with keys len have "fst (g ! i) = p" by (metis fst_conv nth_map)
  then have gi: "(p, snd (g ! i)) \<in> set g" using i(1) len by (metis nth_mem prod.collapse)
  have "(snd (g ! i) AND NOT PLAYER_ROLE_LEADER) AND a \<noteq> 0"
    using assignment_nth [OF as, of i] i len by (simp add: map_remove_leader_flags)
  then have "snd (g ! i) AND a \<noteq> 0" by (auto simp: and.assoc and.left_commute)
  with gi show ?thesis by blast
qed

lemma good_players_from:
  assumes "sm_inv g" and "length g = MAXGROUPSIZE" and "roles_result (remove_leader_flags g) (True, g')"
    and "\<forall>guid\<in>set gs. offer q guid \<noteq> None" and "set g = (\<Union>guid\<in>set gs. set (offered q guid))"
  shows "good_players q gs g'" and "sm_inv g'" and "fst ` set g' = fst ` set g"
proof -
  have keys: "map fst g' = map fst g" and grp: "is_group (map snd g')"
    using assms(3) by (auto simp: roles_result_def map_remove_leader_flags)
  then show inv: "sm_inv g'" using assms(1) by (simp add: sm_inv_def)
  show fst: "fst ` set g' = fst ` set g" using keys by (rule map_fst_set)
  have off: "\<exists>rs ds. offer q guid = Some (rs, ds) \<and> rs = offered q guid" if "guid \<in> set gs" for guid
    using assms(4) that offer_queue_at by (fastforce simp: offered_def)
  have "length g' = MAXGROUPSIZE" using keys assms(2) by (metis length_map)
  moreover have "\<exists>rs ds. offer q guid = Some (rs, ds) \<and> fst ` set rs \<subseteq> fst ` set g'" if "guid \<in> set gs" for guid
    using off [OF that] that unfolding fst assms(5) by blast
  moreover have "\<exists>guid\<in>set gs. \<exists>rs ds r. offer q guid = Some (rs, ds) \<and> (p, r) \<in> set rs \<and> r AND a \<noteq> 0"
    if "(p, a) \<in> set g'" for p a
    using assigned_from [OF assms(3) that] off unfolding assms(5) by blast
  ultimately show "good_players q gs g'" using inv grp by (auto simp: good_players_def)
qed

lemma update_best_all_ok:
  assumes "queue_ok q" and "\<forall>guid\<in>set gs. offer q guid \<noteq> None"
  shows "\<exists>q'. update_best_all gs key rs q = Inr q' \<and> progress env q q'"
  using assms
proof (induction gs arbitrary: q)
  case (Cons guid gs)
  from Cons.prems(2) have "offer q guid \<noteq> None" by simp
  with progress_UpdateBest [OF Cons.prems(1)]
  obtain q1 where q1: "UpdateBestCompatibleInQueue guid key rs q = Inr q1" "progress env q q1" by blast
  then have "queue_ok q1" "offer q1 = offer q" using Cons.prems(1) by (simp_all add: progress_def)
  moreover have "\<forall>g\<in>set gs. offer q g \<noteq> None" using Cons.prems(2) by simp
  ultimately obtain q2 where q2: "update_best_all gs key rs q1 = Inr q2" "progress env q1 q2"
    using Cons.IH [of q1] by (simp only:) blast
  from progress_trans [OF q1(2) q2(2)] q1(1) q2(1) show ?case by simp
qed auto

lemma check_group_ok:
  assumes "env_ok env" and "queue_ok q" and "\<forall>guid\<in>set check. offer q guid \<noteq> None"
    and "ds \<noteq> []" and "length ds < 2 ^ 32"
    and "unat (numPlayers m) = MAXGROUPSIZE \<Longrightarrow> sm_inv rs \<and> rs \<noteq> [] \<and> fst ` set rs \<subseteq> fst ` set (proposalGroups m)"
    and "\<And>pr. unat (numPlayers m) = MAXGROUPSIZE \<Longrightarrow> AllQueued env check \<Longrightarrow> pr_queues pr = check \<Longrightarrow>
        pr_dungeonId pr \<in> set ds \<Longrightarrow> map (\<lambda>(p, x). (p, pp_role x)) (pr_players pr) = rs \<Longrightarrow>
        pr_leader pr \<in> fst ` set rs \<Longrightarrow> good_proposal env q pr"
  shows "\<exists>c q'. check_group env check m ds rs q = Inr (c, q') \<and> progress env q q'"
proof -
  consider (less) "unat (numPlayers m) \<noteq> MAXGROUPSIZE" | (bad) "unat (numPlayers m) = MAXGROUPSIZE" "\<not> AllQueued env check"
    | (match) "unat (numPlayers m) = MAXGROUPSIZE" "AllQueued env check" by blast
  then show ?thesis
  proof cases
    case less
    obtain q1 where "update_best_all check (ConcatenateGuids check) rs q = Inr q1" "progress env q q1"
      using update_best_all_ok assms(2,3) by blast
    with less show ?thesis by (auto simp: check_group_def Let_def intro: progress_trans)
  next
    case bad
    then show ?thesis by (auto simp: check_group_def Let_def)
  next
    case match
    obtain q1 where "make_proposal env check m ds rs q = Inr q1" "progress env q q1"
      using make_proposal_ok [OF assms(1,2,4,5), of rs m check] assms(6,7) match by blast
    with match show ?thesis by (auto simp: check_group_def Let_def intro: progress_trans)
  qed
qed

lemma merge_all_full:
  assumes q: "queue_ok q" and offers: "\<forall>guid\<in>set check. offer q guid \<noteq> None"
    and sum: "unat (n :: u8) = (\<Sum>guid\<leftarrow>check. length (offered q guid))"
    and all: "n - of_nat (length (merge_all env q check)) = 0"
  shows "set (merge_all env q check) = (\<Union>guid\<in>set check. set (offered q guid))"
    and "no_ignores env (fst ` set (merge_all env q check))"
    and "sm_inv (merge_all env q check)" and "length (merge_all env q check) = unat n"
    and "roles_valid (merge_all env q check)"
proof -
  let ?L = "concat (map (offered q) check)"
  have len: "length ?L = unat n" using sum by (simp add: length_concat_offered)
  have inv: "sm_inv (merge_all env q check)" and "length (merge_all env q check) \<le> length ?L"
    using merge_roles_length [of "[]" env ?L] by (simp_all add: merge_all_concat)
  moreover from all have "of_nat (length (merge_all env q check)) = n" by simp
  moreover have "unat n < 2 ^ 8" using unsigned_less [of n] by simp
  ultimately have eq: "length (merge_all env q check) = unat n"
    using len by (auto simp: unat_of_nat)
  have "no_ignores env (fst ` set [])" by (simp add: no_ignores_def)
  moreover have "length (merge_roles env ?L []) = length [] + length ?L"
    using eq len by (simp add: merge_all_concat)
  ultimately have "set (merge_roles env ?L []) = set [] \<union> set ?L \<and> no_ignores env (fst ` set (merge_roles env ?L []))"
    by (intro merge_roles_full) simp_all
  then have full: "set (merge_all env q check) = set ?L" "no_ignores env (fst ` set (merge_all env q check))"
    unfolding merge_all_concat by (simp, blast)
  then show set: "set (merge_all env q check) = (\<Union>guid\<in>set check. set (offered q guid))" by simp
  from full(2) show "no_ignores env (fst ` set (merge_all env q check))" by blast
  show "sm_inv (merge_all env q check)" by (rule inv)
  show "length (merge_all env q check) = unat n" by (rule eq)
  have "roles_valid (offered q guid)" if "guid \<in> set check" for guid
  proof -
    from that offers obtain rs ds where o: "offer q guid = Some (rs, ds)" by fastforce
    with offer_SomeD [OF o q] offer_queue_at [OF o] show ?thesis by (simp add: offered_def entry_ok_def)
  qed
  then show "roles_valid (merge_all env q check)" by (auto simp: roles_valid_def set)
qed

text \<open>The result of \<^verbatim>\<open>CheckCompatibility\<close> on the ways through \<open>check_players\<close>.\<close>

definition answers :: "lfg_env \<Rightarrow> lfg_queue \<Rightarrow> (LfgCompatibility \<times> lfg_queue) lfg_result \<Rightarrow> bool" where
  "answers env q r \<longleftrightarrow> (\<exists>c q'. r = Inr (c, q') \<and> progress env q q')"

lemma answersI: "r = Inr (c, q') \<Longrightarrow> progress env q q' \<Longrightarrow> answers env q r"
  by (auto simp: answers_def)

lemma check_one_less_ok:
  assumes q: "queue_ok q" and m: "count_members env q [g] no_members = Inr m"
    and less: "unat (numPlayers m) \<noteq> MAXGROUPSIZE"
  shows "answers env q (check_players env [g] q)"
proof -
  from m obtain d where d: "sm_find (QueueDataStore q) g = Some d"
    by (auto simp: no_members_def MAXGROUPSIZE_def split: option.splits)
  note off = offer_Some [OF d]
  then have "entry_ok (roles d) (dungeons d)" using q offer_SomeD by blast
  then obtain b rs where rs: "CheckGroupRoles (roles d) = Some (b, rs)"
    using CheckGroupRoles_ex [of "roles d"] by (auto simp: entry_ok_def)
  have "offer q g \<noteq> None" using off by simp
  from progress_UpdateBest [OF q this] obtain q1 where
    q1: "UpdateBestCompatibleInQueue g (ConcatenateGuids [g]) rs q = Inr q1" "progress env q q1" by blast
  with less m rs offer_queue_at [OF off] show ?thesis
    by (auto simp: answers_def check_players_def Let_def intro: progress_trans)
qed

lemma set_pr_players:
  "map (\<lambda>(p, x). (p, pp_role x)) (pr_players pr) = rs \<Longrightarrow> fst ` set (pr_players pr) = fst ` set rs"
  by (rule sym, rule map_fst_set) auto

lemma check_one_full_ok:
  assumes env: "env_ok env" and q: "queue_ok q" and off: "offer q g = Some (rs0, ds0)"
    and m: "count_members env q [g] no_members = Inr m" and lfg: "numLfgGroups m \<le> 1"
    and n: "unat (numPlayers m) = MAXGROUPSIZE" and len: "length rs0 = MAXGROUPSIZE"
    and keys: "fst ` set (proposalGroups m) = fst ` set rs0"
  shows "answers env q (check_players env [g] q)"
proof -
  from len offer_SomeD [OF off q] have can: "can_group (map snd (remove_leader_flags rs0))"
    and valid: "roles_valid rs0" and inv: "sm_inv rs0" and ds: "ds0 \<noteq> []" "length ds0 < 2 ^ 32"
    by (simp_all add: entry_ok_def)
  have ne: "rs0 \<noteq> []" using len by (auto simp: MAXGROUPSIZE_def)
  obtain b rs where rs: "CheckGroupRoles rs0 = Some (b, rs)"
    and res: "roles_result (remove_leader_flags rs0) (b, rs)"
    using CheckGroupRoles_ok [OF valid _ ne] len by (auto simp: MAXGROUPSIZE_def)
  with can have res: "roles_result (remove_leader_flags rs0) (True, rs)" by (simp add: roles_result_def)
  have offs: "\<forall>guid\<in>set [g]. offer q guid \<noteq> None" "set rs0 = (\<Union>guid\<in>set [g]. set (offered q guid))"
    using off offer_queue_at [OF off] by (simp_all add: offered_def)
  note gp = good_players_from [OF inv len res offs]
  have "\<exists>c q'. check_group env [g] m ds0 rs q = Inr (c, q') \<and> progress env q q'"
  proof (rule check_group_ok [OF env q offs(1) ds])
    show "sm_inv rs \<and> rs \<noteq> [] \<and> fst ` set rs \<subseteq> fst ` set (proposalGroups m)"
      using gp(2,3) ne by (auto simp: keys)
    fix pr :: LfgProposal
    assume pr: "AllQueued env [g]" "pr_queues pr = [g]" "pr_dungeonId pr \<in> set ds0"
      "map (\<lambda>(p, x). (p, pp_role x)) (pr_players pr) = rs" "pr_leader pr \<in> fst ` set rs"
    from pr gp(1) off set_pr_players [OF pr(4)] show "good_proposal env q pr" by (simp add: good_proposal_def)
  qed
  with lfg n m rs offer_queue_at [OF off] show ?thesis
    by (auto simp: answers_def check_players_def Let_def)
qed

lemma check_many_ok:
  assumes env: "env_ok env" and q: "queue_ok q" and many: "1 < length check"
    and m: "count_members env q check no_members = Inr m" and lfg: "numLfgGroups m \<le> 1"
    and n: "unat (numPlayers m) \<le> MAXGROUPSIZE" and offers: "\<forall>guid\<in>set check. offer q guid \<noteq> None"
    and sum: "unat (numPlayers m) = (\<Sum>guid\<leftarrow>check. length (offered q guid))"
    and keys: "fst ` set (proposalGroups m) = (\<Union>guid\<in>set check. fst ` set (offered q guid))"
  shows "answers env q (check_players env check q)"
proof (cases "numPlayers m - of_nat (length (merge_all env q check)) = 0")
  case False
  with many m lfg n show ?thesis by (auto simp: answers_def check_players_def Let_def)
next
  case all: True
  let ?prs = "merge_all env q check"
  note full = merge_all_full [OF q offers sum all]
  have len: "length ?prs < 256" using full(4) n by (simp add: MAXGROUPSIZE_def)
  obtain b rs where rs: "CheckGroupRoles ?prs = Some (b, rs)"
    using CheckGroupRoles_ex [OF full(5) len] by auto
  show ?thesis
  proof (cases "b \<and> common_dungeons q check \<noteq> []")
    case False
    with many m lfg n all rs show ?thesis by (auto simp: answers_def check_players_def Let_def)
  next
    case fits: True
    from many have ne: "check \<noteq> []" by auto
    have at: "\<exists>rs ds. offer q guid = Some (rs, ds) \<and> dungeons (entry_at q guid) = ds \<and> length ds < 2 ^ 32"
      if "guid \<in> set check" for guid
    proof -
      from offers that obtain rs ds where o: "offer q guid = Some (rs, ds)" by fastforce
      with offer_SomeD [OF o q] offer_queue_at [OF o] show ?thesis by (simp add: entry_ok_def)
    qed
    from fits rs have ne': "?prs \<noteq> []" by auto
    from CheckGroupRoles_ok [OF full(5) len ne'] rs fits
    have res: "roles_result (remove_leader_flags ?prs) (True, rs)" by simp
    have "\<exists>c q'. check_group env check m (common_dungeons q check) rs q = Inr (c, q') \<and> progress env q q'"
    proof (rule check_group_ok [OF env q offers])
      show "length (common_dungeons q check) < 2 ^ 32"
        using length_common_dungeons [of q check] at [of "hd check"] ne by fastforce
    next
      assume "unat (numPlayers m) = MAXGROUPSIZE"
      with full(4) have "length ?prs = MAXGROUPSIZE" by simp
      note gp = good_players_from [OF full(3) this res offers full(1)]
      have "rs \<noteq> []" using gp(3) ne' by auto
      then show "sm_inv rs \<and> rs \<noteq> [] \<and> fst ` set rs \<subseteq> fst ` set (proposalGroups m)"
        using gp(2,3) by (auto simp: keys full(1))
      fix pr :: LfgProposal
      assume pr: "AllQueued env check" "pr_queues pr = check" "pr_dungeonId pr \<in> set (common_dungeons q check)"
        "map (\<lambda>(p, x). (p, pp_role x)) (pr_players pr) = rs" "pr_leader pr \<in> fst ` set rs"
      have "\<exists>rs ds. offer q guid = Some (rs, ds) \<and> pr_dungeonId pr \<in> set ds" if "guid \<in> set check" for guid
        using at [OF that] pr(3) that common_dungeons_iff [OF ne] by auto
      moreover have "no_ignores env (fst ` set (pr_players pr))"
        unfolding set_pr_players [OF pr(4)] gp(3) by (rule full(2))
      ultimately show "good_proposal env q pr"
        using pr gp(1) set_pr_players [OF pr(4)] by (simp add: good_proposal_def)
    qed (use fits in simp)
    with many m lfg n all rs fits show ?thesis by (auto simp: answers_def check_players_def Let_def)
  qed
qed

lemma check_players_ok:
  assumes env: "env_ok env" and q: "queue_ok q" and ne: "check \<noteq> []"
  shows "answers env q (check_players env check q)"
proof (cases "count_members env q check no_members")
  case (Inl guid)
  from count_members_missing [OF this] have "offer q guid = None" by simp
  from progress_RemoveFromQueue [OF this] Inl show ?thesis by (simp add: answers_def check_players_def Let_def)
next
  case (Inr m)
  show ?thesis
  proof (cases "length check = 1 \<and> unat (numPlayers m) \<noteq> MAXGROUPSIZE")
    case True
    then obtain g where "check = [g]" by (cases check) auto
    with check_one_less_ok [OF q] Inr True show ?thesis by simp
  next
    case False
    show ?thesis
    proof (cases "1 < numLfgGroups m \<or> MAXGROUPSIZE < unat (numPlayers m)")
      case True
      with False Inr show ?thesis by (auto simp: answers_def check_players_def Let_def)
    next
      case small: False
      then have small': "numLfgGroups m \<le> 1" "unat (numPlayers m) \<le> MAXGROUPSIZE" by auto
      from count_members_ok [OF q Inr small'] have offers: "\<forall>guid\<in>set check. offer q guid \<noteq> None"
        and sum: "unat (numPlayers m) = (\<Sum>guid\<leftarrow>check. length (offered q guid))"
        and keys: "fst ` set (proposalGroups m) = (\<Union>guid\<in>set check. fst ` set (offered q guid))"
        by (simp_all add: no_members_def)
      show ?thesis
      proof (cases "1 < length check")
        case True
        from check_many_ok [OF env q this Inr small' offers sum keys] show ?thesis .
      next
        case one: False
        then obtain g where g: "check = [g]" using ne by (cases check) auto
        with offers obtain rs0 ds0 where off: "offer q g = Some (rs0, ds0)" by auto
        with check_one_full_ok [OF env q off] g False sum keys Inr small' offer_queue_at [OF off]
        show ?thesis by (simp add: offered_def)
      qed
    qed
  qed
qed

section \<open>The search\<close>

lemma progress_queue_ok: "progress env q q' \<Longrightarrow> queue_ok q \<Longrightarrow> queue_ok q'"
  by (simp add: progress_def)

lemma CheckCompatibility_ok:
  assumes env: "env_ok env"
  shows "queue_ok q \<Longrightarrow> answers env q (CheckCompatibility env check q)"
proof (induction check arbitrary: q)
  case Nil
  then show ?case by (auto simp: answers_def)
next
  case (Cons g check)
  have ne: "g # check \<noteq> []" by simp
  show ?case
  proof (cases "length (g # check) \<le> MAXGROUPSIZE \<and> 2 < length (g # check)")
    case False
    with check_players_ok [OF env Cons.prems ne] show ?thesis by (auto simp: answers_def)
  next
    case True
    from Cons.IH [OF Cons.prems] obtain c q1 where c: "CheckCompatibility env check q = Inr (c, q1)"
      and q1: "progress env q q1" unfolding answers_def by blast
    then have "queue_ok q1" using Cons.prems progress_queue_ok by blast
    from check_players_ok [OF env this ne] q1 True c show ?thesis
      by (auto simp: answers_def intro: progress_trans)
  qed
qed

definition found :: "lfg_env \<Rightarrow> u64 list \<Rightarrow> lfg_queue \<Rightarrow> match_result \<Rightarrow> bool" where
  "found env waiting q r \<longleftrightarrow> (\<exists>c check' waiting' q'. r = Inr (c, check', waiting', q') \<and> progress env q q'
     \<and> length waiting' \<le> length waiting)"

lemma foundI:
  "progress env q q' \<Longrightarrow> length waiting' \<le> length waiting \<Longrightarrow> found env waiting q (Inr (c, check', waiting', q'))"
  by (auto simp: found_def)

lemma found_trans:
  "progress env q q1 \<Longrightarrow> length w1 \<le> length w \<Longrightarrow> found env w1 q1 r \<Longrightarrow> found env w q r"
  unfolding found_def by (blast intro: progress_trans order_trans)

lemma FindNewGroups_ok:
  shows "env_ok env \<Longrightarrow> queue_ok q \<Longrightarrow> 2 * length waiting + 2 \<le> fuel \<Longrightarrow> found env waiting q (FindNewGroups env fuel check waiting q)"
    and "env_ok env \<Longrightarrow> queue_ok q \<Longrightarrow> 2 * length waiting + 1 \<le> fuel \<Longrightarrow> found env waiting q (match_queued env fuel c check waiting q)"
proof (induction env fuel check waiting q and env fuel c check waiting q rule: FindNewGroups_match_queued.induct)
  case (2 env fuel check waiting q)
  let ?key = "ConcatenateGuids check"
  let ?r = "if GetCompatibles ?key q = LFG_COMPATIBILITY_PENDING then CheckCompatibility env check q
    else Inr (GetCompatibles ?key q, q)"
  have "answers env q ?r" using CheckCompatibility_ok [OF "2.prems"(1) "2.prems"(2)] by (auto simp: answers_def)
  then obtain c q1 where r: "?r = Inr (c, q1)" and q1: "progress env q q1" unfolding answers_def by blast
  note q1_ok = progress_queue_ok [OF q1 "2.prems"(2)]
  show ?case
  proof (cases "c = LFG_COMPATIBLES_WITH_LESS_PLAYERS")
    case True
    have "found env waiting q1 (match_queued env fuel c check waiting q1)"
      using "2.IH" [OF refl r refl] True q1_ok "2.prems" by simp
    from found_trans [OF q1 _ this] True show ?thesis by (simp add: r Let_def)
  next
    case False
    with q1 show ?thesis by (auto simp: r Let_def found_def intro: progress_trans)
  qed
next
  case (4 env fuel c check waiting q)
  show ?case
  proof (cases waiting)
    case Nil
    then show ?thesis by (simp add: found_def)
  next
    case (Cons g w)
    with "4.IH"(1) [OF Cons "4.prems"(1,2)] "4.prems"(3)
    have "found env w q (FindNewGroups env fuel (check @ [g]) w q)" by simp
    then obtain sub check1 w1 q1 where f: "FindNewGroups env fuel (check @ [g]) w q = Inr (sub, check1, w1, q1)"
      and q1: "progress env q q1" and w1: "length w1 \<le> length w" unfolding found_def by blast
    note q1_ok = progress_queue_ok [OF q1 "4.prems"(2)]
    show ?thesis
    proof (cases "sub = LFG_COMPATIBLES_MATCH")
      case True
      with q1 w1 Cons f show ?thesis by (simp add: found_def)
    next
      case False
      have "found env w1 q1 (match_queued env fuel c (butlast check1) w1 q1)"
        using "4.IH"(2) [OF Cons f refl refl refl False "4.prems"(1) q1_ok] "4.prems"(3) Cons w1 by simp
      from found_trans [OF q1 _ this, of waiting] False Cons f w1 show ?thesis by simp
    qed
  qed
qed simp_all

end
