(* ===== verification/LFG_Properties.thy ===== *)
theory LFG_Properties
  imports LFG_Search
begin

text \<open>
  The properties of the dungeon finder queue: the role search decides what it is asked, every
  search ends and makes only sound proposals, leaving the queue leaves no trace, the
  averages stay in range; and the one way in which a matched group is lost.
\<close>

section \<open>Lemmas\<close>

lemma find_groups_loop_ok:
  "env_ok env \<Longrightarrow> queue_ok q \<Longrightarrow> length (newToQueueStore q) < fuel \<Longrightarrow>
     \<exists>n q'. find_groups_loop env fuel k q = Inr (n, q') \<and> progress env q q' \<and> newToQueueStore q' = []"
proof (induction fuel arbitrary: k q)
  case (Suc fuel)
  show ?case
  proof (cases "newToQueueStore q")
    case Nil
    then show ?thesis by simp
  next
    case (Cons g gs)
    let ?q = "RemoveFromNewQueue g q"
    let ?w = "currentQueueStore ?q"
    have q0: "progress env q ?q" by simp
    note ok = progress_queue_ok [OF q0 Suc.prems(2)]
    from FindNewGroups_ok(1) [OF Suc.prems(1) ok, of ?w "2 * length ?w + 2" "[g]"]
    obtain c check w q1 where f: "FindNewGroups env (2 * length ?w + 2) [g] ?w ?q = Inr (c, check, w, q1)"
      and q1: "progress env ?q q1" unfolding found_def by blast
    have "length (newToQueueStore ?q) < length (newToQueueStore q)"
      using Cons by (simp add: RemoveFromNewQueue_def removeAll_filter_not_eq less_Suc_eq_le)
    then have short: "length (newToQueueStore q1) < fuel" using q1 ok Suc.prems(3) by (simp add: progress_def)
    define q2 where "q2 = (if c = LFG_COMPATIBLES_MATCH then q1 else AddToCurrentQueue g q1)"
    have q12: "progress env q1 q2" by (simp add: q2_def)
    have "length (newToQueueStore q2) < fuel" using short by (simp add: q2_def AddToCurrentQueue_def)
    from Suc.IH [OF Suc.prems(1) progress_queue_ok [OF q12 progress_queue_ok [OF q1 ok]] this]
    obtain n q' where "find_groups_loop env fuel (if c = LFG_COMPATIBLES_MATCH then k + 1 else k) q2 = Inr (n, q')"
      and q': "progress env q2 q'" "newToQueueStore q' = []" by blast
    moreover have "find_groups_loop env (Suc fuel) k q =
        find_groups_loop env fuel (if c = LFG_COMPATIBLES_MATCH then k + 1 else k) q2"
      using Cons f by (simp add: q2_def Let_def)
    moreover have "progress env q q'" using q0 q1 q12 q'(1) by (blast intro: progress_trans)
    ultimately show ?thesis by auto
  qed
qed simp

lemma guid_text_ne [simp]: "guid_text g \<noteq> []"
  by (simp add: guid_text_def)

lemma best_of_entry_key: "bestCompatible (best_of_entry key rs d) \<in> {key, bestCompatible d}"
proof -
  have "bestCompatible (count_roles rs d) = bestCompatible d" for rs d
    by (induction rs d rule: count_roles.induct) auto
  then show ?thesis by (simp add: best_of_entry_def Let_def)
qed

lemma FindBest_Cons:
  "FindBestCompatibleInQueue ((key, data) # cache) g d = FindBestCompatibleInQueue cache g
     (if compatibility data = LFG_COMPATIBLES_WITH_LESS_PLAYERS \<and> text_has (guid_text g) key
      then best_of_entry key (cd_roles data) d else d)"
  by (simp add: FindBestCompatibleInQueue_def)

lemma FindBest_key:
  "bestCompatible (FindBestCompatibleInQueue cache g d) \<in> insert (bestCompatible d) (fst ` set cache)"
proof (induction cache arbitrary: d)
  case (Cons e cache)
  obtain key data where e: "e = (key, data)" by (cases e)
  define d' where "d' = (if compatibility data = LFG_COMPATIBLES_WITH_LESS_PLAYERS \<and> text_has (guid_text g) key
    then best_of_entry key (cd_roles data) d else d)"
  have "bestCompatible d' \<in> {key, bestCompatible d}" using best_of_entry_key by (simp add: d'_def)
  moreover have "fst ` set (e # cache) = insert key (fst ` set cache)" by (simp add: e)
  moreover have "FindBestCompatibleInQueue (e # cache) g d = FindBestCompatibleInQueue cache g d'"
    unfolding e FindBest_Cons d'_def ..
  ultimately show ?case using Cons.IH [of d'] by auto
qed (simp add: FindBestCompatibleInQueue_def)

lemma forget_best_find:
  assumes "sm_find (forget_best cache g ds) k = Some d" and "k \<noteq> g"
    and "\<forall>key\<in>fst ` set cache. \<not> text_has (guid_text g) key"
  shows "\<not> text_has (guid_text g) (bestCompatible d)"
proof -
  obtain e where "d = (if k \<noteq> g \<and> text_has (guid_text g) (bestCompatible e)
      then FindBestCompatibleInQueue cache k (e\<lparr>bestCompatible := []\<rparr>) else e)"
    using assms(1) unfolding forget_best_def sm_find_map_snd by auto
  moreover have "\<not> text_has (guid_text g) key" if "key \<in> insert [] (fst ` set cache)" for key
    using that assms(3) by auto
  then have "\<not> text_has (guid_text g) (bestCompatible (FindBestCompatibleInQueue cache k (e\<lparr>bestCompatible := []\<rparr>)))"
    using FindBest_key [of cache k "e\<lparr>bestCompatible := []\<rparr>"] by simp
  ultimately show ?thesis using assms(2) by (simp split: if_splits)
qed

lemma RemoveFromQueue_stores:
  "CompatibleMapStore (RemoveFromQueue g q) = filter (\<lambda>(key, _). \<not> text_has (guid_text g) key) (CompatibleMapStore q)"
  "QueueDataStore (RemoveFromQueue g q) = sm_erase g (forget_best
     (filter (\<lambda>(key, _). \<not> text_has (guid_text g) key) (CompatibleMapStore q)) g (QueueDataStore q))"
  "newToQueueStore (RemoveFromQueue g q) = removeAll g (newToQueueStore q)"
  "currentQueueStore (RemoveFromQueue g q) = removeAll g (currentQueueStore q)"
  "ProposalsStore (RemoveFromQueue g q) = ProposalsStore q"
  by (simp_all add: RemoveFromQueue_def Let_def RemoveFromCompatibles_def RemoveFromCurrentQueue_def
      RemoveFromNewQueue_def)

lemma RemoveFromQueue_offer: "offer (RemoveFromQueue g q) k = (if k = g then None else offer q k)"
  by (simp add: offer_def RemoveFromQueue_stores forget_best_offers(2))

section \<open>Reachable queues\<close>

definition empty_queue :: lfg_queue where
  "empty_queue = \<lparr>QueueDataStore = [], CompatibleMapStore = [], waitTimesAvgStore = [], waitTimesTankStore = [],
     waitTimesHealerStore = [], waitTimesDpsStore = [], currentQueueStore = [], newToQueueStore = [],
     lfgProposalId = 0, ProposalsStore = [], random_draws = 0, status_out = []\<rparr>"

text \<open>
  The queues that come out of any sequence of operations, each in the environment of its
  moment. An entry is added with roles a client can send; for a full group the manager has
  checked them (\<open>entry_ok\<close>).
\<close>

inductive lfg_reachable :: "lfg_queue \<Rightarrow> bool" where
  empty: "lfg_reachable empty_queue"
| add: "lfg_reachable q \<Longrightarrow> entry_ok rs ds \<Longrightarrow> lfg_reachable (AddQueueData g t ds rs q)"
| again: "lfg_reachable q \<Longrightarrow> lfg_reachable (AddToQueue g q)"
| remove: "lfg_reachable q \<Longrightarrow> lfg_reachable (RemoveFromQueue g q)"
| remove_data: "lfg_reachable q \<Longrightarrow> lfg_reachable (RemoveQueueData g q)"
| join_time: "lfg_reachable q \<Longrightarrow> lfg_reachable (snd (GetJoinTime env g q))"
| timers: "lfg_reachable q \<Longrightarrow> lfg_reachable (UpdateQueueTimers t q)"
| avg: "lfg_reachable q \<Longrightarrow> UpdateWaitTimeAvg w d q = Inr q' \<Longrightarrow> lfg_reachable q'"
| tank: "lfg_reachable q \<Longrightarrow> UpdateWaitTimeTank w d q = Inr q' \<Longrightarrow> lfg_reachable q'"
| healer: "lfg_reachable q \<Longrightarrow> UpdateWaitTimeHealer w d q = Inr q' \<Longrightarrow> lfg_reachable q'"
| damage: "lfg_reachable q \<Longrightarrow> UpdateWaitTimeDps w d q = Inr q' \<Longrightarrow> lfg_reachable q'"
| find_groups: "lfg_reachable q \<Longrightarrow> env_ok env \<Longrightarrow> FindGroups env q = Inr (n, q') \<Longrightarrow> lfg_reachable q'"

text \<open>A step that keeps the stores in order and takes no offer other than a valid one.\<close>

lemma queue_ok_step:
  assumes "queue_ok q" and "ProposalsStore q' = ProposalsStore q"
    and "sm_inv (QueueDataStore q) \<Longrightarrow> sm_inv (QueueDataStore q')"
    and "\<And>g rs ds. sm_inv (QueueDataStore q) \<Longrightarrow> offer q' g = Some (rs, ds) \<Longrightarrow> offer q g = Some (rs, ds) \<or> entry_ok rs ds"
  shows "queue_ok q'"
  using assms unfolding queue_ok_def by metis

lemma queue_ok_same:
  "queue_ok q \<Longrightarrow> QueueDataStore q' = QueueDataStore q \<Longrightarrow> ProposalsStore q' = ProposalsStore q \<Longrightarrow> queue_ok q'"
  by (rule queue_ok_step) (auto simp: offer_def)

lemma entry_ok_empty: "entry_ok [] []"
  by (simp add: entry_ok_def roles_valid_def MAXGROUPSIZE_def)

lemma offer_sm_set:
  "sm_inv (QueueDataStore q) \<Longrightarrow> QueueDataStore q' = sm_set g d (QueueDataStore q) \<Longrightarrow>
     offer q' k = (if k = g then Some (roles d, dungeons d) else offer q k)"
  by (simp add: offer_def)

lemma update_queue_timer_ok:
  assumes "queue_ok q" and "offer q g = Some (roles d, dungeons d)"
  shows "queue_ok (update_queue_timer t g d q) \<and> offer (update_queue_timer t g d q) = offer q"
proof (cases "dungeons d = []")
  case False
  define d' where "d' = (if bestCompatible d = [] then FindBestCompatibleInQueue (CompatibleMapStore q) g d else d)"
  have d': "same_offer d d'" by (simp add: d'_def same_offer_FindBest)
  have store: "QueueDataStore (update_queue_timer t g d q) = sm_set g d' (QueueDataStore q)"
    and same: "ProposalsStore (update_queue_timer t g d q) = ProposalsStore q"
    using False by (simp_all add: update_queue_timer_def wait_time_at_def Let_def d'_def)
  have inv: "sm_inv (QueueDataStore q)" using assms(1) by (simp add: queue_ok_def)
  have "offer (update_queue_timer t g d q) = offer q"
    using offer_sm_set [OF inv store] assms(2) d' by (auto simp: same_offer_def fun_eq_iff)
  with assms(1) inv same store show ?thesis by (simp add: queue_ok_def)
qed (use assms in \<open>simp add: update_queue_timer_def\<close>)

lemma UpdateQueueTimers_ok:
  assumes "queue_ok q"
  shows "queue_ok (UpdateQueueTimers t q)"
proof -
  have "queue_ok (foldl (\<lambda>q (g, d). update_queue_timer t g d q) q l)"
    if "queue_ok q" "\<forall>(g, d)\<in>set l. offer q g = Some (roles d, dungeons d)" for l q
    using that
  proof (induction l arbitrary: q)
    case (Cons e l)
    obtain g d where e: "e = (g, d)" by (cases e)
    with Cons.prems update_queue_timer_ok [of q g d t]
    have "queue_ok (update_queue_timer t g d q)" "offer (update_queue_timer t g d q) = offer q" by auto
    with Cons.IH [of "update_queue_timer t g d q"] Cons.prems(2) show ?case by (simp add: e)
  qed simp
  moreover have "\<forall>(g, d)\<in>set (QueueDataStore q). offer q g = Some (roles d, dungeons d)"
    using assms sm_find_iff by (fastforce simp: queue_ok_def offer_def)
  ultimately show ?thesis using assms by (simp add: UpdateQueueTimers_def)
qed

lemma AddToQueue_stores [simp]:
  "QueueDataStore (AddToQueue g q) = QueueDataStore q" "ProposalsStore (AddToQueue g q) = ProposalsStore q"
  by (simp_all add: AddToQueue_def AddToNewQueue_def split: option.split)

lemma AddQueueData_ok:
  assumes "queue_ok q" and "entry_ok rs ds"
  shows "queue_ok (AddQueueData g t ds rs q)"
proof (rule queue_ok_step [OF assms(1)])
  show "offer (AddQueueData g t ds rs q) k = Some (rs', ds') \<Longrightarrow> offer q k = Some (rs', ds') \<or> entry_ok rs' ds'"
    if "sm_inv (QueueDataStore q)" for k rs' ds'
    using that assms(2)
    by (auto simp: AddQueueData_def offer_def new_queue_data_def split: if_splits)
qed (auto simp: AddQueueData_def)

lemma GetJoinTime_ok:
  assumes "queue_ok q"
  shows "queue_ok (snd (GetJoinTime env g q))"
proof (cases "sm_find (QueueDataStore q) g")
  case None
  show ?thesis
    by (rule queue_ok_step [OF assms])
      (auto simp: GetJoinTime_def queue_data_at_def Let_def None offer_def new_queue_data_def entry_ok_empty split: if_splits)
qed (use assms in \<open>simp add: GetJoinTime_def queue_data_at_def\<close>)

lemma RemoveFromQueue_ok:
  assumes "queue_ok q"
  shows "queue_ok (RemoveFromQueue g q)"
  by (rule queue_ok_step [OF assms])
    (auto simp: RemoveFromQueue_stores forget_best_offers(1) RemoveFromQueue_offer split: if_splits)

lemma UpdateWaitTime_ok:
  assumes "queue_ok q"
  shows "UpdateWaitTimeAvg w d q = Inr q' \<Longrightarrow> queue_ok q'" and "UpdateWaitTimeTank w d q = Inr q' \<Longrightarrow> queue_ok q'"
    and "UpdateWaitTimeHealer w d q = Inr q' \<Longrightarrow> queue_ok q'" and "UpdateWaitTimeDps w d q = Inr q' \<Longrightarrow> queue_ok q'"
  using queue_ok_same [OF assms, of q']
  by (auto simp: UpdateWaitTimeAvg_def UpdateWaitTimeTank_def UpdateWaitTimeHealer_def UpdateWaitTimeDps_def
      elim!: rbind_InrE)

lemma FindGroups_ok:
  assumes "env_ok env" and "queue_ok q"
  shows "\<exists>n q'. FindGroups env q = Inr (n, q') \<and> progress env q q' \<and> newToQueueStore q' = []"
  using find_groups_loop_ok [OF assms, of "Suc (length (newToQueueStore q))" 0] by (simp add: FindGroups_def)

lemma reachable_ok: "lfg_reachable q \<Longrightarrow> queue_ok q"
proof (induction rule: lfg_reachable.induct)
  case empty
  show ?case by (simp add: empty_queue_def queue_ok_def offer_def)
next
  case (again q g)
  show ?case by (rule queue_ok_same [OF again.IH]) simp_all
next
  case (remove_data q g)
  show ?case by (rule queue_ok_step [OF remove_data.IH]) (auto simp: RemoveQueueData_def offer_def split: if_splits)
next
  case (find_groups q env n q')
  with FindGroups_ok [of env q] progress_queue_ok show ?case by auto
qed (blast intro: AddQueueData_ok RemoveFromQueue_ok GetJoinTime_ok UpdateQueueTimers_ok UpdateWaitTime_ok)+

section \<open>Properties\<close>

text \<open>C14: \<^verbatim>\<open>CheckGroupRoles\<close> always returns, and with true exactly when every player can be given one
  of the roles he offered so that there are at most three damage dealers, one healer and one tank;
  the map then holds such roles. When it returns false the map has only lost the leader flags.\<close>

theorem CheckGroupRoles_decides:
  assumes "roles_valid g" and "length g < 256" and "g \<noteq> []"
  shows "\<exists>b g'. CheckGroupRoles g = Some (b, g') \<and> b = can_group (map snd (remove_leader_flags g))
    \<and> (b \<longrightarrow> map fst g' = map fst g \<and> assignment (map snd (remove_leader_flags g)) (map snd g')
            \<and> is_group (map snd g'))
    \<and> (\<not> b \<longrightarrow> g' = remove_leader_flags g)"
proof -
  from CheckGroupRoles_ok [OF assms] obtain b g' where r: "CheckGroupRoles g = Some (b, g')"
    and "roles_result (remove_leader_flags g) (b, g')" by auto
  then show ?thesis by (cases b) (auto simp: roles_result_def map_remove_leader_flags)
qed

theorem CheckGroupRoles_decides_witness:
  "\<exists>b g'. CheckGroupRoles [(1, 9), (2, 14), (3, 6)] = Some (b, g')
    \<and> b = can_group (map snd (remove_leader_flags [(1, 9), (2, 14), (3, 6)]))"
  using CheckGroupRoles_decides [of "[(1, 9), (2, 14), (3, 6)]"]
  by (auto simp: roles_valid_def)

text \<open>C8: in a queue reached by any sequence of operations, \<^verbatim>\<open>FindGroups\<close> returns, with no new entry left, and every proposal it adds is sound: all
  its entries are queued, its players are exactly the five players of these entries, each
  has one of the roles he offered and together they are a tank, a healer and three damage dealers,
  no two of them ignore each other where more than one entry takes part (a single full group is not checked), the
  dungeon is one that every entry asked for, and the leader is one of the players.\<close>

theorem FindGroups_sound:
  assumes "lfg_reachable q" and "env_ok env"
  shows "\<exists>n q'. FindGroups env q = Inr (n, q') \<and> newToQueueStore q' = [] \<and> offer q' = offer q
    \<and> (\<forall>i pr. sm_find (ProposalsStore q') i = Some pr \<longrightarrow>
          sm_find (ProposalsStore q) i = Some pr \<or> good_proposal env q pr)"
  using FindGroups_ok [OF assms(2) reachable_ok [OF assms(1)]] reachable_ok [OF assms(1)]
  by (auto simp: progress_def)

text \<open>A group of three and one of two, both just queued for the dungeons 5 and 7.\<close>

definition demo_lfg :: lfg_env where
  "demo_lfg = \<lparr>mgr_state = (\<lambda>_. LFG_STATE_QUEUED), mgr_dungeon = (\<lambda>_. 0), mgr_lfg_group = (\<lambda>_. False),
     player_online = (\<lambda>_. True), social_ignore = (\<lambda>_ _. False), lfg_now = 1000, urand = (\<lambda>_ a b. b)\<rparr>"

definition demo_queue :: lfg_queue where
  "demo_queue = AddQueueData 1 900 [5, 7] [(11, 9), (12, 8), (13, 2)]
     (AddQueueData 2 950 [5, 7] [(21, 12), (22, 4)] empty_queue)"

lemma demo_ok: "env_ok demo_lfg" "lfg_reachable demo_queue"
proof -
  show "env_ok demo_lfg" by (simp add: env_ok_def demo_lfg_def)
  have "entry_ok [(11, 9), (12, 8), (13, 2)] [5, 7]" "entry_ok [(21, 12), (22, 4)] [5, 7]"
    by (simp_all add: entry_ok_def roles_valid_def MAXGROUPSIZE_def)
  then show "lfg_reachable demo_queue"
    unfolding demo_queue_def by (blast intro: lfg_reachable.empty lfg_reachable.add)
qed

theorem FindGroups_sound_witness:
  "(case FindGroups demo_lfg demo_queue of Inr (n, q) \<Rightarrow> n = 1 \<and> length (ProposalsStore q) = 1 | _ \<Rightarrow> False)
    \<and> (\<exists>n q'. FindGroups demo_lfg demo_queue = Inr (n, q') \<and>
        (\<forall>i pr. sm_find (ProposalsStore q') i = Some pr \<longrightarrow> good_proposal demo_lfg demo_queue pr))"
proof
  show "case FindGroups demo_lfg demo_queue of Inr (n, q) \<Rightarrow> n = 1 \<and> length (ProposalsStore q) = 1 | _ \<Rightarrow> False"
    by code_simp
  have "sm_find (ProposalsStore demo_queue) i = None" for i
    by (simp add: demo_queue_def AddQueueData_def AddToQueue_def AddToNewQueue_def empty_queue_def)
  with FindGroups_sound [OF demo_ok(2,1)] show "\<exists>n q'. FindGroups demo_lfg demo_queue = Inr (n, q') \<and>
      (\<forall>i pr. sm_find (ProposalsStore q') i = Some pr \<longrightarrow> good_proposal demo_lfg demo_queue pr)"
    by fastforce
qed

text \<open>C27: leaving the queue leaves no trace: the GUID is in neither list and has no entry, no cached
  combination and no best combination of another entry mentions it, and what the others offer is
  unchanged.\<close>

theorem RemoveFromQueue_forgets:
  "g \<notin> set (newToQueueStore (RemoveFromQueue g q)) \<and> g \<notin> set (currentQueueStore (RemoveFromQueue g q))
    \<and> offer (RemoveFromQueue g q) g = None
    \<and> (\<forall>key\<in>fst ` set (CompatibleMapStore (RemoveFromQueue g q)). \<not> text_has (guid_text g) key)
    \<and> (\<forall>k d. sm_find (QueueDataStore (RemoveFromQueue g q)) k = Some d \<longrightarrow> \<not> text_has (guid_text g) (bestCompatible d))
    \<and> (\<forall>k. k \<noteq> g \<longrightarrow> offer (RemoveFromQueue g q) k = offer q k)"
proof -
  let ?cache = "filter (\<lambda>(key, _). \<not> text_has (guid_text g) key) (CompatibleMapStore q)"
  note q' = RemoveFromQueue_stores [of g q]
  have keys: "\<forall>key\<in>fst ` set ?cache. \<not> text_has (guid_text g) key" by auto
  have "\<not> text_has (guid_text g) (bestCompatible d)"
    if "sm_find (QueueDataStore (RemoveFromQueue g q)) k = Some d" for k d
  proof -
    from that have "k \<noteq> g" and "sm_find (forget_best ?cache g (QueueDataStore q)) k = Some d"
      by (simp_all add: q' split: if_splits)
    with forget_best_find keys show ?thesis by blast
  qed
  moreover note RemoveFromQueue_offer
  moreover have "g \<notin> set (newToQueueStore (RemoveFromQueue g q))" "g \<notin> set (currentQueueStore (RemoveFromQueue g q))"
    by (simp_all add: q'(3,4))
  ultimately show ?thesis using keys [folded q'(1)] by presburger
qed

theorem RemoveFromQueue_forgets_witness:
  "offer (RemoveFromQueue 1 demo_queue) 1 = None \<and> offer (RemoveFromQueue 1 demo_queue) 2 = offer demo_queue 2"
  using RemoveFromQueue_forgets [of 1 demo_queue] by simp

text \<open>The waiting times of a sequence of groups, entered one after the other.\<close>

fun wait_times :: "u32 list \<Rightarrow> u32 \<Rightarrow> (u32, LfgWaitTime) std_map \<Rightarrow> (u32, LfgWaitTime) std_map lfg_result" where
  "wait_times [] d s = Inr s"
| "wait_times (w # ws) d s = rbind (UpdateWaitTime w d s) (wait_times ws d)"

lemma unat_of_nat_32: "k < 2 ^ 32 \<Longrightarrow> unat (of_nat k :: u32) = k"
  by (simp add: unat_of_nat)

lemma average_step:
  assumes "t * n + w < 2 ^ 32" and "n + 1 < 2 ^ 32"
  shows "(of_nat t * of_nat n + of_nat w :: u32) div (of_nat n + 1) = of_nat ((t * n + w) div (n + 1))"
proof -
  note u = unat_of_nat_32
  have "(of_nat (t * n + w) :: u32) div of_nat (n + 1) = of_nat ((t * n + w) div (n + 1))"
    unfolding word_arith_nat_div u [OF assms(1)] u [OF assms(2)] ..
  then show ?thesis by (simp add: add.commute)
qed

lemma average_bounds:
  fixes lo hi t w n :: nat
  assumes "lo \<le> w" "w \<le> hi" "n = 0 \<or> lo \<le> t \<and> t \<le> hi"
  shows "lo \<le> ((if n = 0 then 0 else t) * n + w) div (n + 1)" and "((if n = 0 then 0 else t) * n + w) div (n + 1) \<le> hi"
proof -
  have "lo * n \<le> t * n" "t * n \<le> hi * n" if "n \<noteq> 0" using assms(3) that by simp_all
  then have l: "lo * (n + 1) \<le> (if n = 0 then 0 else t) * n + w" and h: "(if n = 0 then 0 else t) * n + w \<le> hi * (n + 1)"
    using assms(1,2) by (cases "n = 0"; simp add: algebra_simps add_mono)+
  have cancel: "k * (n + 1) div (n + 1) = k" for k by (rule nonzero_mult_div_cancel_right) simp
  show "lo \<le> ((if n = 0 then 0 else t) * n + w) div (n + 1)"
    using div_le_mono [OF l, of "n + 1"] unfolding cancel .
  show "((if n = 0 then 0 else t) * n + w) div (n + 1) \<le> hi"
    using div_le_mono [OF h, of "n + 1"] unfolding cancel .
qed

lemma UpdateWaitTime_step:
  assumes s: "sm_inv s" and at: "sm_at wait_time_new d s = \<lparr>wt_time = T, wt_number = of_nat n\<rparr>"
    and T: "n = 0 \<or> lo \<le> unat T \<and> unat T \<le> hi" and w: "lo \<le> unat w" "unat w \<le> hi"
    and room: "(n + 1) * hi < 2 ^ 32" "n + 1 < 2 ^ 32"
  shows "\<exists>T'. UpdateWaitTime w d s = Inr (sm_set d \<lparr>wt_time = T', wt_number = of_nat (n + 1)\<rparr> s)
    \<and> lo \<le> unat T' \<and> unat T' \<le> hi"
proof -
  define t where "t = (if n = 0 then 0 else unat T)"
  note bounds = average_bounds [OF w T, folded t_def]
  have "t * n \<le> hi * n" using T by (auto simp: t_def)
  from add_mono [OF this w(2)] have "t * n + unat w \<le> (n + 1) * hi" by (simp add: algebra_simps)
  with room(1) have tn: "t * n + unat w < 2 ^ 32" by linarith
  have T': "T * of_nat n = of_nat t * of_nat n" by (simp add: t_def)
  have "(T * of_nat n + w) div (of_nat n + 1) = of_nat ((t * n + unat w) div (n + 1))"
    unfolding T' using average_step [OF tn room(2)] by simp
  moreover note unat_of_nat_32 [OF room(2)]
  then have "of_nat n + 1 \<noteq> (0 :: u32)" by (metis Suc_eq_plus1 nat.distinct(1) of_nat_Suc add.commute unat_0)
  ultimately have "UpdateWaitTime w d s = Inr (sm_set d
      \<lparr>wt_time = of_nat ((t * n + unat w) div (n + 1)), wt_number = of_nat (n + 1)\<rparr> s)"
    by (simp add: UpdateWaitTime_def at Let_def add.commute)
  moreover have "(t * n + unat w) div (n + 1) < 2 ^ 32" using tn by (meson div_le_dividend le_less_trans)
  then have "unat (of_nat ((t * n + unat w) div (n + 1)) :: u32) = (t * n + unat w) div (n + 1)"
    by (rule unat_of_nat_32)
  ultimately show ?thesis using bounds by metis
qed

lemma wait_times_from:
  "sm_inv s \<Longrightarrow> sm_at wait_time_new d s = \<lparr>wt_time = T, wt_number = of_nat n\<rparr> \<Longrightarrow>
     n = 0 \<or> lo \<le> unat T \<and> unat T \<le> hi \<Longrightarrow> \<forall>w\<in>set ws. lo \<le> unat w \<and> unat w \<le> hi \<Longrightarrow>
     (n + length ws) * hi < 2 ^ 32 \<Longrightarrow> n + length ws < 2 ^ 32 \<Longrightarrow>
     \<exists>s' T'. wait_times ws d s = Inr s' \<and>
       sm_at wait_time_new d s' = \<lparr>wt_time = T', wt_number = of_nat (n + length ws)\<rparr>
       \<and> (n + length ws = 0 \<or> lo \<le> unat T' \<and> unat T' \<le> hi)"
proof (induction ws arbitrary: s T n)
  case (Cons w ws)
  have "(n + 1) * hi \<le> (n + length (w # ws)) * hi" by (intro mult_right_mono) simp_all
  then have room: "(n + 1) * hi < 2 ^ 32" "n + 1 < 2 ^ 32"
    using Cons.prems(5,6) by (blast intro: le_less_trans, simp)
  from Cons.prems(4) have w: "lo \<le> unat w" "unat w \<le> hi" by simp_all
  from UpdateWaitTime_step [OF Cons.prems(1-3) w room] obtain T' where
    u: "UpdateWaitTime w d s = Inr (sm_set d \<lparr>wt_time = T', wt_number = of_nat (n + 1)\<rparr> s)"
    and T': "lo \<le> unat T'" "unat T' \<le> hi" by blast
  let ?s = "sm_set d \<lparr>wt_time = T', wt_number = of_nat (n + 1)\<rparr> s"
  have at: "sm_at wait_time_new d ?s = \<lparr>wt_time = T', wt_number = of_nat (n + 1)\<rparr>"
    using Cons.prems(1) by (simp add: sm_at_def)
  have "(n + 1 + length ws) * hi < 2 ^ 32" "n + 1 + length ws < 2 ^ 32" using Cons.prems(5,6) by simp_all
  from Cons.IH [OF sm_inv_set [OF Cons.prems(1)] at _ _ this] T' Cons.prems(4) u show ?case by simp
qed auto

text \<open>C37: the average waiting time of a dungeon stays between the shortest and the longest time
  entered, as long as the number of groups times the longest time fits in 32 bits.\<close>

theorem wait_time_average:
  assumes "sm_inv s" and "sm_find s d = None" and "ws \<noteq> []"
    and "\<forall>w\<in>set ws. lo \<le> unat w \<and> unat w \<le> hi"
    and "length ws * hi < 2 ^ 32" and "length ws < 2 ^ 32"
  shows "\<exists>s' wt. wait_times ws d s = Inr s' \<and> sm_find s' d = Some wt \<and> unat (wt_number wt) = length ws
    \<and> lo \<le> unat (wt_time wt) \<and> unat (wt_time wt) \<le> hi"
proof -
  have at: "sm_at wait_time_new d s = \<lparr>wt_time = - 1, wt_number = of_nat 0\<rparr>"
    using assms(2) by (simp add: sm_at_def wait_time_new_def)
  from wait_times_from [OF assms(1) at _ assms(4)] assms(3,5,6) obtain s' T' where
    "wait_times ws d s = Inr s'"
    and at': "sm_at wait_time_new d s' = \<lparr>wt_time = T', wt_number = of_nat (length ws)\<rparr>"
    and T': "lo \<le> unat T'" "unat T' \<le> hi" by fastforce
  moreover have n: "unat (of_nat (length ws) :: u32) = length ws" using assms(6) by (simp add: unat_of_nat)
  have "sm_find s' d \<noteq> None"
  proof
    assume "sm_find s' d = None"
    with at' have "of_nat (length ws) = (0 :: u32)" by (simp add: sm_at_def wait_time_new_def)
    with n assms(3) show False by (metis length_0_conv unat_0)
  qed
  then have "sm_find s' d = Some \<lparr>wt_time = T', wt_number = of_nat (length ws)\<rparr>"
    using at' by (auto simp: sm_at_def)
  ultimately show ?thesis using n by fastforce
qed

theorem wait_time_average_witness:
  "\<exists>s' wt. wait_times [300, 500, 100] 7 [] = Inr s' \<and> sm_find s' 7 = Some wt \<and> unat (wt_number wt) = 3
    \<and> 100 \<le> unat (wt_time wt) \<and> unat (wt_time wt) \<le> 500"
  using wait_time_average [of "[]" 7 "[300, 500, 100]" 100 500] unfolding length_Cons
  by (simp add: numeral_3_eq_3)

text \<open>A combination cached as fitting but in a bad state is reported as a match as soon as all
  its entries are queued, without a proposal: when the new entry is a full group with such a cache
  entry, \<^verbatim>\<open>FindGroups\<close> counts a match, the group is in neither list any more, and no proposal has
  been made for it.\<close>

theorem cached_match_loses_group:
  assumes "newToQueueStore q = [g]" and "g \<notin> set (currentQueueStore q)"
    and "GetCompatibles (ConcatenateGuids [g]) q = LFG_COMPATIBLES_BAD_STATES"
    and "mgr_state env g = LFG_STATE_QUEUED"
  shows "\<exists>q'. FindGroups env q = Inr (1, q') \<and> ProposalsStore q' = ProposalsStore q
    \<and> g \<notin> set (newToQueueStore q') \<and> g \<notin> set (currentQueueStore q') \<and> offer q' g = offer q g"
proof -
  let ?q = "SetCompatibles (ConcatenateGuids [g]) LFG_COMPATIBLES_MATCH (RemoveFromNewQueue g q)"
  have c: "GetCompatibles (ConcatenateGuids [g]) (RemoveFromNewQueue g q) = LFG_COMPATIBLES_BAD_STATES"
    using assms(3) by (simp add: GetCompatibles_def RemoveFromNewQueue_def)
  have "FindNewGroups env (2 * n + 2) [g] w (RemoveFromNewQueue g q) = Inr (LFG_COMPATIBLES_MATCH, [g], w, ?q)" for n w
    using assms(4) by (simp add: c AllQueued_def Let_def)
  moreover have "newToQueueStore ?q = []"
    using assms(1) by (simp add: SetCompatibles_def RemoveFromNewQueue_def Let_def)
  ultimately have "FindGroups env q = Inr (1, ?q)"
    using assms(1) by (simp add: FindGroups_def Let_def)
  moreover have "ProposalsStore ?q = ProposalsStore q" "g \<notin> set (currentQueueStore ?q)" "offer ?q g = offer q g"
    using assms(2) by (simp_all add: SetCompatibles_def RemoveFromNewQueue_def Let_def offer_def)
  ultimately show ?thesis using \<open>newToQueueStore ?q = []\<close> by fastforce
qed

text \<open>A group of five whose state is not yet queued when it is first tried, and is put back.\<close>

definition bad_state_queue :: lfg_queue where
  "bad_state_queue =
     (case FindGroups (demo_lfg\<lparr>mgr_state := (\<lambda>_. LFG_STATE_ROLECHECK)\<rparr>)
        (AddQueueData 1 900 [5] [(11, 9), (12, 8), (13, 2), (14, 4), (15, 8)] empty_queue) of
        Inr (_, q) \<Rightarrow> AddToQueue 1 (RemoveFromCurrentQueue 1 q) | Inl _ \<Rightarrow> empty_queue)"

lemma bad_state_queue_facts:
  "newToQueueStore bad_state_queue = [1]" "currentQueueStore bad_state_queue = []"
  "GetCompatibles (ConcatenateGuids [1]) bad_state_queue = LFG_COMPATIBLES_BAD_STATES"
  by code_simp+

theorem cached_match_loses_group_witness:
  "\<exists>q'. FindGroups demo_lfg bad_state_queue = Inr (1, q') \<and> ProposalsStore q' = ProposalsStore bad_state_queue
    \<and> 1 \<notin> set (newToQueueStore q') \<and> 1 \<notin> set (currentQueueStore q')"
  using cached_match_loses_group [of bad_state_queue 1 demo_lfg] bad_state_queue_facts
  by (auto simp: demo_lfg_def)

end
