(* ===== verification/BG_Pools.thy ===== *)
theory BG_Pools
  imports Std_Map "HOL-Library.Sublist"
begin

text \<open>
  The selection of groups for a battleground
  (\<^verbatim>\<open>src/src/server/game/Battlegrounds/BattlegroundQueue.cpp\<close>): the queued groups, the two selection
  pools and the functions that fill and balance them. Groups are allocated objects that the
  queues and the pools point to; \<open>bg_heap\<close> maps their addresses to them, and following a dangling
  pointer is the error \<open>UseAfterFree\<close>. Dereferencing or advancing the end of a container is
  \<open>EndIterator\<close>, using an iterator that an insertion or removal has invalidated \<open>InvalidIterator\<close>, and
  \<open>LoopFuel\<close> means that the bound of a loop was too small. The players of a group are the keys of its map; the
  values point into \<^verbatim>\<open>m_QueuedPlayers\<close> under the same keys.
\<close>

section \<open>Data\<close>

record GroupQueueInfo =
  gq_Players :: "u64 std_set"
  gq_Team :: u32
  gq_BgTypeId :: u32
  gq_IsRated :: bool
  gq_ArenaType :: u8
  gq_ArenaTeamId :: u32
  gq_JoinTime :: u32
  gq_RemoveInviteTime :: u32
  gq_Invited :: u32
  gq_ArenaTeamRating :: u32
  gq_ArenaMatchmakerRating :: u32
  gq_OpponentsTeamRating :: u32
  gq_OpponentsMatchmakerRating :: u32
  gq_RbgMMV :: u16
  gq_OponentsRbgMMV :: u16

record selection_pool =
  SelectedGroups :: "nat list"
  PlayerCount :: u32

datatype bq_error = UseAfterFree | EndIterator | InvalidIterator | LoopFuel

type_synonym 'a bq_result = "bq_error + 'a"
type_synonym bg_heap = "(nat, GroupQueueInfo) std_map"

definition group_at :: "bg_heap \<Rightarrow> nat \<Rightarrow> GroupQueueInfo bq_result" where
  "group_at h g = (case sm_find h g of None \<Rightarrow> Inl UseAfterFree | Some i \<Rightarrow> Inr i)"

section \<open>Selection pools\<close>

definition pool_Init :: selection_pool where
  "pool_Init = \<lparr>SelectedGroups = [], PlayerCount = 0\<rparr>"

text \<open>
  \<open>(int32)((*itr)->Players.size() - size)\<close>, with the subtraction in 64 bits.
\<close>

definition near :: "nat \<Rightarrow> u32 \<Rightarrow> bool" where
  "near n sz \<longleftrightarrow> \<bar>sint (ucast (of_nat n - ucast sz :: u64) :: u32)\<bar> \<le> 1"

text \<open>The loop that looks for the group to kick, over the sizes of the groups; the result is an index.\<close>

fun kick_scan :: "nat list \<Rightarrow> u32 \<Rightarrow> nat list \<Rightarrow> nat \<Rightarrow> bool \<Rightarrow> nat" where
  "kick_scan sizes sz [] kick found = kick"
| "kick_scan sizes sz (i # is) kick found =
     (if near (sizes ! i) sz then kick_scan sizes sz is i True
      else if \<not> found \<and> sizes ! kick \<le> sizes ! i then kick_scan sizes sz is i found
      else kick_scan sizes sz is kick found)"

definition remove_nth :: "nat \<Rightarrow> 'a list \<Rightarrow> 'a list" where
  "remove_nth i xs = take i xs @ drop (Suc i) xs"

fun group_sizes :: "bg_heap \<Rightarrow> nat list \<Rightarrow> nat list bq_result" where
  "group_sizes h [] = Inr []"
| "group_sizes h (g # gs) = rbind (group_at h g) (\<lambda>i. rbind (group_sizes h gs) (\<lambda>ns.
     Inr (length (gq_Players i) # ns)))"

definition KickGroup :: "bg_heap \<Rightarrow> u32 \<Rightarrow> selection_pool \<Rightarrow> (bool \<times> selection_pool) bq_result" where
  "KickGroup h sz p =
     rbind (group_sizes h (SelectedGroups p)) (\<lambda>sizes.
     let k = kick_scan sizes sz [0..<length sizes] 0 False in
     if PlayerCount p = 0 then Inr (True, p)
     else if sizes = [] then Inl EndIterator
     else Inr (\<not> sizes ! k \<le> unat (sz + 1),
       p\<lparr>SelectedGroups := remove_nth k (SelectedGroups p), PlayerCount := PlayerCount p - of_nat (sizes ! k)\<rparr>))"

definition pool_AddGroup :: "bg_heap \<Rightarrow> nat \<Rightarrow> u32 \<Rightarrow> selection_pool \<Rightarrow> (bool \<times> selection_pool) bq_result" where
  "pool_AddGroup h g desiredCount p =
     rbind (group_at h g) (\<lambda>i.
     if gq_Invited i = 0 \<and> unat (PlayerCount p) + length (gq_Players i) \<le> unat desiredCount
     then Inr (True, p\<lparr>SelectedGroups := SelectedGroups p @ [g], PlayerCount := PlayerCount p + of_nat (length (gq_Players i))\<rparr>)
     else Inr (PlayerCount p < desiredCount, p))"

section \<open>Filling a running battleground\<close>

text \<open>
  The loop that adds groups until one is refused; the iterator is the list of the groups not
  reached yet.
\<close>

fun add_groups :: "bg_heap \<Rightarrow> u32 \<Rightarrow> nat list \<Rightarrow> selection_pool \<Rightarrow> (nat list \<times> selection_pool) bq_result" where
  "add_groups h desired [] p = Inr ([], p)"
| "add_groups h desired (g # gs) p =
     rbind (pool_AddGroup h g desired p) (\<lambda>(more, p).
     if more then add_groups h desired gs p else Inr (g # gs, p))"

text \<open>
  The two branches of the balancing loop differ only in the roles of the sides. \<open>free\<close>, \<open>diff\<close> and
  \<open>p\<close> belong to the side that has to give up a group, \<open>other_diff\<close> and \<open>other\<close> to the other one; the
  result tells whether the loop is left.
\<close>

definition balance_side ::
  "bg_heap \<Rightarrow> u32 \<Rightarrow> u32 \<Rightarrow> u32 \<Rightarrow> nat list \<Rightarrow> selection_pool \<Rightarrow> selection_pool \<Rightarrow>
     (bool \<times> nat list \<times> selection_pool \<times> selection_pool) bq_result" where
  "balance_side h free diff other_diff waiting p other =
     rbind (KickGroup h (other_diff - diff) p) (\<lambda>(again, p).
     rbind (if again then add_groups h (if sint other_diff \<le> sint free then free - other_diff else 0) waiting p
            else Inr (waiting, p)) (\<lambda>(waiting, p).
     if PlayerCount p = 0 then
       (if sint free \<le> sint (other_diff + 1) then Inr (True, waiting, p, other)
        else rbind (KickGroup h (other_diff - diff) other) (\<lambda>(_, other). Inr (False, waiting, p, other)))
     else Inr (False, waiting, p, other)))"

fun balance ::
  "bg_heap \<Rightarrow> nat \<Rightarrow> u32 \<Rightarrow> u32 \<Rightarrow> nat list \<Rightarrow> nat list \<Rightarrow> selection_pool \<Rightarrow> selection_pool \<Rightarrow>
     (selection_pool \<times> selection_pool) bq_result" where
  "balance h 0 aliFree hordeFree ali horde pa ph = Inl LoopFuel"
| "balance h (Suc fuel) aliFree hordeFree ali horde pa ph =
     (let diffAli = aliFree - PlayerCount pa; diffHorde = hordeFree - PlayerCount ph in
      if \<not> (1 < \<bar>sint (diffAli - diffHorde)\<bar> \<and> (0 < PlayerCount ph \<or> 0 < PlayerCount pa)) then Inr (pa, ph)
      else if sint diffAli < sint diffHorde then
        rbind (balance_side h aliFree diffAli diffHorde ali pa ph) (\<lambda>(stop, ali, pa, ph).
        if stop then Inr (pa, ph) else balance h fuel aliFree hordeFree ali horde pa ph)
      else
        rbind (balance_side h hordeFree diffHorde diffAli horde ph pa) (\<lambda>(stop, horde, ph, pa).
        if stop then Inr (pa, ph) else balance h fuel aliFree hordeFree ali horde pa ph))"

definition fill_fuel :: "nat list \<Rightarrow> nat list \<Rightarrow> nat" where
  "fill_fuel ali horde = (length ali + length horde + 1) ^ 2 + 1"

definition fill_pools ::
  "bg_heap \<Rightarrow> u32 \<Rightarrow> u32 \<Rightarrow> u32 \<Rightarrow> nat list \<Rightarrow> nat list \<Rightarrow> selection_pool \<Rightarrow> selection_pool \<Rightarrow>
     (selection_pool \<times> selection_pool) bq_result" where
  "fill_pools h invitation_type aliFree hordeFree ali horde pa ph =
     rbind (add_groups h aliFree ali pa) (\<lambda>(ali', pa).
     rbind (add_groups h hordeFree horde ph) (\<lambda>(horde', ph).
     if invitation_type = 0 then Inr (pa, ph)
     else balance h (fill_fuel ali horde) aliFree hordeFree ali' horde' pa ph))"

section \<open>A new battleground\<close>

text \<open>The groups of one side, until there are enough players; the list starts at the iterator.\<close>

fun normal_scan :: "bg_heap \<Rightarrow> u32 \<Rightarrow> u32 \<Rightarrow> nat list \<Rightarrow> selection_pool \<Rightarrow> (nat list \<times> selection_pool) bq_result" where
  "normal_scan h minPlayers maxPlayers [] p = Inr ([], p)"
| "normal_scan h minPlayers maxPlayers (g # gs) p =
     rbind (group_at h g) (\<lambda>i.
     if gq_Invited i = 0 then
       rbind (pool_AddGroup h g maxPlayers p) (\<lambda>(_, p).
       if minPlayers \<le> PlayerCount p then Inr (g # gs, p) else normal_scan h minPlayers maxPlayers gs p)
     else normal_scan h minPlayers maxPlayers gs p)"

text \<open>More groups for the side with fewer players, until one is refused.\<close>

fun add_uninvited :: "bg_heap \<Rightarrow> u32 \<Rightarrow> nat list \<Rightarrow> selection_pool \<Rightarrow> selection_pool bq_result" where
  "add_uninvited h desired [] p = Inr p"
| "add_uninvited h desired (g # gs) p =
     rbind (group_at h g) (\<lambda>i.
     if gq_Invited i = 0 then
       rbind (pool_AddGroup h g desired p) (\<lambda>(more, p). if more then add_uninvited h desired gs p else Inr p)
     else add_uninvited h desired gs p)"

definition more_groups :: "bg_heap \<Rightarrow> u32 \<Rightarrow> nat list \<Rightarrow> selection_pool \<Rightarrow> selection_pool bq_result" where
  "more_groups h desired rest p =
     (case rest of [] \<Rightarrow> Inl EndIterator | _ # rest \<Rightarrow> add_uninvited h desired rest p)"

definition match_pools ::
  "bg_heap \<Rightarrow> bool \<Rightarrow> u32 \<Rightarrow> u32 \<Rightarrow> u32 \<Rightarrow> nat list \<Rightarrow> nat list \<Rightarrow> selection_pool \<Rightarrow> selection_pool \<Rightarrow>
     (bool \<times> selection_pool \<times> selection_pool) bq_result" where
  "match_pools h testing invitation_type minPlayers maxPlayers ali horde pa ph =
     rbind (normal_scan h minPlayers maxPlayers ali pa) (\<lambda>(ali, pa).
     rbind (normal_scan h minPlayers maxPlayers horde ph) (\<lambda>(horde, ph).
     let enough = (\<lambda>pa ph. minPlayers \<le> PlayerCount pa \<and> minPlayers \<le> PlayerCount ph);
         answer = (\<lambda>pa ph. Inr (testing \<and> (PlayerCount pa \<noteq> 0 \<or> PlayerCount ph \<noteq> 0) \<or> enough pa ph, pa, ph))
     in
     if invitation_type \<noteq> 0 \<and> enough pa ph then
       rbind (if PlayerCount ph < PlayerCount pa
              then rbind (more_groups h (PlayerCount pa) horde ph) (\<lambda>ph. Inr (pa, ph))
              else rbind (more_groups h (PlayerCount ph) ali pa) (\<lambda>pa. Inr (pa, ph))) (\<lambda>(pa, ph).
       if 2 < \<bar>sint (PlayerCount ph - PlayerCount pa)\<bar> then Inr (False, pa, ph) else answer pa ph)
     else answer pa ph))"

end
