(* ===== verification/BG_Manager.thy ===== *)
theory BG_Manager
  imports BG_Pools
begin

text \<open>
  The running battlegrounds and the stores that find them
  (\<^verbatim>\<open>src/src/server/game/Battlegrounds/Battleground.h\<close>, \<^verbatim>\<open>Battleground.cpp\<close>,
  \<^verbatim>\<open>BattlegroundMgr.h\<close> and \<^verbatim>\<open>BattlegroundMgr.cpp\<close>), as far as the queues use them: the counters of invited and
  awaited players, the free slots of a side, the store by type and instance, and the queue of
  battlegrounds with free slots. Battlegrounds are allocated objects; \<open>bm_heap\<close> maps addresses
  to them.
\<close>

section \<open>Battlegrounds\<close>

definition TEAM_ALLIANCE :: nat where "TEAM_ALLIANCE = 0"
definition TEAM_HORDE :: nat where "TEAM_HORDE = 1"

definition STATUS_WAIT_QUEUE :: u32 where "STATUS_WAIT_QUEUE = 1"
definition STATUS_WAIT_JOIN :: u32 where "STATUS_WAIT_JOIN = 2"
definition STATUS_IN_PROGRESS :: u32 where "STATUS_IN_PROGRESS = 3"
definition STATUS_WAIT_LEAVE :: u32 where "STATUS_WAIT_LEAVE = 4"

record Battleground =
  bg_TypeID :: u32
  bg_InstanceID :: u32
  bg_Status :: u32
  bg_BracketId :: nat
  bg_InvitedAlliance :: u32
  bg_InvitedHorde :: u32
  bg_ArenaType :: u8
  bg_IsArena :: bool
  bg_IsRated :: bool
  bg_InBGFreeSlotQueue :: bool
  bg_Players :: "u64 std_set"
  bg_MaxPlayersPerTeam :: u32
  bg_MaxPlayers :: u32
  bg_MinPlayersPerTeam :: u32
  bg_ArenaTeamIds :: "nat \<Rightarrow> u32"
  bg_ArenaTeamMMR :: "nat \<Rightarrow> u32"
  bg_PlayersCount :: "nat \<Rightarrow> u32"
  bg_AllianceAwaitingPlayers :: u8
  bg_HordeAwaitingPlayers :: u8
  bg_StartTime :: u32
  bg_LastResurrectTime :: u32

definition GetTeamIndexByTeamId :: "u32 \<Rightarrow> nat" where
  "GetTeamIndexByTeamId team = (if team = ALLIANCE then TEAM_ALLIANCE else TEAM_HORDE)"

definition DecreaseInvitedCount :: "u32 \<Rightarrow> Battleground \<Rightarrow> Battleground" where
  "DecreaseInvitedCount team b =
     (if team = ALLIANCE then b\<lparr>bg_InvitedAlliance := bg_InvitedAlliance b - 1\<rparr>
      else b\<lparr>bg_InvitedHorde := bg_InvitedHorde b - 1\<rparr>)"

definition IncreaseInvitedCount :: "u32 \<Rightarrow> Battleground \<Rightarrow> Battleground" where
  "IncreaseInvitedCount team b =
     (if team = ALLIANCE then b\<lparr>bg_InvitedAlliance := bg_InvitedAlliance b + 1\<rparr>
      else b\<lparr>bg_InvitedHorde := bg_InvitedHorde b + 1\<rparr>)"

definition GetInvitedCount :: "u32 \<Rightarrow> Battleground \<Rightarrow> u32" where
  "GetInvitedCount team b = (if team = ALLIANCE then bg_InvitedAlliance b else bg_InvitedHorde b)"

definition IncreaseAwaitingPlayers :: "u32 \<Rightarrow> Battleground \<Rightarrow> Battleground" where
  "IncreaseAwaitingPlayers team b =
     (if team = ALLIANCE then b\<lparr>bg_AllianceAwaitingPlayers := bg_AllianceAwaitingPlayers b + 1\<rparr>
      else b\<lparr>bg_HordeAwaitingPlayers := bg_HordeAwaitingPlayers b + 1\<rparr>)"

definition DecreaseAwaitingPlayers :: "u32 \<Rightarrow> Battleground \<Rightarrow> Battleground" where
  "DecreaseAwaitingPlayers team b =
     (if team = ALLIANCE then b\<lparr>bg_AllianceAwaitingPlayers := bg_AllianceAwaitingPlayers b - 1\<rparr>
      else b\<lparr>bg_HordeAwaitingPlayers := bg_HordeAwaitingPlayers b - 1\<rparr>)"

definition GetPlayersCountByTeam :: "u32 \<Rightarrow> Battleground \<Rightarrow> u32" where
  "GetPlayersCountByTeam team b = bg_PlayersCount b (GetTeamIndexByTeamId team)"

definition SetArenaTeamIdForTeam :: "u32 \<Rightarrow> u32 \<Rightarrow> Battleground \<Rightarrow> Battleground" where
  "SetArenaTeamIdForTeam team arena_team b =
     b\<lparr>bg_ArenaTeamIds := (bg_ArenaTeamIds b)(GetTeamIndexByTeamId team := arena_team)\<rparr>"

definition SetArenaMatchmakerRating :: "u32 \<Rightarrow> u32 \<Rightarrow> Battleground \<Rightarrow> Battleground" where
  "SetArenaMatchmakerRating team mmr b =
     b\<lparr>bg_ArenaTeamMMR := (bg_ArenaTeamMMR b)(GetTeamIndexByTeamId team := mmr)\<rparr>"

definition HasFreeSlots :: "Battleground \<Rightarrow> bool" where
  "HasFreeSlots b \<longleftrightarrow> of_nat (length (bg_Players b)) < bg_MaxPlayers b"

definition GetFreeSlotsForTeam :: "u32 \<Rightarrow> Battleground \<Rightarrow> u32" where
  "GetFreeSlotsForTeam team b =
     (let room = (if GetInvitedCount team b < bg_MaxPlayersPerTeam b
                  then bg_MaxPlayersPerTeam b - GetInvitedCount team b else 0) in
      if bg_Status b = STATUS_WAIT_JOIN then room
      else
        let other = (if team = ALLIANCE then HORDE else ALLIANCE);
            otherTeam = GetInvitedCount other b;
            otherIn = GetPlayersCountByTeam other b in
        if bg_Status b = STATUS_IN_PROGRESS then
          let diff = (if otherTeam = GetInvitedCount team b then 1
                      else if GetInvitedCount team b < otherTeam then otherTeam - GetInvitedCount team b
                      else 0);
              diff2 = room;
              diff3 = (if otherIn = GetPlayersCountByTeam team b then 1
                       else if GetPlayersCountByTeam team b < otherIn then otherIn - GetPlayersCountByTeam team b
                       else if GetInvitedCount team b \<le> bg_MinPlayersPerTeam b
                       then bg_MinPlayersPerTeam b - GetInvitedCount team b + 1
                       else 0)
          in min (min diff diff2) diff3
        else 0)"

section \<open>The stores of the manager\<close>

record BattlegroundData =
  bd_Battlegrounds :: "(u32, nat) std_map"
  bd_ClientBattlegroundIds :: "nat \<Rightarrow> u32 std_set"
  bd_BGFreeSlotQueue :: "nat list"

record BattlegroundMgr =
  bm_heap :: "(nat, Battleground) std_map"
  bm_DataStore :: "(u32, BattlegroundData) std_map"
  bm_Testing :: bool
  bm_ArenaTesting :: bool

definition BattlegroundData_new :: BattlegroundData where
  "BattlegroundData_new = \<lparr>bd_Battlegrounds = [], bd_ClientBattlegroundIds = (\<lambda>_. []), bd_BGFreeSlotQueue = []\<rparr>"

text \<open>\<^verbatim>\<open>bgDataStore[bgTypeId]\<close> adds an empty entry when there is none.\<close>

definition bm_data :: "u32 \<Rightarrow> BattlegroundMgr \<Rightarrow> BattlegroundData" where
  "bm_data t m = sm_at BattlegroundData_new t (bm_DataStore m)"

definition bm_set_data :: "u32 \<Rightarrow> BattlegroundData \<Rightarrow> BattlegroundMgr \<Rightarrow> BattlegroundMgr" where
  "bm_set_data t d m = m\<lparr>bm_DataStore := sm_set t d (bm_DataStore m)\<rparr>"

definition bg_at :: "BattlegroundMgr \<Rightarrow> nat \<Rightarrow> Battleground bq_result" where
  "bg_at m a = (case sm_find (bm_heap m) a of None \<Rightarrow> Inl UseAfterFree | Some b \<Rightarrow> Inr b)"

definition bg_store :: "nat \<Rightarrow> Battleground \<Rightarrow> BattlegroundMgr \<Rightarrow> BattlegroundMgr" where
  "bg_store a b m = m\<lparr>bm_heap := sm_set a b (bm_heap m)\<rparr>"

fun find_instance :: "u32 \<Rightarrow> (u32, BattlegroundData) std_map \<Rightarrow> nat option" where
  "find_instance inst [] = None"
| "find_instance inst ((t, d) # ds) =
     (case sm_find (bd_Battlegrounds d) inst of Some a \<Rightarrow> Some a | None \<Rightarrow> find_instance inst ds)"

definition BATTLEGROUND_TYPE_NONE :: u32 where "BATTLEGROUND_TYPE_NONE = 0"
definition BATTLEGROUND_AA :: u32 where "BATTLEGROUND_AA = 6"

definition GetBattleground :: "u32 \<Rightarrow> u32 \<Rightarrow> BattlegroundMgr \<Rightarrow> nat option" where
  "GetBattleground inst t m =
     (if inst = 0 then None
      else if t = BATTLEGROUND_TYPE_NONE then find_instance inst (bm_DataStore m)
      else case sm_find (bm_DataStore m) t of
             None \<Rightarrow> None
           | Some d \<Rightarrow> find_instance inst [(t, d)])"

definition GetBattlegroundTemplate :: "u32 \<Rightarrow> BattlegroundMgr \<Rightarrow> nat option" where
  "GetBattlegroundTemplate t m =
     (case sm_find (bm_DataStore m) t of
        None \<Rightarrow> None
      | Some d \<Rightarrow> (case bd_Battlegrounds d of [] \<Rightarrow> None | (_, a) # _ \<Rightarrow> Some a))"

definition AddBattleground :: "nat \<Rightarrow> BattlegroundMgr \<Rightarrow> BattlegroundMgr bq_result" where
  "AddBattleground a m =
     rbind (bg_at m a) (\<lambda>b.
     let d = bm_data (bg_TypeID b) m in
     Inr (bm_set_data (bg_TypeID b) (d\<lparr>bd_Battlegrounds := sm_set (bg_InstanceID b) a (bd_Battlegrounds d)\<rparr>) m))"

definition RemoveBattleground :: "u32 \<Rightarrow> u32 \<Rightarrow> BattlegroundMgr \<Rightarrow> BattlegroundMgr" where
  "RemoveBattleground t inst m =
     (let d = bm_data t m in bm_set_data t (d\<lparr>bd_Battlegrounds := sm_erase inst (bd_Battlegrounds d)\<rparr>) m)"

text \<open>The first battleground of the queue with the instance id is erased.\<close>

fun erase_instance :: "BattlegroundMgr \<Rightarrow> u32 \<Rightarrow> nat list \<Rightarrow> nat list bq_result" where
  "erase_instance m inst [] = Inr []"
| "erase_instance m inst (a # as) =
     rbind (bg_at m a) (\<lambda>b.
     if bg_InstanceID b = inst then Inr as
     else rbind (erase_instance m inst as) (\<lambda>as. Inr (a # as)))"

definition RemoveFromBGFreeSlotQueue :: "nat \<Rightarrow> BattlegroundMgr \<Rightarrow> BattlegroundMgr bq_result" where
  "RemoveFromBGFreeSlotQueue a m =
     rbind (bg_at m a) (\<lambda>b.
     if bg_InBGFreeSlotQueue b then
       let d = bm_data (bg_TypeID b) m in
       rbind (erase_instance m (bg_InstanceID b) (bd_BGFreeSlotQueue d)) (\<lambda>q.
       Inr (bg_store a (b\<lparr>bg_InBGFreeSlotQueue := False\<rparr>) (bm_set_data (bg_TypeID b) (d\<lparr>bd_BGFreeSlotQueue := q\<rparr>) m)))
     else Inr m)"

definition AddToBGFreeSlotQueue :: "nat \<Rightarrow> BattlegroundMgr \<Rightarrow> BattlegroundMgr bq_result" where
  "AddToBGFreeSlotQueue a m =
     rbind (bg_at m a) (\<lambda>b.
     if \<not> bg_InBGFreeSlotQueue b \<and> \<not> bg_IsArena b then
       let d = bm_data (bg_TypeID b) m in
       Inr (bg_store a (b\<lparr>bg_InBGFreeSlotQueue := True\<rparr>)
              (bm_set_data (bg_TypeID b) (d\<lparr>bd_BGFreeSlotQueue := a # bd_BGFreeSlotQueue d\<rparr>) m))
     else Inr m)"

definition StartBattleground :: "nat \<Rightarrow> BattlegroundMgr \<Rightarrow> BattlegroundMgr bq_result" where
  "StartBattleground a m =
     rbind (bg_at m a) (\<lambda>b.
     rbind (AddToBGFreeSlotQueue a (bg_store a (b\<lparr>bg_StartTime := 0, bg_LastResurrectTime := 0\<rparr>) m)) (\<lambda>m.
     AddBattleground a m))"

text \<open>
  The loop that looks for the id a new battleground shows to its clients. Its iterator stays on
  the first id \<open>x\<close> of the set.
\<close>

function client_id_loop :: "u32 \<Rightarrow> u32 \<Rightarrow> u32" where
  "client_id_loop x lastId = (let lastId = lastId + 1 in if lastId \<noteq> x then lastId else client_id_loop x x)"
  by pat_completeness auto
termination
  by (relation "measure (\<lambda>(x, lastId). if lastId + 1 = x then 1 else 0)") simp_all

declare client_id_loop.simps [simp del]

definition IsArenaType :: "u32 \<Rightarrow> bool" where
  "IsArenaType t \<longleftrightarrow> t = BATTLEGROUND_AA \<or> t = 5 \<or> t = 4 \<or> t = 10 \<or> t = 11 \<or> t = 8"

definition CreateClientVisibleInstanceId :: "u32 \<Rightarrow> nat \<Rightarrow> BattlegroundMgr \<Rightarrow> u32 \<times> BattlegroundMgr" where
  "CreateClientVisibleInstanceId t bracket m =
     (if IsArenaType t then (0, m)
      else
        let d = bm_data t m;
            ids = bd_ClientBattlegroundIds d bracket;
            lastId = (case ids of [] \<Rightarrow> 0 | x # _ \<Rightarrow> client_id_loop x 0);
            lastId = lastId + 1
        in (lastId, bm_set_data t (d\<lparr>bd_ClientBattlegroundIds :=
              (bd_ClientBattlegroundIds d)(bracket := ss_insert lastId ids)\<rparr>) m))"

text \<open>
  The ids a sequence of new battlegrounds of one type and bracket gets.
\<close>

fun client_ids :: "nat \<Rightarrow> u32 \<Rightarrow> nat \<Rightarrow> BattlegroundMgr \<Rightarrow> u32 list" where
  "client_ids 0 t bracket m = []"
| "client_ids (Suc n) t bracket m =
     (let (new, m) = CreateClientVisibleInstanceId t bracket m in new # client_ids n t bracket m)"

end
