(* ===== verification/BG_Queue.thy ===== *)
theory BG_Queue
  imports BG_Manager Timers
begin

text \<open>
  The battleground queue (\<^verbatim>\<open>src/src/server/game/Battlegrounds/BattlegroundQueue.cpp\<close>): its state, joining
  and leaving it, the waiting times, invitations. The groups of the pools and
  queues live in \<open>bq_heap\<close>. What the queue asks of the rest of the server (who is online, the clock,
  the configuration) is the record \<open>bq_env\<close>; what it tells the rest (packets, events of the
  processor, texts, arena results) is a list of \<open>bq_effect\<close>s, in the order of the calls.
\<close>

section \<open>State\<close>

record PlayerQueueInfo =
  pq_LastOnlineTime :: u32
  pq_GroupInfo :: nat

definition BG_QUEUE_PREMADE_ALLIANCE :: nat where "BG_QUEUE_PREMADE_ALLIANCE = 0"
definition BG_QUEUE_PREMADE_HORDE :: nat where "BG_QUEUE_PREMADE_HORDE = 1"
definition BG_QUEUE_NORMAL_ALLIANCE :: nat where "BG_QUEUE_NORMAL_ALLIANCE = 2"
definition BG_QUEUE_NORMAL_HORDE :: nat where "BG_QUEUE_NORMAL_HORDE = 3"

definition MAX_BATTLEGROUND_BRACKETS :: nat where "MAX_BATTLEGROUND_BRACKETS = 16"

definition COUNT_OF_PLAYERS_TO_AVERAGE_WAIT_TIME :: nat where "COUNT_OF_PLAYERS_TO_AVERAGE_WAIT_TIME = 10"

definition INVITATION_REMIND_TIME :: u32 where "INVITATION_REMIND_TIME = 20000"
definition INVITE_ACCEPT_WAIT_TIME :: u32 where "INVITE_ACCEPT_WAIT_TIME = 90000"

record BattlegroundQueue =
  bq_heap :: bg_heap
  m_QueuedPlayers :: "(u64, PlayerQueueInfo) std_map"
  m_QueuedGroups :: "nat \<Rightarrow> nat \<Rightarrow> nat list"
  m_SelectionPools :: "nat \<Rightarrow> selection_pool"
  m_WaitTimes :: "nat \<Rightarrow> nat \<Rightarrow> u32 list"
  m_WaitTimeLastPlayer :: "nat \<Rightarrow> nat \<Rightarrow> u32"
  m_SumOfWaitTimes :: "nat \<Rightarrow> nat \<Rightarrow> u32"

definition BattlegroundQueue_new :: BattlegroundQueue where
  "BattlegroundQueue_new = \<lparr>bq_heap = [], m_QueuedPlayers = [], m_QueuedGroups = (\<lambda>_ _. []),
     m_SelectionPools = (\<lambda>_. pool_Init),
     m_WaitTimes = (\<lambda>_ _. replicate COUNT_OF_PLAYERS_TO_AVERAGE_WAIT_TIME 0),
     m_WaitTimeLastPlayer = (\<lambda>_ _. 0), m_SumOfWaitTimes = (\<lambda>_ _. 0)\<rparr>"

record bq_env =
  be_MSTime :: u32
  be_FindPlayer :: "u64 \<Rightarrow> bool"
  be_urand :: u32
  be_ArenaTeam :: "u32 \<Rightarrow> bool"
  be_IgnoreFaction :: bool
  be_ArenaAnnouncer :: bool
  be_QueueAnnouncer :: bool
  be_PlayerOnly :: bool
  be_InvitationType :: u32
  be_PremadeWait :: u32
  be_RatingDiscardTimer :: u32
  be_MaxRatingDifference :: u32
  be_BracketEntry :: "nat \<Rightarrow> bool"

datatype bq_effect =
  ArenaJoinText u32 u8 u32
| ArenaExitText u32 u8 u32
| QueueStatusSelf u32 u32 u32 u32
| QueueStatusWorld u32 u32 u32 u32
| ArenaMemberLost u32 u64 u32
| ArenaOfflineMemberLost u32 u64 u32
| LeaveQueueSlot u64 u32
| SetInvite u64 u32 u32
| RemindEvent u32 u64 u32 u32 u8 u32
| ExpireEvent u32 u64 u32 u32 u32 u32
| WaitJoinStatus u64 u32 u32 u8
| ScheduleUpdate u32 u32 nat
| NoQueueStatus u64

text \<open>Reading and writing a queue and a group.\<close>

abbreviation queue_at :: "nat \<Rightarrow> nat \<Rightarrow> BattlegroundQueue \<Rightarrow> nat list" where
  "queue_at b j q \<equiv> m_QueuedGroups q b j"

definition set_queue :: "nat \<Rightarrow> nat \<Rightarrow> nat list \<Rightarrow> BattlegroundQueue \<Rightarrow> BattlegroundQueue" where
  "set_queue b j gs q = q\<lparr>m_QueuedGroups := (m_QueuedGroups q)(b := (m_QueuedGroups q b)(j := gs))\<rparr>"

definition set_group :: "nat \<Rightarrow> GroupQueueInfo \<Rightarrow> BattlegroundQueue \<Rightarrow> BattlegroundQueue" where
  "set_group g i q = q\<lparr>bq_heap := sm_set g i (bq_heap q)\<rparr>"

definition set_pool :: "nat \<Rightarrow> selection_pool \<Rightarrow> BattlegroundQueue \<Rightarrow> BattlegroundQueue" where
  "set_pool t p q = q\<lparr>m_SelectionPools := (m_SelectionPools q)(t := p)\<rparr>"

section \<open>Types of queues\<close>

definition BGQueueTypeId :: "u32 \<Rightarrow> u8 \<Rightarrow> u32" where
  "BGQueueTypeId bgTypeId arenaType =
     (if bgTypeId = 2 then 2 else if bgTypeId = 3 then 3 else if bgTypeId = 1 then 1
      else if bgTypeId = 7 then 4 else if bgTypeId = 9 then 5 else if bgTypeId = 30 then 6
      else if bgTypeId = 108 then 7 else if bgTypeId = 120 then 8 else if bgTypeId = 32 then 9
      else if bgTypeId = 100 then 13
      else if bgTypeId \<in> {6, 4, 8, 5, 10, 11} then
        (if arenaType = 2 then 10 else if arenaType = 3 then 11 else if arenaType = 5 then 12 else 0)
      else 0)"

definition BGTemplateId :: "u32 \<Rightarrow> u32" where
  "BGTemplateId queue =
     (if queue = 2 then 2 else if queue = 3 then 3 else if queue = 1 then 1
      else if queue = 4 then 7 else if queue = 5 then 9 else if queue = 6 then 30
      else if queue = 7 then 108 else if queue = 8 then 120 else if queue = 9 then 32
      else if queue \<in> {10, 11, 12} then 6 else 0)"

definition BGArenaType :: "u32 \<Rightarrow> u8" where
  "BGArenaType queue = (if queue = 10 then 2 else if queue = 11 then 3 else if queue = 12 then 5 else 0)"

section \<open>Joining\<close>

text \<open>The players of the groups of a queue that are not invited.\<close>

fun count_waiting :: "bg_heap \<Rightarrow> nat list \<Rightarrow> u32 bq_result" where
  "count_waiting h [] = Inr 0"
| "count_waiting h (g # gs) =
     rbind (group_at h g) (\<lambda>i. rbind (count_waiting h gs) (\<lambda>n.
     Inr (if gq_Invited i = 0 then of_nat (length (gq_Players i)) + n else n)))"

text \<open>
  The team of a new group when the factions are mixed: the side with more room in a running
  battleground, or with fewer players in the queue.
\<close>

fun running_team :: "BattlegroundMgr \<Rightarrow> u32 \<Rightarrow> u32 \<Rightarrow> nat \<Rightarrow> nat list \<Rightarrow> u32 option bq_result" where
  "running_team m coin t bracket [] = Inr None"
| "running_team m coin t bracket (a # as) =
     rbind (bg_at m a) (\<lambda>b.
     if \<not> bg_IsRated b \<and> bg_TypeID b = t \<and> bg_BracketId b = bracket
        \<and> STATUS_WAIT_QUEUE < bg_Status b \<and> bg_Status b < STATUS_WAIT_LEAVE then
       (let hordeFree = GetFreeSlotsForTeam HORDE b; aliFree = GetFreeSlotsForTeam ALLIANCE b in
        Inr (Some (if hordeFree = aliFree then (if coin < 50 then HORDE else ALLIANCE)
                   else if sint aliFree < sint hordeFree then HORDE else ALLIANCE)))
     else running_team m coin t bracket as)"

definition mixed_team :: "bq_env \<Rightarrow> BattlegroundMgr \<Rightarrow> u32 \<Rightarrow> u32 \<Rightarrow> nat \<Rightarrow> BattlegroundQueue \<Rightarrow> u32 bq_result" where
  "mixed_team e m leader_team t bracket q =
     rbind (running_team m (be_urand e) t bracket (bd_BGFreeSlotQueue (bm_data t m))) (\<lambda>found.
     case found of
       Some team \<Rightarrow> Inr team
     | None \<Rightarrow>
         rbind (count_waiting (bq_heap q) (queue_at bracket BG_QUEUE_NORMAL_ALLIANCE q)) (\<lambda>qAlliance.
         rbind (count_waiting (bq_heap q) (queue_at bracket BG_QUEUE_NORMAL_HORDE q)) (\<lambda>qHorde.
         Inr (if qAlliance = qHorde then
                (if qAlliance = 0 then leader_team else if be_urand e < 50 then HORDE else ALLIANCE)
              else if qAlliance < qHorde then ALLIANCE else HORDE))))"

text \<open>A player joins: its record points to the group and the group knows it.\<close>

definition add_player :: "u32 \<Rightarrow> nat \<Rightarrow> u64 \<Rightarrow> BattlegroundQueue \<Rightarrow> BattlegroundQueue bq_result" where
  "add_player now g guid q =
     rbind (group_at (bq_heap q) g) (\<lambda>i.
     Inr (set_group g (i\<lparr>gq_Players := ss_insert guid (gq_Players i)\<rparr>)
       (q\<lparr>m_QueuedPlayers := sm_set guid \<lparr>pq_LastOnlineTime = now, pq_GroupInfo = g\<rparr> (m_QueuedPlayers q)\<rparr>)))"

fun add_members :: "u32 \<Rightarrow> nat \<Rightarrow> u64 option list \<Rightarrow> BattlegroundQueue \<Rightarrow> BattlegroundQueue bq_result" where
  "add_members now g [] q = Inr q"
| "add_members now g (None # ms) q = add_members now g ms q"
| "add_members now g (Some guid # ms) q = rbind (add_player now g guid q) (add_members now g ms)"

definition queue_index :: "bool \<Rightarrow> bool \<Rightarrow> u32 \<Rightarrow> nat" where
  "queue_index isRated isPremade team =
     (if \<not> isRated \<and> \<not> isPremade then 2 else 0) + (if team = HORDE then 1 else 0)"

definition needed :: "u32 \<Rightarrow> u32 \<Rightarrow> u32" where
  "needed minPlayers n = (if n < minPlayers then minPlayers - n else 0)"

text \<open>
  \<open>g\<close> and \<open>raw\<close> are what \<^verbatim>\<open>new\<close> returns, the address and the content of the memory, of which the two
  fields for rated battlegrounds are never set; \<open>grp\<close> lists the members of the group of the
  leader, \<open>None\<close> for one that is not loaded.
\<close>

definition new_group ::
  "bq_env \<Rightarrow> GroupQueueInfo \<Rightarrow> u32 \<Rightarrow> u32 \<Rightarrow> u8 \<Rightarrow> bool \<Rightarrow> u32 \<Rightarrow> u32 \<Rightarrow> u32 \<Rightarrow> GroupQueueInfo" where
  "new_group e raw leader_team t arenaType isRated arenaRating mmr arenateamid =
     raw\<lparr>gq_BgTypeId := t, gq_ArenaType := arenaType, gq_ArenaTeamId := arenateamid, gq_IsRated := isRated,
         gq_Invited := 0, gq_JoinTime := be_MSTime e, gq_RemoveInviteTime := 0, gq_Team := leader_team,
         gq_ArenaTeamRating := arenaRating, gq_ArenaMatchmakerRating := mmr,
         gq_OpponentsTeamRating := 0, gq_OpponentsMatchmakerRating := 0, gq_Players := []\<rparr>"

definition announce_queue ::
  "bq_env \<Rightarrow> BattlegroundMgr \<Rightarrow> u32 \<Rightarrow> nat \<Rightarrow> BattlegroundQueue \<Rightarrow> bq_effect list bq_result" where
  "announce_queue e m t bracket q =
     (case GetBattlegroundTemplate t m of
        None \<Rightarrow> Inr []
      | Some a \<Rightarrow>
          rbind (bg_at m a) (\<lambda>b.
          rbind (count_waiting (bq_heap q) (queue_at bracket BG_QUEUE_NORMAL_ALLIANCE q)) (\<lambda>qAlliance.
          rbind (count_waiting (bq_heap q) (queue_at bracket BG_QUEUE_NORMAL_HORDE q)) (\<lambda>qHorde.
          let minPlayers = bg_MinPlayersPerTeam b in
          Inr [(if be_PlayerOnly e then QueueStatusSelf else QueueStatusWorld)
                 qAlliance (needed minPlayers qAlliance) qHorde (needed minPlayers qHorde)]))))"

definition bq_AddGroup ::
  "bq_env \<Rightarrow> BattlegroundMgr \<Rightarrow> nat \<Rightarrow> GroupQueueInfo \<Rightarrow> u64 \<Rightarrow> u32 \<Rightarrow> u64 option list option \<Rightarrow> u32 \<Rightarrow> nat \<Rightarrow> u8 \<Rightarrow> bool \<Rightarrow> bool
     \<Rightarrow> u32 \<Rightarrow> u32 \<Rightarrow> u32 \<Rightarrow> BattlegroundQueue \<Rightarrow> (bq_effect list \<times> BattlegroundQueue) bq_result" where
  "bq_AddGroup e m g raw leader leader_team grp t bracket arenaType isRated isPremade arenaRating mmr arenateamid q =
     (let i = new_group e raw leader_team t arenaType isRated arenaRating mmr arenateamid in
      rbind (if be_IgnoreFaction e then mixed_team e m leader_team t bracket q else Inr leader_team) (\<lambda>team.
      let i = i\<lparr>gq_Team := team\<rparr>;
          index = queue_index isRated isPremade team;
          announce = (if isRated \<and> be_ArenaAnnouncer e \<and> be_ArenaTeam e arenateamid
                      then [ArenaJoinText arenateamid arenaType arenaRating] else []);
          q = set_group g i q in
      rbind (case grp of Some ms \<Rightarrow> add_members (be_MSTime e) g ms q
                       | None \<Rightarrow> add_player (be_MSTime e) g leader q) (\<lambda>q.
      let q = set_queue bracket index (queue_at bracket index q @ [g]) q in
      rbind (if \<not> isRated \<and> \<not> isPremade \<and> be_QueueAnnouncer e then announce_queue e m t bracket q else Inr []) (\<lambda>texts.
      Inr (announce @ texts, q)))))"

section \<open>Waiting times\<close>

definition wait_team :: "GroupQueueInfo \<Rightarrow> nat" where
  "wait_team i =
     (if gq_ArenaType i = 0 then (if gq_Team i = HORDE then TEAM_HORDE else TEAM_ALLIANCE)
      else if gq_IsRated i then TEAM_HORDE else TEAM_ALLIANCE)"

definition set2 :: "nat \<Rightarrow> nat \<Rightarrow> 'a \<Rightarrow> (nat \<Rightarrow> nat \<Rightarrow> 'a) \<Rightarrow> nat \<Rightarrow> nat \<Rightarrow> 'a" where
  "set2 t b x f = f(t := (f t)(b := x))"

definition PlayerInvitedToBGUpdateAverageWaitTime ::
  "bq_env \<Rightarrow> GroupQueueInfo \<Rightarrow> nat \<Rightarrow> BattlegroundQueue \<Rightarrow> BattlegroundQueue" where
  "PlayerInvitedToBGUpdateAverageWaitTime e i bracket q =
     (let timeInQueue = getMSTimeDiff (gq_JoinTime i) (be_MSTime e);
          t = wait_team i;
          times = m_WaitTimes q t bracket;
          last = m_WaitTimeLastPlayer q t bracket;
          sum = m_SumOfWaitTimes q t bracket - times ! unat last;
          times = times[unat last := timeInQueue];
          sum = sum + timeInQueue;
          last = (last + 1) mod of_nat COUNT_OF_PLAYERS_TO_AVERAGE_WAIT_TIME
      in q\<lparr>m_WaitTimes := set2 t bracket times (m_WaitTimes q),
           m_WaitTimeLastPlayer := set2 t bracket last (m_WaitTimeLastPlayer q),
           m_SumOfWaitTimes := set2 t bracket sum (m_SumOfWaitTimes q)\<rparr>)"

definition GetAverageQueueWaitTime :: "GroupQueueInfo \<Rightarrow> nat \<Rightarrow> BattlegroundQueue \<Rightarrow> u32" where
  "GetAverageQueueWaitTime i bracket q =
     (let t = wait_team i in
      if m_WaitTimes q t bracket ! (COUNT_OF_PLAYERS_TO_AVERAGE_WAIT_TIME - 1) \<noteq> 0
      then m_SumOfWaitTimes q t bracket div of_nat COUNT_OF_PLAYERS_TO_AVERAGE_WAIT_TIME
      else 0)"

section \<open>Leaving\<close>

text \<open>
  The loops that look for the queue of a group: the brackets downwards, in each the premade and
  the normal queue of the side; the last hit of a bracket counts.
\<close>

definition bracket_hit :: "nat \<Rightarrow> nat \<Rightarrow> nat \<Rightarrow> BattlegroundQueue \<Rightarrow> nat option" where
  "bracket_hit g index b q =
     (if g \<in> set (queue_at b (index + 2) q) then Some (index + 2)
      else if g \<in> set (queue_at b index q) then Some index else None)"

fun locate :: "nat \<Rightarrow> nat \<Rightarrow> nat \<Rightarrow> BattlegroundQueue \<Rightarrow> (nat \<times> nat) option" where
  "locate g index 0 q = None"
| "locate g index (Suc b) q =
     (case bracket_hit g index b q of Some j \<Rightarrow> Some (b, j) | None \<Rightarrow> locate g index b q)"

definition modify_bg :: "(Battleground \<Rightarrow> Battleground) \<Rightarrow> nat option \<Rightarrow> BattlegroundMgr \<Rightarrow> BattlegroundMgr bq_result" where
  "modify_bg f a m = (case a of None \<Rightarrow> Inr m | Some a \<Rightarrow> rbind (bg_at m a) (\<lambda>b. Inr (bg_store a (f b) m)))"

text \<open>The counters of the battleground the group is invited to.\<close>

definition release_slots :: "bool \<Rightarrow> GroupQueueInfo \<Rightarrow> BattlegroundMgr \<Rightarrow> BattlegroundMgr bq_result" where
  "release_slots decreaseInvitedCount i m =
     rbind (modify_bg (DecreaseAwaitingPlayers (gq_Team i))
              (GetBattleground (gq_Invited i)
                 (if gq_BgTypeId i = BATTLEGROUND_AA then BATTLEGROUND_TYPE_NONE else gq_BgTypeId i) m) m) (\<lambda>m.
     if decreaseInvitedCount \<and> gq_Invited i \<noteq> 0
     then modify_bg (DecreaseInvitedCount (gq_Team i)) (GetBattleground (gq_Invited i) (gq_BgTypeId i) m) m
     else Inr m)"

text \<open>Texts and results of a rated team that loses a member in the queue; \<open>i\<close> no longer has the player.\<close>

definition leave_effects :: "bq_env \<Rightarrow> u64 \<Rightarrow> bool \<Rightarrow> GroupQueueInfo \<Rightarrow> bq_effect list" where
  "leave_effects e guid decreaseInvitedCount i =
     (if gq_ArenaType i \<noteq> 0 \<and> gq_IsRated i \<and> gq_Players i = [] \<and> be_ArenaAnnouncer e \<and> be_ArenaTeam e (gq_ArenaTeamId i)
      then [ArenaExitText (gq_ArenaTeamId i) (gq_ArenaType i) (gq_ArenaTeamRating i)] else [])
     @ (if gq_Invited i \<noteq> 0 \<and> gq_IsRated i \<and> decreaseInvitedCount \<and> be_ArenaTeam e (gq_ArenaTeamId i)
        then [(if be_FindPlayer e guid then ArenaMemberLost else ArenaOfflineMemberLost)
                (gq_ArenaTeamId i) guid (gq_OpponentsMatchmakerRating i)] else [])"

definition take_out :: "u64 \<Rightarrow> nat \<Rightarrow> GroupQueueInfo \<Rightarrow> BattlegroundQueue \<Rightarrow> BattlegroundQueue" where
  "take_out guid g i q = set_group g i (q\<lparr>m_QueuedPlayers := sm_erase guid (m_QueuedPlayers q)\<rparr>)"

definition delete_group :: "nat \<Rightarrow> nat \<Rightarrow> nat \<Rightarrow> BattlegroundQueue \<Rightarrow> BattlegroundQueue" where
  "delete_group g b j q = set_queue b j (remove1 g (queue_at b j q)) (q\<lparr>bq_heap := sm_erase g (bq_heap q)\<rparr>)"

lemma length_sm_erase: "sm_find m k \<noteq> None \<Longrightarrow> length (sm_erase k m) < length m"
proof (induction k m rule: sm_erase.induct)
  case (2 k k' v' m)
  then show ?case by (cases "sm_find m k") (auto simp: sm_erase_absent split: if_splits)
qed simp

lemma m_QueuedPlayers_take_out [simp]: "m_QueuedPlayers (take_out guid g i q) = sm_erase guid (m_QueuedPlayers q)"
  by (simp add: take_out_def set_group_def)

function RemovePlayer ::
  "bq_env \<Rightarrow> u64 \<Rightarrow> bool \<Rightarrow> BattlegroundMgr \<Rightarrow> BattlegroundQueue \<Rightarrow>
     (bq_effect list \<times> BattlegroundMgr \<times> BattlegroundQueue) bq_result" where
  "RemovePlayer e guid decreaseInvitedCount m q =
     (case sm_find (m_QueuedPlayers q) guid of
        None \<Rightarrow> Inr ([], m, q)
      | Some info \<Rightarrow>
          let g = pq_GroupInfo info in
          rbind (group_at (bq_heap q) g) (\<lambda>i.
          case locate g (if gq_Team i = HORDE then BG_QUEUE_PREMADE_HORDE else BG_QUEUE_PREMADE_ALLIANCE)
                 MAX_BATTLEGROUND_BRACKETS q of
            None \<Rightarrow> Inr ([], m, q)
          | Some (b, j) \<Rightarrow>
              let i = i\<lparr>gq_Players := ss_erase guid (gq_Players i)\<rparr> in
              rbind (release_slots decreaseInvitedCount i m) (\<lambda>m.
              let q = take_out guid g i q; es = leave_effects e guid decreaseInvitedCount i in
              if gq_Players i = [] then Inr (es, m, delete_group g b j q)
              else if gq_Invited i = 0 \<and> gq_IsRated i then
                (let follow = hd (gq_Players i);
                     leave = (if be_FindPlayer e follow
                              then [LeaveQueueSlot follow (BGQueueTypeId (gq_BgTypeId i) (gq_ArenaType i))] else []) in
                 rbind (RemovePlayer e follow decreaseInvitedCount m q) (\<lambda>(es', m, q). Inr (es @ leave @ es', m, q)))
              else Inr (es, m, q))))"
  by pat_completeness auto
termination
  by (relation "measure (\<lambda>(e, guid, d, m, q). length (m_QueuedPlayers q))") (auto intro: length_sm_erase)

declare RemovePlayer.simps [simp del]

definition IsPlayerInvited :: "u64 \<Rightarrow> u32 \<Rightarrow> u32 \<Rightarrow> BattlegroundQueue \<Rightarrow> bool bq_result" where
  "IsPlayerInvited guid bgInstanceGuid removeTime q =
     (case sm_find (m_QueuedPlayers q) guid of
        None \<Rightarrow> Inr False
      | Some info \<Rightarrow> rbind (group_at (bq_heap q) (pq_GroupInfo info)) (\<lambda>i.
          Inr (gq_Invited i = bgInstanceGuid \<and> gq_RemoveInviteTime i = removeTime)))"

definition GetPlayerGroupInfoData :: "u64 \<Rightarrow> BattlegroundQueue \<Rightarrow> GroupQueueInfo option bq_result" where
  "GetPlayerGroupInfoData guid q =
     (case sm_find (m_QueuedPlayers q) guid of
        None \<Rightarrow> Inr None
      | Some info \<Rightarrow> rbind (group_at (bq_heap q) (pq_GroupInfo info)) (\<lambda>i. Inr (Some i)))"

definition GetPlayersInQueue :: "nat \<Rightarrow> BattlegroundQueue \<Rightarrow> u32" where
  "GetPlayersInQueue t q = PlayerCount (m_SelectionPools q t)"

end
