(* ===== verification/BG_Match.thy ===== *)
theory BG_Match
  imports BG_Queue
begin

text \<open>
  Making matches (\<^verbatim>\<open>src/src/server/game/Battlegrounds/BattlegroundQueue.cpp\<close>): invitations, the checks that
  fill the selection pools, and the update of a queue. \<^verbatim>\<open>CreateNewBattleground\<close> is a parameter,
  as it copies one of thirteen templates with their scripts; it returns the address of the new
  battleground and the manager that holds it.
\<close>

section \<open>Invitations\<close>

text \<open>The loop over the players of the group; those who are not online are skipped.\<close>

fun invite_players ::
  "bq_env \<Rightarrow> GroupQueueInfo \<Rightarrow> u64 list \<Rightarrow> Battleground \<Rightarrow> BattlegroundQueue \<Rightarrow>
     bq_effect list \<times> Battleground \<times> BattlegroundQueue" where
  "invite_players e i [] b q = ([], b, q)"
| "invite_players e i (guid # guids) b q =
     (if \<not> be_FindPlayer e guid then invite_players e i guids b q
      else
        let queueTypeId = BGQueueTypeId (bg_TypeID b) (bg_ArenaType b);
            q = PlayerInvitedToBGUpdateAverageWaitTime e i (bg_BracketId b) q;
            b = IncreaseAwaitingPlayers (gq_Team i) (IncreaseInvitedCount (gq_Team i) b);
            es = [SetInvite guid queueTypeId (gq_Invited i),
                  RemindEvent INVITATION_REMIND_TIME guid (gq_Invited i) (bg_TypeID b) (gq_ArenaType i) (gq_RemoveInviteTime i),
                  ExpireEvent INVITE_ACCEPT_WAIT_TIME guid (gq_Invited i) (bg_TypeID b) queueTypeId (gq_RemoveInviteTime i),
                  WaitJoinStatus guid (bg_InstanceID b) INVITE_ACCEPT_WAIT_TIME (gq_ArenaType i)];
            (es', b, q) = invite_players e i guids b q
        in (es @ es', b, q))"

definition InviteGroupToBG ::
  "bq_env \<Rightarrow> nat \<Rightarrow> nat \<Rightarrow> u32 \<Rightarrow> BattlegroundMgr \<Rightarrow> BattlegroundQueue \<Rightarrow>
     (bool \<times> bq_effect list \<times> BattlegroundMgr \<times> BattlegroundQueue) bq_result" where
  "InviteGroupToBG e g a side m q =
     rbind (group_at (bq_heap q) g) (\<lambda>i.
     rbind (bg_at m a) (\<lambda>b.
     let i = (if side \<noteq> 0 then i\<lparr>gq_Team := side\<rparr> else i) in
     if gq_Invited i = 0 then
       (let i = i\<lparr>gq_Invited := bg_InstanceID b\<rparr>;
            b = (if bg_IsArena b \<and> bg_IsRated b then SetArenaTeamIdForTeam (gq_Team i) (gq_ArenaTeamId i) b else b);
            i = i\<lparr>gq_RemoveInviteTime := be_MSTime e + INVITE_ACCEPT_WAIT_TIME\<rparr>;
            (es, b, q) = invite_players e i (gq_Players i) b (set_group g i q)
        in Inr (True, es, bg_store a b m, q))
     else Inr (False, [], m, set_group g i q)))"

text \<open>All groups of a pool, each for the team it has.\<close>

fun invite_all ::
  "bq_env \<Rightarrow> nat \<Rightarrow> nat list \<Rightarrow> BattlegroundMgr \<Rightarrow> BattlegroundQueue \<Rightarrow>
     (bq_effect list \<times> BattlegroundMgr \<times> BattlegroundQueue) bq_result" where
  "invite_all e a [] m q = Inr ([], m, q)"
| "invite_all e a (g # gs) m q =
     rbind (group_at (bq_heap q) g) (\<lambda>i.
     rbind (InviteGroupToBG e g a (gq_Team i) m q) (\<lambda>(_, es, m, q).
     rbind (invite_all e a gs m q) (\<lambda>(es', m, q). Inr (es @ es', m, q))))"

section \<open>Filling the pools\<close>

definition init_pools :: "BattlegroundQueue \<Rightarrow> BattlegroundQueue" where
  "init_pools q = set_pool TEAM_HORDE pool_Init (set_pool TEAM_ALLIANCE pool_Init q)"

definition set_pools :: "selection_pool \<Rightarrow> selection_pool \<Rightarrow> BattlegroundQueue \<Rightarrow> BattlegroundQueue" where
  "set_pools pa ph q = set_pool TEAM_HORDE ph (set_pool TEAM_ALLIANCE pa q)"

definition FillPlayersToBG ::
  "bq_env \<Rightarrow> nat \<Rightarrow> nat \<Rightarrow> BattlegroundMgr \<Rightarrow> BattlegroundQueue \<Rightarrow> BattlegroundQueue bq_result" where
  "FillPlayersToBG e a bracket m q =
     rbind (bg_at m a) (\<lambda>b.
     rbind (fill_pools (bq_heap q) (be_InvitationType e) (GetFreeSlotsForTeam ALLIANCE b) (GetFreeSlotsForTeam HORDE b)
              (queue_at bracket BG_QUEUE_NORMAL_ALLIANCE q) (queue_at bracket BG_QUEUE_NORMAL_HORDE q)
              (m_SelectionPools q TEAM_ALLIANCE) (m_SelectionPools q TEAM_HORDE)) (\<lambda>(pa, ph).
     Inr (set_pools pa ph q)))"

definition CheckNormalMatch ::
  "bq_env \<Rightarrow> nat \<Rightarrow> nat \<Rightarrow> u32 \<Rightarrow> u32 \<Rightarrow> BattlegroundMgr \<Rightarrow> BattlegroundQueue \<Rightarrow> (bool \<times> BattlegroundQueue) bq_result" where
  "CheckNormalMatch e template bracket minPlayers maxPlayers m q =
     rbind (bg_at m template) (\<lambda>b.
     rbind (match_pools (bq_heap q) (bm_Testing m \<and> \<not> bg_IsArena b) (be_InvitationType e) minPlayers maxPlayers
              (queue_at bracket BG_QUEUE_NORMAL_ALLIANCE q) (queue_at bracket BG_QUEUE_NORMAL_HORDE q)
              (m_SelectionPools q TEAM_ALLIANCE) (m_SelectionPools q TEAM_HORDE)) (\<lambda>(ok, pa, ph).
     Inr (ok, set_pools pa ph q)))"

text \<open>The first group of a queue that is not invited.\<close>

fun first_waiting :: "bg_heap \<Rightarrow> nat list \<Rightarrow> nat option bq_result" where
  "first_waiting h [] = Inr None"
| "first_waiting h (g # gs) =
     rbind (group_at h g) (\<lambda>i. if gq_Invited i = 0 then Inr (Some g) else first_waiting h gs)"

text \<open>The premade group at the front of a queue moves to the normal queue of its side.\<close>

definition premade_to_normal :: "u32 \<Rightarrow> u32 \<Rightarrow> nat \<Rightarrow> nat \<Rightarrow> BattlegroundQueue \<Rightarrow> BattlegroundQueue bq_result" where
  "premade_to_normal time_before minPlayers bracket t q =
     (case queue_at bracket (BG_QUEUE_PREMADE_ALLIANCE + t) q of
        [] \<Rightarrow> Inr q
      | g # gs \<Rightarrow>
          rbind (group_at (bq_heap q) g) (\<lambda>i.
          if gq_Invited i = 0 \<and> (gq_JoinTime i < time_before \<or> length (gq_Players i) < unat minPlayers) then
            Inr (set_queue bracket (BG_QUEUE_PREMADE_ALLIANCE + t) gs
              (set_queue bracket (BG_QUEUE_NORMAL_ALLIANCE + t) (g # queue_at bracket (BG_QUEUE_NORMAL_ALLIANCE + t) q) q))
          else Inr q))"

definition CheckPremadeMatch ::
  "bq_env \<Rightarrow> nat \<Rightarrow> u32 \<Rightarrow> u32 \<Rightarrow> BattlegroundQueue \<Rightarrow> (bool \<times> BattlegroundQueue) bq_result" where
  "CheckPremadeMatch e bracket minPlayers maxPlayers q =
     (let h = bq_heap q;
          ali = queue_at bracket BG_QUEUE_PREMADE_ALLIANCE q; horde = queue_at bracket BG_QUEUE_PREMADE_HORDE q in
      rbind (if ali \<noteq> [] \<and> horde \<noteq> [] then first_waiting h ali else Inr None) (\<lambda>ali_group.
      rbind (if ali \<noteq> [] \<and> horde \<noteq> [] then first_waiting h horde else Inr None) (\<lambda>horde_group.
      case (ali_group, horde_group) of
        (Some ga, Some gh) \<Rightarrow>
          rbind (pool_AddGroup h ga maxPlayers (m_SelectionPools q TEAM_ALLIANCE)) (\<lambda>(_, pa).
          rbind (pool_AddGroup h gh maxPlayers (m_SelectionPools q TEAM_HORDE)) (\<lambda>(_, ph).
          let maxPlayers = min (PlayerCount pa) (PlayerCount ph) in
          rbind (add_uninvited h maxPlayers (queue_at bracket BG_QUEUE_NORMAL_ALLIANCE q) pa) (\<lambda>pa.
          rbind (add_uninvited h maxPlayers (queue_at bracket BG_QUEUE_NORMAL_HORDE q) ph) (\<lambda>ph.
          Inr (True, set_pools pa ph q)))))
      | _ \<Rightarrow>
          let time_before = be_MSTime e - be_PremadeWait e in
          rbind (premade_to_normal time_before minPlayers bracket TEAM_ALLIANCE q) (\<lambda>q.
          rbind (premade_to_normal time_before minPlayers bracket TEAM_HORDE q) (\<lambda>q.
          Inr (False, q))))))"

section \<open>Skirmishes of one faction\<close>

text \<open>
  The groups of the second team change sides. Each is put in front of the other queue and erased
  from the queue of its old side, where the search starts behind the iterator \<^verbatim>\<open>itr_team\<close>, kept as the number of
  elements \<open>skip\<close> up to it. Erasing an element of a \<^verbatim>\<open>std::deque\<close> that is not the last one invalidates
  it.
\<close>

fun switch_side ::
  "nat \<Rightarrow> nat \<Rightarrow> nat \<Rightarrow> u32 \<Rightarrow> nat \<Rightarrow> bool \<Rightarrow> nat list \<Rightarrow> BattlegroundQueue \<Rightarrow> BattlegroundQueue bq_result" where
  "switch_side bracket t other otherTeamId skip valid [] q = Inr q"
| "switch_side bracket t other otherTeamId skip valid (g # gs) q =
     rbind (group_at (bq_heap q) g) (\<lambda>i.
     let q = set_group g (i\<lparr>gq_Team := otherTeamId\<rparr>) q;
         q = set_queue bracket (BG_QUEUE_NORMAL_ALLIANCE + other) (g # queue_at bracket (BG_QUEUE_NORMAL_ALLIANCE + other) q) q;
         old = queue_at bracket (BG_QUEUE_NORMAL_ALLIANCE + t) q;
         rest = drop skip old in
     if \<not> valid then Inl InvalidIterator
     else switch_side bracket t other otherTeamId skip
            (g \<in> set rest \<longrightarrow> g \<notin> set (butlast rest))
            gs (set_queue bracket (BG_QUEUE_NORMAL_ALLIANCE + t) (take skip old @ remove1 g rest) q))"

definition CheckSkirmishForSameFaction ::
  "nat \<Rightarrow> u32 \<Rightarrow> BattlegroundQueue \<Rightarrow> (bool \<times> BattlegroundQueue) bq_result" where
  "CheckSkirmishForSameFaction bracket minPlayers q =
     (let pa = m_SelectionPools q TEAM_ALLIANCE; ph = m_SelectionPools q TEAM_HORDE in
      if PlayerCount pa < minPlayers \<and> PlayerCount ph < minPlayers then Inr (False, q)
      else
        let (t, other, otherTeamId) = (if PlayerCount ph = minPlayers then (TEAM_HORDE, TEAM_ALLIANCE, ALLIANCE)
                                       else (TEAM_ALLIANCE, TEAM_HORDE, HORDE));
            q = set_pool other pool_Init q;
            sel = SelectedGroups (m_SelectionPools q t);
            queue = queue_at bracket (BG_QUEUE_NORMAL_ALLIANCE + t) q in
        if sel = [] then Inl EndIterator
        else if last sel \<notin> set queue then Inr (False, q)
        else
          let passed = takeWhile (\<lambda>g. g \<noteq> last sel) queue; skip = Suc (length passed) in
          rbind (add_uninvited (bq_heap q) minPlayers (drop skip queue) pool_Init) (\<lambda>p.
          let q = set_pool other p q in
          if PlayerCount p \<noteq> minPlayers then Inr (False, q)
          else rbind (switch_side bracket t other otherTeamId skip True (SelectedGroups p) q) (\<lambda>q. Inr (True, q))))"

section \<open>Rated arenas\<close>

definition in_range :: "u32 \<Rightarrow> u32 \<Rightarrow> u32 \<Rightarrow> GroupQueueInfo \<Rightarrow> bool" where
  "in_range minRating maxRating discardTime i \<longleftrightarrow>
     gq_Invited i = 0
     \<and> (minRating \<le> gq_ArenaMatchmakerRating i \<and> gq_ArenaMatchmakerRating i \<le> maxRating \<or> gq_JoinTime i < discardTime)"

text \<open>The first group from the position \<open>n\<close> on that fits.\<close>

fun find_fit :: "bg_heap \<Rightarrow> (GroupQueueInfo \<Rightarrow> bool) \<Rightarrow> nat \<Rightarrow> nat list \<Rightarrow> (nat \<times> nat) option bq_result" where
  "find_fit h fit n [] = Inr None"
| "find_fit h fit n (g # gs) =
     rbind (group_at h g) (\<lambda>i. if fit i then Inr (Some (n, g)) else find_fit h fit (Suc n) gs)"

text \<open>
  Minutes in the queue widen the range by 150 points each. The code computes with \<^verbatim>\<open>float\<close>; all values are
  integers below \<^verbatim>\<open>2^24\<close>, so it is exact.
\<close>

definition mmr_steps :: "u32 \<Rightarrow> GroupQueueInfo \<Rightarrow> u32" where
  "mmr_steps now i = ((now - gq_JoinTime i) div 60000) * 150"

definition front :: "bg_heap \<Rightarrow> nat list \<Rightarrow> GroupQueueInfo option bq_result" where
  "front h gs = (case gs of [] \<Rightarrow> Inr None | g # _ \<Rightarrow> rbind (group_at h g) (\<lambda>i. Inr (Some i)))"

text \<open>The rating to match and how far to widen the range; \<open>None\<close> when both queues are empty.\<close>

definition longest_waiting :: "u32 \<Rightarrow> GroupQueueInfo option \<Rightarrow> GroupQueueInfo option \<Rightarrow> (u32 \<times> u32) option" where
  "longest_waiting now front1 front2 =
     (case (front1, front2) of
        (None, None) \<Rightarrow> None
      | (Some i, None) \<Rightarrow> Some (gq_ArenaMatchmakerRating i, mmr_steps now i)
      | (None, Some i) \<Rightarrow> Some (gq_ArenaMatchmakerRating i, mmr_steps now i)
      | (Some i, Some j) \<Rightarrow>
          let k = (if gq_JoinTime i < gq_JoinTime j then i else j)
          in Some (gq_ArenaMatchmakerRating k, mmr_steps now k))"

definition rating_range :: "bq_env \<Rightarrow> u32 \<Rightarrow> u32 \<Rightarrow> u32 \<times> u32" where
  "rating_range e arenaRating mmrMaxDiff =
     (let d = (if be_MaxRatingDifference e = 0 then 5000 else be_MaxRatingDifference e);
          lo = (if arenaRating \<le> d then 0 else arenaRating - d);
          hi = arenaRating + d
      in if 0 < mmrMaxDiff then ((if mmrMaxDiff < lo then lo - mmrMaxDiff else 0), mmrMaxDiff + hi) else (lo, hi))"

text \<open>Two teams for the next game, each with its queue and its position in it.\<close>

definition find_teams ::
  "bq_env \<Rightarrow> nat \<Rightarrow> u32 \<Rightarrow> u32 \<Rightarrow> BattlegroundQueue \<Rightarrow> ((nat \<times> nat \<times> nat) \<times> nat \<times> nat \<times> nat) option bq_result" where
  "find_teams e bracket lo hi q =
     (let h = bq_heap q;
          fit = in_range lo hi (be_MSTime e - be_RatingDiscardTimer e);
          ali = queue_at bracket BG_QUEUE_PREMADE_ALLIANCE q; horde = queue_at bracket BG_QUEUE_PREMADE_HORDE q;
          second = (\<lambda>j n g gs.
            rbind (group_at h g) (\<lambda>i.
            rbind (find_fit h (\<lambda>i'. fit i' \<and> gq_ArenaTeamId i \<noteq> gq_ArenaTeamId i') n (drop n gs)) (\<lambda>r.
            Inr (case r of None \<Rightarrow> None | Some (n', g') \<Rightarrow> Some ((j, n, g), (j, n', g'))))))
      in
      rbind (find_fit h fit 0 ali) (\<lambda>a.
      rbind (find_fit h fit 0 horde) (\<lambda>b.
      case (a, b) of
        (None, None) \<Rightarrow> Inr None
      | (Some (n, g), Some (n', g')) \<Rightarrow> Inr (Some ((BG_QUEUE_PREMADE_ALLIANCE, n, g), (BG_QUEUE_PREMADE_HORDE, n', g')))
      | (Some (n, g), None) \<Rightarrow> second BG_QUEUE_PREMADE_ALLIANCE n g ali
      | (None, Some (n, g)) \<Rightarrow> second BG_QUEUE_PREMADE_HORDE n g horde)))"

definition set_opponents :: "nat \<Rightarrow> nat \<Rightarrow> BattlegroundQueue \<Rightarrow> BattlegroundQueue bq_result" where
  "set_opponents ga gh q =
     rbind (group_at (bq_heap q) ga) (\<lambda>i.
     rbind (group_at (bq_heap q) gh) (\<lambda>j.
     let q = set_group ga (i\<lparr>gq_OpponentsTeamRating := gq_ArenaTeamRating j,
                              gq_OpponentsMatchmakerRating := gq_ArenaMatchmakerRating j\<rparr>) q in
     rbind (group_at (bq_heap q) gh) (\<lambda>j.
     Inr (set_group gh (j\<lparr>gq_OpponentsTeamRating := gq_ArenaTeamRating i,
                           gq_OpponentsMatchmakerRating := gq_ArenaMatchmakerRating i\<rparr>) q))))"

text \<open>
  A team that plays for the other faction moves to the front of its queue. The iterator must point into the queue
  it is erased from, and both changes together would use an invalidated one.
\<close>

definition move_teams :: "nat \<Rightarrow> nat \<times> nat \<times> nat \<Rightarrow> nat \<times> nat \<times> nat \<Rightarrow> BattlegroundQueue \<Rightarrow> BattlegroundQueue bq_result" where
  "move_teams bracket a b q =
     (case (a, b) of ((ja, na, ga), (jb, nb, gb)) \<Rightarrow>
      rbind (group_at (bq_heap q) ga) (\<lambda>i.
      rbind (group_at (bq_heap q) gb) (\<lambda>j.
      rbind (if gq_Team i \<noteq> ALLIANCE then
               (if ja \<noteq> BG_QUEUE_PREMADE_HORDE then Inl InvalidIterator
                else Inr (set_queue bracket BG_QUEUE_PREMADE_HORDE (remove_nth na (queue_at bracket BG_QUEUE_PREMADE_HORDE q))
                  (set_queue bracket BG_QUEUE_PREMADE_ALLIANCE (ga # queue_at bracket BG_QUEUE_PREMADE_ALLIANCE q) q)))
             else Inr q) (\<lambda>q.
      if gq_Team j \<noteq> HORDE then
        (if jb \<noteq> BG_QUEUE_PREMADE_ALLIANCE \<or> gq_Team i \<noteq> ALLIANCE then Inl InvalidIterator
         else Inr (set_queue bracket BG_QUEUE_PREMADE_ALLIANCE (remove_nth nb (queue_at bracket BG_QUEUE_PREMADE_ALLIANCE q))
           (set_queue bracket BG_QUEUE_PREMADE_HORDE (gb # queue_at bracket BG_QUEUE_PREMADE_HORDE q) q)))
      else Inr q))))"

type_synonym create_bg = "BattlegroundMgr \<Rightarrow> u32 \<Rightarrow> nat \<Rightarrow> u8 \<Rightarrow> bool \<Rightarrow> (nat \<times> BattlegroundMgr) option"

text \<open>The part of the update for rated arenas, with the rating of the team that has joined, or 0.\<close>

definition start_rated ::
  "bq_env \<Rightarrow> create_bg \<Rightarrow> u32 \<Rightarrow> nat \<Rightarrow> u8 \<Rightarrow> nat \<times> nat \<times> nat \<Rightarrow> nat \<times> nat \<times> nat \<Rightarrow> BattlegroundMgr \<Rightarrow> BattlegroundQueue \<Rightarrow>
     (bq_effect list \<times> BattlegroundMgr \<times> BattlegroundQueue) bq_result" where
  "start_rated e create t bracket arenaType a b m q =
     (case create m t bracket arenaType True of
        None \<Rightarrow> Inr ([], m, q)
      | Some (arena, m) \<Rightarrow>
          (case (a, b) of ((ja, na, ga), (jb, nb, gb)) \<Rightarrow>
          rbind (set_opponents ga gb q) (\<lambda>q.
          rbind (move_teams bracket a b q) (\<lambda>q.
          rbind (group_at (bq_heap q) ga) (\<lambda>i.
          rbind (group_at (bq_heap q) gb) (\<lambda>j.
          rbind (modify_bg (SetArenaMatchmakerRating ALLIANCE (gq_ArenaMatchmakerRating i)) (Some arena) m) (\<lambda>m.
          rbind (modify_bg (SetArenaMatchmakerRating HORDE (gq_ArenaMatchmakerRating j)) (Some arena) m) (\<lambda>m.
          rbind (InviteGroupToBG e ga arena ALLIANCE m q) (\<lambda>(_, es, m, q).
          rbind (InviteGroupToBG e gb arena HORDE m q) (\<lambda>(_, es', m, q).
          rbind (StartBattleground arena m) (\<lambda>m.
          Inr (es @ es', m, q))))))))))))"

definition update_rated ::
  "bq_env \<Rightarrow> create_bg \<Rightarrow> u32 \<Rightarrow> nat \<Rightarrow> u8 \<Rightarrow> u32 \<Rightarrow> BattlegroundMgr \<Rightarrow> BattlegroundQueue \<Rightarrow>
     (bq_effect list \<times> BattlegroundMgr \<times> BattlegroundQueue) bq_result" where
  "update_rated e create t bracket arenaType arenaRating m q =
     (let h = bq_heap q in
      rbind (if arenaRating \<noteq> 0 then Inr None else front h (queue_at bracket BG_QUEUE_PREMADE_ALLIANCE q)) (\<lambda>front1.
      rbind (if arenaRating \<noteq> 0 then Inr None else front h (queue_at bracket BG_QUEUE_PREMADE_HORDE q)) (\<lambda>front2.
      case (if arenaRating \<noteq> 0 then Some (arenaRating, 0) else longest_waiting (be_MSTime e) front1 front2) of
        None \<Rightarrow> Inr ([], m, q)
      | Some (rating, mmrMaxDiff) \<Rightarrow>
          (case rating_range e rating mmrMaxDiff of (lo, hi) \<Rightarrow>
          rbind (find_teams e bracket lo hi q) (\<lambda>teams.
          case teams of
            None \<Rightarrow> Inr ([], m, q)
          | Some (a, b) \<Rightarrow> start_rated e create t bracket arenaType a b m q)))))"

section \<open>The update of a queue\<close>

text \<open>The running battlegrounds with free slots; the list is the container when the loop starts.\<close>

fun update_running ::
  "bq_env \<Rightarrow> u32 \<Rightarrow> nat \<Rightarrow> nat list \<Rightarrow> BattlegroundMgr \<Rightarrow> BattlegroundQueue \<Rightarrow>
     (bq_effect list \<times> BattlegroundMgr \<times> BattlegroundQueue) bq_result" where
  "update_running e t bracket [] m q = Inr ([], m, q)"
| "update_running e t bracket (a # as) m q =
     rbind (bg_at m a) (\<lambda>b.
     if \<not> bg_IsRated b \<and> bg_TypeID b = t \<and> bg_BracketId b = bracket
        \<and> STATUS_WAIT_QUEUE < bg_Status b \<and> bg_Status b < STATUS_WAIT_LEAVE then
       rbind (FillPlayersToBG e a bracket m (init_pools q)) (\<lambda>q.
       rbind (invite_all e a (SelectedGroups (m_SelectionPools q TEAM_ALLIANCE)) m q) (\<lambda>(es1, m, q).
       rbind (invite_all e a (SelectedGroups (m_SelectionPools q TEAM_HORDE)) m q) (\<lambda>(es2, m, q).
       rbind (bg_at m a) (\<lambda>b.
       rbind (if HasFreeSlots b then Inr m else RemoveFromBGFreeSlotQueue a m) (\<lambda>m.
       rbind (update_running e t bracket as m q) (\<lambda>(es3, m, q).
       Inr (es1 @ es2 @ es3, m, q)))))))
     else update_running e t bracket as m q)"

text \<open>A new battleground for the selected groups.\<close>

definition start_match ::
  "bq_env \<Rightarrow> create_bg \<Rightarrow> u32 \<Rightarrow> nat \<Rightarrow> u8 \<Rightarrow> BattlegroundMgr \<Rightarrow> BattlegroundQueue \<Rightarrow>
     (bool \<times> bq_effect list \<times> BattlegroundMgr \<times> BattlegroundQueue) bq_result" where
  "start_match e create t bracket arenaType m q =
     (case create m t bracket arenaType False of
        None \<Rightarrow> Inr (False, [], m, q)
      | Some (a, m) \<Rightarrow>
          rbind (invite_all e a (SelectedGroups (m_SelectionPools q TEAM_ALLIANCE)) m q) (\<lambda>(es1, m, q).
          rbind (invite_all e a (SelectedGroups (m_SelectionPools q TEAM_HORDE)) m q) (\<lambda>(es2, m, q).
          rbind (StartBattleground a m) (\<lambda>m. Inr (True, es1 @ es2, m, q)))))"

definition update_normal ::
  "bq_env \<Rightarrow> create_bg \<Rightarrow> nat \<Rightarrow> u32 \<Rightarrow> nat \<Rightarrow> u8 \<Rightarrow> u32 \<Rightarrow> u32 \<Rightarrow> BattlegroundMgr \<Rightarrow> BattlegroundQueue \<Rightarrow>
     (bq_effect list \<times> BattlegroundMgr \<times> BattlegroundQueue) bq_result" where
  "update_normal e create template t bracket arenaType minPlayers maxPlayers m q =
     rbind (bg_at m template) (\<lambda>b.
     rbind (CheckNormalMatch e template bracket minPlayers maxPlayers m q) (\<lambda>(ok, q).
     rbind (if ok then Inr (True, q) else if bg_IsArena b then CheckSkirmishForSameFaction bracket minPlayers q
            else Inr (False, q)) (\<lambda>(ok, q).
     if ok then rbind (start_match e create t bracket arenaType m q) (\<lambda>(_, es, m, q). Inr (es, m, q))
     else Inr ([], m, q))))"

definition BattlegroundQueueUpdate ::
  "bq_env \<Rightarrow> create_bg \<Rightarrow> u32 \<Rightarrow> nat \<Rightarrow> u8 \<Rightarrow> bool \<Rightarrow> u32 \<Rightarrow> BattlegroundMgr \<Rightarrow> BattlegroundQueue \<Rightarrow>
     (bq_effect list \<times> BattlegroundMgr \<times> BattlegroundQueue) bq_result" where
  "BattlegroundQueueUpdate e create t bracket arenaType isRated arenaRating m q =
     (if \<forall>j < 4. queue_at bracket j q = [] then Inr ([], m, q)
      else
        rbind (update_running e t bracket (bd_BGFreeSlotQueue (bm_data t m)) m q) (\<lambda>(es1, m, q).
        case GetBattlegroundTemplate t m of
          None \<Rightarrow> Inr (es1, m, q)
        | Some template \<Rightarrow>
            rbind (bg_at m template) (\<lambda>b.
            if \<not> be_BracketEntry e bracket then Inr (es1, m, q)
            else
              let minPlayers = (if bg_IsArena b then (if bm_ArenaTesting m then 1 else ucast arenaType)
                                else if bm_Testing m then 1 else bg_MinPlayersPerTeam b);
                  maxPlayers = (if bg_IsArena b then ucast arenaType else bg_MaxPlayersPerTeam b) in
              rbind (if bg_IsArena b then Inr (False, init_pools q)
                     else CheckPremadeMatch e bracket minPlayers maxPlayers (init_pools q)) (\<lambda>(premade, q).
              rbind (if premade
                     then rbind (start_match e create t bracket 0 m q) (\<lambda>(ok, es, m, q).
                       Inr (ok, es, m, if ok then init_pools q else q))
                     else Inr (True, [], m, q)) (\<lambda>(ok, es2, m, q).
              if \<not> ok then Inr (es1 @ es2, m, q)
              else
                rbind (if \<not> isRated then update_normal e create template t bracket arenaType minPlayers maxPlayers m q
                       else if bg_IsArena b then update_rated e create t bracket arenaType arenaRating m q
                       else Inr ([], m, q)) (\<lambda>(es3, m, q).
                Inr (es1 @ es2 @ es3, m, q)))))))"

section \<open>The events of the queue\<close>

text \<open>
  What the event does when the time to accept has passed: the player who is still invited to the
  battleground leaves the queue. \<open>slot\<close> tells whether the player is in the queue for it.
\<close>

definition BGQueueRemoveEvent_Execute ::
  "bq_env \<Rightarrow> u64 \<Rightarrow> u32 \<Rightarrow> u32 \<Rightarrow> u32 \<Rightarrow> u32 \<Rightarrow> bool \<Rightarrow> BattlegroundMgr \<Rightarrow> BattlegroundQueue \<Rightarrow>
     (bool \<times> bq_effect list \<times> BattlegroundMgr \<times> BattlegroundQueue) bq_result" where
  "BGQueueRemoveEvent_Execute e guid bgInstanceGuid bgTypeId queueTypeId removeTime slot m q =
     (if \<not> be_FindPlayer e guid then Inr (True, [], m, q)
      else
        let bg = GetBattleground bgInstanceGuid bgTypeId m in
        if \<not> slot then Inr (True, [], m, q)
        else
          rbind (IsPlayerInvited guid bgInstanceGuid removeTime q) (\<lambda>invited.
          if \<not> invited then Inr (True, [], m, q)
          else
            rbind (RemovePlayer e guid True m q) (\<lambda>(es, m, q).
            rbind (case bg of
                     None \<Rightarrow> Inr []
                   | Some a \<Rightarrow> rbind (bg_at m a) (\<lambda>b.
                       Inr (if \<not> bg_IsArena b \<and> bg_Status b \<noteq> STATUS_WAIT_LEAVE
                            then [ScheduleUpdate queueTypeId bgTypeId (bg_BracketId b)] else []))) (\<lambda>es'.
            Inr (True, LeaveQueueSlot guid queueTypeId # es @ es' @ [NoQueueStatus guid], m, q)))))"

end
