(* ===== verification/BG_Selection.thy ===== *)
theory BG_Selection
  imports BG_Pools
begin

text \<open>
  What the selection of groups guarantees: the invariant of a pool, its preservation by adding
  and kicking groups, the termination of the balancing loop and what holds when it is left.
\<close>

section \<open>Pools\<close>

lemma u32_bound: "unat (w :: u32) < 2 ^ 32"
  using unsigned_less [of w] by simp

definition live :: "bg_heap \<Rightarrow> nat list \<Rightarrow> bool" where
  "live h gs \<longleftrightarrow> (\<forall>g\<in>set gs. sm_find h g \<noteq> None)"

definition group_size :: "bg_heap \<Rightarrow> nat \<Rightarrow> nat" where
  "group_size h g = (case sm_find h g of None \<Rightarrow> 0 | Some i \<Rightarrow> length (gq_Players i))"

definition invited :: "bg_heap \<Rightarrow> nat \<Rightarrow> bool" where
  "invited h g \<longleftrightarrow> (\<exists>i. sm_find h g = Some i \<and> gq_Invited i \<noteq> 0)"

lemma sint_small:
  assumes "unat (w :: u32) < 2 ^ 31"
  shows "sint w = int (unat w)"
proof -
  have "int (unat w) < int (2 ^ 31)" using assms by (simp only: of_nat_less_iff)
  then have "int (unat w) < 2 ^ 31" by (simp only: of_nat_power of_nat_numeral)
  moreover have "- (2 ^ 31) \<le> int (unat w)"
    by (rule order_trans [of _ 0]) simp_all
  ultimately have "sint (word_of_int (int (unat w)) :: u32) = int (unat w)"
    using sint_in_range by blast
  then show ?thesis by simp
qed

text \<open>
  A pool filled from the groups \<open>gs\<close>: the selected groups are some of them in the same order,
  none is invited yet, and the counter is the number of their players, at most \<open>room\<close>.
\<close>

definition pool_ok :: "bg_heap \<Rightarrow> nat list \<Rightarrow> nat \<Rightarrow> selection_pool \<Rightarrow> bool" where
  "pool_ok h gs room p \<longleftrightarrow> subseq (SelectedGroups p) gs \<and> live h (SelectedGroups p)
     \<and> (\<forall>g\<in>set (SelectedGroups p). \<not> invited h g)
     \<and> unat (PlayerCount p) = sum_list (map (group_size h) (SelectedGroups p)) \<and> unat (PlayerCount p) \<le> room"

lemma pool_ok_Init: "pool_ok h [] room pool_Init"
  by (simp add: pool_ok_def pool_Init_def live_def)

lemma pool_ok_more: "pool_ok h gs room p \<Longrightarrow> pool_ok h (gs @ gs') room p"
proof -
  have "subseq (SelectedGroups p @ []) (gs @ gs')" if "subseq (SelectedGroups p) gs"
    using that by (intro list_emb_append_mono) simp_all
  then show "pool_ok h gs room p \<Longrightarrow> ?thesis" by (simp add: pool_ok_def)
qed

lemma pool_ok_length: "pool_ok h gs room p \<Longrightarrow> length (SelectedGroups p) \<le> length gs"
  by (auto simp: pool_ok_def dest: list_emb_length)

lemma live_simps [simp]: "live h []" "live h (g # gs) \<longleftrightarrow> sm_find h g \<noteq> None \<and> live h gs"
  "live h (gs @ gs') \<longleftrightarrow> live h gs \<and> live h gs'"
  by (auto simp: live_def)

lemma group_at_live: "sm_find h g \<noteq> None \<Longrightarrow> \<exists>i. group_at h g = Inr i \<and> sm_find h g = Some i"
  by (auto simp: group_at_def)

lemma group_sizes_live: "live h gs \<Longrightarrow> group_sizes h gs = Inr (map (group_size h) gs)"
  by (induction gs) (auto simp: group_at_def group_size_def)

lemma pool_AddGroup_ok:
  assumes p: "pool_ok h gs room p" and g: "sm_find h g \<noteq> None" and d: "unat desired \<le> room"
  shows "\<exists>b p'. pool_AddGroup h g desired p = Inr (b, p') \<and> pool_ok h (gs @ [g]) room p' \<and> (\<not> b \<longrightarrow> p' = p)
    \<and> PlayerCount p \<le> PlayerCount p' \<and> (p' = p \<or> PlayerCount p' \<le> desired)"
proof -
  from g obtain i where i: "group_at h g = Inr i" "sm_find h g = Some i" using group_at_live by blast
  show ?thesis
  proof (cases "gq_Invited i = 0 \<and> unat (PlayerCount p) + length (gq_Players i) \<le> unat desired")
    case True
    let ?c = "PlayerCount p + of_nat (length (gq_Players i))"
    have "unat (PlayerCount p) + length (gq_Players i) < 2 ^ 32"
      using True u32_bound [of desired] by linarith
    then have c: "unat ?c = unat (PlayerCount p) + length (gq_Players i)"
      by (simp add: unat_word_ariths unat_of_nat)
    then have "PlayerCount p \<le> ?c" "?c \<le> desired" using True by (simp_all add: word_le_nat_alt)
    moreover have "\<not> invited h g" "group_size h g = length (gq_Players i)"
      using True i by (simp_all add: invited_def group_size_def)
    ultimately show ?thesis
      using True p i c d by (auto simp: pool_AddGroup_def pool_ok_def intro: list_emb_append_mono)
  next
    case False
    then have "pool_AddGroup h g desired p = Inr (PlayerCount p < desired, p)"
      unfolding pool_AddGroup_def i(1) rbind_Inr by (rule if_not_P)
    with pool_ok_more [OF p, of "[g]"] show ?thesis by blast
  qed
qed

lemma add_groups_ok:
  assumes "pool_ok h gs room p" and "live h ws" and "unat desired \<le> room"
  shows "\<exists>used rest p'. add_groups h desired ws p = Inr (rest, p') \<and> ws = used @ rest
    \<and> pool_ok h (gs @ used) room p' \<and> (used = [] \<longrightarrow> p' = p)"
  using assms
proof (induction ws arbitrary: gs p)
  case (Cons g ws)
  from Cons.prems(2) have g: "sm_find h g \<noteq> None" "live h ws" by simp_all
  from pool_AddGroup_ok [OF Cons.prems(1) g(1) Cons.prems(3)] obtain b p1 where
    add: "pool_AddGroup h g desired p = Inr (b, p1)" and p1: "pool_ok h (gs @ [g]) room p1" "\<not> b \<longrightarrow> p1 = p" by blast
  show ?case
  proof (cases b)
    case True
    from Cons.IH [OF p1(1) g(2) Cons.prems(3)] obtain used rest p' where
      "add_groups h desired ws p1 = Inr (rest, p')" "ws = used @ rest" "pool_ok h ((gs @ [g]) @ used) room p'" by blast
    with True add show ?thesis by (intro exI [of _ "g # used"] exI [of _ rest] exI [of _ p']) simp
  next
    case False
    with add p1 Cons.prems(1) show ?thesis by (intro exI [of _ "[]"] exI [of _ "g # ws"] exI [of _ p]) simp
  qed
qed auto

section \<open>Kicking a group\<close>

lemma kick_scan_less:
  "kick < n \<Longrightarrow> set is \<subseteq> {..<n} \<Longrightarrow> kick_scan sizes sz is kick found < n"
  by (induction sizes sz "is" kick found rule: kick_scan.induct) auto

lemma remove_nth_simps:
  "i < length xs \<Longrightarrow> length (remove_nth i xs) = length xs - 1" "subseq (remove_nth i xs) xs"
  "i < length xs \<Longrightarrow> sum_list (map f (remove_nth i xs)) + f (xs ! i) = (sum_list (map f xs) :: nat)"
proof -
  show "i < length xs \<Longrightarrow> length (remove_nth i xs) = length xs - 1" by (simp add: remove_nth_def)
  have "subseq (take i xs @ drop (Suc i) xs) (take i xs @ drop i xs)"
    by (intro list_emb_append_mono) (auto simp: drop_Suc drop_tl intro: subseq_order.refl)
  then show "subseq (remove_nth i xs) xs" by (simp add: remove_nth_def)
  assume i: "i < length xs"
  show "sum_list (map f (remove_nth i xs)) + f (xs ! i) = sum_list (map f xs)"
    by (subst (3) id_take_nth_drop [OF i]) (simp add: remove_nth_def)
qed

lemma KickGroup_ok:
  assumes p: "pool_ok h gs room p"
  shows "\<exists>b p'. KickGroup h sz p = Inr (b, p') \<and> pool_ok h gs room p'
    \<and> (PlayerCount p = 0 \<longrightarrow> p' = p \<and> b)
    \<and> (PlayerCount p \<noteq> 0 \<longrightarrow> length (SelectedGroups p') < length (SelectedGroups p))"
proof -
  let ?sizes = "map (group_size h) (SelectedGroups p)"
  have sizes: "group_sizes h (SelectedGroups p) = Inr ?sizes"
    using p by (intro group_sizes_live) (simp add: pool_ok_def)
  show ?thesis
  proof (cases "PlayerCount p = 0")
    case True
    with sizes p show ?thesis by (intro exI [of _ True] exI [of _ p]) (simp add: KickGroup_def Let_def)
  next
    case False
    then have ne: "SelectedGroups p \<noteq> []" using p by (auto simp: pool_ok_def unat_eq_0)
    define k where "k = kick_scan ?sizes sz [0..<length ?sizes] 0 False"
    have k: "k < length (SelectedGroups p)"
      unfolding k_def using ne by (intro kick_scan_less) auto
    let ?n = "group_size h (SelectedGroups p ! k)"
    let ?p = "p\<lparr>SelectedGroups := remove_nth k (SelectedGroups p), PlayerCount := PlayerCount p - of_nat ?n\<rparr>"
    note sum = remove_nth_simps(3) [OF k, of "group_size h"]
    have "?n \<le> unat (PlayerCount p)" using sum p by (simp add: pool_ok_def)
    then have "unat (PlayerCount p - of_nat ?n) = unat (PlayerCount p) - ?n"
      using u32_bound [of "PlayerCount p"] by (simp add: unat_sub_if_size unat_of_nat word_size)
    moreover have "set (remove_nth k (SelectedGroups p)) \<subseteq> set (SelectedGroups p)"
      by (auto simp: remove_nth_def dest: in_set_takeD in_set_dropD)
    ultimately have "pool_ok h gs room ?p"
      using p sum subseq_order.order_trans [OF remove_nth_simps(2) [of k "SelectedGroups p"]]
      by (auto simp: pool_ok_def live_def)
    moreover have "KickGroup h sz p = Inr (\<not> ?n \<le> unat (sz + 1), ?p)"
      using False ne nth_map [OF k, of "group_size h"]
      unfolding KickGroup_def sizes rbind_Inr Let_def k_def [symmetric] by simp
    ultimately show ?thesis using False k by (simp add: remove_nth_simps(1))
  qed
qed

section \<open>Balancing\<close>

text \<open>Free slots less the players in the pool, as signed numbers.\<close>

lemma diff_facts:
  assumes "unat f < 2 ^ 31" and "pool_ok h gs (unat f) p"
  shows "sint (f - PlayerCount p) = int (unat f) - int (unat (PlayerCount p))"
    and "unat (f - PlayerCount p) = unat f - unat (PlayerCount p)"
proof -
  from assms(2) have le: "unat (PlayerCount p) \<le> unat f" by (simp add: pool_ok_def)
  then show u: "unat (f - PlayerCount p) = unat f - unat (PlayerCount p)"
    by (simp add: unat_sub word_le_nat_alt)
  then have "unat (f - PlayerCount p) < 2 ^ 31" using assms(1) by linarith
  then have "sint (f - PlayerCount p) = int (unat (f - PlayerCount p))"
    by (rule sint_small)
  with u le show "sint (f - PlayerCount p) = int (unat f) - int (unat (PlayerCount p))" by simp
qed

lemma sint_succ:
  assumes "unat (w :: u32) < 2 ^ 30"
  shows "sint (w + 1) = int (unat w) + 1"
proof -
  have "unat (w + 1) = unat w + 1" using assms by (simp add: unat_word_ariths)
  with sint_small [of "w + 1"] assms show ?thesis by simp
qed

text \<open>One side of the balancing loop.\<close>

lemma balance_side_ok:
  assumes f: "unat f < 2 ^ 30" and p: "pool_ok h gs (unat f) p"
    and f': "unat f' < 2 ^ 30" and q: "pool_ok h gs' (unat f') q"
    and ws: "live h ws" and some: "PlayerCount p \<noteq> 0 \<or> PlayerCount q \<noteq> 0"
  shows "\<exists>stop used rest p' q'.
    balance_side h f (f - PlayerCount p) (f' - PlayerCount q) ws p q = Inr (stop, rest, p', q')
    \<and> ws = used @ rest \<and> pool_ok h (gs @ used) (unat f) p' \<and> pool_ok h gs' (unat f') q'
    \<and> (stop \<longrightarrow> q' = q \<and> PlayerCount p' = 0 \<and> unat f + unat (PlayerCount q) \<le> unat f' + 1)
    \<and> (\<not> stop \<longrightarrow> used \<noteq> [] \<or>
         length (SelectedGroups p') + length (SelectedGroups q') < length (SelectedGroups p) + length (SelectedGroups q))"
proof -
  let ?d = "f - PlayerCount p" and ?d' = "f' - PlayerCount q"
  have f31: "unat f < 2 ^ 31" and f31': "unat f' < 2 ^ 31" using f f' by simp_all
  note d = diff_facts [OF f31 p] and d' = diff_facts [OF f31' q]
  define w where "w = (if sint ?d' \<le> sint f then f - ?d' else 0)"
  have sf: "sint f = int (unat f)" using f31 by (rule sint_small)
  have le: "unat (PlayerCount q) \<le> unat f'" using q by (simp add: pool_ok_def)
  have small: "unat ?d' < 2 ^ 30" using d'(2) f' by linarith
  have w: "unat w \<le> unat f"
  proof (cases "sint ?d' \<le> sint f")
    case True
    then have "unat ?d' \<le> unat f" using d' le sf by linarith
    with True show ?thesis by (simp add: w_def unat_sub word_le_nat_alt)
  qed (simp add: w_def)
  have room: "unat f + unat (PlayerCount q) \<le> unat f' + 1" if "sint f \<le> sint (?d' + 1)"
    using that sint_succ [OF small] d'(2) le sf by linarith
  obtain b p1 where k: "KickGroup h (?d' - ?d) p = Inr (b, p1)" and p1: "pool_ok h gs (unat f) p1"
    and zero: "PlayerCount p = 0 \<Longrightarrow> p1 = p"
    and less: "PlayerCount p \<noteq> 0 \<Longrightarrow> length (SelectedGroups p1) < length (SelectedGroups p)"
    using KickGroup_ok [OF p] by metis
  obtain used rest p2 where a: "(if b then add_groups h w ws p1 else Inr (ws, p1)) = Inr (rest, p2)"
    and split: "ws = used @ rest" and p2: "pool_ok h (gs @ used) (unat f) p2" and same: "used = [] \<Longrightarrow> p2 = p1"
  proof (cases b)
    case True
    with that add_groups_ok [OF p1 ws w] show ?thesis by auto
  next
    case False
    with that [of ws p1 "[]"] p1 show ?thesis by simp
  qed
  note unfolded = balance_side_def k rbind_Inr prod.case w_def [symmetric] a
  obtain b' q1 where kq: "KickGroup h (?d' - ?d) q = Inr (b', q1)" and q1: "pool_ok h gs' (unat f') q1"
    and lessq: "PlayerCount q \<noteq> 0 \<Longrightarrow> length (SelectedGroups q1) < length (SelectedGroups q)"
    and zeroq: "PlayerCount q = 0 \<Longrightarrow> q1 = q"
    using KickGroup_ok [OF q] by metis
  have leq: "length (SelectedGroups q1) \<le> length (SelectedGroups q)"
    using lessq zeroq by (cases "PlayerCount q = 0") auto
  consider "PlayerCount p2 = 0" "sint f \<le> sint (?d' + 1)" | "PlayerCount p2 = 0" "\<not> sint f \<le> sint (?d' + 1)"
    | "PlayerCount p2 \<noteq> 0" by blast
  then show ?thesis
  proof cases
    case 1
    then have "balance_side h f ?d ?d' ws p q = Inr (True, rest, p2, q)" unfolding unfolded by simp
    with 1 split p2 q room show ?thesis by blast
  next
    case 2
    then have "balance_side h f ?d ?d' ws p q = Inr (False, rest, p2, q1)" unfolding unfolded by (simp add: kq)
    moreover have "used \<noteq> [] \<or> length (SelectedGroups p2) + length (SelectedGroups q1)
        < length (SelectedGroups p) + length (SelectedGroups q)"
    proof (cases "PlayerCount p = 0")
      case True
      with some lessq zero same show ?thesis by fastforce
    next
      case False
      with less same leq show ?thesis by fastforce
    qed
    ultimately show ?thesis using split p2 q1 by blast
  next
    case 3
    then have "balance_side h f ?d ?d' ws p q = Inr (False, rest, p2, q)" unfolding unfolded by simp
    moreover have "used \<noteq> [] \<or> length (SelectedGroups p2) < length (SelectedGroups p)"
      using 3 zero less same by fastforce
    ultimately show ?thesis using split p2 q by fastforce
  qed
qed

text \<open>
  When the loop is left, the free slots that remain on the two sides differ by at most one, or
  the pool of the side that has fewer of them is empty.
\<close>

definition balanced :: "u32 \<Rightarrow> u32 \<Rightarrow> selection_pool \<Rightarrow> selection_pool \<Rightarrow> bool" where
  "balanced aliFree hordeFree pa ph \<longleftrightarrow>
     \<bar>(int (unat aliFree) - int (unat (PlayerCount pa))) - (int (unat hordeFree) - int (unat (PlayerCount ph)))\<bar> \<le> 1
     \<or> PlayerCount pa = 0 \<and> PlayerCount ph = 0
     \<or> PlayerCount pa = 0 \<and> unat aliFree + unat (PlayerCount ph) \<le> unat hordeFree + 1
     \<or> PlayerCount ph = 0 \<and> unat hordeFree + unat (PlayerCount pa) \<le> unat aliFree + 1"

definition measure_of :: "nat \<Rightarrow> nat list \<Rightarrow> nat list \<Rightarrow> selection_pool \<Rightarrow> selection_pool \<Rightarrow> nat" where
  "measure_of n ali horde pa ph =
     (length ali + length horde) * (n + 1) + length (SelectedGroups pa) + length (SelectedGroups ph)"

lemma measure_less:
  assumes "ws = used @ rest" and "length (SelectedGroups p') + length (SelectedGroups q') \<le> n"
    and "used \<noteq> [] \<or> length (SelectedGroups p') + length (SelectedGroups q') < length (SelectedGroups p) + length (SelectedGroups q)"
  shows "measure_of n rest vs p' q' < measure_of n ws vs p q"
proof (cases "used = []")
  case True
  with assms show ?thesis by (simp add: measure_of_def)
next
  case False
  then have "1 \<le> length used" by (cases used) simp_all
  then have "(n + 1) \<le> length used * (n + 1)" by (metis mult_le_mono1 mult_1)
  with assms(1,2) show ?thesis by (simp add: measure_of_def add_mult_distrib)
qed

lemma measure_swap: "measure_of n horde ali ph pa = measure_of n ali horde pa ph"
  by (simp add: measure_of_def add.commute)

lemma wide_diff:
  assumes "unat (a :: u32) < 2 ^ 30" and "unat (b :: u32) < 2 ^ 30"
  shows "sint (a - b) = int (unat a) - int (unat b)"
proof -
  have "int (unat a) < int (2 ^ 30)" "int (unat b) < int (2 ^ 30)"
    using assms by (simp_all only: of_nat_less_iff)
  then have lt: "int (unat a) < 2 ^ 30" "int (unat b) < 2 ^ 30"
    by (simp_all only: of_nat_power of_nat_numeral)
  have range: "- (2 ^ 31) \<le> x - y \<and> x - y < 2 ^ 31"
    if "x < 2 ^ 30" "y < 2 ^ 30" "0 \<le> x" "0 \<le> y" for x y :: int
    using that by simp
  note range = range [OF lt of_nat_0_le_iff of_nat_0_le_iff]
  have "a - b = word_of_int (int (unat a) - int (unat b))"
    by (simp add: word_of_int_minus)
  moreover have "sint (word_of_int (int (unat a) - int (unat b)) :: u32) = int (unat a) - int (unat b)"
    using range sint_in_range by blast
  ultimately show ?thesis by simp
qed

lemma balance_ok:
  assumes "unat aliFree < 2 ^ 30" and "unat hordeFree < 2 ^ 30"
    and "pool_ok h gsA (unat aliFree) pa" and "pool_ok h gsH (unat hordeFree) ph" and "live h ali" and "live h horde"
    and "length gsA + length gsH + length ali + length horde = n" and "measure_of n ali horde pa ph < fuel"
  shows "\<exists>pa' ph'. balance h fuel aliFree hordeFree ali horde pa ph = Inr (pa', ph')
    \<and> pool_ok h (gsA @ ali) (unat aliFree) pa' \<and> pool_ok h (gsH @ horde) (unat hordeFree) ph'
    \<and> balanced aliFree hordeFree pa' ph'"
  using assms
proof (induction fuel arbitrary: gsA gsH ali horde pa ph)
  case 0
  then show ?case by simp
next
  case (Suc fuel)
  note a = Suc.prems(1) and hf = Suc.prems(2) and pa = Suc.prems(3) and ph = Suc.prems(4)
    and la = Suc.prems(5) and lh = Suc.prems(6) and n = Suc.prems(7) and fuel = Suc.prems(8)
  define dA where "dA = aliFree - PlayerCount pa"
  define dH where "dH = hordeFree - PlayerCount ph"
  have fa: "unat aliFree < 2 ^ 31" and fh: "unat hordeFree < 2 ^ 31" using a hf by simp_all
  note dA = diff_facts [OF fa pa, folded dA_def] and dH = diff_facts [OF fh ph, folded dH_def]
  have "unat dA < 2 ^ 30" "unat dH < 2 ^ 30" using dA(2) dH(2) a hf by linarith+
  with wide_diff sint_small have gap: "sint (dA - dH) = sint dA - sint dH" by simp
  note step = balance.simps(2) Let_def dA_def [symmetric] dH_def [symmetric]
  let ?go = "1 < \<bar>sint (dA - dH)\<bar> \<and> (0 < PlayerCount ph \<or> 0 < PlayerCount pa)"
  consider "\<not> ?go" | "?go" "sint dA < sint dH" | "?go" "\<not> sint dA < sint dH" by blast
  then show ?case
  proof cases
    case 1
    have "balanced aliFree hordeFree pa ph"
    proof (cases "1 < \<bar>sint (dA - dH)\<bar>")
      case True
      with 1 show ?thesis by (simp add: balanced_def word_gt_0)
    next
      case False
      then show ?thesis using gap dA dH unfolding balanced_def by (intro disjI1) linarith
    qed
    with 1 pool_ok_more [OF pa] pool_ok_more [OF ph] show ?thesis unfolding step by simp
  next
    case 2
    then have "PlayerCount pa \<noteq> 0 \<or> PlayerCount ph \<noteq> 0" by (auto simp: word_gt_0)
    from balance_side_ok [OF a pa hf ph la this, folded dA_def dH_def]
    obtain stop used rest p' q' where side: "balance_side h aliFree dA dH ali pa ph = Inr (stop, rest, p', q')"
      and split: "ali = used @ rest" and p': "pool_ok h (gsA @ used) (unat aliFree) p'"
      and q': "pool_ok h gsH (unat hordeFree) q'"
      and stop: "stop \<longrightarrow> q' = ph \<and> PlayerCount p' = 0 \<and> unat aliFree + unat (PlayerCount ph) \<le> unat hordeFree + 1"
      and less: "\<not> stop \<longrightarrow> used \<noteq> [] \<or> length (SelectedGroups p') + length (SelectedGroups q')
        < length (SelectedGroups pa) + length (SelectedGroups ph)" by blast
    have run: "balance h (Suc fuel) aliFree hordeFree ali horde pa ph =
        (if stop then Inr (p', q') else balance h fuel aliFree hordeFree rest horde p' q')"
      using 2 side unfolding step by simp
    show ?thesis
    proof (cases stop)
      case True
      with stop have "balanced aliFree hordeFree p' q'" by (simp add: balanced_def)
      with True run pool_ok_more [OF p', of rest] pool_ok_more [OF q', of horde] show ?thesis by (simp add: split)
    next
      case False
      have "length (SelectedGroups p') + length (SelectedGroups q') \<le> n"
        using pool_ok_length [OF p'] pool_ok_length [OF q'] n split by simp
      then have "measure_of n rest horde p' q' < fuel"
        using measure_less [OF split, of p' q' n pa ph horde] less False fuel by simp
      from Suc.IH [OF a hf p' q' _ lh _ this] la n False run show ?thesis by (simp add: split)
    qed
  next
    case 3
    then have "PlayerCount ph \<noteq> 0 \<or> PlayerCount pa \<noteq> 0" by (auto simp: word_gt_0)
    from balance_side_ok [OF hf ph a pa lh this, folded dA_def dH_def]
    obtain stop used rest q' p' where side: "balance_side h hordeFree dH dA horde ph pa = Inr (stop, rest, q', p')"
      and split: "horde = used @ rest" and q': "pool_ok h (gsH @ used) (unat hordeFree) q'"
      and p': "pool_ok h gsA (unat aliFree) p'"
      and stop: "stop \<longrightarrow> p' = pa \<and> PlayerCount q' = 0 \<and> unat hordeFree + unat (PlayerCount pa) \<le> unat aliFree + 1"
      and less: "\<not> stop \<longrightarrow> used \<noteq> [] \<or> length (SelectedGroups q') + length (SelectedGroups p')
        < length (SelectedGroups ph) + length (SelectedGroups pa)" by blast
    have run: "balance h (Suc fuel) aliFree hordeFree ali horde pa ph =
        (if stop then Inr (p', q') else balance h fuel aliFree hordeFree ali rest p' q')"
      using 3 side unfolding step by simp
    show ?thesis
    proof (cases stop)
      case True
      with stop have "balanced aliFree hordeFree p' q'" by (simp add: balanced_def)
      with True run pool_ok_more [OF q', of rest] pool_ok_more [OF p', of ali] show ?thesis by (simp add: split)
    next
      case False
      have "length (SelectedGroups q') + length (SelectedGroups p') \<le> n"
        using pool_ok_length [OF p'] pool_ok_length [OF q'] n split by simp
      then have "measure_of n ali rest p' q' < fuel"
        using measure_less [OF split, of q' p' n ph pa ali] less False fuel by (simp add: measure_swap)
      from Suc.IH [OF a hf p' q' la _ _ this] lh n False run show ?thesis by (simp add: split)
    qed
  qed
qed

section \<open>A new battleground\<close>

lemma normal_scan_ok:
  assumes "pool_ok h gs room p" and "live h ws" and "unat maxP \<le> room" and "PlayerCount p < minP"
  shows "\<exists>used rest p'. normal_scan h minP maxP ws p = Inr (rest, p') \<and> ws = used @ rest
    \<and> (rest = [] \<longrightarrow> pool_ok h (gs @ used) room p' \<and> PlayerCount p' < minP)
    \<and> (\<forall>g rest'. rest = g # rest' \<longrightarrow> pool_ok h (gs @ used @ [g]) room p' \<and> minP \<le> PlayerCount p')"
  using assms(1,2,4)
proof (induction ws arbitrary: gs p)
  case Nil
  then show ?case by simp
next
  case (Cons g ws)
  then have live: "sm_find h g \<noteq> None" "live h ws" by simp_all
  then obtain i where i: "group_at h g = Inr i" using group_at_live by blast
  have go_on: ?case if "pool_ok h (gs @ [g]) room p1" "PlayerCount p1 < minP"
    and eq: "normal_scan h minP maxP (g # ws) p = normal_scan h minP maxP ws p1" for p1
  proof -
    from Cons.IH [OF that(1) live(2) that(2)] obtain used rest p' where
      "normal_scan h minP maxP ws p1 = Inr (rest, p')" "ws = used @ rest"
      "rest = [] \<longrightarrow> pool_ok h ((gs @ [g]) @ used) room p' \<and> PlayerCount p' < minP"
      "\<forall>g' rest'. rest = g' # rest' \<longrightarrow> pool_ok h ((gs @ [g]) @ used @ [g']) room p' \<and> minP \<le> PlayerCount p'" by blast
    then show ?thesis using eq by (intro exI [of _ "g # used"] exI [of _ rest] exI [of _ p']) simp
  qed
  show ?case
  proof (cases "gq_Invited i = 0")
    case True
    from pool_AddGroup_ok [OF Cons.prems(1) live(1) assms(3)] obtain b p1 where
      add: "pool_AddGroup h g maxP p = Inr (b, p1)" and p1: "pool_ok h (gs @ [g]) room p1" by blast
    show ?thesis
    proof (cases "minP \<le> PlayerCount p1")
      case enough: True
      with True i add p1 show ?thesis
        by (intro exI [of _ "[]"] exI [of _ "g # ws"] exI [of _ p1]) simp
    next
      case False
      with True i add p1 show ?thesis by (intro go_on [of p1]) simp_all
    qed
  next
    case False
    with i pool_ok_more [OF Cons.prems(1), of "[g]"] Cons.prems(3) show ?thesis by (intro go_on [of p]) simp_all
  qed
qed

lemma add_uninvited_ok:
  assumes "pool_ok h gs room p" and "live h ws" and "unat desired \<le> room" and "PlayerCount p \<le> desired"
  shows "\<exists>p'. add_uninvited h desired ws p = Inr p' \<and> pool_ok h (gs @ ws) room p'
    \<and> PlayerCount p \<le> PlayerCount p' \<and> PlayerCount p' \<le> desired"
  using assms(1,2,4)
proof (induction ws arbitrary: gs p)
  case Nil
  then show ?case by simp
next
  case (Cons g ws)
  then have live: "sm_find h g \<noteq> None" "live h ws" by simp_all
  then obtain i where i: "group_at h g = Inr i" using group_at_live by blast
  from pool_AddGroup_ok [OF Cons.prems(1) live(1) assms(3)] obtain b p1 where
    add: "pool_AddGroup h g desired p = Inr (b, p1)" and p1: "pool_ok h (gs @ [g]) room p1" "PlayerCount p \<le> PlayerCount p1"
    "p1 = p \<or> PlayerCount p1 \<le> desired" by blast
  have le: "PlayerCount p1 \<le> desired" using p1(3) Cons.prems(3) by blast
  show ?case
  proof (cases "gq_Invited i = 0")
    case True
    show ?thesis
    proof (cases b)
      case b: True
      with Cons.IH [OF p1(1) live(2) le] True i add p1(2) order_trans show ?thesis by fastforce
    next
      case False
      with True i add p1 le pool_ok_more [OF p1(1), of ws] show ?thesis by simp
    qed
  next
    case False
    with Cons.IH [OF pool_ok_more [OF Cons.prems(1)] live(2) Cons.prems(3), of "[g]"] i show ?thesis by simp
  qed
qed

text \<open>The side with fewer players gets more groups, up to the players of the other side.\<close>

lemma more_groups_ok:
  assumes "pool_ok h (gs @ [g]) room p" and "live h ws" and "unat desired \<le> room" and "PlayerCount p \<le> desired"
  shows "\<exists>p'. more_groups h desired (g # ws) p = Inr p' \<and> pool_ok h (gs @ g # ws) room p'
    \<and> PlayerCount p \<le> PlayerCount p' \<and> PlayerCount p' \<le> desired"
  using add_uninvited_ok [OF assms] by (simp add: more_groups_def)

text \<open>
  \<open>fair_match\<close> is what a positive answer promises: enough players on both sides, unless the server
  is in testing mode, and no more than two players of difference where the configuration asks
  for balanced sides.
\<close>

definition fair_match :: "bool \<Rightarrow> u32 \<Rightarrow> u32 \<Rightarrow> selection_pool \<Rightarrow> selection_pool \<Rightarrow> bool" where
  "fair_match testing invitation_type minPlayers pa ph \<longleftrightarrow>
     (let enough = minPlayers \<le> PlayerCount pa \<and> minPlayers \<le> PlayerCount ph in
      (testing \<or> enough)
      \<and> (invitation_type \<noteq> 0 \<and> enough \<longrightarrow> \<bar>int (unat (PlayerCount pa)) - int (unat (PlayerCount ph))\<bar> \<le> 2))"

lemma pool_count_small:
  "pool_ok h gs (unat maxP) p \<Longrightarrow> unat maxP < 2 ^ 30 \<Longrightarrow> unat (PlayerCount p) < 2 ^ 30"
  unfolding pool_ok_def by linarith

lemma normal_scan_pool:
  assumes "live h ws" and "0 < minP"
  shows "\<exists>used rest p. normal_scan h minP maxP ws pool_Init = Inr (rest, p) \<and> ws = used @ rest
    \<and> pool_ok h ws (unat maxP) p \<and> live h rest
    \<and> (minP \<le> PlayerCount p \<longrightarrow> (\<exists>g rest'. rest = g # rest' \<and> pool_ok h (used @ [g]) (unat maxP) p))"
proof -
  have "PlayerCount pool_Init < minP" using assms(2) by (simp add: pool_Init_def)
  from normal_scan_ok [OF pool_ok_Init assms(1) order.refl this] obtain used rest p where
    run: "normal_scan h minP maxP ws pool_Init = Inr (rest, p)" and split: "ws = used @ rest"
    and nil: "rest = [] \<longrightarrow> pool_ok h ([] @ used) (unat maxP) p \<and> PlayerCount p < minP"
    and cons: "\<forall>g rest'. rest = g # rest' \<longrightarrow> pool_ok h ([] @ used @ [g]) (unat maxP) p \<and> minP \<le> PlayerCount p" by blast
  show ?thesis
  proof (cases rest)
    case Nil
    with run split nil show ?thesis by (auto simp: not_le)
  next
    case (Cons g rest')
    with cons have ok: "pool_ok h (used @ [g]) (unat maxP) p" by simp
    from pool_ok_more [OF ok, of rest'] Cons split have "pool_ok h ws (unat maxP) p" by simp
    moreover have "live h rest" using assms(1) split by simp
    ultimately show ?thesis using ok run split Cons by blast
  qed
qed

lemma match_pools_ok:
  assumes "live h ali" and "live h horde" and "0 < minP" and "unat maxP < 2 ^ 30"
  shows "\<exists>b pa ph. match_pools h testing itype minP maxP ali horde pool_Init pool_Init = Inr (b, pa, ph)
    \<and> pool_ok h ali (unat maxP) pa \<and> pool_ok h horde (unat maxP) ph
    \<and> (b \<longrightarrow> fair_match testing itype minP pa ph)"
proof -
  obtain usedA restA pa where A: "normal_scan h minP maxP ali pool_Init = Inr (restA, pa)" "ali = usedA @ restA"
    "pool_ok h ali (unat maxP) pa" "live h restA"
    "minP \<le> PlayerCount pa \<longrightarrow> (\<exists>g rest'. restA = g # rest' \<and> pool_ok h (usedA @ [g]) (unat maxP) pa)"
    using normal_scan_pool [OF assms(1,3), of maxP] by blast
  obtain usedH restH ph where H: "normal_scan h minP maxP horde pool_Init = Inr (restH, ph)" "horde = usedH @ restH"
    "pool_ok h horde (unat maxP) ph" "live h restH"
    "minP \<le> PlayerCount ph \<longrightarrow> (\<exists>g rest'. restH = g # rest' \<and> pool_ok h (usedH @ [g]) (unat maxP) ph)"
    using normal_scan_pool [OF assms(2,3), of maxP] by blast
  note start = match_pools_def A(1) H(1) rbind_Inr prod.case Let_def
  show ?thesis
  proof (cases "itype \<noteq> 0 \<and> minP \<le> PlayerCount pa \<and> minP \<le> PlayerCount ph")
    case False
    have "match_pools h testing itype minP maxP ali horde pool_Init pool_Init =
        Inr (testing \<and> (PlayerCount pa \<noteq> 0 \<or> PlayerCount ph \<noteq> 0) \<or> minP \<le> PlayerCount pa \<and> minP \<le> PlayerCount ph, pa, ph)"
      unfolding start if_not_P [OF False] ..
    moreover have "fair_match testing itype minP pa ph"
      if "testing \<or> minP \<le> PlayerCount pa \<and> minP \<le> PlayerCount ph"
      using that False by (auto simp: fair_match_def Let_def)
    ultimately show ?thesis using A(3) H(3) by blast
  next
    case True
    have "\<exists>pa' ph'. (if PlayerCount ph < PlayerCount pa
              then rbind (more_groups h (PlayerCount pa) restH ph) (\<lambda>ph. Inr (pa, ph))
              else rbind (more_groups h (PlayerCount ph) restA pa) (\<lambda>pa. Inr (pa, ph))) = Inr (pa', ph')
        \<and> pool_ok h ali (unat maxP) pa' \<and> pool_ok h horde (unat maxP) ph'
        \<and> minP \<le> PlayerCount pa' \<and> minP \<le> PlayerCount ph'"
    proof (cases "PlayerCount ph < PlayerCount pa")
      case less: True
      from True H(5) obtain g rest' where g: "restH = g # rest'" "pool_ok h (usedH @ [g]) (unat maxP) ph" by blast
      have "live h rest'" "unat (PlayerCount pa) \<le> unat maxP" "PlayerCount ph \<le> PlayerCount pa"
        using H(4) g A(3) less by (simp_all add: pool_ok_def)
      from more_groups_ok [OF g(2) this] obtain p' where "more_groups h (PlayerCount pa) restH ph = Inr p'"
        "pool_ok h horde (unat maxP) p'" "PlayerCount ph \<le> PlayerCount p'" using g H(2) by auto
      with less A(3) True show ?thesis by auto
    next
      case le: False
      from True A(5) obtain g rest' where g: "restA = g # rest'" "pool_ok h (usedA @ [g]) (unat maxP) pa" by blast
      have "live h rest'" "unat (PlayerCount ph) \<le> unat maxP" "PlayerCount pa \<le> PlayerCount ph"
        using A(4) g H(3) le by (simp_all add: pool_ok_def)
      from more_groups_ok [OF g(2) this] obtain p' where "more_groups h (PlayerCount ph) restA pa = Inr p'"
        "pool_ok h ali (unat maxP) p'" "PlayerCount pa \<le> PlayerCount p'" using g A(2) by auto
      with le H(3) True show ?thesis by auto
    qed
    then obtain pa' ph' where more: "(if PlayerCount ph < PlayerCount pa
              then rbind (more_groups h (PlayerCount pa) restH ph) (\<lambda>ph. Inr (pa, ph))
              else rbind (more_groups h (PlayerCount ph) restA pa) (\<lambda>pa. Inr (pa, ph))) = Inr (pa', ph')"
      and ok: "pool_ok h ali (unat maxP) pa'" "pool_ok h horde (unat maxP) ph'"
      and enough: "minP \<le> PlayerCount pa'" "minP \<le> PlayerCount ph'" by blast
    have gap: "sint (PlayerCount ph' - PlayerCount pa') = int (unat (PlayerCount ph')) - int (unat (PlayerCount pa'))"
      using pool_count_small [OF ok(1) assms(4)] pool_count_small [OF ok(2) assms(4)] by (rule wide_diff [rotated])
    have run: "match_pools h testing itype minP maxP ali horde pool_Init pool_Init =
        Inr (\<not> 2 < \<bar>sint (PlayerCount ph' - PlayerCount pa')\<bar>, pa', ph')"
      unfolding start if_P [OF True] more using enough by simp
    have "fair_match testing itype minP pa' ph'" if "\<not> 2 < \<bar>sint (PlayerCount ph' - PlayerCount pa')\<bar>"
      using that gap enough unfolding fair_match_def Let_def by linarith
    with run ok show ?thesis by blast
  qed
qed

end
