(* ===== verification/BG_Invariant.thy ===== *)
theory BG_Invariant
  imports BG_Match BG_Selection
begin

text \<open>
  The invariant of a battleground queue: every queued player belongs to exactly one live group that
  knows him, every group has players and stands in exactly one queue of its side. It is
  stated over four views of the state, and each operation is described by what it does to them.
\<close>

section \<open>Views of the state\<close>

definition members :: "BattlegroundQueue \<Rightarrow> nat \<Rightarrow> u64 list option" where
  "members q g = map_option gq_Players (sm_find (bq_heap q) g)"

definition team_of :: "BattlegroundQueue \<Rightarrow> nat \<Rightarrow> u32 option" where
  "team_of q g = map_option gq_Team (sm_find (bq_heap q) g)"

definition owner :: "BattlegroundQueue \<Rightarrow> u64 \<Rightarrow> nat option" where
  "owner q guid = map_option pq_GroupInfo (sm_find (m_QueuedPlayers q) guid)"

definition keys_ok :: "BattlegroundQueue \<Rightarrow> bool" where
  "keys_ok q \<longleftrightarrow> sm_inv (bq_heap q) \<and> sm_inv (m_QueuedPlayers q)"

definition side :: "u32 \<Rightarrow> nat" where
  "side team = (if team = HORDE then 1 else 0)"

definition players_ok :: "(nat \<Rightarrow> u64 list option) \<Rightarrow> (u64 \<Rightarrow> nat option) \<Rightarrow> bool" where
  "players_ok M P \<longleftrightarrow>
     (\<forall>g xs. M g = Some xs \<longrightarrow> xs \<noteq> [] \<and> sorted_wrt (<) xs \<and> (\<forall>x\<in>set xs. P x = Some g))
     \<and> (\<forall>x g. P x = Some g \<longrightarrow> (\<exists>xs. M g = Some xs \<and> x \<in> set xs))"

definition queues_ok :: "(nat \<Rightarrow> u32 option) \<Rightarrow> (nat \<Rightarrow> nat \<Rightarrow> nat list) \<Rightarrow> bool" where
  "queues_ok T qs \<longleftrightarrow>
     (\<forall>b j. distinct (qs b j))
     \<and> (\<forall>b j g. g \<in> set (qs b j) \<longrightarrow> b < MAX_BATTLEGROUND_BRACKETS \<and> j < 4 \<and> (\<exists>t. T g = Some t \<and> j mod 2 = side t))
     \<and> (\<forall>g t. T g = Some t \<longrightarrow> (\<exists>b j. g \<in> set (qs b j)))
     \<and> (\<forall>g b j b' j'. g \<in> set (qs b j) \<longrightarrow> g \<in> set (qs b' j') \<longrightarrow> b = b' \<and> j = j')"

definition bq_wf :: "BattlegroundQueue \<Rightarrow> bool" where
  "bq_wf q \<longleftrightarrow> keys_ok q \<and> players_ok (members q) (owner q) \<and> queues_ok (team_of q) (m_QueuedGroups q)"

lemma views_set_queue [simp]:
  "members (set_queue b j gs q) = members q" "team_of (set_queue b j gs q) = team_of q"
  "owner (set_queue b j gs q) = owner q" "keys_ok (set_queue b j gs q) = keys_ok q"
  "m_QueuedGroups (set_queue b j gs q) = set2 b j gs (m_QueuedGroups q)"
  by (simp_all add: fun_eq_iff members_def team_of_def owner_def keys_ok_def set_queue_def set2_def)

lemma views_set_pool [simp]:
  "members (set_pool t p q) = members q" "team_of (set_pool t p q) = team_of q"
  "owner (set_pool t p q) = owner q" "keys_ok (set_pool t p q) = keys_ok q"
  "m_QueuedGroups (set_pool t p q) = m_QueuedGroups q"
  by (simp_all add: fun_eq_iff members_def team_of_def owner_def keys_ok_def set_pool_def)

lemma views_set_group [simp]:
  assumes "keys_ok q"
  shows "members (set_group g i q) = (members q)(g \<mapsto> gq_Players i)"
    and "team_of (set_group g i q) = (team_of q)(g \<mapsto> gq_Team i)"
    and "owner (set_group g i q) = owner q" and "keys_ok (set_group g i q)"
    and "m_QueuedGroups (set_group g i q) = m_QueuedGroups q"
  using assms by (simp_all add: fun_eq_iff members_def team_of_def owner_def keys_ok_def set_group_def)

lemma groups_set_group [simp]: "m_QueuedGroups (set_group g i q) = m_QueuedGroups q"
  by (simp add: set_group_def)

lemma heap_set_queue [simp]: "bq_heap (set_queue b j gs q) = bq_heap q"
  by (simp add: set_queue_def)

lemma group_at_views:
  "group_at (bq_heap q) g = Inr i \<Longrightarrow> members q g = Some (gq_Players i) \<and> team_of q g = Some (gq_Team i)"
  by (auto simp: group_at_def members_def team_of_def split: option.splits)

lemma group_at_member: "members q g = Some xs \<Longrightarrow> \<exists>i. group_at (bq_heap q) g = Inr i \<and> gq_Players i = xs"
  by (auto simp: group_at_def members_def)

lemma team_members: "team_of q g = None \<longleftrightarrow> members q g = None"
  by (simp add: members_def team_of_def)

section \<open>Changes of a queue\<close>

lemma set2_same [simp]: "set2 b j x f b j = x"
  by (simp add: set2_def)

lemma set2_apply: "set2 b j x f b' j' = (if b' = b \<and> j' = j then x else f b' j')"
  by (simp add: set2_def)

lemma set2_commute: "j \<noteq> j' \<Longrightarrow> set2 b j x (set2 b j' y f) = set2 b j' y (set2 b j x f)"
  by (auto simp: fun_eq_iff set2_apply)

lemma queues_okD:
  assumes "queues_ok T qs"
  shows "distinct (qs b j)" and "g \<in> set (qs b j) \<Longrightarrow> b < MAX_BATTLEGROUND_BRACKETS"
    and "g \<in> set (qs b j) \<Longrightarrow> j < 4" and "g \<in> set (qs b j) \<Longrightarrow> \<exists>t. T g = Some t \<and> j mod 2 = side t"
    and "T g = Some t \<Longrightarrow> \<exists>b j. g \<in> set (qs b j)"
    and "g \<in> set (qs b j) \<Longrightarrow> g \<in> set (qs b' j') \<Longrightarrow> b = b' \<and> j = j'"
  using assms unfolding queues_ok_def by blast+

lemma queues_insert:
  assumes ok: "queues_ok T qs" and new: "T g = None" and xs: "set xs = insert g (set (qs b j))" "distinct xs"
    and b: "b < MAX_BATTLEGROUND_BRACKETS" and j: "j < 4" "j mod 2 = side t"
  shows "queues_ok (T(g \<mapsto> t)) (set2 b j xs qs)"
proof -
  have absent: "g \<notin> set (qs b' j')" for b' j'
    using queues_okD(4) [OF ok, of g] new by fastforce
  have mem: "g' \<in> set (set2 b j xs qs b' j') \<longleftrightarrow> g' = g \<and> b' = b \<and> j' = j \<or> g' \<in> set (qs b' j')" for g' b' j'
    using xs by (auto simp: set2_apply)
  show ?thesis
    unfolding queues_ok_def mem
  proof (intro conjI allI impI)
    fix b' j' show "distinct (set2 b j xs qs b' j')"
      using xs queues_okD(1) [OF ok] by (simp add: set2_apply)
  next
    fix b' j' g' assume in': "g' = g \<and> b' = b \<and> j' = j \<or> g' \<in> set (qs b' j')"
    then show "b' < MAX_BATTLEGROUND_BRACKETS" "j' < 4" using b j queues_okD(2,3) [OF ok] by blast+
    show "\<exists>t'. (T(g \<mapsto> t)) g' = Some t' \<and> j' mod 2 = side t'"
      using in' j queues_okD(4) [OF ok] absent by (cases "g' = g") auto
  next
    fix g' t' assume "(T(g \<mapsto> t)) g' = Some t'"
    then show "\<exists>b' j'. g' = g \<and> b' = b \<and> j' = j \<or> g' \<in> set (qs b' j')"
      using queues_okD(5) [OF ok] by (cases "g' = g") auto
  next
    fix g' b1 j1 b2 j2
    assume "g' = g \<and> b1 = b \<and> j1 = j \<or> g' \<in> set (qs b1 j1)" "g' = g \<and> b2 = b \<and> j2 = j \<or> g' \<in> set (qs b2 j2)"
    then show "b1 = b2" "j1 = j2" using absent queues_okD(6) [OF ok] by blast+
  qed
qed

lemma queues_delete:
  assumes ok: "queues_ok T qs" and g: "g \<in> set (qs b j)" and xs: "set xs = set (qs b j) - {g}" "distinct xs"
  shows "queues_ok (T(g := None)) (set2 b j xs qs)"
proof -
  have mem: "g' \<in> set (set2 b j xs qs b' j') \<longleftrightarrow> g' \<noteq> g \<and> g' \<in> set (qs b' j')" for g' b' j'
    using xs queues_okD(6) [OF ok g] by (auto simp: set2_apply)
  show ?thesis
    unfolding queues_ok_def mem
  proof (intro conjI allI impI)
    fix b' j' show "distinct (set2 b j xs qs b' j')"
      using xs queues_okD(1) [OF ok] by (simp add: set2_apply)
  next
    fix b' j' g' assume in': "g' \<noteq> g \<and> g' \<in> set (qs b' j')"
    then show "b' < MAX_BATTLEGROUND_BRACKETS" "j' < 4" using queues_okD(2,3) [OF ok] by blast+
    show "\<exists>t'. (T(g := None)) g' = Some t' \<and> j' mod 2 = side t'"
      using in' queues_okD(4) [OF ok] by auto
  next
    fix g' t' assume "(T(g := None)) g' = Some t'"
    then show "\<exists>b' j'. g' \<noteq> g \<and> g' \<in> set (qs b' j')"
      using queues_okD(5) [OF ok] by (cases "g' = g") auto
  next
    fix g' b1 j1 b2 j2
    assume "g' \<noteq> g \<and> g' \<in> set (qs b1 j1)" "g' \<noteq> g \<and> g' \<in> set (qs b2 j2)"
    then show "b1 = b2" "j1 = j2" using queues_okD(6) [OF ok] by blast+
  qed
qed

text \<open>A group moves to another queue of the bracket, with the team that queue is for.\<close>

lemma queues_move:
  assumes ok: "queues_ok T qs" and g: "g \<in> set (qs b j)" and j': "j' \<noteq> j" "j' < 4" "j' mod 2 = side t"
    and xs: "set xs = set (qs b j) - {g}" "distinct xs"
  shows "queues_ok (T(g \<mapsto> t)) (set2 b j xs (set2 b j' (g # qs b j') qs))"
proof -
  note del = queues_delete [OF ok g xs]
  have b: "b < MAX_BATTLEGROUND_BRACKETS" using queues_okD(2) [OF ok g] .
  have "g \<notin> set (qs b j')" using queues_okD(6) [OF ok g, of b j'] j'(1) by blast
  then have d: "distinct (g # qs b j')" using queues_okD(1) [OF ok] by simp
  have "set2 b j xs qs b j' = qs b j'" using j'(1) by (simp add: set2_apply)
  then have s: "set (g # qs b j') = insert g (set (set2 b j xs qs b j'))" by simp
  have "queues_ok ((T(g := None))(g \<mapsto> t)) (set2 b j' (g # qs b j') (set2 b j xs qs))"
    by (rule queues_insert [OF del _ s d b j'(2,3)]) simp
  then show ?thesis by (simp add: set2_commute [OF j'(1)])
qed

lemma remove1_set [simp]: "distinct xs \<Longrightarrow> set (remove1 g xs) = set xs - {g}"
  by (rule set_remove1_eq)

section \<open>Joining\<close>

text \<open>The state while players are added: the new group \<open>g\<close> has the players \<open>new\<close> so far.\<close>

definition joining :: "nat \<Rightarrow> u32 \<Rightarrow> u64 set \<Rightarrow> BattlegroundQueue \<Rightarrow> BattlegroundQueue \<Rightarrow> bool" where
  "joining g t new q q' \<longleftrightarrow> keys_ok q' \<and> m_QueuedGroups q' = m_QueuedGroups q
     \<and> (\<exists>xs. members q' = (members q)(g \<mapsto> xs) \<and> set xs = new \<and> sorted_wrt (<) xs)
     \<and> team_of q' = (team_of q)(g \<mapsto> t)
     \<and> owner q' = (\<lambda>x. if x \<in> new then Some g else owner q x)"

lemma add_player_joining:
  assumes "joining g t new q q'"
  shows "\<exists>q''. add_player now g guid q' = Inr q'' \<and> joining g t (insert guid new) q q''"
proof -
  from assms obtain xs where keys: "keys_ok q'" and xs: "members q' = (members q)(g \<mapsto> xs)" "set xs = new" "sorted_wrt (<) xs"
    and team: "team_of q' = (team_of q)(g \<mapsto> t)" and own: "owner q' = (\<lambda>x. if x \<in> new then Some g else owner q x)"
    and qs: "m_QueuedGroups q' = m_QueuedGroups q" by (auto simp: joining_def)
  from xs(1) obtain i where i: "group_at (bq_heap q') g = Inr i" "gq_Players i = xs"
    using group_at_member [of q' g xs] by auto
  have ti: "gq_Team i = t" using group_at_views [OF i(1)] team by simp
  define p where "p = q'\<lparr>m_QueuedPlayers := sm_set guid \<lparr>pq_LastOnlineTime = now, pq_GroupInfo = g\<rparr> (m_QueuedPlayers q')\<rparr>"
  have kp: "keys_ok p" using keys by (simp add: p_def keys_ok_def)
  have "members p = members q'" "team_of p = team_of q'" "m_QueuedGroups p = m_QueuedGroups q'"
    by (simp_all add: p_def fun_eq_iff members_def team_of_def)
  moreover have "owner p = (owner q')(guid \<mapsto> g)"
    using keys by (simp add: p_def fun_eq_iff owner_def keys_ok_def)
  ultimately have "joining g t (insert guid new) q (set_group g (i\<lparr>gq_Players := ss_insert guid xs\<rparr>) p)"
    using kp xs team own qs ti sorted_ss_insert [OF xs(3)]
    by (auto simp: joining_def fun_eq_iff)
  moreover have "add_player now g guid q' = Inr (set_group g (i\<lparr>gq_Players := ss_insert guid xs\<rparr>) p)"
    using i by (simp add: add_player_def p_def)
  ultimately show ?thesis by blast
qed

definition loaded :: "u64 option list \<Rightarrow> u64 set" where
  "loaded ms = {x. Some x \<in> set ms}"

lemma loaded_simps [simp]: "loaded [] = {}" "loaded (None # ms) = loaded ms" "loaded (Some x # ms) = insert x (loaded ms)"
  by (auto simp: loaded_def)

lemma add_members_joining:
  assumes "joining g t new q q'"
  shows "\<exists>q''. add_members now g ms q' = Inr q'' \<and> joining g t (loaded ms \<union> new) q q''"
  using assms
proof (induction ms arbitrary: new q')
  case (Cons m ms)
  show ?case
  proof (cases m)
    case None
    with Cons show ?thesis by simp
  next
    case (Some x)
    from add_player_joining [OF Cons.prems, of now x] obtain q1 where
      "add_player now g x q' = Inr q1" "joining g t (insert x new) q q1" by blast
    with Cons.IH [of "insert x new" q1] Some show ?thesis by simp
  qed
qed simp

lemma players_join:
  assumes ok: "players_ok M P" and fresh: "M g = None" and xs: "set xs = new" "sorted_wrt (<) xs" "new \<noteq> {}"
    and free: "\<forall>x\<in>new. P x = None"
  shows "players_ok (M(g \<mapsto> xs)) (\<lambda>x. if x \<in> new then Some g else P x)"
proof -
  have other: "x \<notin> new" if "M g' = Some ys" "x \<in> set ys" for g' ys x
    using ok free that unfolding players_ok_def by fastforce
  have "g' \<noteq> g" if "P x = Some g'" for x g'
    using ok fresh that unfolding players_ok_def by fastforce
  with other ok xs show ?thesis by (auto simp: players_ok_def)
qed

text \<open>Live stores: the addresses the manager hands out belong to battlegrounds.\<close>

definition mgr_ok :: "BattlegroundMgr \<Rightarrow> bool" where
  "mgr_ok m \<longleftrightarrow> sm_inv (bm_heap m)
     \<and> (\<forall>t d. (t, d) \<in> set (bm_DataStore m) \<longrightarrow>
          (\<forall>inst a. (inst, a) \<in> set (bd_Battlegrounds d) \<longrightarrow> sm_find (bm_heap m) a \<noteq> None)
          \<and> (\<forall>a\<in>set (bd_BGFreeSlotQueue d). sm_find (bm_heap m) a \<noteq> None))"

lemma queue_index_ok: "queue_index r p team < 4" "queue_index r p team mod 2 = side team"
  by (auto simp: queue_index_def side_def)

definition joiners :: "u64 \<Rightarrow> u64 option list option \<Rightarrow> u64 set" where
  "joiners leader grp = (case grp of None \<Rightarrow> {leader} | Some ms \<Rightarrow> loaded ms)"

lemma bq_AddGroup_wf:
  assumes wf: "bq_wf q" and b: "bracket < MAX_BATTLEGROUND_BRACKETS" and fresh: "sm_find (bq_heap q) g = None"
    and new: "joiners leader grp \<noteq> {}" and free: "\<forall>x\<in>joiners leader grp. sm_find (m_QueuedPlayers q) x = None"
    and run: "bq_AddGroup e m g raw leader leader_team grp t bracket arenaType isRated isPremade rating mmr teamid q = Inr (es, q')"
  shows "bq_wf q'"
proof -
  obtain team where team: "(if be_IgnoreFaction e then mixed_team e m leader_team t bracket q else Inr leader_team) = Inr team"
    using run unfolding bq_AddGroup_def Let_def by (rule rbind_InrE)
  define i where "i = (new_group e raw leader_team t arenaType isRated rating mmr teamid)\<lparr>gq_Team := team\<rparr>"
  define q1 where "q1 = set_group g i q"
  have keys: "keys_ok q" using wf by (simp add: bq_wf_def)
  have "gq_Players i = []" "gq_Team i = team" by (simp_all add: i_def new_group_def)
  then have j1: "joining g team {} q q1"
    using keys by (auto simp: joining_def q1_def)
  have "\<exists>q2. (case grp of Some ms \<Rightarrow> add_members (be_MSTime e) g ms q1 | None \<Rightarrow> add_player (be_MSTime e) g leader q1) = Inr q2
      \<and> joining g team (joiners leader grp) q q2"
  proof (cases grp)
    case None
    then show ?thesis using add_player_joining [OF j1] by (simp add: joiners_def)
  next
    case (Some ms)
    then show ?thesis using add_members_joining [OF j1] by (simp add: joiners_def)
  qed
  then obtain q2 where q2: "(case grp of Some ms \<Rightarrow> add_members (be_MSTime e) g ms q1 | None \<Rightarrow> add_player (be_MSTime e) g leader q1) = Inr q2"
    and j2: "joining g team (joiners leader grp) q q2" by blast
  define index where "index = queue_index isRated isPremade team"
  have q': "q' = set_queue bracket index (queue_at bracket index q2 @ [g]) q2"
    using run unfolding bq_AddGroup_def Let_def team rbind_Inr i_def [symmetric] q1_def [symmetric] q2 index_def [symmetric]
    by (auto simp: rbind_eq_Inr)
  from j2 obtain xs where j: "keys_ok q2" "m_QueuedGroups q2 = m_QueuedGroups q" "members q2 = (members q)(g \<mapsto> xs)"
    "set xs = joiners leader grp" "sorted_wrt (<) xs" "team_of q2 = (team_of q)(g \<mapsto> team)"
    "owner q2 = (\<lambda>x. if x \<in> joiners leader grp then Some g else owner q x)" by (auto simp: joining_def)
  have absent: "members q g = None" "team_of q g = None" using fresh by (simp_all add: members_def team_of_def)
  have "\<forall>x\<in>joiners leader grp. owner q x = None" using free by (simp add: owner_def)
  then have "players_ok (members q2) (owner q2)"
    unfolding j using wf absent j(4,5) new by (intro players_join) (simp_all add: bq_wf_def)
  moreover have qs: "queues_ok (team_of q) (m_QueuedGroups q)" using wf by (simp add: bq_wf_def)
  have "queues_ok (team_of q2) (set2 bracket index (queue_at bracket index q2 @ [g]) (m_QueuedGroups q2))"
    unfolding j
  proof (rule queues_insert [OF qs absent(2) _ _ b])
    have "g \<notin> set (queue_at bracket index q)" using queues_okD(4) [OF qs] absent(2) by fastforce
    then show "distinct (queue_at bracket index q @ [g])" using queues_okD(1) [OF qs] by simp
  qed (simp_all add: index_def queue_index_ok)
  ultimately show ?thesis using j(1) by (simp add: q' bq_wf_def)
qed

section \<open>Leaving\<close>

lemma locate_sound: "locate g index n q = Some (b, j) \<Longrightarrow> g \<in> set (queue_at b j q) \<and> j mod 2 = index mod 2"
  by (induction n) (auto simp: bracket_hit_def split: option.splits if_splits)

lemma locate_complete:
  "g \<in> set (queue_at b j q) \<Longrightarrow> b < n \<Longrightarrow> j = index \<or> j = index + 2 \<Longrightarrow> \<exists>r. locate g index n q = Some r"
proof (induction n)
  case (Suc n)
  then show ?case by (cases "b = n") (auto simp: bracket_hit_def split: option.splits)
qed simp

lemma locate_wf:
  assumes wf: "bq_wf q" and i: "group_at (bq_heap q) g = Inr i"
  shows "\<exists>b j. locate g (if gq_Team i = HORDE then BG_QUEUE_PREMADE_HORDE else BG_QUEUE_PREMADE_ALLIANCE)
    MAX_BATTLEGROUND_BRACKETS q = Some (b, j) \<and> g \<in> set (queue_at b j q)"
proof -
  have qs: "queues_ok (team_of q) (m_QueuedGroups q)" using wf by (simp add: bq_wf_def)
  from group_at_views [OF i] have t: "team_of q g = Some (gq_Team i)" by simp
  from queues_okD(5) [OF qs this] obtain b j where in': "g \<in> set (queue_at b j q)" by blast
  from queues_okD(2-4) [OF qs in'] t have "b < MAX_BATTLEGROUND_BRACKETS" "j < 4" "j mod 2 = side (gq_Team i)" by auto
  moreover have "j = k \<or> j = k + 2" if "j < 4" "j mod 2 = k" for k
    using that by presburger
  ultimately obtain r where "locate g (side (gq_Team i)) MAX_BATTLEGROUND_BRACKETS q = Some r"
    using locate_complete [OF in'] by blast
  moreover have "side (gq_Team i) = (if gq_Team i = HORDE then BG_QUEUE_PREMADE_HORDE else BG_QUEUE_PREMADE_ALLIANCE)"
    by (simp add: side_def BG_QUEUE_PREMADE_HORDE_def BG_QUEUE_PREMADE_ALLIANCE_def)
  ultimately show ?thesis using locate_sound by (cases r) fastforce
qed

text \<open>The counters of a live battleground can always be changed.\<close>

lemma bg_at_live: "sm_find (bm_heap m) a \<noteq> None \<Longrightarrow> \<exists>b. bg_at m a = Inr b"
  by (auto simp: bg_at_def)

lemma find_instance_live:
  assumes "\<forall>t d inst a. (t, d) \<in> set ds \<longrightarrow> (inst, a) \<in> set (bd_Battlegrounds d) \<longrightarrow> sm_find h a \<noteq> None"
    and "find_instance inst ds = Some a"
  shows "sm_find h a \<noteq> None"
  using assms
proof (induction inst ds rule: find_instance.induct)
  case (2 inst t d ds)
  show ?case
  proof (cases "sm_find (bd_Battlegrounds d) inst")
    case None
    with 2 show ?thesis by (metis find_instance.simps(2) list.set_intros(2) option.simps(4))
  next
    case (Some a')
    with 2(3) have "(inst, a) \<in> set (bd_Battlegrounds d)" by (simp add: map_of_SomeD)
    with 2(2) show ?thesis by (metis list.set_intros(1))
  qed
qed simp

lemma GetBattleground_live:
  assumes "mgr_ok m" and "GetBattleground inst t m = Some a"
  shows "sm_find (bm_heap m) a \<noteq> None"
proof -
  have all: "\<forall>t d inst a. (t, d) \<in> set (bm_DataStore m) \<longrightarrow> (inst, a) \<in> set (bd_Battlegrounds d) \<longrightarrow> sm_find (bm_heap m) a \<noteq> None"
    using assms(1) unfolding mgr_ok_def by blast
  show ?thesis
  proof (cases "t = BATTLEGROUND_TYPE_NONE")
    case True
    with assms(2) find_instance_live [OF all] show ?thesis by (auto simp: GetBattleground_def split: if_splits)
  next
    case False
    with assms(2) obtain d where d: "sm_find (bm_DataStore m) t = Some d" "find_instance inst [(t, d)] = Some a"
      by (auto simp: GetBattleground_def split: if_splits option.splits)
    from map_of_SomeD [OF d(1)] all have "\<forall>t' d' inst a. (t', d') \<in> set [(t, d)] \<longrightarrow> (inst, a) \<in> set (bd_Battlegrounds d') \<longrightarrow> sm_find (bm_heap m) a \<noteq> None"
      by auto
    from find_instance_live [OF this d(2)] show ?thesis .
  qed
qed

lemma modify_bg_ok:
  assumes "mgr_ok m" and "\<And>a'. a = Some a' \<Longrightarrow> sm_find (bm_heap m) a' \<noteq> None"
  shows "\<exists>m'. modify_bg f a m = Inr m' \<and> mgr_ok m' \<and> bm_DataStore m' = bm_DataStore m"
proof (cases a)
  case None
  with assms show ?thesis by (simp add: modify_bg_def)
next
  case (Some a')
  with assms(2) obtain b where b: "bg_at m a' = Inr b" using bg_at_live by blast
  have "sm_inv (bm_heap m)" using assms(1) by (simp add: mgr_ok_def)
  then have "mgr_ok (bg_store a' (f b) m)"
    using assms(1) unfolding mgr_ok_def bg_store_def by (auto split: if_splits)
  then show ?thesis using Some b by (simp add: modify_bg_def bg_store_def)
qed

lemma release_slots_ok:
  assumes "mgr_ok m"
  shows "\<exists>m'. release_slots d i m = Inr m' \<and> mgr_ok m'"
proof -
  obtain m1 where m1: "modify_bg (DecreaseAwaitingPlayers (gq_Team i)) (GetBattleground (gq_Invited i)
      (if gq_BgTypeId i = BATTLEGROUND_AA then BATTLEGROUND_TYPE_NONE else gq_BgTypeId i) m) m = Inr m1" "mgr_ok m1"
    using modify_bg_ok [OF assms] GetBattleground_live [OF assms] by blast
  obtain m2 where "modify_bg (DecreaseInvitedCount (gq_Team i)) (GetBattleground (gq_Invited i) (gq_BgTypeId i) m1) m1 = Inr m2" "mgr_ok m2"
    using modify_bg_ok [OF m1(2)] GetBattleground_live [OF m1(2)] by blast
  with m1 show ?thesis by (simp add: release_slots_def)
qed

lemma views_take_out:
  assumes "keys_ok q"
  shows "members (take_out guid g i q) = (members q)(g \<mapsto> gq_Players i)"
    and "team_of (take_out guid g i q) = (team_of q)(g \<mapsto> gq_Team i)"
    and "owner (take_out guid g i q) = (owner q)(guid := None)"
    and "keys_ok (take_out guid g i q)" and "m_QueuedGroups (take_out guid g i q) = m_QueuedGroups q"
    and "sm_find (bq_heap (take_out guid g i q)) g = Some i"
  using assms by (simp_all add: fun_eq_iff take_out_def set_group_def members_def team_of_def owner_def keys_ok_def)

lemma views_delete_group:
  assumes "keys_ok q"
  shows "members (delete_group g b j q) = (members q)(g := None)"
    and "team_of (delete_group g b j q) = (team_of q)(g := None)"
    and "owner (delete_group g b j q) = owner q" and "keys_ok (delete_group g b j q)"
    and "m_QueuedGroups (delete_group g b j q) = set2 b j (remove1 g (queue_at b j q)) (m_QueuedGroups q)"
  using assms
  by (simp_all add: fun_eq_iff delete_group_def members_def team_of_def owner_def keys_ok_def set_queue_def set2_def)

text \<open>A player leaves his group, which keeps others, or which is deleted with him.\<close>

lemma players_leave:
  assumes ok: "players_ok M P" and g: "M g = Some xs" and x: "x \<in> set xs"
  shows "ss_erase x xs \<noteq> [] \<Longrightarrow> players_ok (M(g \<mapsto> ss_erase x xs)) (P(x := None))"
    and "ss_erase x xs = [] \<Longrightarrow> players_ok (M(g := None)) (P(x := None))"
proof -
  have own: "P x = Some g" using ok g x unfolding players_ok_def by blast
  have other: "x \<notin> set ys" if "M g' = Some ys" "g' \<noteq> g" for g' ys
    using ok own that unfolding players_ok_def by fastforce
  have sorted: "sorted_wrt (<) (ss_erase x xs)"
    using ok g unfolding players_ok_def ss_erase_def by (blast intro: sorted_wrt_filter)
  show "ss_erase x xs \<noteq> [] \<Longrightarrow> players_ok (M(g \<mapsto> ss_erase x xs)) (P(x := None))"
    unfolding players_ok_def
  proof (intro conjI allI impI ballI)
    fix g' ys
    assume ne: "ss_erase x xs \<noteq> []" and ys: "(M(g \<mapsto> ss_erase x xs)) g' = Some ys"
    show "ys \<noteq> []" "sorted_wrt (<) ys"
      using ne ys sorted ok by (cases "g' = g"; auto simp: players_ok_def)+
    fix y assume "y \<in> set ys"
    then show "(P(x := None)) y = Some g'"
      using ys g ok other by (cases "g' = g") (auto simp: players_ok_def)
  next
    fix y g' assume "(P(x := None)) y = Some g'"
    then have y: "y \<noteq> x" "P y = Some g'" by (auto split: if_splits)
    then obtain ys where "M g' = Some ys" "y \<in> set ys" using ok unfolding players_ok_def by blast
    then show "\<exists>ys. (M(g \<mapsto> ss_erase x xs)) g' = Some ys \<and> y \<in> set ys"
      using g y(1) by (cases "g' = g") auto
  qed
  show "ss_erase x xs = [] \<Longrightarrow> players_ok (M(g := None)) (P(x := None))"
  proof -
    assume "ss_erase x xs = []"
    then have all: "set xs \<subseteq> {x}" by (metis Diff_eq_empty_iff list.set(1) set_ss_erase)
    show ?thesis
      unfolding players_ok_def
    proof (intro conjI allI impI ballI)
      fix g' ys assume ys: "(M(g := None)) g' = Some ys"
      then show "ys \<noteq> []" "sorted_wrt (<) ys" using ok by (auto simp: players_ok_def split: if_splits)
      fix y assume "y \<in> set ys"
      then show "(P(x := None)) y = Some g'"
        using ys ok other by (auto simp: players_ok_def split: if_splits)
    next
      fix y g' assume "(P(x := None)) y = Some g'"
      then have y: "y \<noteq> x" "P y = Some g'" by (auto split: if_splits)
      then obtain ys where "M g' = Some ys" "y \<in> set ys" using ok unfolding players_ok_def by blast
      moreover have "g' \<noteq> g" using all g y(1) calculation by auto
      ultimately show "\<exists>ys. (M(g := None)) g' = Some ys \<and> y \<in> set ys" by simp
    qed
  qed
qed

text \<open>Who leaves with a player: in a rated group that is not invited yet, everyone.\<close>

definition leavers :: "BattlegroundQueue \<Rightarrow> u64 \<Rightarrow> u64 set" where
  "leavers q guid =
     (case sm_find (m_QueuedPlayers q) guid of
        None \<Rightarrow> {}
      | Some p \<Rightarrow>
          (case sm_find (bq_heap q) (pq_GroupInfo p) of
             None \<Rightarrow> {}
           | Some i \<Rightarrow> if gq_Invited i = 0 \<and> gq_IsRated i then set (gq_Players i) else {guid}))"

lemma owned:
  assumes wf: "bq_wf q" and p: "sm_find (m_QueuedPlayers q) guid = Some p"
  shows "\<exists>i. sm_find (bq_heap q) (pq_GroupInfo p) = Some i \<and> group_at (bq_heap q) (pq_GroupInfo p) = Inr i \<and> guid \<in> set (gq_Players i)"
proof -
  have "owner q guid = Some (pq_GroupInfo p)" using p by (simp add: owner_def)
  then obtain xs where "members q (pq_GroupInfo p) = Some xs" "guid \<in> set xs"
    using wf unfolding bq_wf_def players_ok_def by blast
  then show ?thesis by (auto simp: members_def group_at_def)
qed

lemma RemovePlayer_total:
  assumes "bq_wf q" and "mgr_ok m"
  shows "\<exists>es m' q'. RemovePlayer e guid d m q = Inr (es, m', q') \<and> bq_wf q' \<and> mgr_ok m'
    \<and> owner q' = (\<lambda>x. if x \<in> leavers q guid then None else owner q x)"
  using assms
proof (induction "length (m_QueuedPlayers q)" arbitrary: guid m q rule: less_induct)
  case less
  note wf = less.prems(1)
  show ?case
  proof (cases "sm_find (m_QueuedPlayers q) guid")
    case None
    then have "leavers q guid = {}" by (simp add: leavers_def)
    with None less.prems show ?thesis by (subst RemovePlayer.simps) simp
  next
    case (Some p)
    define g where "g = pq_GroupInfo p"
    from owned [OF wf Some] obtain i where i: "sm_find (bq_heap q) g = Some i" "group_at (bq_heap q) g = Inr i"
      "guid \<in> set (gq_Players i)" unfolding g_def by blast
    from locate_wf [OF wf i(2)] obtain b j where loc: "locate g (if gq_Team i = HORDE then BG_QUEUE_PREMADE_HORDE
        else BG_QUEUE_PREMADE_ALLIANCE) MAX_BATTLEGROUND_BRACKETS q = Some (b, j)" "g \<in> set (queue_at b j q)" by blast
    define i' where "i' = i\<lparr>gq_Players := ss_erase guid (gq_Players i)\<rparr>"
    from release_slots_ok [OF less.prems(2)] obtain m1 where m1: "release_slots d i' m = Inr m1" "mgr_ok m1" by blast
    define q1 where "q1 = take_out guid g i' q"
    have keys: "keys_ok q" and pl: "players_ok (members q) (owner q)" and qs: "queues_ok (team_of q) (m_QueuedGroups q)"
      using wf by (simp_all add: bq_wf_def)
    note views = views_take_out [OF keys, of guid g i', folded q1_def]
    have same: "(team_of q)(g \<mapsto> gq_Team i') = team_of q"
      using i(1) by (auto simp: team_of_def i'_def)
    have mg: "members q g = Some (gq_Players i)" using i(1) by (simp add: members_def)
    note gone = players_leave [OF pl mg i(3)]
    note run = RemovePlayer.simps [of e guid d m q] Some option.case Let_def g_def [symmetric] i(2) rbind_Inr loc(1) prod.case
      i'_def [symmetric] m1(1) q1_def [symmetric]
    have lv: "leavers q guid = (if gq_Invited i = 0 \<and> gq_IsRated i then set (gq_Players i) else {guid})"
      using Some i(1) by (simp add: leavers_def g_def)
    consider (last) "gq_Players i' = []" | (all) "gq_Players i' \<noteq> []" "gq_Invited i' = 0 \<and> gq_IsRated i'"
      | (one) "gq_Players i' \<noteq> []" "\<not> (gq_Invited i' = 0 \<and> gq_IsRated i')" by blast
    then show ?thesis
    proof cases
      case last
      then have erased: "ss_erase guid (gq_Players i) = []" by (simp add: i'_def)
      then have all: "set (gq_Players i) = {guid}" using i(3) by (metis Diff_eq_empty_iff empty_iff list.set(1) set_ss_erase subset_singletonD)
      note del = views_delete_group [OF views(4), of g b j]
      have "queues_ok ((team_of q)(g := None)) (set2 b j (remove1 g (queue_at b j q)) (m_QueuedGroups q))"
        using queues_delete [OF qs loc(2)] queues_okD(1) [OF qs] by simp
      then have "bq_wf (delete_group g b j q1)"
        using gone(2) [OF erased] del(4) unfolding bq_wf_def del(1-3,5) views by simp
      moreover have "owner (delete_group g b j q1) = (\<lambda>x. if x \<in> leavers q guid then None else owner q x)"
        unfolding del views lv all by (auto simp: fun_eq_iff)
      ultimately show ?thesis using m1 last unfolding run by simp
    next
      case one
      then have "ss_erase guid (gq_Players i) \<noteq> []" by (simp add: i'_def)
      then have "bq_wf q1" using gone(1) qs same views(4) unfolding bq_wf_def views(1-3,5) by (simp add: i'_def)
      moreover have "owner q1 = (\<lambda>x. if x \<in> leavers q guid then None else owner q x)"
        unfolding views lv using one by (auto simp: fun_eq_iff i'_def)
      ultimately show ?thesis using m1 unfolding run if_not_P [OF one(1)] if_not_P [OF one(2)] by simp
    next
      case all
      then have "ss_erase guid (gq_Players i) \<noteq> []" by (simp add: i'_def)
      then have wf1: "bq_wf q1" using gone(1) qs same views(4) unfolding bq_wf_def views(1-3,5) by (simp add: i'_def)
      have short: "length (m_QueuedPlayers q1) < length (m_QueuedPlayers q)"
        using length_sm_erase [of "m_QueuedPlayers q" guid] Some by (simp add: q1_def)
      from less.hyps [OF short wf1 m1(2), of "hd (gq_Players i')"] obtain es m' q' where
        rec: "RemovePlayer e (hd (gq_Players i')) d m1 q1 = Inr (es, m', q')" "bq_wf q'" "mgr_ok m'"
        "owner q' = (\<lambda>x. if x \<in> leavers q1 (hd (gq_Players i')) then None else owner q1 x)" by blast
      have hd: "hd (gq_Players i') \<in> set (gq_Players i')" using all(1) by simp
      then have "owner q1 (hd (gq_Players i')) = Some g"
        using wf1 unfolding bq_wf_def players_ok_def views by (metis fun_upd_same)
      then obtain p' where "sm_find (m_QueuedPlayers q1) (hd (gq_Players i')) = Some p'" "pq_GroupInfo p' = g"
        by (auto simp: owner_def)
      then have "leavers q1 (hd (gq_Players i')) = set (gq_Players i')"
        using views(6) all(2) by (simp add: leavers_def)
      then have "owner q' = (\<lambda>x. if x \<in> leavers q guid then None else owner q x)"
        unfolding rec(4) views lv using all(2) i(3) by (auto simp: fun_eq_iff i'_def)
      with rec m1 show ?thesis unfolding run if_not_P [OF all(1)] if_P [OF all(2)] by simp
    qed
  qed
qed

end
