(* ===== verification/BG_Update.thy ===== *)
theory BG_Update
  imports BG_Invariant
begin

text \<open>
  Matchmaking keeps the invariant of the queue: most of it changes invitations, pools and
  counters only; a premade group that waits too long, the second team of a skirmish and a team that plays
  for the other faction move to another queue.
\<close>

section \<open>Operations that keep the views\<close>

definition same_views :: "BattlegroundQueue \<Rightarrow> BattlegroundQueue \<Rightarrow> bool" where
  "same_views q q' \<longleftrightarrow> keys_ok q' \<and> members q' = members q \<and> owner q' = owner q \<and> team_of q' = team_of q
     \<and> m_QueuedGroups q' = m_QueuedGroups q"

lemma same_views_wf: "same_views q q' \<Longrightarrow> bq_wf q \<Longrightarrow> bq_wf q'"
  by (simp add: same_views_def bq_wf_def)

lemma same_views_refl: "keys_ok q \<Longrightarrow> same_views q q"
  by (simp add: same_views_def)

lemma same_views_trans: "same_views q q' \<Longrightarrow> same_views q' q'' \<Longrightarrow> same_views q q''"
  by (simp add: same_views_def)

lemma same_views_keys: "same_views q q' \<Longrightarrow> keys_ok q'"
  by (simp add: same_views_def)

lemma same_views_pools: "keys_ok q \<Longrightarrow> same_views q (set_pools pa ph q)" "keys_ok q \<Longrightarrow> same_views q (init_pools q)"
  "keys_ok q \<Longrightarrow> same_views q (set_pool t p q)"
  by (simp_all add: same_views_def set_pools_def init_pools_def)

lemma wait_time_views:
  "bq_heap (PlayerInvitedToBGUpdateAverageWaitTime e i b q) = bq_heap q"
  "m_QueuedPlayers (PlayerInvitedToBGUpdateAverageWaitTime e i b q) = m_QueuedPlayers q"
  "m_QueuedGroups (PlayerInvitedToBGUpdateAverageWaitTime e i b q) = m_QueuedGroups q"
  "m_SelectionPools (PlayerInvitedToBGUpdateAverageWaitTime e i b q) = m_SelectionPools q"
  by (simp_all add: PlayerInvitedToBGUpdateAverageWaitTime_def Let_def)

lemma invite_players_views:
  "invite_players e i guids b q = (es, b', q') \<Longrightarrow>
     bq_heap q' = bq_heap q \<and> m_QueuedPlayers q' = m_QueuedPlayers q \<and> m_QueuedGroups q' = m_QueuedGroups q
     \<and> m_SelectionPools q' = m_SelectionPools q"
proof (induction e i guids b q arbitrary: es b' q' rule: invite_players.induct)
  case (2 e i guid guids b q)
  show ?case
  proof (cases "be_FindPlayer e guid")
    case True
    obtain es1 b1 q1 where rec: "invite_players e i guids
        (IncreaseAwaitingPlayers (gq_Team i) (IncreaseInvitedCount (gq_Team i) b))
        (PlayerInvitedToBGUpdateAverageWaitTime e i (bg_BracketId b) q) = (es1, b1, q1)" by (metis prod_cases3)
    with 2(3) True have "q' = q1" by (simp add: Let_def)
    with 2(2) [OF _ refl refl refl refl rec] True wait_time_views show ?thesis by simp
  next
    case False
    with 2 show ?thesis by simp
  qed
qed simp

lemma InviteGroupToBG_views:
  assumes keys: "keys_ok q" and run: "InviteGroupToBG e g a s m q = Inr (r, es, m', q')"
  shows "keys_ok q'" and "members q' = members q" and "owner q' = owner q"
    and "m_QueuedGroups q' = m_QueuedGroups q" and "m_SelectionPools q' = m_SelectionPools q"
    and "\<exists>t. team_of q g = Some t \<and> team_of q' = (team_of q)(g \<mapsto> if s \<noteq> 0 then s else t)"
proof -
  obtain i where i: "group_at (bq_heap q) g = Inr i" using run unfolding InviteGroupToBG_def by (rule rbind_InrE)
  obtain b where b: "bg_at m a = Inr b" using run unfolding InviteGroupToBG_def i rbind_Inr by (rule rbind_InrE)
  have "\<exists>i' q1. bq_heap q' = bq_heap q1 \<and> m_QueuedPlayers q' = m_QueuedPlayers q1 \<and> m_QueuedGroups q' = m_QueuedGroups q1
      \<and> m_SelectionPools q' = m_SelectionPools q1 \<and> q1 = set_group g i' q
      \<and> gq_Players i' = gq_Players i \<and> gq_Team i' = (if s \<noteq> 0 then s else gq_Team i)"
  proof (cases "gq_Invited i = 0")
    case True
    define i1 where "i1 = (if s \<noteq> 0 then i\<lparr>gq_Team := s\<rparr> else i)\<lparr>gq_Invited := bg_InstanceID b\<rparr>"
    define i2 where "i2 = i1\<lparr>gq_RemoveInviteTime := be_MSTime e + INVITE_ACCEPT_WAIT_TIME\<rparr>"
    define b1 where "b1 = (if bg_IsArena b \<and> bg_IsRated b then SetArenaTeamIdForTeam (gq_Team i1) (gq_ArenaTeamId i1) b else b)"
    obtain es1 b2 q2 where inv: "invite_players e i2 (gq_Players i2) b1 (set_group g i2 q) = (es1, b2, q2)" by (metis prod_cases3)
    have "gq_Invited (if s \<noteq> 0 then i\<lparr>gq_Team := s\<rparr> else i) = 0" using True by simp
    then have "q' = q2"
      using run unfolding InviteGroupToBG_def i b rbind_Inr Let_def i1_def [symmetric] i2_def [symmetric] b1_def [symmetric] inv
      by simp
    moreover have "gq_Players i2 = gq_Players i" "gq_Team i2 = (if s \<noteq> 0 then s else gq_Team i)"
      by (simp_all add: i2_def i1_def)
    ultimately show ?thesis using invite_players_views [OF inv] by blast
  next
    case False
    then have "q' = set_group g (if s \<noteq> 0 then i\<lparr>gq_Team := s\<rparr> else i) q"
      using run unfolding InviteGroupToBG_def i b rbind_Inr Let_def by (simp split: if_splits)
    then show ?thesis by (intro exI [of _ "if s \<noteq> 0 then i\<lparr>gq_Team := s\<rparr> else i"] exI [of _ q']) simp
  qed
  then obtain i' q1 where q1: "bq_heap q' = bq_heap q1" "m_QueuedPlayers q' = m_QueuedPlayers q1" "m_QueuedGroups q' = m_QueuedGroups q1"
      "m_SelectionPools q' = m_SelectionPools q1" "q1 = set_group g i' q"
      "gq_Players i' = gq_Players i" "gq_Team i' = (if s \<noteq> 0 then s else gq_Team i)" by blast
  have "keys_ok q' = keys_ok q1" "members q' = members q1" "owner q' = owner q1" "team_of q' = team_of q1"
    using q1(1,2) by (simp_all add: fun_eq_iff keys_ok_def members_def owner_def team_of_def)
  moreover have "m_SelectionPools q1 = m_SelectionPools q" by (simp add: q1(5) set_group_def)
  moreover note views_set_group [OF keys, of g i', folded q1(5)] group_at_views [OF i] q1(3,4,6,7)
  ultimately show "keys_ok q'" "members q' = members q" "owner q' = owner q" "m_QueuedGroups q' = m_QueuedGroups q"
    "m_SelectionPools q' = m_SelectionPools q"
    "\<exists>t. team_of q g = Some t \<and> team_of q' = (team_of q)(g \<mapsto> if s \<noteq> 0 then s else t)"
    by (auto simp: fun_eq_iff)
qed

lemma invite_all_views:
  "keys_ok q \<Longrightarrow> invite_all e a gs m q = Inr (es, m', q') \<Longrightarrow> same_views q q' \<and> m_SelectionPools q' = m_SelectionPools q"
proof (induction e a gs m q arbitrary: es m' q' rule: invite_all.induct)
  case (1 e a m q)
  then show ?case by (simp add: same_views_refl)
next
  case (2 e a g gs m q)
  obtain i where i: "group_at (bq_heap q) g = Inr i" using 2(3) unfolding invite_all.simps by (rule rbind_InrE)
  obtain r es1 m1 q1 where inv: "InviteGroupToBG e g a (gq_Team i) m q = Inr (r, es1, m1, q1)"
    using 2(3) unfolding invite_all.simps i rbind_Inr by (elim rbind_InrE) (metis prod_cases4)
  obtain es2 m2 q2 where rec: "invite_all e a gs m1 q1 = Inr (es2, m2, q2)" and q': "q' = q2"
    using 2(3) unfolding invite_all.simps i rbind_Inr inv by (auto simp: rbind_eq_Inr)
  note v = InviteGroupToBG_views [OF 2(2) inv]
  from group_at_views [OF i] v(6) have "team_of q1 = team_of q" by (auto simp: fun_eq_iff)
  with v have same: "same_views q q1" by (simp add: same_views_def)
  from 2(1) [OF i inv refl refl refl v(1) rec] same v(5) show ?case
    unfolding q' by (auto intro: same_views_trans)
qed

lemma FillPlayersToBG_views:
  "keys_ok q \<Longrightarrow> FillPlayersToBG e a b m q = Inr q' \<Longrightarrow> same_views q q'"
  unfolding FillPlayersToBG_def by (auto simp: rbind_eq_Inr intro: same_views_pools)

lemma CheckNormalMatch_views:
  "keys_ok q \<Longrightarrow> CheckNormalMatch e t b minP maxP m q = Inr (ok, q') \<Longrightarrow> same_views q q'"
  unfolding CheckNormalMatch_def by (auto simp: rbind_eq_Inr intro: same_views_pools)

lemma update_running_views:
  "keys_ok q \<Longrightarrow> update_running e t bracket as m q = Inr (es, m', q') \<Longrightarrow> same_views q q'"
proof (induction e t bracket as m q arbitrary: es m' q' rule: update_running.induct)
  case (1 e t bracket m q)
  then show ?case by (simp add: same_views_refl)
next
  case (2 e t bracket a as m q)
  obtain b where b: "bg_at m a = Inr b" using 2(4) unfolding update_running.simps by (rule rbind_InrE)
  let ?c = "\<not> bg_IsRated b \<and> bg_TypeID b = t \<and> bg_BracketId b = bracket
        \<and> STATUS_WAIT_QUEUE < bg_Status b \<and> bg_Status b < STATUS_WAIT_LEAVE"
  show ?case
  proof (cases ?c)
    case True
    note run = 2(4) [unfolded update_running.simps b rbind_Inr if_P [OF True]]
    obtain q1 where q1: "FillPlayersToBG e a bracket m (init_pools q) = Inr q1" using run by (rule rbind_InrE)
    note run = run [unfolded q1 rbind_Inr]
    obtain es1 m2 q2 where q2: "invite_all e a (SelectedGroups (m_SelectionPools q1 TEAM_ALLIANCE)) m q1 = Inr (es1, m2, q2)"
      using run by (elim rbind_InrE) (metis prod_cases3)
    note run = run [unfolded q2 rbind_Inr prod.case]
    obtain es2 m3 q3 where q3: "invite_all e a (SelectedGroups (m_SelectionPools q2 TEAM_HORDE)) m2 q2 = Inr (es2, m3, q3)"
      using run by (elim rbind_InrE) (metis prod_cases3)
    note run = run [unfolded q3 rbind_Inr prod.case]
    obtain b3 where b3: "bg_at m3 a = Inr b3" using run by (rule rbind_InrE)
    note run = run [unfolded b3 rbind_Inr]
    obtain m4 where m4: "(if HasFreeSlots b3 then Inr m3 else RemoveFromBGFreeSlotQueue a m3) = Inr m4" using run by (rule rbind_InrE)
    note run = run [unfolded m4 rbind_Inr]
    obtain es5 m5 q5 where rec: "update_running e t bracket as m4 q3 = Inr (es5, m5, q5)"
      using run by (elim rbind_InrE) (metis prod_cases3)
    have q': "q' = q5" using run unfolding rec by simp
    have s0: "same_views q (init_pools q)" using 2(3) by (rule same_views_pools)
    have s1: "same_views (init_pools q) q1" using FillPlayersToBG_views [OF same_views_keys [OF s0] q1] .
    have s2: "same_views q1 q2" using invite_all_views [OF same_views_keys [OF s1] q2] by simp
    have s3: "same_views q2 q3" using invite_all_views [OF same_views_keys [OF s2] q3] by simp
    have "same_views q3 q5"
      using 2(1) [OF b True q1 q2 refl refl q3 refl refl b3 m4 same_views_keys [OF s3] rec] .
    then show ?thesis unfolding q' using s0 s1 s2 s3 same_views_trans by blast
  next
    case False
    note run = 2(4) [unfolded update_running.simps b rbind_Inr if_not_P [OF False]]
    show ?thesis by (rule 2(2) [OF b False 2(3) run])
  qed
qed

lemma start_match_views:
  assumes "keys_ok q" and "start_match e create t bracket aty m q = Inr (ok, es, m', q')"
  shows "same_views q q'"
proof (cases "create m t bracket aty False")
  case None
  with assms show ?thesis by (simp add: start_match_def same_views_refl)
next
  case (Some am)
  obtain a m1 where am: "am = (a, m1)" by fastforce
  note run = assms(2) [unfolded start_match_def Some am option.case prod.case]
  obtain es1 m2 q2 where q2: "invite_all e a (SelectedGroups (m_SelectionPools q TEAM_ALLIANCE)) m1 q = Inr (es1, m2, q2)"
    using run by (elim rbind_InrE) (metis prod_cases3)
  note run = run [unfolded q2 rbind_Inr prod.case]
  obtain es2 m3 q3 where q3: "invite_all e a (SelectedGroups (m_SelectionPools q2 TEAM_HORDE)) m2 q2 = Inr (es2, m3, q3)"
    using run by (elim rbind_InrE) (metis prod_cases3)
  have q': "q' = q3" using run unfolding q3 by (auto simp: rbind_eq_Inr)
  have s2: "same_views q q2" using invite_all_views [OF assms(1) q2] by simp
  moreover have "same_views q2 q3" using invite_all_views [OF same_views_keys [OF s2] q3] by simp
  ultimately show ?thesis unfolding q' by (rule same_views_trans)
qed

section \<open>Groups that change their queue\<close>

text \<open>
  A group moves from the queue \<open>j\<close> to the front of the queue \<open>j'\<close>; \<open>t\<close> is its team from then on.
\<close>

definition moved :: "nat \<Rightarrow> nat \<Rightarrow> nat \<Rightarrow> nat \<Rightarrow> nat list \<Rightarrow> BattlegroundQueue \<Rightarrow> BattlegroundQueue" where
  "moved b j j' g xs q = set_queue b j xs (set_queue b j' (g # queue_at b j' q) q)"

lemma moved_views [simp]:
  "members (moved b j j' g xs q) = members q" "owner (moved b j j' g xs q) = owner q"
  "team_of (moved b j j' g xs q) = team_of q" "keys_ok (moved b j j' g xs q) = keys_ok q"
  "m_QueuedGroups (moved b j j' g xs q) = set2 b j xs (set2 b j' (g # queue_at b j' q) (m_QueuedGroups q))"
  by (simp_all add: moved_def)

lemma premade_to_normal_wf:
  assumes wf: "bq_wf q" and t: "t < 2" and run: "premade_to_normal time minP bracket t q = Inr q'"
  shows "bq_wf q'"
proof (cases "queue_at bracket (BG_QUEUE_PREMADE_ALLIANCE + t) q")
  case Nil
  with run wf show ?thesis by (simp add: premade_to_normal_def)
next
  case (Cons g gs)
  let ?j = "BG_QUEUE_PREMADE_ALLIANCE + t" and ?j' = "BG_QUEUE_NORMAL_ALLIANCE + t"
  have qs: "queues_ok (team_of q) (m_QueuedGroups q)" using wf by (simp add: bq_wf_def)
  have in': "g \<in> set (queue_at bracket ?j q)" using Cons by simp
  from queues_okD(4) [OF qs in'] obtain u where u: "team_of q g = Some u" "?j mod 2 = side u" by blast
  have "?j' mod 2 = side u" "?j' \<noteq> ?j" "?j' < 4"
    using t u(2) by (simp_all add: BG_QUEUE_PREMADE_ALLIANCE_def BG_QUEUE_NORMAL_ALLIANCE_def)
  moreover have "set gs = set (queue_at bracket ?j q) - {g}" "distinct gs"
    using queues_okD(1) [OF qs, of bracket ?j] Cons by auto
  ultimately have "queues_ok ((team_of q)(g \<mapsto> u)) (set2 bracket ?j gs (set2 bracket ?j' (g # queue_at bracket ?j' q) (m_QueuedGroups q)))"
    by (intro queues_move [OF qs in']) simp_all
  then have "bq_wf (moved bracket ?j ?j' g gs q)"
    using wf u(1) by (simp add: bq_wf_def fun_upd_idem)
  then show ?thesis
    using run wf Cons by (auto simp: premade_to_normal_def moved_def rbind_eq_Inr split: if_splits)
qed

lemma CheckPremadeMatch_wf:
  assumes wf: "bq_wf q" and run: "CheckPremadeMatch e bracket minP maxP q = Inr (ok, q')"
  shows "bq_wf q'"
proof -
  have keys: "keys_ok q" using wf by (simp add: bq_wf_def)
  define ali where "ali = queue_at bracket BG_QUEUE_PREMADE_ALLIANCE q"
  define horde where "horde = queue_at bracket BG_QUEUE_PREMADE_HORDE q"
  note run = run [unfolded CheckPremadeMatch_def Let_def ali_def [symmetric] horde_def [symmetric]]
  obtain ga where ga: "(if ali \<noteq> [] \<and> horde \<noteq> [] then first_waiting (bq_heap q) ali else Inr None) = Inr ga"
    using run by (rule rbind_InrE)
  note run = run [unfolded ga rbind_Inr]
  obtain gh where gh: "(if ali \<noteq> [] \<and> horde \<noteq> [] then first_waiting (bq_heap q) horde else Inr None) = Inr gh"
    using run by (rule rbind_InrE)
  note run = run [unfolded gh rbind_Inr]
  show ?thesis
  proof (cases "\<exists>x y. ga = Some x \<and> gh = Some y")
    case True
    then obtain x y where "ga = Some x" "gh = Some y" by blast
    with run obtain pa ph where "q' = set_pools pa ph q" by (auto simp: rbind_eq_Inr)
    with same_views_pools(1) [OF keys] same_views_wf wf show ?thesis by blast
  next
    case False
    with run have run: "rbind (premade_to_normal (be_MSTime e - be_PremadeWait e) minP bracket TEAM_ALLIANCE q)
        (\<lambda>q. rbind (premade_to_normal (be_MSTime e - be_PremadeWait e) minP bracket TEAM_HORDE q)
          (\<lambda>q. Inr (False, q))) = Inr (ok, q')"
      by (cases ga; cases gh) simp_all
    then obtain q1 where "premade_to_normal (be_MSTime e - be_PremadeWait e) minP bracket TEAM_ALLIANCE q = Inr q1"
      "premade_to_normal (be_MSTime e - be_PremadeWait e) minP bracket TEAM_HORDE q1 = Inr q'"
      by (auto simp: rbind_eq_Inr)
    then show ?thesis
      using premade_to_normal_wf [OF wf, of TEAM_ALLIANCE] premade_to_normal_wf [of q1 TEAM_HORDE]
      by (simp add: TEAM_ALLIANCE_def TEAM_HORDE_def)
  qed
qed

text \<open>
  The second team of a skirmish: only one group can change sides, unless the erased one was the last of the
  queue, and then no other is selected behind it.
\<close>

lemma add_uninvited_subseq:
  "add_uninvited h d ws p = Inr p' \<Longrightarrow> \<exists>new. SelectedGroups p' = SelectedGroups p @ new \<and> subseq new ws"
proof (induction h d ws p arbitrary: p' rule: add_uninvited.induct)
  case (1 h d p)
  then show ?case by simp
next
  case (2 h d g gs p)
  obtain i where i: "group_at h g = Inr i" using 2(3) unfolding add_uninvited.simps by (rule rbind_InrE)
  show ?case
  proof (cases "gq_Invited i = 0")
    case True
    then obtain more p1 where p1: "pool_AddGroup h g d p = Inr (more, p1)"
      using 2(3) i by (auto simp: rbind_eq_Inr)
    then have sel: "SelectedGroups p1 = SelectedGroups p \<or> SelectedGroups p1 = SelectedGroups p @ [g]"
      using i by (auto simp: pool_AddGroup_def split: if_splits)
    show ?thesis
    proof (cases more)
      case m: True
      with 2(3) i True p1 have "add_uninvited h d gs p1 = Inr p'" by simp
      from 2(1) [OF i True p1 refl m this] obtain new where new: "SelectedGroups p' = SelectedGroups p1 @ new" "subseq new gs" by blast
      from sel show ?thesis
      proof
        assume "SelectedGroups p1 = SelectedGroups p"
        with new show ?thesis by (intro exI [of _ new]) (simp add: list_emb_Cons)
      next
        assume "SelectedGroups p1 = SelectedGroups p @ [g]"
        with new show ?thesis by (intro exI [of _ "g # new"]) simp
      qed
    next
      case False
      with 2(3) i True p1 have "p' = p1" by simp
      with sel show ?thesis by (auto intro: exI [of _ "[]"] exI [of _ "[g]"])
    qed
  next
    case False
    with 2(3) i have "add_uninvited h d gs p = Inr p'" by simp
    from 2(2) [OF i False this] show ?thesis by (auto intro: list_emb_Cons)
  qed
qed

lemma subseq_in: "subseq xs ys \<Longrightarrow> x \<in> set xs \<Longrightarrow> x \<in> set ys"
  by (meson subseq_order.order_trans subseq_singleton_left)

lemma subseq_Cons_last:
  assumes "subseq (g # g' # gs) ys" and "distinct ys"
  shows "g \<in> set (butlast ys)"
proof -
  from list_emb_ConsD [OF assms(1)] obtain us vs where ys: "ys = us @ g # vs" "subseq (g' # gs) vs" by blast
  from ys(2) have "vs \<noteq> []" by auto
  then show ?thesis unfolding ys by (simp add: butlast_append)
qed

lemma switch_side_two:
  assumes sub: "subseq (g # g' # gs) (drop skip (queue_at b (BG_QUEUE_NORMAL_ALLIANCE + t) q))"
    and d: "distinct (queue_at b (BG_QUEUE_NORMAL_ALLIANCE + t) q)" and t: "t \<noteq> other"
    and live: "sm_find (bq_heap q) g \<noteq> None" "sm_find (bq_heap q) g' \<noteq> None" "sm_inv (bq_heap q)"
  shows "switch_side b t other tid skip True (g # g' # gs) q = Inl InvalidIterator"
proof -
  let ?j = "BG_QUEUE_NORMAL_ALLIANCE + t"
  from live(1) obtain i where i: "group_at (bq_heap q) g = Inr i" using group_at_live by blast
  have "distinct (drop skip (queue_at b ?j q))" using d by simp
  from subseq_Cons_last [OF sub this] have last: "g \<in> set (butlast (drop skip (queue_at b ?j q)))" .
  then have in': "g \<in> set (drop skip (queue_at b ?j q))" by (rule in_set_butlastD)
  define q1 where "q1 = set_group g (i\<lparr>gq_Team := tid\<rparr>) q"
  have old: "set2 b (BG_QUEUE_NORMAL_ALLIANCE + other) xs qs b ?j = qs b ?j" for xs and qs :: "nat \<Rightarrow> nat \<Rightarrow> nat list"
    using t by (simp add: set2_apply)
  have "sm_find (bq_heap q1) g' \<noteq> None"
    using live(2,3) by (simp add: q1_def set_group_def)
  then obtain i' where i': "group_at (bq_heap q1) g' = Inr i'" using group_at_live by blast
  have "m_QueuedGroups q1 = m_QueuedGroups q" by (simp add: q1_def)
  with last in' show ?thesis
    by (simp add: i i' Let_def old q1_def [symmetric])
qed

lemma switch_side_wf:
  assumes wf: "bq_wf q" and sub: "subseq gs (drop skip (queue_at b (BG_QUEUE_NORMAL_ALLIANCE + t) q))"
    and t: "t \<noteq> other" "other < 2" "other = side tid"
    and run: "switch_side b t other tid skip True gs q = Inr q'"
  shows "bq_wf q'"
proof -
  let ?j = "BG_QUEUE_NORMAL_ALLIANCE + t" and ?j' = "BG_QUEUE_NORMAL_ALLIANCE + other"
  have qs: "queues_ok (team_of q) (m_QueuedGroups q)" and keys: "keys_ok q" using wf by (simp_all add: bq_wf_def)
  have d: "distinct (queue_at b ?j q)" using queues_okD(1) [OF qs] .
  have live: "sm_find (bq_heap q) g \<noteq> None" if "g \<in> set gs" for g
  proof -
    have "g \<in> set (queue_at b ?j q)" using subseq_in [OF sub that] by (rule in_set_dropD)
    from queues_okD(4) [OF qs this] show ?thesis by (auto simp: team_of_def)
  qed
  show ?thesis
  proof (cases gs)
    case Nil
    with run wf show ?thesis by simp
  next
    case (Cons g rest)
    show ?thesis
    proof (cases rest)
      case (Cons g' rest')
      have gs: "gs = g # g' # rest'" using Cons \<open>gs = g # rest\<close> by simp
      have "switch_side b t other tid skip True gs q = Inl InvalidIterator"
        unfolding gs
        by (rule switch_side_two [OF _ d t(1)]) (use sub live keys in \<open>simp_all add: gs keys_ok_def\<close>)
      with run show ?thesis by simp
    next
      case Nil
      with Cons have gs: "gs = [g]" by simp
      have in': "g \<in> set (drop skip (queue_at b ?j q))" using subseq_in [OF sub] gs by simp
      then have g: "g \<in> set (queue_at b ?j q)" by (rule in_set_dropD)
      obtain i where i: "group_at (bq_heap q) g = Inr i" using live group_at_live gs by force
      define q1 where "q1 = set_group g (i\<lparr>gq_Team := tid\<rparr>) q"
      define xs where "xs = take skip (queue_at b ?j q) @ remove1 g (drop skip (queue_at b ?j q))"
      have q1: "m_QueuedGroups q1 = m_QueuedGroups q" by (simp add: q1_def set_group_def)
      have nj: "?j' \<noteq> ?j" using t(1) by simp
      have old: "set2 b ?j' ys qs b ?j = qs b ?j" for ys and qs :: "nat \<Rightarrow> nat \<Rightarrow> nat list" using nj by (simp add: set2_apply)
      have q': "q' = moved b ?j ?j' g xs q1"
        using run by (simp add: gs i Let_def old q1 q1_def [symmetric] xs_def moved_def)
      have notin: "g \<notin> set (take skip (queue_at b ?j q))"
        using in' d by (metis append_take_drop_id disjoint_iff distinct_append)
      then have xs: "xs = remove1 g (queue_at b ?j q)"
        unfolding xs_def by (metis append_take_drop_id remove1_append)
      have "set xs = set (queue_at b ?j q) - {g}" "distinct xs" using d by (simp_all add: xs)
      moreover have "?j' < 4" "?j' mod 2 = side tid"
        using t(2,3) by (simp_all add: BG_QUEUE_NORMAL_ALLIANCE_def)
      ultimately have "queues_ok ((team_of q)(g \<mapsto> tid)) (set2 b ?j xs (set2 b ?j' (g # queue_at b ?j' q) (m_QueuedGroups q)))"
        using nj by (intro queues_move [OF qs g]) simp_all
      moreover have "(members q)(g \<mapsto> gq_Players i) = members q"
        using group_at_views [OF i] by (simp add: fun_upd_idem)
      ultimately show ?thesis
        using wf keys unfolding q' bq_wf_def by (simp add: q1_def)
    qed
  qed
qed

lemma CheckSkirmish_wf:
  assumes wf: "bq_wf q" and run: "CheckSkirmishForSameFaction bracket minP q = Inr (ok, q')"
  shows "bq_wf q'"
proof -
  have keys: "keys_ok q" using wf by (simp add: bq_wf_def)
  define t other tid where "t = (if PlayerCount (m_SelectionPools q TEAM_HORDE) = minP then TEAM_HORDE else TEAM_ALLIANCE)"
    and "other = (if PlayerCount (m_SelectionPools q TEAM_HORDE) = minP then TEAM_ALLIANCE else TEAM_HORDE)"
    and "tid = (if PlayerCount (m_SelectionPools q TEAM_HORDE) = minP then ALLIANCE else HORDE)"
  have triple: "(if PlayerCount (m_SelectionPools q TEAM_HORDE) = minP then (TEAM_HORDE, TEAM_ALLIANCE, ALLIANCE)
      else (TEAM_ALLIANCE, TEAM_HORDE, HORDE)) = (t, other, tid)" by (simp add: t_def other_def tid_def)
  have sides: "t \<noteq> other" "other < 2" "other = side tid"
    by (auto simp: t_def other_def tid_def TEAM_ALLIANCE_def TEAM_HORDE_def side_def ALLIANCE_def HORDE_def)
  define q1 where "q1 = set_pool other pool_Init q"
  define queue where "queue = queue_at bracket (BG_QUEUE_NORMAL_ALLIANCE + t) q1"
  define sel where "sel = SelectedGroups (m_SelectionPools q1 t)"
  define skip where "skip = Suc (length (takeWhile (\<lambda>g. g \<noteq> last sel) queue))"
  note run = run [unfolded CheckSkirmishForSameFaction_def Let_def triple prod.case q1_def [symmetric]
      sel_def [symmetric] queue_def [symmetric] skip_def [symmetric]]
  have wf1: "bq_wf q1" using same_views_wf [OF same_views_pools(3) [OF keys] wf] by (simp add: q1_def)
  have k1: "keys_ok q1" using wf1 by (simp add: bq_wf_def)
  show ?thesis
  proof (cases "(PlayerCount (m_SelectionPools q TEAM_ALLIANCE) < minP \<and> PlayerCount (m_SelectionPools q TEAM_HORDE) < minP)
      \<or> sel = [] \<or> last sel \<notin> set queue")
    case True
    with run have "q' = q \<or> q' = q1" by (simp split: if_splits)
    with wf wf1 show ?thesis by blast
  next
    case False
    then have run: "rbind (add_uninvited (bq_heap q1) minP (drop skip queue) pool_Init) (\<lambda>p.
          if PlayerCount p \<noteq> minP then Inr (False, set_pool other p q1)
          else rbind (switch_side bracket t other tid skip True (SelectedGroups p) (set_pool other p q1)) (\<lambda>q. Inr (True, q))) = Inr (ok, q')"
      using run by (simp split: if_splits)
    then obtain p where p: "add_uninvited (bq_heap q1) minP (drop skip queue) pool_Init = Inr p" by (rule rbind_InrE)
    note run = run [unfolded p rbind_Inr]
    have wf2: "bq_wf (set_pool other p q1)" by (rule same_views_wf [OF same_views_pools(3) [OF k1] wf1])
    from add_uninvited_subseq [OF p] have "subseq (SelectedGroups p) (drop skip queue)" by (auto simp: pool_Init_def)
    then have sub: "subseq (SelectedGroups p) (drop skip (queue_at bracket (BG_QUEUE_NORMAL_ALLIANCE + t) (set_pool other p q1)))"
      by (simp add: queue_def)
    show ?thesis
    proof (cases "PlayerCount p = minP")
      case True
      then obtain q2 where "switch_side bracket t other tid skip True (SelectedGroups p) (set_pool other p q1) = Inr q2" "q' = q2"
        using run by (auto simp: rbind_eq_Inr)
      with switch_side_wf [OF wf2 sub sides] show ?thesis by blast
    next
      case False
      with run wf2 show ?thesis by simp
    qed
  qed
qed

section \<open>Rated arenas\<close>

lemma find_fit_sound:
  "find_fit h fit n gs = Inr (Some (k, g)) \<Longrightarrow>
     n \<le> k \<and> k - n < length gs \<and> gs ! (k - n) = g \<and> (\<exists>i. group_at h g = Inr i \<and> fit i)"
proof (induction h fit n gs rule: find_fit.induct)
  case (2 h fit n g' gs)
  obtain i where i: "group_at h g' = Inr i" using 2(2) unfolding find_fit.simps by (rule rbind_InrE)
  show ?case
  proof (cases "fit i")
    case True
    with 2(2) i show ?thesis by simp
  next
    case False
    with 2(2) i have "find_fit h fit (Suc n) gs = Inr (Some (k, g))" by simp
    from 2(1) [OF i False this] have rec: "Suc n \<le> k" "k - Suc n < length gs" "gs ! (k - Suc n) = g"
      "\<exists>i. group_at h g = Inr i \<and> fit i" by simp_all
    from rec(1) have "k - n = Suc (k - Suc n)" by simp
    with rec show ?thesis by simp
  qed
qed simp

text \<open>The position of a team in its queue.\<close>

definition stands :: "BattlegroundQueue \<Rightarrow> nat \<Rightarrow> nat \<times> nat \<times> nat \<Rightarrow> bool" where
  "stands q bracket p = (case p of (j, n, g) \<Rightarrow> n < length (queue_at bracket j q) \<and> queue_at bracket j q ! n = g)"

text \<open>The second team is looked for behind the first one in the same queue.\<close>

lemma second_team:
  assumes first: "find_fit (bq_heap q) fit 0 (queue_at bracket j q) = Inr (Some (n, g))"
    and run: "rbind (group_at (bq_heap q) g) (\<lambda>i.
            rbind (find_fit (bq_heap q) (\<lambda>i'. fit i' \<and> gq_ArenaTeamId i \<noteq> gq_ArenaTeamId i') n (drop n (queue_at bracket j q))) (\<lambda>r.
            Inr (case r of None \<Rightarrow> None | Some (n', g') \<Rightarrow> Some ((j, n, g), (j, n', g'))))) = Inr (Some (a, b))"
  shows "stands q bracket a \<and> stands q bracket b \<and> snd (snd a) \<noteq> snd (snd b)"
proof -
  obtain i where i: "group_at (bq_heap q) g = Inr i" using run by (rule rbind_InrE)
  obtain n' g' where ff: "find_fit (bq_heap q) (\<lambda>i'. fit i' \<and> gq_ArenaTeamId i \<noteq> gq_ArenaTeamId i') n
      (drop n (queue_at bracket j q)) = Inr (Some (n', g'))" and eq: "a = (j, n, g)" "b = (j, n', g')"
    using run unfolding i rbind_Inr by (auto simp: rbind_eq_Inr split: option.splits)
  from find_fit_sound [OF first] have 1: "n < length (queue_at bracket j q)" "queue_at bracket j q ! n = g" by simp_all
  from find_fit_sound [OF ff] obtain i' where 2: "n \<le> n'" "n' - n < length (drop n (queue_at bracket j q))"
    "drop n (queue_at bracket j q) ! (n' - n) = g'" "group_at (bq_heap q) g' = Inr i'" "gq_ArenaTeamId i \<noteq> gq_ArenaTeamId i'" by blast
  from 2(1-3) 1(1) have "n' < length (queue_at bracket j q)" "queue_at bracket j q ! n' = g'" by simp_all
  moreover have "g \<noteq> g'" using i 2(4,5) by auto
  ultimately show ?thesis using 1 eq by (simp add: stands_def)
qed

lemma find_teams_sound:
  assumes wf: "bq_wf q" and run: "find_teams e bracket lo hi q = Inr (Some ((ja, na, ga), (jb, nb, gb)))"
  shows "stands q bracket (ja, na, ga)" and "stands q bracket (jb, nb, gb)" and "ga \<noteq> gb"
proof -
  define fit where "fit = in_range lo hi (be_MSTime e - be_RatingDiscardTimer e)"
  define ali where "ali = queue_at bracket BG_QUEUE_PREMADE_ALLIANCE q"
  define horde where "horde = queue_at bracket BG_QUEUE_PREMADE_HORDE q"
  note run = run [unfolded find_teams_def Let_def fit_def [symmetric] ali_def [symmetric] horde_def [symmetric]]
  obtain a where a: "find_fit (bq_heap q) fit 0 ali = Inr a" using run by (rule rbind_InrE)
  note run = run [unfolded a rbind_Inr]
  obtain b where b: "find_fit (bq_heap q) fit 0 horde = Inr b" using run by (rule rbind_InrE)
  note run = run [unfolded b rbind_Inr]
  have qs: "queues_ok (team_of q) (m_QueuedGroups q)" using wf by (simp add: bq_wf_def)
  have "stands q bracket (ja, na, ga) \<and> stands q bracket (jb, nb, gb) \<and> ga \<noteq> gb"
  proof (cases a)
    case a': None
    show ?thesis
    proof (cases b)
      case None
      with a' run show ?thesis by simp
    next
      case (Some ng)
      obtain n g where ng: "ng = (n, g)" by fastforce
      from second_team [OF b [unfolded horde_def Some ng]] run a' Some ng
      show ?thesis by (force simp: horde_def)
    qed
  next
    case a': (Some ng)
    obtain n g where ng: "ng = (n, g)" by fastforce
    show ?thesis
    proof (cases b)
      case None
      from second_team [OF a [unfolded ali_def a' ng]] run a' None ng
      show ?thesis by (force simp: ali_def)
    next
      case (Some ng')
      obtain n' g' where ng': "ng' = (n', g')" by fastforce
      from run a' Some ng ng' have eq: "(ja, na, ga) = (BG_QUEUE_PREMADE_ALLIANCE, n, g)" "(jb, nb, gb) = (BG_QUEUE_PREMADE_HORDE, n', g')"
        by simp_all
      from find_fit_sound [OF a [unfolded a' ng]] find_fit_sound [OF b [unfolded Some ng']]
      have st: "n < length ali" "ali ! n = g" "n' < length horde" "horde ! n' = g'" by simp_all
      then have "g \<in> set ali" "g' \<in> set horde" by (metis nth_mem)+
      then have "g \<noteq> g'"
        using queues_okD(6) [OF qs, of g bracket BG_QUEUE_PREMADE_ALLIANCE bracket BG_QUEUE_PREMADE_HORDE]
        by (auto simp: ali_def horde_def BG_QUEUE_PREMADE_ALLIANCE_def BG_QUEUE_PREMADE_HORDE_def)
      with eq st show ?thesis by (simp add: stands_def ali_def horde_def)
    qed
  qed
  then show "stands q bracket (ja, na, ga)" "stands q bracket (jb, nb, gb)" "ga \<noteq> gb" by blast+
qed

lemma remove_nth_distinct:
  assumes "distinct xs" and "n < length xs"
  shows "distinct (remove_nth n xs)" and "set (remove_nth n xs) = set xs - {xs ! n}"
proof -
  note xs = id_take_nth_drop [OF assms(2)]
  have "distinct (take n xs @ xs ! n # drop (Suc n) xs)" by (rule xs [THEN subst], rule assms(1))
  moreover have "set xs = set (take n xs @ xs ! n # drop (Suc n) xs)" by (rule arg_cong [OF xs])
  ultimately show "distinct (remove_nth n xs)" "set (remove_nth n xs) = set xs - {xs ! n}"
    by (auto simp: remove_nth_def)
qed

lemma set_opponents_views:
  assumes keys: "keys_ok q" and run: "set_opponents ga gb q = Inr q'"
  shows "same_views q q'"
proof -
  have keep: "same_views p (set_group g i' p)"
    if "keys_ok p" "group_at (bq_heap p) g = Inr i" "gq_Players i' = gq_Players i" "gq_Team i' = gq_Team i" for p g i i'
    using that group_at_views [OF that(2)] by (simp add: same_views_def fun_upd_idem)
  obtain i where i: "group_at (bq_heap q) ga = Inr i" using run unfolding set_opponents_def by (rule rbind_InrE)
  note run = run [unfolded set_opponents_def i rbind_Inr]
  obtain j where j: "group_at (bq_heap q) gb = Inr j" using run by (rule rbind_InrE)
  define q1 where "q1 = set_group ga (i\<lparr>gq_OpponentsTeamRating := gq_ArenaTeamRating j,
    gq_OpponentsMatchmakerRating := gq_ArenaMatchmakerRating j\<rparr>) q"
  note run = run [unfolded j rbind_Inr Let_def q1_def [symmetric]]
  obtain j' where j': "group_at (bq_heap q1) gb = Inr j'" using run by (rule rbind_InrE)
  note run = run [unfolded j' rbind_Inr]
  have s1: "same_views q q1" unfolding q1_def by (rule keep [OF keys i]) simp_all
  have "same_views q1 q'" using run keep [OF same_views_keys [OF s1] j'] by auto
  with s1 show ?thesis by (rule same_views_trans)
qed

lemma move_teams_views:
  assumes wf: "bq_wf q" and a: "stands q bracket (ja, na, ga)" and b: "stands q bracket (jb, nb, gb)" and ne: "ga \<noteq> gb"
    and run: "move_teams bracket (ja, na, ga) (jb, nb, gb) q = Inr q'"
  shows "keys_ok q' \<and> members q' = members q \<and> owner q' = owner q \<and> team_of q' = team_of q
    \<and> queues_ok ((team_of q)(ga \<mapsto> ALLIANCE, gb \<mapsto> HORDE)) (m_QueuedGroups q')"
proof -
  have qs: "queues_ok (team_of q) (m_QueuedGroups q)" and keys: "keys_ok q" using wf by (simp_all add: bq_wf_def)
  obtain i where i: "group_at (bq_heap q) ga = Inr i" using run unfolding move_teams_def prod.case by (rule rbind_InrE)
  note run = run [unfolded move_teams_def prod.case i rbind_Inr]
  obtain j where j: "group_at (bq_heap q) gb = Inr j" using run by (rule rbind_InrE)
  note run = run [unfolded j rbind_Inr]
  have ta: "team_of q ga = Some (gq_Team i)" and tb: "team_of q gb = Some (gq_Team j)"
    using group_at_views [OF i] group_at_views [OF j] by simp_all
  have names: "BG_QUEUE_PREMADE_ALLIANCE = 0" "BG_QUEUE_PREMADE_HORDE = 1"
    by (simp_all add: BG_QUEUE_PREMADE_ALLIANCE_def BG_QUEUE_PREMADE_HORDE_def)
  have sides: "side ALLIANCE = 0" "side HORDE = 1" by (simp_all add: side_def ALLIANCE_def HORDE_def)
  have stood: "g \<in> set (queue_at bracket k q) \<and> set (remove_nth n (queue_at bracket k q)) = set (queue_at bracket k q) - {g}
      \<and> distinct (remove_nth n (queue_at bracket k q))" if st: "stands q bracket (k, n, g)" for k n g
  proof -
    from st have n: "n < length (queue_at bracket k q)" "queue_at bracket k q ! n = g" by (simp_all add: stands_def)
    from remove_nth_distinct [OF queues_okD(1) [OF qs] n(1)] n(2) nth_mem [OF n(1)] show ?thesis by simp
  qed
  show ?thesis
  proof (cases "gq_Team i = ALLIANCE")
    case ali: True
    note run = run [unfolded if_not_P [OF not_not [THEN iffD2, OF ali]] rbind_Inr]
    show ?thesis
    proof (cases "gq_Team j = HORDE")
      case True
      with run have "q' = q" by simp
      with qs keys ali True ta tb show ?thesis by (simp add: fun_upd_idem)
    next
      case False
      with run ali have jb: "jb = BG_QUEUE_PREMADE_ALLIANCE"
        and q': "q' = moved bracket jb BG_QUEUE_PREMADE_HORDE gb (remove_nth nb (queue_at bracket jb q)) q"
        by (simp_all add: moved_def split: if_splits)
      note atb = stood [OF b]
      have "queues_ok ((team_of q)(gb \<mapsto> HORDE)) (m_QueuedGroups q')"
        unfolding q' moved_views using atb
        by (intro queues_move [OF qs]) (simp_all add: jb names sides)
      then show ?thesis using keys ta ali by (simp add: q' fun_upd_idem)
    qed
  next
    case False
    then have no: "gq_Team i \<noteq> ALLIANCE" .
    have ja: "ja = BG_QUEUE_PREMADE_HORDE"
    proof (rule ccontr)
      assume "ja \<noteq> BG_QUEUE_PREMADE_HORDE"
      with run no show False by simp
    qed
    define q1 where "q1 = moved bracket ja BG_QUEUE_PREMADE_ALLIANCE ga (remove_nth na (queue_at bracket ja q)) q"
    have "(if gq_Team j \<noteq> HORDE then Inl InvalidIterator else Inr q1) = Inr q'"
      using run no ja by (simp add: moved_def q1_def split: if_splits)
    then have q': "q' = q1" and horde: "gq_Team j = HORDE" by (simp_all split: if_splits)
    note ata = stood [OF a]
    have "queues_ok ((team_of q)(ga \<mapsto> ALLIANCE)) (m_QueuedGroups q1)"
      unfolding q1_def moved_views using ata
      by (intro queues_move [OF qs]) (simp_all add: ja names sides)
    moreover have "(team_of q)(ga \<mapsto> ALLIANCE, gb \<mapsto> HORDE) = (team_of q)(ga \<mapsto> ALLIANCE)"
      using tb horde ne by (auto simp: fun_eq_iff)
    ultimately show ?thesis using keys by (simp add: q' q1_def)
  qed
qed

lemma start_rated_wf:
  assumes wf: "bq_wf q" and st: "stands q bracket (ja, na, ga)" "stands q bracket (jb, nb, gb)" "ga \<noteq> gb"
    and run: "start_rated e create t bracket aty (ja, na, ga) (jb, nb, gb) m q = Inr (es, m', q')"
  shows "bq_wf q'"
proof (cases "create m t bracket aty True")
  case None
  with run wf show ?thesis by (simp add: start_rated_def)
next
  case (Some am)
  obtain a m0 where am: "am = (a, m0)" by fastforce
  note run = run [unfolded start_rated_def Some am option.case prod.case]
  obtain q1 where q1: "set_opponents ga gb q = Inr q1" using run by (rule rbind_InrE)
  note run = run [unfolded q1 rbind_Inr]
  have keys: "keys_ok q" using wf by (simp add: bq_wf_def)
  note s1 = set_opponents_views [OF keys q1]
  have wf1: "bq_wf q1" using same_views_wf [OF s1 wf] .
  have st1: "stands q1 bracket (ja, na, ga)" "stands q1 bracket (jb, nb, gb)"
    using st s1 by (simp_all add: stands_def same_views_def)
  obtain q2 where q2: "move_teams bracket (ja, na, ga) (jb, nb, gb) q1 = Inr q2" using run by (rule rbind_InrE)
  note run = run [unfolded q2 rbind_Inr]
  note mv = move_teams_views [OF wf1 st1 st(3) q2]
  obtain i where i: "group_at (bq_heap q2) ga = Inr i" using run by (rule rbind_InrE)
  note run = run [unfolded i rbind_Inr]
  obtain j where j: "group_at (bq_heap q2) gb = Inr j" using run by (rule rbind_InrE)
  note run = run [unfolded j rbind_Inr]
  obtain m1 where m1: "modify_bg (SetArenaMatchmakerRating ALLIANCE (gq_ArenaMatchmakerRating i)) (Some a) m0 = Inr m1"
    using run by (rule rbind_InrE)
  note run = run [unfolded m1 rbind_Inr]
  obtain m2 where m2: "modify_bg (SetArenaMatchmakerRating HORDE (gq_ArenaMatchmakerRating j)) (Some a) m1 = Inr m2"
    using run by (rule rbind_InrE)
  note run = run [unfolded m2 rbind_Inr]
  obtain r3 es3 m3 q3 where q3: "InviteGroupToBG e ga a ALLIANCE m2 q2 = Inr (r3, es3, m3, q3)"
    using run by (elim rbind_InrE) (metis prod_cases4)
  note run = run [unfolded q3 rbind_Inr prod.case]
  obtain r4 es4 m4 q4 where q4: "InviteGroupToBG e gb a HORDE m3 q3 = Inr (r4, es4, m4, q4)"
    using run by (elim rbind_InrE) (metis prod_cases4)
  have q': "q' = q4" using run unfolding q4 by (auto simp: rbind_eq_Inr)
  have k2: "keys_ok q2" using mv by simp
  note v3 = InviteGroupToBG_views [OF k2 q3]
  note v4 = InviteGroupToBG_views [OF v3(1) q4]
  have nz: "ALLIANCE \<noteq> 0" "HORDE \<noteq> 0" by (simp_all add: ALLIANCE_def HORDE_def)
  have "team_of q3 = (team_of q2)(ga \<mapsto> ALLIANCE)" using v3(6) nz by auto
  moreover have "team_of q4 = (team_of q3)(gb \<mapsto> HORDE)" using v4(6) nz by auto
  ultimately have "team_of q4 = (team_of q1)(ga \<mapsto> ALLIANCE, gb \<mapsto> HORDE)" using mv by simp
  with mv v3 v4 wf1 show ?thesis unfolding q' bq_wf_def by simp
qed

lemma update_rated_wf:
  assumes wf: "bq_wf q" and run: "update_rated e create t bracket aty rating m q = Inr (es, m', q')"
  shows "bq_wf q'"
proof -
  note run = run [unfolded update_rated_def Let_def]
  obtain f1 where f1: "(if rating \<noteq> 0 then Inr None else front (bq_heap q) (queue_at bracket BG_QUEUE_PREMADE_ALLIANCE q)) = Inr f1"
    using run by (rule rbind_InrE)
  note run = run [unfolded f1 rbind_Inr]
  obtain f2 where f2: "(if rating \<noteq> 0 then Inr None else front (bq_heap q) (queue_at bracket BG_QUEUE_PREMADE_HORDE q)) = Inr f2"
    using run by (rule rbind_InrE)
  note run = run [unfolded f2 rbind_Inr]
  define want where "want = (if rating \<noteq> 0 then Some (rating, 0) else longest_waiting (be_MSTime e) f1 f2)"
  note run = run [folded want_def]
  show ?thesis
  proof (cases want)
    case None
    with run wf show ?thesis by simp
  next
    case (Some w)
    obtain r d lo hi where "w = (r, d)" "rating_range e r d = (lo, hi)" by (metis surj_pair)
    note run = run [unfolded Some this(1) option.case prod.case this(2)]
    obtain teams where teams: "find_teams e bracket lo hi q = Inr teams" using run by (rule rbind_InrE)
    note run = run [unfolded teams rbind_Inr]
    show ?thesis
    proof (cases teams)
      case None
      with run wf show ?thesis by simp
    next
      case (Some ab)
      obtain ja na ga jb nb gb where ab: "ab = ((ja, na, ga), (jb, nb, gb))" by (metis surj_pair)
      note run = run [unfolded Some ab option.case prod.case]
      from start_rated_wf [OF wf find_teams_sound [OF wf teams [unfolded Some ab]] run] show ?thesis .
    qed
  qed
qed

section \<open>The update of a queue\<close>

lemma update_normal_wf:
  assumes wf: "bq_wf q" and run: "update_normal e create tm t bracket aty minP maxP m q = Inr (es, m', q')"
  shows "bq_wf q'"
proof -
  have keys: "keys_ok q" using wf by (simp add: bq_wf_def)
  note run = run [unfolded update_normal_def]
  obtain b where b: "bg_at m tm = Inr b" using run by (rule rbind_InrE)
  note run = run [unfolded b rbind_Inr]
  obtain ok q1 where q1: "CheckNormalMatch e tm bracket minP maxP m q = Inr (ok, q1)"
    using run by (elim rbind_InrE) (metis surj_pair)
  note run = run [unfolded q1 rbind_Inr prod.case]
  have wf1: "bq_wf q1" using same_views_wf [OF CheckNormalMatch_views [OF keys q1] wf] .
  obtain ok2 q2 where q2: "(if ok then Inr (True, q1) else if bg_IsArena b then CheckSkirmishForSameFaction bracket minP q1
            else Inr (False, q1)) = Inr (ok2, q2)" using run by (elim rbind_InrE) (metis surj_pair)
  note run = run [unfolded q2 rbind_Inr prod.case]
  have wf2: "bq_wf q2" using q2 wf1 CheckSkirmish_wf [OF wf1] by (auto split: if_splits)
  show ?thesis
  proof (cases ok2)
    case True
    with run obtain ok3 es3 m3 where "start_match e create t bracket aty m q2 = Inr (ok3, es3, m3, q')"
      by (auto simp: rbind_eq_Inr)
    from start_match_views [OF _ this] wf2 same_views_wf show ?thesis by (auto simp: bq_wf_def)
  next
    case False
    with run wf2 show ?thesis by simp
  qed
qed

lemma BattlegroundQueueUpdate_wf:
  assumes wf: "bq_wf q" and run: "BattlegroundQueueUpdate e create t bracket aty isRated rating m q = Inr (es, m', q')"
  shows "bq_wf q'"
proof (cases "\<forall>j < 4. queue_at bracket j q = []")
  case True
  with run wf show ?thesis by (simp add: BattlegroundQueueUpdate_def)
next
  case False
  note run = run [unfolded BattlegroundQueueUpdate_def if_not_P [OF False]]
  obtain es1 m1 q1 where q1: "update_running e t bracket (bd_BGFreeSlotQueue (bm_data t m)) m q = Inr (es1, m1, q1)"
    using run by (elim rbind_InrE) (metis prod_cases3)
  note run = run [unfolded q1 rbind_Inr prod.case]
  have "keys_ok q" using wf by (simp add: bq_wf_def)
  from update_running_views [OF this q1] have wf1: "bq_wf q1" using wf by (rule same_views_wf)
  show ?thesis
  proof (cases "GetBattlegroundTemplate t m1")
    case None
    with run wf1 show ?thesis by simp
  next
    case (Some tm)
    note run = run [unfolded Some option.case]
    obtain b where b: "bg_at m1 tm = Inr b" using run by (rule rbind_InrE)
    note run = run [unfolded b rbind_Inr]
    show ?thesis
    proof (cases "be_BracketEntry e bracket")
      case False
      with run wf1 show ?thesis by simp
    next
      case True
      define minP where "minP = (if bg_IsArena b then (if bm_ArenaTesting m1 then 1 else ucast aty)
        else if bm_Testing m1 then 1 else bg_MinPlayersPerTeam b)"
      define maxP where "maxP = (if bg_IsArena b then ucast aty else bg_MaxPlayersPerTeam b)"
      note run = run [unfolded if_not_P [OF not_not [THEN iffD2, OF True]] Let_def minP_def [symmetric] maxP_def [symmetric]]
      obtain pre q2 where q2: "(if bg_IsArena b then Inr (False, init_pools q1)
          else CheckPremadeMatch e bracket minP maxP (init_pools q1)) = Inr (pre, q2)"
        using run by (elim rbind_InrE) (metis surj_pair)
      note run = run [unfolded q2 rbind_Inr prod.case]
      have "keys_ok q1" using wf1 by (simp add: bq_wf_def)
      from same_views_wf [OF same_views_pools(2) [OF this] wf1] have wfi: "bq_wf (init_pools q1)" .
      have wf2: "bq_wf q2"
      proof (cases "bg_IsArena b")
        case True
        with q2 wfi show ?thesis by simp
      next
        case False
        then have "CheckPremadeMatch e bracket minP maxP (init_pools q1) = Inr (pre, q2)" using q2 by simp
        from CheckPremadeMatch_wf [OF wfi this] show ?thesis .
      qed
      obtain r where r: "(if pre then rbind (start_match e create t bracket 0 m1 q2) (\<lambda>(ok, es, m, q).
            Inr (ok, es, m, if ok then init_pools q else q)) else Inr (True, [], m1, q2)) = Inr r"
        using run by (rule rbind_InrE)
      obtain ok es3 m3 q3 where "r = (ok, es3, m3, q3)" by (rule prod_cases4)
      note q3 = r [unfolded this]
      note run = run [unfolded q3 rbind_Inr prod.case]
      have wf3: "bq_wf q3"
      proof (cases pre)
        case True
        with q3 obtain ok' es' m' q'' where sm: "start_match e create t bracket 0 m1 q2 = Inr (ok', es', m', q'')"
          and eq: "q3 = (if ok' then init_pools q'' else q'')" by (auto simp: rbind_eq_Inr)
        have "keys_ok q2" using wf2 by (simp add: bq_wf_def)
        from start_match_views [OF this sm] have s: "same_views q2 q''" .
        from same_views_wf [OF s wf2] same_views_wf [OF same_views_pools(2) [OF same_views_keys [OF s]]]
        show ?thesis using eq by (cases ok') simp_all
      next
        case False
        with q3 wf2 show ?thesis by simp
      qed
      show ?thesis
      proof (cases ok)
        case False
        with run wf3 show ?thesis by simp
      next
        case True
        with run obtain es4 m4 where "(if \<not> isRated then update_normal e create tm t bracket aty minP maxP m3 q3
            else if bg_IsArena b then update_rated e create t bracket aty rating m3 q3 else Inr ([], m3, q3)) = Inr (es4, m4, q')"
          by (auto simp: rbind_eq_Inr)
        with wf3 show ?thesis
          using update_normal_wf [OF wf3] update_rated_wf [OF wf3] by (auto split: if_splits)
      qed
    qed
  qed
qed

section \<open>Reachable queues\<close>

text \<open>
  A queue is built by joins, leaves and updates, with any clock, configuration and
  battlegrounds. A new group has at least one player, none of whom is in the queue, as the
  handlers of the join requests check.
\<close>

inductive bq_reachable :: "BattlegroundQueue \<Rightarrow> bool" where
  start: "bq_reachable BattlegroundQueue_new"
| join: "bq_reachable q \<Longrightarrow> bracket < MAX_BATTLEGROUND_BRACKETS \<Longrightarrow> sm_find (bq_heap q) g = None \<Longrightarrow>
     joiners leader grp \<noteq> {} \<Longrightarrow> \<forall>x\<in>joiners leader grp. sm_find (m_QueuedPlayers q) x = None \<Longrightarrow>
     bq_AddGroup e m g raw leader leader_team grp t bracket arenaType isRated isPremade rating mmr teamid q = Inr (es, q') \<Longrightarrow>
     bq_reachable q'"
| leave: "bq_reachable q \<Longrightarrow> mgr_ok m \<Longrightarrow> RemovePlayer e guid d m q = Inr (es, m', q') \<Longrightarrow> bq_reachable q'"
| update: "bq_reachable q \<Longrightarrow>
     BattlegroundQueueUpdate e create t bracket arenaType isRated rating m q = Inr (es, m', q') \<Longrightarrow> bq_reachable q'"

lemma bq_reachable_wf: "bq_reachable q \<Longrightarrow> bq_wf q"
proof (induction rule: bq_reachable.induct)
  case start
  show ?case
    by (simp add: bq_wf_def keys_ok_def players_ok_def queues_ok_def members_def owner_def team_of_def BattlegroundQueue_new_def)
next
  case (join q bracket g leader grp e m raw leader_team t arenaType isRated isPremade rating mmr teamid es q')
  then show ?case using bq_AddGroup_wf by blast
next
  case (leave q m e guid d es m' q')
  from RemovePlayer_total [OF leave.IH leave.hyps(2), of e guid d] leave.hyps(3) show ?case by auto
next
  case (update q e create t bracket arenaType isRated rating m es m' q')
  then show ?case using BattlegroundQueueUpdate_wf by blast
qed

end
