(* ===== verification/BG_Properties.thy ===== *)
theory BG_Properties
  imports BG_Update
begin

text \<open>
  The properties of the battleground queues, with their witnesses.
\<close>

section \<open>A queue and a battleground for the witnesses\<close>

definition ex_env :: bq_env where
  "ex_env = \<lparr>be_MSTime = 5000, be_FindPlayer = (\<lambda>_. True), be_urand = 0, be_ArenaTeam = (\<lambda>_. True), be_IgnoreFaction = False,
     be_ArenaAnnouncer = False, be_QueueAnnouncer = False, be_PlayerOnly = False, be_InvitationType = 1, be_PremadeWait = 1800000,
     be_RatingDiscardTimer = 600000, be_MaxRatingDifference = 150, be_BracketEntry = (\<lambda>_. True)\<rparr>"

definition ex_group :: GroupQueueInfo where
  "ex_group = \<lparr>gq_Players = [], gq_Team = ALLIANCE, gq_BgTypeId = 2, gq_IsRated = False, gq_ArenaType = 0, gq_ArenaTeamId = 0,
     gq_JoinTime = 1000, gq_RemoveInviteTime = 0, gq_Invited = 0, gq_ArenaTeamRating = 0, gq_ArenaMatchmakerRating = 0,
     gq_OpponentsTeamRating = 0, gq_OpponentsMatchmakerRating = 0, gq_RbgMMV = 0, gq_OponentsRbgMMV = 0\<rparr>"

definition ex_bg :: Battleground where
  "ex_bg = \<lparr>bg_TypeID = 2, bg_InstanceID = 7, bg_Status = STATUS_WAIT_JOIN, bg_BracketId = 3, bg_InvitedAlliance = 4, bg_InvitedHorde = 4,
     bg_ArenaType = 0, bg_IsArena = False, bg_IsRated = False, bg_InBGFreeSlotQueue = True, bg_Players = [], bg_MaxPlayersPerTeam = 10,
     bg_MaxPlayers = 20, bg_MinPlayersPerTeam = 2, bg_ArenaTeamIds = (\<lambda>_. 0), bg_ArenaTeamMMR = (\<lambda>_. 0), bg_PlayersCount = (\<lambda>_. 0),
     bg_AllianceAwaitingPlayers = 0, bg_HordeAwaitingPlayers = 0, bg_StartTime = 0, bg_LastResurrectTime = 0\<rparr>"

definition ex_mgr :: BattlegroundMgr where
  "ex_mgr = \<lparr>bm_heap = [(100, ex_bg)], bm_DataStore = [(2, BattlegroundData_new\<lparr>bd_Battlegrounds := [(7, 100)], bd_BGFreeSlotQueue := [100]\<rparr>)],
     bm_Testing = False, bm_ArenaTesting = False\<rparr>"

text \<open>Two players join as a group of the Alliance.\<close>

definition ex_join :: "(bq_effect list \<times> BattlegroundQueue) bq_result" where
  "ex_join = bq_AddGroup ex_env ex_mgr 1 ex_group 11 ALLIANCE (Some [Some 11, Some 12]) 2 3 0 False False 0 0 0 BattlegroundQueue_new"

definition ex_queue :: BattlegroundQueue where
  "ex_queue = (case ex_join of Inr (es, q) \<Rightarrow> q | Inl _ \<Rightarrow> BattlegroundQueue_new)"

lemma ex_join_runs: "\<exists>es. ex_join = Inr (es, ex_queue)"
proof -
  have "\<not> isl ex_join" by code_simp
  then obtain es q where join: "ex_join = Inr (es, q)" by (metis sum.collapse(2) surj_pair)
  have "ex_queue = q" unfolding ex_queue_def join by simp
  with join show ?thesis by blast
qed

lemma ex_queue_reachable: "bq_reachable ex_queue"
proof -
  obtain es where run: "ex_join = Inr (es, ex_queue)" using ex_join_runs by blast
  show ?thesis
    by (rule bq_reachable.join [OF bq_reachable.start _ _ _ _ run [unfolded ex_join_def]])
      (simp_all add: MAX_BATTLEGROUND_BRACKETS_def BattlegroundQueue_new_def joiners_def)
qed

lemma ex_queue_player: "map fst (m_QueuedPlayers ex_queue) = [11, 12]" "m_QueuedGroups ex_queue 3 BG_QUEUE_NORMAL_ALLIANCE = [1]"
  by code_simp+

lemma ex_mgr_ok: "mgr_ok ex_mgr"
  by (simp add: mgr_ok_def ex_mgr_def BattlegroundData_new_def)

lemma ex_bg_at: "bg_at ex_mgr 100 = Inr ex_bg"
  by (simp add: bg_at_def ex_mgr_def)

section \<open>Free slots\<close>

lemma GetFreeSlotsForTeam_room:
  "unat (GetFreeSlotsForTeam team b) \<le> unat (bg_MaxPlayersPerTeam b) - unat (GetInvitedCount team b)"
proof -
  define room where "room = (if GetInvitedCount team b < bg_MaxPlayersPerTeam b
    then bg_MaxPlayersPerTeam b - GetInvitedCount team b else 0)"
  have room: "unat room \<le> unat (bg_MaxPlayersPerTeam b) - unat (GetInvitedCount team b)"
    by (simp add: room_def unat_sub word_le_nat_alt word_less_nat_alt)
  have least: "unat (min (min x room) z) \<le> unat (bg_MaxPlayersPerTeam b) - unat (GetInvitedCount team b)" for x z
    using room by (simp add: min_def word_le_nat_alt)
  show ?thesis
    unfolding GetFreeSlotsForTeam_def Let_def room_def [symmetric]
    by (cases "bg_Status b = STATUS_WAIT_JOIN"; cases "bg_Status b = STATUS_IN_PROGRESS")
      (simp_all only: simp_thms if_True if_False room least unat_0 le0)
qed

lemma free_slots_invited:
  assumes "n \<noteq> 0" and "unat n \<le> unat (GetFreeSlotsForTeam team b)"
  shows "unat (GetInvitedCount team b) + unat (n :: u32) \<le> unat (bg_MaxPlayersPerTeam b)"
proof -
  have "0 < unat n" using assms(1) by (simp add: unat_gt_0)
  with assms(2) GetFreeSlotsForTeam_room [of team b] show ?thesis by linarith
qed

section \<open>Selections\<close>

lemma wf_live:
  assumes "bq_wf q"
  shows "live (bq_heap q) (queue_at b j q)"
proof -
  have qs: "queues_ok (team_of q) (m_QueuedGroups q)" using assms by (simp add: bq_wf_def)
  show ?thesis
    unfolding live_def using queues_okD(4) [OF qs] by (fastforce simp: team_of_def)
qed

lemma pools_after:
  "m_SelectionPools (set_pools pa ph q) TEAM_ALLIANCE = pa" "m_SelectionPools (set_pools pa ph q) TEAM_HORDE = ph"
  "m_SelectionPools (init_pools q) TEAM_ALLIANCE = pool_Init" "m_SelectionPools (init_pools q) TEAM_HORDE = pool_Init"
  "bq_heap (init_pools q) = bq_heap q" "m_QueuedGroups (init_pools q) = m_QueuedGroups q"
  "bq_heap (set_pools pa ph q) = bq_heap q" "m_QueuedGroups (set_pools pa ph q) = m_QueuedGroups q"
  by (simp_all add: set_pools_def init_pools_def set_pool_def TEAM_ALLIANCE_def TEAM_HORDE_def)

lemma fill_pools_ok:
  assumes f: "unat aliFree < 2 ^ 30" "unat hordeFree < 2 ^ 30" and l: "live h ali" "live h horde"
  shows "\<exists>pa ph. fill_pools h itype aliFree hordeFree ali horde pool_Init pool_Init = Inr (pa, ph)
    \<and> pool_ok h ali (unat aliFree) pa \<and> pool_ok h horde (unat hordeFree) ph
    \<and> (itype \<noteq> 0 \<longrightarrow> balanced aliFree hordeFree pa ph)"
proof -
  from add_groups_ok [OF pool_ok_Init l(1) order.refl] obtain usedA restA pa where
    A: "add_groups h aliFree ali pool_Init = Inr (restA, pa)" "ali = usedA @ restA" "pool_ok h ([] @ usedA) (unat aliFree) pa" by blast
  from add_groups_ok [OF pool_ok_Init l(2) order.refl] obtain usedH restH ph where
    H: "add_groups h hordeFree horde pool_Init = Inr (restH, ph)" "horde = usedH @ restH" "pool_ok h ([] @ usedH) (unat hordeFree) ph" by blast
  have pa: "pool_ok h usedA (unat aliFree) pa" and ph: "pool_ok h usedH (unat hordeFree) ph" using A(3) H(3) by simp_all
  show ?thesis
  proof (cases "itype = 0")
    case True
    with A H pool_ok_more [OF pa, of restA] pool_ok_more [OF ph, of restH] show ?thesis by (simp add: fill_pools_def)
  next
    case False
    let ?n = "length ali + length horde"
    have "length (SelectedGroups pa) \<le> length usedA" "length (SelectedGroups ph) \<le> length usedH"
      using pool_ok_length [OF pa] pool_ok_length [OF ph] .
    then have "measure_of ?n restA restH pa ph \<le> (length restA + length restH) * (?n + 1) + ?n"
      unfolding measure_of_def using A(2) H(2) by simp
    also have "\<dots> \<le> ?n * (?n + 1) + ?n" using A(2) H(2) by (intro add_mono mult_le_mono1) simp_all
    also have "\<dots> < fill_fuel ali horde" by (simp add: fill_fuel_def power2_eq_square algebra_simps)
    finally have fuel: "measure_of ?n restA restH pa ph < fill_fuel ali horde" .
    have "live h restA" "live h restH" "length usedA + length usedH + length restA + length restH = ?n"
      using l A(2) H(2) by simp_all
    from balance_ok [OF f pa ph this fuel] A(1,2) H(1,2) False show ?thesis by (auto simp: fill_pools_def)
  qed
qed

text \<open>C6: filling a running battleground always comes to an end, and what it selects is right. Each side gets some
  of its queued groups in the order of the queue, none of them invited yet, and the counter of the pool is the number
  of their players. No side gets more players than it has free slots, so with those already invited
  it stays within the size of a team. When the configuration asks for balanced sides, the free slots
  left differ by at most one, or the pool of the side with less room is empty.\<close>

theorem FillPlayersToBG_selects:
  assumes "bq_reachable q" and bg: "bg_at m a = Inr b" and size: "unat (bg_MaxPlayersPerTeam b) < 2 ^ 30"
  shows "\<exists>pa ph. FillPlayersToBG e a bracket m (init_pools q) = Inr (set_pools pa ph (init_pools q))
    \<and> pool_ok (bq_heap q) (queue_at bracket BG_QUEUE_NORMAL_ALLIANCE q) (unat (GetFreeSlotsForTeam ALLIANCE b)) pa
    \<and> pool_ok (bq_heap q) (queue_at bracket BG_QUEUE_NORMAL_HORDE q) (unat (GetFreeSlotsForTeam HORDE b)) ph
    \<and> (PlayerCount pa \<noteq> 0 \<longrightarrow> unat (GetInvitedCount ALLIANCE b) + unat (PlayerCount pa) \<le> unat (bg_MaxPlayersPerTeam b))
    \<and> (PlayerCount ph \<noteq> 0 \<longrightarrow> unat (GetInvitedCount HORDE b) + unat (PlayerCount ph) \<le> unat (bg_MaxPlayersPerTeam b))
    \<and> (be_InvitationType e \<noteq> 0 \<longrightarrow> balanced (GetFreeSlotsForTeam ALLIANCE b) (GetFreeSlotsForTeam HORDE b) pa ph)"
proof -
  note wf = bq_reachable_wf [OF assms(1)]
  have free: "unat (GetFreeSlotsForTeam t b) < 2 ^ 30" for t
    using GetFreeSlotsForTeam_room [of t b] size by linarith
  from fill_pools_ok [OF free free wf_live [OF wf, of bracket BG_QUEUE_NORMAL_ALLIANCE] wf_live [OF wf, of bracket BG_QUEUE_NORMAL_HORDE],
      of "be_InvitationType e" ALLIANCE HORDE] obtain pa ph where
    run: "fill_pools (bq_heap q) (be_InvitationType e) (GetFreeSlotsForTeam ALLIANCE b) (GetFreeSlotsForTeam HORDE b)
      (queue_at bracket BG_QUEUE_NORMAL_ALLIANCE q) (queue_at bracket BG_QUEUE_NORMAL_HORDE q) pool_Init pool_Init = Inr (pa, ph)"
    and ok: "pool_ok (bq_heap q) (queue_at bracket BG_QUEUE_NORMAL_ALLIANCE q) (unat (GetFreeSlotsForTeam ALLIANCE b)) pa"
      "pool_ok (bq_heap q) (queue_at bracket BG_QUEUE_NORMAL_HORDE q) (unat (GetFreeSlotsForTeam HORDE b)) ph"
    and bal: "be_InvitationType e \<noteq> 0 \<longrightarrow> balanced (GetFreeSlotsForTeam ALLIANCE b) (GetFreeSlotsForTeam HORDE b) pa ph" by blast
  have "unat (GetInvitedCount t b) + unat (PlayerCount p) \<le> unat (bg_MaxPlayersPerTeam b)"
    if "pool_ok (bq_heap q) gs (unat (GetFreeSlotsForTeam t b)) p" "PlayerCount p \<noteq> 0" for t p gs
    using that(1) by (intro free_slots_invited [OF that(2)]) (simp add: pool_ok_def)
  moreover have "FillPlayersToBG e a bracket m (init_pools q) = Inr (set_pools pa ph (init_pools q))"
    by (simp add: FillPlayersToBG_def bg pools_after run)
  ultimately show ?thesis using ok bal by blast
qed

theorem FillPlayersToBG_selects_witness:
  "\<exists>pa ph. FillPlayersToBG ex_env 100 3 ex_mgr (init_pools ex_queue) = Inr (set_pools pa ph (init_pools ex_queue))
    \<and> subseq (SelectedGroups pa) [1] \<and> (PlayerCount pa \<noteq> 0 \<longrightarrow> 4 + unat (PlayerCount pa) \<le> 10)"
proof -
  have "unat (bg_MaxPlayersPerTeam ex_bg) < 2 ^ 30" "unat (GetInvitedCount ALLIANCE ex_bg) = 4" "unat (bg_MaxPlayersPerTeam ex_bg) = 10"
    by (simp_all add: ex_bg_def GetInvitedCount_def)
  with FillPlayersToBG_selects [OF ex_queue_reachable ex_bg_at this(1), of ex_env 3] show ?thesis
    by (auto simp: pool_ok_def ex_queue_player)
qed

text \<open>C17: the check for a new battleground never runs off its queues, provided it needs at least one player
  per side, as the comment on its iterator presumes. A positive answer means that both pools have enough players
  (or the server is in testing mode), taken from the queues in order and not above the size of
  a team, and that the sides, where balanced sides are configured and both have enough, differ by at most two players.\<close>

theorem CheckNormalMatch_fair:
  assumes "bq_reachable q" and bg: "bg_at m template = Inr b" and min: "0 < minPlayers" and max: "unat maxPlayers < 2 ^ 30"
  shows "\<exists>ok pa ph. CheckNormalMatch e template bracket minPlayers maxPlayers m (init_pools q) =
      Inr (ok, set_pools pa ph (init_pools q))
    \<and> pool_ok (bq_heap q) (queue_at bracket BG_QUEUE_NORMAL_ALLIANCE q) (unat maxPlayers) pa
    \<and> pool_ok (bq_heap q) (queue_at bracket BG_QUEUE_NORMAL_HORDE q) (unat maxPlayers) ph
    \<and> (ok \<longrightarrow> fair_match (bm_Testing m \<and> \<not> bg_IsArena b) (be_InvitationType e) minPlayers pa ph)"
proof -
  note wf = bq_reachable_wf [OF assms(1)]
  from match_pools_ok [OF wf_live [OF wf, of bracket BG_QUEUE_NORMAL_ALLIANCE] wf_live [OF wf, of bracket BG_QUEUE_NORMAL_HORDE] min max,
      of "bm_Testing m \<and> \<not> bg_IsArena b" "be_InvitationType e"] obtain ok pa ph where
    "match_pools (bq_heap q) (bm_Testing m \<and> \<not> bg_IsArena b) (be_InvitationType e) minPlayers maxPlayers
      (queue_at bracket BG_QUEUE_NORMAL_ALLIANCE q) (queue_at bracket BG_QUEUE_NORMAL_HORDE q) pool_Init pool_Init = Inr (ok, pa, ph)"
    and ok: "pool_ok (bq_heap q) (queue_at bracket BG_QUEUE_NORMAL_ALLIANCE q) (unat maxPlayers) pa"
      "pool_ok (bq_heap q) (queue_at bracket BG_QUEUE_NORMAL_HORDE q) (unat maxPlayers) ph"
      "ok \<longrightarrow> fair_match (bm_Testing m \<and> \<not> bg_IsArena b) (be_InvitationType e) minPlayers pa ph" by blast
  then have "CheckNormalMatch e template bracket minPlayers maxPlayers m (init_pools q) = Inr (ok, set_pools pa ph (init_pools q))"
    by (simp add: CheckNormalMatch_def bg pools_after)
  with ok show ?thesis by blast
qed

theorem CheckNormalMatch_fair_witness:
  "\<exists>ok pa ph. CheckNormalMatch ex_env 100 3 2 10 ex_mgr (init_pools ex_queue) = Inr (ok, set_pools pa ph (init_pools ex_queue))
    \<and> (ok \<longrightarrow> fair_match False 1 2 pa ph)"
proof -
  have "\<not> (bm_Testing ex_mgr \<and> \<not> bg_IsArena ex_bg)" "be_InvitationType ex_env = 1"
    by (simp_all add: ex_mgr_def ex_env_def)
  with CheckNormalMatch_fair [OF ex_queue_reachable ex_bg_at, of 2 10 ex_env 3] show ?thesis by auto
qed

text \<open>C5: the records of a battleground queue stay consistent whatever joins, leaves and updates happen,
  in any order and under any clock and configuration. Every queued player points to one live group that lists him; every group has
  players, all queued for it, and stands in exactly one queue of its bracket, on its side; the queues hold
  no deleted group. So a lookup of a player never follows a dangling pointer.\<close>

theorem bq_reachable_consistent:
  assumes "bq_reachable q"
  shows "bq_wf q \<and> (\<exists>ok. IsPlayerInvited guid inst removeTime q = Inr ok) \<and> (\<exists>i. GetPlayerGroupInfoData guid q = Inr i)"
proof -
  note wf = bq_reachable_wf [OF assms]
  show ?thesis
  proof (cases "sm_find (m_QueuedPlayers q) guid")
    case None
    then have "IsPlayerInvited guid inst removeTime q = Inr False" "GetPlayerGroupInfoData guid q = Inr None"
      by (simp_all add: IsPlayerInvited_def GetPlayerGroupInfoData_def)
    with wf show ?thesis by blast
  next
    case (Some p)
    from owned [OF wf Some] Some wf show ?thesis by (auto simp: IsPlayerInvited_def GetPlayerGroupInfoData_def)
  qed
qed

theorem bq_reachable_consistent_witness: "\<exists>ok. IsPlayerInvited 12 0 0 ex_queue = Inr ok"
  using bq_reachable_consistent [OF ex_queue_reachable] by blast

text \<open>C15: a player who leaves the queue is out of it, whatever the state of the battleground he is invited to. The
  recursion that makes a rated team leave together ends, and it takes out exactly the rest of the team: everyone of a
  rated group that is not invited yet, and only the player himself otherwise. All others keep their group.\<close>

theorem RemovePlayer_leaves:
  assumes "bq_reachable q" and "mgr_ok m"
  shows "\<exists>es m' q'. RemovePlayer e guid d m q = Inr (es, m', q') \<and> mgr_ok m' \<and> bq_wf q'
    \<and> sm_find (m_QueuedPlayers q') guid = None
    \<and> (\<forall>x. owner q' x = (if x \<in> leavers q guid then None else owner q x))"
proof -
  note wf = bq_reachable_wf [OF assms(1)]
  from RemovePlayer_total [OF wf assms(2)] obtain es m' q' where
    run: "RemovePlayer e guid d m q = Inr (es, m', q')" "bq_wf q'" "mgr_ok m'"
      "owner q' = (\<lambda>x. if x \<in> leavers q guid then None else owner q x)" by blast
  have "owner q' guid = None"
  proof (cases "sm_find (m_QueuedPlayers q) guid")
    case None
    then show ?thesis by (simp add: run(4) owner_def)
  next
    case (Some p)
    from owned [OF wf Some] Some have "guid \<in> leavers q guid" by (auto simp: leavers_def)
    then show ?thesis by (simp add: run(4))
  qed
  then have "sm_find (m_QueuedPlayers q') guid = None" by (simp add: owner_def)
  with run show ?thesis by simp
qed

theorem RemovePlayer_leaves_witness:
  "\<exists>es m' q'. sm_find (m_QueuedPlayers ex_queue) 11 \<noteq> None \<and> RemovePlayer ex_env 11 True ex_mgr ex_queue = Inr (es, m', q')
    \<and> sm_find (m_QueuedPlayers q') 11 = None"
proof -
  have "11 \<in> fst ` set (m_QueuedPlayers ex_queue)" using ex_queue_player(1) by (metis list.set_intros(1) list.set_map)
  then have "sm_find (m_QueuedPlayers ex_queue) 11 \<noteq> None" by (simp add: sm_find_None)
  with RemovePlayer_leaves [OF ex_queue_reachable ex_mgr_ok, of ex_env 11 True] show ?thesis by blast
qed

section \<open>Waiting times\<close>













section \<open>Ids shown to clients\<close>

lemma CreateClientVisibleInstanceId_result:
  assumes "sm_inv (bm_DataStore m)" and "\<not> IsArenaType t"
  shows "\<exists>m'. CreateClientVisibleInstanceId t bracket m =
      (case bd_ClientBattlegroundIds (bm_data t m) bracket of [] \<Rightarrow> 1 | x # _ \<Rightarrow> if x = 1 then 3 else 2, m')
    \<and> sm_inv (bm_DataStore m')
    \<and> bd_ClientBattlegroundIds (bm_data t m') bracket =
        ss_insert (case bd_ClientBattlegroundIds (bm_data t m) bracket of [] \<Rightarrow> 1 | x # _ \<Rightarrow> if x = 1 then 3 else 2)
          (bd_ClientBattlegroundIds (bm_data t m) bracket)"
proof -
  have loop: "client_id_loop x 0 + 1 = (if x = 1 then 3 else 2)" for x
    by (simp add: client_id_loop.simps [of x 0] client_id_loop.simps [of 1 1] Let_def)
  show ?thesis
    using assms
    by (cases "bd_ClientBattlegroundIds (bm_data t m) bracket")
      (simp_all add: CreateClientVisibleInstanceId_def Let_def loop bm_set_data_def bm_data_def sm_at_def)
qed

lemma client_ids_three:
  assumes "sm_inv (bm_DataStore m)" and "\<not> IsArenaType t"
    and "bd_ClientBattlegroundIds (bm_data t m) bracket \<in> {[1], [1, 3]}"
  shows "client_ids n t bracket m = replicate n 3"
  using assms(1,3)
proof (induction n arbitrary: m)
  case (Suc n)
  from CreateClientVisibleInstanceId_result [OF Suc.prems(1) assms(2), of bracket] Suc.prems(2) obtain m' where
    "CreateClientVisibleInstanceId t bracket m = (3, m')" "sm_inv (bm_DataStore m')"
    "bd_ClientBattlegroundIds (bm_data t m') bracket = [1, 3]" by auto
  with Suc.IH [of m'] show ?case by simp
qed simp

text \<open>The ids that battlegrounds of one type and bracket show to the clients are not unique: the first
  one gets 1, and every later one 3. The loop that looks for the lowest free id never advances its
  iterator, so it compares with the first used id only.\<close>

theorem client_ids_repeat:
  assumes "sm_inv (bm_DataStore m)" and "\<not> IsArenaType t" and "bd_ClientBattlegroundIds (bm_data t m) bracket = []"
  shows "client_ids (Suc n) t bracket m = 1 # replicate n 3"
proof -
  from CreateClientVisibleInstanceId_result [OF assms(1,2), of bracket] assms(3) obtain m' where
    new: "CreateClientVisibleInstanceId t bracket m = (1, m')" "sm_inv (bm_DataStore m')"
    "bd_ClientBattlegroundIds (bm_data t m') bracket = [1]" by auto
  with client_ids_three [OF new(2) assms(2), of bracket n] show ?thesis by simp
qed

theorem client_ids_repeat_witness: "client_ids 4 2 3 ex_mgr = [1, 3, 3, 3]"
proof -
  have "sm_inv (bm_DataStore ex_mgr)" "\<not> IsArenaType 2" "bd_ClientBattlegroundIds (bm_data 2 ex_mgr) 3 = []"
    by (simp_all add: ex_mgr_def IsArenaType_def BATTLEGROUND_AA_def bm_data_def sm_at_def BattlegroundData_new_def)
  from client_ids_repeat [OF this, of 3] show ?thesis by (simp add: numeral_eq_Suc)
qed

section \<open>Premade groups and skirmishes\<close>

text \<open>Until the server has been up as long as a premade group should wait for another one (half an
  hour by default), a premade group without opponents is moved to the normal queue at the first update, even in the
  moment it joins: the start of the waiting time is computed modulo 2^32 and lies in the future.\<close>

theorem premade_moves_early:
  assumes ali: "queue_at bracket BG_QUEUE_PREMADE_ALLIANCE q = g # gs" and horde: "queue_at bracket BG_QUEUE_PREMADE_HORDE q = []"
    and i: "group_at (bq_heap q) g = Inr i" "gq_Invited i = 0"
    and joined: "gq_JoinTime i \<le> be_MSTime e" and up: "be_MSTime e < be_PremadeWait e" "unat (be_PremadeWait e) < 2 ^ 31"
  shows "CheckPremadeMatch e bracket minPlayers maxPlayers q =
    Inr (False, moved bracket BG_QUEUE_PREMADE_ALLIANCE BG_QUEUE_NORMAL_ALLIANCE g gs q)"
proof -
  have "unat (be_MSTime e - be_PremadeWait e) = 2 ^ 32 + unat (be_MSTime e) - unat (be_PremadeWait e)"
    using up(1) by (simp add: unat_sub_if' word_less_nat_alt)
  then have "unat (be_MSTime e) < unat (be_MSTime e - be_PremadeWait e)"
    using up(2) by simp
  then have "gq_JoinTime i < be_MSTime e - be_PremadeWait e"
    using joined by (simp add: word_less_nat_alt word_le_nat_alt)
  then have "premade_to_normal (be_MSTime e - be_PremadeWait e) minPlayers bracket TEAM_ALLIANCE q =
      Inr (moved bracket BG_QUEUE_PREMADE_ALLIANCE BG_QUEUE_NORMAL_ALLIANCE g gs q)"
    using ali i by (simp add: premade_to_normal_def TEAM_ALLIANCE_def moved_def)
  moreover have "premade_to_normal t n bracket TEAM_HORDE (moved bracket BG_QUEUE_PREMADE_ALLIANCE BG_QUEUE_NORMAL_ALLIANCE g gs q) =
      Inr (moved bracket BG_QUEUE_PREMADE_ALLIANCE BG_QUEUE_NORMAL_ALLIANCE g gs q)" for t n
    using horde
    by (simp add: premade_to_normal_def TEAM_HORDE_def set2_apply BG_QUEUE_PREMADE_ALLIANCE_def BG_QUEUE_NORMAL_ALLIANCE_def
        BG_QUEUE_PREMADE_HORDE_def)
  ultimately show ?thesis using horde by (simp add: CheckPremadeMatch_def Let_def)
qed

text \<open>Two players join together as a premade group while the clock shows five seconds.\<close>

definition ex_premade :: BattlegroundQueue where
  "ex_premade = set_queue 3 BG_QUEUE_PREMADE_ALLIANCE [1] (set_group 1 (ex_group\<lparr>gq_Players := [11, 12], gq_JoinTime := 5000\<rparr>) BattlegroundQueue_new)"

theorem premade_moves_early_witness:
  "\<exists>q'. CheckPremadeMatch ex_env 3 2 10 ex_premade = Inr (False, q') \<and> queue_at 3 BG_QUEUE_NORMAL_ALLIANCE q' = [1]"
proof -
  have ali: "queue_at 3 BG_QUEUE_PREMADE_ALLIANCE ex_premade = 1 # []" and horde: "queue_at 3 BG_QUEUE_PREMADE_HORDE ex_premade = []"
    and normal: "queue_at 3 BG_QUEUE_NORMAL_ALLIANCE ex_premade = []"
    and i: "group_at (bq_heap ex_premade) 1 = Inr (ex_group\<lparr>gq_Players := [11, 12], gq_JoinTime := 5000\<rparr>)"
    by (simp_all add: ex_premade_def set_queue_def set_group_def BattlegroundQueue_new_def BG_QUEUE_PREMADE_ALLIANCE_def
        BG_QUEUE_PREMADE_HORDE_def BG_QUEUE_NORMAL_ALLIANCE_def group_at_def)
  have "gq_Invited (ex_group\<lparr>gq_Players := [11, 12], gq_JoinTime := 5000\<rparr>) = 0"
    "gq_JoinTime (ex_group\<lparr>gq_Players := [11, 12], gq_JoinTime := 5000\<rparr>) \<le> be_MSTime ex_env"
    "be_MSTime ex_env < be_PremadeWait ex_env" "unat (be_PremadeWait ex_env) < 2 ^ 31"
    by (simp_all add: ex_group_def ex_env_def)
  from premade_moves_early [OF ali horde i this, of 2 10] normal show ?thesis
    by (simp add: set2_apply BG_QUEUE_PREMADE_ALLIANCE_def BG_QUEUE_NORMAL_ALLIANCE_def)
qed

text \<open>A skirmish between two teams of the Alliance whose second team consists of several groups is never
  started in a defined way: after the first group has been erased from the queue, the loop goes on with an iterator that
  the removal has invalidated.\<close>

theorem skirmish_invalid_iterator:
  assumes reach: "bq_reachable q0" and q: "q = set_pools pa ph q0"
    and enough: "minPlayers \<le> PlayerCount pa" "PlayerCount ph \<noteq> minPlayers"
    and sel: "SelectedGroups pa = sel @ [g0]" "queue_at bracket BG_QUEUE_NORMAL_ALLIANCE q0 = before' @ g0 # behind"
    and second: "add_uninvited (bq_heap q0) minPlayers behind pool_Init = Inr p" "PlayerCount p = minPlayers"
      "SelectedGroups p = g # g' # gs"
  shows "CheckSkirmishForSameFaction bracket minPlayers q = Inl InvalidIterator"
proof -
  let ?queue = "queue_at bracket BG_QUEUE_NORMAL_ALLIANCE q0"
  note wf = bq_reachable_wf [OF reach]
  have qs: "queues_ok (team_of q0) (m_QueuedGroups q0)" and keys: "keys_ok q0" using wf by (simp_all add: bq_wf_def)
  have d: "distinct ?queue" using queues_okD(1) [OF qs] .
  then have notin: "g0 \<notin> set before'" using sel(2) by simp
  have "takeWhile (\<lambda>x. x \<noteq> g0) (xs @ g0 # behind) = xs" if "g0 \<notin> set xs" for xs using that by (induction xs) simp_all
  from this [OF notin] have passed: "takeWhile (\<lambda>x. x \<noteq> g0) ?queue = before'" by (simp add: sel(2))
  have behind: "drop (Suc (length before')) ?queue = behind" using sel(2) by simp
  define q1 where "q1 = set_pool TEAM_HORDE p (set_pool TEAM_HORDE pool_Init q)"
  have same: "bq_heap q1 = bq_heap q0" "m_QueuedGroups q1 = m_QueuedGroups q0"
    by (simp_all add: q1_def q set_pools_def set_pool_def)
  from add_uninvited_subseq [OF second(1)] have sub: "subseq (g # g' # gs) behind" by (auto simp: second(3) pool_Init_def)
  have live: "sm_find (bq_heap q0) x \<noteq> None" if "x \<in> {g, g'}" for x
  proof -
    have "x \<in> set behind" using that subseq_in [OF sub] by auto
    with wf_live [OF wf, of bracket BG_QUEUE_NORMAL_ALLIANCE] show ?thesis by (auto simp: live_def sel(2))
  qed
  have two: "switch_side bracket TEAM_ALLIANCE TEAM_HORDE HORDE (Suc (length before')) True (g # g' # gs) q1 = Inl InvalidIterator"
    by (rule switch_side_two) (use sub d live keys in \<open>simp_all add: same behind TEAM_ALLIANCE_def TEAM_HORDE_def keys_ok_def\<close>)
  have pools: "m_SelectionPools q TEAM_ALLIANCE = pa" "m_SelectionPools q TEAM_HORDE = ph"
    "m_SelectionPools (set_pool TEAM_HORDE pool_Init q) TEAM_ALLIANCE = pa"
    "m_QueuedGroups (set_pool TEAM_HORDE pool_Init q) = m_QueuedGroups q0" "bq_heap (set_pool TEAM_HORDE pool_Init q) = bq_heap q0"
    "m_QueuedGroups q = m_QueuedGroups q0"
    by (simp_all add: q set_pools_def set_pool_def TEAM_ALLIANCE_def TEAM_HORDE_def)
  have index: "BG_QUEUE_NORMAL_ALLIANCE + TEAM_ALLIANCE = BG_QUEUE_NORMAL_ALLIANCE" by (simp add: TEAM_ALLIANCE_def)
  have "last (SelectedGroups pa) = g0" "SelectedGroups pa \<noteq> []" "g0 \<in> set ?queue" using sel by simp_all
  then show ?thesis
    using enough second two not_less [of "PlayerCount pa" minPlayers]
    by (simp add: CheckSkirmishForSameFaction_def Let_def pools index passed behind q1_def [symmetric] del: switch_side.simps)
qed

text \<open>Three groups of the Alliance for a skirmish of two against two: a pair and two single players.\<close>

definition ex_solo :: "nat \<Rightarrow> u64 \<Rightarrow> BattlegroundQueue \<Rightarrow> (bq_effect list \<times> BattlegroundQueue) bq_result" where
  "ex_solo g guid = bq_AddGroup ex_env ex_mgr g ex_group guid ALLIANCE None BATTLEGROUND_AA 3 2 False False 0 0 0"

lemma ex_solo_reachable:
  assumes "bq_reachable q" and "sm_find (bq_heap q) g = None" and "sm_find (m_QueuedPlayers q) guid = None"
    and run: "ex_solo g guid q = Inr (es, q')"
  shows "bq_reachable q'"
  by (rule bq_reachable.join [OF assms(1) _ assms(2) _ _ run [unfolded ex_solo_def]])
    (simp_all add: MAX_BATTLEGROUND_BRACKETS_def joiners_def assms(3))

definition ex_three :: BattlegroundQueue where
  "ex_three = (case rbind (ex_solo 2 13 ex_queue) (\<lambda>(_, q). ex_solo 3 14 q) of Inr (es, q) \<Rightarrow> q | Inl _ \<Rightarrow> BattlegroundQueue_new)"

lemma ex_three_reachable: "bq_reachable ex_three"
proof -
  have "\<not> isl (rbind (ex_solo 2 13 ex_queue) (\<lambda>(_, q). ex_solo 3 14 q))" by code_simp
  then obtain r where join: "rbind (ex_solo 2 13 ex_queue) (\<lambda>(_, q). ex_solo 3 14 q) = Inr r"
    by (metis sum.collapse(2))
  then obtain es1 q1 where one: "ex_solo 2 13 ex_queue = Inr (es1, q1)" by (elim rbind_InrE) (metis surj_pair)
  obtain es2 q2 where r: "r = (es2, q2)" by fastforce
  have two: "ex_solo 3 14 q1 = Inr (es2, q2)" using join unfolding one r by simp
  have q2: "ex_three = q2" unfolding ex_three_def join r by simp
  have "sm_find (bq_heap ex_queue) 2 = None" "sm_find (m_QueuedPlayers ex_queue) 13 = None" by code_simp+
  from ex_solo_reachable [OF ex_queue_reachable this one] have reach: "bq_reachable q1" .
  have "case ex_solo 2 13 ex_queue of Inr (es, q) \<Rightarrow> sm_find (bq_heap q) 3 = None \<and> sm_find (m_QueuedPlayers q) 14 = None
      | Inl _ \<Rightarrow> False" by code_simp
  then have "sm_find (bq_heap q1) 3 = None" "sm_find (m_QueuedPlayers q1) 14 = None" unfolding one by simp_all
  from ex_solo_reachable [OF reach this two] show ?thesis unfolding q2 .
qed

definition ex_pool :: selection_pool where
  "ex_pool = \<lparr>SelectedGroups = [1], PlayerCount = 2\<rparr>"

definition ex_second :: "selection_pool bq_result" where
  "ex_second = add_uninvited (bq_heap ex_three) 2 [2, 3] pool_Init"

theorem skirmish_invalid_iterator_witness:
  "CheckSkirmishForSameFaction 3 2 (set_pools ex_pool pool_Init ex_three) = Inl InvalidIterator"
proof -
  have "case ex_second of Inr p \<Rightarrow> PlayerCount p = 2 \<and> SelectedGroups p = [2, 3] | Inl _ \<Rightarrow> False" by code_simp
  then obtain p where "ex_second = Inr p" "PlayerCount p = 2" "SelectedGroups p = 2 # 3 # []"
    by (auto split: sum.splits)
  note second = this [unfolded ex_second_def]
  have "queue_at 3 BG_QUEUE_NORMAL_ALLIANCE ex_three = [1, 2, 3]" by code_simp
  then have queue: "queue_at 3 BG_QUEUE_NORMAL_ALLIANCE ex_three = [] @ 1 # [2, 3]" by simp
  have sel: "SelectedGroups ex_pool = [] @ [1]" and "2 \<le> PlayerCount ex_pool" "PlayerCount pool_Init \<noteq> 2"
    by (simp_all add: ex_pool_def pool_Init_def)
  from skirmish_invalid_iterator [OF ex_three_reachable refl this(2,3) sel queue second] show ?thesis .
qed

end
