(* ===== verification/Group_State.thy ===== *)
theory Group_State
  imports Std_Map Object_Guid
begin

text \<open>
  Parties and raids (\<^verbatim>\<open>src/src/server/game/Groups/Group.h\<close> and \<^verbatim>\<open>.cpp\<close>): the data of a group, of
  the players as far as groups concern them, and of the store of groups
  (\<^verbatim>\<open>src/src/server/game/Groups/GroupMgr.cpp\<close>); the references between groups and players; the
  accessors, subgroup counters, member flags and target icons; the packets sent to members.

  Groups are shared objects: a player's references, a pending invitation and the group store
  point to them, and a group deletes itself. They live in a heap \<open>gw_groups\<close>, a pointer being
  its address; a call through a pointer to a deleted group is the error \<open>DanglingGroup\<close>. (The
  two references of a player are emptied by the destructor of the group, so calls through them
  are not checked; \<open>link_ok\<close> in \<open>Group_Invariant\<close> shows that they never dangle.) Packets,
  database statements and calls to parts outside the model are appended to \<open>gw_out\<close>. A packet is
  its opcode and the bytes written, as \<open>wp_put_word\<close> and \<open>wp_put_string\<close> (\<open>WorldPacket\<close>) show
  the stream operators to write them; with at most a few dozen members no packet comes near
  the size at which \<open>ByteBuffer\<close> aborts. A \<^verbatim>\<open>Player\<close> object always has its session, which its
  constructor sets, so the tests for a missing session are true.
\<close>

section \<open>Constants\<close>

definition MAXRAIDSIZE :: nat where "MAXRAIDSIZE = 40"
definition MAX_RAID_SUBGROUPS :: nat where "MAX_RAID_SUBGROUPS = 8"
definition TARGETICONCOUNT :: nat where "TARGETICONCOUNT = 8"

datatype RollVote = PASS | NEED | GREED | DISENCHANT | NOT_EMITED_YET | NOT_VALID

definition MEMBER_STATUS_OFFLINE :: u8 where "MEMBER_STATUS_OFFLINE = 0"
definition MEMBER_STATUS_ONLINE :: u8 where "MEMBER_STATUS_ONLINE = 1"
definition MEMBER_STATUS_PVP :: u8 where "MEMBER_STATUS_PVP = 2"

definition MEMBER_FLAG_ASSISTANT :: u8 where "MEMBER_FLAG_ASSISTANT = 1"
definition MEMBER_FLAG_MAINTANK :: u8 where "MEMBER_FLAG_MAINTANK = 2"
definition MEMBER_FLAG_MAINASSIST :: u8 where "MEMBER_FLAG_MAINASSIST = 4"

definition GROUPTYPE_NORMAL :: u8 where "GROUPTYPE_NORMAL = 0"
definition GROUPTYPE_RAID :: u8 where "GROUPTYPE_RAID = 2"
definition GROUPTYPE_BGRAID :: u8 where "GROUPTYPE_BGRAID = 3"
definition GROUPTYPE_UNK1 :: u8 where "GROUPTYPE_UNK1 = 4"
definition GROUPTYPE_LFG :: u8 where "GROUPTYPE_LFG = 8"

definition FREE_FOR_ALL :: u32 where "FREE_FOR_ALL = 0"
definition MASTER_LOOT :: u32 where "MASTER_LOOT = 2"
definition GROUP_LOOT :: u32 where "GROUP_LOOT = 3"
definition NEED_BEFORE_GREED :: u32 where "NEED_BEFORE_GREED = 4"
definition ITEM_QUALITY_UNCOMMON :: u32 where "ITEM_QUALITY_UNCOMMON = 2"

definition SMSG_GROUP_LIST :: u32 where "SMSG_GROUP_LIST = 0x4C24"
definition SMSG_GROUP_UNINVITE :: u32 where "SMSG_GROUP_UNINVITE = 0x0A07"
definition SMSG_GROUP_DESTROYED :: u32 where "SMSG_GROUP_DESTROYED = 0x2207"
definition SMSG_GROUP_SET_LEADER :: u32 where "SMSG_GROUP_SET_LEADER = 0x0526"
definition SMSG_GROUP_DECLINE :: u32 where "SMSG_GROUP_DECLINE = 0x6835"
definition SMSG_PARTY_COMMAND_RESULT :: u32 where "SMSG_PARTY_COMMAND_RESULT = 0x6E07"
definition MSG_RAID_TARGET_UPDATE :: u32 where "MSG_RAID_TARGET_UPDATE = 0x2C36"
definition SMSG_RAID_MARKERS_CHANGED :: u32 where "SMSG_RAID_MARKERS_CHANGED = 0x10A1"
definition MSG_RAID_READY_CHECK :: u32 where "MSG_RAID_READY_CHECK = 0x2304"
definition MSG_RAID_READY_CHECK_CONFIRM :: u32 where "MSG_RAID_READY_CHECK_CONFIRM = 0x4F05"

section \<open>Data\<close>

record MemberSlot =
  slot_guid :: u64
  slot_name :: "u8 list"
  slot_group :: u8
  slot_flags :: u8
  slot_roles :: u8

record Roll =
  itemGUID :: u64
  roll_itemid :: u32
  itemRandomPropId :: u32
  itemRandomSuffix :: u32
  itemCount :: u8
  playerVote :: "(u64, RollVote) std_map"
  totalPlayersRolling :: u8
  totalNeed :: u8
  totalGreed :: u8
  totalPass :: u8
  itemSlot :: u8
  rollVoteMask :: u8
  roll_loot :: "nat option"

text \<open>A player has two references to groups: \<^verbatim>\<open>m_group\<close> and \<^verbatim>\<open>m_originalGroup\<close>.\<close>

datatype ref_kind = GroupRef | OriginalGroupRef

record group =
  m_memberSlots :: "MemberSlot list"
  m_memberMgr :: "(u64 \<times> ref_kind) list"
  m_invitees :: "u64 std_set"
  m_leaderGuid :: u64
  m_leaderName :: "u8 list"
  m_groupType :: u8
  m_markerMask :: u32
  m_dungeonDifficulty :: u32
  m_raidDifficulty :: u32
  m_bgGroup :: "nat option"
  m_bfGroup :: "nat option"
  m_targetIcons :: "u64 list"
  m_lootMethod :: u32
  m_lootThreshold :: u32
  m_looterGuid :: u64
  RollId :: "Roll list"
  m_subGroupsCounts :: "u8 list option"
  g_guid :: u64
  m_counter :: u32
  m_maxEnchantingLevel :: u32
  m_dbStoreId :: u32
  m_dynObj :: "u64 list"

text \<open>
  The constructor. It does not initialise \<^verbatim>\<open>m_markerMask\<close>: the value found in memory is an
  argument.
\<close>

definition group_new :: "u32 \<Rightarrow> group" where
  "group_new garbage =
     \<lparr>m_memberSlots = [], m_memberMgr = [], m_invitees = [], m_leaderGuid = 0, m_leaderName = [],
      m_groupType = GROUPTYPE_NORMAL, m_markerMask = garbage, m_dungeonDifficulty = 0,
      m_raidDifficulty = 0, m_bgGroup = None, m_bfGroup = None,
      m_targetIcons = replicate TARGETICONCOUNT 0, m_lootMethod = FREE_FOR_ALL,
      m_lootThreshold = ITEM_QUALITY_UNCOMMON, m_looterGuid = 0, RollId = [],
      m_subGroupsCounts = None, g_guid = 0, m_counter = 0, m_maxEnchantingLevel = 0,
      m_dbStoreId = 0, m_dynObj = []\<rparr>"

text \<open>
  A reference keeps its subgroup number when it is unlinked, so the numbers are fields of
  their own.
\<close>

record gplayer =
  gp_name :: "u8 list"
  gp_inWorld :: bool
  m_group :: "nat option"
  gp_subGroup :: u8
  m_originalGroup :: "nat option"
  gp_originalSubGroup :: u8
  m_groupInvite :: "nat option"
  m_InstanceValid :: bool
  gp_dungeonDifficulty :: u32
  gp_raidDifficulty :: u32
  m_bPassOnGroupLoot :: bool

record loot_item =
  li_itemid :: u32
  li_randomSuffix :: u32
  li_randomPropertyId :: u32
  li_count :: u8
  is_looted :: bool
  is_blocked :: bool
  freeforall :: bool
  is_underthreshold :: bool
  follow_loot_rules :: bool

record loot =
  loot_items :: "loot_item list"
  quest_items :: "loot_item list"
  unlootedCount :: u8
  PlayersLooting :: "u64 std_set"

record group_mgr =
  NextGroupDbStoreId :: u32
  NextGroupId :: u32
  GroupDbStore :: "nat option list"
  GroupStore :: "(u32, nat) std_map"

datatype group_sql =
    InsertGroup u32 u32 u32 u32 u32 "u64 list" u8 u32 u32
  | InsertGroupMember u32 u32 u8 u8 u8
  | DeleteGroupMember u32
  | UpdateGroupType u8 u32
  | UpdateGroupLeader u32 u32
  | DeleteGroupInstances u32 u32
  | UpdateMemberSubgroup u8 u32
  | UpdateMemberFlags u8 u32
  | UpdateDifficulty u32 u32
  | UpdateRaidDifficulty u32 u32
  | DeleteGroup u32

text \<open>
  Calls to parts outside the model: on a player (visibility, quest objects, instance resets,
  status updates, items), on instance saves, on battlegrounds, script hooks, and the stop of
  the world.
\<close>

datatype group_call =
    UpdateObjectVisibility | UpdateForQuestWorldObjects | ResetPlayerInstances bool
  | SendDungeonDifficulty | SendRaidDifficulty | SetGroupUpdateFlag | UpdatePlayerOutOfRange
  | BroadcastMemberFields | ForceGroupUpdate | RepopAtGraveyard | ConvertInstancesToGroup bool
  | SendEquipError u32 u32 | StoreNewItem u32 u32 u8 | AutoStoreDisenchantLoot u32
  | UpdateAchievementCriteria u32 u32 | SendNotifyLootItemRemoved u8 | GuildNewsItemLooted u32

datatype group_event =
    GSend u64 u32 "u8 list"
  | GSql group_sql
  | GCall u64 group_call
  | GHookInvite u64 | GHookAdd u64 | GHookRemove u64 u32 u64 | GHookLeader u64 u64 | GHookDisband
  | GDropPermanentBinds | GResetInstances bool | GRemoveDynObject u64 | GClearBgRaid nat
  | GSetupLfgMember u64 | GLoadLfg | GStopWorld | GSetLootTimer u32 u32
  | GSendInvite u64 u64 bool

record group_world =
  gw_groups :: "nat \<Rightarrow> group option"
  gw_next :: nat
  gw_players :: "u64 \<Rightarrow> gplayer option"
  gw_loots :: "nat \<Rightarrow> loot option"
  gw_mgr :: group_mgr
  gw_itemGuid :: u32
  gw_out :: "group_event list"

text \<open>
  What the groups ask of parts outside the model: attributes of players and their maps, the
  dungeon finder, configuration, items, dynamic objects, random numbers (\<open>ge_urand item player\<close> is
  the number drawn for the player in the roll for the item), the search for a player by name,
  and what is left in the memory of a new group.
\<close>

record player_attr =
  pa_enchanting :: u32
  pa_level :: u32
  pa_team :: u32
  pa_gm :: bool
  pa_alive :: bool
  pa_inBattleground :: bool
  pa_inCombat :: bool
  pa_mapId :: u32
  pa_dungeonMap :: bool
  pa_instanceable :: bool
  pa_instanceId :: u32
  pa_near :: bool
  pa_allowLowLevelRaid :: bool

record lfg_attr =
  la_finished :: bool
  la_boot :: bool
  la_dungeon :: u32
  la_dungeonMapId :: u32
  la_kicksLeft :: u8

record item_attr =
  it_Quality :: u32
  it_DisenchantID :: u32
  it_RequiredDisenchantSkill :: u32
  it_needDisabled :: bool

record group_env =
  ge_attr :: "u64 \<Rightarrow> player_attr"
  ge_lfg :: "u64 \<Rightarrow> lfg_attr"
  ge_boundInstance :: "nat \<Rightarrow> u64 \<Rightarrow> u32 option"
  ge_ignores :: "u64 \<Rightarrow> u64 \<Rightarrow> bool"
  ge_playerName :: "u64 \<Rightarrow> u8 list option"
  ge_normalize :: "u8 list \<Rightarrow> u8 list option"
  ge_findByName :: "u8 list \<Rightarrow> u64 option"
  ge_guidByName :: "u8 list \<Rightarrow> u64"
  ge_dynObjEntry :: "u64 \<Rightarrow> u32 option"
  ge_urand :: "u64 \<Rightarrow> u64 \<Rightarrow> u32"
  ge_canStore :: "u64 \<Rightarrow> u32 \<Rightarrow> u8 \<Rightarrow> u32"
  ge_allowed :: "loot_item \<Rightarrow> u64 \<Rightarrow> bool"
  ge_canRollLfg :: "u64 \<Rightarrow> u32 \<Rightarrow> bool"
  ge_item :: "u32 \<Rightarrow> item_attr option"
  ge_guildNews :: "u64 \<Rightarrow> u32 \<Rightarrow> bool"
  ge_garbage :: u32
  ge_allowGmGroup :: bool
  ge_allowTwoSide :: bool
  ge_minRaidLevel :: u32

datatype group_error = DanglingGroup | DanglingPlayer | OutOfRange | AssertFailed | NullPointer

type_synonym 'a group_result = "group_error + 'a"

section \<open>The heap\<close>

definition grp :: "nat \<Rightarrow> group_world \<Rightarrow> group" where
  "grp g w = (case gw_groups w g of Some G \<Rightarrow> G | None \<Rightarrow> group_new 0)"

definition upd_group :: "nat \<Rightarrow> (group \<Rightarrow> group) \<Rightarrow> group_world \<Rightarrow> group_world" where
  "upd_group g f w = w\<lparr>gw_groups := (gw_groups w)(g := map_option f (gw_groups w g))\<rparr>"

definition upd_player :: "u64 \<Rightarrow> (gplayer \<Rightarrow> gplayer) \<Rightarrow> group_world \<Rightarrow> group_world" where
  "upd_player p f w = w\<lparr>gw_players := (gw_players w)(p := map_option f (gw_players w p))\<rparr>"

definition gw_emit :: "group_event list \<Rightarrow> group_world \<Rightarrow> group_world" where
  "gw_emit es w = w\<lparr>gw_out := gw_out w @ es\<rparr>"

lemma gw_emit_simps [simp]:
  "gw_groups (gw_emit es w) = gw_groups w" "gw_players (gw_emit es w) = gw_players w"
  "gw_loots (gw_emit es w) = gw_loots w" "gw_mgr (gw_emit es w) = gw_mgr w"
  "gw_next (gw_emit es w) = gw_next w" "gw_itemGuid (gw_emit es w) = gw_itemGuid w"
  "gw_out (gw_emit es w) = gw_out w @ es"
  by (simp_all add: gw_emit_def)

lemma upd_simps [simp]:
  "gw_groups (upd_player p h w) = gw_groups w" "gw_players (upd_group g f w) = gw_players w"
  "gw_loots (upd_player p h w) = gw_loots w" "gw_loots (upd_group g f w) = gw_loots w"
  "gw_mgr (upd_player p h w) = gw_mgr w" "gw_mgr (upd_group g f w) = gw_mgr w"
  "gw_next (upd_player p h w) = gw_next w" "gw_next (upd_group g f w) = gw_next w"
  "gw_groups (upd_group g f w) g' = (if g' = g then map_option f (gw_groups w g) else gw_groups w g')"
  "gw_players (upd_player p h w) p' = (if p' = p then map_option h (gw_players w p) else gw_players w p')"
  by (simp_all add: upd_player_def upd_group_def)

lemma grp_cong: "gw_groups w' = gw_groups w \<Longrightarrow> grp g w' = grp g w"
  by (simp add: grp_def)

lemma grp_simps [simp]:
  "grp g (gw_emit es w) = grp g w" "grp g (upd_player p h w) = grp g w"
  "gw_groups w g \<noteq> None \<Longrightarrow> grp g (upd_group g f w) = f (grp g w)"
  "g' \<noteq> g \<Longrightarrow> grp g' (upd_group g f w) = grp g' w"
  by (auto simp: grp_def)

text \<open>A call through the pointer \<open>g\<close>.\<close>

definition through :: "nat \<Rightarrow> group_world \<Rightarrow> (group_world \<Rightarrow> 'a group_result) \<Rightarrow> 'a group_result" where
  "through g w f = (if gw_groups w g = None then Inl DanglingGroup else f w)"

text \<open>\<^verbatim>\<open>ObjectAccessor::FindPlayer\<close>: the players that are in the world.\<close>

definition find_player :: "group_world \<Rightarrow> u64 \<Rightarrow> gplayer option" where
  "find_player w p =
     (case gw_players w p of Some pl \<Rightarrow> if gp_inWorld pl then Some pl else None | None \<Rightarrow> None)"

definition group_of :: "group_world \<Rightarrow> u64 \<Rightarrow> nat option" where
  "group_of w p = (case gw_players w p of Some pl \<Rightarrow> m_group pl | None \<Rightarrow> None)"

definition original_group_of :: "group_world \<Rightarrow> u64 \<Rightarrow> nat option" where
  "original_group_of w p = (case gw_players w p of Some pl \<Rightarrow> m_originalGroup pl | None \<Rightarrow> None)"

definition invite_of :: "group_world \<Rightarrow> u64 \<Rightarrow> nat option" where
  "invite_of w p = (case gw_players w p of Some pl \<Rightarrow> m_groupInvite pl | None \<Rightarrow> None)"

definition SetGroupInvite :: "nat option \<Rightarrow> u64 \<Rightarrow> group_world \<Rightarrow> group_world" where
  "SetGroupInvite g p = upd_player p (\<lambda>pl. pl\<lparr>m_groupInvite := g\<rparr>)"

section \<open>References between players and groups\<close>

text \<open>
  \<^verbatim>\<open>GroupReference\<close>: unlinking removes the reference from the list of its group, linking unlinks
  first and inserts at the front.
\<close>

fun ref_target :: "ref_kind \<Rightarrow> gplayer \<Rightarrow> nat option" where
  "ref_target GroupRef pl = m_group pl"
| "ref_target OriginalGroupRef pl = m_originalGroup pl"

fun set_ref_target :: "ref_kind \<Rightarrow> nat option \<Rightarrow> gplayer \<Rightarrow> gplayer" where
  "set_ref_target GroupRef t pl = pl\<lparr>m_group := t\<rparr>"
| "set_ref_target OriginalGroupRef t pl = pl\<lparr>m_originalGroup := t\<rparr>"

fun ref_subGroup :: "ref_kind \<Rightarrow> gplayer \<Rightarrow> u8" where
  "ref_subGroup GroupRef pl = gp_subGroup pl"
| "ref_subGroup OriginalGroupRef pl = gp_originalSubGroup pl"

fun set_ref_subGroup :: "ref_kind \<Rightarrow> u8 \<Rightarrow> gplayer \<Rightarrow> gplayer" where
  "set_ref_subGroup GroupRef s pl = pl\<lparr>gp_subGroup := s\<rparr>"
| "set_ref_subGroup OriginalGroupRef s pl = pl\<lparr>gp_originalSubGroup := s\<rparr>"

definition target_of :: "group_world \<Rightarrow> u64 \<Rightarrow> ref_kind \<Rightarrow> nat option" where
  "target_of w p k = (case gw_players w p of Some pl \<Rightarrow> ref_target k pl | None \<Rightarrow> None)"

definition ref_unlink :: "ref_kind \<Rightarrow> u64 \<Rightarrow> group_world \<Rightarrow> group_world" where
  "ref_unlink k p w =
     (let w = (case target_of w p k of None \<Rightarrow> w
               | Some g \<Rightarrow> upd_group g (\<lambda>G. G\<lparr>m_memberMgr := remove1 (p, k) (m_memberMgr G)\<rparr>) w)
      in upd_player p (set_ref_target k None) w)"

definition ref_link :: "ref_kind \<Rightarrow> nat \<Rightarrow> u64 \<Rightarrow> group_world \<Rightarrow> group_world" where
  "ref_link k g p w =
     (let w = ref_unlink k p w;
          w = upd_player p (set_ref_target k (Some g)) w
      in upd_group g (\<lambda>G. G\<lparr>m_memberMgr := (p, k) # m_memberMgr G\<rparr>) w)"

text \<open>\<^verbatim>\<open>delete this\<close>: the destructor of the list invalidates every reference in it.\<close>

definition clear_references :: "(u64 \<times> ref_kind) list \<Rightarrow> group_world \<Rightarrow> group_world" where
  "clear_references refs w = foldl (\<lambda>w (p, k). upd_player p (set_ref_target k None) w) w refs"

definition group_delete :: "nat \<Rightarrow> group_world \<Rightarrow> group_world" where
  "group_delete g w =
     (let w = (case m_bgGroup (grp g w) of Some bg \<Rightarrow> gw_emit [GClearBgRaid bg] w | None \<Rightarrow> w);
          w = clear_references (m_memberMgr (grp g w)) w
      in w\<lparr>gw_groups := (gw_groups w)(g := None)\<rparr>)"

definition SetGroup :: "nat option \<Rightarrow> u8 \<Rightarrow> u64 \<Rightarrow> group_world \<Rightarrow> group_world group_result" where
  "SetGroup g subgroup p w =
     (case g of None \<Rightarrow> Inr (gw_emit [GCall p UpdateObjectVisibility] (ref_unlink GroupRef p w))
      | Some g \<Rightarrow>
          if sint subgroup < 0 then Inl AssertFailed
          else Inr (gw_emit [GCall p UpdateObjectVisibility]
                 (upd_player p (set_ref_subGroup GroupRef subgroup) (ref_link GroupRef g p w))))"

definition SetOriginalGroup :: "nat option \<Rightarrow> u8 \<Rightarrow> u64 \<Rightarrow> group_world \<Rightarrow> group_world group_result" where
  "SetOriginalGroup g subgroup p w =
     (case g of None \<Rightarrow> Inr (ref_unlink OriginalGroupRef p w)
      | Some g \<Rightarrow>
          if sint subgroup < 0 then Inl AssertFailed
          else Inr (upd_player p (set_ref_subGroup OriginalGroupRef subgroup)
                 (ref_link OriginalGroupRef g p w)))"

definition SetBattlegroundOrBattlefieldRaid :: "nat \<Rightarrow> u8 \<Rightarrow> u64 \<Rightarrow> group_world \<Rightarrow> group_world group_result" where
  "SetBattlegroundOrBattlefieldRaid g subgroup p w =
     rbind (SetOriginalGroup (group_of w p)
              (case gw_players w p of Some pl \<Rightarrow> gp_subGroup pl | None \<Rightarrow> 0) p w) (\<lambda>w.
     let w = ref_unlink GroupRef p w;
         w = ref_link GroupRef g p w
     in Inr (upd_player p (set_ref_subGroup GroupRef subgroup) w))"

definition RemoveFromBattlegroundOrBattlefieldRaid :: "u64 \<Rightarrow> group_world \<Rightarrow> group_world" where
  "RemoveFromBattlegroundOrBattlefieldRaid p w =
     (let w = ref_unlink GroupRef p w;
          w = (case original_group_of w p of None \<Rightarrow> w
               | Some g \<Rightarrow>
                   let w = ref_link GroupRef g p w
                   in upd_player p (set_ref_subGroup GroupRef
                        (case gw_players w p of Some pl \<Rightarrow> gp_originalSubGroup pl | None \<Rightarrow> 0)) w)
      in ref_unlink OriginalGroupRef p w)"

end
