(* ===== verification/Group_Slots.thy ===== *)
theory Group_Slots
  imports Group_State
begin

text \<open>
  The members of a group (\<^verbatim>\<open>src/src/server/game/Groups/Group.cpp\<close>): the accessors, the counters of
  the raid's subgroups, member flags, target icons and markers, what is sent to the members, and
  the conversions between party, raid and dungeon finder group. A subgroup number beyond the
  eight counters is the error \<open>OutOfRange\<close>, where the code writes past its array.
\<close>

section \<open>Accessors\<close>

definition isLFGGroup :: "group \<Rightarrow> bool" where
  "isLFGGroup G \<longleftrightarrow> m_groupType G AND GROUPTYPE_LFG \<noteq> 0"

definition isRaidGroup :: "group \<Rightarrow> bool" where
  "isRaidGroup G \<longleftrightarrow> m_groupType G AND GROUPTYPE_RAID \<noteq> 0"

definition isBGGroup :: "group \<Rightarrow> bool" where
  "isBGGroup G \<longleftrightarrow> m_bgGroup G \<noteq> None"

definition isBFGroup :: "group \<Rightarrow> bool" where
  "isBFGroup G \<longleftrightarrow> m_bfGroup G \<noteq> None"

definition GetMembersCount :: "group \<Rightarrow> u32" where
  "GetMembersCount G = of_nat (length (m_memberSlots G))"

definition IsCreated :: "group \<Rightarrow> bool" where
  "IsCreated G \<longleftrightarrow> 0 < GetMembersCount G"

definition group_IsFull :: "group \<Rightarrow> bool" where
  "group_IsFull G \<longleftrightarrow>
     (if isRaidGroup G then MAXRAIDSIZE \<le> length (m_memberSlots G)
      else MAXGROUPSIZE \<le> length (m_memberSlots G))"

definition getMemberSlot :: "u64 \<Rightarrow> group \<Rightarrow> MemberSlot option" where
  "getMemberSlot guid G = find (\<lambda>s. slot_guid s = guid) (m_memberSlots G)"

definition IsMember :: "u64 \<Rightarrow> group \<Rightarrow> bool" where
  "IsMember guid G \<longleftrightarrow> getMemberSlot guid G \<noteq> None"

definition group_IsLeader :: "u64 \<Rightarrow> group \<Rightarrow> bool" where
  "group_IsLeader guid G \<longleftrightarrow> m_leaderGuid G = guid"

definition IsAssistant :: "u64 \<Rightarrow> group \<Rightarrow> bool" where
  "IsAssistant guid G \<longleftrightarrow>
     (case getMemberSlot guid G of None \<Rightarrow> False
      | Some s \<Rightarrow> slot_flags s AND MEMBER_FLAG_ASSISTANT \<noteq> 0)"

definition GetMemberGUID :: "u8 list \<Rightarrow> group \<Rightarrow> u64" where
  "GetMemberGUID name G =
     (case find (\<lambda>s. slot_name s = name) (m_memberSlots G) of Some s \<Rightarrow> slot_guid s | None \<Rightarrow> 0)"

definition GetMemberGroup :: "u64 \<Rightarrow> group \<Rightarrow> u8" where
  "GetMemberGroup guid G =
     (case getMemberSlot guid G of None \<Rightarrow> of_nat (MAX_RAID_SUBGROUPS + 1) | Some s \<Rightarrow> slot_group s)"

definition SameSubGroup_guids :: "u64 \<Rightarrow> u64 \<Rightarrow> group \<Rightarrow> bool" where
  "SameSubGroup_guids guid1 guid2 G \<longleftrightarrow>
     (case getMemberSlot guid2 G of None \<Rightarrow> False
      | Some s2 \<Rightarrow> (case getMemberSlot guid1 G of None \<Rightarrow> False
                    | Some s1 \<Rightarrow> slot_group s1 = slot_group s2))"

definition SameSubGroup :: "nat \<Rightarrow> u64 \<Rightarrow> u64 \<Rightarrow> group_world \<Rightarrow> bool" where
  "SameSubGroup g p1 p2 w \<longleftrightarrow>
     (case (gw_players w p1, gw_players w p2) of
        (Some a, Some b) \<Rightarrow>
          if m_group a \<noteq> Some g \<or> m_group b \<noteq> Some g then False else gp_subGroup a = gp_subGroup b
      | _ \<Rightarrow> False)"

definition HasFreeSlotSubGroup :: "u8 \<Rightarrow> group \<Rightarrow> bool group_result" where
  "HasFreeSlotSubGroup subgroup G =
     (case m_subGroupsCounts G of None \<Rightarrow> Inr False
      | Some cs \<Rightarrow>
          if unat subgroup < length cs then Inr (unat (cs ! unat subgroup) < MAXGROUPSIZE)
          else Inl OutOfRange)"

definition GetDifficulty :: "bool \<Rightarrow> group \<Rightarrow> u32" where
  "GetDifficulty isRaid G = (if isRaid then m_raidDifficulty G else m_dungeonDifficulty G)"

text \<open>
  An invitation holds a pointer to the \<^verbatim>\<open>Player\<close> object; reading one whose object is gone is the
  error \<open>DanglingPlayer\<close>. (A player who has logged in again has a new object, which the model does
  not tell from the old one.)
\<close>

fun find_invited :: "(u64 \<Rightarrow> gplayer \<Rightarrow> bool) \<Rightarrow> u64 list \<Rightarrow> group_world \<Rightarrow> u64 option group_result" where
  "find_invited P [] w = Inr None"
| "find_invited P (p # ps) w =
     (case gw_players w p of None \<Rightarrow> Inl DanglingPlayer
      | Some pl \<Rightarrow> if P p pl then Inr (Some p) else find_invited P ps w)"

definition GetInvited_guid :: "u64 \<Rightarrow> nat \<Rightarrow> group_world \<Rightarrow> u64 option group_result" where
  "GetInvited_guid guid g w = find_invited (\<lambda>p pl. p = guid) (m_invitees (grp g w)) w"

definition GetInvited_name :: "u8 list \<Rightarrow> nat \<Rightarrow> group_world \<Rightarrow> u64 option group_result" where
  "GetInvited_name name g w = find_invited (\<lambda>p pl. gp_name pl = name) (m_invitees (grp g w)) w"

section \<open>Subgroup counters\<close>

definition bump :: "(u8 \<Rightarrow> u8) \<Rightarrow> u8 \<Rightarrow> group \<Rightarrow> group group_result" where
  "bump f subgroup G =
     (case m_subGroupsCounts G of None \<Rightarrow> Inr G
      | Some cs \<Rightarrow>
          if unat subgroup < length cs
          then Inr (G\<lparr>m_subGroupsCounts := Some (cs[unat subgroup := f (cs ! unat subgroup)])\<rparr>)
          else Inl OutOfRange)"

definition SubGroupCounterIncrease :: "u8 \<Rightarrow> group \<Rightarrow> group group_result" where
  "SubGroupCounterIncrease = bump (\<lambda>c. c + 1)"

definition SubGroupCounterDecrease :: "u8 \<Rightarrow> group \<Rightarrow> group group_result" where
  "SubGroupCounterDecrease = bump (\<lambda>c. c - 1)"

fun count_slots :: "MemberSlot list \<Rightarrow> u8 list \<Rightarrow> u8 list group_result" where
  "count_slots [] cs = Inr cs"
| "count_slots (s # ss) cs =
     (if unat (slot_group s) < length cs
      then count_slots ss (cs[unat (slot_group s) := cs ! unat (slot_group s) + 1])
      else Inl OutOfRange)"

definition initRaidSubGroupsCounter :: "group \<Rightarrow> group group_result" where
  "initRaidSubGroupsCounter G =
     rbind (count_slots (m_memberSlots G) (replicate MAX_RAID_SUBGROUPS 0)) (\<lambda>cs.
     Inr (G\<lparr>m_subGroupsCounts := Some cs\<rparr>))"

text \<open>\<open>on_group\<close> runs an operation of the record inside the heap.\<close>

definition on_group :: "nat \<Rightarrow> (group \<Rightarrow> group group_result) \<Rightarrow> group_world \<Rightarrow> group_world group_result" where
  "on_group g f w = rbind (f (grp g w)) (\<lambda>G. Inr (upd_group g (\<lambda>_. G) w))"

section \<open>Slots\<close>

text \<open>The first slot of a player, changed or removed.\<close>

fun upd_slot :: "u64 \<Rightarrow> (MemberSlot \<Rightarrow> MemberSlot) \<Rightarrow> MemberSlot list \<Rightarrow> MemberSlot list" where
  "upd_slot guid f [] = []"
| "upd_slot guid f (s # ss) = (if slot_guid s = guid then f s # ss else s # upd_slot guid f ss)"

fun erase_slot :: "u64 \<Rightarrow> MemberSlot list \<Rightarrow> MemberSlot list" where
  "erase_slot guid [] = []"
| "erase_slot guid (s # ss) = (if slot_guid s = guid then ss else s # erase_slot guid ss)"

definition ToggleGroupMemberFlag :: "u8 \<Rightarrow> bool \<Rightarrow> MemberSlot \<Rightarrow> MemberSlot" where
  "ToggleGroupMemberFlag flag apply s =
     (if apply then s\<lparr>slot_flags := slot_flags s OR flag\<rparr>
      else s\<lparr>slot_flags := slot_flags s AND NOT flag\<rparr>)"

definition RemoveUniqueGroupMemberFlag :: "u8 \<Rightarrow> group \<Rightarrow> group" where
  "RemoveUniqueGroupMemberFlag flag G =
     G\<lparr>m_memberSlots :=
        map (\<lambda>s. if slot_flags s AND flag \<noteq> 0 then s\<lparr>slot_flags := slot_flags s AND NOT flag\<rparr> else s)
          (m_memberSlots G)\<rparr>"

section \<open>Packets to the members\<close>

definition ref_in_group :: "nat \<Rightarrow> group_world \<Rightarrow> u64 \<Rightarrow> bool" where
  "ref_in_group g w p \<longleftrightarrow> group_of w p = Some g"

text \<open>\<open>subgroup\<close> is \<open>None\<close> for the value -1, which selects every subgroup.\<close>

definition BroadcastPacket ::
  "u32 \<Rightarrow> u8 list \<Rightarrow> bool \<Rightarrow> u8 option \<Rightarrow> u64 \<Rightarrow> nat \<Rightarrow> group_world \<Rightarrow> group_world" where
  "BroadcastPacket op bytes ignorePlayersInBGRaid subgroup ignore g w =
     gw_emit (map (\<lambda>(p, k). GSend p op bytes)
       (filter (\<lambda>(p, k).
          \<not> (ignore \<noteq> 0 \<and> p = ignore \<or> ignorePlayersInBGRaid \<and> \<not> ref_in_group g w p) \<and>
          (case subgroup of None \<Rightarrow> True
           | Some sg \<Rightarrow> (case gw_players w p of Some pl \<Rightarrow> ref_subGroup k pl = sg | None \<Rightarrow> False)))
        (m_memberMgr (grp g w)))) w"

definition BroadcastReadyCheck :: "u32 \<Rightarrow> u8 list \<Rightarrow> nat \<Rightarrow> group_world \<Rightarrow> group_world" where
  "BroadcastReadyCheck op bytes g w =
     gw_emit (map (\<lambda>(p, k). GSend p op bytes)
       (filter (\<lambda>(p, k). group_IsLeader p (grp g w) \<or> IsAssistant p (grp g w))
         (m_memberMgr (grp g w)))) w"

definition OfflineReadyCheck :: "nat \<Rightarrow> group_world \<Rightarrow> group_world" where
  "OfflineReadyCheck g w =
     foldl (\<lambda>w s. if find_player w (slot_guid s) = None
        then BroadcastReadyCheck MSG_RAID_READY_CHECK_CONFIRM (le_bytes (slot_guid s) @ [0]) g w else w)
       w (m_memberSlots (grp g w))"

definition member_entry :: "group \<Rightarrow> group_world \<Rightarrow> MemberSlot \<Rightarrow> u8 list" where
  "member_entry G w s =
     (let onlineState = (if find_player w (slot_guid s) \<noteq> None then MEMBER_STATUS_ONLINE
                         else MEMBER_STATUS_OFFLINE);
          onlineState = onlineState OR (if isBGGroup G \<or> isBFGroup G then MEMBER_STATUS_PVP else 0)
      in slot_name s @ [0] @ le_bytes (slot_guid s)
         @ [onlineState, slot_group s, slot_flags s, slot_roles s])"

definition group_list_packet :: "group_env \<Rightarrow> group \<Rightarrow> group_world \<Rightarrow> MemberSlot \<Rightarrow> u8 list" where
  "group_list_packet e G w s =
     [m_groupType G, slot_group s, slot_flags s, slot_roles s]
     @ (if isLFGGroup G then
          [if la_finished (ge_lfg e (g_guid G)) then 2 else 0]
          @ le_bytes (la_dungeon (ge_lfg e (g_guid G))) @ [0]
        else [])
     @ le_bytes (g_guid G) @ le_bytes (m_counter G) @ le_bytes (GetMembersCount G - 1)
     @ concat (map (member_entry G w) (filter (\<lambda>s'. slot_guid s' \<noteq> slot_guid s) (m_memberSlots G)))
     @ le_bytes (m_leaderGuid G)
     @ (if GetMembersCount G - 1 \<noteq> 0 then
          [ucast (m_lootMethod G)] @ le_bytes (m_looterGuid G)
          @ [ucast (m_lootThreshold G), ucast (m_dungeonDifficulty G), ucast (m_raidDifficulty G)]
        else [])"

definition SendUpdateToPlayer ::
  "group_env \<Rightarrow> u64 \<Rightarrow> MemberSlot option \<Rightarrow> nat \<Rightarrow> group_world \<Rightarrow> group_world" where
  "SendUpdateToPlayer e p slot g w =
     (if find_player w p = None \<or> group_of w p \<noteq> Some g then w
      else case (case slot of Some s \<Rightarrow> Some s | None \<Rightarrow> getMemberSlot p (grp g w)) of
        None \<Rightarrow> w
      | Some s \<Rightarrow>
          let data = group_list_packet e (grp g w) w s;
              w = upd_group g (\<lambda>G. G\<lparr>m_counter := m_counter G + 1\<rparr>) w
          in gw_emit [GSend p SMSG_GROUP_LIST data] w)"

definition SendUpdate :: "group_env \<Rightarrow> nat \<Rightarrow> group_world \<Rightarrow> group_world" where
  "SendUpdate e g w =
     foldl (\<lambda>w s. SendUpdateToPlayer e (slot_guid s) (Some s) g w) w (m_memberSlots (grp g w))"

section \<open>Target icons and markers\<close>

definition icon_packet :: "u8 \<Rightarrow> u64 \<Rightarrow> u64 \<Rightarrow> u8 list" where
  "icon_packet i whoGuid targetGuid = [0] @ le_bytes whoGuid @ [i] @ le_bytes targetGuid"

definition put_icon :: "u8 \<Rightarrow> u64 \<Rightarrow> u64 \<Rightarrow> nat \<Rightarrow> group_world \<Rightarrow> group_world" where
  "put_icon i whoGuid targetGuid g w =
     BroadcastPacket MSG_RAID_TARGET_UPDATE (icon_packet i whoGuid targetGuid) True None 0 g
       (upd_group g (\<lambda>G. G\<lparr>m_targetIcons := (m_targetIcons G)[unat i := targetGuid]\<rparr>) w)"

text \<open>The loop that cleans the other icons, each by a call of \<^verbatim>\<open>SetTargetIcon(i, 0, 0)\<close>.\<close>

definition clean_icons :: "u64 \<Rightarrow> nat \<Rightarrow> group_world \<Rightarrow> group_world" where
  "clean_icons targetGuid g w =
     foldl (\<lambda>w i. if m_targetIcons (grp g w) ! i = targetGuid then put_icon (of_nat i) 0 0 g w else w)
       w [0..<TARGETICONCOUNT]"

definition SetTargetIcon :: "u8 \<Rightarrow> u64 \<Rightarrow> u64 \<Rightarrow> nat \<Rightarrow> group_world \<Rightarrow> group_world" where
  "SetTargetIcon i whoGuid targetGuid g w =
     (if TARGETICONCOUNT \<le> unat i then w
      else
        let w = (if targetGuid \<noteq> 0 then clean_icons targetGuid g w else w)
        in put_icon i whoGuid targetGuid g w)"

definition target_icon_list :: "group \<Rightarrow> u8 list" where
  "target_icon_list G =
     [1] @ concat (map (\<lambda>i. if m_targetIcons G ! i = 0 then []
                             else [of_nat i] @ le_bytes (m_targetIcons G ! i)) [0..<TARGETICONCOUNT])"

definition SendTargetIconList :: "u64 \<Rightarrow> nat \<Rightarrow> group_world \<Rightarrow> group_world" where
  "SendTargetIconList p g w = gw_emit [GSend p MSG_RAID_TARGET_UPDATE (target_icon_list (grp g w))] w"

definition SetGroupMarkerMask :: "u32 \<Rightarrow> group \<Rightarrow> group" where
  "SetGroupMarkerMask mk G = G\<lparr>m_markerMask := mk\<rparr>"

definition AddGroupMarkerMask :: "u32 \<Rightarrow> group \<Rightarrow> group" where
  "AddGroupMarkerMask mk G = G\<lparr>m_markerMask := m_markerMask G OR mk\<rparr>"

definition RemoveGroupMarkerMask :: "u32 \<Rightarrow> group \<Rightarrow> group" where
  "RemoveGroupMarkerMask mk G =
     (let G = (if mk = 0x20 then G\<lparr>m_markerMask := 0x20\<rparr> else G)
      in G\<lparr>m_markerMask := m_markerMask G AND NOT mk\<rparr>)"

definition HasMarker :: "u32 \<Rightarrow> group \<Rightarrow> bool" where
  "HasMarker mk G \<longleftrightarrow> m_markerMask G AND mk \<noteq> 0"

definition SendRaidMarkerUpdate :: "nat \<Rightarrow> group_world \<Rightarrow> group_world" where
  "SendRaidMarkerUpdate g w =
     gw_emit (map (\<lambda>s. GSend (slot_guid s) SMSG_RAID_MARKERS_CHANGED (le_bytes (m_markerMask (grp g w))))
       (filter (\<lambda>s. find_player w (slot_guid s) \<noteq> None) (m_memberSlots (grp g w)))) w"

definition SendRaidMarkerUpdateToPlayer :: "u64 \<Rightarrow> bool \<Rightarrow> nat \<Rightarrow> group_world \<Rightarrow> group_world" where
  "SendRaidMarkerUpdateToPlayer p remove g w =
     (if find_player w p = None then w
      else gw_emit [GSend p SMSG_RAID_MARKERS_CHANGED
             (le_bytes (if remove then 0 else m_markerMask (grp g w)))] w)"

definition GetMarkerGuidBySpell :: "group_env \<Rightarrow> u32 \<Rightarrow> group \<Rightarrow> u64 option" where
  "GetMarkerGuidBySpell e spell G = find (\<lambda>d. ge_dynObjEntry e d = Some spell) (m_dynObj G)"

definition RemoveMarker_step :: "group_env \<Rightarrow> nat \<Rightarrow> group_world \<Rightarrow> nat \<Rightarrow> group_world" where
  "RemoveMarker_step e g w spell =
     (if HasMarker (push_bit spell 1) (grp g w) then w
      else case GetMarkerGuidBySpell e (84996 + of_nat spell) (grp g w) of
        None \<Rightarrow> w
      | Some d \<Rightarrow>
          gw_emit [GRemoveDynObject d] (upd_group g (\<lambda>G. G\<lparr>m_dynObj := removeAll d (m_dynObj G)\<rparr>) w))"

definition RemoveMarker :: "group_env \<Rightarrow> nat \<Rightarrow> group_world \<Rightarrow> group_world" where
  "RemoveMarker e g w = foldl (RemoveMarker_step e g) w [0..<5]"

section \<open>Conversions, flags, loot settings\<close>

definition sql_unless_bg :: "group_sql \<Rightarrow> nat \<Rightarrow> group_world \<Rightarrow> group_world" where
  "sql_unless_bg q g w =
     (if \<not> isBGGroup (grp g w) \<and> \<not> isBFGroup (grp g w) then gw_emit [GSql q] w else w)"

definition update_quest_objects :: "nat \<Rightarrow> group_world \<Rightarrow> group_world" where
  "update_quest_objects g w =
     gw_emit (map (\<lambda>s. GCall (slot_guid s) UpdateForQuestWorldObjects)
       (filter (\<lambda>s. find_player w (slot_guid s) \<noteq> None) (m_memberSlots (grp g w)))) w"

definition ConvertToLFG :: "group_env \<Rightarrow> nat \<Rightarrow> group_world \<Rightarrow> group_world" where
  "ConvertToLFG e g w =
     (let w = upd_group g (\<lambda>G. G\<lparr>m_groupType := m_groupType G OR GROUPTYPE_LFG OR GROUPTYPE_UNK1,
                              m_lootMethod := NEED_BEFORE_GREED\<rparr>) w;
          w = sql_unless_bg (UpdateGroupType (m_groupType (grp g w)) (m_dbStoreId (grp g w))) g w
      in SendUpdate e g w)"

definition ConvertToRaid :: "group_env \<Rightarrow> nat \<Rightarrow> group_world \<Rightarrow> group_world group_result" where
  "ConvertToRaid e g w =
     (let w = upd_group g (\<lambda>G. G\<lparr>m_groupType := m_groupType G OR GROUPTYPE_RAID\<rparr>) w
      in rbind (on_group g initRaidSubGroupsCounter w) (\<lambda>w.
         let w = sql_unless_bg (UpdateGroupType (m_groupType (grp g w)) (m_dbStoreId (grp g w))) g w;
             w = SendUpdate e g w
         in Inr (update_quest_objects g w)))"

definition ConvertToGroup :: "group_env \<Rightarrow> nat \<Rightarrow> group_world \<Rightarrow> group_world" where
  "ConvertToGroup e g w =
     (if 5 < length (m_memberSlots (grp g w)) then w
      else
        let w = upd_group g (\<lambda>G. G\<lparr>m_groupType := GROUPTYPE_NORMAL, m_subGroupsCounts := None\<rparr>) w;
            w = sql_unless_bg (UpdateGroupType (m_groupType (grp g w)) (m_dbStoreId (grp g w))) g w;
            w = SendUpdate e g w
        in update_quest_objects g w)"

text \<open>The parameter is an enumeration, so a value other than the three flags does not occur; the code returns on it.\<close>

definition SetGroupMemberFlag :: "group_env \<Rightarrow> u64 \<Rightarrow> bool \<Rightarrow> u8 \<Rightarrow> nat \<Rightarrow> group_world \<Rightarrow> group_world" where
  "SetGroupMemberFlag e guid apply flag g w =
     (if \<not> isRaidGroup (grp g w) \<or> getMemberSlot guid (grp g w) = None then w
      else if flag \<noteq> MEMBER_FLAG_MAINASSIST \<and> flag \<noteq> MEMBER_FLAG_MAINTANK \<and> flag \<noteq> MEMBER_FLAG_ASSISTANT then w
      else
        let w = (if flag = MEMBER_FLAG_MAINASSIST \<or> flag = MEMBER_FLAG_MAINTANK
                 then upd_group g (RemoveUniqueGroupMemberFlag flag) w else w);
            w = upd_group g (\<lambda>G. G\<lparr>m_memberSlots :=
                  upd_slot guid (ToggleGroupMemberFlag flag apply) (m_memberSlots G)\<rparr>) w;
            w = gw_emit [GSql (UpdateMemberFlags
                  (case getMemberSlot guid (grp g w) of Some s \<Rightarrow> slot_flags s | None \<Rightarrow> 0)
                  (GUID_LOPART guid))] w
        in SendUpdate e g w)"

definition SetLfgRoles :: "group_env \<Rightarrow> u64 \<Rightarrow> u8 \<Rightarrow> nat \<Rightarrow> group_world \<Rightarrow> group_world" where
  "SetLfgRoles e guid roles g w =
     (if getMemberSlot guid (grp g w) = None then w
      else SendUpdate e g (upd_group g (\<lambda>G. G\<lparr>m_memberSlots :=
             upd_slot guid (\<lambda>s. s\<lparr>slot_roles := roles\<rparr>) (m_memberSlots G)\<rparr>) w))"

definition ResetMaxEnchantingLevel :: "group_env \<Rightarrow> nat \<Rightarrow> group_world \<Rightarrow> group_world" where
  "ResetMaxEnchantingLevel e g w =
     upd_group g (\<lambda>G. G\<lparr>m_maxEnchantingLevel :=
       foldl (\<lambda>lvl s. if find_player w (slot_guid s) \<noteq> None \<and> lvl < pa_enchanting (ge_attr e (slot_guid s))
                      then pa_enchanting (ge_attr e (slot_guid s)) else lvl) 0 (m_memberSlots G)\<rparr>) w"

definition set_difficulty :: "(u32 \<Rightarrow> gplayer \<Rightarrow> gplayer) \<Rightarrow> group_call \<Rightarrow> u32 \<Rightarrow> nat \<Rightarrow> group_world \<Rightarrow> group_world" where
  "set_difficulty f call difficulty g w =
     foldl (\<lambda>w (p, k). gw_emit [GCall p call] (upd_player p (f difficulty) w)) w (m_memberMgr (grp g w))"

definition SetDungeonDifficulty :: "u32 \<Rightarrow> nat \<Rightarrow> group_world \<Rightarrow> group_world" where
  "SetDungeonDifficulty difficulty g w =
     (let w = upd_group g (\<lambda>G. G\<lparr>m_dungeonDifficulty := difficulty\<rparr>) w;
          w = sql_unless_bg (UpdateDifficulty difficulty (m_dbStoreId (grp g w))) g w
      in set_difficulty (\<lambda>d pl. pl\<lparr>gp_dungeonDifficulty := d\<rparr>) SendDungeonDifficulty difficulty g w)"

definition SetRaidDifficulty :: "u32 \<Rightarrow> nat \<Rightarrow> group_world \<Rightarrow> group_world" where
  "SetRaidDifficulty difficulty g w =
     (let w = upd_group g (\<lambda>G. G\<lparr>m_raidDifficulty := difficulty\<rparr>) w;
          w = sql_unless_bg (UpdateRaidDifficulty difficulty (m_dbStoreId (grp g w))) g w
      in set_difficulty (\<lambda>d pl. pl\<lparr>gp_raidDifficulty := d\<rparr>) SendRaidDifficulty difficulty g w)"

text \<open>\<^verbatim>\<open>_homebindIfInstance\<close> and \<^verbatim>\<open>BroadcastGroupUpdate\<close>.\<close>

definition homebindIfInstance :: "group_env \<Rightarrow> u64 \<Rightarrow> group_world \<Rightarrow> group_world" where
  "homebindIfInstance e p w =
     (if \<not> pa_gm (ge_attr e p) \<and> pa_dungeonMap (ge_attr e p)
      then upd_player p (\<lambda>pl. pl\<lparr>m_InstanceValid := False\<rparr>) w else w)"

definition BroadcastGroupUpdate :: "nat \<Rightarrow> group_world \<Rightarrow> group_world" where
  "BroadcastGroupUpdate g w =
     gw_emit (map (\<lambda>s. GCall (slot_guid s) ForceGroupUpdate)
       (filter (\<lambda>s. find_player w (slot_guid s) \<noteq> None) (m_memberSlots (grp g w)))) w"

section \<open>Round robin\<close>

text \<open>
  \<^verbatim>\<open>UpdateLooterGuid\<close>: the search starts after the slot of the current looter, or at the end of
  the list when the looter is not a member, and continues from the start. \<open>eligible\<close>: in the
  world and near the looted object.
\<close>

definition eligible :: "group_env \<Rightarrow> group_world \<Rightarrow> MemberSlot \<Rightarrow> bool" where
  "eligible e w s \<longleftrightarrow> find_player w (slot_guid s) \<noteq> None \<and> pa_near (ge_attr e (slot_guid s))"

definition slots_upto :: "u64 \<Rightarrow> MemberSlot list \<Rightarrow> MemberSlot list \<times> MemberSlot list" where
  "slots_upto guid ss =
     (let i = length (takeWhile (\<lambda>s. slot_guid s \<noteq> guid) ss) in (take (i + 1) ss, drop (i + 1) ss))"

definition next_looter :: "group_env \<Rightarrow> group_world \<Rightarrow> u64 \<Rightarrow> MemberSlot list \<Rightarrow> MemberSlot option" where
  "next_looter e w old ss =
     (let (before_it, after_it) = slots_upto old ss in
      case find (eligible e w) after_it of
        Some s \<Rightarrow> Some s
      | None \<Rightarrow> find (eligible e w) before_it)"

definition UpdateLooterGuid :: "group_env \<Rightarrow> bool \<Rightarrow> nat \<Rightarrow> group_world \<Rightarrow> group_world" where
  "UpdateLooterGuid e ifneed g w =
     (let G = grp g w; old = m_looterGuid G in
      if m_lootMethod G = MASTER_LOOT \<or> m_lootMethod G = FREE_FOR_ALL then w
      else if ifneed \<and> (case getMemberSlot old G of Some s \<Rightarrow> eligible e w s | None \<Rightarrow> False) then w
      else case next_looter e w old (m_memberSlots G) of
        Some s \<Rightarrow>
          if old \<noteq> slot_guid s
          then SendUpdate e g (upd_group g (\<lambda>G. G\<lparr>m_looterGuid := slot_guid s\<rparr>) w)
          else w
      | None \<Rightarrow> SendUpdate e g (upd_group g (\<lambda>G. G\<lparr>m_looterGuid := 0\<rparr>) w))"

end
