(* ===== verification/Group_Loot.thy ===== *)
theory Group_Loot
  imports Group_Slots
begin

text \<open>
  Rolls for loot (\<^verbatim>\<open>src/src/server/game/Groups/Group.cpp\<close>): starting them for a loot (group loot,
  need before greed), counting votes, ending a roll, and its winner. A roll refers to its loot;
  when the loot is cleared the reference becomes empty and the roll invalid. Where the code
  indexes the items of a loot, an index beyond them is the error \<open>OutOfRange\<close>.
\<close>

definition ROLL_PASS :: u8 where "ROLL_PASS = 0"
definition ROLL_NEED :: u8 where "ROLL_NEED = 1"
definition ROLL_GREED :: u8 where "ROLL_GREED = 2"
definition ROLL_DISENCHANT :: u8 where "ROLL_DISENCHANT = 3"
definition MAX_ROLL_TYPE :: u8 where "MAX_ROLL_TYPE = 4"

definition ROLL_FLAG_TYPE_NEED :: u8 where "ROLL_FLAG_TYPE_NEED = 2"
definition ROLL_FLAG_TYPE_DISENCHANT :: u8 where "ROLL_FLAG_TYPE_DISENCHANT = 8"
definition ROLL_ALL_TYPE_NO_DISENCHANT :: u8 where "ROLL_ALL_TYPE_NO_DISENCHANT = 7"

definition SMSG_LOOT_START_ROLL :: u32 where "SMSG_LOOT_START_ROLL = 0x2227"
definition SMSG_LOOT_ROLL :: u32 where "SMSG_LOOT_ROLL = 0x6507"
definition SMSG_LOOT_ROLL_WON :: u32 where "SMSG_LOOT_ROLL_WON = 0x6617"
definition SMSG_LOOT_ALL_PASSED :: u32 where "SMSG_LOOT_ALL_PASSED = 0x6237"
definition SMSG_LOOT_MASTER_LIST :: u32 where "SMSG_LOOT_MASTER_LIST = 0x0325"
definition EQUIP_ERR_OK :: u32 where "EQUIP_ERR_OK = 0"

definition ACHIEVEMENT_CRITERIA_TYPE_ROLL_NEED_ON_LOOT :: u32 where
  "ACHIEVEMENT_CRITERIA_TYPE_ROLL_NEED_ON_LOOT = 50"
definition ACHIEVEMENT_CRITERIA_TYPE_ROLL_GREED_ON_LOOT :: u32 where
  "ACHIEVEMENT_CRITERIA_TYPE_ROLL_GREED_ON_LOOT = 51"
definition ACHIEVEMENT_CRITERIA_TYPE_CAST_SPELL :: u32 where
  "ACHIEVEMENT_CRITERIA_TYPE_CAST_SPELL = 29"

definition vote_number :: "RollVote \<Rightarrow> u8" where
  "vote_number v =
     (case v of PASS \<Rightarrow> 0 | NEED \<Rightarrow> 1 | GREED \<Rightarrow> 2 | DISENCHANT \<Rightarrow> 3 | NOT_EMITED_YET \<Rightarrow> 4 | NOT_VALID \<Rightarrow> 5)"

section \<open>Packets\<close>

text \<open>The players in the world whose vote satisfies a condition, in the order of the map.\<close>

definition voters :: "(RollVote \<Rightarrow> bool) \<Rightarrow> Roll \<Rightarrow> group_world \<Rightarrow> u64 list" where
  "voters P r w = map fst (filter (\<lambda>(p, v). find_player w p \<noteq> None \<and> P v) (playerVote r))"

definition start_roll_packet :: "u32 \<Rightarrow> u32 \<Rightarrow> u8 \<Rightarrow> Roll \<Rightarrow> u8 list" where
  "start_roll_packet countDown mapid mk r =
     le_bytes (itemGUID r) @ le_bytes mapid @ le_bytes (ucast (itemSlot r) :: u32)
     @ le_bytes (roll_itemid r) @ le_bytes (itemRandomSuffix r) @ le_bytes (itemRandomPropId r)
     @ le_bytes (ucast (itemCount r) :: u32) @ le_bytes countDown @ [mk, totalPlayersRolling r]"

definition SendLootStartRoll :: "u32 \<Rightarrow> u32 \<Rightarrow> Roll \<Rightarrow> group_world \<Rightarrow> group_world" where
  "SendLootStartRoll countDown mapid r w =
     gw_emit (map (\<lambda>p. GSend p SMSG_LOOT_START_ROLL (start_roll_packet countDown mapid (rollVoteMask r) r))
       (voters (\<lambda>v. v = NOT_EMITED_YET) r w)) w"

definition SendLootStartRollToPlayer :: "u32 \<Rightarrow> u32 \<Rightarrow> u64 \<Rightarrow> bool \<Rightarrow> Roll \<Rightarrow> group_world \<Rightarrow> group_world" where
  "SendLootStartRollToPlayer countDown mapid p canNeed r w =
     gw_emit [GSend p SMSG_LOOT_START_ROLL (start_roll_packet countDown mapid
       (if canNeed then rollVoteMask r else rollVoteMask r AND NOT ROLL_FLAG_TYPE_NEED) r)] w"

definition SendLootRoll :: "u64 \<Rightarrow> u64 \<Rightarrow> u32 \<Rightarrow> u8 \<Rightarrow> Roll \<Rightarrow> group_world \<Rightarrow> group_world" where
  "SendLootRoll sourceGuid targetGuid rollNumber rollType r w =
     gw_emit (map (\<lambda>p. GSend p SMSG_LOOT_ROLL
         (le_bytes sourceGuid @ le_bytes (ucast (itemSlot r) :: u32) @ le_bytes targetGuid
          @ le_bytes (roll_itemid r) @ le_bytes (itemRandomSuffix r) @ le_bytes (itemRandomPropId r)
          @ le_bytes rollNumber @ [rollType, 0]))
       (voters (\<lambda>v. v \<noteq> NOT_VALID) r w)) w"

definition SendLootRollWon :: "u64 \<Rightarrow> u64 \<Rightarrow> u32 \<Rightarrow> u8 \<Rightarrow> Roll \<Rightarrow> group_world \<Rightarrow> group_world" where
  "SendLootRollWon sourceGuid targetGuid rollNumber rollType r w =
     gw_emit (map (\<lambda>p. GSend p SMSG_LOOT_ROLL_WON
         (le_bytes sourceGuid @ le_bytes (ucast (itemSlot r) :: u32) @ le_bytes (roll_itemid r)
          @ le_bytes (itemRandomSuffix r) @ le_bytes (itemRandomPropId r) @ le_bytes targetGuid
          @ le_bytes rollNumber @ [rollType]))
       (voters (\<lambda>v. v \<noteq> NOT_VALID) r w)) w"

definition SendLootAllPassed :: "Roll \<Rightarrow> group_world \<Rightarrow> group_world" where
  "SendLootAllPassed r w =
     gw_emit (map (\<lambda>p. GSend p SMSG_LOOT_ALL_PASSED
         (le_bytes (itemGUID r) @ le_bytes (ucast (itemSlot r) :: u32) @ le_bytes (roll_itemid r)
          @ le_bytes (itemRandomPropId r) @ le_bytes (itemRandomSuffix r)))
       (voters (\<lambda>v. v \<noteq> NOT_VALID) r w)) w"

section \<open>The loot of a roll\<close>

definition roll_isValid :: "Roll \<Rightarrow> bool" where
  "roll_isValid r \<longleftrightarrow> roll_loot r \<noteq> None"

definition upd_loot :: "nat \<Rightarrow> (loot \<Rightarrow> loot) \<Rightarrow> group_world \<Rightarrow> group_world" where
  "upd_loot l f w = w\<lparr>gw_loots := (gw_loots w)(l := map_option f (gw_loots w l))\<rparr>"

definition get_loot :: "Roll \<Rightarrow> group_world \<Rightarrow> (nat \<times> loot) group_result" where
  "get_loot r w =
     (case roll_loot r of None \<Rightarrow> Inl NullPointer
      | Some l \<Rightarrow> (case gw_loots w l of None \<Rightarrow> Inl NullPointer | Some L \<Rightarrow> Inr (l, L)))"

text \<open>
  The item of a roll: slots beyond the ordinary items are quest items. \<open>slot_item\<close> reads it and
  \<open>upd_slot_item\<close> writes it.
\<close>

definition slot_item :: "nat \<Rightarrow> loot \<Rightarrow> loot_item group_result" where
  "slot_item s L =
     (if length (loot_items L) \<le> s then
        if s - length (loot_items L) < length (quest_items L)
        then Inr (quest_items L ! (s - length (loot_items L))) else Inl OutOfRange
      else Inr (loot_items L ! s))"

definition upd_slot_item :: "nat \<Rightarrow> (loot_item \<Rightarrow> loot_item) \<Rightarrow> loot \<Rightarrow> loot" where
  "upd_slot_item s f L =
     (if length (loot_items L) \<le> s then
        L\<lparr>quest_items := (quest_items L)[s - length (loot_items L) :=
            f (quest_items L ! (s - length (loot_items L)))]\<rparr>
      else L\<lparr>loot_items := (loot_items L)[s := f (loot_items L ! s)]\<rparr>)"

definition NotifyItemRemoved :: "nat \<Rightarrow> u8 \<Rightarrow> group_world \<Rightarrow> group_world" where
  "NotifyItemRemoved l lootIndex w =
     (case gw_loots w l of None \<Rightarrow> w
      | Some L \<Rightarrow>
          gw_emit (map (\<lambda>p. GCall p (SendNotifyLootItemRemoved lootIndex))
              (filter (\<lambda>p. find_player w p \<noteq> None) (PlayersLooting L)))
            (upd_loot l (\<lambda>L. L\<lparr>PlayersLooting := filter (\<lambda>p. find_player w p \<noteq> None) (PlayersLooting L)\<rparr>) w))"

text \<open>\<^verbatim>\<open>Loot::clear\<close>: its validator references are invalidated.\<close>

definition loot_clear :: "nat \<Rightarrow> group_world \<Rightarrow> group_world" where
  "loot_clear l w =
     (let w = upd_loot l (\<lambda>L. L\<lparr>loot_items := [], quest_items := [], unlootedCount := 0, PlayersLooting := []\<rparr>) w
      in w\<lparr>gw_groups := (\<lambda>g. map_option (\<lambda>G. G\<lparr>RollId :=
             map (\<lambda>r. if roll_loot r = Some l then r\<lparr>roll_loot := None\<rparr> else r) (RollId G)\<rparr>) (gw_groups w g))\<rparr>)"

section \<open>Ending a roll\<close>

text \<open>
  The loops over the votes: each player whose vote counts draws a number, and the first largest
  one wins. Before any draw the winner is the first player of the map, with number 0.
\<close>

definition draw :: "group_env \<Rightarrow> Roll \<Rightarrow> u64 \<Rightarrow> u8" where
  "draw e r p = ucast (ge_urand e (itemGUID r) p)"

definition better :: "group_env \<Rightarrow> Roll \<Rightarrow> (RollVote \<Rightarrow> bool) \<Rightarrow> u64 \<times> u8 \<times> RollVote \<Rightarrow> u64 \<times> RollVote \<Rightarrow> u64 \<times> u8 \<times> RollVote" where
  "better e r P best pv =
     (case (best, pv) of ((maxguid, maxresul, vote), (p, v)) \<Rightarrow>
        if \<not> P v then best
        else if maxresul < draw e r p then (p, draw e r p, v) else best)"

definition roll_winner :: "group_env \<Rightarrow> (RollVote \<Rightarrow> bool) \<Rightarrow> Roll \<Rightarrow> u64 \<times> u8 \<times> RollVote" where
  "roll_winner e P r = foldl (better e r P) (fst (hd (playerVote r)), 0, NOT_VALID) (playerVote r)"

definition announce_draws :: "group_env \<Rightarrow> (RollVote \<Rightarrow> bool) \<Rightarrow> Roll \<Rightarrow> group_world \<Rightarrow> group_world" where
  "announce_draws e P r w =
     foldl (\<lambda>w (p, v). if P v then SendLootRoll 0 p (ucast (draw e r p)) (vote_number v) r w else w)
       w (playerVote r)"

definition take_item :: "nat \<Rightarrow> Roll \<Rightarrow> group_world \<Rightarrow> group_world" where
  "take_item l r w =
     (let w = upd_loot l (upd_slot_item (unat (itemSlot r)) (\<lambda>i. i\<lparr>is_looted := True\<rparr>)) w;
          w = NotifyItemRemoved l (itemSlot r) w
      in upd_loot l (\<lambda>L. L\<lparr>unlootedCount := unlootedCount L - 1\<rparr>) w)"

definition unblock_item :: "nat \<Rightarrow> Roll \<Rightarrow> group_world \<Rightarrow> group_world" where
  "unblock_item l r w = upd_loot l (upd_slot_item (unat (itemSlot r)) (\<lambda>i. i\<lparr>is_blocked := False\<rparr>)) w"

definition give_item :: "group_env \<Rightarrow> u64 \<Rightarrow> nat \<Rightarrow> loot_item \<Rightarrow> Roll \<Rightarrow> group_world \<Rightarrow> group_world" where
  "give_item e p l item r w =
     (let msg = ge_canStore e p (roll_itemid r) (li_count item) in
      if msg = EQUIP_ERR_OK then
        gw_emit [GCall p (StoreNewItem (roll_itemid r) (li_randomPropertyId item) (li_count item))] (take_item l r w)
      else gw_emit [GCall p (SendEquipError msg (roll_itemid r))] (unblock_item l r w))"

definition need_result :: "group_env \<Rightarrow> Roll \<Rightarrow> group_world \<Rightarrow> group_world group_result" where
  "need_result e r w =
     (let w = announce_draws e (\<lambda>v. v = NEED) r w;
          (maxguid, maxresul, vote) = roll_winner e (\<lambda>v. v = NEED) r;
          w = SendLootRollWon 0 maxguid (ucast maxresul) ROLL_NEED r w
      in if find_player w maxguid = None then Inr w
         else
           let w = gw_emit [GCall maxguid (UpdateAchievementCriteria
                 ACHIEVEMENT_CRITERIA_TYPE_ROLL_NEED_ON_LOOT (roll_itemid r))] w
           in rbind (get_loot r w) (\<lambda>(l, L). rbind (slot_item (unat (itemSlot r)) L) (\<lambda>item.
              let stored = (ge_canStore e maxguid (roll_itemid r) (li_count item) = EQUIP_ERR_OK);
                  w = give_item e maxguid l item r w
              in Inr (if stored \<and> ge_guildNews e maxguid (li_itemid item)
                      then gw_emit [GCall maxguid (GuildNewsItemLooted (li_itemid item))] w else w))))"

definition greed_vote :: "RollVote \<Rightarrow> bool" where
  "greed_vote v \<longleftrightarrow> v = GREED \<or> v = DISENCHANT"

definition disenchant_item :: "group_env \<Rightarrow> u64 \<Rightarrow> nat \<Rightarrow> Roll \<Rightarrow> group_world \<Rightarrow> group_world group_result" where
  "disenchant_item e p l r w =
     (let w = take_item l r w in
      case ge_item e (roll_itemid r) of None \<Rightarrow> Inl NullPointer
      | Some t \<Rightarrow>
          Inr (gw_emit [GCall p (AutoStoreDisenchantLoot (it_DisenchantID t)),
                        GCall p (UpdateAchievementCriteria ACHIEVEMENT_CRITERIA_TYPE_CAST_SPELL 13262)] w))"

definition greed_result :: "group_env \<Rightarrow> Roll \<Rightarrow> group_world \<Rightarrow> group_world group_result" where
  "greed_result e r w =
     (let w = announce_draws e greed_vote r w;
          (maxguid, maxresul, rollvote) = roll_winner e greed_vote r;
          w = SendLootRollWon 0 maxguid (ucast maxresul) (vote_number rollvote) r w
      in if find_player w maxguid = None then Inr w
         else
           let w = gw_emit [GCall maxguid (UpdateAchievementCriteria
                 ACHIEVEMENT_CRITERIA_TYPE_ROLL_GREED_ON_LOOT (roll_itemid r))] w
           in rbind (get_loot r w) (\<lambda>(l, L). rbind (slot_item (unat (itemSlot r)) L) (\<lambda>item.
              if rollvote = GREED then Inr (give_item e maxguid l item r w)
              else if rollvote = DISENCHANT then disenchant_item e maxguid l r w
              else Inr w)))"

definition all_passed :: "Roll \<Rightarrow> group_world \<Rightarrow> group_world group_result" where
  "all_passed r w =
     (let w = SendLootAllPassed r w in
      rbind (get_loot r w) (\<lambda>(l, L). rbind (slot_item (unat (itemSlot r)) L) (\<lambda>item.
      Inr (unblock_item l r w))))"

definition erase_roll :: "nat \<Rightarrow> nat \<Rightarrow> group_world \<Rightarrow> group_world" where
  "erase_roll i g w = upd_group g (\<lambda>G. G\<lparr>RollId := take i (RollId G) @ drop (Suc i) (RollId G)\<rparr>) w"

definition CountTheRoll :: "group_env \<Rightarrow> nat \<Rightarrow> nat \<Rightarrow> group_world \<Rightarrow> group_world group_result" where
  "CountTheRoll e i g w =
     (let r = RollId (grp g w) ! i in
      if \<not> roll_isValid r then Inr (erase_roll i g w)
      else
        rbind (if 0 < totalNeed r then if playerVote r \<noteq> [] then need_result e r w else Inr w
               else if 0 < totalGreed r then if playerVote r \<noteq> [] then greed_result e r w else Inr w
               else all_passed r w) (\<lambda>w.
        Inr (erase_roll i g w)))"

text \<open>Ending a roll touches the loot and the output; only \<open>erase_roll\<close> changes a group.\<close>

definition loot_only :: "group_world \<Rightarrow> group_world \<Rightarrow> bool" where
  "loot_only w w' \<longleftrightarrow> gw_groups w' = gw_groups w \<and> gw_players w' = gw_players w \<and> gw_next w' = gw_next w"

lemma loot_only_refl [simp]: "loot_only w w"
  by (simp add: loot_only_def)

lemma loot_only_step: "loot_only v v' \<Longrightarrow> loot_only w v' = loot_only w v"
  by (auto simp: loot_only_def)

lemma loot_only_foldl: "(\<And>w x. loot_only w (f w x)) \<Longrightarrow> loot_only w (foldl f w xs)"
  by (induction xs arbitrary: w) (auto simp: loot_only_def)

lemma loot_only_basic:
  "loot_only w (gw_emit es w)" "loot_only w (upd_loot l f w)" "loot_only w (SendLootRoll a b n t r w)"
  "loot_only w (SendLootRollWon a b n t r w)" "loot_only w (SendLootAllPassed r w)"
  "loot_only w (SendLootStartRoll c m r w)" "loot_only w (SendLootStartRollToPlayer c m p ok r w)"
  by (simp_all add: loot_only_def upd_loot_def SendLootRoll_def SendLootRollWon_def SendLootAllPassed_def
      SendLootStartRoll_def SendLootStartRollToPlayer_def)

lemmas loot_only_steps [simp] = loot_only_basic loot_only_basic [THEN loot_only_step]

lemma loot_only_Notify: "loot_only w (NotifyItemRemoved l s w)"
  by (simp add: NotifyItemRemoved_def split: option.split)

lemma loot_only_draws: "loot_only w (announce_draws e P r w)"
  unfolding announce_draws_def by (rule loot_only_foldl) auto

lemmas loot_only_steps2 [simp] =
  loot_only_Notify loot_only_draws loot_only_Notify [THEN loot_only_step] loot_only_draws [THEN loot_only_step]

lemma loot_only_item:
  "loot_only w (take_item l r w)" "loot_only w (unblock_item l r w)" "loot_only w (give_item e p l i r w)"
  by (simp_all add: take_item_def unblock_item_def give_item_def Let_def)

lemmas loot_only_steps3 [simp] = loot_only_item loot_only_item [THEN loot_only_step]

lemma roll_result_loot_only:
  "need_result e r w = Inr w' \<Longrightarrow> loot_only w w'" "greed_result e r w = Inr w' \<Longrightarrow> loot_only w w'"
  "all_passed r w = Inr w' \<Longrightarrow> loot_only w w'"
  by (auto simp: need_result_def greed_result_def all_passed_def disenchant_item_def Let_def
      elim!: rbind_InrE split: prod.splits if_splits option.splits)

lemma CountTheRoll_erases:
  assumes "CountTheRoll e i g w = Inr w'"
  obtains v where "loot_only w v" and "w' = erase_roll i g v"
proof (cases "roll_isValid (RollId (grp g w) ! i)")
  case True
  with assms show ?thesis
    by (auto simp: CountTheRoll_def Let_def elim!: rbind_InrE dest: roll_result_loot_only
        split: if_splits intro: that that [OF loot_only_refl])
next
  case False
  with assms show ?thesis by (auto simp: CountTheRoll_def Let_def intro: that [of w])
qed

lemma CountTheRoll_groups:
  assumes "CountTheRoll e i g w = Inr w'"
  shows "gw_groups w' = gw_groups (erase_roll i g w)"
proof -
  from assms obtain v where "loot_only w v" "w' = erase_roll i g v" by (rule CountTheRoll_erases)
  then show ?thesis by (simp add: loot_only_def erase_roll_def upd_group_def)
qed

lemma CountTheRoll_shorter:
  assumes "CountTheRoll e i g w = Inr w'" and "i < length (RollId (grp g w))"
  shows "length (RollId (grp g w')) < length (RollId (grp g w))"
proof (cases "gw_groups w g")
  case None
  with assms(2) show ?thesis by (simp add: grp_def group_new_def)
next
  case (Some G)
  have "grp g w' = grp g (erase_roll i g w)" by (rule grp_cong [OF CountTheRoll_groups [OF assms(1)]])
  with Some assms(2) show ?thesis by (simp add: erase_roll_def)
qed

text \<open>
  \<^verbatim>\<open>EndRoll\<close>: every roll of the loot is counted; after each the search starts again at the front.
\<close>

function EndRoll :: "group_env \<Rightarrow> nat \<Rightarrow> nat \<Rightarrow> group_world \<Rightarrow> group_world group_result" where
  "EndRoll e l g w =
     (case find (\<lambda>i. roll_loot (RollId (grp g w) ! i) = Some l) [0..<length (RollId (grp g w))] of
        None \<Rightarrow> Inr w
      | Some i \<Rightarrow> rbind (CountTheRoll e i g w) (EndRoll e l g))"
  by pat_completeness auto

termination
proof (relation "measure (\<lambda>(e, l, g, w). length (RollId (grp g w)))")
  fix e l g w i w'
  assume f: "find (\<lambda>i. roll_loot (RollId (grp g w) ! i) = Some l) [0..<length (RollId (grp g w))] = Some i"
    and c: "CountTheRoll e i g w = Inr w'"
  from f have "i < length (RollId (grp g w))" by (auto simp: find_Some_iff)
  with CountTheRoll_shorter [OF c] show "((e, l, g, w'), e, l, g, w)
      \<in> measure (\<lambda>(e, l, g, w). length (RollId (grp g w)))" by simp
qed simp

declare EndRoll.simps [simp del]

section \<open>Voting\<close>

definition roll_index :: "u64 \<Rightarrow> group \<Rightarrow> nat option" where
  "roll_index guid G =
     find (\<lambda>i. itemGUID (RollId G ! i) = guid \<and> roll_isValid (RollId G ! i)) [0..<length (RollId G)]"

definition upd_roll :: "nat \<Rightarrow> (Roll \<Rightarrow> Roll) \<Rightarrow> nat \<Rightarrow> group_world \<Rightarrow> group_world" where
  "upd_roll i f g w = upd_group g (\<lambda>G. G\<lparr>RollId := (RollId G)[i := f (RollId G ! i)]\<rparr>) w"

definition cast_vote :: "u64 \<Rightarrow> u8 \<Rightarrow> Roll \<Rightarrow> Roll" where
  "cast_vote p choice r =
     (if choice = ROLL_PASS then
        r\<lparr>totalPass := totalPass r + 1, playerVote := sm_set p PASS (playerVote r)\<rparr>
      else if choice = ROLL_NEED then
        r\<lparr>totalNeed := totalNeed r + 1, playerVote := sm_set p NEED (playerVote r)\<rparr>
      else if choice = ROLL_GREED then
        r\<lparr>totalGreed := totalGreed r + 1, playerVote := sm_set p GREED (playerVote r)\<rparr>
      else if choice = ROLL_DISENCHANT then
        r\<lparr>totalGreed := totalGreed r + 1, playerVote := sm_set p DISENCHANT (playerVote r)\<rparr>
      else r)"

definition announce_vote :: "u64 \<Rightarrow> u8 \<Rightarrow> Roll \<Rightarrow> group_world \<Rightarrow> group_world" where
  "announce_vote p choice r w =
     (if choice = ROLL_NEED then SendLootRoll 0 p 0 0 r w
      else if choice \<in> {ROLL_PASS, ROLL_GREED, ROLL_DISENCHANT} then SendLootRoll 0 p (- 1) choice r w
      else w)"

definition all_voted :: "Roll \<Rightarrow> bool" where
  "all_voted r \<longleftrightarrow>
     unat (totalPlayersRolling r) \<le> unat (totalPass r) + unat (totalNeed r) + unat (totalGreed r)"

definition CountRollVote :: "group_env \<Rightarrow> u64 \<Rightarrow> u64 \<Rightarrow> u8 \<Rightarrow> nat \<Rightarrow> group_world \<Rightarrow> group_world group_result" where
  "CountRollVote e playerGUID guid choice g w =
     (case roll_index guid (grp g w) of None \<Rightarrow> Inr w
      | Some i \<Rightarrow>
          let r = RollId (grp g w) ! i in
          if sm_find (playerVote r) playerGUID = None then Inr w
          else if (case roll_loot r of None \<Rightarrow> False
                   | Some l \<Rightarrow> (case gw_loots w l of Some L \<Rightarrow> loot_items L = [] | None \<Rightarrow> False)) then Inr w
          else
            let w = announce_vote playerGUID choice r w;
                w = upd_roll i (cast_vote playerGUID choice) g w
            in if all_voted (RollId (grp g w) ! i) then CountTheRoll e i g w else Inr w)"

text \<open>The part of \<^verbatim>\<open>RemoveMember\<close> on the rolls: the vote of the leaving player is withdrawn.\<close>

definition withdraw_vote :: "u64 \<Rightarrow> RollVote \<Rightarrow> Roll \<Rightarrow> Roll" where
  "withdraw_vote guid v r =
     (let r = (if v = GREED \<or> v = DISENCHANT then r\<lparr>totalGreed := totalGreed r - 1\<rparr>
               else if v = NEED then r\<lparr>totalNeed := totalNeed r - 1\<rparr>
               else if v = PASS then r\<lparr>totalPass := totalPass r - 1\<rparr> else r);
          r = (if v \<noteq> NOT_VALID then r\<lparr>totalPlayersRolling := totalPlayersRolling r - 1\<rparr> else r)
      in r\<lparr>playerVote := sm_erase guid (playerVote r)\<rparr>)"

fun remove_from_rolls :: "group_env \<Rightarrow> u64 \<Rightarrow> nat list \<Rightarrow> nat \<Rightarrow> group_world \<Rightarrow> group_world group_result" where
  "remove_from_rolls e guid [] g w = Inr w"
| "remove_from_rolls e guid (i # is) g w =
     (case sm_find (playerVote (RollId (grp g w) ! i)) guid of
        None \<Rightarrow> remove_from_rolls e guid is g w
      | Some v \<Rightarrow>
          let w = upd_roll i (withdraw_vote guid v) g w
          in rbind (CountRollVote e guid (itemGUID (RollId (grp g w) ! i)) MAX_ROLL_TYPE g w)
               (remove_from_rolls e guid is g))"

section \<open>Starting rolls\<close>

definition roll_new :: "u64 \<Rightarrow> loot_item \<Rightarrow> Roll" where
  "roll_new guid li =
     \<lparr>itemGUID = guid, roll_itemid = li_itemid li, itemRandomPropId = li_randomPropertyId li,
      itemRandomSuffix = li_randomSuffix li, itemCount = li_count li, playerVote = [],
      totalPlayersRolling = 0, totalNeed = 0, totalGreed = 0, totalPass = 0, itemSlot = 0,
      rollVoteMask = ROLL_ALL_TYPE_NO_DISENCHANT, roll_loot = None\<rparr>"

definition add_voter :: "group_env \<Rightarrow> bool \<Rightarrow> loot_item \<Rightarrow> group_world \<Rightarrow> Roll \<Rightarrow> u64 \<Rightarrow> Roll" where
  "add_voter e autopass li w r p =
     (if ge_allowed e li p \<and> pa_near (ge_attr e p) then
        let r = r\<lparr>totalPlayersRolling := totalPlayersRolling r + 1\<rparr> in
        if autopass \<and> (case gw_players w p of Some pl \<Rightarrow> m_bPassOnGroupLoot pl | None \<Rightarrow> False)
        then r\<lparr>playerVote := sm_set p PASS (playerVote r), totalPass := totalPass r + 1\<rparr>
        else r\<lparr>playerVote := sm_set p NOT_EMITED_YET (playerVote r)\<rparr>
      else r)"

definition roll_mask :: "bool \<Rightarrow> group \<Rightarrow> item_attr \<Rightarrow> Roll \<Rightarrow> Roll" where
  "roll_mask nbg G t r =
     (let r = (if it_DisenchantID t \<noteq> 0 \<and> it_RequiredDisenchantSkill t \<le> m_maxEnchantingLevel G
               then r\<lparr>rollVoteMask := rollVoteMask r OR ROLL_FLAG_TYPE_DISENCHANT\<rparr> else r)
      in if nbg \<and> it_needDisabled t then r\<lparr>rollVoteMask := rollVoteMask r AND NOT ROLL_FLAG_TYPE_NEED\<rparr> else r)"

definition announce_passes :: "Roll \<Rightarrow> group_world \<Rightarrow> group_world" where
  "announce_passes r w =
     foldl (\<lambda>w p. SendLootRoll (itemGUID r) p (- 1) ROLL_PASS r w) w (voters (\<lambda>v. v = PASS) r w)"

definition announce_start :: "bool \<Rightarrow> group_env \<Rightarrow> u32 \<Rightarrow> Roll \<Rightarrow> group_world \<Rightarrow> group_world" where
  "announce_start nbg e mapid r w =
     (if nbg then
        foldl (\<lambda>w (p, v). if find_player w p = None then w
            else if v = PASS then SendLootRoll (itemGUID r) p (- 1) ROLL_PASS r w
            else SendLootStartRollToPlayer 60000 mapid p (ge_canRollLfg e p (roll_itemid r)) r w)
          w (playerVote r)
      else SendLootStartRoll 60000 mapid r (if totalPass r \<noteq> 0 then announce_passes r w else w))"

text \<open>
  The two functions for one item, which differ in the mask and in the packets (\<open>nbg\<close> is
  \<^verbatim>\<open>NeedBeforeGreed\<close>). \<open>start_roll\<close> runs for an item that is rolled for.
\<close>

definition start_roll :: "bool \<Rightarrow> group_env \<Rightarrow> u32 \<Rightarrow> nat \<Rightarrow> bool \<Rightarrow> u8 \<Rightarrow> loot_item \<Rightarrow> nat \<Rightarrow> group_world \<Rightarrow> group_world" where
  "start_roll nbg e mapid l quest slot li g w =
     (let newitemGUID = MAKE_NEW_GUID (gw_itemGuid w) 0 HIGHGUID_ITEM;
          w = w\<lparr>gw_itemGuid := gw_itemGuid w + 1\<rparr>;
          r = foldl (add_voter e (\<not> quest) li w) (roll_new newitemGUID li) (map fst (m_memberMgr (grp g w)))
      in if 0 < totalPlayersRolling r then
           let r = r\<lparr>roll_loot := Some l, itemSlot := slot\<rparr>;
               r = (case (quest, ge_item e (li_itemid li)) of
                      (False, Some t) \<Rightarrow> roll_mask nbg (grp g w) t r | _ \<Rightarrow> r);
               w = upd_loot l (upd_slot_item (unat slot) (\<lambda>i. i\<lparr>is_blocked := True\<rparr>)) w;
               w = announce_start nbg e mapid r w;
               w = upd_group g (\<lambda>G. G\<lparr>RollId := RollId G @ [r]\<rparr>) w
           in gw_emit [GSetLootTimer 60000 (GUID_LOPART (g_guid (grp g w)))] w
         else w)"

definition loot_one :: "bool \<Rightarrow> group_env \<Rightarrow> u32 \<Rightarrow> nat \<Rightarrow> nat \<Rightarrow> nat \<Rightarrow> group_world \<Rightarrow> group_world group_result" where
  "loot_one nbg e mapid l i g w =
     (case gw_loots w l of None \<Rightarrow> Inl NullPointer
      | Some L \<Rightarrow>
          if i < length (loot_items L) then
            let li = loot_items L ! i in
            if freeforall li then Inr w
            else case ge_item e (li_itemid li) of
              None \<Rightarrow> if nbg then Inl NullPointer else Inr w
            | Some t \<Rightarrow>
                if m_lootThreshold (grp g w) \<le> it_Quality t
                then Inr (start_roll nbg e mapid l False (of_nat i) li g w)
                else Inr (upd_loot l (upd_slot_item i (\<lambda>x. x\<lparr>is_underthreshold := True\<rparr>)) w)
          else
            let li = quest_items L ! (i - length (loot_items L)) in
            if \<not> follow_loot_rules li then Inr w
            else if \<not> nbg \<and> ge_item e (li_itemid li) = None then Inr w
            else Inr (start_roll nbg e mapid l True (of_nat i) li g w))"

fun loot_loop :: "bool \<Rightarrow> group_env \<Rightarrow> u32 \<Rightarrow> nat \<Rightarrow> nat list \<Rightarrow> nat \<Rightarrow> group_world \<Rightarrow> group_world group_result" where
  "loot_loop nbg e mapid l [] g w = Inr w"
| "loot_loop nbg e mapid l (i # is) g w = rbind (loot_one nbg e mapid l i g w) (loot_loop nbg e mapid l is g)"

definition loot_slots :: "nat \<Rightarrow> group_world \<Rightarrow> nat list" where
  "loot_slots l w =
     (case gw_loots w l of None \<Rightarrow> [] | Some L \<Rightarrow> [0..<length (loot_items L) + length (quest_items L)])"

definition GroupLoot :: "group_env \<Rightarrow> u32 \<Rightarrow> nat \<Rightarrow> nat \<Rightarrow> group_world \<Rightarrow> group_world group_result" where
  "GroupLoot e mapid l g w = loot_loop False e mapid l (loot_slots l w) g w"

definition NeedBeforeGreed :: "group_env \<Rightarrow> u32 \<Rightarrow> nat \<Rightarrow> nat \<Rightarrow> group_world \<Rightarrow> group_world group_result" where
  "NeedBeforeGreed e mapid l g w = loot_loop True e mapid l (loot_slots l w) g w"

text \<open>
  \<^verbatim>\<open>MasterLoot\<close>: the list is sent to the members near the object, those in the world being on it;
  the count in front is overwritten by the number of players listed.
\<close>

definition MasterLoot :: "group_env \<Rightarrow> nat \<Rightarrow> group_world \<Rightarrow> group_world" where
  "MasterLoot e g w =
     (let near = filter (\<lambda>p. pa_near (ge_attr e p)) (map fst (m_memberMgr (grp g w)));
          listed = filter (\<lambda>p. find_player w p \<noteq> None) near;
          data = [of_nat (length listed)] @ concat (map le_bytes listed)
      in gw_emit (map (\<lambda>p. GSend p SMSG_LOOT_MASTER_LIST data) near) w)"

end
