(* ===== verification/Group_Members.thy ===== *)
theory Group_Members
  imports Group_Loot
begin

text \<open>
  Membership (\<^verbatim>\<open>src/src/server/game/Groups/Group.cpp\<close>): invitations, adding and removing members,
  the leader, disbanding, moving members between subgroups, creating a group and loading it from
  the database; and the store of groups (\<^verbatim>\<open>src/src/server/game/Groups/GroupMgr.cpp\<close>).
  The boolean result of \<^verbatim>\<open>AddMember\<close> and \<^verbatim>\<open>RemoveMember\<close> is returned with the new state.
  A null player is a guid without a \<^verbatim>\<open>Player\<close> object.
\<close>

section \<open>The store of groups\<close>

definition upd_mgr :: "(group_mgr \<Rightarrow> group_mgr) \<Rightarrow> group_world \<Rightarrow> group_world" where
  "upd_mgr f w = w\<lparr>gw_mgr := f (gw_mgr w)\<rparr>"

definition mgr_new :: group_mgr where
  "mgr_new = \<lparr>NextGroupDbStoreId = 1, NextGroupId = 1, GroupDbStore = [], GroupStore = []\<rparr>"

definition slot_free :: "nat option list \<Rightarrow> nat \<Rightarrow> bool" where
  "slot_free store i \<longleftrightarrow> (i < length store \<longrightarrow> store ! i = None)"

function free_from :: "nat option list \<Rightarrow> nat \<Rightarrow> nat option" where
  "free_from store i =
     (if 0xFFFFFFFF \<le> i then None else if slot_free store i then Some i else free_from store (Suc i))"
  by pat_completeness auto

termination by (relation "measure (\<lambda>(store, i). 0xFFFFFFFF - i)") auto

declare free_from.simps [simp del]

text \<open>
  When the search finds nothing, the increment in the loop's initialisation has already been
  done, so the test \<^verbatim>\<open>newStorageId == NextGroupDbStoreId\<close> only holds when it wraps around to the
  same value, which it does not.
\<close>

definition GenerateNewGroupDbStoreId :: "group_world \<Rightarrow> u32 \<times> group_world" where
  "GenerateNewGroupDbStoreId w =
     (let new = NextGroupDbStoreId (gw_mgr w);
          next_id = (case free_from (GroupDbStore (gw_mgr w)) (unat (new + 1)) of
                       Some i \<Rightarrow> of_nat i | None \<Rightarrow> new + 1);
          w = upd_mgr (\<lambda>m. m\<lparr>NextGroupDbStoreId := next_id\<rparr>) w
      in (new, if new = next_id then gw_emit [GStopWorld] w else w))"

definition RegisterGroupDbStoreId :: "u32 \<Rightarrow> nat \<Rightarrow> group_mgr \<Rightarrow> group_mgr" where
  "RegisterGroupDbStoreId storageId g m =
     (let store = (if length (GroupDbStore m) \<le> unat storageId
                   then GroupDbStore m @ replicate (unat storageId + 1 - length (GroupDbStore m)) None
                   else GroupDbStore m)
      in m\<lparr>GroupDbStore := store[unat storageId := Some g]\<rparr>)"

definition FreeGroupDbStoreId :: "u32 \<Rightarrow> group_mgr \<Rightarrow> group_mgr group_result" where
  "FreeGroupDbStoreId storageId m =
     (let m = (if storageId < NextGroupDbStoreId m then m\<lparr>NextGroupDbStoreId := storageId\<rparr> else m)
      in if unat storageId < length (GroupDbStore m)
         then Inr (m\<lparr>GroupDbStore := (GroupDbStore m)[unat storageId := None]\<rparr>) else Inl OutOfRange)"

definition GetGroupByDbStoreId :: "u32 \<Rightarrow> group_mgr \<Rightarrow> nat option" where
  "GetGroupByDbStoreId storageId m =
     (if unat storageId < length (GroupDbStore m) then GroupDbStore m ! unat storageId else None)"

definition GenerateGroupId :: "group_world \<Rightarrow> u32 \<times> group_world" where
  "GenerateGroupId w =
     (let n = NextGroupId (gw_mgr w);
          w = (if 0xFFFFFFFE \<le> n then gw_emit [GStopWorld] w else w)
      in (n, upd_mgr (\<lambda>m. m\<lparr>NextGroupId := n + 1\<rparr>) w))"

definition GetGroupByGUID :: "u32 \<Rightarrow> group_mgr \<Rightarrow> nat option" where
  "GetGroupByGUID groupId m = sm_find (GroupStore m) groupId"

definition mgr_AddGroup :: "nat \<Rightarrow> group_world \<Rightarrow> group_world" where
  "mgr_AddGroup g w =
     upd_mgr (\<lambda>m. m\<lparr>GroupStore := sm_set (GUID_LOPART (g_guid (grp g w))) g (GroupStore m)\<rparr>) w"

definition mgr_RemoveGroup :: "nat \<Rightarrow> group_world \<Rightarrow> group_world" where
  "mgr_RemoveGroup g w =
     upd_mgr (\<lambda>m. m\<lparr>GroupStore := sm_erase (GUID_LOPART (g_guid (grp g w))) (GroupStore m)\<rparr>) w"

text \<open>\<^verbatim>\<open>new Group\<close>: a fresh address.\<close>

definition group_alloc :: "group_env \<Rightarrow> group_world \<Rightarrow> nat \<times> group_world" where
  "group_alloc e w =
     (gw_next w, w\<lparr>gw_next := gw_next w + 1,
                   gw_groups := (gw_groups w)(gw_next w := Some (group_new (ge_garbage e)))\<rparr>)"

section \<open>Invitations\<close>

definition RemoveInvite :: "u64 \<Rightarrow> nat \<Rightarrow> group_world \<Rightarrow> group_world" where
  "RemoveInvite p g w =
     (if gw_players w p = None then w
      else SetGroupInvite None p (upd_group g (\<lambda>G. G\<lparr>m_invitees := ss_erase p (m_invitees G)\<rparr>) w))"

definition RemoveAllInvites :: "nat \<Rightarrow> group_world \<Rightarrow> group_world group_result" where
  "RemoveAllInvites g w =
     (if list_ex (\<lambda>p. gw_players w p = None) (m_invitees (grp g w)) then Inl DanglingPlayer
      else Inr (upd_group g (\<lambda>G. G\<lparr>m_invitees := []\<rparr>)
             (foldl (\<lambda>w p. SetGroupInvite None p w) w (m_invitees (grp g w)))))"

text \<open>The player's group for an invitation: the original one while in a battleground or battlefield raid.\<close>

definition AddInvite :: "u64 \<Rightarrow> nat \<Rightarrow> group_world \<Rightarrow> (bool \<times> group_world) group_result" where
  "AddInvite p g w =
     (if gw_players w p = None \<or> invite_of w p \<noteq> None then Inr (False, w)
      else
        let joined = (\<lambda>h. case h of Some h \<Rightarrow> isBGGroup (grp h w) \<or> isBFGroup (grp h w) | None \<Rightarrow> False);
            h = (if joined (group_of w p) then original_group_of w p else group_of w p)
        in if (case group_of w p of Some k \<Rightarrow> gw_groups w k = None | None \<Rightarrow> False) then Inl DanglingGroup
           else if h \<noteq> None then Inr (False, w)
           else
             let w = RemoveInvite p g w;
                 w = upd_group g (\<lambda>G. G\<lparr>m_invitees := ss_insert p (m_invitees G)\<rparr>) w;
                 w = SetGroupInvite (Some g) p w
             in Inr (True, gw_emit [GHookInvite p] w))"

definition AddLeaderInvite :: "u64 \<Rightarrow> nat \<Rightarrow> group_world \<Rightarrow> (bool \<times> group_world) group_result" where
  "AddLeaderInvite p g w =
     rbind (AddInvite p g w) (\<lambda>(added, w).
     if \<not> added then Inr (False, w)
     else Inr (True, upd_group g (\<lambda>G. G\<lparr>m_leaderGuid := p,
            m_leaderName := (case gw_players w p of Some pl \<Rightarrow> gp_name pl | None \<Rightarrow> [])\<rparr>) w))"

section \<open>Adding a member\<close>

text \<open>The first subgroup with a free place; without counters there is only subgroup 0.\<close>

definition free_subgroup :: "group \<Rightarrow> u8 option" where
  "free_subgroup G =
     (case m_subGroupsCounts G of None \<Rightarrow> Some 0
      | Some cs \<Rightarrow> map_option of_nat (find (\<lambda>i. unat (cs ! i) < MAXGROUPSIZE) [0..<MAX_RAID_SUBGROUPS]))"

definition LEVELREQUIREMENT_HEROIC :: u32 where "LEVELREQUIREMENT_HEROIC = 70"

definition attach_player :: "u64 \<Rightarrow> u8 \<Rightarrow> nat \<Rightarrow> group_world \<Rightarrow> group_world group_result" where
  "attach_player p sg g w =
     (if group_of w p \<noteq> None then
        if isBGGroup (grp g w) \<or> isBFGroup (grp g w) then SetBattlegroundOrBattlefieldRaid g sg p w
        else SetOriginalGroup (Some g) sg p w
      else SetGroup (Some g) sg p w)"

definition adopt_difficulty :: "group_env \<Rightarrow> u64 \<Rightarrow> nat \<Rightarrow> group_world \<Rightarrow> group_world" where
  "adopt_difficulty e p g w =
     (if group_IsLeader p (grp g w) \<or> isBGGroup (grp g w) \<or> isBFGroup (grp g w) then w
      else
        let w = gw_emit [GCall p (ResetPlayerInstances False), GCall p (ResetPlayerInstances True)] w in
        if pa_level (ge_attr e p) < LEVELREQUIREMENT_HEROIC then w
        else
          let dd = m_dungeonDifficulty (grp g w); rd = m_raidDifficulty (grp g w);
              pl_dd = (case gw_players w p of Some pl \<Rightarrow> gp_dungeonDifficulty pl | None \<Rightarrow> dd);
              pl_rd = (case gw_players w p of Some pl \<Rightarrow> gp_raidDifficulty pl | None \<Rightarrow> rd);
              w = (if pl_dd \<noteq> dd then gw_emit [GCall p SendDungeonDifficulty]
                     (upd_player p (\<lambda>pl. pl\<lparr>gp_dungeonDifficulty := dd\<rparr>) w) else w)
          in if pl_rd \<noteq> rd then gw_emit [GCall p SendRaidDifficulty]
                (upd_player p (\<lambda>pl. pl\<lparr>gp_raidDifficulty := rd\<rparr>) w) else w)"

definition welcome_member :: "group_env \<Rightarrow> u64 \<Rightarrow> nat \<Rightarrow> group_world \<Rightarrow> group_world" where
  "welcome_member e p g w =
     (let w = adopt_difficulty e p g w;
          w = gw_emit ([GCall p SetGroupUpdateFlag, GCall p UpdatePlayerOutOfRange]
                @ (if isRaidGroup (grp g w) then [GCall p UpdateForQuestWorldObjects] else [])
                @ [GCall p BroadcastMemberFields]) w
      in upd_group g (\<lambda>G. G\<lparr>m_maxEnchantingLevel :=
           max (m_maxEnchantingLevel G) (pa_enchanting (ge_attr e p))\<rparr>) w)"

definition push_member :: "u64 \<Rightarrow> u8 list \<Rightarrow> u8 \<Rightarrow> nat \<Rightarrow> group_world \<Rightarrow> group_world" where
  "push_member p name sg g w =
     upd_group g (\<lambda>G. G\<lparr>m_memberSlots := m_memberSlots G @
       [\<lparr>slot_guid = p, slot_name = name, slot_group = sg, slot_flags = 0, slot_roles = 0\<rparr>]\<rparr>) w"

definition reset_icons :: "nat \<Rightarrow> group_world \<Rightarrow> group_world" where
  "reset_icons g w =
     (if isRaidGroup (grp g w) then w
      else upd_group g (\<lambda>G. G\<lparr>m_targetIcons := replicate TARGETICONCOUNT 0\<rparr>) w)"

definition group_AddMember :: "group_env \<Rightarrow> u64 \<Rightarrow> nat \<Rightarrow> group_world \<Rightarrow> (bool \<times> group_world) group_result" where
  "group_AddMember e p g w =
     (case (free_subgroup (grp g w), gw_players w p) of
        (Some sg, Some pl) \<Rightarrow>
          let w = push_member p (gp_name pl) sg g w
          in rbind (on_group g (SubGroupCounterIncrease sg) w) (\<lambda>w.
             let w = SetGroupInvite None p w
             in rbind (attach_player p sg g w) (\<lambda>w.
                let w = (if ge_boundInstance e g p = Some (pa_instanceId (ge_attr e p))
                         then upd_player p (\<lambda>pl. pl\<lparr>m_InstanceValid := True\<rparr>) w else w);
                    w = reset_icons g w;
                    w = sql_unless_bg (InsertGroupMember (m_dbStoreId (grp g w)) (GUID_LOPART p) 0 sg 0) g w;
                    w = SendUpdate e g w;
                    w = SendRaidMarkerUpdateToPlayer p False g w;
                    w = gw_emit [GHookAdd p] w
                in Inr (True, welcome_member e p g w)))
      | _ \<Rightarrow> Inr (False, w))"

section \<open>The leader\<close>

definition must_repop :: "group_env \<Rightarrow> u64 \<Rightarrow> u64 \<Rightarrow> bool" where
  "must_repop e leader p \<longleftrightarrow>
     pa_instanceable (ge_attr e p) \<and>
     (\<not> pa_instanceable (ge_attr e leader)
      \<or> pa_instanceId (ge_attr e p) \<noteq> pa_instanceId (ge_attr e leader))"

definition ChangeLeader :: "group_env \<Rightarrow> u64 \<Rightarrow> nat \<Rightarrow> group_world \<Rightarrow> group_world" where
  "ChangeLeader e guid g w =
     (case (getMemberSlot guid (grp g w), find_player w guid) of
        (Some s, Some pl) \<Rightarrow>
          let w = gw_emit [GHookLeader (m_leaderGuid (grp g w)) guid] w;
              w = (if \<not> isBGGroup (grp g w) \<and> \<not> isBFGroup (grp g w) then
                     gw_emit (map (\<lambda>s. GCall (slot_guid s) RepopAtGraveyard)
                         (filter (\<lambda>s. find_player w (slot_guid s) \<noteq> None \<and> must_repop e guid (slot_guid s))
                           (m_memberSlots (grp g w)))
                       @ [GDropPermanentBinds,
                          GSql (DeleteGroupInstances (m_dbStoreId (grp g w)) (GUID_LOPART guid)),
                          GCall guid (ConvertInstancesToGroup True),
                          GSql (UpdateGroupLeader (GUID_LOPART guid) (m_dbStoreId (grp g w)))]) w
                   else w);
              w = upd_group g (\<lambda>G. G\<lparr>m_leaderGuid := guid, m_leaderName := gp_name pl,
                    m_memberSlots := upd_slot guid (ToggleGroupMemberFlag MEMBER_FLAG_ASSISTANT False)
                      (m_memberSlots G)\<rparr>) w
          in BroadcastPacket SMSG_GROUP_SET_LEADER (slot_name s @ [0]) True None 0 g w
      | _ \<Rightarrow> w)"

section \<open>Disbanding\<close>

definition left_packet :: "group \<Rightarrow> u8 list" where
  "left_packet G =
     [0x10, 0, 0, 0] @ le_bytes (g_guid G) @ le_bytes (m_counter G) @ le_bytes (0 :: u32) @ le_bytes (0 :: u64)"

text \<open>The player leaves the references to the group: \<^verbatim>\<open>m_originalGroup\<close> if that is this group, else \<^verbatim>\<open>m_group\<close>.\<close>

definition detach_player :: "u64 \<Rightarrow> nat \<Rightarrow> group_world \<Rightarrow> group_world" where
  "detach_player p g w =
     (if isBGGroup (grp g w) \<or> isBFGroup (grp g w) then RemoveFromBattlegroundOrBattlefieldRaid p w
      else if original_group_of w p = Some g then ref_unlink OriginalGroupRef p w
      else gw_emit [GCall p UpdateObjectVisibility] (ref_unlink GroupRef p w))"

definition disband_member :: "group_env \<Rightarrow> bool \<Rightarrow> nat \<Rightarrow> u64 \<Rightarrow> group_world \<Rightarrow> group_world group_result" where
  "disband_member e hideDestroy g p w =
     (if find_player w p = None then Inr w
      else
        let w = detach_player p g w;
            w = (if isRaidGroup (grp g w) then gw_emit [GCall p UpdateForQuestWorldObjects] w else w);
            w = (if \<not> hideDestroy then gw_emit [GSend p SMSG_GROUP_DESTROYED []] w else w)
        in rbind (case group_of w p of
              Some h \<Rightarrow> through h w (\<lambda>w. Inr (SendUpdate e h w))
            | None \<Rightarrow> Inr (gw_emit [GSend p SMSG_GROUP_LIST (left_packet (grp g w))] w)) (\<lambda>w.
           Inr (homebindIfInstance e p w)))"

fun disband_members :: "group_env \<Rightarrow> bool \<Rightarrow> nat \<Rightarrow> u64 list \<Rightarrow> group_world \<Rightarrow> group_world group_result" where
  "disband_members e hideDestroy g [] w = Inr w"
| "disband_members e hideDestroy g (p # ps) w =
     rbind (disband_member e hideDestroy g p w) (disband_members e hideDestroy g ps)"

definition disband_store :: "nat \<Rightarrow> group_world \<Rightarrow> group_world group_result" where
  "disband_store g w =
     (if \<not> isBGGroup (grp g w) \<and> \<not> isBFGroup (grp g w) then
        let w = gw_emit [GResetInstances False, GResetInstances True, GSql (DeleteGroup (m_dbStoreId (grp g w)))] w
        in rbind (FreeGroupDbStoreId (m_dbStoreId (grp g w)) (gw_mgr w)) (\<lambda>m. Inr (w\<lparr>gw_mgr := m\<rparr>))
      else Inr w)"

definition Disband :: "group_env \<Rightarrow> bool \<Rightarrow> nat \<Rightarrow> group_world \<Rightarrow> group_world group_result" where
  "Disband e hideDestroy g w =
     (let w = gw_emit [GHookDisband] w in
      rbind (disband_members e hideDestroy g (map slot_guid (m_memberSlots (grp g w))) w) (\<lambda>w.
      let w = upd_group g (SetGroupMarkerMask 0x20) w;
          w = SendRaidMarkerUpdate g w;
          w = RemoveMarker e g w;
          w = upd_group g (\<lambda>G. G\<lparr>m_dynObj := [], RollId := [], m_memberSlots := []\<rparr>) w
      in rbind (RemoveAllInvites g w) (\<lambda>w.
         rbind (disband_store g w) (\<lambda>w.
         Inr (group_delete g (mgr_RemoveGroup g w))))))"

section \<open>Removing a member\<close>

definition GROUP_REMOVEMETHOD_DEFAULT :: u32 where "GROUP_REMOVEMETHOD_DEFAULT = 0"
definition GROUP_REMOVEMETHOD_KICK :: u32 where "GROUP_REMOVEMETHOD_KICK = 1"
definition GROUP_REMOVEMETHOD_LEAVE :: u32 where "GROUP_REMOVEMETHOD_LEAVE = 2"
definition GROUP_REMOVEMETHOD_KICK_LFG :: u32 where "GROUP_REMOVEMETHOD_KICK_LFG = 3"

definition DelinkMember :: "u64 \<Rightarrow> nat \<Rightarrow> group_world \<Rightarrow> group_world" where
  "DelinkMember guid g w =
     (case find (\<lambda>(p, k). p = guid) (m_memberMgr (grp g w)) of
        None \<Rightarrow> w
      | Some (p, k) \<Rightarrow> ref_unlink k p w)"

definition leave_player :: "group_env \<Rightarrow> u64 \<Rightarrow> u32 \<Rightarrow> nat \<Rightarrow> group_world \<Rightarrow> group_world" where
  "leave_player e guid meth g w =
     (if find_player w guid = None then w
      else
        let bg = (isBGGroup (grp g w) \<or> isBFGroup (grp g w));
            w = detach_player guid g w;
            w = (if bg then w else gw_emit [GCall guid UpdateForQuestWorldObjects] w);
            w = (if meth = GROUP_REMOVEMETHOD_KICK \<or> meth = GROUP_REMOVEMETHOD_KICK_LFG
                 then gw_emit [GSend guid SMSG_GROUP_UNINVITE []] w else w);
            w = gw_emit [GSend guid SMSG_GROUP_LIST (left_packet (grp g w))] w
        in homebindIfInstance e guid w)"

definition remove_slot :: "u64 \<Rightarrow> group \<Rightarrow> group group_result" where
  "remove_slot guid G =
     (case getMemberSlot guid G of None \<Rightarrow> Inr G
      | Some s \<Rightarrow> rbind (SubGroupCounterDecrease (slot_group s) G) (\<lambda>G.
          Inr (G\<lparr>m_memberSlots := erase_slot guid (m_memberSlots G)\<rparr>)))"

definition replace_leader :: "group_env \<Rightarrow> u64 \<Rightarrow> nat \<Rightarrow> group_world \<Rightarrow> group_world" where
  "replace_leader e guid g w =
     (if m_leaderGuid (grp g w) \<noteq> guid then w
      else case find (\<lambda>s. find_player w (slot_guid s) \<noteq> None) (m_memberSlots (grp g w)) of
        None \<Rightarrow> w
      | Some s \<Rightarrow> ChangeLeader e (slot_guid s) g w)"

text \<open>The dungeon finder group of one member that is no longer in the dungeon.\<close>

definition lfg_leftover :: "group_env \<Rightarrow> nat \<Rightarrow> group_world \<Rightarrow> bool" where
  "lfg_leftover e g w \<longleftrightarrow>
     isLFGGroup (grp g w) \<and> GetMembersCount (grp g w) = 1 \<and>
     (let mapId = la_dungeonMapId (ge_lfg e (g_guid (grp g w))); leader = m_leaderGuid (grp g w)
      in mapId = 0 \<or> find_player w leader = None
         \<or> pa_alive (ge_attr e leader) \<and> pa_mapId (ge_attr e leader) \<noteq> mapId)"

definition lone_limit :: "bool \<Rightarrow> nat" where
  "lone_limit b = (if b then 1 else 2)"

definition disband_false :: "group_env \<Rightarrow> nat \<Rightarrow> group_world \<Rightarrow> (bool \<times> group_world) group_result" where
  "disband_false e g w = rbind (Disband e False g w) (\<lambda>w. Inr (False, w))"

definition group_RemoveMember ::
  "group_env \<Rightarrow> u64 \<Rightarrow> u32 \<Rightarrow> u64 \<Rightarrow> nat \<Rightarrow> group_world \<Rightarrow> (bool \<times> group_world) group_result" where
  "group_RemoveMember e guid meth kicker g w =
     (let w = BroadcastGroupUpdate g w;
          w = gw_emit [GHookRemove guid meth kicker] w;
          G = grp g w
      in if isLFGGroup G \<and> meth = GROUP_REMOVEMETHOD_KICK then Inr (m_memberSlots G \<noteq> [], w)
         else if lone_limit (isBGGroup G \<or> isLFGGroup G \<or> isBFGroup G) < length (m_memberSlots G) then
           let player = find_player w guid;
               w = leave_player e guid meth g w;
               w = (if \<not> isBGGroup G \<and> \<not> isBFGroup G
                    then DelinkMember guid g (gw_emit [GSql (DeleteGroupMember (GUID_LOPART guid))] w) else w);
               w = (if player = None \<or> pa_enchanting (ge_attr e guid) \<noteq> 0
                    then ResetMaxEnchantingLevel e g w else w)
           in rbind (remove_from_rolls e guid [0..<length (RollId (grp g w))] g w) (\<lambda>w.
              rbind (on_group g (remove_slot guid) w) (\<lambda>w.
              let w = replace_leader e guid g w;
                  w = SendUpdate e g w;
                  w = SendRaidMarkerUpdateToPlayer guid True g w
              in if lfg_leftover e g w then disband_false e g w
                 else if length (m_memberMgr (grp g w)) < lone_limit (isLFGGroup (grp g w) \<or> isBGGroup (grp g w))
                 then rbind (Disband e False g w) (\<lambda>w. Inr (True, w))
                 else Inr (True, w)))
         else disband_false e g w)"

section \<open>Subgroups\<close>

text \<open>\<^verbatim>\<open>_setMembersGroup\<close>.\<close>

definition setMembersGroup :: "u64 \<Rightarrow> u8 \<Rightarrow> nat \<Rightarrow> group_world \<Rightarrow> (bool \<times> group_world) group_result" where
  "setMembersGroup guid sg g w =
     (if getMemberSlot guid (grp g w) = None then Inr (False, w)
      else
        let w = upd_group g (\<lambda>G. G\<lparr>m_memberSlots := upd_slot guid (\<lambda>s. s\<lparr>slot_group := sg\<rparr>) (m_memberSlots G)\<rparr>) w
        in rbind (on_group g (SubGroupCounterIncrease sg) w) (\<lambda>w.
           Inr (True, sql_unless_bg (UpdateMemberSubgroup sg (GUID_LOPART guid)) g w)))"

definition move_slot :: "u64 \<Rightarrow> u8 \<Rightarrow> u8 \<Rightarrow> group \<Rightarrow> group group_result" where
  "move_slot guid sg prev G =
     rbind (SubGroupCounterIncrease sg
        (G\<lparr>m_memberSlots := upd_slot guid (\<lambda>s. s\<lparr>slot_group := sg\<rparr>) (m_memberSlots G)\<rparr>))
       (SubGroupCounterDecrease prev)"

definition ChangeMembersGroup :: "group_env \<Rightarrow> u64 \<Rightarrow> u8 \<Rightarrow> nat \<Rightarrow> group_world \<Rightarrow> group_world group_result" where
  "ChangeMembersGroup e guid sg g w =
     (if \<not> isRaidGroup (grp g w) then Inr w
      else case getMemberSlot guid (grp g w) of None \<Rightarrow> Inr w
      | Some s \<Rightarrow>
          if slot_group s = sg then Inr w
          else rbind (on_group g (move_slot guid sg (slot_group s)) w) (\<lambda>w.
            let w = sql_unless_bg (UpdateMemberSubgroup sg (GUID_LOPART guid)) g w;
                w = (if find_player w guid = None then w
                     else if group_of w guid = Some g
                     then upd_player guid (set_ref_subGroup GroupRef sg) w
                     else upd_player guid (set_ref_subGroup OriginalGroupRef sg) w)
            in Inr (SendUpdate e g w)))"

section \<open>Creating and loading\<close>

definition create_fields :: "u64 \<Rightarrow> gplayer \<Rightarrow> u32 \<Rightarrow> group \<Rightarrow> group" where
  "create_fields p pl lowguid G =
     (let G = G\<lparr>g_guid := MAKE_NEW_GUID lowguid 0 HIGHGUID_GROUP, m_leaderGuid := p, m_leaderName := gp_name pl\<rparr>
      in if isBGGroup G \<or> isBFGroup G then G\<lparr>m_groupType := GROUPTYPE_BGRAID\<rparr> else G)"

definition create_settings :: "u64 \<Rightarrow> group \<Rightarrow> group" where
  "create_settings p G =
     (let G = (if \<not> isLFGGroup G then G\<lparr>m_lootMethod := GROUP_LOOT\<rparr> else G)
      in G\<lparr>m_lootThreshold := ITEM_QUALITY_UNCOMMON, m_looterGuid := p,
           m_dungeonDifficulty := 0, m_raidDifficulty := 0\<rparr>)"

definition insert_group_row :: "group \<Rightarrow> group_event" where
  "insert_group_row G =
     GSql (InsertGroup (m_dbStoreId G) (GUID_LOPART (m_leaderGuid G)) (m_lootMethod G)
       (GUID_LOPART (m_looterGuid G)) (m_lootThreshold G) (m_targetIcons G) (m_groupType G)
       (m_dungeonDifficulty G) (m_raidDifficulty G))"

definition group_Create :: "group_env \<Rightarrow> u64 \<Rightarrow> nat \<Rightarrow> group_world \<Rightarrow> (bool \<times> group_world) group_result" where
  "group_Create e p g w =
     (case gw_players w p of None \<Rightarrow> Inl NullPointer
      | Some pl \<Rightarrow>
          let (lowguid, w) = GenerateGroupId w;
              w = upd_group g (create_fields p pl lowguid) w
          in rbind (if isRaidGroup (grp g w) then on_group g initRaidSubGroupsCounter w else Inr w) (\<lambda>w.
             let w = upd_group g (create_settings p) w
             in if \<not> isBGGroup (grp g w) \<and> \<not> isBFGroup (grp g w) then
                  let w = upd_group g (\<lambda>G. G\<lparr>m_dungeonDifficulty := gp_dungeonDifficulty pl,
                                           m_raidDifficulty := gp_raidDifficulty pl\<rparr>) w;
                      (storeId, w) = GenerateNewGroupDbStoreId w;
                      w = upd_group g (\<lambda>G. G\<lparr>m_dbStoreId := storeId\<rparr>) w;
                      w = upd_mgr (RegisterGroupDbStoreId storeId g) w;
                      w = gw_emit [insert_group_row (grp g w)] w
                  in rbind (group_AddMember e p g w) (\<lambda>(added, w).
                     if \<not> added then Inl AssertFailed
                     else Inr (True, gw_emit [GCall p (ConvertInstancesToGroup False)] w))
                else group_AddMember e p g w))"

record group_row =
  gr_leader :: u32
  gr_lootMethod :: u8
  gr_looter :: u32
  gr_threshold :: u8
  gr_icons :: "u32 list"
  gr_type :: u8
  gr_difficulty :: u8
  gr_raidDifficulty :: u8
  gr_storeId :: u32

definition load_fields :: "group_row \<Rightarrow> u8 list \<Rightarrow> group \<Rightarrow> group" where
  "load_fields row name G =
     G\<lparr>m_leaderName := name, m_lootMethod := ucast (gr_lootMethod row),
       m_looterGuid := MAKE_NEW_GUID (gr_looter row) 0 HIGHGUID_PLAYER,
       m_lootThreshold := ucast (gr_threshold row),
       m_targetIcons := map (\<lambda>i. ucast (gr_icons row ! i)) [0..<TARGETICONCOUNT],
       m_groupType := gr_type row\<rparr>"

definition load_difficulty :: "group_row \<Rightarrow> group \<Rightarrow> group" where
  "load_difficulty row G =
     G\<lparr>m_dungeonDifficulty := (if 3 \<le> gr_difficulty row then 0 else ucast (gr_difficulty row)),
       m_raidDifficulty := (if 4 \<le> gr_raidDifficulty row then 0 else ucast (gr_raidDifficulty row))\<rparr>"

definition LoadGroupFromDB :: "group_env \<Rightarrow> group_row \<Rightarrow> nat \<Rightarrow> group_world \<Rightarrow> group_world group_result" where
  "LoadGroupFromDB e row g w =
     (let (lowguid, w) = GenerateGroupId w;
          leader = MAKE_NEW_GUID (gr_leader row) 0 HIGHGUID_PLAYER;
          w = upd_group g (\<lambda>G. G\<lparr>m_dbStoreId := gr_storeId row,
                g_guid := MAKE_NEW_GUID lowguid 0 HIGHGUID_GROUP, m_leaderGuid := leader\<rparr>) w
      in case ge_playerName e (ucast (gr_leader row)) of None \<Rightarrow> Inr w
         | Some name \<Rightarrow>
             let w = upd_group g (load_fields row name) w
             in rbind (if isRaidGroup (grp g w) then on_group g initRaidSubGroupsCounter w else Inr w) (\<lambda>w.
                let w = upd_group g (load_difficulty row) w
                in Inr (if isLFGGroup (grp g w) then gw_emit [GLoadLfg] w else w)))"

definition LoadMemberFromDB :: "group_env \<Rightarrow> u32 \<Rightarrow> u8 \<Rightarrow> u8 \<Rightarrow> u8 \<Rightarrow> nat \<Rightarrow> group_world \<Rightarrow> group_world group_result" where
  "LoadMemberFromDB e guidLow memberFlags subgroup roles g w =
     (let guid = MAKE_NEW_GUID guidLow 0 HIGHGUID_PLAYER in
      case ge_playerName e guid of
        None \<Rightarrow> Inr (gw_emit [GSql (DeleteGroupMember guidLow)] w)
      | Some name \<Rightarrow>
          let w = upd_group g (\<lambda>G. G\<lparr>m_memberSlots := m_memberSlots G @
                [\<lparr>slot_guid = guid, slot_name = name, slot_group = subgroup,
                  slot_flags = memberFlags, slot_roles = roles\<rparr>]\<rparr>) w
          in rbind (on_group g (SubGroupCounterIncrease subgroup) w) (\<lambda>w.
             Inr (gw_emit [GSetupLfgMember guid] w)))"

text \<open>\<^verbatim>\<open>GroupMgr::LoadGroups\<close>, after the consistency statements: the rows of the groups, then of their members.\<close>

fun load_groups :: "group_env \<Rightarrow> group_row list \<Rightarrow> group_world \<Rightarrow> group_world group_result" where
  "load_groups e [] w = Inr w"
| "load_groups e (row # rows) w =
     (let (g, w) = group_alloc e w in
      rbind (LoadGroupFromDB e row g w) (\<lambda>w.
      let w = mgr_AddGroup g w;
          w = upd_mgr (RegisterGroupDbStoreId (m_dbStoreId (grp g w)) g) w;
          w = upd_mgr (\<lambda>m. if m_dbStoreId (grp g w) = NextGroupDbStoreId m
                           then m\<lparr>NextGroupDbStoreId := NextGroupDbStoreId m + 1\<rparr> else m) w
      in load_groups e rows w))"

fun load_members :: "group_env \<Rightarrow> (u32 \<times> u32 \<times> u8 \<times> u8 \<times> u8) list \<Rightarrow> group_world \<Rightarrow> group_world group_result" where
  "load_members e [] w = Inr w"
| "load_members e ((storeId, guidLow, flags, sg, roles) # rows) w =
     rbind (case GetGroupByDbStoreId storeId (gw_mgr w) of
        None \<Rightarrow> Inr w
      | Some g \<Rightarrow> through g w (LoadMemberFromDB e guidLow flags sg roles g)) (load_members e rows)"

end
