(* ===== verification/Group_Handlers.thy ===== *)
theory Group_Handlers
  imports Group_Members
begin

text \<open>
  The requests of clients that concern groups (\<^verbatim>\<open>src/src/server/game/Handlers/GroupHandler.cpp\<close>),
  logging in and out, and joining the raid of a battleground. A handler is given the fields it
  reads from its packet; \<open>me\<close> is the player of the session. The invitation packet, a bit stream
  without further content, is the event \<open>GSendInvite\<close>: to whom, from whom, and whether the
  invitation stands.
\<close>

section \<open>Results sent to the client\<close>

definition PARTY_OP_INVITE :: u32 where "PARTY_OP_INVITE = 0"
definition PARTY_OP_UNINVITE :: u32 where "PARTY_OP_UNINVITE = 1"
definition PARTY_OP_LEAVE :: u32 where "PARTY_OP_LEAVE = 2"

definition ERR_PARTY_RESULT_OK :: u32 where "ERR_PARTY_RESULT_OK = 0"
definition ERR_BAD_PLAYER_NAME_S :: u32 where "ERR_BAD_PLAYER_NAME_S = 1"
definition ERR_TARGET_NOT_IN_GROUP_S :: u32 where "ERR_TARGET_NOT_IN_GROUP_S = 2"
definition ERR_TARGET_NOT_IN_INSTANCE_S :: u32 where "ERR_TARGET_NOT_IN_INSTANCE_S = 3"
definition ERR_GROUP_FULL :: u32 where "ERR_GROUP_FULL = 4"
definition ERR_ALREADY_IN_GROUP_S :: u32 where "ERR_ALREADY_IN_GROUP_S = 5"
definition ERR_NOT_IN_GROUP :: u32 where "ERR_NOT_IN_GROUP = 6"
definition ERR_NOT_LEADER :: u32 where "ERR_NOT_LEADER = 7"
definition ERR_PLAYER_WRONG_FACTION :: u32 where "ERR_PLAYER_WRONG_FACTION = 8"
definition ERR_IGNORING_YOU_S :: u32 where "ERR_IGNORING_YOU_S = 9"
definition ERR_INVITE_RESTRICTED :: u32 where "ERR_INVITE_RESTRICTED = 13"
definition ERR_PARTY_LFG_BOOT_LIMIT :: u32 where "ERR_PARTY_LFG_BOOT_LIMIT = 20"
definition ERR_PARTY_LFG_BOOT_IN_PROGRESS :: u32 where "ERR_PARTY_LFG_BOOT_IN_PROGRESS = 22"
definition ERR_PARTY_LFG_BOOT_TOO_FEW_PLAYERS :: u32 where "ERR_PARTY_LFG_BOOT_TOO_FEW_PLAYERS = 23"
definition ERR_RAID_DISALLOWED_BY_LEVEL :: u32 where "ERR_RAID_DISALLOWED_BY_LEVEL = 25"
definition ERR_PARTY_LFG_BOOT_IN_COMBAT :: u32 where "ERR_PARTY_LFG_BOOT_IN_COMBAT = 26"
definition ERR_PARTY_LFG_BOOT_DUNGEON_COMPLETE :: u32 where "ERR_PARTY_LFG_BOOT_DUNGEON_COMPLETE = 28"
definition ERR_PARTY_LFG_BOOT_LOOT_ROLLS :: u32 where "ERR_PARTY_LFG_BOOT_LOOT_ROLLS = 29"
definition LFG_GROUP_KICK_VOTES_NEEDED :: u32 where "LFG_GROUP_KICK_VOTES_NEEDED = 3"

definition SendPartyResult :: "u64 \<Rightarrow> u32 \<Rightarrow> u8 list \<Rightarrow> u32 \<Rightarrow> group_world \<Rightarrow> group_world" where
  "SendPartyResult me operation member res w =
     gw_emit [GSend me SMSG_PARTY_COMMAND_RESULT
       (le_bytes operation @ member @ [0] @ le_bytes res @ le_bytes (0 :: u32) @ le_bytes (0 :: u64))] w"

section \<open>Invitations\<close>

text \<open>The checks before an invitation, in order: the error, if one applies.\<close>

definition invite_refused :: "group_env \<Rightarrow> u64 \<Rightarrow> u64 \<Rightarrow> group_world \<Rightarrow> u32 option" where
  "invite_refused e me p w =
     (let a = ge_attr e me; b = ge_attr e p;
          dd = (\<lambda>q. case gw_players w q of Some pl \<Rightarrow> gp_dungeonDifficulty pl | None \<Rightarrow> 0) in
      if \<not> ge_allowGmGroup e \<and> \<not> pa_gm a \<and> pa_gm b then Some ERR_BAD_PLAYER_NAME_S
      else if \<not> pa_gm a \<and> \<not> ge_allowTwoSide e \<and> pa_team a \<noteq> pa_team b then Some ERR_PLAYER_WRONG_FACTION
      else if pa_instanceId a \<noteq> 0 \<and> pa_instanceId b \<noteq> 0 \<and> pa_instanceId a \<noteq> pa_instanceId b
              \<and> pa_mapId a = pa_mapId b then Some ERR_TARGET_NOT_IN_INSTANCE_S
      else if pa_instanceId b \<noteq> 0 \<and> dd p \<noteq> dd me then Some ERR_IGNORING_YOU_S
      else if ge_ignores e p me then Some ERR_IGNORING_YOU_S
      else None)"

text \<open>A player's group, or the original one when the group is that of a battleground.\<close>

definition bg_or_original :: "u64 \<Rightarrow> group_world \<Rightarrow> nat option" where
  "bg_or_original p w =
     (case group_of w p of None \<Rightarrow> None
      | Some g \<Rightarrow> if isBGGroup (grp g w) then original_group_of w p else Some g)"

definition invite_to_group :: "group_env \<Rightarrow> u64 \<Rightarrow> u64 \<Rightarrow> nat option \<Rightarrow> group_world \<Rightarrow> (bool \<times> group_world) group_result" where
  "invite_to_group e me p grpp w =
     (case grpp of
        Some g \<Rightarrow> AddInvite p g w
      | None \<Rightarrow>
          let (g, w) = group_alloc e w in
          rbind (AddLeaderInvite me g w) (\<lambda>(ok, w).
          if \<not> ok then Inr (False, group_delete g w)
          else rbind (AddInvite p g w) (\<lambda>(ok, w).
               if \<not> ok then Inr (False, group_delete g w) else Inr (True, w))))"

definition HandleGroupInvite :: "group_env \<Rightarrow> u64 \<Rightarrow> u8 list \<Rightarrow> group_world \<Rightarrow> group_world group_result" where
  "HandleGroupInvite e me membername w =
     (case ge_normalize e membername of
        None \<Rightarrow> Inr (SendPartyResult me PARTY_OP_INVITE membername ERR_BAD_PLAYER_NAME_S w)
      | Some name \<Rightarrow>
     (case ge_findByName e name of
        None \<Rightarrow> Inr (SendPartyResult me PARTY_OP_INVITE name ERR_BAD_PLAYER_NAME_S w)
      | Some p \<Rightarrow>
          if find_player w p = None then Inr (SendPartyResult me PARTY_OP_INVITE name ERR_BAD_PLAYER_NAME_S w)
          else case invite_refused e me p w of
            Some err \<Rightarrow> Inr (SendPartyResult me PARTY_OP_INVITE name err w)
          | None \<Rightarrow>
              let grpp = bg_or_original me w; group2 = bg_or_original p w in
              if group2 \<noteq> None \<or> invite_of w p \<noteq> None then
                let w = SendPartyResult me PARTY_OP_INVITE name ERR_ALREADY_IN_GROUP_S w
                in Inr (if group2 \<noteq> None then gw_emit [GSendInvite p me False] w else w)
              else if (case grpp of Some g \<Rightarrow> isRaidGroup (grp g w) | None \<Rightarrow> False)
                   \<and> \<not> pa_allowLowLevelRaid (ge_attr e p) \<and> pa_level (ge_attr e p) < ge_minRaidLevel e
              then Inr (SendPartyResult me PARTY_OP_INVITE [] ERR_RAID_DISALLOWED_BY_LEVEL w)
              else if (case grpp of Some g \<Rightarrow> \<not> group_IsLeader me (grp g w) \<and> \<not> IsAssistant me (grp g w) | None \<Rightarrow> False)
              then Inr (SendPartyResult me PARTY_OP_INVITE [] ERR_NOT_LEADER w)
              else if (case grpp of Some g \<Rightarrow> group_IsFull (grp g w) | None \<Rightarrow> False)
              then Inr (SendPartyResult me PARTY_OP_INVITE [] ERR_GROUP_FULL w)
              else rbind (invite_to_group e me p grpp w) (\<lambda>(ok, w).
                   Inr (if ok then SendPartyResult me PARTY_OP_INVITE name ERR_PARTY_RESULT_OK
                                     (gw_emit [GSendInvite p me True] w) else w))))"

text \<open>\<^verbatim>\<open>Player::UninviteFromGroup\<close>.\<close>

definition UninviteFromGroup :: "group_env \<Rightarrow> u64 \<Rightarrow> group_world \<Rightarrow> group_world group_result" where
  "UninviteFromGroup e p w =
     (case invite_of w p of None \<Rightarrow> Inr w
      | Some g \<Rightarrow> through g w (\<lambda>w.
          let w = RemoveInvite p g w in
          if length (m_memberSlots (grp g w)) \<le> 1 then
            if IsCreated (grp g w) then Disband e True g w
            else rbind (RemoveAllInvites g w) (\<lambda>w. Inr (group_delete g w))
          else Inr w))"

definition form_group :: "group_env \<Rightarrow> nat \<Rightarrow> group_world \<Rightarrow> (bool \<times> group_world) group_result" where
  "form_group e g w =
     (let leader = m_leaderGuid (grp g w) in
      if find_player w leader = None then rbind (RemoveAllInvites g w) (\<lambda>w. Inr (False, w))
      else
        let w = RemoveInvite leader g w in
        rbind (group_Create e leader g w) (\<lambda>(created, w). Inr (True, mgr_AddGroup g w)))"

definition accept_invite :: "group_env \<Rightarrow> u64 \<Rightarrow> nat \<Rightarrow> group_world \<Rightarrow> group_world group_result" where
  "accept_invite e me g w =
     (let w = RemoveInvite me g w in
      if m_leaderGuid (grp g w) = me then Inr w
      else if group_IsFull (grp g w) then Inr (SendPartyResult me PARTY_OP_INVITE [] ERR_GROUP_FULL w)
      else rbind (if \<not> IsCreated (grp g w) then form_group e g w else Inr (True, w)) (\<lambda>(ok, w).
           if \<not> ok then Inr w
           else rbind (group_AddMember e me g w) (\<lambda>(added, w).
                Inr (if added then BroadcastGroupUpdate g w else w))))"

definition decline_invite :: "group_env \<Rightarrow> u64 \<Rightarrow> nat \<Rightarrow> group_world \<Rightarrow> group_world group_result" where
  "decline_invite e me g w =
     (let leader = m_leaderGuid (grp g w); online = (find_player w leader \<noteq> None);
          name = (case gw_players w me of Some pl \<Rightarrow> gp_name pl | None \<Rightarrow> []) in
      rbind (UninviteFromGroup e me w) (\<lambda>w.
      Inr (if online then gw_emit [GSend leader SMSG_GROUP_DECLINE (name @ [0])] w else w)))"

definition HandleGroupInviteResponse :: "group_env \<Rightarrow> u64 \<Rightarrow> bool \<Rightarrow> group_world \<Rightarrow> group_world group_result" where
  "HandleGroupInviteResponse e me accept w =
     (case invite_of w me of None \<Rightarrow> Inr w
      | Some g \<Rightarrow> through g w (if accept then accept_invite e me g else decline_invite e me g))"

section \<open>Leaving and removing\<close>

definition CanUninviteFromGroup :: "group_env \<Rightarrow> u64 \<Rightarrow> group_world \<Rightarrow> u32" where
  "CanUninviteFromGroup e me w =
     (case group_of w me of None \<Rightarrow> ERR_NOT_IN_GROUP
      | Some g \<Rightarrow>
          let G = grp g w; lfg = ge_lfg e (g_guid G) in
          if isLFGGroup G then
            if la_kicksLeft lfg = 0 then ERR_PARTY_LFG_BOOT_LIMIT
            else if la_boot lfg then ERR_PARTY_LFG_BOOT_IN_PROGRESS
            else if GetMembersCount G \<le> LFG_GROUP_KICK_VOTES_NEEDED then ERR_PARTY_LFG_BOOT_TOO_FEW_PLAYERS
            else if la_finished lfg then ERR_PARTY_LFG_BOOT_DUNGEON_COMPLETE
            else if RollId G \<noteq> [] then ERR_PARTY_LFG_BOOT_LOOT_ROLLS
            else if list_ex (\<lambda>(p, k). pa_inCombat (ge_attr e p)) (m_memberMgr G) then ERR_PARTY_LFG_BOOT_IN_COMBAT
            else ERR_PARTY_RESULT_OK
          else if \<not> group_IsLeader me G \<and> \<not> IsAssistant me G then ERR_NOT_LEADER
          else if pa_inBattleground (ge_attr e me) then ERR_INVITE_RESTRICTED
          else ERR_PARTY_RESULT_OK)"

definition RemoveFromGroup :: "group_env \<Rightarrow> u64 \<Rightarrow> u32 \<Rightarrow> u64 \<Rightarrow> nat \<Rightarrow> group_world \<Rightarrow> group_world group_result" where
  "RemoveFromGroup e guid meth kicker g w =
     rbind (group_RemoveMember e guid meth kicker g w) (\<lambda>(b, w). Inr w)"

definition HandleGroupUninviteGuid :: "group_env \<Rightarrow> u64 \<Rightarrow> u64 \<Rightarrow> group_world \<Rightarrow> group_world group_result" where
  "HandleGroupUninviteGuid e me guid w =
     (if guid = me then Inr w
      else
        let res = CanUninviteFromGroup e me w in
        if res \<noteq> ERR_PARTY_RESULT_OK then Inr (SendPartyResult me PARTY_OP_UNINVITE [] res w)
        else case group_of w me of None \<Rightarrow> Inr w
          | Some g \<Rightarrow>
              if group_IsLeader guid (grp g w) then Inr (SendPartyResult me PARTY_OP_UNINVITE [] ERR_NOT_LEADER w)
              else if IsMember guid (grp g w) then RemoveFromGroup e guid GROUP_REMOVEMETHOD_KICK me g w
              else rbind (GetInvited_guid guid g w) (\<lambda>invited. case invited of
                Some p \<Rightarrow> UninviteFromGroup e p w
              | None \<Rightarrow> Inr (SendPartyResult me PARTY_OP_UNINVITE [] ERR_TARGET_NOT_IN_GROUP_S w)))"

definition HandleGroupUninvite :: "group_env \<Rightarrow> u64 \<Rightarrow> u8 list \<Rightarrow> group_world \<Rightarrow> group_world group_result" where
  "HandleGroupUninvite e me membername w =
     (case ge_normalize e membername of None \<Rightarrow> Inr w
      | Some name \<Rightarrow>
          if (case gw_players w me of Some pl \<Rightarrow> gp_name pl | None \<Rightarrow> []) = name then Inr w
          else
            let res = CanUninviteFromGroup e me w in
            if res \<noteq> ERR_PARTY_RESULT_OK then Inr (SendPartyResult me PARTY_OP_UNINVITE [] res w)
            else case group_of w me of None \<Rightarrow> Inr w
              | Some g \<Rightarrow>
                  if GetMemberGUID name (grp g w) \<noteq> 0
                  then RemoveFromGroup e (GetMemberGUID name (grp g w)) GROUP_REMOVEMETHOD_KICK me g w
                  else rbind (GetInvited_name name g w) (\<lambda>invited. case invited of
                    Some p \<Rightarrow> UninviteFromGroup e p w
                  | None \<Rightarrow> Inr (SendPartyResult me PARTY_OP_UNINVITE name ERR_TARGET_NOT_IN_GROUP_S w)))"

definition HandleGroupDisband :: "group_env \<Rightarrow> u64 \<Rightarrow> group_world \<Rightarrow> group_world group_result" where
  "HandleGroupDisband e me w =
     (case group_of w me of None \<Rightarrow> Inr w
      | Some g \<Rightarrow>
          if pa_inBattleground (ge_attr e me) then Inr (SendPartyResult me PARTY_OP_INVITE [] ERR_INVITE_RESTRICTED w)
          else
            let w = SendPartyResult me PARTY_OP_LEAVE
                  (case gw_players w me of Some pl \<Rightarrow> gp_name pl | None \<Rightarrow> []) ERR_PARTY_RESULT_OK w
            in RemoveFromGroup e me GROUP_REMOVEMETHOD_LEAVE 0 g w)"

section \<open>Leader, raid, subgroups, flags\<close>

definition HandleGroupSetLeader :: "group_env \<Rightarrow> u64 \<Rightarrow> u64 \<Rightarrow> group_world \<Rightarrow> group_world" where
  "HandleGroupSetLeader e me guid w =
     (case group_of w me of None \<Rightarrow> w
      | Some g \<Rightarrow>
          if find_player w guid = None then w
          else if \<not> group_IsLeader me (grp g w) \<or> group_of w guid \<noteq> Some g then w
          else if list_ex (\<lambda>(p, k). pa_instanceable (ge_attr e p)) (m_memberMgr (grp g w)) then w
          else SendUpdate e g (ChangeLeader e guid g w))"

definition HandleGroupRaidConvert :: "group_env \<Rightarrow> u64 \<Rightarrow> bool \<Rightarrow> group_world \<Rightarrow> group_world group_result" where
  "HandleGroupRaidConvert e me toRaid w =
     (case group_of w me of None \<Rightarrow> Inr w
      | Some g \<Rightarrow>
          if pa_inBattleground (ge_attr e me) then Inr w
          else if \<not> group_IsLeader me (grp g w) \<or> length (m_memberSlots (grp g w)) < 2 then Inr w
          else
            let w = SendPartyResult me PARTY_OP_INVITE [] ERR_PARTY_RESULT_OK w
            in if toRaid then ConvertToRaid e g w else Inr (ConvertToGroup e g w))"

text \<open>\<open>prev\<close> is the session's \<^verbatim>\<open>timeLastChangeSubGroupCommand\<close>, returned updated.\<close>

definition HandleGroupChangeSubGroup ::
  "group_env \<Rightarrow> u64 \<Rightarrow> int \<Rightarrow> int \<Rightarrow> u8 list \<Rightarrow> u8 \<Rightarrow> group_world \<Rightarrow> (int \<times> group_world) group_result" where
  "HandleGroupChangeSubGroup e me now prev name groupNr w =
     (case group_of w me of None \<Rightarrow> Inr (prev, w)
      | Some g \<Rightarrow>
          if now - prev < 2 then Inr (prev, w)
          else if MAX_RAID_SUBGROUPS \<le> unat groupNr then Inr (now, w)
          else if \<not> group_IsLeader me (grp g w) \<and> \<not> IsAssistant me (grp g w) then Inr (now, w)
          else rbind (HasFreeSlotSubGroup groupNr (grp g w)) (\<lambda>free.
            if \<not> free then Inr (now, w)
            else
              let guid = (case ge_findByName e name of
                    Some p \<Rightarrow> if find_player w p \<noteq> None then p else ge_guidByName e name
                  | None \<Rightarrow> ge_guidByName e name)
              in rbind (ChangeMembersGroup e guid groupNr g w) (\<lambda>w. Inr (now, w))))"

definition HandleGroupAssistantLeader :: "group_env \<Rightarrow> u64 \<Rightarrow> u64 \<Rightarrow> bool \<Rightarrow> group_world \<Rightarrow> group_world" where
  "HandleGroupAssistantLeader e me guid apply w =
     (case group_of w me of None \<Rightarrow> w
      | Some g \<Rightarrow>
          if \<not> group_IsLeader me (grp g w) then w
          else SendUpdate e g (SetGroupMemberFlag e guid apply MEMBER_FLAG_ASSISTANT g w))"

definition GROUP_ASSIGN_MAINTANK :: u8 where "GROUP_ASSIGN_MAINTANK = 0"
definition GROUP_ASSIGN_MAINASSIST :: u8 where "GROUP_ASSIGN_MAINASSIST = 1"

definition HandlePartyAssignment :: "group_env \<Rightarrow> u64 \<Rightarrow> u8 \<Rightarrow> bool \<Rightarrow> u64 \<Rightarrow> group_world \<Rightarrow> group_world" where
  "HandlePartyAssignment e me assignment apply guid w =
     (case group_of w me of None \<Rightarrow> w
      | Some g \<Rightarrow>
          if \<not> group_IsLeader me (grp g w) \<and> \<not> IsAssistant me (grp g w) then w
          else
            let assign = (\<lambda>flag w. SetGroupMemberFlag e guid apply flag g
                            (upd_group g (RemoveUniqueGroupMemberFlag flag) w));
                w = (if assignment = GROUP_ASSIGN_MAINASSIST then assign MEMBER_FLAG_MAINASSIST w
                     else if assignment = GROUP_ASSIGN_MAINTANK then assign MEMBER_FLAG_MAINTANK w else w)
            in SendUpdate e g w)"

text \<open>The second branch passes \<^verbatim>\<open>!active\<close>, which is true there.\<close>

definition HandleSetEveryoneIsAssistant :: "group_env \<Rightarrow> u64 \<Rightarrow> bool \<Rightarrow> group_world \<Rightarrow> group_world" where
  "HandleSetEveryoneIsAssistant e me active w =
     (case group_of w me of None \<Rightarrow> w
      | Some g \<Rightarrow>
          if \<not> isRaidGroup (grp g w) \<or> \<not> group_IsLeader me (grp g w) then w
          else
            let apply = (if active then active else \<not> active);
                w = foldl (\<lambda>w p. SetGroupMemberFlag e p apply MEMBER_FLAG_ASSISTANT g w) w
                      (map fst (m_memberMgr (grp g w)))
            in SendUpdate e g w)"

section \<open>Icons, markers, ready check, loot\<close>

definition HandleRaidTargetUpdate :: "u64 \<Rightarrow> u8 \<Rightarrow> u64 \<Rightarrow> group_world \<Rightarrow> group_world" where
  "HandleRaidTargetUpdate me x guid w =
     (case group_of w me of None \<Rightarrow> w
      | Some g \<Rightarrow>
          if x = 0xFF then SendTargetIconList me g w
          else if isRaidGroup (grp g w) \<and> \<not> group_IsLeader me (grp g w) \<and> \<not> IsAssistant me (grp g w) then w
          else SetTargetIcon x me guid g w)"

text \<open>\<^verbatim>\<open>1 << marker\<close> on a 32-bit value: the processor takes the shift count modulo 32.\<close>

definition HandleGroupClearMarker :: "group_env \<Rightarrow> u64 \<Rightarrow> u8 \<Rightarrow> group_world \<Rightarrow> group_world" where
  "HandleGroupClearMarker e me marker w =
     (case group_of w me of None \<Rightarrow> w
      | Some g \<Rightarrow>
          let w = upd_group g (RemoveGroupMarkerMask (push_bit (unat marker mod 32) 1)) w;
              w = SendRaidMarkerUpdate g w
          in RemoveMarker e g w)"

definition HandleRaidReadyCheck :: "u64 \<Rightarrow> u8 option \<Rightarrow> group_world \<Rightarrow> group_world" where
  "HandleRaidReadyCheck me answer w =
     (case group_of w me of None \<Rightarrow> w
      | Some g \<Rightarrow>
          case answer of
            None \<Rightarrow>
              if \<not> group_IsLeader me (grp g w) \<and> \<not> IsAssistant me (grp g w) then w
              else OfflineReadyCheck g (BroadcastPacket MSG_RAID_READY_CHECK (le_bytes me) False None 0 g w)
          | Some st \<Rightarrow> BroadcastReadyCheck MSG_RAID_READY_CHECK_CONFIRM (le_bytes me @ [st]) g w)"

definition HandleLootMethod :: "group_env \<Rightarrow> u64 \<Rightarrow> u32 \<Rightarrow> u64 \<Rightarrow> u32 \<Rightarrow> group_world \<Rightarrow> group_world" where
  "HandleLootMethod e me lootMethod lootMaster lootThreshold w =
     (case group_of w me of None \<Rightarrow> w
      | Some g \<Rightarrow>
          if \<not> group_IsLeader me (grp g w) then w
          else SendUpdate e g (upd_group g (\<lambda>G. G\<lparr>m_lootMethod := lootMethod, m_looterGuid := lootMaster,
                 m_lootThreshold := lootThreshold\<rparr>) w))"

definition ACHIEVEMENT_CRITERIA_TYPE_ROLL_NEED :: u32 where "ACHIEVEMENT_CRITERIA_TYPE_ROLL_NEED = 93"
definition ACHIEVEMENT_CRITERIA_TYPE_ROLL_GREED :: u32 where "ACHIEVEMENT_CRITERIA_TYPE_ROLL_GREED = 94"

definition HandleLootRoll :: "group_env \<Rightarrow> u64 \<Rightarrow> u64 \<Rightarrow> u8 \<Rightarrow> group_world \<Rightarrow> group_world group_result" where
  "HandleLootRoll e me guid rollType w =
     (case group_of w me of None \<Rightarrow> Inr w
      | Some g \<Rightarrow>
          rbind (CountRollVote e me guid rollType g w) (\<lambda>w.
          Inr (if rollType = ROLL_NEED then
                 gw_emit [GCall me (UpdateAchievementCriteria ACHIEVEMENT_CRITERIA_TYPE_ROLL_NEED 1)] w
               else if rollType = ROLL_GREED then
                 gw_emit [GCall me (UpdateAchievementCriteria ACHIEVEMENT_CRITERIA_TYPE_ROLL_GREED 1)] w
               else w)))"

section \<open>Logging in and out\<close>

text \<open>
  \<^verbatim>\<open>Player::_LoadGroup\<close> for a new \<^verbatim>\<open>Player\<close> object \<open>pl\<close>, whose references and invitation are empty;
  \<open>storeId\<close> is the row of \<^verbatim>\<open>group_member\<close>, if any.
\<close>

definition player_login :: "group_env \<Rightarrow> u64 \<Rightarrow> gplayer \<Rightarrow> u32 option \<Rightarrow> group_world \<Rightarrow> group_world group_result" where
  "player_login e p pl storeId w =
     (let w = w\<lparr>gw_players := (gw_players w)(p \<mapsto>
            pl\<lparr>m_group := None, m_originalGroup := None, m_groupInvite := None, m_bPassOnGroupLoot := False\<rparr>)\<rparr>
      in case Option.bind storeId (\<lambda>s. GetGroupByDbStoreId s (gw_mgr w)) of
           None \<Rightarrow> Inr w
         | Some g \<Rightarrow> through g w (\<lambda>w.
             rbind (SetGroup (Some g) (GetMemberGroup p (grp g w)) p w) (\<lambda>w.
             Inr (if LEVELREQUIREMENT_HEROIC \<le> pa_level (ge_attr e p)
                  then upd_player p (\<lambda>pl. pl\<lparr>gp_dungeonDifficulty := m_dungeonDifficulty (grp g w),
                         gp_raidDifficulty := m_raidDifficulty (grp g w)\<rparr>) w else w))))"

text \<open>
  The part of \<^verbatim>\<open>WorldSession::LogoutPlayer\<close> on groups (\<open>socket\<close>: the connection still stands), and
  the end of the \<^verbatim>\<open>Player\<close> object, whose references unlink themselves.
\<close>

definition logout_leave :: "group_env \<Rightarrow> u64 \<Rightarrow> bool \<Rightarrow> group_world \<Rightarrow> group_world group_result" where
  "logout_leave e p socket w =
     (case group_of w p of None \<Rightarrow> Inr w
      | Some g \<Rightarrow> if \<not> isRaidGroup (grp g w) \<and> socket
                  then RemoveFromGroup e p GROUP_REMOVEMETHOD_DEFAULT 0 g w else Inr w)"

definition player_logout :: "group_env \<Rightarrow> u64 \<Rightarrow> bool \<Rightarrow> group_world \<Rightarrow> group_world group_result" where
  "player_logout e p socket w =
     rbind (UninviteFromGroup e p w) (\<lambda>w.
     rbind (logout_leave e p socket w) (\<lambda>w.
     let w = (case group_of w p of None \<Rightarrow> w
              | Some g \<Rightarrow> ResetMaxEnchantingLevel e g (SendUpdate e g w));
         w = ref_unlink OriginalGroupRef p (ref_unlink GroupRef p w)
     in Inr (w\<lparr>gw_players := (gw_players w)(p := None)\<rparr>)))"

section \<open>Battleground raids\<close>

text \<open>
  \<^verbatim>\<open>Battleground::AddOrSetPlayerToCorrectBgGroup\<close>: \<open>raid\<close> is the raid of the player's team in the
  battleground \<open>bg\<close>, if there is one; the raid afterwards is returned.
\<close>

definition AddOrSetPlayerToCorrectBgGroup ::
  "group_env \<Rightarrow> nat \<Rightarrow> u64 \<Rightarrow> nat option \<Rightarrow> group_world \<Rightarrow> (nat option \<times> group_world) group_result" where
  "AddOrSetPlayerToCorrectBgGroup e bg p raid w =
     (case raid of
        None \<Rightarrow>
          let (g, w) = group_alloc e w;
              w = upd_group g (\<lambda>G. G\<lparr>m_bgGroup := Some bg\<rparr>) w
          in rbind (group_Create e p g w) (\<lambda>(created, w). Inr (Some g, w))
      | Some g \<Rightarrow> through g w (\<lambda>w.
          if IsMember p (grp g w) then
            rbind (SetBattlegroundOrBattlefieldRaid g (GetMemberGroup p (grp g w)) p w) (\<lambda>w. Inr (Some g, w))
          else
            rbind (group_AddMember e p g w) (\<lambda>(added, w).
            case original_group_of w p of None \<Rightarrow> Inr (Some g, w)
            | Some h \<Rightarrow> through h w (\<lambda>w.
                if group_IsLeader p (grp h w)
                then Inr (Some g, SendRaidMarkerUpdateToPlayer p False g (SendUpdate e g (ChangeLeader e p g w)))
                else Inr (Some g, w)))))"

end
