(* ===== verification/Group_Invariant.thy ===== *)
theory Group_Invariant
  imports Group_Handlers
begin

text \<open>
  What every operation keeps: the references between players and groups agree (\<open>link_ok\<close>), and
  each group is within its limits with correct subgroup counters and distinct target icons
  (\<open>group_ok\<close>). Both only depend on a small view of the world; an operation that does not touch
  the view is \<open>quiet\<close>.
\<close>

section \<open>The invariants\<close>

definition count_in :: "u8 list \<Rightarrow> nat \<Rightarrow> nat" where
  "count_in gs i = length (filter (\<lambda>x. unat x = i) gs)"

definition icons_ok :: "u64 list \<Rightarrow> bool" where
  "icons_ok ics \<longleftrightarrow> length ics = TARGETICONCOUNT \<and> distinct (filter (\<lambda>t. t \<noteq> 0) ics)"

text \<open>The part of a group the limits concern: the subgroups of its slots, its type, counters and icons.\<close>

type_synonym group_core = "u8 list \<times> u8 \<times> u8 list option \<times> u64 list"

definition core :: "group \<Rightarrow> group_core" where
  "core G = (map slot_group (m_memberSlots G), m_groupType G, m_subGroupsCounts G, m_targetIcons G)"

definition core_ok :: "group_core \<Rightarrow> bool" where
  "core_ok c = (case c of (gs, t, counts, ics) \<Rightarrow>
     (\<forall>x\<in>set gs. unat x < MAX_RAID_SUBGROUPS) \<and> icons_ok ics \<and>
     (t AND GROUPTYPE_RAID \<noteq> 0 \<longleftrightarrow> counts \<noteq> None) \<and>
     (case counts of
        None \<Rightarrow> length gs \<le> MAXGROUPSIZE
      | Some cs \<Rightarrow> length cs = MAX_RAID_SUBGROUPS \<and>
          (\<forall>i<MAX_RAID_SUBGROUPS. unat (cs ! i) = count_in gs i \<and> count_in gs i \<le> MAXGROUPSIZE)))"

definition group_ok :: "group \<Rightarrow> bool" where
  "group_ok G \<longleftrightarrow> core_ok (core G)"

text \<open>The three views of the world, and the invariants on them.\<close>

definition cores :: "group_world \<Rightarrow> nat \<Rightarrow> group_core option" where
  "cores w g = map_option core (gw_groups w g)"

definition refs :: "group_world \<Rightarrow> nat \<Rightarrow> (u64 \<times> ref_kind) list option" where
  "refs w g = map_option m_memberMgr (gw_groups w g)"

definition link_ok :: "group_world \<Rightarrow> bool" where
  "link_ok w \<longleftrightarrow>
     (\<forall>p k g. target_of w p k = Some g \<longleftrightarrow> (\<exists>m. refs w g = Some m \<and> (p, k) \<in> set m)) \<and>
     (\<forall>g m. refs w g = Some m \<longrightarrow> distinct m \<and> g < gw_next w)"

definition groups_ok :: "nat set \<Rightarrow> group_world \<Rightarrow> bool" where
  "groups_ok S w \<longleftrightarrow> (\<forall>g c. cores w g = Some c \<longrightarrow> g \<notin> S \<longrightarrow> core_ok c)"

definition world_ok :: "group_world \<Rightarrow> bool" where
  "world_ok w \<longleftrightarrow> link_ok w \<and> groups_ok {} w"

section \<open>Quiet operations\<close>

definition quiet :: "group_world \<Rightarrow> group_world \<Rightarrow> bool" where
  "quiet w w' \<longleftrightarrow> cores w' = cores w \<and> refs w' = refs w \<and> target_of w' = target_of w \<and>
     (\<forall>p. (gw_players w' p = None) = (gw_players w p = None)) \<and> gw_next w' = gw_next w"

lemma quiet_refl [simp]: "quiet w w"
  by (simp add: quiet_def)

lemma quiet_trans: "quiet u v \<Longrightarrow> quiet v w \<Longrightarrow> quiet u w"
  by (simp add: quiet_def)

text \<open>\<open>quiet\<close> is an equivalence, so a quiet step can be dropped at the end of a sequence.\<close>

lemma quiet_step: "quiet v v' \<Longrightarrow> quiet w v' = quiet w v"
  unfolding quiet_def by auto

lemma quiet_foldl: "(\<And>w x. quiet w (f w x)) \<Longrightarrow> quiet w (foldl f w xs)"
  by (induction xs arbitrary: w) (auto intro: quiet_trans)

lemma quiet_emit [simp]: "quiet w (gw_emit es w)"
  by (simp add: quiet_def target_of_def cores_def refs_def fun_eq_iff)

lemmas quiet_emit_step [simp] = quiet_emit [THEN quiet_step]

lemma target_of_upd_player:
  "(\<And>pl. ref_target k (h pl) = ref_target k pl) \<Longrightarrow> target_of (upd_player p h w) q k = target_of w q k"
  by (auto simp: target_of_def split: option.split)

lemma target_of_upd_group [simp]: "target_of (upd_group g f w) p k = target_of w p k"
  by (simp add: target_of_def)

lemma quiet_upd_player:
  assumes "\<And>pl. m_group (h pl) = m_group pl" and "\<And>pl. m_originalGroup (h pl) = m_originalGroup pl"
  shows "quiet w (upd_player p h w)"
proof -
  have "ref_target k (h pl) = ref_target k pl" for k pl using assms by (cases k) simp_all
  then show ?thesis by (simp add: quiet_def target_of_upd_player cores_def refs_def fun_eq_iff)
qed

lemma cores_upd_group: "cores (upd_group g f w) g' =
    (if g' = g then map_option (core \<circ> f) (gw_groups w g) else cores w g')"
  by (simp add: cores_def option.map_comp)

lemma refs_upd_group: "refs (upd_group g f w) g' =
    (if g' = g then map_option (m_memberMgr \<circ> f) (gw_groups w g) else refs w g')"
  by (simp add: refs_def option.map_comp)

lemma quiet_upd_group:
  assumes "\<And>G. gw_groups w g = Some G \<Longrightarrow> core (f G) = core G \<and> m_memberMgr (f G) = m_memberMgr G"
  shows "quiet w (upd_group g f w)"
  using assms by (cases "gw_groups w g")
    (auto simp: quiet_def cores_upd_group refs_upd_group cores_def refs_def fun_eq_iff)

lemma quiet_outside:
  "gw_groups w' = gw_groups w \<Longrightarrow> gw_players w' = gw_players w \<Longrightarrow> gw_next w' = gw_next w \<Longrightarrow> quiet w w'"
  by (simp add: quiet_def target_of_def cores_def refs_def fun_eq_iff)

lemma refs_None: "refs w g = None \<longleftrightarrow> gw_groups w g = None" "cores w g = None \<longleftrightarrow> gw_groups w g = None"
  by (simp_all add: refs_def cores_def)

lemma quiet_alive: "quiet w w' \<Longrightarrow> (gw_groups w' g = None) = (gw_groups w g = None)"
  unfolding quiet_def by (metis refs_None(1))

lemma quiet_link: "quiet w w' \<Longrightarrow> link_ok w \<Longrightarrow> link_ok w'"
  by (simp add: quiet_def link_ok_def)

lemma quiet_groups: "quiet w w' \<Longrightarrow> groups_ok S w \<Longrightarrow> groups_ok S w'"
  by (simp add: quiet_def groups_ok_def)

lemma quiet_world: "quiet w w' \<Longrightarrow> world_ok w \<Longrightarrow> world_ok w'"
  by (auto simp: world_ok_def intro: quiet_link quiet_groups)

lemma core_fields [simp]:
  "core (G\<lparr>m_counter := a\<rparr>) = core G" "core (G\<lparr>m_dynObj := b\<rparr>) = core G" "core (G\<lparr>m_markerMask := c\<rparr>) = core G"
  "core (G\<lparr>m_looterGuid := d\<rparr>) = core G" "core (G\<lparr>m_lootMethod := a\<rparr>) = core G"
  "core (G\<lparr>m_lootThreshold := a\<rparr>) = core G" "core (G\<lparr>m_maxEnchantingLevel := a\<rparr>) = core G"
  "core (G\<lparr>m_dungeonDifficulty := a\<rparr>) = core G" "core (G\<lparr>m_raidDifficulty := a\<rparr>) = core G"
  "core (G\<lparr>m_invitees := b\<rparr>) = core G" "core (G\<lparr>m_memberMgr := x\<rparr>) = core G" "core (G\<lparr>RollId := y\<rparr>) = core G"
  "core (G\<lparr>m_leaderGuid := d\<rparr>) = core G" "core (G\<lparr>m_leaderName := z\<rparr>) = core G"
  "core (G\<lparr>m_dbStoreId := a\<rparr>) = core G" "core (G\<lparr>g_guid := d\<rparr>) = core G" "core (G\<lparr>m_bgGroup := u\<rparr>) = core G"
  by (simp_all add: core_def)

lemma map_upd_slot:
  "(\<And>s. slot_group (f s) = slot_group s) \<Longrightarrow> map slot_group (upd_slot guid f ss) = map slot_group ss"
  by (induction guid f ss rule: upd_slot.induct) auto

lemma core_slots:
  "map slot_group ss = map slot_group (m_memberSlots G) \<Longrightarrow> core (G\<lparr>m_memberSlots := ss\<rparr>) = core G"
  by (simp add: core_def)

text \<open>The operations that only send, or change what the invariants do not mention.\<close>

lemma quiet_sends [simp]:
  "quiet w (BroadcastPacket op bs ig sg i g w)" "quiet w (BroadcastReadyCheck op bs g w)"
  "quiet w (SendRaidMarkerUpdate g w)" "quiet w (SendRaidMarkerUpdateToPlayer p rm g w)"
  "quiet w (SendTargetIconList p g w)" "quiet w (sql_unless_bg q g w)" "quiet w (update_quest_objects g w)"
  "quiet w (BroadcastGroupUpdate g w)" "quiet w (SendPartyResult me a b c w)"
  by (simp_all add: BroadcastPacket_def BroadcastReadyCheck_def SendRaidMarkerUpdate_def
      SendRaidMarkerUpdateToPlayer_def SendTargetIconList_def sql_unless_bg_def update_quest_objects_def
      BroadcastGroupUpdate_def SendPartyResult_def)

lemmas quiet_steps = quiet_sends [THEN quiet_step]

lemma quiet_OfflineReadyCheck [simp]: "quiet w (OfflineReadyCheck g w)"
  unfolding OfflineReadyCheck_def by (rule quiet_foldl) simp

lemma quiet_SendUpdateToPlayer [simp]: "quiet w (SendUpdateToPlayer e p s g w)"
  by (auto simp: SendUpdateToPlayer_def Let_def simp: quiet_upd_group split: option.split)

lemma quiet_SendUpdate [simp]: "quiet w (SendUpdate e g w)"
  unfolding SendUpdate_def by (rule quiet_foldl) simp

lemma quiet_RemoveMarker [simp]: "quiet w (RemoveMarker e g w)"
  unfolding RemoveMarker_def
  by (rule quiet_foldl) (auto simp: RemoveMarker_step_def simp: quiet_upd_group split: option.split)

lemma quiet_SetGroupInvite [simp]: "quiet w (SetGroupInvite h p w)"
  unfolding SetGroupInvite_def by (rule quiet_upd_player) simp_all

lemma quiet_homebind [simp]: "quiet w (homebindIfInstance e p w)"
  by (simp add: homebindIfInstance_def quiet_upd_player)

lemma quiet_ResetMax [simp]: "quiet w (ResetMaxEnchantingLevel e g w)"
  by (simp add: ResetMaxEnchantingLevel_def quiet_upd_group)

lemma quiet_subGroup [simp]: "quiet w (upd_player p (set_ref_subGroup k s) w)"
  by (cases k) (simp_all add: quiet_upd_player)

lemma quiet_RemoveInvite [simp]: "quiet w (RemoveInvite p g w)"
  by (auto simp: RemoveInvite_def intro: quiet_trans [OF quiet_upd_group quiet_SetGroupInvite])

lemma quiet_RemoveAllInvites: "RemoveAllInvites g w = Inr w' \<Longrightarrow> quiet w w'"
  unfolding RemoveAllInvites_def
  by (auto split: if_splits intro!: quiet_trans [OF quiet_foldl quiet_upd_group])

lemma core_RemoveUnique [simp]: "core (RemoveUniqueGroupMemberFlag flag G) = core G"
  unfolding RemoveUniqueGroupMemberFlag_def by (rule core_slots) (simp add: comp_def if_distrib)

lemma quiet_RemoveUnique [simp]: "quiet w (upd_group g (RemoveUniqueGroupMemberFlag flag) w)"
  by (rule quiet_upd_group, rule conjI, rule core_RemoveUnique) (simp add: RemoveUniqueGroupMemberFlag_def)

lemma quiet_upd_slot:
  "(\<And>s. slot_group (f s) = slot_group s) \<Longrightarrow>
     quiet w (upd_group g (\<lambda>G. G\<lparr>m_memberSlots := upd_slot guid f (m_memberSlots G)\<rparr>) w)"
  by (simp add: quiet_upd_group core_slots map_upd_slot)

lemma Toggle_group [simp]: "slot_group (ToggleGroupMemberFlag flag b s) = slot_group s"
  by (simp add: ToggleGroupMemberFlag_def)

lemma quiet_SetGroupMemberFlag [simp]: "quiet w (SetGroupMemberFlag e guid b flag g w)"
proof -
  have "quiet v (SendUpdate e g (gw_emit es (upd_group g (\<lambda>G. G\<lparr>m_memberSlots :=
      upd_slot guid (ToggleGroupMemberFlag flag b) (m_memberSlots G)\<rparr>) v)))" for v es
    by (intro quiet_trans [OF quiet_upd_slot quiet_trans [OF quiet_emit quiet_SendUpdate]]) simp
  then show ?thesis
    by (auto simp: SetGroupMemberFlag_def Let_def intro: quiet_trans [OF quiet_RemoveUnique])
qed

lemma quiet_ChangeLeader [simp]: "quiet w (ChangeLeader e guid g w)"
proof -
  have "quiet v (upd_group g (\<lambda>G. G\<lparr>m_leaderGuid := guid, m_leaderName := n,
      m_memberSlots := upd_slot guid (ToggleGroupMemberFlag MEMBER_FLAG_ASSISTANT False) (m_memberSlots G)\<rparr>) v)"
    for v n
    by (rule quiet_upd_group) (simp add: core_def map_upd_slot)
  from quiet_step [OF this] show ?thesis unfolding ChangeLeader_def Let_def
    by (simp add: quiet_steps split: option.split)
qed

lemma quiet_UpdateLooterGuid [simp]: "quiet w (UpdateLooterGuid e b g w)"
  by (auto simp: UpdateLooterGuid_def Let_def intro: quiet_trans [OF quiet_upd_group quiet_SendUpdate] split: option.split)

section \<open>References\<close>

lemma target_of_set_ref:
  "target_of (upd_player p (set_ref_target k t) w) q j =
     (if q = p \<and> j = k then (if gw_players w p = None then None else t) else target_of w q j)"
  by (cases k; cases j) (auto simp: target_of_def split: option.split)

lemma cores_upd_player [simp]: "cores (upd_player p h w) = cores w" "refs (upd_player p h w) = refs w"
  by (simp_all add: cores_def refs_def fun_eq_iff)

lemma core_memberMgr: "cores (upd_group g (\<lambda>G. G\<lparr>m_memberMgr := f G\<rparr>) w) = cores w"
  by (auto simp: fun_eq_iff cores_upd_group cores_def option.map_comp intro!: option.map_cong)

lemma unlink_view:
  "target_of (ref_unlink k p w) q j = (if q = p \<and> j = k then None else target_of w q j)"
  "refs (ref_unlink k p w) g =
     map_option (\<lambda>m. if target_of w p k = Some g then remove1 (p, k) m else m) (refs w g)"
  "cores (ref_unlink k p w) = cores w" "gw_next (ref_unlink k p w) = gw_next w"
  "(gw_players (ref_unlink k p w) q = None) = (gw_players w q = None)"
  by (auto simp: ref_unlink_def Let_def target_of_set_ref core_memberMgr refs_upd_group refs_def
      option.map_comp o_def option.map_ident split: option.split)

lemma link_view:
  "target_of (ref_link k g p w) q j =
     (if q = p \<and> j = k then (if gw_players w p = None then None else Some g) else target_of w q j)"
  "refs (ref_link k g p w) h =
     map_option (\<lambda>m. if h = g then (p, k) # (if target_of w p k = Some h then remove1 (p, k) m else m)
                      else if target_of w p k = Some h then remove1 (p, k) m else m) (refs w h)"
  "cores (ref_link k g p w) = cores w" "gw_next (ref_link k g p w) = gw_next w"
  "(gw_players (ref_link k g p w) q = None) = (gw_players w q = None)"
proof -
  define u where "u = ref_unlink k p w"
  have e: "ref_link k g p w = upd_group g (\<lambda>G. G\<lparr>m_memberMgr := (p, k) # m_memberMgr G\<rparr>)
      (upd_player p (set_ref_target k (Some g)) u)"
    by (simp add: ref_link_def u_def)
  have r: "refs (upd_group g (\<lambda>G. G\<lparr>m_memberMgr := (p, k) # m_memberMgr G\<rparr>) v) h =
      map_option (\<lambda>m. if h = g then (p, k) # m else m) (refs v h)" for v
    by (auto simp: refs_upd_group refs_def option.map_comp o_def option.map_ident)
  show "refs (ref_link k g p w) h =
      map_option (\<lambda>m. if h = g then (p, k) # (if target_of w p k = Some h then remove1 (p, k) m else m)
                      else if target_of w p k = Some h then remove1 (p, k) m else m) (refs w h)"
    unfolding e r by (auto simp: u_def unlink_view option.map_comp o_def intro!: option.map_cong)
  show "target_of (ref_link k g p w) q j =
      (if q = p \<and> j = k then (if gw_players w p = None then None else Some g) else target_of w q j)"
    unfolding e by (simp add: target_of_set_ref u_def unlink_view)
  show "cores (ref_link k g p w) = cores w" "gw_next (ref_link k g p w) = gw_next w"
    "(gw_players (ref_link k g p w) q = None) = (gw_players w q = None)"
    unfolding e by (simp_all add: core_memberMgr u_def unlink_view)
qed

lemma link_ok_target: "link_ok w \<Longrightarrow> target_of w p k = Some g \<longleftrightarrow> (\<exists>m. refs w g = Some m \<and> (p, k) \<in> set m)"
  by (simp add: link_ok_def)

lemma link_ok_alive: "link_ok w \<Longrightarrow> target_of w p k = Some g \<Longrightarrow> gw_groups w g \<noteq> None"
  by (metis link_ok_target option.distinct(1) refs_None(1))

lemma link_ok_refs: "link_ok w \<Longrightarrow> refs w g = Some m \<Longrightarrow> distinct m \<and> g < gw_next w"
  unfolding link_ok_def by blast

lemma link_ok_unlink [simp, intro]:
  assumes l: "link_ok w"
  shows "link_ok (ref_unlink k p w)"
  unfolding link_ok_def
proof (intro conjI allI impI)
  fix q j g
  show "target_of (ref_unlink k p w) q j = Some g \<longleftrightarrow>
      (\<exists>m. refs (ref_unlink k p w) g = Some m \<and> (q, j) \<in> set m)"
    using link_ok_target [OF l, of q j g] link_ok_target [OF l, of p k g] link_ok_refs [OF l, of g]
    by (cases "refs w g") (auto simp: unlink_view split: if_splits)
next
  fix g m assume "refs (ref_unlink k p w) g = Some m"
  then show "distinct m" "g < gw_next (ref_unlink k p w)"
    using link_ok_refs [OF l, of g] by (cases "refs w g"; auto simp: unlink_view split: if_splits)+
qed

lemma link_ok_link:
  assumes l: "link_ok w" and g: "gw_groups w g \<noteq> None" and p: "gw_players w p \<noteq> None"
  shows "link_ok (ref_link k g p w)"
  unfolding link_ok_def
proof (intro conjI allI impI)
  fix q j h
  show "target_of (ref_link k g p w) q j = Some h \<longleftrightarrow>
      (\<exists>m. refs (ref_link k g p w) h = Some m \<and> (q, j) \<in> set m)"
    using link_ok_target [OF l, of q j h] link_ok_target [OF l, of p k h] link_ok_refs [OF l, of h] g p refs_None(1) [of w g]
    by (cases "refs w h") (auto simp: link_view split: if_splits)
next
  fix h m assume "refs (ref_link k g p w) h = Some m"
  then show "distinct m" "h < gw_next (ref_link k g p w)"
    using link_ok_refs [OF l, of h] link_ok_target [OF l, of p k h]
    by (cases "refs w h"; auto simp: link_view split: if_splits)+
qed

end
