(* ===== verification/Group_Limits.thy ===== *)
theory Group_Limits
  imports Group_Invariant
begin

text \<open>
  The limits of a group under the operations on its record: a member is added to the first
  subgroup with a place, removed, or moved; the counters are set up for a raid; icons are set.
\<close>

section \<open>Counting subgroups\<close>

lemma count_in_simps [simp]:
  "count_in [] i = 0" "count_in (x # gs) i = (if unat x = i then 1 else 0) + count_in gs i"
  "count_in (gs @ hs) i = count_in gs i + count_in hs i"
  by (simp_all add: count_in_def)

lemma count_in_le: "count_in gs i \<le> length gs"
  by (simp add: count_in_def)

lemma count_in_pos: "x \<in> set gs \<Longrightarrow> 0 < count_in gs (unat x)"
  by (induction gs) auto

lemma unat_bumps:
  "unat (c :: u8) < 255 \<Longrightarrow> unat (c + 1) = unat c + 1" "0 < unat (c :: u8) \<Longrightarrow> unat (c - 1) = unat c - 1"
  by (simp add: unat_word_ariths) (metis unat_minus_one unat_gt_0)

lemma getMemberSlot_in:
  "getMemberSlot guid G = Some s \<Longrightarrow> s \<in> set (m_memberSlots G) \<and> slot_guid s = guid"
  by (auto simp: getMemberSlot_def find_Some_iff)

lemma count_in_erase:
  "find (\<lambda>s. slot_guid s = guid) ss = Some s \<Longrightarrow>
     count_in (map slot_group (erase_slot guid ss)) i + (if unat (slot_group s) = i then 1 else 0)
       = count_in (map slot_group ss) i"
  by (induction guid ss rule: erase_slot.induct) (auto split: if_splits)

lemma count_in_move:
  "find (\<lambda>s. slot_guid s = guid) ss = Some s \<Longrightarrow>
     count_in (map slot_group (upd_slot guid (\<lambda>s. s\<lparr>slot_group := sg\<rparr>) ss)) i
       + (if unat (slot_group s) = i then 1 else 0)
     = count_in (map slot_group ss) i + (if unat sg = i then 1 else 0)"
  by (induction ss) (auto split: if_splits)

lemma set_erase: "set (map slot_group (erase_slot guid ss)) \<subseteq> set (map slot_group ss)"
  by (induction guid ss rule: erase_slot.induct) auto

lemma length_erase: "length (erase_slot guid ss) \<le> length ss"
  by (induction guid ss rule: erase_slot.induct) auto

lemma set_move: "set (map slot_group (upd_slot guid (\<lambda>s. s\<lparr>slot_group := sg\<rparr>) ss)) \<subseteq> insert sg (set (map slot_group ss))"
  by (induction ss) auto

section \<open>The limits in the view\<close>

lemma core_ok_raid:
  "core_ok (gs, t, Some cs, ics) \<longleftrightarrow>
     (\<forall>x\<in>set gs. unat x < MAX_RAID_SUBGROUPS) \<and> icons_ok ics \<and> t AND GROUPTYPE_RAID \<noteq> 0 \<and>
     length cs = MAX_RAID_SUBGROUPS \<and>
     (\<forall>i<MAX_RAID_SUBGROUPS. unat (cs ! i) = count_in gs i \<and> count_in gs i \<le> MAXGROUPSIZE)"
  by (auto simp: core_ok_def)

lemma core_ok_party:
  "core_ok (gs, t, None, ics) \<longleftrightarrow>
     (\<forall>x\<in>set gs. unat x < MAX_RAID_SUBGROUPS) \<and> icons_ok ics \<and> t AND GROUPTYPE_RAID = 0 \<and>
     length gs \<le> MAXGROUPSIZE"
  by (auto simp: core_ok_def)

text \<open>One more member in subgroup \<open>sg\<close>, where there is a place.\<close>

lemma core_ok_add:
  assumes "core_ok (gs, t, Some cs, ics)" and "unat sg < MAX_RAID_SUBGROUPS"
    and "unat (cs ! unat sg) < MAXGROUPSIZE"
  shows "core_ok (gs @ [sg], t, Some (cs[unat sg := cs ! unat sg + 1]), ics)"
  using assms by (auto simp: core_ok_raid nth_list_update unat_bumps MAXGROUPSIZE_def MAX_RAID_SUBGROUPS_def)

text \<open>A change of the subgroups that is matched by the counters.\<close>

lemma core_ok_recount:
  assumes ok: "core_ok (gs, t, Some cs, ics)"
    and "set gs' \<subseteq> {x. unat x < MAX_RAID_SUBGROUPS}" and "length cs' = MAX_RAID_SUBGROUPS"
    and "\<And>i. i < MAX_RAID_SUBGROUPS \<Longrightarrow> unat (cs' ! i) = count_in gs' i \<and> count_in gs' i \<le> MAXGROUPSIZE"
  shows "core_ok (gs', t, Some cs', ics)"
  using assms by (auto simp: core_ok_raid)

lemma core_ok_length:
  assumes "core_ok c" and "c = (gs, t, counts, ics)"
  shows "length gs \<le> (if counts = None then MAXGROUPSIZE else MAXRAIDSIZE)"
proof (cases counts)
  case None
  with assms show ?thesis by (simp add: core_ok_party)
next
  case (Some cs)
  have len: "length xs = (\<Sum>i<MAX_RAID_SUBGROUPS. count_in xs i)"
    if "\<forall>x\<in>set xs. unat x < MAX_RAID_SUBGROUPS" for xs
    using that by (induction xs) (simp_all add: sum.distrib)
  with assms Some have "length gs = (\<Sum>i<MAX_RAID_SUBGROUPS. count_in gs i)" by (simp add: core_ok_raid)
  also have "\<dots> \<le> (\<Sum>i<MAX_RAID_SUBGROUPS. MAXGROUPSIZE)"
    using assms Some by (intro sum_mono) (simp add: core_ok_raid)
  finally show ?thesis using Some by (simp add: MAX_RAID_SUBGROUPS_def MAXGROUPSIZE_def MAXRAIDSIZE_def)
qed

section \<open>Adding, removing, moving\<close>

lemma push_member_ok:
  assumes ok: "core_ok (core G)" and free: "free_subgroup G = Some (slot_group s)"
    and room: "\<not> isRaidGroup G \<Longrightarrow> length (m_memberSlots G) < MAXGROUPSIZE"
  shows "\<exists>G'. SubGroupCounterIncrease (slot_group s) (G\<lparr>m_memberSlots := m_memberSlots G @ [s]\<rparr>) = Inr G' \<and>
    core_ok (core G') \<and> m_memberMgr G' = m_memberMgr G \<and> isRaidGroup G' = isRaidGroup G"
proof (cases "m_subGroupsCounts G")
  case None
  with ok have r: "\<not> isRaidGroup G" by (simp add: core_def core_ok_party isRaidGroup_def)
  from None free have "slot_group s = 0" by (simp add: free_subgroup_def)
  with None ok room [OF r] show ?thesis
    by (simp add: SubGroupCounterIncrease_def bump_def core_def core_ok_party isRaidGroup_def MAX_RAID_SUBGROUPS_def)
next
  case (Some cs)
  with free obtain i where f: "find (\<lambda>i. unat (cs ! i) < MAXGROUPSIZE) [0..<MAX_RAID_SUBGROUPS] = Some i"
    and i: "slot_group s = of_nat i"
    by (auto simp: free_subgroup_def)
  from f have "i < MAX_RAID_SUBGROUPS" "unat (cs ! i) < MAXGROUPSIZE" by (auto simp: find_Some_iff)
  note i = i this
  from i have u: "unat (slot_group s) = i" by (simp add: MAX_RAID_SUBGROUPS_def unat_of_nat)
  from ok Some have "length cs = MAX_RAID_SUBGROUPS" by (simp add: core_def core_ok_raid)
  with Some u i core_ok_add [of "map slot_group (m_memberSlots G)" "m_groupType G" cs "m_targetIcons G" "slot_group s"] ok
  show ?thesis by (simp add: SubGroupCounterIncrease_def bump_def core_def isRaidGroup_def)
qed

lemma remove_slot_ok:
  assumes ok: "core_ok (core G)"
  shows "\<exists>G'. remove_slot guid G = Inr G' \<and> core_ok (core G') \<and> m_memberMgr G' = m_memberMgr G"
proof (cases "getMemberSlot guid G")
  case None
  with ok show ?thesis by (simp add: remove_slot_def)
next
  case slot: (Some s)
  let ?gs = "map slot_group (m_memberSlots G)"
  let ?gs' = "map slot_group (erase_slot guid (m_memberSlots G))"
  have s: "slot_group s \<in> set ?gs" using getMemberSlot_in [OF slot] by simp
  have n: "count_in ?gs' i + (if unat (slot_group s) = i then 1 else 0) = count_in ?gs i" for i
    by (rule count_in_erase) (use slot in \<open>simp add: getMemberSlot_def\<close>)
  have sub: "set ?gs' \<subseteq> set ?gs" by (rule set_erase)
  show ?thesis
  proof (cases "m_subGroupsCounts G")
    case None
    have "length (erase_slot guid (m_memberSlots G)) \<le> length (m_memberSlots G)" by (rule length_erase)
    with None slot ok sub show ?thesis
      by (auto simp: remove_slot_def SubGroupCounterDecrease_def bump_def core_def core_ok_party)
  next
    case (Some cs)
    let ?cs' = "cs[unat (slot_group s) := cs ! unat (slot_group s) - 1]"
    from ok Some have c: "core_ok (?gs, m_groupType G, Some cs, m_targetIcons G)" by (simp add: core_def)
    from c s have u: "unat (slot_group s) < MAX_RAID_SUBGROUPS" and l: "length cs = MAX_RAID_SUBGROUPS"
      by (auto simp: core_ok_raid)
    have p: "0 < count_in ?gs (unat (slot_group s))" by (rule count_in_pos [OF s])
    have "unat (?cs' ! i) = count_in ?gs' i \<and> count_in ?gs' i \<le> MAXGROUPSIZE" if i: "i < MAX_RAID_SUBGROUPS" for i
    proof -
      from c i have "unat (cs ! i) = count_in ?gs i" "count_in ?gs i \<le> MAXGROUPSIZE" by (simp_all add: core_ok_raid)
      with n [of i] p l u show ?thesis by (cases "unat (slot_group s) = i") (auto simp: unat_bumps)
    qed
    moreover from c sub have "set ?gs' \<subseteq> {x. unat x < MAX_RAID_SUBGROUPS}" unfolding core_ok_raid by blast
    ultimately have "core_ok (?gs', m_groupType G, Some ?cs', m_targetIcons G)"
      using core_ok_recount [OF c] l by simp
    with Some slot u l show ?thesis
      by (simp add: remove_slot_def SubGroupCounterDecrease_def bump_def core_def)
  qed
qed

lemma move_slot_ok:
  assumes ok: "core_ok (core G)" and slot: "getMemberSlot guid G = Some s" and ne: "slot_group s \<noteq> sg"
    and counts: "m_subGroupsCounts G = Some cs" and sg: "unat sg < MAX_RAID_SUBGROUPS"
    and room: "unat (cs ! unat sg) < MAXGROUPSIZE"
  shows "\<exists>G'. move_slot guid sg (slot_group s) G = Inr G' \<and> core_ok (core G') \<and> m_memberMgr G' = m_memberMgr G"
proof -
  let ?gs = "map slot_group (m_memberSlots G)"
  let ?gs' = "map slot_group (upd_slot guid (\<lambda>s. s\<lparr>slot_group := sg\<rparr>) (m_memberSlots G))"
  let ?cs1 = "cs[unat sg := cs ! unat sg + 1]"
  let ?cs' = "?cs1[unat (slot_group s) := ?cs1 ! unat (slot_group s) - 1]"
  have s: "slot_group s \<in> set ?gs" using getMemberSlot_in [OF slot] by simp
  have n: "count_in ?gs' i + (if unat (slot_group s) = i then 1 else 0)
      = count_in ?gs i + (if unat sg = i then 1 else 0)" for i
    by (rule count_in_move) (use slot in \<open>simp add: getMemberSlot_def\<close>)
  from ok counts have c: "core_ok (?gs, m_groupType G, Some cs, m_targetIcons G)" by (simp add: core_def)
  from c s have u: "unat (slot_group s) < MAX_RAID_SUBGROUPS" and l: "length cs = MAX_RAID_SUBGROUPS"
    by (auto simp: core_ok_raid)
  have ne': "unat (slot_group s) \<noteq> unat sg" using ne by (simp add: word_unat_eq_iff)
  have p: "0 < count_in ?gs (unat (slot_group s))" by (rule count_in_pos [OF s])
  have "unat (?cs' ! i) = count_in ?gs' i \<and> count_in ?gs' i \<le> MAXGROUPSIZE" if i: "i < MAX_RAID_SUBGROUPS" for i
  proof -
    from c i have "unat (cs ! i) = count_in ?gs i" "count_in ?gs i \<le> MAXGROUPSIZE" by (simp_all add: core_ok_raid)
    with n [of i] p l u sg room ne' show ?thesis
      by (cases "unat (slot_group s) = i"; cases "unat sg = i") (auto simp: unat_bumps MAXGROUPSIZE_def)
  qed
  moreover have "set ?gs' \<subseteq> {x. unat x < MAX_RAID_SUBGROUPS}"
    using c sg set_move [of guid sg "m_memberSlots G"] unfolding core_ok_raid by blast
  ultimately have "core_ok (?gs', m_groupType G, Some ?cs', m_targetIcons G)"
    using core_ok_recount [OF c] l by simp
  with counts u l sg show ?thesis
    by (simp add: move_slot_def SubGroupCounterIncrease_def SubGroupCounterDecrease_def bump_def core_def)
qed

section \<open>Conversions\<close>

lemma count_slots_ok:
  assumes "\<forall>s\<in>set ss. unat (slot_group s) < length cs"
  shows "\<exists>cs'. count_slots ss cs = Inr cs' \<and> length cs' = length cs \<and>
    (\<forall>i<length cs. cs' ! i = cs ! i + of_nat (count_in (map slot_group ss) i))"
  using assms
proof (induction ss arbitrary: cs)
  case Nil
  then show ?case by simp
next
  case (Cons s ss)
  let ?cs = "cs[unat (slot_group s) := cs ! unat (slot_group s) + 1]"
  from Cons.prems have "\<forall>s\<in>set ss. unat (slot_group s) < length ?cs" by simp
  from Cons.IH [OF this] obtain cs' where "count_slots ss ?cs = Inr cs'" "length cs' = length cs"
    "\<forall>i<length cs. cs' ! i = ?cs ! i + of_nat (count_in (map slot_group ss) i)" by auto
  with Cons.prems show ?case by (auto simp: nth_list_update)
qed

lemma initRaid_ok:
  assumes "\<forall>s\<in>set (m_memberSlots G). unat (slot_group s) < MAX_RAID_SUBGROUPS"
    and "isRaidGroup G" and "icons_ok (m_targetIcons G)"
    and few: "\<And>i. count_in (map slot_group (m_memberSlots G)) i \<le> MAXGROUPSIZE"
  shows "\<exists>G'. initRaidSubGroupsCounter G = Inr G' \<and> core_ok (core G') \<and> m_memberMgr G' = m_memberMgr G"
proof -
  obtain cs where "count_slots (m_memberSlots G) (replicate MAX_RAID_SUBGROUPS 0) = Inr cs"
    and "length cs = MAX_RAID_SUBGROUPS"
    and cs: "\<forall>i<MAX_RAID_SUBGROUPS. cs ! i = of_nat (count_in (map slot_group (m_memberSlots G)) i)"
    using count_slots_ok [of "m_memberSlots G" "replicate MAX_RAID_SUBGROUPS 0"] assms(1) by auto
  moreover have "unat (cs ! i) = count_in (map slot_group (m_memberSlots G)) i" if "i < MAX_RAID_SUBGROUPS" for i
    using cs that few [of i] by (simp add: unat_of_nat MAXGROUPSIZE_def)
  ultimately show ?thesis using assms
    by (auto simp: initRaidSubGroupsCounter_def core_def core_ok_raid isRaidGroup_def)
qed

text \<open>A group within its limits has at most five members in each subgroup.\<close>

lemma core_ok_few:
  assumes "core_ok (core G)"
  shows "count_in (map slot_group (m_memberSlots G)) i \<le> MAXGROUPSIZE"
proof (cases "m_subGroupsCounts G")
  case None
  have "count_in (map slot_group (m_memberSlots G)) i \<le> length (m_memberSlots G)"
    using count_in_le [of "map slot_group (m_memberSlots G)" i] by simp
  with None assms show ?thesis by (simp add: core_def core_ok_party)
next
  case (Some cs)
  show ?thesis
  proof (cases "i < MAX_RAID_SUBGROUPS")
    case True
    with Some assms show ?thesis by (simp add: core_def core_ok_raid)
  next
    case False
    with Some assms have "count_in (map slot_group (m_memberSlots G)) i = 0"
      by (auto simp: core_def core_ok_raid count_in_def filter_empty_conv)
    then show ?thesis by simp
  qed
qed

lemma raid_bit [simp]: "(t OR GROUPTYPE_RAID) AND GROUPTYPE_RAID \<noteq> (0 :: u8)"
proof -
  have "(t OR r) AND r = r" for r :: u8 by (rule bit_word_eqI) (auto simp: bit_simps)
  then show ?thesis by (simp add: GROUPTYPE_RAID_def)
qed

section \<open>Icons\<close>

lemma distinct_nonzero_update:
  fixes xs :: "u64 list"
  assumes "distinct (filter (\<lambda>t. t \<noteq> 0) xs)" and "t = 0 \<or> t \<notin> set xs"
  shows "distinct (filter (\<lambda>t. t \<noteq> 0) (xs[i := t]))"
  using assms
proof (induction xs arbitrary: i)
  case (Cons x xs)
  have sub: "set (xs[j := t]) \<subseteq> insert t (set xs)" for j by (rule set_update_subset_insert)
  from Cons show ?case
    by (cases i) (use sub in \<open>auto split: if_splits\<close>)
qed simp

lemma icons_ok_update:
  "icons_ok ics \<Longrightarrow> t = 0 \<or> t \<notin> set ics \<Longrightarrow> icons_ok (ics[i := t])"
  by (simp add: icons_ok_def distinct_nonzero_update)

end
