(* ===== verification/Group_Quiet.thy ===== *)
theory Group_Quiet
  imports Group_Limits
begin

text \<open>
  Operations that keep the invariants without touching the limits of a group: everything about
  rolls is quiet, and moving players between groups only relinks references.
\<close>

section \<open>Rolls are quiet\<close>

lemma quiet_loot_only: "loot_only w w' \<Longrightarrow> quiet w w'"
  by (simp add: loot_only_def quiet_outside)

lemma quiet_RollId: "quiet w (upd_group g (\<lambda>G. G\<lparr>RollId := h G\<rparr>) w)"
  by (rule quiet_upd_group) simp

lemma quiet_roll_updates [simp]: "quiet w (upd_roll i f g w)" "quiet w (erase_roll i g w)"
  by (simp_all add: upd_roll_def erase_roll_def quiet_RollId)

lemma quiet_CountTheRoll: "CountTheRoll e i g w = Inr w' \<Longrightarrow> quiet w w'"
  by (erule CountTheRoll_erases) (simp add: quiet_trans [OF quiet_loot_only])

lemma quiet_announce_vote [simp]: "quiet w (announce_vote p c r w)"
  by (rule quiet_loot_only) (simp add: announce_vote_def)

lemma quiet_CountRollVote:
  assumes "CountRollVote e p guid c g w = Inr w'"
  shows "quiet w w'"
proof -
  have vote: "quiet w (upd_roll i f g (announce_vote p c r w))" for i f r
    using quiet_step [OF quiet_roll_updates(1)] by simp
  show ?thesis using assms unfolding CountRollVote_def Let_def
    by (auto split: option.splits if_splits intro: quiet_trans [OF vote quiet_CountTheRoll] vote)
qed

lemma quiet_remove_from_rolls: "remove_from_rolls e guid is g w = Inr w' \<Longrightarrow> quiet w w'"
proof (induction e guid "is" g w rule: remove_from_rolls.induct)
  case (2 e guid i "is" g w)
  show ?case
  proof (cases "sm_find (playerVote (RollId (grp g w) ! i)) guid")
    case None
    with 2 show ?thesis by simp
  next
    case (Some v)
    with "2.prems" obtain u where
      u: "CountRollVote e guid (itemGUID (RollId (grp g (upd_roll i (withdraw_vote guid v) g w)) ! i)) MAX_ROLL_TYPE g
           (upd_roll i (withdraw_vote guid v) g w) = Inr u" and r: "remove_from_rolls e guid is g u = Inr w'"
      by (auto simp: Let_def elim: rbind_InrE)
    have "quiet u w'" using "2.IH"(2) [OF Some refl u r] .
    with quiet_CountRollVote [OF u] quiet_roll_updates(1) show ?thesis by (meson quiet_trans)
  qed
qed simp

lemma quiet_announce_start [simp]: "quiet w (announce_start b e m r w)"
proof -
  have "loot_only w (announce_passes r w)" for w
    unfolding announce_passes_def by (rule loot_only_foldl) simp
  then have "loot_only w (announce_start b e m r w)"
    unfolding announce_start_def by (auto intro: loot_only_foldl)
  then show ?thesis by (rule quiet_loot_only)
qed

lemma quiet_itemGuid [simp]: "quiet w (w\<lparr>gw_itemGuid := n\<rparr>)"
  by (rule quiet_outside) simp_all

lemma quiet_upd_loot [simp]: "quiet w (upd_loot l f w)"
  by (rule quiet_loot_only) simp

lemma quiet_start_roll [simp]: "quiet w (start_roll b e m l q s li g w)"
proof -
  have "quiet w (upd_group g (\<lambda>G. G\<lparr>RollId := RollId G @ rs\<rparr>)
      (announce_start b e m r (upd_loot l f (w\<lparr>gw_itemGuid := n\<rparr>))))" for rs r f n
    by (intro quiet_trans [OF quiet_trans [OF quiet_trans [OF quiet_itemGuid quiet_upd_loot] quiet_announce_start] quiet_RollId])
  then show ?thesis unfolding start_roll_def Let_def by simp
qed

lemma quiet_loot_one: "loot_one b e m l i g w = Inr w' \<Longrightarrow> quiet w w'"
  by (auto simp: loot_one_def Let_def split: option.splits if_splits)

lemma quiet_loot_loop: "loot_loop b e m l is g w = Inr w' \<Longrightarrow> quiet w w'"
  by (induction b e m l "is" g w rule: loot_loop.induct)
    (auto elim!: rbind_InrE intro: quiet_trans quiet_loot_one)

lemma quiet_EndRoll: "EndRoll e l g w = Inr w' \<Longrightarrow> quiet w w'"
proof (induction e l g w rule: EndRoll.induct)
  case (1 e l g w)
  from "1.prems" show ?case
    by (subst (asm) EndRoll.simps)
      (auto split: option.splits elim!: rbind_InrE intro: quiet_trans quiet_CountTheRoll "1.IH")
qed

lemma quiet_loot_clear [simp]: "quiet w (loot_clear l w)"
proof -
  have "quiet v (v\<lparr>gw_groups := (\<lambda>g. map_option (\<lambda>G. G\<lparr>RollId := h (RollId G)\<rparr>) (gw_groups v g))\<rparr>)" for v h
    by (simp add: quiet_def cores_def refs_def target_of_def fun_eq_iff option.map_comp o_def)
  then show ?thesis unfolding loot_clear_def Let_def by (rule quiet_trans [OF quiet_upd_loot])
qed

section \<open>Relinking\<close>

text \<open>\<open>relink\<close>: the groups keep their limits' view, and consistent references stay consistent.\<close>

definition relink :: "group_world \<Rightarrow> group_world \<Rightarrow> bool" where
  "relink w w' \<longleftrightarrow> cores w' = cores w \<and> (link_ok w \<longrightarrow> link_ok w') \<and>
     (\<forall>p. (gw_players w' p = None) = (gw_players w p = None))"

lemma quiet_relink: "quiet w w' \<Longrightarrow> relink w w'"
  by (simp add: relink_def quiet_def link_ok_def)

lemma relink_trans: "relink u v \<Longrightarrow> relink v w \<Longrightarrow> relink u w"
  by (simp add: relink_def)

lemma relink_quiet: "relink w v \<Longrightarrow> quiet v v' \<Longrightarrow> relink w v'"
  by (meson quiet_relink relink_trans)

lemma relink_step: "quiet v v' \<Longrightarrow> relink w v' = relink w v"
  unfolding relink_def quiet_def link_ok_def by auto

lemmas relink_steps [simp] =
  quiet_emit [THEN relink_step] quiet_subGroup [THEN relink_step] quiet_homebind [THEN relink_step]
  quiet_SendUpdate [THEN relink_step] quiet_SetGroupInvite [THEN relink_step]

lemma relink_refl [simp]: "relink w w"
  by (simp add: relink_def)

lemma relink_world: "relink w w' \<Longrightarrow> world_ok w \<Longrightarrow> world_ok w'"
  by (simp add: relink_def world_ok_def groups_ok_def)

lemma relink_alive: "relink w w' \<Longrightarrow> (gw_groups w' g = None) = (gw_groups w g = None)"
  by (metis relink_def refs_None(2))

lemma relink_unlink [simp]: "relink w (ref_unlink k p w)"
  by (simp add: relink_def unlink_view)

lemma relink_link: "gw_groups w g \<noteq> None \<Longrightarrow> gw_players w p \<noteq> None \<Longrightarrow> relink w (ref_link k g p w)"
  by (simp add: relink_def link_view link_ok_link)

text \<open>The same when the group is known to be alive only because a reference to it is consistent.\<close>

lemma relink_link_target:
  assumes "target_of w q j = Some g" and "gw_players w p \<noteq> None"
  shows "relink w (ref_link k g p w)"
  using assms link_ok_alive [of w q j g] link_ok_link [of w g p k]
  by (auto simp: relink_def link_view)

lemma group_of_target: "group_of w p = target_of w p GroupRef" "original_group_of w p = target_of w p OriginalGroupRef"
  by (auto simp: group_of_def original_group_of_def target_of_def split: option.split)

lemma target_player: "target_of w p k = Some g \<Longrightarrow> gw_players w p \<noteq> None"
  by (auto simp: target_of_def split: option.splits)

lemma relink_SetGroup:
  assumes "SetGroup (Some g) sg p w = Inr w'" and "gw_groups w g \<noteq> None" and "gw_players w p \<noteq> None"
  shows "relink w w'"
  using assms by (auto simp: SetGroup_def split: if_splits intro!: relink_link)

lemma relink_SetOriginalGroup:
  assumes "SetOriginalGroup h sg p w = Inr w'" and "gw_players w p \<noteq> None"
    and "\<And>g. h = Some g \<Longrightarrow> gw_groups w g \<noteq> None \<or> (\<exists>q j. target_of w q j = Some g)"
  shows "relink w w'"
proof (cases h)
  case None
  with assms(1) show ?thesis by (auto simp: SetOriginalGroup_def)
next
  case (Some g)
  from assms(3) [OF Some] assms(2) have "relink w (ref_link OriginalGroupRef g p w)"
    using relink_link relink_link_target by blast
  with assms(1) Some show ?thesis
    by (auto simp: SetOriginalGroup_def split: if_splits)
qed

lemma relink_SetBattlegroundRaid:
  assumes run: "SetBattlegroundOrBattlefieldRaid g sg p w = Inr w'"
    and g: "gw_groups w g \<noteq> None" and p: "gw_players w p \<noteq> None"
  shows "relink w w'"
proof -
  from run obtain s u where s: "SetOriginalGroup (group_of w p) s p w = Inr u"
    and w': "w' = upd_player p (set_ref_subGroup GroupRef sg) (ref_link GroupRef g p (ref_unlink GroupRef p u))"
    by (auto simp: SetBattlegroundOrBattlefieldRaid_def elim!: rbind_InrE)
  have u: "relink w u"
    by (rule relink_SetOriginalGroup [OF s p]) (auto simp: group_of_target)
  let ?v = "ref_unlink GroupRef p u"
  have v: "relink w ?v" using u relink_unlink by (rule relink_trans)
  have "relink ?v (ref_link GroupRef g p ?v)"
    using relink_alive [OF v, of g] g p v by (intro relink_link) (auto simp: relink_def)
  with v have "relink w (ref_link GroupRef g p ?v)" by (rule relink_trans)
  then show ?thesis unfolding w' by simp
qed

lemma relink_RemoveFromRaid [simp]: "relink w (RemoveFromBattlegroundOrBattlefieldRaid p w)"
proof -
  let ?u = "ref_unlink GroupRef p w"
  have "relink ?u (case original_group_of ?u p of None \<Rightarrow> ?u
      | Some g \<Rightarrow> upd_player p (set_ref_subGroup GroupRef (s g)) (ref_link GroupRef g p ?u))" for s
    by (auto simp: group_of_target quiet_relink split: option.split
        intro!: relink_link_target dest: target_player)
  then show ?thesis unfolding RemoveFromBattlegroundOrBattlefieldRaid_def Let_def
    by (intro relink_trans [OF relink_unlink relink_trans [OF _ relink_unlink]])
qed

lemma relink_detach [simp]: "relink w (detach_player p g w)"
  by (simp add: detach_player_def)

lemma relink_Delink [simp]: "relink w (DelinkMember guid g w)"
  by (simp add: DelinkMember_def split: option.split prod.split)

lemma relink_leave [simp]: "relink w (leave_player e guid meth g w)"
  by (simp add: leave_player_def Let_def)

lemma relink_disband_member: "disband_member e h g p w = Inr w' \<Longrightarrow> relink w w'"
  by (auto simp: disband_member_def Let_def through_def elim!: rbind_InrE split: if_splits option.splits)

lemma relink_disband_members: "disband_members e h g ps w = Inr w' \<Longrightarrow> relink w w'"
  by (induction e h g ps w rule: disband_members.induct)
    (auto elim!: rbind_InrE intro: relink_trans relink_disband_member)

end
