(* ===== verification/Group_World.thy ===== *)
theory Group_World
  imports Group_Quiet
begin

text \<open>
  Operations that change one group within its limits keep \<open>world_ok\<close>: target icons, the
  conversions, moving members between subgroups.
\<close>

section \<open>One group changes\<close>

lemma upd_group_const [simp]: "upd_group g (\<lambda>_. G) (upd_group g f w) = upd_group g (\<lambda>_. G) w"
  by (simp add: upd_group_def option.map_comp o_def)

lemma grp_alive: "gw_groups w g = Some G \<Longrightarrow> grp g w = G"
  by (simp add: grp_def)

definition counts_ok :: "u8 list \<Rightarrow> u8 list option \<Rightarrow> bool" where
  "counts_ok gs counts \<longleftrightarrow> (case counts of
     None \<Rightarrow> length gs \<le> MAXGROUPSIZE
   | Some cs \<Rightarrow> length cs = MAX_RAID_SUBGROUPS \<and>
       (\<forall>i<MAX_RAID_SUBGROUPS. unat (cs ! i) = count_in gs i \<and> count_in gs i \<le> MAXGROUPSIZE))"

lemma core_ok_core: "core_ok (core G) \<longleftrightarrow>
    (\<forall>s\<in>set (m_memberSlots G). unat (slot_group s) < MAX_RAID_SUBGROUPS) \<and> icons_ok (m_targetIcons G) \<and>
    (isRaidGroup G \<longleftrightarrow> m_subGroupsCounts G \<noteq> None) \<and> counts_ok (map slot_group (m_memberSlots G)) (m_subGroupsCounts G)"
  by (simp add: core_ok_def core_def isRaidGroup_def counts_ok_def)

lemma world_ok_core:
  assumes "world_ok w" and "gw_groups w g \<noteq> None"
  shows "core_ok (core (grp g w))"
proof -
  from assms(2) obtain G where G: "gw_groups w g = Some G" by blast
  then have "cores w g = Some (core G)" by (simp add: cores_def)
  moreover from assms(1) have "core_ok c" if "cores w g = Some c" for c
    using that unfolding world_ok_def groups_ok_def by blast
  ultimately show ?thesis using G by (simp add: grp_alive)
qed

lemma world_ok_icons: "world_ok w \<Longrightarrow> gw_groups w g \<noteq> None \<Longrightarrow> icons_ok (m_targetIcons (grp g w))"
  using world_ok_core [of w g] by (simp add: core_ok_core)

lemma world_ok_link: "world_ok w \<Longrightarrow> link_ok w"
  by (simp add: world_ok_def)

lemma world_set:
  assumes ok: "world_ok w"
    and new: "gw_groups w g \<noteq> None \<Longrightarrow> core_ok (core G') \<and> m_memberMgr G' = m_memberMgr (grp g w)"
  shows "world_ok (upd_group g (\<lambda>_. G') w)"
proof (cases "gw_groups w g")
  case None
  then have "upd_group g (\<lambda>_. G') w = w" by (simp add: upd_group_def fun_upd_idem)
  with ok show ?thesis by simp
next
  case (Some G)
  then have r: "refs (upd_group g (\<lambda>_. G') w) = refs w"
    using new by (auto simp: refs_upd_group refs_def grp_def fun_eq_iff)
  have t: "target_of (upd_group g (\<lambda>_. G') w) = target_of w" by (simp add: fun_eq_iff)
  from ok r t have "link_ok (upd_group g (\<lambda>_. G') w)" by (simp add: world_ok_def link_ok_def)
  moreover have "groups_ok {} (upd_group g (\<lambda>_. G') w)"
    using ok new Some by (auto simp: world_ok_def groups_ok_def cores_upd_group)
  ultimately show ?thesis by (simp add: world_ok_def)
qed

lemma upd_group_as_const: "upd_group g f w = upd_group g (\<lambda>_. f (grp g w)) w"
  by (cases "gw_groups w g") (simp_all add: upd_group_def grp_def)

lemma world_upd:
  assumes "world_ok w"
    and "gw_groups w g \<noteq> None \<Longrightarrow> core_ok (core (f (grp g w))) \<and> m_memberMgr (f (grp g w)) = m_memberMgr (grp g w)"
  shows "world_ok (upd_group g f w)"
  by (subst upd_group_as_const) (rule world_set [OF assms])

lemma on_group_world:
  assumes "on_group g f w = Inr w'" and "world_ok w"
    and "\<And>G'. gw_groups w g \<noteq> None \<Longrightarrow> f (grp g w) = Inr G' \<Longrightarrow> core_ok (core G') \<and> m_memberMgr G' = m_memberMgr (grp g w)"
  shows "world_ok w'"
  using assms by (auto simp: on_group_def elim!: rbind_InrE intro: world_set)

lemma world_ok_step: "quiet v v' \<Longrightarrow> world_ok v' = world_ok v"
  by (simp add: quiet_def world_ok_def link_ok_def groups_ok_def)

lemmas world_steps [simp] =
  quiet_emit [THEN world_ok_step] quiet_sends [THEN world_ok_step] quiet_SendUpdate [THEN world_ok_step]
  quiet_SetGroupInvite [THEN world_ok_step] quiet_homebind [THEN world_ok_step]
  quiet_ResetMax [THEN world_ok_step] quiet_subGroup [THEN world_ok_step] quiet_RemoveInvite [THEN world_ok_step]
  quiet_SetGroupMemberFlag [THEN world_ok_step] quiet_ChangeLeader [THEN world_ok_step]
  quiet_RemoveMarker [THEN world_ok_step] quiet_OfflineReadyCheck [THEN world_ok_step]
  quiet_RemoveUnique [THEN world_ok_step] quiet_UpdateLooterGuid [THEN world_ok_step]

lemma quiet_upd_mgr: "quiet w (upd_mgr f w)" "quiet w (w\<lparr>gw_mgr := m\<rparr>)"
  by (simp_all add: upd_mgr_def quiet_outside)

lemmas quiet_upd_mgr_steps [simp] = quiet_upd_mgr quiet_upd_mgr [THEN quiet_step] quiet_upd_mgr [THEN world_ok_step]

lemma grp_upd_mgr [simp]: "grp g (upd_mgr f w) = grp g w"
  by (simp add: grp_def upd_mgr_def)

section \<open>Icons\<close>

lemma put_icon_world:
  assumes ok: "world_ok w" and t: "t = 0 \<or> t \<notin> set (m_targetIcons (grp g w))"
  shows "world_ok (put_icon i a t g w)"
proof -
  have "world_ok (upd_group g (\<lambda>G. G\<lparr>m_targetIcons := (m_targetIcons G)[unat i := t]\<rparr>) w)"
  proof (rule world_upd [OF ok])
    assume "gw_groups w g \<noteq> None"
    from world_ok_core [OF ok this]
    show "core_ok (core (grp g w\<lparr>m_targetIcons := (m_targetIcons (grp g w))[unat i := t]\<rparr>)) \<and>
        m_memberMgr (grp g w\<lparr>m_targetIcons := (m_targetIcons (grp g w))[unat i := t]\<rparr>) = m_memberMgr (grp g w)"
      using icons_ok_update [OF _ t] by (simp add: core_ok_core isRaidGroup_def)
  qed
  then show ?thesis by (simp add: put_icon_def)
qed

lemma put_icon_icons: "gw_groups w g \<noteq> None \<Longrightarrow> m_targetIcons (grp g (put_icon i a t g w)) = (m_targetIcons (grp g w))[unat i := t]"
  by (simp add: put_icon_def BroadcastPacket_def)

lemma put_icon_alive [simp]: "(gw_groups (put_icon i a t g w) h = None) = (gw_groups w h = None)"
  by (simp add: put_icon_def BroadcastPacket_def)

text \<open>The cleaning loop removes every copy of the target and sets nothing else than 0.\<close>

definition icons_below :: "nat \<Rightarrow> u64 \<Rightarrow> nat \<Rightarrow> group_world \<Rightarrow> bool" where
  "icons_below n t g w \<longleftrightarrow> world_ok w \<and> gw_groups w g \<noteq> None \<and> (\<forall>i<n. m_targetIcons (grp g w) ! i \<noteq> t)"

lemma icons_below_step:
  assumes v: "icons_below n t g v" and n: "n < TARGETICONCOUNT" and t: "t \<noteq> 0"
  shows "icons_below (Suc n) t g (if m_targetIcons (grp g v) ! n = t then put_icon (of_nat n) 0 0 g v else v)"
proof (cases "m_targetIcons (grp g v) ! n = t")
  case False
  with v show ?thesis by (simp add: icons_below_def less_Suc_eq)
next
  case True
  from v have ok: "world_ok v" and al: "gw_groups v g \<noteq> None" by (simp_all add: icons_below_def)
  from n have u: "unat (of_nat n :: u8) = n" by (simp add: TARGETICONCOUNT_def unat_of_nat)
  have len: "length (m_targetIcons (grp g v)) = TARGETICONCOUNT"
    using world_ok_icons [OF ok al] by (simp add: icons_ok_def)
  have "m_targetIcons (grp g (put_icon (of_nat n) 0 0 g v)) ! i \<noteq> t" if "i < Suc n" for i
    using that v len n t u by (cases "i = n") (simp_all add: put_icon_icons [OF al] icons_below_def)
  with put_icon_world [OF ok] al True show ?thesis by (simp add: icons_below_def)
qed

lemma clean_icons_ok:
  assumes al: "gw_groups w g \<noteq> None" and ok: "world_ok w" and t: "t \<noteq> 0"
  shows "world_ok (clean_icons t g w)" "gw_groups (clean_icons t g w) g \<noteq> None"
    "t \<notin> set (m_targetIcons (grp g (clean_icons t g w)))"
proof -
  let ?f = "\<lambda>w i. if m_targetIcons (grp g w) ! i = t then put_icon (of_nat i) 0 0 g w else w"
  have "icons_below n t g (foldl ?f w [0..<n])" if "n \<le> TARGETICONCOUNT" for n
    using that
  proof (induction n)
    case 0
    with al ok show ?case by (simp add: icons_below_def)
  next
    case (Suc n)
    then have "icons_below n t g (foldl ?f w [0..<n])" "n < TARGETICONCOUNT" by simp_all
    from icons_below_step [OF this t] show ?case by simp
  qed
  from this [of TARGETICONCOUNT] have b: "icons_below TARGETICONCOUNT t g (clean_icons t g w)"
    by (simp add: clean_icons_def)
  then show c: "world_ok (clean_icons t g w)" "gw_groups (clean_icons t g w) g \<noteq> None"
    by (simp_all add: icons_below_def)
  have "length (m_targetIcons (grp g (clean_icons t g w))) = TARGETICONCOUNT"
    using world_ok_icons [OF c] by (simp add: icons_ok_def)
  with b show "t \<notin> set (m_targetIcons (grp g (clean_icons t g w)))"
    by (auto simp: in_set_conv_nth icons_below_def)
qed

lemma SetTargetIcon_world: "gw_groups w g \<noteq> None \<Longrightarrow> world_ok w \<Longrightarrow> world_ok (SetTargetIcon i a t g w)"
  using clean_icons_ok [of w g t] by (cases "t = 0") (auto simp: SetTargetIcon_def Let_def intro!: put_icon_world)

lemma icons_ok_zero: "icons_ok (replicate TARGETICONCOUNT 0)"
  by (simp add: icons_ok_def TARGETICONCOUNT_def)

lemma reset_icons_world:
  assumes ok: "world_ok w" shows "world_ok (reset_icons g w)"
proof -
  have "world_ok (upd_group g (\<lambda>G. G\<lparr>m_targetIcons := replicate TARGETICONCOUNT 0\<rparr>) w)"
    by (rule world_upd [OF ok], drule world_ok_core [OF ok]) (simp add: core_ok_core isRaidGroup_def icons_ok_zero)
  with ok show ?thesis by (simp add: reset_icons_def)
qed

section \<open>Conversions\<close>

lemma ConvertToRaid_world:
  assumes run: "ConvertToRaid e g w = Inr w'" and ok: "world_ok w"
  shows "world_ok w'"
proof -
  let ?R = "\<lambda>G. G\<lparr>m_groupType := m_groupType G OR GROUPTYPE_RAID\<rparr>"
  from run obtain v where v: "on_group g initRaidSubGroupsCounter (upd_group g ?R w) = Inr v"
    and w': "world_ok w' = world_ok v" by (auto simp: ConvertToRaid_def Let_def elim!: rbind_InrE)
  from v obtain G' where G': "initRaidSubGroupsCounter (grp g (upd_group g ?R w)) = Inr G'"
    and veq: "v = upd_group g (\<lambda>_. G') w" by (auto simp: on_group_def elim!: rbind_InrE)
  have "world_ok v" unfolding veq
  proof (rule world_set [OF ok])
    assume al: "gw_groups w g \<noteq> None"
    let ?G = "grp g w"
    note c = world_ok_core [OF ok al]
    from G' al have "initRaidSubGroupsCounter (?R ?G) = Inr G'" by simp
    moreover have "\<exists>G'. initRaidSubGroupsCounter (?R ?G) = Inr G' \<and> core_ok (core G') \<and> m_memberMgr G' = m_memberMgr (?R ?G)"
      using c core_ok_few [OF c] by (intro initRaid_ok) (simp_all add: core_ok_core isRaidGroup_def GROUPTYPE_RAID_def)
    ultimately show "core_ok (core G') \<and> m_memberMgr G' = m_memberMgr ?G" by auto
  qed
  with w' show ?thesis by simp
qed

lemma ConvertToGroup_world:
  assumes ok: "world_ok w" shows "world_ok (ConvertToGroup e g w)"
proof (cases "5 < length (m_memberSlots (grp g w))")
  case False
  let ?f = "\<lambda>G. G\<lparr>m_groupType := GROUPTYPE_NORMAL, m_subGroupsCounts := None\<rparr>"
  have "world_ok (upd_group g ?f w)"
  proof (rule world_upd [OF ok])
    assume "gw_groups w g \<noteq> None"
    from world_ok_core [OF ok this] False
    show "core_ok (core (?f (grp g w))) \<and> m_memberMgr (?f (grp g w)) = m_memberMgr (grp g w)"
      by (simp add: core_ok_core isRaidGroup_def GROUPTYPE_NORMAL_def MAXGROUPSIZE_def counts_ok_def)
  qed
  with False show ?thesis by (simp add: ConvertToGroup_def Let_def)
qed (simp add: ConvertToGroup_def ok)

section \<open>Moving a member between subgroups\<close>

lemma ChangeMembersGroup_world:
  assumes run: "ChangeMembersGroup e guid sg g w = Inr w'" and ok: "world_ok w"
    and sg: "unat sg < MAX_RAID_SUBGROUPS" and room: "HasFreeSlotSubGroup sg (grp g w) = Inr True"
  shows "world_ok w'"
proof (cases "isRaidGroup (grp g w) \<and> (\<exists>s. getMemberSlot guid (grp g w) = Some s \<and> slot_group s \<noteq> sg)")
  case False
  with run ok show ?thesis by (auto simp: ChangeMembersGroup_def split: if_splits option.splits)
next
  case True
  then obtain s where s: "getMemberSlot guid (grp g w) = Some s" "slot_group s \<noteq> sg" by blast
  with True run obtain v where v: "on_group g (move_slot guid sg (slot_group s)) w = Inr v"
    and w': "world_ok w' = world_ok v" by (auto simp: ChangeMembersGroup_def Let_def elim!: rbind_InrE)
  from room obtain cs where cs: "m_subGroupsCounts (grp g w) = Some cs" "unat (cs ! unat sg) < MAXGROUPSIZE"
    by (auto simp: HasFreeSlotSubGroup_def split: option.splits if_splits)
  from v ok have "world_ok v"
  proof (rule on_group_world)
    fix G' assume al: "gw_groups w g \<noteq> None" and "move_slot guid sg (slot_group s) (grp g w) = Inr G'"
    with move_slot_ok [OF world_ok_core [OF ok al] s cs(1) sg cs(2)]
    show "core_ok (core G') \<and> m_memberMgr G' = m_memberMgr (grp g w)" by auto
  qed
  with w' show ?thesis by simp
qed

end
