(* ===== verification/Group_Lifecycle.thy ===== *)
theory Group_Lifecycle
  imports Group_World
begin

text \<open>
  The life of a group: allocating and deleting it, creating it with its first member, adding and
  removing members, disbanding. Each keeps \<open>world_ok\<close>; while a group is disbanded only the other
  groups are within their limits (\<open>safe\<close>).
\<close>

section \<open>Deleting and allocating\<close>

lemma clear_references_groups [simp]:
  "gw_groups (clear_references ms w) = gw_groups w" "gw_next (clear_references ms w) = gw_next w"
  by (induction ms arbitrary: w) (auto simp: clear_references_def)

lemma clear_references_view:
  "target_of (clear_references ms w) q j = (if (q, j) \<in> set ms then None else target_of w q j)"
  "(gw_players (clear_references ms w) q = None) = (gw_players w q = None)"
  by (induction ms arbitrary: w)
    (auto simp: clear_references_def target_of_set_ref split: if_splits)

definition safe :: "nat \<Rightarrow> group_world \<Rightarrow> bool" where
  "safe g w \<longleftrightarrow> link_ok w \<and> groups_ok {g} w"

lemma world_ok_safe: "world_ok w \<Longrightarrow> safe g w"
  unfolding world_ok_def safe_def groups_ok_def by blast

lemma safe_step: "quiet v v' \<Longrightarrow> safe g v' = safe g v"
  by (simp add: quiet_def safe_def link_ok_def groups_ok_def)

lemma safe_upd:
  assumes "safe g w" and "\<And>G. m_memberMgr (f G) = m_memberMgr G"
  shows "safe g (upd_group g f w)"
proof -
  have r: "refs (upd_group g f w) = refs w"
    using assms(2) by (simp add: fun_eq_iff refs_upd_group refs_def o_def option.map_comp)
  have "link_ok (upd_group g f w)"
    using assms(1) r by (simp add: safe_def link_ok_def)
  moreover have "groups_ok {g} (upd_group g f w)"
    using assms(1) by (simp add: safe_def groups_ok_def cores_upd_group)
  ultimately show ?thesis by (simp add: safe_def)
qed

lemma delete_view:
  fixes w g
  defines "w' \<equiv> (clear_references (m_memberMgr (grp g w)) w)\<lparr>gw_groups := (gw_groups w)(g := None)\<rparr>"
  shows "target_of w' q j = (if (q, j) \<in> set (m_memberMgr (grp g w)) then None else target_of w q j)"
    "refs w' h = (if h = g then None else refs w h)" "cores w' h = (if h = g then None else cores w h)"
    "gw_next w' = gw_next w"
proof -
  show "target_of w' q j = (if (q, j) \<in> set (m_memberMgr (grp g w)) then None else target_of w q j)"
    using clear_references_view(1) [of "m_memberMgr (grp g w)" w q j]
    by (simp add: w'_def target_of_def)
qed (simp_all add: w'_def refs_def cores_def)

lemma delete_world:
  assumes s: "safe g w"
  shows "world_ok ((clear_references (m_memberMgr (grp g w)) w)\<lparr>gw_groups := (gw_groups w)(g := None)\<rparr>)" (is "world_ok ?w")
proof -
  from s have l: "link_ok w" and c: "groups_ok {g} w" by (simp_all add: safe_def)
  have mgr: "(q, j) \<in> set (m_memberMgr (grp g w)) \<longleftrightarrow> target_of w q j = Some g" for q j
    using link_ok_target [OF l, of q j g] by (cases "gw_groups w g") (auto simp: refs_def grp_def group_new_def)
  have "link_ok ?w"
    unfolding link_ok_def
  proof (intro conjI allI impI)
    fix q j h
    show "target_of ?w q j = Some h \<longleftrightarrow> (\<exists>m. refs ?w h = Some m \<and> (q, j) \<in> set m)"
      unfolding delete_view mgr using link_ok_target [OF l, of q j h] by auto
  next
    fix h m assume "refs ?w h = Some m"
    then have "refs w h = Some m" unfolding delete_view by (simp split: if_splits)
    from link_ok_refs [OF l this] show "distinct m" "h < gw_next ?w" by (simp_all add: delete_view)
  qed
  moreover have "groups_ok {} ?w" unfolding groups_ok_def
  proof (intro allI impI)
    fix h k assume "cores ?w h = Some k"
    then have "cores w h = Some k" "h \<noteq> g" by (simp_all add: delete_view split: if_splits)
    with c show "core_ok k" unfolding groups_ok_def by blast
  qed
  ultimately show ?thesis by (simp add: world_ok_def)
qed

lemma group_delete_world: "safe g w \<Longrightarrow> world_ok (group_delete g w)"
proof (cases "m_bgGroup (grp g w)")
  case None
  assume "safe g w"
  from delete_world [OF this] None show ?thesis by (simp add: group_delete_def Let_def)
next
  case (Some bg)
  assume "safe g w"
  then have "safe g (gw_emit [GClearBgRaid bg] w)" by (simp add: safe_step [OF quiet_emit])
  from delete_world [OF this] Some show ?thesis by (simp add: group_delete_def Let_def)
qed

lemma core_ok_new: "core_ok (core (group_new m))"
  by (simp add: core_ok_core group_new_def icons_ok_zero isRaidGroup_def GROUPTYPE_NORMAL_def counts_ok_def)

lemma group_alloc_world:
  assumes "group_alloc e w = (g, w')" and ok: "world_ok w"
  shows "world_ok w' \<and> g = gw_next w \<and> gw_groups w g = None \<and> gw_groups w' = (gw_groups w)(g \<mapsto> group_new (ge_garbage e)) \<and>
    gw_players w' = gw_players w"
proof -
  from assms(1) have g: "g = gw_next w" and w': "gw_groups w' = (gw_groups w)(g \<mapsto> group_new (ge_garbage e))"
    "gw_players w' = gw_players w" "gw_next w' = gw_next w + 1"
    by (auto simp: group_alloc_def)
  have l: "link_ok w" using ok by (rule world_ok_link)
  have none: "gw_groups w g = None"
    using link_ok_refs [OF l, of g] g refs_None(1) [of w g] by (cases "refs w g") auto
  have v: "target_of w' = target_of w" "refs w' h = (if h = g then Some [] else refs w h)"
    "cores w' h = (if h = g then Some (core (group_new (ge_garbage e))) else cores w h)" for h
    by (simp_all add: fun_eq_iff target_of_def refs_def cores_def w' group_new_def)
  have "link_ok w'" unfolding link_ok_def
  proof (intro conjI allI impI)
    fix q j h
    show "target_of w' q j = Some h \<longleftrightarrow> (\<exists>m. refs w' h = Some m \<and> (q, j) \<in> set m)"
      unfolding v using link_ok_target [OF l, of q j h] none by (auto simp: refs_None [symmetric])
  next
    fix h m assume "refs w' h = Some m"
    then show "distinct m" "h < gw_next w'"
      using link_ok_refs [OF l, of h] g w'(3) by (auto simp: v split: if_splits)
  qed
  moreover have "groups_ok {} w'" unfolding groups_ok_def
  proof (intro allI impI)
    fix h c assume "cores w' h = Some c"
    moreover have "core_ok c" if "cores w h = Some c"
      using that ok unfolding world_ok_def groups_ok_def by blast
    ultimately show "core_ok c" using core_ok_new [of "ge_garbage e"] by (cases "h = g") (auto simp: v(3))
  qed
  ultimately show ?thesis using g none w' by (simp add: world_ok_def)
qed

section \<open>Disbanding\<close>

lemma Disband_world:
  assumes run: "Disband e b g w = Inr w'" and ok: "world_ok w"
  shows "world_ok w'"
proof -
  let ?w = "gw_emit [GHookDisband] w"
  let ?f = "\<lambda>G. G\<lparr>m_dynObj := [], RollId := [], m_memberSlots := []\<rparr>"
  from run obtain u v x where u: "disband_members e b g (map slot_guid (m_memberSlots (grp g ?w))) ?w = Inr u"
    and v: "RemoveAllInvites g (upd_group g ?f (RemoveMarker e g (SendRaidMarkerUpdate g
        (upd_group g (SetGroupMarkerMask 0x20) u)))) = Inr v"
    and x: "disband_store g v = Inr x" and w': "w' = group_delete g (mgr_RemoveGroup g x)"
    by (auto simp: Disband_def Let_def elim!: rbind_InrE)
  have mark: "quiet z (upd_group g (SetGroupMarkerMask 0x20) z)" for z
    by (rule quiet_upd_group) (simp add: SetGroupMarkerMask_def core_def)
  have "world_ok u" by (rule relink_world [OF relink_disband_members [OF u]]) (simp add: ok)
  then have "safe g (RemoveMarker e g (SendRaidMarkerUpdate g (upd_group g (SetGroupMarkerMask 0x20) u)))"
    by (simp add: world_ok_safe safe_step [OF quiet_RemoveMarker] safe_step [OF quiet_sends(3)] safe_step [OF mark])
  from safe_upd [OF this, of ?f] have "safe g v" by (simp add: safe_step [OF quiet_RemoveAllInvites [OF v]])
  moreover have "quiet v x" using x
    by (auto simp: disband_store_def Let_def quiet_step [OF quiet_upd_mgr(2)] elim!: rbind_InrE split: if_splits)
  ultimately have "safe g (mgr_RemoveGroup g x)"
    by (simp add: safe_step mgr_RemoveGroup_def quiet_upd_mgr)
  then show ?thesis unfolding w' by (rule group_delete_world)
qed

section \<open>Adding a member\<close>

text \<open>How many members a group has, and of which type it is.\<close>

definition shape :: "group_world \<Rightarrow> nat \<Rightarrow> (nat \<times> u8) option" where
  "shape w g = map_option (\<lambda>(gs, t, cs, ics). (length gs, t)) (cores w g)"

lemma shape_alive: "gw_groups w g \<noteq> None \<Longrightarrow> shape w g = Some (length (m_memberSlots (grp g w)), m_groupType (grp g w))"
  by (auto simp: shape_def cores_def core_def grp_def)

lemma shape_relink: "relink w w' \<Longrightarrow> shape w' = shape w"
  by (simp add: fun_eq_iff shape_def relink_def)

lemma shape_quiet: "quiet w w' \<Longrightarrow> shape w' = shape w"
  by (rule shape_relink [OF quiet_relink])

lemma shape_None: "shape w g = None \<longleftrightarrow> gw_groups w g = None"
  by (simp add: shape_def refs_None)

lemma shape_reset_icons: "shape (reset_icons g w) = shape w"
proof
  fix h
  show "shape (reset_icons g w) h = shape w h"
    by (cases "gw_groups w h") (auto simp: shape_def reset_icons_def cores_def core_def)
qed

lemma relink_attach:
  assumes run: "attach_player p sg g w = Inr w'" and g: "gw_groups w g \<noteq> None" and p: "gw_players w p \<noteq> None"
  shows "relink w w'"
proof -
  from run consider "SetBattlegroundOrBattlefieldRaid g sg p w = Inr w'" | "SetOriginalGroup (Some g) sg p w = Inr w'"
    | "SetGroup (Some g) sg p w = Inr w'"
    by (auto simp: attach_player_def split: if_splits)
  then show ?thesis
  proof cases
    case 1
    then show ?thesis using g p by (rule relink_SetBattlegroundRaid)
  next
    case 2
    then show ?thesis by (rule relink_SetOriginalGroup) (use g p in auto)
  next
    case 3
    then show ?thesis using g p by (rule relink_SetGroup)
  qed
qed

lemma quiet_difficulties [simp]:
  "quiet w (upd_player p (\<lambda>pl. pl\<lparr>gp_dungeonDifficulty := d\<rparr>) w)" "quiet w (upd_player p (\<lambda>pl. pl\<lparr>gp_raidDifficulty := d\<rparr>) w)"
  "quiet w (upd_player p (\<lambda>pl. pl\<lparr>m_InstanceValid := v\<rparr>) w)"
  "quiet w (upd_player p (\<lambda>pl. pl\<lparr>gp_dungeonDifficulty := d, gp_raidDifficulty := d'\<rparr>) w)"
  by (simp_all add: quiet_upd_player)

lemmas quiet_difficulty_steps = quiet_difficulties [THEN quiet_step]

lemma quiet_welcome: "quiet w (welcome_member e p g w)"
proof -
  have a: "quiet w (adopt_difficulty e p g w)"
    by (simp add: adopt_difficulty_def Let_def quiet_difficulty_steps)
  have en: "quiet v (upd_group g (\<lambda>G. G\<lparr>m_maxEnchantingLevel := h G\<rparr>) v)" for v h
    by (rule quiet_upd_group) simp
  show ?thesis unfolding welcome_member_def Let_def by (subst quiet_step [OF en]) (simp add: a)
qed

lemma AddMember_world:
  assumes run: "group_AddMember e p g w = Inr (b, w')" and ok: "world_ok w" and al: "gw_groups w g \<noteq> None"
    and room: "\<not> isRaidGroup (grp g w) \<Longrightarrow> length (m_memberSlots (grp g w)) < MAXGROUPSIZE"
  shows "world_ok w' \<and> shape w' g =
    Some (length (m_memberSlots (grp g w)) + (if b then 1 else 0), m_groupType (grp g w))"
proof (cases "free_subgroup (grp g w) \<noteq> None \<and> gw_players w p \<noteq> None")
  case False
  with run ok al show ?thesis by (auto simp: group_AddMember_def shape_alive split: option.splits)
next
  case True
  then obtain sg pl where sg: "free_subgroup (grp g w) = Some sg" and pl: "gw_players w p = Some pl" by blast
  let ?s = "\<lparr>slot_guid = p, slot_name = gp_name pl, slot_group = sg, slot_flags = 0, slot_roles = 0\<rparr>"
  from run sg pl obtain v u where v: "on_group g (SubGroupCounterIncrease sg) (push_member p (gp_name pl) sg g w) = Inr v"
    and u: "attach_player p sg g (SetGroupInvite None p v) = Inr u"
    and w': "w' = welcome_member e p g (gw_emit [GHookAdd p] (SendRaidMarkerUpdateToPlayer p False g (SendUpdate e g
        (let w = reset_icons g (if ge_boundInstance e g p = Some (pa_instanceId (ge_attr e p))
            then upd_player p (\<lambda>pl. pl\<lparr>m_InstanceValid := True\<rparr>) u else u)
         in sql_unless_bg (InsertGroupMember (m_dbStoreId (grp g w)) (GUID_LOPART p) 0 sg 0) g w))))"
    and b: "b"
    by (auto simp: group_AddMember_def Let_def elim!: rbind_InrE)
  obtain G' where G': "SubGroupCounterIncrease sg ((grp g w)\<lparr>m_memberSlots := m_memberSlots (grp g w) @ [?s]\<rparr>) = Inr G'"
    and c: "core_ok (core G')" and m: "m_memberMgr G' = m_memberMgr (grp g w)"
    using push_member_ok [OF world_ok_core [OF ok al], of ?s] sg room by auto
  have n: "length (m_memberSlots G') = length (m_memberSlots (grp g w)) + 1" "m_groupType G' = m_groupType (grp g w)"
    using G' by (auto simp: SubGroupCounterIncrease_def bump_def split: option.splits if_splits)
  have veq: "v = upd_group g (\<lambda>_. G') w" using v G' al by (simp add: on_group_def push_member_def)
  have vok: "world_ok v" unfolding veq by (rule world_set [OF ok]) (simp add: c m)
  have vs: "shape v g = Some (length (m_memberSlots (grp g w)) + 1, m_groupType (grp g w))"
    using al by (subst shape_alive) (auto simp: veq n)
  have "relink (SetGroupInvite None p v) u"
    by (rule relink_attach [OF u]) (use al pl in \<open>auto simp: veq SetGroupInvite_def\<close>)
  then have r: "relink v u" using quiet_relink [OF quiet_SetGroupInvite] relink_trans by blast
  let ?x = "reset_icons g (if ge_boundInstance e g p = Some (pa_instanceId (ge_attr e p))
            then upd_player p (\<lambda>pl. pl\<lparr>m_InstanceValid := True\<rparr>) u else u)"
  from relink_world [OF r vok] have "world_ok ?x"
    by (intro reset_icons_world) (simp add: world_ok_step [OF quiet_difficulties(3)])
  moreover have "shape ?x = shape v"
    using shape_relink [OF r] by (simp add: shape_reset_icons shape_quiet [OF quiet_difficulties(3)])
  moreover have "quiet ?x w'" unfolding w' Let_def
    by (simp add: quiet_step [OF quiet_welcome] quiet_steps quiet_step [OF quiet_SendUpdate])
  ultimately show ?thesis using vs b shape_quiet [of ?x w'] quiet_world [of ?x w'] by simp
qed

section \<open>Creating\<close>

lemma GenerateGroupId_quiet: "GenerateGroupId w = (n, w') \<Longrightarrow> quiet w w' \<and> gw_groups w' = gw_groups w \<and> gw_players w' = gw_players w"
  by (auto simp: GenerateGroupId_def Let_def upd_mgr_def quiet_outside)

lemma GenerateNewGroupDbStoreId_quiet: "GenerateNewGroupDbStoreId w = (n, w') \<Longrightarrow> quiet w w' \<and> gw_groups w' = gw_groups w"
  by (auto simp: GenerateNewGroupDbStoreId_def Let_def upd_mgr_def quiet_outside split: if_splits)

text \<open>The fields set before the first member is added: the result is an empty group within its limits.\<close>

lemma create_init_ok:
  assumes ok: "core_ok (core G)" and empty: "m_memberSlots G = []"
    and G': "G' = create_settings p G2" and G2: "(if isRaidGroup G1 then initRaidSubGroupsCounter G1 else Inr G1) = Inr G2"
    and G1: "G1 = create_fields p pl n G"
  shows "core_ok (core G') \<and> m_memberMgr G' = m_memberMgr G \<and> m_memberSlots G' = []"
proof -
  have s1: "m_memberSlots G1 = []" "icons_ok (m_targetIcons G1)" "m_memberMgr G1 = m_memberMgr G"
    using ok empty by (auto simp: G1 create_fields_def Let_def core_ok_core)
  have "core_ok (core G2) \<and> m_memberMgr G2 = m_memberMgr G \<and> m_memberSlots G2 = []"
  proof (cases "isRaidGroup G1")
    case True
    have "\<exists>G'. initRaidSubGroupsCounter G1 = Inr G' \<and> core_ok (core G') \<and> m_memberMgr G' = m_memberMgr G1"
      by (rule initRaid_ok) (simp_all add: s1 True)
    with G2 True s1 show ?thesis by (auto simp: initRaidSubGroupsCounter_def)
  next
    case False
    have "\<not> isRaidGroup G"
      using False by (auto simp: G1 create_fields_def Let_def isRaidGroup_def GROUPTYPE_BGRAID_def GROUPTYPE_RAID_def split: if_splits)
    with False ok s1 G2 show ?thesis
      by (auto simp: G1 create_fields_def Let_def core_ok_core isRaidGroup_def GROUPTYPE_BGRAID_def GROUPTYPE_RAID_def counts_ok_def split: if_splits)
  qed
  then show ?thesis by (auto simp: G' create_settings_def core_ok_core isRaidGroup_def Let_def)
qed

lemma Create_world:
  assumes run: "group_Create e p g w = Inr (b, w')" and ok: "world_ok w" and al: "gw_groups w g \<noteq> None"
    and empty: "m_memberSlots (grp g w) = []"
  shows "world_ok w' \<and> (\<exists>n t. shape w' g = Some (n, t) \<and> n \<le> 1)"
proof -
  from run obtain pl where pl: "gw_players w p = Some pl" by (auto simp: group_Create_def split: option.splits)
  obtain lowguid u where u: "GenerateGroupId w = (lowguid, u)" by fastforce
  let ?G1 = "create_fields p pl lowguid (grp g w)"
  have grps: "gw_groups u = gw_groups w" and uok: "world_ok u"
    using GenerateGroupId_quiet [OF u] ok quiet_world by auto
  then have al': "gw_groups u g \<noteq> None" and gu: "grp g u = grp g w" using al by (simp_all add: grp_def)
  from run pl u obtain v where v: "(if isRaidGroup ?G1 then on_group g initRaidSubGroupsCounter (upd_group g (create_fields p pl lowguid) u)
      else Inr (upd_group g (create_fields p pl lowguid) u)) = Inr v"
    and rest: "(let w = upd_group g (create_settings p) v
             in if \<not> isBGGroup (grp g w) \<and> \<not> isBFGroup (grp g w) then
                  let w = upd_group g (\<lambda>G. G\<lparr>m_dungeonDifficulty := gp_dungeonDifficulty pl,
                                           m_raidDifficulty := gp_raidDifficulty pl\<rparr>) w;
                      (storeId, w) = GenerateNewGroupDbStoreId w;
                      w = upd_group g (\<lambda>G. G\<lparr>m_dbStoreId := storeId\<rparr>) w;
                      w = upd_mgr (RegisterGroupDbStoreId storeId g) w;
                      w = gw_emit [insert_group_row (grp g w)] w
                  in rbind (group_AddMember e p g w) (\<lambda>(added, w).
                     if \<not> added then Inl AssertFailed
                     else Inr (True, gw_emit [GCall p (ConvertInstancesToGroup False)] w))
                else group_AddMember e p g w) = Inr (b, w')"
    using al' gu by (auto simp: group_Create_def Let_def elim!: rbind_InrE split: if_splits)
  from v obtain G2 where G2: "(if isRaidGroup ?G1 then initRaidSubGroupsCounter ?G1 else Inr ?G1) = Inr G2"
    and veq: "upd_group g (create_settings p) v = upd_group g (\<lambda>_. create_settings p G2) u"
    using al' gu by (auto simp: on_group_def upd_group_def option.map_comp o_def fun_eq_iff grp_def elim!: rbind_InrE split: if_splits option.splits)
  let ?x = "upd_group g (\<lambda>_. create_settings p G2) u"
  have c: "core_ok (core (create_settings p G2)) \<and> m_memberMgr (create_settings p G2) = m_memberMgr (grp g w) \<and>
      m_memberSlots (create_settings p G2) = []"
    by (rule create_init_ok [OF world_ok_core [OF ok al] empty refl G2 refl])
  have x: "world_ok ?x" by (rule world_set [OF uok]) (simp add: c gu)
  have empty_x: "gw_groups ?x g \<noteq> None" "m_memberSlots (grp g ?x) = []" using al' c by auto
  have add: "world_ok z' \<and> (\<exists>n t. shape z' g = Some (n, t) \<and> n \<le> 1)"
    if "group_AddMember e p g z = Inr (a, z')" and q: "quiet ?x z" for z z' a
  proof -
    have "gw_groups z g \<noteq> None" "m_memberSlots (grp g z) = []"
      using empty_x quiet_alive [OF q, of g] shape_quiet [OF q] shape_alive [of ?x g] shape_alive [of z g] by auto
    with AddMember_world [OF that(1) quiet_world [OF q x]] show ?thesis by (auto simp: MAXGROUPSIZE_def)
  qed
  show ?thesis
  proof (cases "isBGGroup (grp g ?x) \<or> isBFGroup (grp g ?x)")
    case True
    with rest veq add [of ?x] show ?thesis by (auto simp: Let_def)
  next
    case False
    let ?y = "upd_group g (\<lambda>G. G\<lparr>m_dungeonDifficulty := gp_dungeonDifficulty pl, m_raidDifficulty := gp_raidDifficulty pl\<rparr>) ?x"
    obtain sid z where z: "GenerateNewGroupDbStoreId ?y = (sid, z)" by fastforce
    let ?z = "upd_mgr (RegisterGroupDbStoreId sid g) (upd_group g (\<lambda>G. G\<lparr>m_dbStoreId := sid\<rparr>) z)"
    have "quiet ?x ?y" "quiet z (upd_group g (\<lambda>G. G\<lparr>m_dbStoreId := sid\<rparr>) z)"
      by (rule quiet_upd_group, simp)+
    with GenerateNewGroupDbStoreId_quiet [OF z] have q: "quiet ?x (gw_emit [insert_group_row (grp g ?z)] ?z)"
      by (simp add: quiet_upd_mgr [THEN quiet_step]) (blast intro: quiet_trans)
    from rest False veq z obtain a z' where "group_AddMember e p g (gw_emit [insert_group_row (grp g ?z)] ?z) = Inr (a, z')"
      and "w' = gw_emit [GCall p (ConvertInstancesToGroup False)] z'"
      by (auto simp: Let_def elim!: rbind_InrE split: if_splits)
    with add [OF _ q] show ?thesis by (simp add: shape_quiet [OF quiet_emit])
  qed
qed

section \<open>Removing\<close>

lemma disband_false_world: "disband_false e g w = Inr (b, w') \<Longrightarrow> world_ok w \<Longrightarrow> world_ok w'"
  by (auto simp: disband_false_def elim!: rbind_InrE intro: Disband_world)

lemma RemoveMember_world:
  assumes run: "group_RemoveMember e guid meth kicker g w = Inr (b, w')" and ok: "world_ok w"
  shows "world_ok w'"
proof -
  let ?w = "gw_emit [GHookRemove guid meth kicker] (BroadcastGroupUpdate g w)"
  have wok: "world_ok ?w" using ok by simp
  let ?l = "leave_player e guid meth g ?w"
  let ?d = "if \<not> isBGGroup (grp g ?w) \<and> \<not> isBFGroup (grp g ?w)
            then DelinkMember guid g (gw_emit [GSql (DeleteGroupMember (GUID_LOPART guid))] ?l) else ?l"
  let ?r = "if find_player ?w guid = None \<or> pa_enchanting (ge_attr e guid) \<noteq> 0 then ResetMaxEnchantingLevel e g ?d else ?d"
  have "relink ?w (gw_emit es ?l)" for es by (rule relink_quiet [OF relink_leave quiet_emit])
  then have "relink ?w ?d" by (auto intro: relink_trans [OF _ relink_Delink])
  then have "relink ?w ?r" by (auto intro: relink_quiet)
  from relink_world [OF this wok] have rok: "world_ok ?r" .
  show ?thesis
  proof (cases "(isLFGGroup (grp g ?w) \<and> meth = GROUP_REMOVEMETHOD_KICK) \<or>
      \<not> lone_limit (isBGGroup (grp g ?w) \<or> isLFGGroup (grp g ?w) \<or> isBFGroup (grp g ?w)) < length (m_memberSlots (grp g ?w))")
    case True
    with run wok show ?thesis by (auto simp: group_RemoveMember_def Let_def split: if_splits dest: disband_false_world)
  next
    case False
    then have c1: "\<not> (isLFGGroup (grp g ?w) \<and> meth = GROUP_REMOVEMETHOD_KICK)"
      and c2: "lone_limit (isBGGroup (grp g ?w) \<or> isLFGGroup (grp g ?w) \<or> isBFGroup (grp g ?w)) < length (m_memberSlots (grp g ?w))"
      by blast+
    let ?fin = "\<lambda>w. if lfg_leftover e g w then disband_false e g w
        else if length (m_memberMgr (grp g w)) < lone_limit (isLFGGroup (grp g w) \<or> isBGGroup (grp g w))
        then rbind (Disband e False g w) (\<lambda>w. Inr (True, w)) else Inr (True, w)"
    have "rbind (remove_from_rolls e guid [0..<length (RollId (grp g ?r))] g ?r) (\<lambda>w.
        rbind (on_group g (remove_slot guid) w) (\<lambda>w.
        ?fin (SendRaidMarkerUpdateToPlayer guid True g (SendUpdate e g (replace_leader e guid g w))))) = Inr (b, w')"
      using run unfolding group_RemoveMember_def Let_def if_not_P [OF c1] if_P [OF c2] .
    then obtain u v where u: "remove_from_rolls e guid [0..<length (RollId (grp g ?r))] g ?r = Inr u"
      and v: "on_group g (remove_slot guid) u = Inr v"
      and fin: "?fin (SendRaidMarkerUpdateToPlayer guid True g (SendUpdate e g (replace_leader e guid g v))) = Inr (b, w')"
      by (elim rbind_InrE)
    have uok: "world_ok u" by (rule quiet_world [OF quiet_remove_from_rolls [OF u] rok])
    from v uok have vok: "world_ok v"
    proof (rule on_group_world)
      fix G' assume al: "gw_groups u g \<noteq> None" and "remove_slot guid (grp g u) = Inr G'"
      with remove_slot_ok [OF world_ok_core [OF uok al], of guid]
      show "core_ok (core G') \<and> m_memberMgr G' = m_memberMgr (grp g u)" by auto
    qed
    have "quiet v (replace_leader e guid g v)" by (simp add: replace_leader_def split: option.split)
    with vok have "world_ok (SendRaidMarkerUpdateToPlayer guid True g (SendUpdate e g (replace_leader e guid g v)))"
      by (simp add: world_ok_step)
    with fin show ?thesis
      by (auto simp: Let_def elim!: rbind_InrE split: if_splits dest: disband_false_world Disband_world)
  qed
qed

end
