(* ===== verification/Group_Reachable.thy ===== *)
theory Group_Reachable
  imports Group_Lifecycle
begin

text \<open>
  The worlds that requests of clients, logging in and out, loot and battlegrounds lead to, from a
  start without groups, and the proof that \<open>world_ok\<close> holds in all of them. Groups loaded from the
  database are not part of these runs: what the tables hold is not checked when it is loaded.
\<close>

section \<open>Requests\<close>

lemma group_of_alive: "world_ok w \<Longrightarrow> group_of w p = Some g \<Longrightarrow> gw_groups w g \<noteq> None"
  using link_ok_alive [OF world_ok_link] by (simp add: group_of_target)

lemma quiet_AddInvite: "AddInvite p g w = Inr (b, w') \<Longrightarrow> quiet w w'"
proof -
  have ins: "quiet v (upd_group g (\<lambda>G. G\<lparr>m_invitees := h G\<rparr>) v)" for v h
    by (rule quiet_upd_group) simp
  assume "AddInvite p g w = Inr (b, w')"
  then show ?thesis
    by (auto simp: AddInvite_def Let_def quiet_step [OF quiet_SetGroupInvite] quiet_step [OF ins] split: if_splits option.splits)
qed

lemma quiet_AddLeaderInvite: "AddLeaderInvite p g w = Inr (b, w') \<Longrightarrow> quiet w w'"
proof -
  have ld: "quiet v (upd_group g (\<lambda>G. G\<lparr>m_leaderGuid := x, m_leaderName := n\<rparr>) v)" for v x n
    by (rule quiet_upd_group) simp
  assume "AddLeaderInvite p g w = Inr (b, w')"
  then obtain a v where v: "AddInvite p g w = Inr (a, v)"
    and w': "w' = v \<or> w' = upd_group g (\<lambda>G. G\<lparr>m_leaderGuid := p,
            m_leaderName := (case gw_players v p of Some pl \<Rightarrow> gp_name pl | None \<Rightarrow> [])\<rparr>) v"
    by (auto simp: AddLeaderInvite_def elim!: rbind_InrE split: if_splits)
  from quiet_AddInvite [OF v] w' ld [of v] show ?thesis by (auto intro: quiet_trans)
qed

lemma invite_to_group_world:
  assumes run: "invite_to_group e me p h w = Inr (b, w')" and ok: "world_ok w"
  shows "world_ok w'"
proof (cases h)
  case (Some g)
  with run have "AddInvite p g w = Inr (b, w')" by (simp add: invite_to_group_def)
  from quiet_world [OF quiet_AddInvite [OF this] ok] show ?thesis .
next
  case None
  obtain g u where u: "group_alloc e w = (g, u)" by fastforce
  have uok: "world_ok u" using group_alloc_world [OF u ok] by blast
  from run None u obtain a v where v: "AddLeaderInvite me g u = Inr (a, v)"
    and rest: "(if \<not> a then Inr (False, group_delete g v) else rbind (AddInvite p g v) (\<lambda>(ok, w).
               if \<not> ok then Inr (False, group_delete g w) else Inr (True, w))) = Inr (b, w')"
    by (auto simp: invite_to_group_def elim!: rbind_InrE)
  have vok: "world_ok v" by (rule quiet_world [OF quiet_AddLeaderInvite [OF v] uok])
  have del: "world_ok x \<Longrightarrow> world_ok (group_delete g x)" for x
    by (intro group_delete_world world_ok_safe)
  show ?thesis
  proof (cases a)
    case False
    with rest del [OF vok] show ?thesis by simp
  next
    case True
    with rest obtain c x where x: "AddInvite p g v = Inr (c, x)" and w': "w' = (if c then x else group_delete g x)"
      by (auto elim!: rbind_InrE split: if_splits)
    from quiet_world [OF quiet_AddInvite [OF x] vok] del w' show ?thesis by simp
  qed
qed

lemma HandleGroupInvite_world: "HandleGroupInvite e me name w = Inr w' \<Longrightarrow> world_ok w \<Longrightarrow> world_ok w'"
  by (auto simp: HandleGroupInvite_def Let_def elim!: rbind_InrE dest: invite_to_group_world
      split: option.splits if_splits)

lemma UninviteFromGroup_world:
  assumes run: "UninviteFromGroup e p w = Inr w'" and ok: "world_ok w"
  shows "world_ok w'"
proof (cases "invite_of w p")
  case None
  with run ok show ?thesis by (simp add: UninviteFromGroup_def)
next
  case (Some g)
  let ?u = "RemoveInvite p g w"
  have uok: "world_ok ?u" using ok by simp
  have eq: "(if length (m_memberSlots (grp g ?u)) \<le> 1 then
      if IsCreated (grp g ?u) then Disband e True g ?u else rbind (RemoveAllInvites g ?u) (\<lambda>w. Inr (group_delete g w))
      else Inr ?u) = Inr w'"
    using run unfolding UninviteFromGroup_def through_def Let_def Some option.case by (rule rev_mp) (simp split: if_splits)
  show ?thesis
  proof (cases "1 < length (m_memberSlots (grp g ?u))")
    case True
    with eq uok show ?thesis by simp
  next
    case few: False
    show ?thesis
    proof (cases "IsCreated (grp g ?u)")
      case True
      with eq few have "Disband e True g ?u = Inr w'" by simp
      from Disband_world [OF this uok] show ?thesis .
    next
      case False
      with eq few obtain v where v: "RemoveAllInvites g ?u = Inr v" and w': "w' = group_delete g v"
        by (auto elim!: rbind_InrE)
      from quiet_world [OF quiet_RemoveAllInvites [OF v] uok] w' show ?thesis
        by (simp add: group_delete_world world_ok_safe)
    qed
  qed
qed

text \<open>A group within its limits that is not created has no members.\<close>

lemma not_created_empty:
  assumes ok: "world_ok w" and al: "gw_groups w g \<noteq> None" and n: "\<not> IsCreated (grp g w)"
  shows "m_memberSlots (grp g w) = []"
proof -
  let ?G = "grp g w"
  have "length (m_memberSlots ?G) \<le> (if m_subGroupsCounts ?G = None then MAXGROUPSIZE else MAXRAIDSIZE)"
    using core_ok_length [OF world_ok_core [OF ok al]] by (simp add: core_def)
  then have "length (m_memberSlots ?G) < 2 ^ 32" by (simp add: MAXGROUPSIZE_def MAXRAIDSIZE_def split: if_splits)
  moreover from n have "(of_nat (length (m_memberSlots ?G)) :: u32) = 0"
    by (simp add: IsCreated_def GetMembersCount_def word_gt_0)
  then have "unat (of_nat (length (m_memberSlots ?G)) :: u32) = 0" by simp
  ultimately show ?thesis by (simp add: unat_of_nat)
qed

lemma form_group_world:
  assumes run: "form_group e g w = Inr (b, w')" and ok: "world_ok w" and al: "gw_groups w g \<noteq> None"
    and n: "\<not> IsCreated (grp g w)"
  shows "world_ok w' \<and> (b \<longrightarrow> (\<exists>n t. shape w' g = Some (n, t) \<and> n \<le> 1))"
proof (cases "find_player w (m_leaderGuid (grp g w)) = None")
  case True
  with run show ?thesis
    by (auto simp: form_group_def elim!: rbind_InrE intro!: quiet_world [OF quiet_RemoveAllInvites ok])
next
  case False
  let ?u = "RemoveInvite (m_leaderGuid (grp g w)) g w"
  from False run obtain a v where v: "group_Create e (m_leaderGuid (grp g w)) g ?u = Inr (a, v)"
    and w': "w' = mgr_AddGroup g v" and b: b
    by (auto simp: form_group_def Let_def elim!: rbind_InrE)
  have uok: "world_ok ?u" using ok by simp
  have al': "gw_groups ?u g \<noteq> None" using al by (simp add: quiet_alive [OF quiet_RemoveInvite])
  have "m_memberSlots (grp g w) = []" by (rule not_created_empty [OF ok al n])
  then have "m_memberSlots (grp g ?u) = []"
    using shape_alive [OF al] shape_alive [OF al'] by (simp add: shape_quiet [OF quiet_RemoveInvite])
  from Create_world [OF v uok al' this]
  show ?thesis unfolding w' mgr_AddGroup_def by (simp add: shape_quiet [OF quiet_upd_mgr(1)])
qed

lemma accept_invite_world:
  assumes run: "accept_invite e me g w = Inr w'" and ok: "world_ok w" and al: "gw_groups w g \<noteq> None"
  shows "world_ok w'"
proof (cases "m_leaderGuid (grp g (RemoveInvite me g w)) = me \<or> group_IsFull (grp g (RemoveInvite me g w))")
  case True
  with run have "w' = RemoveInvite me g w \<or> w' = SendPartyResult me PARTY_OP_INVITE [] ERR_GROUP_FULL (RemoveInvite me g w)"
    by (auto simp: accept_invite_def Let_def split: if_splits)
  with ok show ?thesis by (elim disjE) simp_all
next
  case False
  let ?u = "RemoveInvite me g w"
  have uok: "world_ok ?u" using ok by simp
  have al': "gw_groups ?u g \<noteq> None" using al by (simp add: quiet_alive [OF quiet_RemoveInvite])
  from False run obtain b v where v: "(if \<not> IsCreated (grp g ?u) then form_group e g ?u else Inr (True, ?u)) = Inr (b, v)"
    and rest: "if b then \<exists>a x. group_AddMember e me g v = Inr (a, x) \<and> w' = (if a then BroadcastGroupUpdate g x else x) else w' = v"
    by (auto simp: accept_invite_def Let_def elim!: rbind_InrE split: if_splits)
  have vok: "world_ok v \<and> (b \<longrightarrow> gw_groups v g \<noteq> None \<and> (\<not> isRaidGroup (grp g v) \<longrightarrow> length (m_memberSlots (grp g v)) < MAXGROUPSIZE))"
  proof (cases "IsCreated (grp g ?u)")
    case True
    with v uok al' False show ?thesis by (auto simp: group_IsFull_def)
  next
    case nc: False
    with v have "form_group e g ?u = Inr (b, v)" by simp
    from form_group_world [OF this uok al' nc] show ?thesis
      using shape_None [of v g] shape_alive [of v g] by (auto simp: MAXGROUPSIZE_def)
  qed
  show ?thesis
  proof (cases b)
    case True
    with rest obtain a x where x: "group_AddMember e me g v = Inr (a, x)" and w': "w' = (if a then BroadcastGroupUpdate g x else x)"
      by auto
    from AddMember_world [OF x] vok True have "world_ok x" by blast
    with w' show ?thesis by simp
  next
    case False
    with rest vok show ?thesis by simp
  qed
qed

lemma decline_invite_world: "decline_invite e me g w = Inr w' \<Longrightarrow> world_ok w \<Longrightarrow> world_ok w'"
  by (auto simp: decline_invite_def Let_def elim!: rbind_InrE dest: UninviteFromGroup_world split: if_splits)

lemma HandleGroupInviteResponse_world: "HandleGroupInviteResponse e me acc w = Inr w' \<Longrightarrow> world_ok w \<Longrightarrow> world_ok w'"
  by (auto simp: HandleGroupInviteResponse_def through_def split: option.splits if_splits
      intro: accept_invite_world decline_invite_world)

lemma RemoveFromGroup_world: "RemoveFromGroup e guid meth k g w = Inr w' \<Longrightarrow> world_ok w \<Longrightarrow> world_ok w'"
  by (auto simp: RemoveFromGroup_def elim!: rbind_InrE dest: RemoveMember_world)

lemma HandleGroupUninvite_world:
  "HandleGroupUninviteGuid e me guid w = Inr w' \<Longrightarrow> world_ok w \<Longrightarrow> world_ok w'"
  "HandleGroupUninvite e me name w = Inr w' \<Longrightarrow> world_ok w \<Longrightarrow> world_ok w'"
  by (auto simp: HandleGroupUninviteGuid_def HandleGroupUninvite_def Let_def elim!: rbind_InrE
      dest: RemoveFromGroup_world UninviteFromGroup_world split: option.splits if_splits)

lemma HandleGroupDisband_world: "HandleGroupDisband e me w = Inr w' \<Longrightarrow> world_ok w \<Longrightarrow> world_ok w'"
  by (auto simp: HandleGroupDisband_def Let_def dest!: RemoveFromGroup_world split: option.splits if_splits)

lemma HandleGroupSetLeader_world: "world_ok w \<Longrightarrow> world_ok (HandleGroupSetLeader e me guid w)"
  by (simp add: HandleGroupSetLeader_def split: option.split)

lemma HandleGroupRaidConvert_world: "HandleGroupRaidConvert e me b w = Inr w' \<Longrightarrow> world_ok w \<Longrightarrow> world_ok w'"
  by (auto simp: HandleGroupRaidConvert_def Let_def ConvertToGroup_world split: option.splits if_splits
      dest: ConvertToRaid_world)

lemma HandleGroupChangeSubGroup_world:
  assumes run: "HandleGroupChangeSubGroup e me now prev name nr w = Inr (t, w')" and ok: "world_ok w"
  shows "world_ok w'"
proof -
  from run consider "w' = w" | g guid where "unat nr < MAX_RAID_SUBGROUPS" "HasFreeSlotSubGroup nr (grp g w) = Inr True"
      "ChangeMembersGroup e guid nr g w = Inr w'"
    by (auto simp: HandleGroupChangeSubGroup_def Let_def not_le elim!: rbind_InrE split: option.splits if_splits)
  then show ?thesis using ok by cases (auto intro: ChangeMembersGroup_world)
qed

lemma quiet_set_flag_loop: "quiet w (foldl (\<lambda>w p. SetGroupMemberFlag e p b flag g w) w ps)"
  by (rule quiet_foldl) simp

lemma flag_requests_world:
  assumes ok: "world_ok w"
  shows "world_ok (HandleGroupAssistantLeader e me guid b w)" "world_ok (HandlePartyAssignment e me asg b guid w)"
    "world_ok (HandleSetEveryoneIsAssistant e me b w)"
  using ok by (simp_all add: HandleGroupAssistantLeader_def HandlePartyAssignment_def HandleSetEveryoneIsAssistant_def
      Let_def world_ok_step [OF quiet_set_flag_loop] split: option.split)

lemma quiet_marker_mask: "quiet w (upd_group g (RemoveGroupMarkerMask mk) w)"
  by (rule quiet_upd_group) (simp add: RemoveGroupMarkerMask_def Let_def core_def)

lemma quiet_loot_settings:
  "quiet w (upd_group g (\<lambda>G. G\<lparr>m_lootMethod := a, m_looterGuid := b, m_lootThreshold := c\<rparr>) w)"
  by (rule quiet_upd_group) (simp add: core_def)

lemma icon_requests_world:
  assumes ok: "world_ok w"
  shows "world_ok (HandleRaidTargetUpdate me x guid w)" "world_ok (HandleGroupClearMarker e me mk w)"
    "world_ok (HandleRaidReadyCheck me ans w)" "world_ok (HandleLootMethod e me lm lg lt w)"
  using ok group_of_alive [OF ok]
  by (simp_all add: HandleRaidTargetUpdate_def HandleGroupClearMarker_def HandleRaidReadyCheck_def HandleLootMethod_def
      Let_def SetTargetIcon_world world_ok_step [OF quiet_marker_mask] world_ok_step [OF quiet_loot_settings] split: option.split)

lemma HandleLootRoll_world: "HandleLootRoll e me guid t w = Inr w' \<Longrightarrow> world_ok w \<Longrightarrow> world_ok w'"
  by (auto simp: HandleLootRoll_def elim!: rbind_InrE split: option.splits if_splits dest: quiet_world [OF quiet_CountRollVote])

section \<open>Logging in and out, battlegrounds\<close>

lemma new_player_world:
  assumes ok: "world_ok w" and new: "gw_players w p = None" and none: "m_group pl = None" "m_originalGroup pl = None"
  shows "world_ok (w\<lparr>gw_players := (gw_players w)(p \<mapsto> pl)\<rparr>)"
proof -
  have "ref_target k pl = None" for k using none by (cases k) simp_all
  then have "target_of (w\<lparr>gw_players := (gw_players w)(p \<mapsto> pl)\<rparr>) = target_of w"
    using new by (auto simp: fun_eq_iff target_of_def)
  with ok show ?thesis by (simp add: world_ok_def link_ok_def groups_ok_def refs_def cores_def)
qed

lemma player_login_world:
  assumes run: "player_login e p pl sid w = Inr w'" and ok: "world_ok w" and new: "gw_players w p = None"
  shows "world_ok w'"
proof -
  let ?pl = "pl\<lparr>m_group := None, m_originalGroup := None, m_groupInvite := None, m_bPassOnGroupLoot := False\<rparr>"
  let ?u = "w\<lparr>gw_players := (gw_players w)(p \<mapsto> ?pl)\<rparr>"
  have u: "world_ok ?u" by (rule new_player_world [OF ok new]) simp_all
  show ?thesis
  proof (cases "Option.bind sid (\<lambda>s. GetGroupByDbStoreId s (gw_mgr ?u))")
    case None
    with run u show ?thesis by (simp add: player_login_def Let_def)
  next
    case (Some g)
    with run obtain v where v: "SetGroup (Some g) (GetMemberGroup p (grp g ?u)) p ?u = Inr v"
      and al: "gw_groups ?u g \<noteq> None" and w': "world_ok w' = world_ok v"
      by (auto simp: player_login_def Let_def through_def world_ok_step [OF quiet_difficulties(4)] elim!: rbind_InrE split: if_splits)
    have "relink ?u v" by (rule relink_SetGroup [OF v al]) simp
    with w' u relink_world show ?thesis by blast
  qed
qed

lemma logout_leave_world: "logout_leave e p socket w = Inr w' \<Longrightarrow> world_ok w \<Longrightarrow> world_ok w'"
  by (auto simp: logout_leave_def dest: RemoveFromGroup_world split: option.splits if_splits)

lemma forget_player_world:
  assumes ok: "world_ok w" and none: "target_of w p GroupRef = None" "target_of w p OriginalGroupRef = None"
  shows "world_ok (w\<lparr>gw_players := (gw_players w)(p := None)\<rparr>)"
proof -
  have "target_of w p k = None" for k using none by (cases k) simp_all
  then have "target_of (w\<lparr>gw_players := (gw_players w)(p := None)\<rparr>) = target_of w"
    by (fastforce simp: fun_eq_iff target_of_def)
  with ok show ?thesis by (simp add: world_ok_def link_ok_def groups_ok_def refs_def cores_def)
qed

lemma player_logout_world:
  assumes run: "player_logout e p socket w = Inr w'" and ok: "world_ok w"
  shows "world_ok w'"
proof -
  from run obtain u v x where u: "UninviteFromGroup e p w = Inr u" and v: "logout_leave e p socket u = Inr v"
    and x: "x = (case group_of v p of None \<Rightarrow> v | Some g \<Rightarrow> ResetMaxEnchantingLevel e g (SendUpdate e g v))"
    and w': "w' = (ref_unlink OriginalGroupRef p (ref_unlink GroupRef p x))\<lparr>gw_players :=
        (gw_players (ref_unlink OriginalGroupRef p (ref_unlink GroupRef p x)))(p := None)\<rparr>"
    by (auto simp: player_logout_def Let_def elim!: rbind_InrE)
  have "world_ok v" by (rule logout_leave_world [OF v UninviteFromGroup_world [OF u ok]])
  then have "world_ok x" by (simp add: x split: option.split)
  then have "world_ok (ref_unlink OriginalGroupRef p (ref_unlink GroupRef p x))"
    by (intro relink_world [OF relink_unlink])
  then show ?thesis unfolding w' by (rule forget_player_world) (simp_all add: unlink_view)
qed

lemma BgGroup_world:
  assumes run: "AddOrSetPlayerToCorrectBgGroup e bg p raid w = Inr (r, w')" and ok: "world_ok w"
    and raid: "\<And>g. raid = Some g \<Longrightarrow> isRaidGroup (grp g w)" and p: "gw_players w p \<noteq> None"
  shows "world_ok w'"
proof (cases raid)
  case None
  obtain g u where u: "group_alloc e w = (g, u)" by fastforce
  note al = group_alloc_world [OF u ok]
  let ?v = "upd_group g (\<lambda>G. G\<lparr>m_bgGroup := Some bg\<rparr>) u"
  have "quiet u ?v" by (rule quiet_upd_group) simp
  with al have v: "world_ok ?v" using quiet_world by blast
  have "gw_groups ?v g \<noteq> None" "m_memberSlots (grp g ?v) = []" using al by (simp_all add: grp_def group_new_def)
  moreover from run None u obtain b x where "group_Create e p g ?v = Inr (b, x)" "w' = x"
    by (auto simp: AddOrSetPlayerToCorrectBgGroup_def Let_def elim!: rbind_InrE)
  ultimately show ?thesis using Create_world [OF _ v] by blast
next
  case (Some g)
  with run have al: "gw_groups w g \<noteq> None" by (auto simp: AddOrSetPlayerToCorrectBgGroup_def through_def split: if_splits)
  show ?thesis
  proof (cases "IsMember p (grp g w)")
    case True
    with run Some al have s: "SetBattlegroundOrBattlefieldRaid g (GetMemberGroup p (grp g w)) p w = Inr w'"
      by (auto simp: AddOrSetPlayerToCorrectBgGroup_def through_def elim!: rbind_InrE)
    from relink_world [OF relink_SetBattlegroundRaid [OF s al p] ok] show ?thesis .
  next
    case False
    with run Some al obtain b u where u: "group_AddMember e p g w = Inr (b, u)" and w': "world_ok w' = world_ok u"
      by (auto simp: AddOrSetPlayerToCorrectBgGroup_def through_def elim!: rbind_InrE split: option.splits if_splits)
    with AddMember_world [OF u ok al] raid [OF Some] show ?thesis by simp
  qed
qed

section \<open>Reachable worlds\<close>

lemma quiet_set_difficulty: "quiet w (set_difficulty f call d g w)"
  if "\<And>pl. m_group (f d pl) = m_group pl" "\<And>pl. m_originalGroup (f d pl) = m_originalGroup pl"
proof -
  have "quiet v (gw_emit [GCall p call] (upd_player p (f d) v))" for v p
    using quiet_upd_player [of "f d" v p] that by simp
  then show ?thesis unfolding set_difficulty_def by (intro quiet_foldl) (auto split: prod.split)
qed

lemma quiet_difficulty:
  "quiet w (SetDungeonDifficulty d g w)" "quiet w (SetRaidDifficulty d g w)"
proof -
  have u: "quiet v (upd_group g (\<lambda>G. G\<lparr>m_dungeonDifficulty := d\<rparr>) v)" "quiet v (upd_group g (\<lambda>G. G\<lparr>m_raidDifficulty := d\<rparr>) v)" for v
    by (rule quiet_upd_group, simp)+
  show "quiet w (SetDungeonDifficulty d g w)" "quiet w (SetRaidDifficulty d g w)"
    unfolding SetDungeonDifficulty_def SetRaidDifficulty_def Let_def
    by (simp_all add: quiet_step [OF quiet_set_difficulty] quiet_steps u)
qed

lemma quiet_SetLfgRoles: "quiet w (SetLfgRoles e guid roles g w)"
  by (simp add: SetLfgRoles_def quiet_step [OF quiet_SendUpdate] quiet_upd_slot)

lemma ConvertToLFG_world: assumes ok: "world_ok w" shows "world_ok (ConvertToLFG e g w)"
proof -
  have r: "(t OR GROUPTYPE_LFG OR GROUPTYPE_UNK1) AND GROUPTYPE_RAID = t AND GROUPTYPE_RAID" for t
    by (rule bit_word_eqI) (auto simp: GROUPTYPE_LFG_def GROUPTYPE_UNK1_def GROUPTYPE_RAID_def bit_simps less_Suc_eq numeral_eq_Suc)
  have "world_ok (upd_group g (\<lambda>G. G\<lparr>m_groupType := m_groupType G OR GROUPTYPE_LFG OR GROUPTYPE_UNK1,
      m_lootMethod := NEED_BEFORE_GREED\<rparr>) w)"
    by (rule world_upd [OF ok], drule world_ok_core [OF ok]) (simp add: core_ok_core isRaidGroup_def r)
  then show ?thesis by (simp add: ConvertToLFG_def Let_def)
qed

text \<open>The start: no groups, no players; \<open>n\<close> is the next free item number.\<close>

definition group_start :: "u32 \<Rightarrow> group_world" where
  "group_start n = \<lparr>gw_groups = (\<lambda>_. None), gw_next = 0, gw_players = (\<lambda>_. None), gw_loots = (\<lambda>_. None),
     gw_mgr = mgr_new, gw_itemGuid = n, gw_out = []\<rparr>"

text \<open>
  One step: a request of a client, a login of a player who is not loaded, a logout, a player
  joining the raid of a battleground (\<open>raid\<close> is the raid the battleground has created), new or
  cleared loot, rolls, and what the dungeon finder sets. The environment may differ in every step.
\<close>

inductive grp_step :: "group_env \<Rightarrow> group_world \<Rightarrow> group_world \<Rightarrow> bool" where
  Invite: "HandleGroupInvite e me name w = Inr w' \<Longrightarrow> grp_step e w w'"
| Response: "HandleGroupInviteResponse e me acc w = Inr w' \<Longrightarrow> grp_step e w w'"
| UninviteGuid: "HandleGroupUninviteGuid e me guid w = Inr w' \<Longrightarrow> grp_step e w w'"
| Uninvite: "HandleGroupUninvite e me name w = Inr w' \<Longrightarrow> grp_step e w w'"
| Leave: "HandleGroupDisband e me w = Inr w' \<Longrightarrow> grp_step e w w'"
| SetLeader: "grp_step e w (HandleGroupSetLeader e me guid w)"
| Convert: "HandleGroupRaidConvert e me raid w = Inr w' \<Longrightarrow> grp_step e w w'"
| Move: "HandleGroupChangeSubGroup e me now prev name nr w = Inr (t, w') \<Longrightarrow> grp_step e w w'"
| Assistant: "grp_step e w (HandleGroupAssistantLeader e me guid b w)"
| Assignment: "grp_step e w (HandlePartyAssignment e me asg b guid w)"
| Everyone: "grp_step e w (HandleSetEveryoneIsAssistant e me b w)"
| TargetIcon: "grp_step e w (HandleRaidTargetUpdate me x guid w)"
| ClearMarker: "grp_step e w (HandleGroupClearMarker e me mk w)"
| ReadyCheck: "grp_step e w (HandleRaidReadyCheck me ans w)"
| LootMethod: "grp_step e w (HandleLootMethod e me lm lg lt w)"
| Vote: "HandleLootRoll e me guid t w = Inr w' \<Longrightarrow> grp_step e w w'"
| Login: "gw_players w p = None \<Longrightarrow> player_login e p pl sid w = Inr w' \<Longrightarrow> grp_step e w w'"
| Logout: "player_logout e p socket w = Inr w' \<Longrightarrow> grp_step e w w'"
| JoinBattleground: "gw_players w p \<noteq> None \<Longrightarrow> (\<And>g. raid = Some g \<Longrightarrow> isRaidGroup (grp g w)) \<Longrightarrow>
    AddOrSetPlayerToCorrectBgGroup e bg p raid w = Inr (r, w') \<Longrightarrow> grp_step e w w'"
| NewLoot: "grp_step e w (w\<lparr>gw_loots := (gw_loots w)(l \<mapsto> L)\<rparr>)"
| ClearLoot: "grp_step e w (loot_clear l w)"
| RollLoot: "loot_loop nbg e mapid l is g w = Inr w' \<Longrightarrow> grp_step e w w'"
| EndRoll: "EndRoll e l g w = Inr w' \<Longrightarrow> grp_step e w w'"
| NextLooter: "grp_step e w (UpdateLooterGuid e b g w)"
| Dungeon: "grp_step e w (ConvertToLFG e g w)"
| Roles: "grp_step e w (SetLfgRoles e guid roles g w)"
| Difficulty: "grp_step e w (SetDungeonDifficulty d g w)"
| RaidDifficulty: "grp_step e w (SetRaidDifficulty d g w)"

inductive grp_reachable :: "group_world \<Rightarrow> bool" where
  Start: "grp_reachable (group_start n)"
| Step: "grp_reachable w \<Longrightarrow> grp_step e w w' \<Longrightarrow> grp_reachable w'"

lemma start_world: "world_ok (group_start n)"
  by (simp add: world_ok_def link_ok_def groups_ok_def group_start_def target_of_def refs_def cores_def)

lemma step_world: "grp_step e w w' \<Longrightarrow> world_ok w \<Longrightarrow> world_ok w'"
proof (induction rule: grp_step.induct)
  case NewLoot
  then show ?case by (rule quiet_world [OF quiet_outside, rotated 3]) simp_all
next
  case ClearLoot
  then show ?case using quiet_world [OF quiet_loot_clear] by blast
next
  case RollLoot
  then show ?case using quiet_world [OF quiet_loot_loop] by blast
next
  case EndRoll
  then show ?case using quiet_world [OF quiet_EndRoll] by blast
next
  case JoinBattleground
  then show ?case by (blast intro: BgGroup_world)
qed (simp_all add: HandleGroupSetLeader_world flag_requests_world icon_requests_world ConvertToLFG_world
    quiet_world [OF quiet_SetLfgRoles] quiet_world [OF quiet_difficulty(1)] quiet_world [OF quiet_difficulty(2)]
    HandleGroupInvite_world HandleGroupInviteResponse_world HandleGroupUninvite_world HandleGroupDisband_world
    HandleGroupRaidConvert_world HandleGroupChangeSubGroup_world HandleLootRoll_world player_login_world player_logout_world)

lemma reachable_world: "grp_reachable w \<Longrightarrow> world_ok w"
  by (induction rule: grp_reachable.induct) (auto intro: start_world step_world)

end
