(* ===== verification/Group_Party.thy ===== *)
theory Group_Party
  imports Group_Reachable
begin

text \<open>
  What adding a member and creating a party do, in full: \<open>still\<close> says that two worlds agree on
  members, references, leader, type, invitations and the players' groups, so that packets,
  counters of packets and instance flags can be left out.
\<close>

section \<open>Worlds that agree on membership\<close>

definition gview where
  "gview G = (m_memberSlots G, m_memberMgr G, m_invitees G, m_leaderGuid G, m_groupType G,
     m_subGroupsCounts G, m_bgGroup G, m_bfGroup G, g_guid G, m_dbStoreId G)"

definition pview where
  "pview pl = (gp_name pl, gp_inWorld pl, m_group pl, m_originalGroup pl, m_groupInvite pl)"

definition still :: "group_world \<Rightarrow> group_world \<Rightarrow> bool" where
  "still w w' \<longleftrightarrow>
     (\<forall>g. map_option gview (gw_groups w' g) = map_option gview (gw_groups w g)) \<and>
     (\<forall>p. map_option pview (gw_players w' p) = map_option pview (gw_players w p)) \<and>
     GroupStore (gw_mgr w') = GroupStore (gw_mgr w) \<and> GroupDbStore (gw_mgr w') = GroupDbStore (gw_mgr w)"

lemma still_refl [simp]: "still w w"
  by (simp add: still_def)

lemma still_trans: "still u v \<Longrightarrow> still v w \<Longrightarrow> still u w"
  by (simp add: still_def)

lemma still_step: "still v v' \<Longrightarrow> still w v' = still w v"
  unfolding still_def by auto

lemma still_emit [simp]: "still w (gw_emit es w)"
  by (simp add: still_def)

lemmas still_emit_step [simp] = still_emit [THEN still_step]

lemma still_foldl: "(\<And>w x. still w (f w x)) \<Longrightarrow> still w (foldl f w xs)"
  by (induction xs arbitrary: w) (auto intro: still_trans)

lemma still_upd_group: "(\<And>G. gview (f G) = gview G) \<Longrightarrow> still w (upd_group g f w)"
  by (simp add: still_def option.map_comp o_def)

lemma still_upd_player: "(\<And>pl. pview (f pl) = pview pl) \<Longrightarrow> still w (upd_player p f w)"
  by (simp add: still_def option.map_comp o_def)

lemma still_upd_mgr: "(\<And>m. GroupStore (f m) = GroupStore m) \<Longrightarrow> (\<And>m. GroupDbStore (f m) = GroupDbStore m) \<Longrightarrow> still w (upd_mgr f w)"
  by (simp add: still_def upd_mgr_def)

lemma still_alive: "still w w' \<Longrightarrow> (gw_groups w' g = None) = (gw_groups w g = None)"
  unfolding still_def by (metis option.map_disc_iff)

lemma still_grp:
  assumes "still w w'" shows "gview (grp g w') = gview (grp g w)"
proof -
  from assms have "map_option gview (gw_groups w' g) = map_option gview (gw_groups w g)" by (simp add: still_def)
  then show ?thesis by (auto simp: grp_def split: option.split)
qed

lemma still_player: "still w w' \<Longrightarrow> map_option pview (gw_players w' p) = map_option pview (gw_players w p)"
  by (simp add: still_def)

lemma still_of:
  assumes "still w w'"
  shows "group_of w' p = group_of w p" "original_group_of w' p = original_group_of w p" "invite_of w' p = invite_of w p"
    "(find_player w' p = None) = (find_player w p = None)" "(gw_players w' p = None) = (gw_players w p = None)"
  using still_player [OF assms, of p]
  by (cases "gw_players w p"; cases "gw_players w' p";
      simp add: group_of_def original_group_of_def invite_of_def find_player_def pview_def)+

lemma still_SendUpdate [simp]: "still w (SendUpdate e g w)"
proof -
  have "still v (gw_emit es (upd_group g (\<lambda>G. G\<lparr>m_counter := h G\<rparr>) v))" for v es h
    by (simp add: still_upd_group gview_def)
  then have "still v (SendUpdateToPlayer e p s g v)" for v p s
    by (auto simp: SendUpdateToPlayer_def Let_def split: option.split)
  then show ?thesis unfolding SendUpdate_def by (rule still_foldl)
qed

lemma still_sends [simp]:
  "still w (SendRaidMarkerUpdateToPlayer p b g w)" "still w (sql_unless_bg q g w)" "still w (BroadcastGroupUpdate g w)"
  "still w (SendPartyResult me a x c w)"
  by (simp_all add: SendRaidMarkerUpdateToPlayer_def sql_unless_bg_def BroadcastGroupUpdate_def SendPartyResult_def)

lemma still_adopt [simp]: "still w (adopt_difficulty e p g w)"
proof -
  have d: "still v (gw_emit es (upd_player p (\<lambda>pl. pl\<lparr>gp_dungeonDifficulty := x\<rparr>) v))"
    "still v (gw_emit es (upd_player p (\<lambda>pl. pl\<lparr>gp_raidDifficulty := x\<rparr>) v))" for v es x
    by (simp_all add: still_upd_player pview_def)
  show ?thesis unfolding adopt_difficulty_def Let_def
    by (simp add: still_step [OF still_upd_player] pview_def)
qed

lemma still_welcome [simp]: "still w (welcome_member e p g w)"
proof -
  have en: "still v (upd_group g (\<lambda>G. G\<lparr>m_maxEnchantingLevel := h G\<rparr>) v)" for v h
    by (simp add: still_upd_group gview_def)
  show ?thesis unfolding welcome_member_def Let_def by (subst still_step [OF en]) simp
qed

lemma still_reset_icons [simp]: "still w (reset_icons g w)"
  by (simp add: reset_icons_def still_upd_group gview_def)

lemmas still_steps =
  still_SendUpdate [THEN still_step] still_sends [THEN still_step] still_welcome [THEN still_step]
  still_reset_icons [THEN still_step]

section \<open>Adding a member to a party\<close>

definition new_slot :: "u64 \<Rightarrow> u8 list \<Rightarrow> MemberSlot" where
  "new_slot p name = \<lparr>slot_guid = p, slot_name = name, slot_group = 0, slot_flags = 0, slot_roles = 0\<rparr>"

definition joined :: "u64 \<Rightarrow> u8 list \<Rightarrow> nat \<Rightarrow> group_world \<Rightarrow> group_world" where
  "joined p name g w =
     upd_group g (\<lambda>G. G\<lparr>m_memberSlots := m_memberSlots G @ [new_slot p name], m_memberMgr := (p, GroupRef) # m_memberMgr G\<rparr>)
       (upd_player p (\<lambda>pl. pl\<lparr>m_groupInvite := None, m_group := Some g\<rparr>) w)"

lemma AddMember_party:
  assumes g: "gw_groups w g = Some G" and counts: "m_subGroupsCounts G = None" and nbg: "\<not> isBGGroup G" "\<not> isBFGroup G"
    and p: "gw_players w p = Some pl" and free: "m_group pl = None"
  shows "\<exists>w'. group_AddMember e p g w = Inr (True, w') \<and> still (joined p (gp_name pl) g w) w'"
proof -
  let ?u = "SetGroupInvite None p (push_member p (gp_name pl) 0 g w)"
  let ?v = "gw_emit [GCall p UpdateObjectVisibility] (upd_player p (set_ref_subGroup GroupRef 0) (ref_link GroupRef g p ?u))"
  have inc: "on_group g (SubGroupCounterIncrease 0) (push_member p (gp_name pl) 0 g w) = Inr (push_member p (gp_name pl) 0 g w)"
    using g counts by (simp add: on_group_def SubGroupCounterIncrease_def bump_def push_member_def grp_def upd_group_def option.map_comp o_def fun_eq_iff)
  have att: "attach_player p 0 g ?u = Inr ?v"
    using p free by (simp add: attach_player_def group_of_def SetGroupInvite_def push_member_def SetGroup_def)
  let ?bound = "ge_boundInstance e g p = Some (pa_instanceId (ge_attr e p))"
  let ?x = "if ?bound then upd_player p (\<lambda>pl. pl\<lparr>m_InstanceValid := True\<rparr>) ?v else ?v"
  let ?y = "reset_icons g ?x"
  let ?z = "sql_unless_bg (InsertGroupMember (m_dbStoreId (grp g ?y)) (GUID_LOPART p) 0 0 0) g ?y"
  let ?w' = "welcome_member e p g (gw_emit [GHookAdd p] (SendRaidMarkerUpdateToPlayer p False g (SendUpdate e g ?z)))"
  have "group_AddMember e p g w = Inr (True, ?w')"
    using g p counts by (simp add: group_AddMember_def free_subgroup_def grp_def inc att Let_def)
  moreover have "still (joined p (gp_name pl) g w) ?v"
  proof -
    have t: "target_of ?u p GroupRef = None"
      using p free by (simp add: target_of_def SetGroupInvite_def push_member_def)
    have "ref_link GroupRef g p ?u = upd_group g (\<lambda>G. G\<lparr>m_memberMgr := (p, GroupRef) # m_memberMgr G\<rparr>)
        (upd_player p (set_ref_target GroupRef (Some g)) (upd_player p (set_ref_target GroupRef None) ?u))"
      by (simp add: ref_link_def ref_unlink_def t)
    then show ?thesis
      using g p by (simp add: still_def joined_def SetGroupInvite_def push_member_def new_slot_def gview_def pview_def
          option.map_comp o_def)
  qed
  moreover have "still ?v ?w'"
    by (simp add: still_steps still_upd_player pview_def)
  ultimately show ?thesis using still_trans by blast
qed

lemma still_joined:
  assumes "still w z" shows "still (joined p n g w) (joined p n g z)"
proof -
  have gv: "map_option gview (map_option (\<lambda>G. G\<lparr>m_memberSlots := m_memberSlots G @ [s], m_memberMgr := x # m_memberMgr G\<rparr>) a) =
      map_option gview (map_option (\<lambda>G. G\<lparr>m_memberSlots := m_memberSlots G @ [s], m_memberMgr := x # m_memberMgr G\<rparr>) b)"
    if "map_option gview a = map_option gview b" for a b s x
    using that by (cases a; cases b) (auto simp: gview_def)
  have pv: "map_option pview (map_option (\<lambda>pl. pl\<lparr>m_groupInvite := None, m_group := Some g\<rparr>) a) =
      map_option pview (map_option (\<lambda>pl. pl\<lparr>m_groupInvite := None, m_group := Some g\<rparr>) b)"
    if "map_option pview a = map_option pview b" for a b
    using that by (cases a; cases b) (auto simp: pview_def)
  have eqs: "map_option gview (gw_groups z h) = map_option gview (gw_groups w h)"
    "map_option pview (gw_players z q) = map_option pview (gw_players w q)" for h q
    using assms by (simp_all add: still_def)
  have "map_option gview (gw_groups (joined p n g z) h) = map_option gview (gw_groups (joined p n g w) h)" for h
    using gv [OF eqs(1) [of g]] eqs(1) [of h] by (simp add: joined_def)
  moreover have "map_option pview (gw_players (joined p n g z) q) = map_option pview (gw_players (joined p n g w) q)" for q
    using pv [OF eqs(2) [of p]] eqs(2) [of q] by (simp add: joined_def)
  ultimately show ?thesis using assms by (simp add: still_def joined_def)
qed

text \<open>A new party: its leader, fresh numbers, and the leader as the first member.\<close>

definition founded :: "u64 \<Rightarrow> nat \<Rightarrow> group_world \<Rightarrow> group_world" where
  "founded p g w = upd_mgr (RegisterGroupDbStoreId (NextGroupDbStoreId (gw_mgr w)) g)
     (upd_group g (\<lambda>G. G\<lparr>m_leaderGuid := p, g_guid := MAKE_NEW_GUID (NextGroupId (gw_mgr w)) 0 HIGHGUID_GROUP,
       m_dbStoreId := NextGroupDbStoreId (gw_mgr w)\<rparr>) w)"

lemma Create_party:
  assumes g: "gw_groups w g = Some G" and counts: "m_subGroupsCounts G = None" and ty: "m_groupType G = GROUPTYPE_NORMAL"
    and nbg: "\<not> isBGGroup G" "\<not> isBFGroup G"
    and p: "gw_players w p = Some pl" and free: "m_group pl = None"
  shows "\<exists>w'. group_Create e p g w = Inr (True, w') \<and> still (joined p (gp_name pl) g (founded p g w)) w'"
proof -
  obtain n u where u: "GenerateGroupId w = (n, u)" by fastforce
  then have n: "n = NextGroupId (gw_mgr w)" and us: "still w u" "gw_groups u = gw_groups w" "gw_players u = gw_players w"
    by (auto simp: GenerateGroupId_def Let_def still_upd_mgr) (auto simp: upd_mgr_def still_def)
  let ?v = "upd_group g (create_settings p) (upd_group g (create_fields p pl n) u)"
  let ?G = "create_settings p (create_fields p pl n G)"
  have nr: "\<not> isRaidGroup (create_fields p pl n G)" using nbg ty
    by (simp add: create_fields_def Let_def isRaidGroup_def GROUPTYPE_NORMAL_def isBGGroup_def isBFGroup_def)
  have v: "gw_groups ?v g = Some ?G" using g us by simp
  have Gv: "gview ?G = gview (G\<lparr>m_leaderGuid := p, g_guid := MAKE_NEW_GUID n 0 HIGHGUID_GROUP\<rparr>)"
    using nbg by (simp add: create_settings_def create_fields_def Let_def gview_def isBGGroup_def isBFGroup_def)
  let ?x = "upd_group g (\<lambda>G. G\<lparr>m_dungeonDifficulty := gp_dungeonDifficulty pl, m_raidDifficulty := gp_raidDifficulty pl\<rparr>) ?v"
  obtain sid y where y: "GenerateNewGroupDbStoreId ?x = (sid, y)" by fastforce
  then have ys: "gw_groups y = gw_groups ?x" "gw_players y = gw_players ?x"
    "GroupStore (gw_mgr y) = GroupStore (gw_mgr w)" "GroupDbStore (gw_mgr y) = GroupDbStore (gw_mgr w)"
    "sid = NextGroupDbStoreId (gw_mgr w)"
    using u by (auto simp: GenerateNewGroupDbStoreId_def GenerateGroupId_def upd_mgr_def Let_def split: if_splits)
  let ?y = "upd_mgr (RegisterGroupDbStoreId sid g) (upd_group g (\<lambda>G. G\<lparr>m_dbStoreId := sid\<rparr>) y)"
  let ?z = "gw_emit [insert_group_row (grp g ?y)] ?y"
  let ?H = "?G\<lparr>m_dungeonDifficulty := gp_dungeonDifficulty pl, m_raidDifficulty := gp_raidDifficulty pl, m_dbStoreId := sid\<rparr>"
  have z: "gw_groups ?z h = (if h = g then Some ?H else gw_groups w h)" for h using g us(2) ys(1) by (simp add: upd_mgr_def)
  have Hv: "gview ?H = gview (G\<lparr>m_leaderGuid := p, g_guid := MAKE_NEW_GUID n 0 HIGHGUID_GROUP, m_dbStoreId := sid\<rparr>)"
    using Gv by (simp add: gview_def)
  have fz: "still (founded p g w) ?z"
    unfolding still_def using z Hv g us(3) ys
    by (auto simp: founded_def n upd_mgr_def RegisterGroupDbStoreId_def Let_def)
  have zg: "gw_groups ?z g = Some ?H" using z [of g] by simp
  have H: "m_subGroupsCounts ?H = None" "\<not> isBGGroup ?H" "\<not> isBFGroup ?H" using Hv counts nbg
    by (simp_all add: gview_def isBGGroup_def isBFGroup_def)
  have pz: "gw_players ?z p = Some pl" using p us ys by (simp add: upd_mgr_def)
  obtain w' where w': "group_AddMember e p g ?z = Inr (True, w')" and st: "still (joined p (gp_name pl) g ?z) w'"
    using AddMember_party [OF zg H pz free] by blast
  have bg: "\<not> isBGGroup (grp g ?v)" "\<not> isBFGroup (grp g ?v)" using g us(2) H
    by (simp_all add: grp_def isBGGroup_def isBFGroup_def)
  have "group_Create e p g w = Inr (True, gw_emit [GCall p (ConvertInstancesToGroup False)] w')"
    using p u nr g us bg y w' by (simp add: group_Create_def Let_def grp_def)
  moreover have "still (joined p (gp_name pl) g (founded p g w)) w'"
    by (rule still_trans [OF still_joined [OF fz] st])
  ultimately show ?thesis by auto
qed

end
