(* ===== verification/Group_Forming.thy ===== *)
theory Group_Forming
  imports Group_Party
begin

text \<open>
  From an invitation to a party of two: the invitation, its acceptance, and the group that results.
\<close>

section \<open>A party is formed\<close>

lemma sm_find_set_same: "sm_find (sm_set k v m) k = Some v"
  by (induction k v m rule: sm_set.induct) auto

lemma AddInvite_free:
  assumes "gw_players w p = Some pl" and "m_groupInvite pl = None" and "m_group pl = None"
  shows "AddInvite p g w = Inr (True, gw_emit [GHookInvite p] (SetGroupInvite (Some g) p
    (upd_group g (\<lambda>G. G\<lparr>m_invitees := ss_insert p (m_invitees G)\<rparr>) (RemoveInvite p g w))))"
  using assms by (simp add: AddInvite_def invite_of_def group_of_def Let_def)

text \<open>A player in the world without a group or an invitation.\<close>

definition ungrouped :: "group_world \<Rightarrow> u64 \<Rightarrow> bool" where
  "ungrouped w p \<longleftrightarrow> (case gw_players w p of None \<Rightarrow> False
     | Some pl \<Rightarrow> gp_inWorld pl \<and> m_group pl = None \<and> m_originalGroup pl = None \<and> m_groupInvite pl = None)"

definition empty_group :: "u64 \<Rightarrow> group \<Rightarrow> bool" where
  "empty_group me G \<longleftrightarrow> m_memberSlots G = [] \<and> m_memberMgr G = [] \<and> m_leaderGuid G = me \<and> m_groupType G = GROUPTYPE_NORMAL \<and>
     m_subGroupsCounts G = None \<and> m_bgGroup G = None \<and> m_bfGroup G = None"

lemma invite_first:
  assumes ne: "me \<noteq> p" and me: "ungrouped w me" and p: "ungrouped w p"
    and name: "ge_normalize e n = Some name" "ge_findByName e name = Some p" and ok: "invite_refused e me p w = None"
  shows "\<exists>w1 G plm plp. HandleGroupInvite e me n w = Inr w1 \<and> gw_groups w1 (gw_next w) = Some G \<and> empty_group me G \<and>
    m_invitees G = ss_insert p (ss_insert me []) \<and> gw_mgr w1 = gw_mgr w \<and>
    gw_players w1 me = Some plm \<and> gp_inWorld plm \<and> m_group plm = None \<and>
    gw_players w1 p = Some plp \<and> m_group plp = None \<and> m_groupInvite plp = Some (gw_next w)"
proof -
  from me obtain plm where plm: "gw_players w me = Some plm" "gp_inWorld plm" "m_group plm = None" "m_groupInvite plm = None"
    by (auto simp: ungrouped_def split: option.splits)
  from p obtain plp where plp: "gw_players w p = Some plp" "gp_inWorld plp" "m_group plp = None" "m_groupInvite plp = None"
    by (auto simp: ungrouped_def split: option.splits)
  let ?g = "gw_next w"
  obtain u where u: "group_alloc e w = (?g, u)" and us: "gw_groups u ?g = Some (group_new (ge_garbage e))"
    "gw_players u = gw_players w" "gw_mgr u = gw_mgr w" by (auto simp: group_alloc_def)
  let ?v = "gw_emit [GHookInvite me] (SetGroupInvite (Some ?g) me
    (upd_group ?g (\<lambda>G. G\<lparr>m_invitees := ss_insert me (m_invitees G)\<rparr>) (RemoveInvite me ?g u)))"
  have a: "AddInvite me ?g u = Inr (True, ?v)" by (rule AddInvite_free) (use plm us in simp_all)
  let ?x = "upd_group ?g (\<lambda>G. G\<lparr>m_leaderGuid := me, m_leaderName := (case gw_players ?v me of Some pl \<Rightarrow> gp_name pl | None \<Rightarrow> [])\<rparr>) ?v"
  have px: "gw_players ?x p = Some plp" using plp us plm ne by (simp add: SetGroupInvite_def RemoveInvite_def)
  note b = AddInvite_free [OF px plp(4) plp(3), of ?g]
  have run: "HandleGroupInvite e me n w = Inr (SendPartyResult me PARTY_OP_INVITE name ERR_PARTY_RESULT_OK (gw_emit [GSendInvite p me True]
      (gw_emit [GHookInvite p] (SetGroupInvite (Some ?g) p
        (upd_group ?g (\<lambda>G. G\<lparr>m_invitees := ss_insert p (m_invitees G)\<rparr>) (RemoveInvite p ?g ?x))))))"
    using plm plp name ok u a b
    by (simp add: HandleGroupInvite_def find_player_def bg_or_original_def group_of_def invite_of_def
        invite_to_group_def AddLeaderInvite_def Let_def)
  show ?thesis unfolding run using plm plp us ne
    by (auto simp: SendPartyResult_def SetGroupInvite_def RemoveInvite_def upd_group_def upd_player_def gw_emit_def
        empty_group_def group_new_def ss_erase_def)
qed

text \<open>Withdrawing an invitation, up to what \<open>still\<close> sees.\<close>

lemma RemoveInvite_view:
  assumes "gw_players w q = Some ql" and "gw_groups w g = Some G"
  shows "gw_groups (RemoveInvite q g w) g = Some (G\<lparr>m_invitees := ss_erase q (m_invitees G)\<rparr>)"
    "gw_players (RemoveInvite q g w) p = (if p = q then Some (ql\<lparr>m_groupInvite := None\<rparr>) else gw_players w p)"
    "gw_mgr (RemoveInvite q g w) = gw_mgr w"
  using assms by (simp_all add: RemoveInvite_def SetGroupInvite_def)

lemma joined_groups: "gw_groups (joined p n g w) g =
    map_option (\<lambda>G. G\<lparr>m_memberSlots := m_memberSlots G @ [new_slot p n], m_memberMgr := (p, GroupRef) # m_memberMgr G\<rparr>) (gw_groups w g)"
  and joined_players: "gw_players (joined p n g w) q =
    (if q = p then map_option (\<lambda>pl. pl\<lparr>m_groupInvite := None, m_group := Some g\<rparr>) (gw_players w p) else gw_players w q)"
  by (simp_all add: joined_def)

lemma still_group:
  assumes "still w w'" and "gw_groups w g = Some G"
  shows "\<exists>G'. gw_groups w' g = Some G' \<and> gview G' = gview G"
proof -
  from assms(1) have "map_option gview (gw_groups w' g) = map_option gview (gw_groups w g)" by (simp add: still_def)
  with assms(2) show ?thesis by (cases "gw_groups w' g") simp_all
qed

lemma still_pl:
  assumes "still w w'" and "gw_players w p = Some pl"
  shows "\<exists>pl'. gw_players w' p = Some pl' \<and> pview pl' = pview pl"
  using still_player [OF assms(1), of p] assms(2) by (cases "gw_players w' p") simp_all

lemma gview_fields:
  assumes "gview G = gview H"
  shows "m_memberSlots G = m_memberSlots H" "m_leaderGuid G = m_leaderGuid H" "m_subGroupsCounts G = m_subGroupsCounts H"
    "m_bgGroup G = m_bgGroup H" "m_bfGroup G = m_bfGroup H" "m_invitees G = m_invitees H" "m_groupType G = m_groupType H"
    "g_guid G = g_guid H" "m_memberMgr G = m_memberMgr H" "m_dbStoreId G = m_dbStoreId H"
  using assms by (simp_all add: gview_def)

lemma pview_fields:
  assumes "pview p = pview q"
  shows "m_group p = m_group q" "gp_name p = gp_name q" "m_groupInvite p = m_groupInvite q" "gp_inWorld p = gp_inWorld q"
  using assms by (simp_all add: pview_def)

text \<open>The two members after the acceptance.\<close>

definition party_of_two :: "u64 \<Rightarrow> u64 \<Rightarrow> nat \<Rightarrow> group_world \<Rightarrow> bool" where
  "party_of_two me p g w \<longleftrightarrow> (case gw_groups w g of None \<Rightarrow> False
     | Some G \<Rightarrow> map slot_guid (m_memberSlots G) = [me, p] \<and> m_leaderGuid G = me \<and> m_invitees G = [] \<and>
         m_memberMgr G = [(p, GroupRef), (me, GroupRef)] \<and> \<not> isRaidGroup G \<and>
         GetGroupByGUID (GUID_LOPART (g_guid G)) (gw_mgr w) = Some g \<and> GetGroupByDbStoreId (m_dbStoreId G) (gw_mgr w) = Some g \<and>
         \<not> isBGGroup G \<and> \<not> isBFGroup G) \<and>
     group_of w me = Some g \<and> group_of w p = Some g \<and> invite_of w me = None \<and> invite_of w p = None"

lemma accept_first:
  assumes ne: "me \<noteq> p" and g: "gw_groups w g = Some G" and G: "empty_group me G" and inv: "set (m_invitees G) \<subseteq> {me, p}"
    and me: "gw_players w me = Some plm" "gp_inWorld plm" "m_group plm = None"
    and p: "gw_players w p = Some plp" "m_group plp = None"
  shows "\<exists>w'. accept_invite e p g w = Inr w' \<and> party_of_two me p g w'"
proof -
  let ?u = "RemoveInvite p g w" and ?Gu = "G\<lparr>m_invitees := ss_erase p (m_invitees G)\<rparr>"
  note u = RemoveInvite_view [OF p(1) g]
  let ?x = "RemoveInvite me g ?u" and ?Gx = "?Gu\<lparr>m_invitees := []\<rparr>"
  have meu: "gw_players ?u me = Some plm" using u me ne by simp
  have "filter (\<lambda>x. x \<noteq> me) (filter (\<lambda>x. x \<noteq> p) (m_invitees G)) = []"
    using inv by (auto simp: filter_empty_conv)
  then have x: "gw_groups ?x g = Some ?Gx"
    using RemoveInvite_view(1) [OF meu u(1)] by (simp add: ss_erase_def)
  have px: "gw_players ?x me = Some (plm\<lparr>m_groupInvite := None\<rparr>)" "gw_players ?x p = Some (plp\<lparr>m_groupInvite := None\<rparr>)"
    using RemoveInvite_view(2) [OF meu u(1)] u p ne by simp_all
  have Gx: "m_subGroupsCounts ?Gx = None" "m_groupType ?Gx = GROUPTYPE_NORMAL" "\<not> isBGGroup ?Gx" "\<not> isBFGroup ?Gx"
    using G by (simp_all add: empty_group_def isBGGroup_def isBFGroup_def)
  obtain v where v: "group_Create e me g ?x = Inr (True, v)"
    and sv: "still (joined me (gp_name plm) g (founded me g ?x)) v"
    using Create_party [OF x Gx px(1), of e] me by auto
  have fx: "gw_groups (founded me g ?x) g = Some (?Gx\<lparr>m_leaderGuid := me, g_guid := MAKE_NEW_GUID (NextGroupId (gw_mgr ?x)) 0 HIGHGUID_GROUP, m_dbStoreId := NextGroupDbStoreId (gw_mgr ?x)\<rparr>)"
    "gw_players (founded me g ?x) q = gw_players ?x q" for q
    using x by (simp_all add: founded_def upd_mgr_def)
  have "gw_groups (joined me (gp_name plm) g (founded me g ?x)) g = Some (?Gx\<lparr>m_leaderGuid := me,
      g_guid := MAKE_NEW_GUID (NextGroupId (gw_mgr ?x)) 0 HIGHGUID_GROUP, m_dbStoreId := NextGroupDbStoreId (gw_mgr ?x), m_memberSlots := [new_slot me (gp_name plm)], m_memberMgr := [(me, GroupRef)]\<rparr>)"
    using G fx by (simp add: joined_groups empty_group_def)
  from still_group [OF sv this] obtain Gv where Gv: "gw_groups v g = Some Gv" and Gvv: "gview Gv = gview (?Gx\<lparr>m_leaderGuid := me,
      g_guid := MAKE_NEW_GUID (NextGroupId (gw_mgr ?x)) 0 HIGHGUID_GROUP, m_dbStoreId := NextGroupDbStoreId (gw_mgr ?x), m_memberSlots := [new_slot me (gp_name plm)], m_memberMgr := [(me, GroupRef)]\<rparr>)"
    by blast
  have "gw_players (joined me (gp_name plm) g (founded me g ?x)) p = Some (plp\<lparr>m_groupInvite := None\<rparr>)"
    "gw_players (joined me (gp_name plm) g (founded me g ?x)) me = Some (plm\<lparr>m_groupInvite := None, m_group := Some g\<rparr>)"
    using fx px ne by (simp_all add: joined_players)
  then obtain plv mev where plv: "gw_players v p = Some plv" and plvv: "pview plv = pview (plp\<lparr>m_groupInvite := None\<rparr>)"
    and mev: "gw_players v me = Some mev" and mevv: "pview mev = pview (plm\<lparr>m_groupInvite := None, m_group := Some g\<rparr>)"
    using still_pl [OF sv] by meson
  let ?y = "mgr_AddGroup g v"
  have y: "gw_groups ?y g = Some Gv" "gw_players ?y q = gw_players v q" for q
    using Gv by (simp_all add: mgr_AddGroup_def upd_mgr_def)
  have Gy: "m_subGroupsCounts Gv = None" "\<not> isBGGroup Gv" "\<not> isBFGroup Gv"
    using gview_fields [OF Gvv] G by (simp_all add: empty_group_def isBGGroup_def isBFGroup_def)
  obtain z where z: "group_AddMember e p g ?y = Inr (True, z)" and sz: "still (joined p (gp_name plv) g ?y) z"
    using AddMember_party [OF y(1) Gy, of p plv e] plv y pview_fields(1) [OF plvv] p by auto
  have "accept_invite e p g w = Inr (BroadcastGroupUpdate g z)"
    using g G u me meu ne v z by (simp add: accept_invite_def form_group_def Let_def grp_def empty_group_def group_IsFull_def
        isRaidGroup_def GROUPTYPE_NORMAL_def MAXGROUPSIZE_def IsCreated_def GetMembersCount_def find_player_def)
  moreover have sz': "still (joined p (gp_name plv) g ?y) (BroadcastGroupUpdate g z)"
    using sz by (simp add: still_steps)
  have "party_of_two me p g (BroadcastGroupUpdate g z)"
  proof -
    let ?r = "BroadcastGroupUpdate g z"
    have store: "GetGroupByGUID (GUID_LOPART (g_guid Gv)) (gw_mgr ?r) = Some g"
      using sz' Gv by (simp add: still_def joined_def GetGroupByGUID_def mgr_AddGroup_def upd_mgr_def grp_def sm_find_set_same)
    have dbs: "GetGroupByDbStoreId (m_dbStoreId Gv) (gw_mgr ?r) = Some g"
      using sz' sv gview_fields(10) [OF Gvv]
      by (simp add: still_def joined_def GetGroupByDbStoreId_def mgr_AddGroup_def upd_mgr_def founded_def RegisterGroupDbStoreId_def Let_def)
    have "gw_groups (joined p (gp_name plv) g ?y) g = Some (Gv\<lparr>m_memberSlots := m_memberSlots Gv @ [new_slot p (gp_name plv)],
        m_memberMgr := (p, GroupRef) # m_memberMgr Gv\<rparr>)" using y by (simp add: joined_groups)
    from still_group [OF sz' this] obtain Gr where Gr: "gw_groups ?r g = Some Gr" and Grv: "gview Gr = gview (Gv\<lparr>m_memberSlots := m_memberSlots Gv @ [new_slot p (gp_name plv)],
        m_memberMgr := (p, GroupRef) # m_memberMgr Gv\<rparr>)"
      by blast
    have pl: "group_of ?r me = Some g" "group_of ?r p = Some g" "invite_of ?r me = None" "invite_of ?r p = None"
      using still_of(1,3) [OF sz'] mev mevv plv ne y by (simp_all add: group_of_def invite_of_def joined_players pview_def)
    show ?thesis
      using Gr pl store dbs gview_fields [OF Grv] gview_fields [OF Gvv] G
      by (simp add: party_of_two_def empty_group_def new_slot_def isRaidGroup_def isBGGroup_def isBFGroup_def GROUPTYPE_NORMAL_def)
  qed
  ultimately show ?thesis by blast
qed

lemma form_party:
  assumes ne: "me \<noteq> p" and me: "ungrouped w me" and p: "ungrouped w p"
    and name: "ge_normalize e n = Some name" "ge_findByName e name = Some p" and ok: "invite_refused e me p w = None"
  shows "\<exists>w1 w2. HandleGroupInvite e me n w = Inr w1 \<and> HandleGroupInviteResponse e' p True w1 = Inr w2 \<and>
    party_of_two me p (gw_next w) w2"
proof -
  from invite_first [OF assms] obtain w1 G plm plp where w1: "HandleGroupInvite e me n w = Inr w1"
    and G: "gw_groups w1 (gw_next w) = Some G" "empty_group me G" "m_invitees G = ss_insert p (ss_insert me [])"
    and pl: "gw_players w1 me = Some plm" "gp_inWorld plm" "m_group plm = None"
    "gw_players w1 p = Some plp" "m_group plp = None" "m_groupInvite plp = Some (gw_next w)"
    by blast
  have "set (m_invitees G) \<subseteq> {me, p}" using G(3) by simp
  from accept_first [OF ne G(1,2) this pl(1-5), of e'] obtain w2
    where w2: "accept_invite e' p (gw_next w) w1 = Inr w2" "party_of_two me p (gw_next w) w2" by blast
  moreover have "HandleGroupInviteResponse e' p True w1 = Inr w2"
    using w2 pl G by (simp add: HandleGroupInviteResponse_def invite_of_def through_def)
  ultimately show ?thesis using w1 by blast
qed

end
