(* ===== verification/Group_Disbanding.thy ===== *)
theory Group_Disbanding
  imports Group_Forming
begin

text \<open>
  Disbanding returns: while the members leave one after the other, the group keeps the fields that the
  end of \<^verbatim>\<open>Group::Disband\<close> uses (\<open>kept\<close>), and no pointer that is followed dangles.
\<close>

section \<open>What the members' leaving does not change\<close>

definition kept :: "nat \<Rightarrow> group_world \<Rightarrow> group_world \<Rightarrow> bool" where
  "kept g w w' \<longleftrightarrow>
     m_invitees (grp g w') = m_invitees (grp g w) \<and> m_dbStoreId (grp g w') = m_dbStoreId (grp g w) \<and>
     g_guid (grp g w') = g_guid (grp g w) \<and> m_bgGroup (grp g w') = m_bgGroup (grp g w) \<and> m_bfGroup (grp g w') = m_bfGroup (grp g w) \<and>
     GroupDbStore (gw_mgr w') = GroupDbStore (gw_mgr w) \<and> (\<forall>q. (gw_players w' q = None) = (gw_players w q = None))"

lemma kept_refl [simp]: "kept g w w"
  by (simp add: kept_def)

lemma kept_trans: "kept g u v \<Longrightarrow> kept g v w \<Longrightarrow> kept g u w"
  by (simp add: kept_def)

lemma still_kept:
  assumes "still w w'" shows "kept g w w'"
  using still_grp [OF assms, of g] still_of(5) [OF assms] assms by (simp add: kept_def still_def gview_def)

lemma kept_upd:
  "(\<And>G. m_invitees (f G) = m_invitees G \<and> m_dbStoreId (f G) = m_dbStoreId G \<and> g_guid (f G) = g_guid G \<and> m_bgGroup (f G) = m_bgGroup G \<and>
     m_bfGroup (f G) = m_bfGroup G) \<Longrightarrow> kept g w (upd_group h f w)"
  "kept g w (upd_player p k w)"
  by (simp_all add: kept_def grp_def upd_group_def upd_player_def split: option.split)

lemma kept_ref [simp]: "kept g w (ref_unlink k p w)" "kept g w (ref_link k h p w)"
proof -
  have u: "kept g v (ref_unlink j p v)" for j v
    by (auto simp: ref_unlink_def Let_def split: option.split intro!: kept_trans [OF _ kept_upd(2)] kept_upd(1))
  then show "kept g w (ref_unlink k p w)" .
  from u show "kept g w (ref_link k h p w)" unfolding ref_link_def Let_def
    by (intro kept_trans [OF _ kept_upd(1)] kept_trans [OF _ kept_upd(2)]) simp_all
qed

lemma kept_step: "kept g v v' \<Longrightarrow> kept g w v' = kept g w v"
  by (auto simp: kept_def)

lemmas kept_steps = still_kept [OF still_emit, THEN kept_step] still_kept [OF still_SendUpdate, THEN kept_step]
  kept_upd(2) [THEN kept_step] kept_ref [THEN kept_step]

lemma kept_detach [simp]: "kept g w (detach_player p h w)"
  by (auto simp: detach_player_def RemoveFromBattlegroundOrBattlefieldRaid_def Let_def kept_steps split: option.split)

lemma kept_homebind [simp]: "kept g w (homebindIfInstance e p w)"
  by (simp add: homebindIfInstance_def kept_upd)

lemma disband_member_returns:
  assumes "link_ok w"
  shows "\<exists>w'. disband_member e b g p w = Inr w' \<and> kept g w w' \<and> link_ok w'"
proof (cases "find_player w p = None")
  case True
  with assms show ?thesis by (simp add: disband_member_def)
next
  case False
  let ?d = "detach_player p g w"
  let ?u = "if isRaidGroup (grp g ?d) then gw_emit [GCall p UpdateForQuestWorldObjects] ?d else ?d"
  let ?v = "if \<not> b then gw_emit [GSend p SMSG_GROUP_DESTROYED []] ?u else ?u"
  have r: "relink w ?v" by simp
  with assms have l: "link_ok ?v" by (simp add: relink_def)
  have k: "kept g w ?v" by (simp add: kept_steps)
  have o: "\<exists>x. (case group_of v p of Some h \<Rightarrow> through h v (\<lambda>w. Inr (SendUpdate e h w))
      | None \<Rightarrow> Inr (gw_emit [GSend p SMSG_GROUP_LIST (left_packet (grp g v))] v)) = Inr x \<and> kept g v x" if "link_ok v" for v
    using link_ok_alive [OF that, of p GroupRef]
    by (cases "target_of v p GroupRef") (simp_all add: through_def group_of_target still_kept)
  from o [OF l] obtain x where "disband_member e b g p w = Inr (homebindIfInstance e p x)" "kept g ?v x"
    using False unfolding disband_member_def Let_def by force
  moreover from relink_disband_member [OF calculation(1)] assms have "link_ok (homebindIfInstance e p x)" by (simp add: relink_def)
  ultimately show ?thesis using kept_trans [OF k] kept_trans [OF _ kept_homebind] by blast
qed

lemma disband_members_return:
  "link_ok w \<Longrightarrow> \<exists>w'. disband_members e b g ps w = Inr w' \<and> kept g w w'"
proof (induction ps arbitrary: w)
  case (Cons p ps)
  from disband_member_returns [OF Cons.prems] obtain v where v: "disband_member e b g p w = Inr v" "kept g w v" "link_ok v" by blast
  from Cons.IH [OF v(3)] v kept_trans [OF v(2)] show ?case by auto
qed simp

lemma kept_RemoveMarker [simp]: "kept g w (RemoveMarker e h w)"
proof -
  have "kept g v (RemoveMarker_step e h v i)" for v i
    by (auto simp: RemoveMarker_step_def Let_def kept_steps intro!: kept_upd split: option.split)
  then have "kept g v (foldl (RemoveMarker_step e h) v is)" for v "is"
    by (induction "is" arbitrary: v) (auto intro: kept_trans)
  then show ?thesis by (simp add: RemoveMarker_def)
qed

text \<open>It returns when the invited players still exist and the group's number is in the store.\<close>

definition can_disband :: "nat \<Rightarrow> group_world \<Rightarrow> bool" where
  "can_disband g w \<longleftrightarrow> list_all (\<lambda>p. gw_players w p \<noteq> None) (m_invitees (grp g w)) \<and>
     (isBGGroup (grp g w) \<or> isBFGroup (grp g w) \<or> unat (m_dbStoreId (grp g w)) < length (GroupDbStore (gw_mgr w)))"

lemma can_disband_kept: "kept g w w' \<Longrightarrow> can_disband g w' = can_disband g w"
  by (simp add: can_disband_def kept_def isBGGroup_def isBFGroup_def)

lemma foldl_SetGroupInvite_kept: "kept g w (foldl (\<lambda>w p. SetGroupInvite None p w) w ps)"
  by (induction ps arbitrary: w) (auto simp: SetGroupInvite_def intro: kept_trans [OF kept_upd(2)])

text \<open>What is left: neither store of the manager finds the group, and its invitations are withdrawn.\<close>

lemma invite_of_SetGroupInvite: "invite_of (SetGroupInvite None p w) q = (if q = p then None else invite_of w q)"
  by (cases "gw_players w p") (simp_all add: invite_of_def SetGroupInvite_def)

lemma invite_of_withdrawn:
  "invite_of (foldl (\<lambda>w p. SetGroupInvite None p w) w ps) q = (if q \<in> set ps then None else invite_of w q)"
  by (induction ps arbitrary: w) (simp_all add: invite_of_SetGroupInvite)

lemma invite_of_clear_references: "invite_of (clear_references rs w) q = invite_of w q"
proof -
  have "invite_of (upd_player p (set_ref_target k None) v) q = invite_of v q" for p k v
    by (cases k; cases "gw_players v q") (auto simp: invite_of_def upd_player_def)
  then show ?thesis unfolding clear_references_def by (induction rs arbitrary: w) (auto split: prod.split)
qed

lemma group_delete_keeps: "invite_of (group_delete g w) q = invite_of w q" "gw_mgr (group_delete g w) = gw_mgr w"
proof -
  have m: "gw_mgr (clear_references rs v) = gw_mgr v" for rs v
    unfolding clear_references_def by (induction rs arbitrary: v) (auto simp: upd_player_def split: prod.split)
  have i: "invite_of (v\<lparr>gw_groups := f\<rparr>) q = invite_of v q" "invite_of (gw_emit es v) q = invite_of v q" for v f es
    by (simp_all add: invite_of_def gw_emit_def)
  show "invite_of (group_delete g w) q = invite_of w q" "gw_mgr (group_delete g w) = gw_mgr w"
    by (simp_all add: group_delete_def Let_def i m invite_of_clear_references split: option.split)
qed

definition released :: "nat \<Rightarrow> group_world \<Rightarrow> group_world \<Rightarrow> bool" where
  "released g w w' \<longleftrightarrow>
     GetGroupByGUID (GUID_LOPART (g_guid (grp g w))) (gw_mgr w') = None \<and>
     (isBGGroup (grp g w) \<or> isBFGroup (grp g w) \<or> GetGroupByDbStoreId (m_dbStoreId (grp g w)) (gw_mgr w') = None) \<and>
     (\<forall>p\<in>set (m_invitees (grp g w)). invite_of w' p = None)"

lemma disband_store_frees:
  assumes "isBGGroup (grp g w) \<or> isBFGroup (grp g w) \<or> unat (m_dbStoreId (grp g w)) < length (GroupDbStore (gw_mgr w))"
  shows "\<exists>z. disband_store g w = Inr z \<and> gw_groups z = gw_groups w \<and> gw_players z = gw_players w \<and>
    (isBGGroup (grp g w) \<or> isBFGroup (grp g w) \<or> GetGroupByDbStoreId (m_dbStoreId (grp g w)) (gw_mgr z) = None)"
proof (cases "isBGGroup (grp g w) \<or> isBFGroup (grp g w)")
  case True
  then show ?thesis by (auto simp: disband_store_def)
next
  case False
  with assms show ?thesis
    by (auto simp: disband_store_def FreeGroupDbStoreId_def GetGroupByDbStoreId_def Let_def)
qed

lemma Disband_returns:
  assumes l: "link_ok w" and can: "can_disband g w"
  shows "\<exists>w'. Disband e b g w = Inr w' \<and> released g w w'"
proof -
  let ?w = "gw_emit [GHookDisband] w"
  have "link_ok ?w" using l quiet_link [OF quiet_emit] by blast
  from disband_members_return [OF this] obtain u where
    u: "disband_members e b g (map slot_guid (m_memberSlots (grp g ?w))) ?w = Inr u" "kept g w u"
    by (fastforce simp: kept_def)
  let ?v = "upd_group g (\<lambda>G. G\<lparr>m_dynObj := [], RollId := [], m_memberSlots := []\<rparr>)
      (RemoveMarker e g (SendRaidMarkerUpdate g (upd_group g (SetGroupMarkerMask 0x20) u)))"
  have "kept g u (upd_group g (SetGroupMarkerMask 0x20) u)" by (rule kept_upd) (simp add: SetGroupMarkerMask_def)
  then have "kept g u (SendRaidMarkerUpdate g (upd_group g (SetGroupMarkerMask 0x20) u))"
    by (simp add: SendRaidMarkerUpdate_def kept_steps)
  then have "kept g u ?v"
    by (intro kept_trans [OF kept_trans [OF _ kept_RemoveMarker] kept_upd(1)]) simp_all
  with u(2) have kv: "kept g w ?v" by (rule kept_trans)
  with can have v: "can_disband g ?v" using can_disband_kept by blast
  let ?x = "foldl (\<lambda>w p. SetGroupInvite None p w) ?v (m_invitees (grp g ?v))"
  let ?y = "upd_group g (\<lambda>G. G\<lparr>m_invitees := []\<rparr>) ?x"
  have x: "RemoveAllInvites g ?v = Inr ?y"
    using v by (auto simp: RemoveAllInvites_def can_disband_def list_all_iff list_ex_iff)
  have kx: "kept g w ?x" by (rule kept_trans [OF kv foldl_SetGroupInvite_kept])
  then have cx: "can_disband g ?x" using can can_disband_kept by blast
  have y: "g_guid (grp g ?y) = g_guid (grp g ?x)" "m_dbStoreId (grp g ?y) = m_dbStoreId (grp g ?x)"
    "isBGGroup (grp g ?y) = isBGGroup (grp g ?x)" "isBFGroup (grp g ?y) = isBFGroup (grp g ?x)" "gw_mgr ?y = gw_mgr ?x"
    by (auto simp: grp_def upd_group_def isBGGroup_def isBFGroup_def split: option.splits)
  from cx have "isBGGroup (grp g ?y) \<or> isBFGroup (grp g ?y) \<or> unat (m_dbStoreId (grp g ?y)) < length (GroupDbStore (gw_mgr ?y))"
    unfolding y by (simp add: can_disband_def)
  from disband_store_frees [OF this] obtain z where z: "disband_store g ?y = Inr z" "gw_groups z = gw_groups ?y"
    "gw_players z = gw_players ?y"
    "isBGGroup (grp g ?y) \<or> isBFGroup (grp g ?y) \<or> GetGroupByDbStoreId (m_dbStoreId (grp g ?y)) (gw_mgr z) = None" by blast
  have run: "Disband e b g w = Inr (group_delete g (mgr_RemoveGroup g z))"
    using u(1) x z(1) by (simp add: Disband_def Let_def)
  have gz: "grp g z = grp g ?y" using z(2) by (rule grp_cong)
  have inv: "invite_of (mgr_RemoveGroup g z) p = invite_of ?x p" for p
    using z(3) by (simp add: mgr_RemoveGroup_def upd_mgr_def invite_of_def upd_group_def)
  have "released g w (group_delete g (mgr_RemoveGroup g z))"
    unfolding released_def group_delete_keeps inv
  proof (intro conjI ballI)
    show "GetGroupByGUID (GUID_LOPART (g_guid (grp g w))) (gw_mgr (mgr_RemoveGroup g z)) = None"
      using kx by (simp add: GetGroupByGUID_def mgr_RemoveGroup_def upd_mgr_def gz y kept_def)
    show "isBGGroup (grp g w) \<or> isBFGroup (grp g w) \<or>
        GetGroupByDbStoreId (m_dbStoreId (grp g w)) (gw_mgr (mgr_RemoveGroup g z)) = None"
      using z(4) kx unfolding y by (auto simp: kept_def isBGGroup_def isBFGroup_def mgr_RemoveGroup_def upd_mgr_def GetGroupByDbStoreId_def)
    fix p assume "p \<in> set (m_invitees (grp g w))"
    then show "invite_of ?x p = None" using kv by (simp add: invite_of_withdrawn kept_def)
  qed
  with run show ?thesis by blast
qed

lemma group_delete_gone: "gw_groups (group_delete g w) g = None" "h \<noteq> g \<Longrightarrow> cores (group_delete g w) h = cores w h"
  by (simp_all add: group_delete_def Let_def cores_def split: option.split)

lemma group_delete_plain:
  "m_memberMgr (grp g w) = [] \<Longrightarrow> m_bgGroup (grp g w) = None \<Longrightarrow>
     group_delete g w = w\<lparr>gw_groups := (gw_groups w)(g := None)\<rparr>"
  by (simp add: group_delete_def clear_references_def)

lemma Disband_gone: "Disband e b g w = Inr w' \<Longrightarrow> gw_groups w' g = None"
  by (auto simp: Disband_def Let_def group_delete_gone elim!: rbind_InrE)

lemma party_can_disband: "party_of_two me p g w \<Longrightarrow> can_disband g w"
  by (auto simp: party_of_two_def can_disband_def grp_def GetGroupByDbStoreId_def split: option.splits if_splits)

end
