(* ===== verification/Group_Removal.thy ===== *)
theory Group_Removal
  imports Group_Disbanding
begin

text \<open>
  Removing a member: \<^verbatim>\<open>Group::RemoveMember\<close> returns, and the player is not a member of the group
  afterwards, whether the group lives on or is disbanded.
\<close>

section \<open>Votes of who leaves\<close>

lemma roll_index_first:
  assumes "i < length (RollId G)" and "itemGUID (RollId G ! i) = guid" and "distinct (map itemGUID (RollId G))"
  shows "roll_index guid G = (if roll_isValid (RollId G ! i) then Some i else None)"
proof -
  have u: "itemGUID (RollId G ! j) = guid \<Longrightarrow> j < length (RollId G) \<Longrightarrow> j = i" for j
    using assms by (auto simp: distinct_conv_nth)
  show ?thesis
  proof (cases "roll_index guid G")
    case None
    with assms show ?thesis by (auto simp: roll_index_def find_None_iff)
  next
    case (Some j)
    then have "j < length (RollId G)" "itemGUID (RollId G ! j) = guid" "roll_isValid (RollId G ! j)"
      by (auto simp: roll_index_def find_Some_iff)
    with u Some show ?thesis by auto
  qed
qed

text \<open>What a leaving player's votes become.\<close>

definition without_voter :: "u64 \<Rightarrow> Roll \<Rightarrow> Roll" where
  "without_voter guid r = (case sm_find (playerVote r) guid of None \<Rightarrow> r | Some v \<Rightarrow> withdraw_vote guid v r)"

lemma without_voter_simps [simp]:
  "itemGUID (without_voter guid r) = itemGUID r" "sm_find (playerVote (without_voter guid r)) guid = None"
  by (auto simp: without_voter_def withdraw_vote_def Let_def split: option.split)

lemma CountRollVote_no_voter:
  assumes "gw_groups w g \<noteq> None" and "i < length (RollId (grp g w))" and "distinct (map itemGUID (RollId (grp g w)))"
    and "sm_find (playerVote (RollId (grp g w) ! i)) p = None"
  shows "CountRollVote e p (itemGUID (RollId (grp g w) ! i)) c g w = Inr w"
  using roll_index_first [OF assms(2) refl assms(3)] assms(4) by (simp add: CountRollVote_def Let_def)

lemma upd_group_fuse: "upd_group g f (upd_group g h w) = upd_group g (f \<circ> h) w"
  by (simp add: upd_group_def option.map_comp)

text \<open>The votes are withdrawn from the rolls, and that is all: no roll is counted.\<close>

lemma remove_from_rolls_result:
  assumes "gw_groups w g \<noteq> None" and "\<forall>i\<in>set is. i < length (RollId (grp g w))"
    and "distinct (map itemGUID (RollId (grp g w)))"
  shows "remove_from_rolls e guid is g w = Inr (upd_group g
    (\<lambda>G. G\<lparr>RollId := foldl (\<lambda>rs i. rs[i := without_voter guid (rs ! i)]) (RollId G) is\<rparr>) w)"
  using assms
proof (induction "is" arbitrary: w)
  case Nil
  show ?case by (simp add: upd_group_def option.map_ident fun_upd_idem)
next
  case (Cons i "is")
  let ?r = "RollId (grp g w) ! i"
  have i: "i < length (RollId (grp g w))" using Cons.prems(2) by simp
  let ?u = "upd_group g (\<lambda>G. G\<lparr>RollId := (RollId G)[i := without_voter guid (RollId G ! i)]\<rparr>) w"
  have rs: "RollId (grp g ?u) = (RollId (grp g w))[i := without_voter guid ?r]" using Cons.prems(1) by simp
  have al: "gw_groups ?u g \<noteq> None" using Cons.prems(1) by simp
  have "map itemGUID ((RollId (grp g w))[i := without_voter guid ?r]) = map itemGUID (RollId (grp g w))"
    by (simp add: map_update list_update_same_conv i)
  then have d: "distinct (map itemGUID (RollId (grp g ?u)))" using Cons.prems(3) rs by simp
  have "\<forall>j\<in>set is. j < length (RollId (grp g ?u))" using Cons.prems(2) rs by simp
  note IH = Cons.IH [OF al this d]
  have "remove_from_rolls e guid (i # is) g w = remove_from_rolls e guid is g ?u"
  proof (cases "sm_find (playerVote ?r) guid")
    case None
    then have "without_voter guid ?r = ?r" by (simp add: without_voter_def)
    then have "?u = w" using Cons.prems(1)
      by (auto simp: upd_group_def grp_def fun_upd_idem_iff)
    with None show ?thesis by simp
  next
    case (Some v)
    have u: "upd_roll i (withdraw_vote guid v) g w = ?u"
      using Cons.prems(1) Some by (auto simp: upd_roll_def upd_group_def grp_def without_voter_def)
    have "CountRollVote e guid (itemGUID (RollId (grp g ?u) ! i)) MAX_ROLL_TYPE g ?u = Inr ?u"
      by (rule CountRollVote_no_voter [OF al _ d]) (simp_all add: rs i)
    with Some show ?thesis by (simp add: Let_def u)
  qed
  also have "\<dots> = Inr (upd_group g (\<lambda>G. G\<lparr>RollId := foldl (\<lambda>rs i. rs[i := without_voter guid (rs ! i)]) (RollId G) (i # is)\<rparr>) w)"
    unfolding IH upd_group_fuse by (simp add: o_def)
  finally show ?case .
qed

lemma remove_from_rolls_only_withdraws:
  assumes "gw_groups w g \<noteq> None" and "\<forall>i\<in>set is. i < length (RollId (grp g w))"
    and "distinct (map itemGUID (RollId (grp g w)))"
  shows "\<exists>w'. remove_from_rolls e guid is g w = Inr w' \<and> gw_groups w' g \<noteq> None \<and> gw_out w' = gw_out w \<and>
    RollId (grp g w') = foldl (\<lambda>rs i. rs[i := without_voter guid (rs ! i)]) (RollId (grp g w)) is"
  unfolding remove_from_rolls_result [OF assms] using assms(1) by (auto simp: upd_group_def grp_def)

section \<open>The roster\<close>

text \<open>Who is a member, in order, and the rolls: leaving players change neither before their slot is erased.\<close>

definition roster :: "nat \<Rightarrow> group_world \<Rightarrow> u64 list \<times> Roll list" where
  "roster g w = (map slot_guid (m_memberSlots (grp g w)), RollId (grp g w))"

lemma roster_upd:
  "(\<And>G. m_memberSlots (f G) = m_memberSlots G \<and> RollId (f G) = RollId G) \<Longrightarrow> roster g (upd_group h f w) = roster g w"
  "roster g (upd_player p k w) = roster g w" "roster g (gw_emit es w) = roster g w"
  by (simp_all add: roster_def grp_def upd_group_def upd_player_def gw_emit_def split: option.split)

lemma roster_ref [simp]: "roster g (ref_unlink k p w) = roster g w" "roster g (ref_link k h p w) = roster g w"
proof -
  show u: "roster g (ref_unlink j p v) = roster g v" for j v
    by (simp add: ref_unlink_def Let_def roster_upd split: option.split)
  show "roster g (ref_link k h p w) = roster g w"
    by (simp add: ref_link_def Let_def roster_upd u)
qed

lemma roster_leave [simp]: "roster g (leave_player e p meth h w) = roster g w"
  by (auto simp: leave_player_def detach_player_def RemoveFromBattlegroundOrBattlefieldRaid_def homebindIfInstance_def Let_def
      roster_upd split: option.split)

lemma roster_Delink [simp]: "roster g (DelinkMember p h w) = roster g w"
  by (auto simp: DelinkMember_def split: option.split)

lemma roster_ResetMax [simp]: "roster g (ResetMaxEnchantingLevel e h w) = roster g w"
  by (simp add: ResetMaxEnchantingLevel_def roster_upd)

lemma kept_leave [simp]: "kept g w (leave_player e p meth h w)"
  by (auto simp: leave_player_def Let_def kept_steps kept_step [OF kept_homebind])

lemma kept_Delink [simp]: "kept g w (DelinkMember p h w)"
  by (auto simp: DelinkMember_def split: option.split)

lemma kept_ResetMax [simp]: "kept g w (ResetMaxEnchantingLevel e h w)"
  by (simp add: ResetMaxEnchantingLevel_def kept_upd)

text \<open>The world up to the rolls.\<close>

definition after_leave :: "group_env \<Rightarrow> u64 \<Rightarrow> u32 \<Rightarrow> nat \<Rightarrow> group_world \<Rightarrow> group_world" where
  "after_leave e guid meth g w =
     (let l = leave_player e guid meth g w;
          d = (if \<not> isBGGroup (grp g w) \<and> \<not> isBFGroup (grp g w)
               then DelinkMember guid g (gw_emit [GSql (DeleteGroupMember (GUID_LOPART guid))] l) else l)
      in if find_player w guid = None \<or> pa_enchanting (ge_attr e guid) \<noteq> 0 then ResetMaxEnchantingLevel e g d else d)"

lemma after_leave_keeps:
  "kept g w (after_leave e guid meth h w)" "roster g (after_leave e guid meth h w) = roster g w"
  "relink w (after_leave e guid meth h w)"
proof -
  let ?l = "leave_player e guid meth h w"
  let ?d = "if \<not> isBGGroup (grp h w) \<and> \<not> isBFGroup (grp h w)
      then DelinkMember guid h (gw_emit [GSql (DeleteGroupMember (GUID_LOPART guid))] ?l) else ?l"
  have "kept g w ?d" "roster g ?d = roster g w"
    by (simp_all add: kept_step [OF kept_Delink] kept_steps roster_upd)
  then show "kept g w (after_leave e guid meth h w)" "roster g (after_leave e guid meth h w) = roster g w"
    by (simp_all add: after_leave_def Let_def kept_step [OF kept_ResetMax])
  have "relink w (gw_emit es ?l)" for es by (rule relink_quiet [OF relink_leave quiet_emit])
  then have "relink w ?d" by (auto intro: relink_trans [OF _ relink_Delink])
  then show "relink w (after_leave e guid meth h w)" unfolding after_leave_def Let_def by (auto intro: relink_quiet)
qed

section \<open>Erasing the slot\<close>

lemma erase_slot_gone: "distinct (map slot_guid ss) \<Longrightarrow> guid \<notin> slot_guid ` set (erase_slot guid ss)"
  by (induction ss) auto

lemma erase_slot_absent: "find (\<lambda>s. slot_guid s = guid) ss = None \<Longrightarrow> erase_slot guid ss = ss"
  by (induction ss) (auto split: if_splits)

lemma bump_keeps:
  "bump f sg G = Inr G' \<Longrightarrow> m_memberSlots G' = m_memberSlots G \<and> m_invitees G' = m_invitees G \<and> m_dbStoreId G' = m_dbStoreId G \<and>
     g_guid G' = g_guid G \<and> m_bgGroup G' = m_bgGroup G \<and> m_bfGroup G' = m_bfGroup G"
  by (auto simp: bump_def split: option.splits if_splits)

lemma remove_slot_result:
  assumes "remove_slot guid G = Inr G'"
  shows "m_memberSlots G' = erase_slot guid (m_memberSlots G)"
    and "m_invitees G' = m_invitees G \<and> m_dbStoreId G' = m_dbStoreId G \<and> g_guid G' = g_guid G \<and> m_bgGroup G' = m_bgGroup G \<and>
      m_bfGroup G' = m_bfGroup G"
  using assms
  by (auto simp: remove_slot_def SubGroupCounterDecrease_def getMemberSlot_def erase_slot_absent
      elim!: rbind_InrE dest!: bump_keeps split: option.splits)

definition guids :: "nat \<Rightarrow> group_world \<Rightarrow> u64 list" where
  "guids g w = map slot_guid (m_memberSlots (grp g w))"

lemma IsMember_guids: "IsMember p (grp g w) \<longleftrightarrow> p \<in> set (guids g w)"
  by (auto simp: IsMember_def getMemberSlot_def guids_def find_None_iff)

lemma guids_upd_slot: "(\<And>s. slot_guid (f s) = slot_guid s) \<Longrightarrow> map slot_guid (upd_slot p f ss) = map slot_guid ss"
  by (induction ss) auto

lemma still_guids: "still w w' \<Longrightarrow> guids g w' = guids g w"
  using still_grp [of w w' g] by (simp add: guids_def gview_def)

lemma ChangeLeader_keeps: "guids g (ChangeLeader e p h w) = guids g w" "kept g w (ChangeLeader e p h w)"
proof -
  let ?f = "\<lambda>name G. G\<lparr>m_leaderGuid := p, m_leaderName := name,
      m_memberSlots := upd_slot p (ToggleGroupMemberFlag MEMBER_FLAG_ASSISTANT False) (m_memberSlots G)\<rparr>"
  have b: "grp g (BroadcastPacket op bs x y z h v) = grp g v" "kept g u (BroadcastPacket op bs x y z h v) = kept g u v"
    for op bs x y z v u by (simp_all add: BroadcastPacket_def kept_steps)
  have u: "guids g (upd_group h (?f name) v) = guids g v" for name v
    by (auto simp: guids_def grp_def upd_group_def guids_upd_slot ToggleGroupMemberFlag_def split: option.split)
  have k: "kept g u (upd_group h (?f name) v) = kept g u v" for name v u
    by (rule kept_step, rule kept_upd) simp
  show "guids g (ChangeLeader e p h w) = guids g w"
    using u by (auto simp: ChangeLeader_def Let_def guids_def b split: option.split)
  show "kept g w (ChangeLeader e p h w)"
    by (auto simp: ChangeLeader_def Let_def b k kept_steps split: option.split)
qed

lemma replace_leader_keeps: "guids g (replace_leader e p h w) = guids g w" "kept g w (replace_leader e p h w)"
  by (auto simp: replace_leader_def ChangeLeader_keeps split: option.split)

section \<open>Removing a member\<close>

lemma RemoveMember_removes:
  assumes ok: "world_ok w" and al: "gw_groups w g \<noteq> None" and can: "can_disband g w"
    and rolls: "distinct (map itemGUID (RollId (grp g w)))" and slots: "distinct (map slot_guid (m_memberSlots (grp g w)))"
    and kick: "\<not> (isLFGGroup (grp g w) \<and> meth = GROUP_REMOVEMETHOD_KICK)"
  shows "\<exists>b w'. group_RemoveMember e p meth kicker g w = Inr (b, w') \<and> \<not> IsMember p (grp g w')"
proof -
  let ?w = "gw_emit [GHookRemove p meth kicker] (BroadcastGroupUpdate g w)"
  have same: "grp g ?w = grp g w" "gw_groups ?w = gw_groups w" "kept g w ?w" "world_ok ?w"
    using ok by (simp_all add: BroadcastGroupUpdate_def kept_steps)
  have gone: "\<exists>w'. Disband e False g v = Inr w' \<and> \<not> IsMember p (grp g w')" if "world_ok v" "can_disband g v" for v
  proof -
    from Disband_returns [OF world_ok_link [OF that(1)] that(2)] obtain w' where w': "Disband e False g v = Inr w'" by blast
    then have "gw_groups w' g = None" by (rule Disband_gone)
    with w' show ?thesis by (simp add: grp_def IsMember_def getMemberSlot_def group_new_def)
  qed
  have c1: "\<not> (isLFGGroup (grp g ?w) \<and> meth = GROUP_REMOVEMETHOD_KICK)" using kick same(1) by simp
  have can': "can_disband g ?w" using can can_disband_kept [OF same(3)] by simp
  show ?thesis
  proof (cases "lone_limit (isBGGroup (grp g w) \<or> isLFGGroup (grp g w) \<or> isBFGroup (grp g w)) < length (m_memberSlots (grp g w))")
    case False
    then have c2: "\<not> lone_limit (isBGGroup (grp g ?w) \<or> isLFGGroup (grp g ?w) \<or> isBFGroup (grp g ?w)) < length (m_memberSlots (grp g ?w))"
      using same(1) by simp
    have "group_RemoveMember e p meth kicker g w = disband_false e g ?w"
      unfolding group_RemoveMember_def Let_def if_not_P [OF c1] if_not_P [OF c2] by (rule refl)
    with gone [OF same(4) can'] show ?thesis by (auto simp: disband_false_def)
  next
    case c2: True
    let ?r = "after_leave e p meth g ?w"
    have rel: "relink ?w ?r" and ros: "roster g ?r = roster g w" and kr: "kept g w ?r"
      using after_leave_keeps(1) [of g ?w e p meth g] kept_trans [OF same(3)] after_leave_keeps(2) [of g e p meth g ?w] same(1)
      by (simp_all add: after_leave_keeps(3) roster_def)
    have rok: "world_ok ?r" by (rule relink_world [OF rel same(4)])
    have ral: "gw_groups ?r g \<noteq> None" using relink_alive [OF rel] al same(2) by simp
    let ?n = "[0..<length (RollId (grp g ?r))]"
    have "distinct (map itemGUID (RollId (grp g ?r)))" using ros rolls by (simp add: roster_def)
    from remove_from_rolls_result [OF ral _ this, of ?n e p] obtain f where
      u: "remove_from_rolls e p ?n g ?r = Inr (upd_group g (\<lambda>G. G\<lparr>RollId := f G\<rparr>) ?r)" by auto
    let ?u = "upd_group g (\<lambda>G. G\<lparr>RollId := f G\<rparr>) ?r"
    have uok: "world_ok ?u" by (rule quiet_world [OF quiet_remove_from_rolls [OF u] rok])
    have ual: "gw_groups ?u g \<noteq> None" using ral by simp
    have ug: "guids g ?u = guids g w" using ros ral by (simp add: guids_def roster_def)
    from remove_slot_ok [OF world_ok_core [OF uok ual], of p] obtain G' where
      G': "remove_slot p (grp g ?u) = Inr G'" by blast
    let ?v = "upd_group g (\<lambda>_. G') ?u"
    have v: "on_group g (remove_slot p) ?u = Inr ?v" using G' by (simp add: on_group_def)
    have vok: "world_ok ?v"
      by (rule on_group_world [OF v uok]) (use remove_slot_ok [OF world_ok_core [OF uok ual], of p] in auto)
    have gv: "grp g ?v = G'" using ual by simp
    have "map slot_guid (m_memberSlots (grp g ?u)) = map slot_guid (m_memberSlots (grp g w))" using ug by (simp add: guids_def)
    with slots have d: "distinct (map slot_guid (m_memberSlots (grp g ?u)))" by (simp only:)
    have nv: "p \<notin> set (guids g ?v)"
      unfolding guids_def gv remove_slot_result(1) [OF G'] set_map by (rule erase_slot_gone [OF d])
    have "kept g ?r ?u" by (rule kept_upd) simp
    moreover have "kept g ?u ?v"
      using remove_slot_result(2) [OF G'] gv by (simp add: kept_def)
    ultimately have kv: "kept g w ?v" using kr kept_trans by blast
    let ?x = "SendRaidMarkerUpdateToPlayer p True g (SendUpdate e g (replace_leader e p g ?v))"
    have st: "still (replace_leader e p g ?v) ?x" by (simp add: still_steps)
    have nx: "\<not> IsMember p (grp g ?x)"
      using nv unfolding IsMember_guids still_guids [OF st] replace_leader_keeps(1) .
    have "kept g w ?x" by (rule kept_trans [OF kept_trans [OF kv replace_leader_keeps(2)] still_kept [OF st]])
    then have cx: "can_disband g ?x" using can can_disband_kept by blast
    have "quiet ?v (replace_leader e p g ?v)" by (simp add: replace_leader_def split: option.split)
    with vok have xok: "world_ok ?x" by (simp add: world_ok_step)
    let ?fin = "\<lambda>w. if lfg_leftover e g w then disband_false e g w
        else if length (m_memberMgr (grp g w)) < lone_limit (isLFGGroup (grp g w) \<or> isBGGroup (grp g w))
        then rbind (Disband e False g w) (\<lambda>w. Inr (True, w)) else Inr (True, w)"
    have c2': "lone_limit (isBGGroup (grp g ?w) \<or> isLFGGroup (grp g ?w) \<or> isBFGroup (grp g ?w)) < length (m_memberSlots (grp g ?w))"
      using c2 same(1) by simp
    have "group_RemoveMember e p meth kicker g w = rbind (remove_from_rolls e p ?n g ?r) (\<lambda>w.
        rbind (on_group g (remove_slot p) w) (\<lambda>w.
        ?fin (SendRaidMarkerUpdateToPlayer p True g (SendUpdate e g (replace_leader e p g w)))))"
      unfolding group_RemoveMember_def after_leave_def Let_def if_not_P [OF c1] if_P [OF c2'] by (rule refl)
    then have run: "group_RemoveMember e p meth kicker g w = ?fin ?x" unfolding u v rbind_def sum.case .
    from gone [OF xok cx] nx show ?thesis unfolding run by (auto simp: disband_false_def)
  qed
qed

end
