(* ===== verification/Group_Properties.thy ===== *)
theory Group_Properties
  imports Group_Removal
begin

text \<open>
  The properties of groups, with an example in which their hypotheses hold: players 1, 2 and 3, whose
  names are the bytes 1, 2 and 3, log in; player 1 invites player 2, who accepts.
\<close>

section \<open>An example\<close>

definition example_attr :: player_attr where
  "example_attr = \<lparr>pa_enchanting = 0, pa_level = 80, pa_team = 0, pa_gm = False, pa_alive = True,
     pa_inBattleground = False, pa_inCombat = False, pa_mapId = 0, pa_dungeonMap = False,
     pa_instanceable = False, pa_instanceId = 0, pa_near = True, pa_allowLowLevelRaid = False\<rparr>"

definition example_env :: group_env where
  "example_env = \<lparr>ge_attr = (\<lambda>_. example_attr), ge_lfg = (\<lambda>_. \<lparr>la_finished = False, la_boot = False,
     la_dungeon = 0, la_dungeonMapId = 0, la_kicksLeft = 0\<rparr>), ge_boundInstance = (\<lambda>_ _. None),
     ge_ignores = (\<lambda>_ _. False), ge_playerName = (\<lambda>_. None), ge_normalize = Some,
     ge_findByName = (\<lambda>n. if n = [] then None else Some (ucast (hd n))), ge_guidByName = (\<lambda>_. 0),
     ge_dynObjEntry = (\<lambda>_. None), ge_urand = (\<lambda>i p. ucast p), ge_canStore = (\<lambda>_ _ _. 0),
     ge_allowed = (\<lambda>_ _. True), ge_canRollLfg = (\<lambda>_ _. True),
     ge_item = (\<lambda>_. Some \<lparr>it_Quality = 4, it_DisenchantID = 0, it_RequiredDisenchantSkill = 0, it_needDisabled = False\<rparr>),
     ge_guildNews = (\<lambda>_ _. False), ge_garbage = 0, ge_allowGmGroup = True, ge_allowTwoSide = True,
     ge_minRaidLevel = 10\<rparr>"

definition example_player :: "u8 \<Rightarrow> gplayer" where
  "example_player k = \<lparr>gp_name = [k], gp_inWorld = True, m_group = None, gp_subGroup = 0, m_originalGroup = None,
     gp_originalSubGroup = 0, m_groupInvite = None, m_InstanceValid = True, gp_dungeonDifficulty = 0,
     gp_raidDifficulty = 0, m_bPassOnGroupLoot = False\<rparr>"

definition example_world :: group_world where
  "example_world = (group_start 1)\<lparr>gw_players := [1 \<mapsto> example_player 1, 2 \<mapsto> example_player 2, 3 \<mapsto> example_player 3]\<rparr>"

lemma example_login:
  "gw_players w p = None \<Longrightarrow> player_login example_env p (example_player k) None w =
     Inr (w\<lparr>gw_players := (gw_players w)(p \<mapsto> example_player k)\<rparr>)"
  by (simp add: player_login_def example_player_def)

lemma example_reachable: "grp_reachable example_world"
proof -
  let ?w = "\<lambda>f. (group_start 1)\<lparr>gw_players := f\<rparr>"
  have login: "grp_reachable (?w f) \<Longrightarrow> f p = None \<Longrightarrow> grp_reachable (?w (f(p \<mapsto> example_player k)))" for f p k
    using grp_reachable.Step [OF _ grp_step.Login [of "?w f" p example_env "example_player k" None]]
    by (simp add: example_login)
  have "grp_reachable (?w (\<lambda>_. None))"
    using grp_reachable.Start [of 1] by (simp add: group_start_def)
  then have "grp_reachable (?w [1 \<mapsto> example_player 1])" by (rule login) simp
  then have "grp_reachable (?w [1 \<mapsto> example_player 1, 2 \<mapsto> example_player 2])" by (rule login) simp
  then have "grp_reachable (?w [1 \<mapsto> example_player 1, 2 \<mapsto> example_player 2, 3 \<mapsto> example_player 3])" by (rule login) simp
  then show ?thesis by (simp add: example_world_def)
qed

lemma example_ungrouped: "p \<in> {1, 2, 3} \<Longrightarrow> ungrouped example_world p"
  by (auto simp: ungrouped_def example_world_def example_player_def)

lemma example_names: "ge_normalize example_env [k] = Some [k]" "ge_findByName example_env [k] = Some (ucast k)"
  by (simp_all add: example_env_def)

lemma example_welcome: "p \<in> {1, 2, 3} \<Longrightarrow> q \<in> {1, 2, 3} \<Longrightarrow> invite_refused example_env p q example_world = None"
  by (auto simp: invite_refused_def example_env_def example_attr_def example_world_def example_player_def)

lemma example_party: "\<exists>w. grp_reachable w \<and> party_of_two 1 2 0 w"
proof -
  have n: "gw_next example_world = 0" by (simp add: example_world_def group_start_def)
  from form_party [of 1 2 example_world example_env "[2]" "[2]" example_env]
  obtain w1 w2 where s: "HandleGroupInvite example_env 1 [2] example_world = Inr w1"
      "HandleGroupInviteResponse example_env 2 True w1 = Inr w2" "party_of_two 1 2 0 w2"
    using example_ungrouped [of 1] example_ungrouped [of 2] example_welcome [of 1 2] by (auto simp: example_names n)
  have "grp_reachable w2"
    by (rule grp_reachable.Step [OF grp_reachable.Step [OF example_reachable grp_step.Invite [OF s(1)]] grp_step.Response [OF s(2)]])
  with s(3) show ?thesis by blast
qed

section \<open>Limits and references\<close>

text \<open>C2: In every reachable world each group has at most 5 members, or 40 and counters of its
  subgroups if it is a raid; the counters are the numbers of members of the subgroups, at most 5
  each; and no target carries two icons.\<close>

theorem groups_within_limits:
  assumes "grp_reachable w" and "gw_groups w g = Some G"
  shows "length (m_memberSlots G) \<le> (if isRaidGroup G then MAXRAIDSIZE else MAXGROUPSIZE) \<and>
    (case m_subGroupsCounts G of
       None \<Rightarrow> \<not> isRaidGroup G
     | Some cs \<Rightarrow> isRaidGroup G \<and>
         map unat cs = map (\<lambda>i. length (filter (\<lambda>s. unat (slot_group s) = i) (m_memberSlots G))) [0..<MAX_RAID_SUBGROUPS] \<and>
         (\<forall>c\<in>set cs. unat c \<le> MAXGROUPSIZE)) \<and>
    (\<forall>s\<in>set (m_memberSlots G). unat (slot_group s) < MAX_RAID_SUBGROUPS) \<and>
    length (m_targetIcons G) = TARGETICONCOUNT \<and> distinct (filter (\<lambda>t. t \<noteq> 0) (m_targetIcons G))"
proof -
  have c: "core_ok (core G)" using world_ok_core [OF reachable_world [OF assms(1)], of g] assms(2) by (simp add: grp_alive)
  have l: "length (m_memberSlots G) \<le> (if m_subGroupsCounts G = None then MAXGROUPSIZE else MAXRAIDSIZE)"
    using core_ok_length [OF c] by (simp add: core_def)
  have n: "count_in (map slot_group (m_memberSlots G)) i = length (filter (\<lambda>s. unat (slot_group s) = i) (m_memberSlots G))" for i
    by (simp add: count_in_def filter_map o_def)
  have "map unat cs = map (\<lambda>i. length (filter (\<lambda>s. unat (slot_group s) = i) (m_memberSlots G))) [0..<MAX_RAID_SUBGROUPS] \<and>
      (\<forall>c\<in>set cs. unat c \<le> MAXGROUPSIZE)" if "m_subGroupsCounts G = Some cs" for cs
    using c that by (auto simp: core_ok_core counts_ok_def n list_eq_iff_nth_eq in_set_conv_nth)
  with c l show ?thesis by (auto simp: core_ok_core icons_ok_def split: option.split)
qed

lemma groups_within_limits_witness:
  "\<exists>w G. grp_reachable w \<and> gw_groups w 0 = Some G \<and> length (m_memberSlots G) = 2 \<and> m_subGroupsCounts G = None"
proof -
  from example_party obtain w G where "grp_reachable w" "gw_groups w 0 = Some G" "map slot_guid (m_memberSlots G) = [1, 2]"
    "\<not> isRaidGroup G" by (auto simp: party_of_two_def split: option.splits)
  moreover have "length (m_memberSlots G) = 2" using arg_cong [OF calculation(3), of length] by simp
  moreover from groups_within_limits [OF calculation(1,2)] calculation(4) have "m_subGroupsCounts G = None"
    by (auto split: option.splits)
  ultimately show ?thesis by blast
qed

text \<open>C4: In every reachable world the group pointers of players and the reference lists of groups
  agree, without duplicates: a player never keeps a pointer to a deleted group.\<close>

theorem group_references_agree:
  assumes "grp_reachable w"
  shows "(target_of w p k = Some g \<longleftrightarrow> (\<exists>G. gw_groups w g = Some G \<and> (p, k) \<in> set (m_memberMgr G))) \<and>
    (\<forall>h G. gw_groups w h = Some G \<longrightarrow> distinct (m_memberMgr G))"
proof -
  have l: "link_ok w" by (rule world_ok_link [OF reachable_world [OF assms]])
  show ?thesis
    using link_ok_target [OF l, of p k g] link_ok_refs [OF l] by (auto simp: refs_def)
qed

lemma group_references_agree_witness:
  "\<exists>w. grp_reachable w \<and> target_of w 2 GroupRef = Some 0 \<and> (\<exists>G. gw_groups w 0 = Some G \<and> (2, GroupRef) \<in> set (m_memberMgr G))"
proof -
  from example_party obtain w where w: "grp_reachable w" "party_of_two 1 2 0 w" by blast
  then have "target_of w 2 GroupRef = Some 0" by (simp add: party_of_two_def group_of_target)
  with group_references_agree [OF w(1), of 2 GroupRef 0] w(1) show ?thesis by blast
qed

text \<open>The other groups while one is disbanded.\<close>

lemma Disband_others:
  assumes run: "Disband e b g w = Inr w'"
  shows "gw_groups w' g = None" "h \<noteq> g \<Longrightarrow> cores w' h = cores w h"
proof -
  let ?w = "gw_emit [GHookDisband] w"
  let ?f = "\<lambda>G. G\<lparr>m_dynObj := [], RollId := [], m_memberSlots := []\<rparr>"
  from run obtain u v x where u: "disband_members e b g (map slot_guid (m_memberSlots (grp g ?w))) ?w = Inr u"
    and v: "RemoveAllInvites g (upd_group g ?f (RemoveMarker e g (SendRaidMarkerUpdate g
        (upd_group g (SetGroupMarkerMask 0x20) u)))) = Inr v"
    and x: "disband_store g v = Inr x" and w': "w' = group_delete g (mgr_RemoveGroup g x)"
    by (auto simp: Disband_def Let_def elim!: rbind_InrE)
  show "gw_groups w' g = None" by (simp add: w' group_delete_gone)
  assume h: "h \<noteq> g"
  have "quiet v x" using x
    by (auto simp: disband_store_def Let_def quiet_step [OF quiet_upd_mgr(2)] elim!: rbind_InrE split: if_splits)
  moreover have "cores (mgr_RemoveGroup g x) = cores x"
    using quiet_upd_mgr(1) by (simp add: mgr_RemoveGroup_def quiet_def)
  ultimately have "cores w' h = cores v h" using h by (simp add: w' group_delete_gone quiet_def)
  also have "\<dots> = cores (RemoveMarker e g (SendRaidMarkerUpdate g (upd_group g (SetGroupMarkerMask 0x20) u))) h"
    using quiet_RemoveAllInvites [OF v] h by (simp add: quiet_def cores_upd_group)
  also have "\<dots> = cores u h"
  proof -
    have "quiet (upd_group g (SetGroupMarkerMask 0x20) u) (RemoveMarker e g (SendRaidMarkerUpdate g (upd_group g (SetGroupMarkerMask 0x20) u)))"
      by (rule quiet_trans [OF quiet_sends(3) quiet_RemoveMarker])
    then show ?thesis using h by (simp add: quiet_def cores_upd_group)
  qed
  also have "\<dots> = cores w h"
    using relink_disband_members [OF u] quiet_emit [of w "[GHookDisband]"] by (simp add: relink_def quiet_def)
  finally show "cores w' h = cores w h" .
qed

text \<open>C16: Disbanding a group of a reachable world returns when the invited players it lists are still in
  memory and its number is one of the store's (\<open>can_disband\<close>). It deletes the group; no player has a pointer to it,
  the players it lists as invited have no invitation any more, the manager finds it neither by its GUID nor
  by its number in the store, and neither subgroups, type, counters nor icons of another group change.\<close>

theorem Disband_releases:
  assumes "grp_reachable w" and "can_disband g w"
  shows "\<exists>w'. Disband e hideDestroy g w = Inr w' \<and> gw_groups w' g = None \<and> (\<forall>p k. target_of w' p k \<noteq> Some g) \<and>
    (\<forall>p\<in>set (m_invitees (grp g w)). invite_of w' p = None) \<and>
    GetGroupByGUID (GUID_LOPART (g_guid (grp g w))) (gw_mgr w') = None \<and>
    (isBGGroup (grp g w) \<or> isBFGroup (grp g w) \<or> GetGroupByDbStoreId (m_dbStoreId (grp g w)) (gw_mgr w') = None) \<and>
    (\<forall>h. h \<noteq> g \<longrightarrow> cores w' h = cores w h)"
proof -
  have ok: "world_ok w" by (rule reachable_world [OF assms(1)])
  from Disband_returns [OF world_ok_link [OF ok] assms(2)] obtain w' where
    run: "Disband e hideDestroy g w = Inr w'" and rel: "released g w w'" by blast
  have "link_ok w'" by (rule world_ok_link [OF Disband_world [OF run ok]])
  from link_ok_alive [OF this] run Disband_others [OF run] rel show ?thesis unfolding released_def by blast
qed

lemma Disband_releases_witness:
  "\<exists>w w'. grp_reachable w \<and> party_of_two 1 2 0 w \<and> Disband example_env False 0 w = Inr w' \<and> group_of w' 1 \<noteq> Some 0"
proof -
  from example_party obtain w where w: "grp_reachable w" "party_of_two 1 2 0 w" by blast
  from Disband_releases [OF w(1) party_can_disband [OF w(2)], of example_env False] w show ?thesis
    by (auto simp: group_of_target)
qed

section \<open>Invitations\<close>

text \<open>C7: Two players without a group or invitation form a party when one invites the other, no check
  refuses it, and the other accepts: both handlers succeed, the new group has exactly these two
  members with the inviter as the leader, both point to it, no invitation is left and the group is
  found by its number and by its number in the store.\<close>

theorem invitation_forms_party:
  assumes "me \<noteq> p" and "ungrouped w me" and "ungrouped w p"
    and "ge_normalize e n = Some name" and "ge_findByName e name = Some p" and "invite_refused e me p w = None"
  shows "\<exists>w1 w2. HandleGroupInvite e me n w = Inr w1 \<and> HandleGroupInviteResponse e' p True w1 = Inr w2 \<and>
    party_of_two me p (gw_next w) w2"
  by (rule form_party [OF assms])

lemma invitation_forms_party_witness:
  "\<exists>w1 w2. HandleGroupInvite example_env 1 [2] example_world = Inr w1 \<and>
     HandleGroupInviteResponse example_env 2 True w1 = Inr w2 \<and> party_of_two 1 2 0 w2"
proof -
  have n: "gw_next example_world = 0" by (simp add: example_world_def group_start_def)
  show ?thesis
    using invitation_forms_party [of 1 2 example_world example_env "[2]" "[2]" example_env]
      example_ungrouped [of 1] example_ungrouped [of 2] example_welcome [of 1 2] by (auto simp: example_names n)
qed

text \<open>C33: A player without a group who invites himself is left with an invitation to a group that has
  been deleted: answering it, or logging out, follows the dangling pointer.\<close>

theorem self_invite_dangles:
  assumes "ungrouped w me" and "ge_normalize e n = Some name" and "ge_findByName e name = Some me"
    and "invite_refused e me me w = None"
  shows "\<exists>w1. HandleGroupInvite e me n w = Inr w1 \<and> invite_of w1 me = Some (gw_next w) \<and> gw_groups w1 (gw_next w) = None \<and>
    HandleGroupInviteResponse e' me acc w1 = Inl DanglingGroup \<and> player_logout e' me socket w1 = Inl DanglingGroup"
proof -
  from assms(1) obtain pl where pl: "gw_players w me = Some pl" "gp_inWorld pl" "m_group pl = None" "m_groupInvite pl = None"
    "m_originalGroup pl = None" by (auto simp: ungrouped_def split: option.splits)
  let ?g = "gw_next w"
  obtain u where u: "group_alloc e w = (?g, u)" and us: "gw_groups u ?g = Some (group_new (ge_garbage e))"
    "gw_players u = gw_players w" by (auto simp: group_alloc_def)
  let ?v = "gw_emit [GHookInvite me] (SetGroupInvite (Some ?g) me
    (upd_group ?g (\<lambda>G. G\<lparr>m_invitees := ss_insert me (m_invitees G)\<rparr>) (RemoveInvite me ?g u)))"
  have a: "AddInvite me ?g u = Inr (True, ?v)" by (rule AddInvite_free) (use pl us in simp_all)
  let ?x = "upd_group ?g (\<lambda>G. G\<lparr>m_leaderGuid := me, m_leaderName := (case gw_players ?v me of Some pl \<Rightarrow> gp_name pl | None \<Rightarrow> [])\<rparr>) ?v"
  have inv: "invite_of ?x me = Some ?g" using pl us
    by (simp add: invite_of_def SetGroupInvite_def RemoveInvite_def)
  then have b: "AddInvite me ?g ?x = Inr (False, ?x)" by (simp add: AddInvite_def)
  have run: "HandleGroupInvite e me n w = Inr (group_delete ?g ?x)"
    using pl assms u a b
    by (simp add: HandleGroupInvite_def find_player_def bg_or_original_def group_of_def invite_of_def
        invite_to_group_def AddLeaderInvite_def Let_def)
  have mgr: "m_memberMgr (grp ?g ?x) = []" "m_bgGroup (grp ?g ?x) = None"
    using us pl by (simp_all add: SetGroupInvite_def RemoveInvite_def grp_def group_new_def)
  have d: "invite_of (group_delete ?g ?x) me = Some ?g" "gw_groups (group_delete ?g ?x) ?g = None"
    unfolding group_delete_plain [OF mgr] using inv by (simp_all add: invite_of_def)
  then show ?thesis unfolding run
    by (simp add: HandleGroupInviteResponse_def through_def player_logout_def UninviteFromGroup_def)
qed

lemma self_invite_dangles_witness:
  "\<exists>w1. HandleGroupInvite example_env 3 [3] example_world = Inr w1 \<and>
     player_logout example_env 3 True w1 = Inl DanglingGroup"
  using self_invite_dangles [of example_world 3 example_env "[3]" "[3]" example_env True True]
    example_ungrouped [of 3] example_welcome [of 3 3] by (auto simp: example_names)

section \<open>Removing members\<close>

text \<open>A raid of the three players: 1 leads, 2 is an assistant.\<close>

definition example_slot :: "u64 \<Rightarrow> u8 \<Rightarrow> MemberSlot" where
  "example_slot p flags = \<lparr>slot_guid = p, slot_name = [ucast p], slot_group = 0, slot_flags = flags, slot_roles = 0\<rparr>"

definition example_group :: group where
  "example_group = (group_new 0)\<lparr>m_memberSlots := [example_slot 1 0, example_slot 2 MEMBER_FLAG_ASSISTANT, example_slot 3 0],
     m_memberMgr := [(3, GroupRef), (2, GroupRef), (1, GroupRef)], m_leaderGuid := 1, m_groupType := GROUPTYPE_RAID, m_dbStoreId := 1,
     m_subGroupsCounts := Some [3, 0, 0, 0, 0, 0, 0, 0], m_lootMethod := GROUP_LOOT\<rparr>"

definition example_raid :: group_world where
  "example_raid = (group_start 1)\<lparr>gw_groups := [0 \<mapsto> example_group], gw_next := 1,
     gw_mgr := mgr_new\<lparr>GroupDbStore := [None, Some 0]\<rparr>,
     gw_players := [1 \<mapsto> (example_player 1)\<lparr>m_group := Some 0\<rparr>, 2 \<mapsto> (example_player 2)\<lparr>m_group := Some 0\<rparr>,
       3 \<mapsto> (example_player 3)\<lparr>m_group := Some 0\<rparr>]\<rparr>"

lemma example_raid_simps:
  "gw_groups example_raid 0 = Some example_group" "grp 0 example_raid = example_group"
  "group_of example_raid 1 = Some 0" "group_of example_raid 2 = Some 0" "group_of example_raid 3 = Some 0"
  "isRaidGroup example_group" "\<not> isLFGGroup example_group"
  by (simp_all add: example_raid_def group_start_def grp_def group_of_def example_group_def isRaidGroup_def isLFGGroup_def
      GROUPTYPE_RAID_def GROUPTYPE_LFG_def)

text \<open>C36: A request to remove the leader by GUID is refused whoever of the group sends it. The same request by
  name, from an assistant of a group that is no group of the dungeon finder, who is not in a battleground,
  succeeds: the request returns and the leader is no member any more. The world satisfies the invariant
  of C2 and C4, no player has two slots and no item two rolls in the group, and it can be disbanded should too few
  members be left (\<open>can_disband\<close>, see C16).\<close>

theorem leader_removal_by_guid_and_name:
  assumes "group_of w me = Some g" and "IsAssistant me (grp g w)" and "\<not> isLFGGroup (grp g w)"
    and "\<not> pa_inBattleground (ge_attr e me)" and "gw_players w me = Some pl"
    and "ge_normalize e n = Some name" and "gp_name pl \<noteq> name"
    and "GetMemberGUID name (grp g w) = m_leaderGuid (grp g w)" and "m_leaderGuid (grp g w) \<noteq> 0"
    and "world_ok w" and "gw_groups w g \<noteq> None" and "can_disband g w"
    and "distinct (map itemGUID (RollId (grp g w)))" and "distinct (map slot_guid (m_memberSlots (grp g w)))"
  shows "(\<forall>q. group_of w q = Some g \<longrightarrow>
      (\<exists>res. HandleGroupUninviteGuid e q (m_leaderGuid (grp g w)) w
        \<in> {Inr w, Inr (SendPartyResult q PARTY_OP_UNINVITE [] res w)})) \<and>
    (\<exists>w'. HandleGroupUninvite e me n w = Inr w' \<and> \<not> IsMember (m_leaderGuid (grp g w)) (grp g w'))"
proof (intro conjI allI impI)
  fix q assume "group_of w q = Some g"
  then show "\<exists>res. HandleGroupUninviteGuid e q (m_leaderGuid (grp g w)) w
      \<in> {Inr w, Inr (SendPartyResult q PARTY_OP_UNINVITE [] res w)}"
    by (auto simp: HandleGroupUninviteGuid_def Let_def group_IsLeader_def)
next
  have "HandleGroupUninvite e me n w = RemoveFromGroup e (m_leaderGuid (grp g w)) GROUP_REMOVEMETHOD_KICK me g w"
    using assms by (simp add: HandleGroupUninvite_def CanUninviteFromGroup_def Let_def ERR_PARTY_RESULT_OK_def)
  with RemoveMember_removes [OF assms(10-14), of GROUP_REMOVEMETHOD_KICK e "m_leaderGuid (grp g w)" me] assms(3)
  show "\<exists>w'. HandleGroupUninvite e me n w = Inr w' \<and> \<not> IsMember (m_leaderGuid (grp g w)) (grp g w')"
    by (auto simp: RemoveFromGroup_def)
qed

lemma example_raid_ok: "world_ok example_raid" "can_disband 0 example_raid"
proof -
  have t: "target_of example_raid p k = Some g \<longleftrightarrow> (p, k) \<in> {(1, GroupRef), (2, GroupRef), (3, GroupRef)} \<and> g = 0" for p k g
    by (cases k) (auto simp: example_raid_def target_of_def example_player_def)
  have r: "refs example_raid g = (if g = 0 then Some [(3, GroupRef), (2, GroupRef), (1, GroupRef)] else None)" for g
    by (simp add: refs_def example_raid_def group_start_def example_group_def)
  have l: "link_ok example_raid" unfolding link_ok_def t r by (auto simp: example_raid_def)
  have all8: "(\<forall>i<8. P i) \<longleftrightarrow> P 0 \<and> P 1 \<and> P 2 \<and> P 3 \<and> P 4 \<and> P 5 \<and> P 6 \<and> P (7::nat)" for P
  proof -
    have "i < 8 \<longleftrightarrow> i = 0 \<or> i = 1 \<or> i = 2 \<or> i = 3 \<or> i = 4 \<or> i = 5 \<or> i = 6 \<or> i = 7" for i :: nat by arith
    then show ?thesis by auto
  qed
  have "core_ok (core example_group)"
    by (simp add: core_ok_def core_def example_group_def group_new_def example_slot_def icons_ok_def TARGETICONCOUNT_def
        MAX_RAID_SUBGROUPS_def MAXGROUPSIZE_def GROUPTYPE_RAID_def count_in_def all8)
  then have "groups_ok {} example_raid"
    by (auto simp: groups_ok_def cores_def example_raid_def)
  with l show "world_ok example_raid" by (simp add: world_ok_def)
  show "can_disband 0 example_raid"
    by (simp add: can_disband_def example_raid_simps) (simp add: example_raid_def example_group_def group_new_def)
qed

lemma leader_removal_by_guid_and_name_witness:
  "\<exists>w'. HandleGroupUninvite example_env 2 [1] example_raid = Inr w' \<and> \<not> IsMember 1 (grp 0 w')"
proof -
  have m: "m_leaderGuid example_group = 1" "GetMemberGUID [1] example_group = 1" "IsAssistant 2 example_group"
    "distinct (map itemGUID (RollId example_group))" "distinct (map slot_guid (m_memberSlots example_group))"
    by (simp_all add: example_group_def group_new_def GetMemberGUID_def example_slot_def IsAssistant_def getMemberSlot_def
        MEMBER_FLAG_ASSISTANT_def)
  have p: "gw_players example_raid 2 = Some ((example_player 2)\<lparr>m_group := Some 0\<rparr>)"
    by (simp add: example_raid_def)
  have e: "\<not> pa_inBattleground (ge_attr example_env 2)" "ge_normalize example_env [1] = Some [1]"
    by (simp_all add: example_env_def example_attr_def)
  show ?thesis
    using leader_removal_by_guid_and_name [of example_raid 2 0 example_env _ "[1]" "[1]", unfolded example_raid_simps, OF refl m(3) _ e(1) p e(2)]
      m example_raid_simps example_raid_ok by (simp add: example_player_def)
qed

section \<open>Assistants\<close>

lemma find_upd_slot:
  assumes "\<And>s. slot_guid (f s) = slot_guid s"
  shows "find (\<lambda>s. slot_guid s = q) (upd_slot p f ss) =
    (if q = p then map_option f (find (\<lambda>s. slot_guid s = q) ss) else find (\<lambda>s. slot_guid s = q) ss)"
  by (induction ss) (auto simp: assms)

lemma upd_slot_absent: "find (\<lambda>s. slot_guid s = p) ss = None \<Longrightarrow> upd_slot p f ss = ss"
  by (induction ss) (auto split: if_splits)

lemma SetAssistant_slots:
  assumes "gw_groups w g \<noteq> None" and "isRaidGroup (grp g w)"
  shows "m_memberSlots (grp g (SetGroupMemberFlag e p True MEMBER_FLAG_ASSISTANT g w)) =
      upd_slot p (ToggleGroupMemberFlag MEMBER_FLAG_ASSISTANT True) (m_memberSlots (grp g w))"
    "isRaidGroup (grp g (SetGroupMemberFlag e p True MEMBER_FLAG_ASSISTANT g w))"
    "gw_groups (SetGroupMemberFlag e p True MEMBER_FLAG_ASSISTANT g w) g \<noteq> None"
proof -
  let ?w = "SetGroupMemberFlag e p True MEMBER_FLAG_ASSISTANT g w"
  let ?u = "upd_group g (\<lambda>G. G\<lparr>m_memberSlots := upd_slot p (ToggleGroupMemberFlag MEMBER_FLAG_ASSISTANT True) (m_memberSlots G)\<rparr>) w"
  have u: "gw_groups ?u g \<noteq> None" "m_memberSlots (grp g ?u) = upd_slot p (ToggleGroupMemberFlag MEMBER_FLAG_ASSISTANT True) (m_memberSlots (grp g w))"
    "m_groupType (grp g ?u) = m_groupType (grp g w)" using assms by simp_all
  have "(?w = w \<and> getMemberSlot p (grp g w) = None) \<or> (\<exists>es. ?w = SendUpdate e g (gw_emit es ?u))"
    using assms by (auto simp: SetGroupMemberFlag_def Let_def MEMBER_FLAG_ASSISTANT_def MEMBER_FLAG_MAINASSIST_def MEMBER_FLAG_MAINTANK_def)
  then have "m_memberSlots (grp g ?w) = upd_slot p (ToggleGroupMemberFlag MEMBER_FLAG_ASSISTANT True) (m_memberSlots (grp g w)) \<and>
      m_groupType (grp g ?w) = m_groupType (grp g w) \<and> gw_groups ?w g \<noteq> None"
  proof (elim disjE exE conjE)
    assume "?w = w" "getMemberSlot p (grp g w) = None"
    then show ?thesis using assms(1) by (simp add: upd_slot_absent getMemberSlot_def)
  next
    fix es assume w: "?w = SendUpdate e g (gw_emit es ?u)"
    have st: "still ?u (SendUpdate e g (gw_emit es ?u))" by (simp add: still_steps)
    from gview_fields [OF still_grp [OF st, of g]] still_alive [OF st, of g] u show ?thesis unfolding w by simp
  qed
  then show "m_memberSlots (grp g ?w) = upd_slot p (ToggleGroupMemberFlag MEMBER_FLAG_ASSISTANT True) (m_memberSlots (grp g w))"
    "isRaidGroup (grp g ?w)" "gw_groups ?w g \<noteq> None"
    using assms(2) by (simp_all add: isRaidGroup_def)
qed

lemma toggled_assistant: "slot_flags (ToggleGroupMemberFlag MEMBER_FLAG_ASSISTANT True s) AND MEMBER_FLAG_ASSISTANT \<noteq> 0"
proof -
  have "(f OR 1) AND 1 = (1 :: u8)" for f by (rule bit_word_eqI) (auto simp: bit_simps)
  then show ?thesis by (simp add: ToggleGroupMemberFlag_def MEMBER_FLAG_ASSISTANT_def)
qed

lemma assistant_loop:
  assumes "gw_groups w g \<noteq> None" and "isRaidGroup (grp g w)" and "getMemberSlot p (grp g w) \<noteq> None"
    and "p \<in> set ps \<or> IsAssistant p (grp g w)"
  shows "IsAssistant p (grp g (foldl (\<lambda>w p. SetGroupMemberFlag e p True MEMBER_FLAG_ASSISTANT g w) w ps))"
  using assms
proof (induction ps arbitrary: w)
  case (Cons q ps)
  let ?v = "SetGroupMemberFlag e q True MEMBER_FLAG_ASSISTANT g w"
  note v = SetAssistant_slots [OF Cons.prems(1,2), of e q]
  have slot: "getMemberSlot p (grp g ?v) = (if p = q then map_option (ToggleGroupMemberFlag MEMBER_FLAG_ASSISTANT True) (getMemberSlot p (grp g w))
      else getMemberSlot p (grp g w))"
    by (simp add: getMemberSlot_def v(1) find_upd_slot ToggleGroupMemberFlag_def)
  have "p \<in> set ps \<or> IsAssistant p (grp g ?v)"
    using Cons.prems(3,4) toggled_assistant by (auto simp: IsAssistant_def slot split: option.splits)
  moreover have "getMemberSlot p (grp g ?v) \<noteq> None" using Cons.prems(3) slot by auto
  ultimately show ?case using Cons.IH [OF v(3,2)] by simp
qed simp

text \<open>The leader's request to make everyone an assistant and his request to undo it have the same
  effect: every member of the raid that is in the game ends up as an assistant.\<close>

theorem everyone_becomes_assistant:
  assumes "group_of w me = Some g" and "gw_groups w g \<noteq> None" and "isRaidGroup (grp g w)" and "group_IsLeader me (grp g w)"
    and "(p, k) \<in> set (m_memberMgr (grp g w))" and "IsMember p (grp g w)"
  shows "IsAssistant p (grp g (HandleSetEveryoneIsAssistant e me active w))"
proof -
  let ?v = "foldl (\<lambda>w p. SetGroupMemberFlag e p True MEMBER_FLAG_ASSISTANT g w) w (map fst (m_memberMgr (grp g w)))"
  have run: "HandleSetEveryoneIsAssistant e me active w = SendUpdate e g ?v"
    using assms(1,3,4) by (simp add: HandleSetEveryoneIsAssistant_def Let_def)
  have "p \<in> set (map fst (m_memberMgr (grp g w)))" using assms(5) by force
  with assistant_loop [of w g p] assms(2,3,6) have "IsAssistant p (grp g ?v)" by (simp add: IsMember_def)
  moreover have "m_memberSlots (grp g (SendUpdate e g ?v)) = m_memberSlots (grp g ?v)"
    using gview_fields(1) [OF still_grp [OF still_SendUpdate]] .
  ultimately show ?thesis by (simp add: run IsAssistant_def getMemberSlot_def)
qed

lemma everyone_becomes_assistant_witness:
  "IsAssistant 3 (grp 0 (HandleSetEveryoneIsAssistant example_env 1 False example_raid)) \<and> \<not> IsAssistant 3 example_group"
proof
  have m: "group_IsLeader 1 example_group" "(3, GroupRef) \<in> set (m_memberMgr example_group)" "IsMember 3 example_group"
    by (simp_all add: example_group_def group_IsLeader_def IsMember_def getMemberSlot_def example_slot_def)
  show "IsAssistant 3 (grp 0 (HandleSetEveryoneIsAssistant example_env 1 False example_raid))"
    by (rule everyone_becomes_assistant [of _ _ 0 _ GroupRef]) (simp_all add: example_raid_simps m)
  show "\<not> IsAssistant 3 example_group"
    by (simp add: example_group_def IsAssistant_def getMemberSlot_def example_slot_def)
qed

end
