(* ===== verification/Group_Loot_Properties.thy ===== *)
theory Group_Loot_Properties
  imports Group_Properties
begin

text \<open>
  The properties of loot: who wins a roll, what votes and leaving players do to it, and whose turn
  it is in a round.
\<close>

section \<open>The winner\<close>

lemma better_below:
  "n < d \<Longrightarrow> \<forall>(q, v)\<in>set xs. P v \<longrightarrow> draw e r q < d \<Longrightarrow> fst (snd (foldl (better e r P) (m, n, v0) xs)) < d"
  by (induction xs arbitrary: m n v0) (auto simp: better_def)

lemma better_stays:
  "\<forall>(q, v)\<in>set ys. P v \<longrightarrow> draw e r q \<le> n \<Longrightarrow> foldl (better e r P) (m, n, v0) ys = (m, n, v0)"
  by (induction ys) (auto simp: better_def)

lemma roll_winner_first_largest:
  assumes votes: "playerVote r = xs @ (p, v) # ys" and v: "P v" and pos: "0 < draw e r p"
    and before: "\<forall>(q, v)\<in>set xs. P v \<longrightarrow> draw e r q < draw e r p"
    and after: "\<forall>(q, v)\<in>set ys. P v \<longrightarrow> draw e r q \<le> draw e r p"
  shows "roll_winner e P r = (p, draw e r p, v)"
proof -
  obtain m n v0 where f: "foldl (better e r P) (fst (hd (playerVote r)), 0, NOT_VALID) xs = (m, n, v0)"
    by (metis prod_cases3)
  have "n < draw e r p" using better_below [OF pos before, of "fst (hd (playerVote r))" NOT_VALID] f by simp
  then have "better e r P (m, n, v0) (p, v) = (p, draw e r p, v)" using v by (simp add: better_def)
  moreover have "roll_winner e P r = foldl (better e r P) (better e r P (m, n, v0) (p, v)) ys"
    using f by (simp add: roll_winner_def votes)
  ultimately show ?thesis using better_stays [OF after] by simp
qed


section \<open>The item\<close>

text \<open>The items handed out, in order.\<close>

fun is_gift :: "group_event \<Rightarrow> bool" where
  "is_gift (GCall q (StoreNewItem a b c)) = True"
| "is_gift _ = False"

definition gifts :: "group_world \<Rightarrow> group_event list" where
  "gifts w = filter is_gift (gw_out w)"

lemma gifts_emit [simp]: "gifts (gw_emit es w) = gifts w @ filter is_gift es"
  by (simp add: gifts_def)

lemma gifts_upd [simp]: "gifts (upd_loot l f w) = gifts w" "gifts (upd_group g h w) = gifts w"
  by (simp_all add: gifts_def upd_loot_def upd_group_def)

lemma gifts_sends [simp]:
  "gifts (SendLootRoll a b n t r w) = gifts w" "gifts (SendLootRollWon a b n t r w) = gifts w"
  "gifts (NotifyItemRemoved l k w) = gifts w"
  by (simp_all add: SendLootRoll_def SendLootRollWon_def NotifyItemRemoved_def filter_map o_def split: option.split)

lemma gifts_foldl: "(\<And>w x. gifts (f w x) = gifts w) \<Longrightarrow> gifts (foldl f w xs) = gifts w"
  by (induction xs arbitrary: w) simp_all

text \<open>Announcing the numbers only sends: loot, players and gifts stay.\<close>

definition only_sends :: "group_world \<Rightarrow> group_world \<Rightarrow> bool" where
  "only_sends w w' \<longleftrightarrow> gw_loots w' = gw_loots w \<and> gw_players w' = gw_players w \<and> gw_groups w' = gw_groups w \<and> gifts w' = gifts w"

lemma only_sends_roll [simp]:
  "only_sends w (SendLootRoll a b n t r w)" "only_sends w (SendLootRollWon a b n t r w)"
  by (simp_all add: only_sends_def) (simp_all add: SendLootRoll_def SendLootRollWon_def)

lemma only_sends_foldl: "(\<And>w x. only_sends w (f w x)) \<Longrightarrow> only_sends w (foldl f w xs)"
  by (induction xs arbitrary: w) (auto simp: only_sends_def)

lemma only_sends_draws: "only_sends w (announce_draws e P r w)"
  unfolding announce_draws_def by (rule only_sends_foldl) (auto simp: only_sends_def [of w w for w])

lemma only_sends_reads:
  "only_sends w w' \<Longrightarrow> get_loot r w' = get_loot r w" "only_sends w w' \<Longrightarrow> find_player w' p = find_player w p"
  by (cases "roll_loot r") (simp_all add: only_sends_def get_loot_def find_player_def)

lemma emit_reads [simp]: "get_loot r (gw_emit es w) = get_loot r w" "find_player (gw_emit es w) p = find_player w p"
  by (cases "roll_loot r") (simp_all add: get_loot_def find_player_def)

text \<open>Taking the item marks it and counts it off.\<close>

definition item_taken :: "nat \<Rightarrow> loot_item \<Rightarrow> nat \<Rightarrow> loot \<Rightarrow> group_world \<Rightarrow> bool" where
  "item_taken s item l L w' \<longleftrightarrow> (\<exists>L'. gw_loots w' l = Some L' \<and>
     slot_item s L' = Inr (item\<lparr>is_looted := True\<rparr>) \<and> unlootedCount L' = unlootedCount L - 1)"

lemma slot_item_upd:
  "slot_item s L = Inr item \<Longrightarrow> slot_item s (upd_slot_item s f L) = Inr (f item)"
  "unlootedCount (upd_slot_item s f L) = unlootedCount L"
  by (auto simp: slot_item_def upd_slot_item_def split: if_splits)

lemma slot_item_cong: "loot_items L' = loot_items L \<Longrightarrow> quest_items L' = quest_items L \<Longrightarrow> slot_item s L' = slot_item s L"
  by (simp add: slot_item_def)

lemma take_item_taken:
  assumes "gw_loots w l = Some L" and "slot_item (unat (itemSlot r)) L = Inr item"
  shows "item_taken (unat (itemSlot r)) item l L (take_item l r w)"
proof -
  let ?L = "upd_slot_item (unat (itemSlot r)) (\<lambda>i. i\<lparr>is_looted := True\<rparr>) L"
  obtain ps where "gw_loots (take_item l r w) l =
      Some (?L\<lparr>PlayersLooting := ps, unlootedCount := unlootedCount L - 1\<rparr>)"
    using assms(1) by (simp add: take_item_def Let_def upd_loot_def NotifyItemRemoved_def gw_emit_def slot_item_upd)
  with slot_item_upd(1) [OF assms(2)] show ?thesis
    by (simp add: item_taken_def slot_item_cong [of "?L\<lparr>PlayersLooting := ps, unlootedCount := unlootedCount L - 1\<rparr>" ?L])
qed

lemma item_taken_loots: "gw_loots w' l = gw_loots w l \<Longrightarrow> item_taken s item l L w' = item_taken s item l L w"
  by (simp add: item_taken_def)

text \<open>The winner of a need roll who is in the world and has room gets the item; the roll is over.\<close>

lemma need_result_gives:
  assumes win: "roll_winner e (\<lambda>v. v = NEED) r = (p, n, v)" and p: "find_player w p \<noteq> None"
    and loot: "roll_loot r = Some l" "gw_loots w l = Some L" and item: "slot_item (unat (itemSlot r)) L = Inr item"
    and room: "ge_canStore e p (roll_itemid r) (li_count item) = EQUIP_ERR_OK"
  shows "\<exists>w'. need_result e r w = Inr w' \<and> item_taken (unat (itemSlot r)) item l L w' \<and>
    gifts w' = gifts w @ [GCall p (StoreNewItem (roll_itemid r) (li_randomPropertyId item) (li_count item))]"
proof -
  let ?u = "announce_draws e (\<lambda>v. v = NEED) r w"
  let ?v = "SendLootRollWon 0 p (ucast n) ROLL_NEED r ?u"
  let ?x = "gw_emit [GCall p (UpdateAchievementCriteria ACHIEVEMENT_CRITERIA_TYPE_ROLL_NEED_ON_LOOT (roll_itemid r))] ?v"
  let ?y = "gw_emit [GCall p (StoreNewItem (roll_itemid r) (li_randomPropertyId item) (li_count item))] (take_item l r ?x)"
  let ?z = "if ge_guildNews e p (li_itemid item) then gw_emit [GCall p (GuildNewsItemLooted (li_itemid item))] ?y else ?y"
  have v: "only_sends w ?v" using only_sends_draws [of w e "\<lambda>v. v = NEED" r] only_sends_roll(2) by (simp add: only_sends_def)
  have "get_loot r w = Inr (l, L)" using loot by (simp add: get_loot_def)
  moreover obtain pl where "find_player w p = Some pl" using p by blast
  ultimately have run: "need_result e r w = Inr ?z" using item room
    by (simp add: need_result_def win Let_def give_item_def only_sends_reads [OF v])
  have "gw_loots ?x l = Some L" using v loot(2) by (simp add: only_sends_def gw_emit_def)
  from take_item_taken [OF this item] have "item_taken (unat (itemSlot r)) item l L ?z"
    by (subst item_taken_loots [of _ _ "take_item l r ?x"]) (simp_all add: gw_emit_def)
  moreover have "gifts ?z = gifts w @ [GCall p (StoreNewItem (roll_itemid r) (li_randomPropertyId item) (li_count item))]"
    using v by (simp add: take_item_def Let_def only_sends_def)
  ultimately show ?thesis using run by blast
qed

lemma CountTheRoll_need:
  assumes r: "RollId (grp g w) ! i = r" and need: "0 < totalNeed r" "playerVote r \<noteq> []"
    and win: "roll_winner e (\<lambda>v. v = NEED) r = (p, n, v)" and p: "find_player w p \<noteq> None"
    and loot: "roll_loot r = Some l" "gw_loots w l = Some L" and item: "slot_item (unat (itemSlot r)) L = Inr item"
    and room: "ge_canStore e p (roll_itemid r) (li_count item) = EQUIP_ERR_OK"
  shows "\<exists>w'. CountTheRoll e i g w = Inr w' \<and> gw_groups w' = gw_groups (erase_roll i g w) \<and>
    item_taken (unat (itemSlot r)) item l L w' \<and>
    gifts w' = gifts w @ [GCall p (StoreNewItem (roll_itemid r) (li_randomPropertyId item) (li_count item))]"
proof -
  from need_result_gives [OF win p loot item room] obtain v where v: "need_result e r w = Inr v"
    "item_taken (unat (itemSlot r)) item l L v"
    "gifts v = gifts w @ [GCall p (StoreNewItem (roll_itemid r) (li_randomPropertyId item) (li_count item))]" by blast
  have run: "CountTheRoll e i g w = Inr (erase_roll i g v)"
    using r need loot v by (simp add: CountTheRoll_def roll_isValid_def)
  have "gifts (erase_roll i g v) = gifts v" "gw_loots (erase_roll i g v) = gw_loots v"
    by (simp_all add: erase_roll_def upd_group_def gifts_def)
  with v CountTheRoll_groups [OF run] show ?thesis unfolding run by (simp add: item_taken_def)
qed

text \<open>C10: When a roll with need votes is counted, the item goes to the first player, in the order of
  the votes, with the largest number drawn among those who voted need, if that number is positive, that player is in the game
  and has room for it, and the loot with the item still exists; nobody else gets anything, the item is marked as looted and counted off the items left, and the
  roll is removed.\<close>

theorem need_roll_winner:
  assumes "RollId (grp g w) ! i = r" and "0 < totalNeed r" and "playerVote r = xs @ (p, NEED) # ys" and "0 < draw e r p"
    and "\<forall>(q, v)\<in>set xs. v = NEED \<longrightarrow> draw e r q < draw e r p"
    and "\<forall>(q, v)\<in>set ys. v = NEED \<longrightarrow> draw e r q \<le> draw e r p"
    and "find_player w p \<noteq> None" and "roll_loot r = Some l" and "gw_loots w l = Some L"
    and "slot_item (unat (itemSlot r)) L = Inr item"
    and "ge_canStore e p (roll_itemid r) (li_count item) = EQUIP_ERR_OK"
  shows "\<exists>w' L'. CountTheRoll e i g w = Inr w' \<and> gw_groups w' = gw_groups (erase_roll i g w) \<and>
    gifts w' = gifts w @ [GCall p (StoreNewItem (roll_itemid r) (li_randomPropertyId item) (li_count item))] \<and>
    gw_loots w' l = Some L' \<and> slot_item (unat (itemSlot r)) L' = Inr (item\<lparr>is_looted := True\<rparr>) \<and>
    unlootedCount L' = unlootedCount L - 1"
proof -
  have "roll_winner e (\<lambda>v. v = NEED) r = (p, draw e r p, NEED)"
    by (rule roll_winner_first_largest [OF assms(3) _ assms(4)]) (use assms in simp_all)
  from CountTheRoll_need [OF assms(1,2) _ this assms(7-11)] assms(3) show ?thesis by (auto simp: item_taken_def)
qed

text \<open>The example: a loot of one item, and a roll for it by players 1, 2 and 3.\<close>

definition example_item :: loot_item where
  "example_item = \<lparr>li_itemid = 7, li_randomSuffix = 0, li_randomPropertyId = 0, li_count = 1, is_looted = False,
     is_blocked = True, freeforall = False, is_underthreshold = False, follow_loot_rules = False\<rparr>"

definition example_loot :: loot where
  "example_loot = \<lparr>loot_items = [example_item], quest_items = [], unlootedCount = 1, PlayersLooting = []\<rparr>"

definition example_roll :: "(u64, RollVote) std_map \<Rightarrow> u8 \<Rightarrow> u8 \<Rightarrow> Roll" where
  "example_roll votes n need = (roll_new 9 example_item)\<lparr>playerVote := votes, totalPlayersRolling := n, totalNeed := need,
     roll_loot := Some 0\<rparr>"

definition example_rolling :: "Roll \<Rightarrow> group_world" where
  "example_rolling r = example_raid\<lparr>gw_groups := [0 \<mapsto> example_group\<lparr>RollId := [r]\<rparr>], gw_loots := [0 \<mapsto> example_loot]\<rparr>"

lemma example_rolling_simps:
  "gw_groups (example_rolling r) 0 = Some (example_group\<lparr>RollId := [r]\<rparr>)" "RollId (grp 0 (example_rolling r)) = [r]"
  "gw_loots (example_rolling r) 0 = Some example_loot" "p \<in> {1, 2, 3} \<Longrightarrow> find_player (example_rolling r) p \<noteq> None"
  "gifts (example_rolling r) = []" "slot_item 0 example_loot = Inr example_item"
  "loot_items example_loot = [example_item]" "li_count example_item = 1" "li_randomPropertyId example_item = 0"
  by (auto simp: example_item_def example_rolling_def grp_def find_player_def example_raid_def example_player_def gifts_def group_start_def
      slot_item_def example_loot_def)

lemma example_roll_simps:
  "playerVote (example_roll vs n k) = vs" "totalNeed (example_roll vs n k) = k" "roll_loot (example_roll vs n k) = Some 0"
  "itemSlot (example_roll vs n k) = 0" "roll_itemid (example_roll vs n k) = 7" "itemGUID (example_roll vs n k) = 9"
  "totalGreed (example_roll vs n k) = 0" "totalPass (example_roll vs n k) = 0" "totalPlayersRolling (example_roll vs n k) = n"
  "draw example_env (example_roll vs n k) p = ucast (ucast p :: u32)" "ge_canStore example_env p a c = EQUIP_ERR_OK"
  by (simp_all add: example_roll_def roll_new_def draw_def example_env_def EQUIP_ERR_OK_def example_item_def)

lemma need_roll_winner_witness:
  "\<exists>w'. CountTheRoll example_env 0 0 (example_rolling (example_roll [(1, NEED), (2, NEED), (3, GREED)] 3 2)) = Inr w' \<and>
     gifts w' = [GCall 2 (StoreNewItem 7 0 1)]"
  using need_roll_winner [of 0 "example_rolling (example_roll [(1, NEED), (2, NEED), (3, GREED)] 3 2)" 0 _ "[(1, NEED)]" 2 "[(3, GREED)]" example_env 0 example_loot example_item]
  by (auto simp: example_rolling_simps example_roll_simps)

section \<open>Votes\<close>

lemma foldl_update_all:
  "n \<le> length xs \<Longrightarrow> foldl (\<lambda>rs i. rs[i := f (rs ! i)]) xs [0..<n] = map f (take n xs) @ drop n xs"
proof (induction n)
  case (Suc n)
  then show ?case
    by (simp add: list_update_append nth_append take_Suc_conv_app_nth Cons_nth_drop_Suc [symmetric])
qed simp

text \<open>C35: When a member leaves, his votes are withdrawn from every roll and nothing else happens to the
  rolls: none is counted, even if everybody who is left has voted.\<close>

theorem leaving_voter_never_counts:
  assumes "gw_groups w g \<noteq> None" and "distinct (map itemGUID (RollId (grp g w)))"
  shows "\<exists>w'. remove_from_rolls e guid [0..<length (RollId (grp g w))] g w = Inr w' \<and> gw_out w' = gw_out w \<and>
    RollId (grp g w') = map (without_voter guid) (RollId (grp g w))"
  using remove_from_rolls_only_withdraws [OF assms(1) _ assms(2), of "[0..<length (RollId (grp g w))]" e guid]
  by (simp add: foldl_update_all [of "length (RollId (grp g w))" "RollId (grp g w)" "without_voter guid"] del: not_None_eq) blast

lemma leaving_voter_never_counts_witness:
  "\<exists>w'. remove_from_rolls example_env 3 [0] 0 (example_rolling (example_roll [(1, NEED), (2, NEED), (3, NOT_EMITED_YET)] 3 2)) = Inr w' \<and>
     (\<exists>r. RollId (grp 0 w') = [r] \<and> all_voted r \<and> playerVote r = [(1, NEED), (2, NEED)])"
proof -
  let ?r = "example_roll [(1, NEED), (2, NEED), (3, NOT_EMITED_YET)] 3 2"
  let ?w = "example_rolling ?r"
  have "\<exists>w'. remove_from_rolls example_env 3 [0..<length (RollId (grp 0 ?w))] 0 ?w = Inr w' \<and> gw_out w' = gw_out ?w \<and>
      RollId (grp 0 w') = map (without_voter 3) (RollId (grp 0 ?w))"
    by (rule leaving_voter_never_counts) (simp_all add: example_rolling_simps)
  then obtain w' where "remove_from_rolls example_env 3 [0] 0 ?w = Inr w'" "RollId (grp 0 w') = [without_voter 3 ?r]"
    by (auto simp: example_rolling_simps)
  moreover have "all_voted (without_voter 3 ?r)" "playerVote (without_voter 3 ?r) = [(1, NEED), (2, NEED)]"
    by (simp_all add: without_voter_def withdraw_vote_def all_voted_def example_roll_simps)
  ultimately show ?thesis by blast
qed


lemma cast_vote_same [simp]: "itemGUID (cast_vote p c r) = itemGUID r" "roll_loot (cast_vote p c r) = roll_loot r"
  by (simp_all add: cast_vote_def)




section \<open>Whose turn it is\<close>

text \<open>Sending the group list only counts the packets.\<close>

lemma SendUpdate_counter:
  "gw_players (SendUpdate e g w) = gw_players w \<and>
   (\<exists>c. gw_groups (SendUpdate e g w) = gw_groups (upd_group g (\<lambda>G. G\<lparr>m_counter := c G\<rparr>) w))"
proof -
  have "gw_players (foldl (\<lambda>w s. SendUpdateToPlayer e (slot_guid s) (Some s) g w) w ss) = gw_players w \<and>
     (\<exists>c. gw_groups (foldl (\<lambda>w s. SendUpdateToPlayer e (slot_guid s) (Some s) g w) w ss) = gw_groups (upd_group g (\<lambda>G. G\<lparr>m_counter := c G\<rparr>) w))" for ss
  proof (induction ss arbitrary: w)
    case Nil
    show ?case by (intro conjI exI [of _ m_counter]) (simp_all add: upd_group_def option.map_ident fun_upd_idem)
  next
    case (Cons s ss)
    let ?v = "SendUpdateToPlayer e (slot_guid s) (Some s) g w"
    have "gw_players ?v = gw_players w \<and> (\<exists>c. gw_groups ?v = gw_groups (upd_group g (\<lambda>G. G\<lparr>m_counter := c G\<rparr>) w))"
    proof (cases "find_player w (slot_guid s) = None \<or> group_of w (slot_guid s) \<noteq> Some g")
      case True
      then have "?v = w" by (auto simp: SendUpdateToPlayer_def)
      then show ?thesis by (intro conjI exI [of _ m_counter]) (simp_all add: upd_group_def option.map_ident fun_upd_idem)
    next
      case False
      then show ?thesis by (auto simp: SendUpdateToPlayer_def Let_def)
    qed
    then obtain c where c: "gw_players ?v = gw_players w" "gw_groups ?v = gw_groups (upd_group g (\<lambda>G. G\<lparr>m_counter := c G\<rparr>) w)" by blast
    from Cons.IH [of ?v] obtain d where d: "gw_players (foldl (\<lambda>w s. SendUpdateToPlayer e (slot_guid s) (Some s) g w) ?v ss) = gw_players ?v"
      "gw_groups (foldl (\<lambda>w s. SendUpdateToPlayer e (slot_guid s) (Some s) g w) ?v ss) = gw_groups (upd_group g (\<lambda>G. G\<lparr>m_counter := d G\<rparr>) ?v)" by blast
    have "gw_groups (upd_group g (\<lambda>G. G\<lparr>m_counter := d G\<rparr>) ?v) = gw_groups (upd_group g (\<lambda>G. G\<lparr>m_counter := d (G\<lparr>m_counter := c G\<rparr>)\<rparr>) w)"
      using c(2) by (simp add: upd_group_def fun_eq_iff option.map_comp o_def)
    then show ?case unfolding foldl.simps using c(1) d by auto
  qed
  then show ?thesis by (simp add: SendUpdate_def)
qed

lemma SendUpdate_fields:
  assumes "gw_groups w g \<noteq> None"
  shows "gw_groups (SendUpdate e g w) g \<noteq> None" "m_memberSlots (grp g (SendUpdate e g w)) = m_memberSlots (grp g w)"
    "m_lootMethod (grp g (SendUpdate e g w)) = m_lootMethod (grp g w)" "m_looterGuid (grp g (SendUpdate e g w)) = m_looterGuid (grp g w)"
    "gw_players (SendUpdate e g w) = gw_players w"
proof -
  from SendUpdate_counter obtain c where p: "gw_players (SendUpdate e g w) = gw_players w"
    and g: "gw_groups (SendUpdate e g w) = gw_groups (upd_group g (\<lambda>G. G\<lparr>m_counter := c G\<rparr>) w)" by blast
  then show "gw_players (SendUpdate e g w) = gw_players w" "gw_groups (SendUpdate e g w) g \<noteq> None" using assms by simp_all
  have "grp g (SendUpdate e g w) = (grp g w)\<lparr>m_counter := c (grp g w)\<rparr>" using assms grp_cong [OF g] by simp
  then show "m_memberSlots (grp g (SendUpdate e g w)) = m_memberSlots (grp g w)"
    "m_lootMethod (grp g (SendUpdate e g w)) = m_lootMethod (grp g w)" "m_looterGuid (grp g (SendUpdate e g w)) = m_looterGuid (grp g w)" by simp_all
qed

lemma find_all: "\<forall>x\<in>set xs. P x \<Longrightarrow> find P xs = (if xs = [] then None else Some (hd xs))"
  by (cases xs) simp_all

lemma takeWhile_before:
  "distinct (map f xs) \<Longrightarrow> i < length xs \<Longrightarrow> length (takeWhile (\<lambda>s. f s \<noteq> f (xs ! i)) xs) = i"
proof (induction xs arbitrary: i)
  case (Cons x xs)
  then show ?case by (cases i) auto
qed simp

lemma next_looter_cyclic:
  assumes d: "distinct (map slot_guid ss)" and i: "i < length ss" and old: "slot_guid (ss ! i) = old"
    and all: "\<forall>s\<in>set ss. eligible e w s"
  shows "next_looter e w old ss = Some (ss ! ((i + 1) mod length ss))"
proof -
  have t: "length (takeWhile (\<lambda>s. slot_guid s \<noteq> old) ss) = i" using takeWhile_before [OF d i] old by simp
  have a: "find (eligible e w) (drop (i + 1) ss) = (if i + 1 < length ss then Some (ss ! (i + 1)) else None)"
    by (subst find_all) (use all in \<open>auto simp: hd_drop_conv_nth dest: in_set_dropD\<close>)
  have b: "find (eligible e w) (take (i + 1) ss) = Some (ss ! 0)"
    by (subst find_all) (use all i in \<open>auto simp: hd_conv_nth dest: in_set_takeD\<close>)
  show ?thesis
  proof (cases "i + 1 < length ss")
    case True
    with a show ?thesis by (simp add: next_looter_def slots_upto_def t)
  next
    case False
    with i have "i + 1 = length ss" by simp
    with a b show ?thesis by (simp add: next_looter_def slots_upto_def t)
  qed
qed

text \<open>C19: With round robin loot, as long as all members are near, the turn passes through the members
  in the order of the list and around: after k updates it is the turn of the k-th member after the
  first.\<close>

theorem loot_turn_is_cyclic:
  assumes "gw_groups w g \<noteq> None" and "ss = m_memberSlots (grp g w)" and "distinct (map slot_guid ss)" and "i < length ss"
    and "m_looterGuid (grp g w) = slot_guid (ss ! i)"
    and "m_lootMethod (grp g w) \<noteq> MASTER_LOOT" and "m_lootMethod (grp g w) \<noteq> FREE_FOR_ALL"
    and "\<forall>s\<in>set ss. eligible e w s"
  shows "m_looterGuid (grp g ((UpdateLooterGuid e False g ^^ k) w)) = slot_guid (ss ! ((i + k) mod length ss))"
proof -
  let ?inv = "\<lambda>k v. gw_groups v g \<noteq> None \<and> m_memberSlots (grp g v) = ss \<and> m_lootMethod (grp g v) = m_lootMethod (grp g w) \<and>
    gw_players v = gw_players w \<and> m_looterGuid (grp g v) = slot_guid (ss ! ((i + k) mod length ss))"
  have n: "0 < length ss" using assms(4) by linarith
  have step: "?inv (Suc k) (UpdateLooterGuid e False g v)" if v: "?inv k v" for k v
  proof -
    let ?j = "(i + k) mod length ss" and ?s = "ss ! ((i + Suc k) mod length ss)"
    have el: "eligible e v = eligible e w" using v by (simp add: fun_eq_iff eligible_def find_player_def)
    have "next_looter e v (slot_guid (ss ! ?j)) ss = Some (ss ! ((?j + 1) mod length ss))"
      by (rule next_looter_cyclic [OF assms(3) _ refl]) (use n assms(8) el in simp_all)
    then have nl: "next_looter e v (m_looterGuid (grp g v)) (m_memberSlots (grp g v)) = Some ?s" using v by (simp add: mod_Suc_eq)
    let ?u = "upd_group g (\<lambda>G. G\<lparr>m_looterGuid := slot_guid ?s\<rparr>) v"
    have run: "UpdateLooterGuid e False g v = (if m_looterGuid (grp g v) \<noteq> slot_guid ?s then SendUpdate e g ?u else v)"
      using nl v assms(6,7) by (simp add: UpdateLooterGuid_def Let_def)
    have al: "gw_groups ?u g \<noteq> None" using v by simp
    from SendUpdate_fields [OF al, of e] v show ?thesis unfolding run by simp
  qed
  have "?inv k ((UpdateLooterGuid e False g ^^ k) w)"
  proof (induction k)
    case 0
    with assms show ?case by simp
  next
    case (Suc k)
    from step [OF this] show ?case by simp
  qed
  then show ?thesis by blast
qed

lemma loot_turn_is_cyclic_witness:
  "m_looterGuid (grp 0 ((UpdateLooterGuid example_env False 0 ^^ 4)
     (example_raid\<lparr>gw_groups := [0 \<mapsto> example_group\<lparr>m_looterGuid := 1\<rparr>]\<rparr>))) = 2"
proof -
  let ?w = "example_raid\<lparr>gw_groups := [0 \<mapsto> example_group\<lparr>m_looterGuid := 1\<rparr>]\<rparr>"
  let ?ss = "[example_slot 1 0, example_slot 2 MEMBER_FLAG_ASSISTANT, example_slot 3 0]"
  have "m_looterGuid (grp 0 ((UpdateLooterGuid example_env False 0 ^^ 4) ?w)) = slot_guid (?ss ! ((0 + 4) mod length ?ss))"
    by (rule loot_turn_is_cyclic)
      (auto simp: grp_def example_group_def example_slot_def GROUP_LOOT_def MASTER_LOOT_def FREE_FOR_ALL_def eligible_def
        find_player_def example_raid_def example_player_def example_env_def example_attr_def)
  then show ?thesis by (simp add: example_slot_def)
qed

end
