(* ===== verification/Group_Store.thy ===== *)
theory Group_Store
  imports Group_Members
begin

text \<open>
  The numbers under which groups are stored in the database: along every sequence of allocations
  and releases the next number is free, so no two groups share one.
\<close>

lemma free_from_Some: "free_from store i = Some j \<Longrightarrow> i \<le> j \<and> j < 0xFFFFFFFF \<and> slot_free store j"
  by (induction store i rule: free_from.induct) (subst (asm) free_from.simps, auto split: if_splits)

lemma free_from_finds:
  "i \<le> k \<Longrightarrow> k < 0xFFFFFFFF \<Longrightarrow> slot_free store k \<Longrightarrow> \<exists>j\<le>k. free_from store i = Some j"
proof (induction store i rule: free_from.induct)
  case (1 store i)
  show ?case
  proof (cases "slot_free store i")
    case True
    with 1 show ?thesis by (subst free_from.simps) auto
  next
    case False
    with "1.prems" have "Suc i \<le> k" by (metis le_neq_implies_less Suc_leI)
    with 1 False show ?thesis by (subst free_from.simps) auto
  qed
qed

inductive store_reach :: "group_mgr \<Rightarrow> bool" where
  Start: "store_reach mgr_new"
| Allocate: "store_reach (gw_mgr w) \<Longrightarrow> GenerateNewGroupDbStoreId w = (n, w') \<Longrightarrow>
    store_reach (RegisterGroupDbStoreId n g (gw_mgr w'))"
| Release: "store_reach m \<Longrightarrow> FreeGroupDbStoreId n m = Inr m' \<Longrightarrow> store_reach m'"

definition next_free :: "group_mgr \<Rightarrow> bool" where
  "next_free m \<longleftrightarrow> slot_free (GroupDbStore m) (unat (NextGroupDbStoreId m)) \<and>
     unat (NextGroupDbStoreId m) \<le> Suc (length (GroupDbStore m))"

lemma GenerateNew_next:
  assumes run: "GenerateNewGroupDbStoreId w = (n, w')" and ok: "next_free (gw_mgr w)"
    and few: "length (GroupDbStore (gw_mgr w)) < 0xFFFFFFFC"
  shows "\<exists>j. n = NextGroupDbStoreId (gw_mgr w) \<and> gw_mgr w' = (gw_mgr w)\<lparr>NextGroupDbStoreId := of_nat j\<rparr> \<and> gw_out w' = gw_out w \<and>
    unat n < j \<and> j < 0xFFFFFFFF \<and> slot_free (GroupDbStore (gw_mgr w)) j \<and> j \<le> max (unat n + 1) (length (GroupDbStore (gw_mgr w)))"
proof -
  let ?m = "gw_mgr w" and ?k = "max (unat (NextGroupDbStoreId (gw_mgr w)) + 1) (length (GroupDbStore (gw_mgr w)))"
  have n: "n = NextGroupDbStoreId ?m" using run by (auto simp: GenerateNewGroupDbStoreId_def Let_def)
  have small: "unat n < 0xFFFFFFFE" using ok few by (simp add: next_free_def n)
  then have n1: "unat (n + 1) = unat n + 1" by (simp add: unat_word_ariths)
  have "slot_free (GroupDbStore ?m) ?k" by (simp add: slot_free_def)
  moreover have "unat (n + 1) \<le> ?k" "?k < 0xFFFFFFFF" using n1 n small few by simp_all
  ultimately obtain j where j: "j \<le> ?k" "free_from (GroupDbStore ?m) (unat (n + 1)) = Some j"
    using free_from_finds by blast
  from free_from_Some [OF j(2)] n1 have jj: "unat n < j" "j < 0xFFFFFFFF" "slot_free (GroupDbStore ?m) j" by simp_all
  have "unat (of_nat j :: u32) = j" using jj(2) by (simp add: unat_of_nat)
  then have "n \<noteq> of_nat j" using jj(1) by auto
  then have "w' = upd_mgr (\<lambda>m. m\<lparr>NextGroupDbStoreId := of_nat j\<rparr>) w"
    using run j(2) n by (auto simp: GenerateNewGroupDbStoreId_def Let_def)
  with n jj j(1) show ?thesis by (auto simp: upd_mgr_def)
qed

lemma Register_free:
  "slot_free store j \<Longrightarrow> j \<noteq> unat n \<Longrightarrow>
     slot_free (GroupDbStore (RegisterGroupDbStoreId n g (m\<lparr>GroupDbStore := store\<rparr>))) j"
  by (auto simp: slot_free_def RegisterGroupDbStoreId_def Let_def nth_append nth_list_update)

lemma Register_length:
  "length (GroupDbStore (RegisterGroupDbStoreId n g m)) = max (unat n + 1) (length (GroupDbStore m))"
  "NextGroupDbStoreId (RegisterGroupDbStoreId n g m) = NextGroupDbStoreId m"
  by (auto simp: RegisterGroupDbStoreId_def Let_def)

lemma store_reach_next_free:
  "store_reach m \<Longrightarrow> length (GroupDbStore m) < 0xFFFFFFFC \<Longrightarrow> next_free m"
proof (induction rule: store_reach.induct)
  case Start
  show ?case by (simp add: next_free_def mgr_new_def slot_free_def)
next
  case (Allocate w n w' g)
  have mw: "GroupDbStore (gw_mgr w') = GroupDbStore (gw_mgr w)"
    using Allocate.hyps(2) by (auto simp: GenerateNewGroupDbStoreId_def Let_def upd_mgr_def)
  then have few: "length (GroupDbStore (gw_mgr w)) < 0xFFFFFFFC" using Allocate.prems by (simp add: Register_length)
  from GenerateNew_next [OF Allocate.hyps(2) Allocate.IH [OF few] few] obtain j where
    j: "gw_mgr w' = (gw_mgr w)\<lparr>NextGroupDbStoreId := of_nat j\<rparr>" "unat n < j" "j < 0xFFFFFFFF"
    "slot_free (GroupDbStore (gw_mgr w)) j" "j \<le> max (unat n + 1) (length (GroupDbStore (gw_mgr w)))" by blast
  have u: "unat (of_nat j :: u32) = j" using j(3) by (simp add: unat_of_nat)
  have "slot_free (GroupDbStore (RegisterGroupDbStoreId n g ((gw_mgr w')\<lparr>GroupDbStore := GroupDbStore (gw_mgr w)\<rparr>))) j"
    by (rule Register_free [OF j(4)]) (use j(2) in simp)
  then show ?case using j u by (simp add: next_free_def Register_length mw)
next
  case (Release m n m')
  then have n: "unat n < length (GroupDbStore m)" and m': "GroupDbStore m' = (GroupDbStore m)[unat n := None]"
    "NextGroupDbStoreId m' = min n (NextGroupDbStoreId m)"
    by (auto simp: FreeGroupDbStoreId_def Let_def min_def split: if_splits)
  have "next_free m" using Release m' by simp
  then show ?case using n m' by (auto simp: next_free_def slot_free_def nth_list_update min_def word_le_nat_alt)
qed

text \<open>C28: Along every sequence of groups being stored and deleted, a new group gets a number that no
  stored group has, and the server is not stopped for want of numbers, while the vector of stored groups
  has fewer than 0xFFFFFFFC entries.\<close>

theorem store_number_unused:
  assumes "store_reach (gw_mgr w)" and "length (GroupDbStore (gw_mgr w)) < 0xFFFFFFFC"
    and "GenerateNewGroupDbStoreId w = (n, w')"
  shows "GetGroupByDbStoreId n (gw_mgr w) = None \<and> gw_out w' = gw_out w"
proof -
  note ok = store_reach_next_free [OF assms(1,2)]
  from GenerateNew_next [OF assms(3) ok assms(2)] have "n = NextGroupDbStoreId (gw_mgr w)" "gw_out w' = gw_out w" by blast+
  with ok show ?thesis by (simp add: next_free_def slot_free_def GetGroupByDbStoreId_def)
qed

definition store_example :: group_world where
  "store_example = \<lparr>gw_groups = (\<lambda>_. None), gw_next = 0, gw_players = (\<lambda>_. None), gw_loots = (\<lambda>_. None),
     gw_mgr = mgr_new, gw_itemGuid = 0, gw_out = []\<rparr>"

lemma store_number_unused_witness:
  "\<exists>n w'. GenerateNewGroupDbStoreId store_example = (n, w') \<and> GetGroupByDbStoreId n mgr_new = None \<and> gw_out w' = []"
proof -
  obtain n w' where run: "GenerateNewGroupDbStoreId store_example = (n, w')" by fastforce
  have m: "gw_mgr store_example = mgr_new" "gw_out store_example = []" by (simp_all add: store_example_def)
  from store_number_unused [OF _ _ run] m run show ?thesis by (simp add: store_reach.Start) (simp add: mgr_new_def)
qed

end
