(* ===== verification/Spec2Isabelle.thy ===== *)
theory Spec2Isabelle
  imports Channel_Handlers ByteBuffer_Properties UpdateMask EventProcessor Timers LockedQueue Reputation_Properties LFG_Properties BG_Properties Group_Loot_Properties Group_Store
begin

text \<open>
  A verification library for the core of the WoWCircle 4.3.4 game server (a TrinityCore
  derivative in C++, under \<^verbatim>\<open>src/src/server\<close>): the packet buffer every message goes through, the
  containers and timers that carry packets and events, and the game components built on them
  whose logic is their own: faction standings, chat channels, the queue of the dungeon finder, the queues
  of the battlegrounds, and groups (parties, raids and their loot rolls).

  \<^bold>\<open>How the parts interact.\<close> The network thread puts received packets into a \<^verbatim>\<open>LockedQueue\<close>; the
  world thread takes them out and gives each to a handler, which reads its fields with
  \<^verbatim>\<open>ByteBuffer\<close> and calls a component (here the channel handlers call \<^verbatim>\<open>ChannelMgr\<close> and \<^verbatim>\<open>Channel\<close>).
  A component changes its state, queues database statements and answers with \<^verbatim>\<open>WorldPacket\<close>s,
  which are written with \<^verbatim>\<open>ByteBuffer\<close> again. Changed object fields travel as an \<^verbatim>\<open>UpdateMask\<close>
  and the values it selects. Delayed actions are events of an \<^verbatim>\<open>EventProcessor\<close>, and periodic
  work is paced by the timers.

  \<^bold>\<open>Conventions.\<close> Integers keep their C++ width (\<open>u8\<close>, \<open>u16\<close>, \<open>u32\<close>, \<open>u64\<close>) and wrap; \<open>size_t\<close> values
  are naturals with the wrap-around of their additions written out (\<open>size_add\<close>). An operation
  that throws, asserts or would read outside its storage returns \<open>Inl\<close> of an error. \<^verbatim>\<open>std::map\<close>
  and \<^verbatim>\<open>std::set\<close> are lists with increasing keys (\<open>Std_Map\<close>), because their iteration order shows in
  packets. Byte strings are lists of bytes. What a component sends or stores outside itself
  is appended to an output list in its state, in the order of the calls. What it only
  looks up in code that is not modelled (a player by GUID or name, the account's security
  level, the configuration, rows of a table) is a record of functions passed to the operation.

  \<^bold>\<open>Theories.\<close>
    \<^item> \<open>Prelude\<close>: widths, results (\<open>rbind\<close>), bits and bytes of words.
    \<^item> \<open>Std_Map\<close>: ordered maps and sets; the locale \<open>ordered_map\<close> derives how counts over the
      entries change with one assignment, and is interpreted on the lists.
    \<^item> \<open>Object_Guid\<close>: \<^verbatim>\<open>game/Entities/Object/ObjectDefines.h\<close>, how the kind and the counter of an object are
      packed into its GUID; channels, the dungeon finder and groups share it.
    \<^item> \<open>ByteBuffer\<close>, \<open>ByteBuffer_Bits\<close>, \<open>ByteBuffer_Packed\<close>, \<open>ByteBuffer_Codecs\<close>:
      \<^verbatim>\<open>shared/Packets/ByteBuffer.h\<close>. The record \<open>byte_buffer\<close> has the members \<^verbatim>\<open>_rpos\<close>, \<^verbatim>\<open>_wpos\<close>,
      \<^verbatim>\<open>_bitpos\<close>, \<^verbatim>\<open>_curbitval\<close> and \<^verbatim>\<open>_storage\<close>. The locale \<open>codec\<close> is the contract of a
      writer and a reader of one format; vectors, lists and maps are derived from the
      contract of their elements, and integers, strings and packed GUIDs are its instances.
    \<^item> \<open>ByteBuffer_Properties\<close>: round trips of integers, strings, containers, packed GUIDs
      and times, bit fields and byte masks; the byte-wise bit loops are equivalent to the bit-wise
      ones; the format does not depend on the host; reads stay inside the storage.
    \<^item> \<open>UpdateMask\<close>: \<^verbatim>\<open>game/Entities/Object/Updates/UpdateMask.h\<close>, with the array behind a
      pointer that may be null or indeterminate.
    \<^item> \<open>EventProcessor\<close>: \<^verbatim>\<open>shared/Utilities/EventProcessor.cpp\<close>; the events' virtual methods are
      parameters, and the locale \<open>event_execute\<close> holds what is proved for any of them that does
      not plan events into the past: which events an update handles, in which order, and that it ends. The loop of \<^verbatim>\<open>Update\<close> has fuel; the number of events plus what
      they plan is enough, and the termination property says so.
    \<^item> \<open>Timers\<close>: \<^verbatim>\<open>shared/Utilities/Timer.h\<close>.
    \<^item> \<open>LockedQueue\<close>: \<^verbatim>\<open>shared/Threading/LockedQueue.h\<close>; an operation is the list of its accesses, and
      threads are an inductive step relation whose steps are single accesses, so the lock is part of
      what is proved.
    \<^item> \<open>Reputation\<close>, \<open>Reputation_Invariant\<close>, \<open>Reputation_Properties\<close>:
      \<^verbatim>\<open>game/Reputation/ReputationMgr.cpp\<close>: the standing of each faction, its flags, the counters of
      visible, honored, revered and exalted factions, packets and database rows. The
      invariant ties the counters to the standings through every sequence of operations.
    \<^item> \<open>Text_Util\<close>, \<open>WorldPacket\<close>: the tokenizer of \<^verbatim>\<open>shared/Utilities/Util.cpp\<close>, C strings and
      decimal numbers; packets with an opcode (\<^verbatim>\<open>game/Server/WorldPacket.h\<close>).
    \<^item> \<open>Channel\<close>, \<open>Channel_Ops\<close>: \<^verbatim>\<open>game/Chat/Channels/Channel.cpp\<close>: members, bans, owner, flags
      and every operation with the packets it makes. \<open>Channel_Spec\<close> is the abstract
      specification: who may do what, and what it does to members, bans and owner; every
      operation refines it. \<open>Channel_Invariant\<close> proves that the
      members' flags, the owner and the bans stay consistent through any run of
      ordinary requests (\<open>chan_run\<close>). \<open>Channel_Packets\<close> shows that no operation
      fails, \<open>Channel_Properties\<close> holds the properties.
    \<^item> \<open>ChannelMgr\<close>, \<open>Channel_Handlers\<close>: \<^verbatim>\<open>game/Chat/Channels/ChannelMgr.cpp\<close> and
      \<^verbatim>\<open>game/Handlers/ChannelHandler.cpp\<close>: the map of channels, and from the client's packet to the
      operation.
    \<^item> \<open>LFG_Roles\<close>: \<^verbatim>\<open>LFGMgr::CheckGroupRoles\<close> (\<^verbatim>\<open>game/DungeonFinding/LFGMgr.cpp\<close>), a search that calls
      itself with one role less; the fuel is three calls per player and one more, which
      \<open>role_bits\<close> shows to be enough. It is proved sound and complete.
    \<^item> \<open>LFG_Queue\<close>, \<open>LFG_Match\<close>: \<^verbatim>\<open>game/DungeonFinding/LFGQueue.cpp\<close>: the queued entries, the cache of
      combinations under keys of decimal GUIDs, the waiting times, and the matching. The
      manager's answers and \<^verbatim>\<open>urand\<close> are the environment; proposals and status messages are in
      the state. The fuel of the search is twice the waiting entries plus two, because each call takes
      one entry off the list it shares with its caller; that of \<^verbatim>\<open>FindGroups\<close> is one more than the
      new entries. \<open>LFG_Proposals\<close> and \<open>LFG_Search\<close> show that every step keeps what the
      entries offer and adds only sound proposals (\<open>progress\<close>), \<open>LFG_Properties\<close> holds the
      properties, for every queue that its operations can build (\<open>lfg_reachable\<close>); no search runs
      out of fuel.
    \<^item> \<open>BG_Pools\<close>: the selection pools of \<^verbatim>\<open>game/Battlegrounds/BattlegroundQueue.cpp\<close> and the loops that fill and
      balance them, over groups that are allocated objects. The fuel of the balancing loop is the square
      of the queued groups plus one, plus one: each round kicks a group or takes new ones off the queues.
      \<open>BG_Selection\<close> proves what the loops leave in the pools.
    \<^item> \<open>BG_Manager\<close>: the counters and free slots of \<^verbatim>\<open>game/Battlegrounds/Battleground.cpp\<close> and the stores of
      \<^verbatim>\<open>BattlegroundMgr.cpp\<close>.
    \<^item> \<open>BG_Queue\<close>, \<open>BG_Match\<close>: joining, leaving (a recursion that ends because each call erases a player),
      waiting times, invitations, the three kinds of matches and the update of a queue. Iterators that
      an operation invalidates are errors. \<^verbatim>\<open>CreateNewBattleground\<close> is a parameter.
    \<^item> \<open>BG_Invariant\<close>, \<open>BG_Update\<close>: the consistency of players, groups and queues, stated over four views of
      the state, and its preservation by every operation; \<open>bq_reachable\<close> are the queues that joins, leaves and
      updates build. \<open>BG_Properties\<close> holds the properties.
    \<^item> \<open>Group_State\<close>: \<^verbatim>\<open>game/Groups/Group.h\<close> and \<^verbatim>\<open>GroupReference.h\<close>: groups are objects at addresses that may have been
      deleted, players point to them, and each group lists the references to it. \<open>Group_Slots\<close>, \<open>Group_Members\<close>,
      \<open>Group_Loot\<close>: \<^verbatim>\<open>Group.cpp\<close> and \<^verbatim>\<open>GroupMgr.cpp\<close>: member list, icons, markers, flags, conversions; invitations,
      creating, joining, leaving, disbanding, loading and the numbers of the store; rolls for loot.
      \<open>Group_Handlers\<close>: \<^verbatim>\<open>game/Handlers/GroupHandler.cpp\<close> and what a player does to groups when he logs in
      or out or enters a battleground.
    \<^item> \<open>Group_Invariant\<close>, \<open>Group_Limits\<close>, \<open>Group_Quiet\<close>, \<open>Group_World\<close>, \<open>Group_Lifecycle\<close>, \<open>Group_Reachable\<close>: the
      invariant \<open>world_ok\<close> (references agree; members, counters and icons are within their limits) through every
      operation and through the runs \<open>grp_reachable\<close> of requests, logins, logouts, battleground raids and
      loot rolls. \<open>quiet\<close> and \<open>relink\<close> are the changes that only send, or only move references.
    \<^item> \<open>Group_Party\<close>, \<open>Group_Forming\<close>: what inviting and accepting do in full. \<open>Group_Disbanding\<close>: disbanding
      returns and releases the players, the invited players and the manager's entries. \<open>Group_Removal\<close>: removing a member
      returns and leaves him out of the group. \<open>Group_Properties\<close>, \<open>Group_Loot_Properties\<close>, \<open>Group_Store\<close> hold the properties of groups, of loot
      rolls and of the store's numbers.

  \<^bold>\<open>Not modelled.\<close> Of groups: instance binds and their resets, queueing for a battleground as a group,
  guild groups, member statistics, addon messages and the contents of the invitation packet; groups loaded
  from the database are modelled but not part of the runs. Log output; memory capacity (reserve); the clock (its value is an argument);
  locale-dependent text folding (a parameter). The rest of the game (players, spells, maps,
  the play inside battlegrounds, scripts) is an object graph of some hundred thousand lines with floating-point
  state, which the components above see only through their environments. Sockets,
  cryptography, database and file formats are wrappers of libraries.
\<close>

end
